(* ===== verification/Prelude.thy ===== *)
theory Prelude
  imports Main "HOL-Library.List_Lexorder" "HOL-Library.Product_Lexorder" "HOL-Library.Multiset"
begin

section \<open>Shared vocabulary of the development\<close>

text \<open>
  This theory holds what every component uses: the names of the model's basic types, the result
  monad in which a raised exception is a left value, the two table operations the SQL statements of
  the stores are built from (update the rows that satisfy a condition, order rows by a key), and the
  generic lemmas about lists and sorting that carry the component proofs.

  A Python \<open>str\<close> is a list of Unicode code points (\<open>pystr\<close>), so \<open>len\<close> is \<open>length\<close> and the order
  of Python and of SQLite's binary collation is the lexicographic order of \<open>List_Lexorder\<close>. A
  \<open>datetime\<close> is the number of microseconds since the epoch, in UTC (\<open>timestamp\<close>).
\<close>

type_synonym pystr = "nat list"
type_synonym timestamp = int

definition str :: "string \<Rightarrow> pystr" where
  "str s = map of_char s"

text \<open>Python truthiness of an optional string: \<open>if value:\<close> fails for \<open>None\<close> and for the empty string.\<close>

definition truthy :: "pystr option \<Rightarrow> bool" where
  "truthy v = (case v of None \<Rightarrow> False | Some s \<Rightarrow> s \<noteq> [])"

definition microseconds :: int where
  "microseconds = 1000000"

definition seconds_delta :: "int \<Rightarrow> int" where
  "seconds_delta s = s * microseconds"

definition days_delta :: "nat \<Rightarrow> int" where
  "days_delta d = int d * 86400 * microseconds"

subsection \<open>The result monad\<close>

definition res_bind :: "'e + 'a \<Rightarrow> ('a \<Rightarrow> 'e + 'b) \<Rightarrow> 'e + 'b" where
  "res_bind r f = (case r of Inl e \<Rightarrow> Inl e | Inr v \<Rightarrow> f v)"

definition res_map :: "('a \<Rightarrow> 'b) \<Rightarrow> 'e + 'a \<Rightarrow> 'e + 'b" where
  "res_map f r = (case r of Inl e \<Rightarrow> Inl e | Inr v \<Rightarrow> Inr (f v))"

definition check :: "bool \<Rightarrow> 'e \<Rightarrow> 'e + unit" where
  "check b e = (if b then Inr () else Inl e)"

fun res_all :: "('a \<Rightarrow> 'e + 'b) \<Rightarrow> 'a list \<Rightarrow> 'e + 'b list" where
  "res_all f [] = Inr []"
| "res_all f (x # xs) = res_bind (f x) (\<lambda>y. res_bind (res_all f xs) (\<lambda>ys. Inr (y # ys)))"

definition is_ok :: "'e + 'a \<Rightarrow> bool" where
  "is_ok r = (case r of Inl _ \<Rightarrow> False | Inr _ \<Rightarrow> True)"

subsection \<open>Tables\<close>

text \<open>\<open>UPDATE t SET .. WHERE P\<close> and \<open>SELECT .. ORDER BY key\<close> on a table held as a list of rows.\<close>

definition update_where :: "('r \<Rightarrow> bool) \<Rightarrow> ('r \<Rightarrow> 'r) \<Rightarrow> 'r list \<Rightarrow> 'r list" where
  "update_where P f rows = map (\<lambda>r. if P r then f r else r) rows"

definition order_by :: "('r \<Rightarrow> 'k::linorder) \<Rightarrow> 'r list \<Rightarrow> 'r list" where
  "order_by key rows = sort_key key rows"

definition order_by_desc :: "('r \<Rightarrow> 'k::linorder) \<Rightarrow> 'r list \<Rightarrow> 'r list" where
  "order_by_desc key rows = rev (sort_key key rows)"

named_theorems res_simps \<open>unfolding rules of the result monad\<close>
named_theorems table_simps \<open>what a table operation keeps of rows and keys\<close>

subsection \<open>Lemmas about results\<close>

lemma str_eq_iff: "str s = str t \<longleftrightarrow> s = t"
proof -
  have "inj (of_char :: char \<Rightarrow> nat)" by (rule inj_of_char)
  then show ?thesis by (simp add: str_def inj_map_eq_map)
qed

lemma res_bind_Inl [simp]: "res_bind (Inl e) f = Inl e"
  by (simp add: res_bind_def)

lemma res_bind_Inr [simp]: "res_bind (Inr v) f = f v"
  by (simp add: res_bind_def)

lemma res_bind_eq_Inr [simp]: "res_bind r f = Inr w \<longleftrightarrow> (\<exists>v. r = Inr v \<and> f v = Inr w)"
  by (cases r) simp_all

lemma res_bind_eq_Inl [simp]:
  "res_bind r f = Inl e \<longleftrightarrow> r = Inl e \<or> (\<exists>v. r = Inr v \<and> f v = Inl e)"
  by (cases r) simp_all

lemma res_map_eq_Inr [simp]: "res_map f r = Inr w \<longleftrightarrow> (\<exists>v. r = Inr v \<and> w = f v)"
  by (cases r) (auto simp: res_map_def)

lemma res_map_Inr [simp]: "res_map f (Inr v) = Inr (f v)"
  by (simp add: res_map_def)

lemma res_map_Inl [simp]: "res_map f (Inl e) = Inl e"
  by (simp add: res_map_def)

lemma check_eq_Inr [simp]: "check b e = Inr u \<longleftrightarrow> b"
  by (simp add: check_def)

lemma check_eq_Inl [simp]: "check b e = Inl e' \<longleftrightarrow> \<not> b \<and> e' = e"
  by (auto simp: check_def)

lemma check_True [simp]: "check True e = Inr ()"
  by (simp add: check_def)

lemma check_False [simp]: "check False e = Inl e"
  by (simp add: check_def)

lemma is_ok_iff: "is_ok r \<longleftrightarrow> (\<exists>v. r = Inr v)"
  by (cases r) (simp_all add: is_ok_def)

lemma is_ok_simps [simp]: "is_ok (Inr v)" "\<not> is_ok (Inl e)"
  by (simp_all add: is_ok_def)

lemma res_all_eq_Inr:
  "res_all f xs = Inr ys \<longleftrightarrow> list_all2 (\<lambda>x y. f x = Inr y) xs ys"
  by (induction xs arbitrary: ys) (auto simp: list_all2_Cons1)

lemma res_all_id:
  assumes "\<And>x. x \<in> set xs \<Longrightarrow> f x = Inr x"
  shows "res_all f xs = Inr xs"
  using assms by (induction xs) simp_all

lemma res_all_ok: "(\<And>x. x \<in> set xs \<Longrightarrow> is_ok (f x)) \<Longrightarrow> is_ok (res_all f xs)"
  by (induction xs) (auto simp: is_ok_iff)

lemma truthy_iff: "truthy v \<longleftrightarrow> (\<exists>s. v = Some s \<and> s \<noteq> [])"
  by (cases v) (simp_all add: truthy_def)

subsection \<open>Lemmas about lookups\<close>

lemma find_SomeD: "find P xs = Some x \<Longrightarrow> x \<in> set xs \<and> P x"
  by (auto simp: find_Some_iff)

lemma find_eq_None: "find P xs = None \<longleftrightarrow> (\<forall>x\<in>set xs. \<not> P x)"
  by (auto simp: find_None_iff)

lemma find_unique:
  assumes "x \<in> set xs" and "P x" and "\<And>y. y \<in> set xs \<Longrightarrow> P y \<Longrightarrow> y = x"
  shows "find P xs = Some x"
proof (cases "find P xs")
  case None
  with assms(1,2) show ?thesis by (auto simp: find_eq_None)
next
  case (Some y)
  with assms(3) [of y] show ?thesis by (auto dest: find_SomeD)
qed

lemma distinct_key_inj:
  "distinct (map k xs) \<Longrightarrow> x \<in> set xs \<Longrightarrow> y \<in> set xs \<Longrightarrow> k x = k y \<Longrightarrow> x = y"
  by (auto simp: distinct_map dest: inj_onD)

lemma find_by_key:
  assumes "distinct (map k xs)" and "x \<in> set xs"
  shows "find (\<lambda>y. k y = k x) xs = Some x"
  by (rule find_unique) (use assms in \<open>auto dest: distinct_key_inj\<close>)

lemma list_ex_key: "list_ex (\<lambda>x. k x = v) xs \<longleftrightarrow> v \<in> k ` set xs"
  by (auto simp: list_ex_iff)

lemma find_key_unique:
  "distinct (map k xs) \<Longrightarrow> find (\<lambda>y. k y = v) xs = Some w \<Longrightarrow> x \<in> set xs \<Longrightarrow> k x = v \<Longrightarrow> x = w"
  by (auto dest!: find_SomeD intro: distinct_key_inj)

lemma find_filter: "find P (filter Q xs) = find (\<lambda>x. Q x \<and> P x) xs"
  by (induction xs) auto

lemma distinct_map_filter_key: "distinct (map k xs) \<Longrightarrow> distinct (map k (filter P xs))"
  by (auto simp: distinct_map inj_on_def)

subsection \<open>Lemmas about updates\<close>

lemma update_where_Nil [simp]: "update_where P f [] = []"
  by (simp add: update_where_def)

lemma length_update_where [simp, table_simps]: "length (update_where P f xs) = length xs"
  by (simp add: update_where_def)

lemma set_update_where: "set (update_where P f xs) = (\<lambda>r. if P r then f r else r) ` set xs"
  by (simp add: update_where_def)

lemma in_update_whereE:
  assumes "y \<in> set (update_where P f xs)"
  obtains x where "x \<in> set xs" "P x" "y = f x" | "y \<in> set xs" "\<not> P y"
  using assms by (auto simp: set_update_where split: if_splits)

lemma map_update_where [table_simps]:
  "(\<And>r. P r \<Longrightarrow> k (f r) = k r) \<Longrightarrow> map k (update_where P f xs) = map k xs"
  by (simp add: update_where_def)

lemma filter_update_where [table_simps]:
  "(\<And>r. P r \<Longrightarrow> Q (f r) = Q r) \<Longrightarrow>
     filter Q (update_where P f xs) = update_where P f (filter Q xs)"
  by (induction xs) (auto simp: update_where_def)

lemma find_update_where:
  assumes "\<And>r. P r \<Longrightarrow> Q (f r) = Q r"
  shows "find Q (update_where P f xs) = map_option (\<lambda>r. if P r then f r else r) (find Q xs)"
  by (induction xs) (auto simp: update_where_def assms)

lemma update_where_id: "(\<And>x. x \<in> set xs \<Longrightarrow> P x \<Longrightarrow> f x = x) \<Longrightarrow> update_where P f xs = xs"
  by (induction xs) (auto simp: update_where_def)

subsection \<open>Lemmas about ordered selections\<close>

lemma set_order_by [simp]: "set (order_by k xs) = set xs"
  by (simp add: order_by_def)

lemma mset_order_by [simp]: "mset (order_by k xs) = mset xs"
  by (simp add: order_by_def)

lemma length_order_by [simp]: "length (order_by k xs) = length xs"
  by (simp add: order_by_def)

lemma sorted_order_by: "sorted (map k (order_by k xs))"
  by (simp add: order_by_def)

lemma set_order_by_desc [simp]: "set (order_by_desc k xs) = set xs"
  by (simp add: order_by_desc_def)

lemma mset_order_by_desc [simp]: "mset (order_by_desc k xs) = mset xs"
  by (simp add: order_by_desc_def)

lemma length_order_by_desc [simp]: "length (order_by_desc k xs) = length xs"
  by (simp add: order_by_desc_def)

lemma distinct_map_mset: "mset xs = mset ys \<Longrightarrow> distinct (map k xs) = distinct (map k ys)"
  by (metis mset_eq_imp_distinct_iff mset_map)

lemma sorted_split_le:
  assumes "sorted (map k (as @ bs))" and "x \<in> set as" and "y \<in> set bs"
  shows "k x \<le> k y"
  using assms by (auto simp: sorted_append)

lemma take_order_by_le:
  "x \<in> set (take n (order_by k xs)) \<Longrightarrow> y \<in> set (drop n (order_by k xs)) \<Longrightarrow> k x \<le> k y"
  by (rule sorted_split_le [of k "take n (order_by k xs)" "drop n (order_by k xs)"])
    (simp_all add: sorted_order_by del: map_append)

lemma sorted_desc_order_by_desc: "sorted (map k (rev (order_by_desc k xs)))"
  by (simp add: order_by_desc_def)

lemma take_order_by_desc_ge:
  assumes "x \<in> set (take n (order_by_desc k xs))" and "y \<in> set (drop n (order_by_desc k xs))"
  shows "k y \<le> k x"
proof (rule sorted_split_le [of k "rev (drop n (order_by_desc k xs))"
      "rev (take n (order_by_desc k xs))"])
  have "rev (drop n (order_by_desc k xs)) @ rev (take n (order_by_desc k xs)) =
      rev (order_by_desc k xs)"
    by (metis append_take_drop_id rev_append)
  then show "sorted (map k (rev (drop n (order_by_desc k xs)) @
      rev (take n (order_by_desc k xs))))"
    using sorted_desc_order_by_desc by metis
qed (use assms in simp_all)

text \<open>Deleting the rows whose keys are in a selected part leaves exactly the other part.\<close>

lemma filter_other_part:
  assumes "distinct (map k (as @ bs))"
  shows "filter (\<lambda>x. k x \<notin> set (map k bs)) (as @ bs) = as"
    and "filter (\<lambda>x. k x \<notin> set (map k as)) (as @ bs) = bs"
proof -
  have "k x \<notin> set (map k bs)" if "x \<in> set as" for x
    using assms that by (auto simp: image_iff)
  moreover have "k x \<notin> set (map k as)" if "x \<in> set bs" for x
    using assms that by (auto simp: image_iff dest: sym)
  ultimately show "filter (\<lambda>x. k x \<notin> set (map k bs)) (as @ bs) = as"
    and "filter (\<lambda>x. k x \<notin> set (map k as)) (as @ bs) = bs"
    by (auto simp: filter_empty_conv filter_id_conv image_iff)
qed

lemma mset_filter_cong_list: "mset xs = mset ys \<Longrightarrow> mset (filter P xs) = mset (filter P ys)"
  by (simp add: mset_filter)

lemma mset_keep_take:
  assumes "distinct (map k xs)" and "mset ys = mset xs"
  shows "mset (filter (\<lambda>x. k x \<notin> set (map k (drop n ys))) xs) = mset (take n ys)"
proof -
  have d: "distinct (map k (take n ys @ drop n ys))"
    using assms(1) by (simp only: append_take_drop_id distinct_map_mset [OF assms(2), of k])
  have "mset (filter (\<lambda>x. k x \<notin> set (map k (drop n ys))) xs) =
      mset (filter (\<lambda>x. k x \<notin> set (map k (drop n ys))) (take n ys @ drop n ys))"
    by (rule mset_filter_cong_list) (simp add: assms(2))
  then show ?thesis by (simp only: filter_other_part(1) [OF d])
qed

lemma mset_keep_drop:
  assumes "distinct (map k xs)" and "mset ys = mset xs"
  shows "mset (filter (\<lambda>x. k x \<notin> set (map k (take n ys))) xs) = mset (drop n ys)"
proof -
  have d: "distinct (map k (take n ys @ drop n ys))"
    using assms(1) by (simp only: append_take_drop_id distinct_map_mset [OF assms(2), of k])
  have "mset (filter (\<lambda>x. k x \<notin> set (map k (take n ys))) xs) =
      mset (filter (\<lambda>x. k x \<notin> set (map k (take n ys))) (take n ys @ drop n ys))"
    by (rule mset_filter_cong_list) (simp add: assms(2))
  then show ?thesis by (simp only: filter_other_part(2) [OF d])
qed

end
