(* ===== verification/Py_Text.thy ===== *)
theory Py_Text
  imports Prelude
begin

section \<open>Python text: stripping, UTF-8 sizes, patterns, compact JSON\<close>

text \<open>
  What the sources use of Python's \<open>str\<close>, \<open>re\<close> and \<open>json\<close>: \<open>str.strip\<close> on the code points
  that \<open>str.isspace\<close> accepts, the size of \<open>str.encode("utf-8")\<close>, the character-class patterns of
  \<open>models.py\<close>, and \<open>json.dumps(.., ensure_ascii=False, separators=(",", ":"))\<close>. A \<open>float\<close> is either
  not finite or a dyadic number \<open>m * 2 ^ e\<close> together with its \<open>repr\<close> text, which the language fixes
  and the model leaves open.
\<close>

definition py_isspace :: "nat \<Rightarrow> bool" where
  "py_isspace c \<longleftrightarrow> (9 \<le> c \<and> c \<le> 13) \<or> (28 \<le> c \<and> c \<le> 32) \<or> c = 133 \<or> c = 160 \<or> c = 5760 \<or>
     (8192 \<le> c \<and> c \<le> 8202) \<or> c = 8232 \<or> c = 8233 \<or> c = 8239 \<or> c = 8287 \<or> c = 12288"

definition py_lstrip :: "pystr \<Rightarrow> pystr" where
  "py_lstrip s = dropWhile py_isspace s"

definition py_strip :: "pystr \<Rightarrow> pystr" where
  "py_strip s = rev (py_lstrip (rev (py_lstrip s)))"

definition utf8_width :: "nat \<Rightarrow> nat" where
  "utf8_width c = (if c < 128 then 1 else if c < 2048 then 2 else if c < 65536 then 3 else 4)"

definition utf8_len :: "pystr \<Rightarrow> nat" where
  "utf8_len s = sum_list (map utf8_width s)"

subsection \<open>Character classes\<close>

definition lower :: "nat \<Rightarrow> bool" where "lower c \<longleftrightarrow> 97 \<le> c \<and> c \<le> 122"
definition upper :: "nat \<Rightarrow> bool" where "upper c \<longleftrightarrow> 65 \<le> c \<and> c \<le> 90"
definition digit :: "nat \<Rightarrow> bool" where "digit c \<longleftrightarrow> 48 \<le> c \<and> c \<le> 57"

text \<open>A pattern \<open>[head][tail]{0,n}\<close>, matched against the whole string.\<close>

definition head_tail :: "(nat \<Rightarrow> bool) \<Rightarrow> (nat \<Rightarrow> bool) \<Rightarrow> nat \<Rightarrow> pystr \<Rightarrow> bool" where
  "head_tail hd_ok tl_ok n s = (case s of [] \<Rightarrow> False
     | c # cs \<Rightarrow> hd_ok c \<and> length cs \<le> n \<and> list_all tl_ok cs)"

subsection \<open>Compact JSON\<close>

datatype pyfloat = PyNan | PyInf bool | PyFinite int int pystr

definition py_isfinite :: "pyfloat \<Rightarrow> bool" where
  "py_isfinite x = (case x of PyFinite _ _ _ \<Rightarrow> True | _ \<Rightarrow> False)"

definition py_is_integer :: "pyfloat \<Rightarrow> bool" where
  "py_is_integer x = (case x of PyFinite m e _ \<Rightarrow> 0 \<le> e \<or> m mod 2 ^ nat (- e) = 0 | _ \<Rightarrow> False)"

text \<open>\<open>abs(x) > bound\<close> for a finite \<open>x = m * 2 ^ e\<close> and an integer bound.\<close>

definition py_abs_exceeds :: "pyfloat \<Rightarrow> int \<Rightarrow> bool" where
  "py_abs_exceeds x bound = (case x of
     PyFinite m e _ \<Rightarrow> (if 0 \<le> e then bound < \<bar>m\<bar> * 2 ^ nat e else bound * 2 ^ nat (- e) < \<bar>m\<bar>)
   | PyInf _ \<Rightarrow> True | PyNan \<Rightarrow> False)"

datatype json = JNull | JBool bool | JInt int | JFloat pyfloat | JStr pystr
  | JArr "json list" | JObj "(pystr \<times> json) list"

fun digits_rev :: "nat \<Rightarrow> pystr" where
  "digits_rev n = (if n < 10 then [48 + n] else (48 + n mod 10) # digits_rev (n div 10))"

declare digits_rev.simps [simp del]

definition decimal :: "int \<Rightarrow> pystr" where
  "decimal i = (if i < 0 then 45 # rev (digits_rev (nat (- i))) else rev (digits_rev (nat i)))"

definition hex_digit :: "nat \<Rightarrow> nat" where
  "hex_digit n = (if n < 10 then 48 + n else 87 + n)"

text \<open>The escapes of \<open>json.encoder.ESCAPE\<close>: quote, backslash, the five short ones, other controls.\<close>

definition json_escape :: "nat \<Rightarrow> pystr" where
  "json_escape c = (if c = 34 then [92, 34] else if c = 92 then [92, 92]
     else if c = 10 then [92, 110] else if c = 13 then [92, 114] else if c = 9 then [92, 116]
     else if c = 12 then [92, 102] else if c = 8 then [92, 98]
     else if c < 32 then [92, 117, 48, 48, hex_digit (c div 16), hex_digit (c mod 16)] else [c])"

definition json_string :: "pystr \<Rightarrow> pystr" where
  "json_string s = 34 # concat (map json_escape s) @ [34]"

definition float_text :: "pyfloat \<Rightarrow> pystr" where
  "float_text x = (case x of PyFinite _ _ t \<Rightarrow> t | PyNan \<Rightarrow> str ''NaN''
     | PyInf neg \<Rightarrow> (if neg then str ''-Infinity'' else str ''Infinity''))"

fun join_comma :: "pystr list \<Rightarrow> pystr" where
  "join_comma [] = []"
| "join_comma [x] = x"
| "join_comma (x # y # ys) = x @ 44 # join_comma (y # ys)"

fun json_dumps :: "json \<Rightarrow> pystr" where
  "json_dumps JNull = str ''null''"
| "json_dumps (JBool b) = (if b then str ''true'' else str ''false'')"
| "json_dumps (JInt i) = decimal i"
| "json_dumps (JFloat x) = float_text x"
| "json_dumps (JStr s) = json_string s"
| "json_dumps (JArr vs) = 91 # join_comma (map json_dumps vs) @ [93]"
| "json_dumps (JObj kvs) =
     123 # join_comma (map (\<lambda>(k, v). json_string k @ 58 # json_dumps v) kvs) @ [125]"

subsection \<open>Lemmas about stripping\<close>

lemma py_lstrip_idem [simp]: "py_lstrip (py_lstrip s) = py_lstrip s"
  by (simp add: py_lstrip_def dropWhile_idem)

lemma py_lstrip_id: "s = [] \<or> \<not> py_isspace (hd s) \<Longrightarrow> py_lstrip s = s"
  by (cases s) (auto simp: py_lstrip_def)

lemma py_lstrip_hd: "py_lstrip s \<noteq> [] \<Longrightarrow> \<not> py_isspace (hd (py_lstrip s))"
  unfolding py_lstrip_def by (rule hd_dropWhile)

lemma py_lstrip_suffix: "\<exists>pre. s = pre @ py_lstrip s"
  unfolding py_lstrip_def by (metis takeWhile_dropWhile_id)

lemma last_py_lstrip: "py_lstrip s \<noteq> [] \<Longrightarrow> last (py_lstrip s) = last s"
  using py_lstrip_suffix [of s] by (metis last_appendR)

lemma py_strip_last: "py_strip s \<noteq> [] \<Longrightarrow> \<not> py_isspace (last (py_strip s))"
  using py_lstrip_hd [of "rev (py_lstrip s)"] by (simp add: py_strip_def last_rev)

lemma py_strip_hd:
  assumes "py_strip s \<noteq> []"
  shows "\<not> py_isspace (hd (py_strip s))"
proof -
  have ne: "py_lstrip (rev (py_lstrip s)) \<noteq> []"
    using assms by (simp add: py_strip_def)
  then have "hd (py_strip s) = last (rev (py_lstrip s))"
    by (simp add: py_strip_def hd_rev last_py_lstrip)
  moreover have "py_lstrip s \<noteq> []"
    using ne by (metis dropWhile.simps(1) py_lstrip_def rev.simps(1))
  ultimately show ?thesis
    using py_lstrip_hd [of s] by (simp add: last_rev)
qed

lemma py_strip_Nil [simp]: "py_strip [] = []"
  by (simp add: py_strip_def py_lstrip_def)

lemma py_strip_idem [simp]: "py_strip (py_strip s) = py_strip s"
proof (cases "py_strip s = []")
  case True
  then show ?thesis by simp
next
  case False
  have "py_lstrip (py_strip s) = py_strip s"
    using py_strip_hd [OF False] by (simp add: py_lstrip_id)
  moreover have "py_lstrip (rev (py_strip s)) = rev (py_strip s)"
    using py_strip_last [OF False] False by (simp add: py_lstrip_id hd_rev)
  ultimately show ?thesis by (simp add: py_strip_def [of "py_strip s"])
qed

lemma py_strip_infix: "\<exists>pre post. s = pre @ py_strip s @ post"
proof -
  obtain pre where pre: "s = pre @ py_lstrip s" using py_lstrip_suffix by blast
  obtain q where q: "rev (py_lstrip s) = q @ py_lstrip (rev (py_lstrip s))"
    using py_lstrip_suffix by blast
  then have "py_lstrip s = py_strip s @ rev q"
    by (metis py_strip_def rev_append rev_rev_ident)
  with pre show ?thesis by metis
qed

lemma set_py_strip: "set (py_strip s) \<subseteq> set s"
  using py_strip_infix [of s] by (metis Un_iff set_append subsetI)

lemma py_strip_no_space: "list_all (\<lambda>c. \<not> py_isspace c) s \<Longrightarrow> py_strip s = s"
proof -
  assume "list_all (\<lambda>c. \<not> py_isspace c) s"
  then have s: "py_lstrip s = s" "py_lstrip (rev s) = rev s"
    by (auto intro!: py_lstrip_id simp: list_all_iff hd_rev)
  then show ?thesis by (simp add: py_strip_def)
qed

subsection \<open>Lemmas about encoded sizes\<close>

lemma utf8_len_simps [simp]:
  "utf8_len [] = 0" "utf8_len (c # s) = utf8_width c + utf8_len s"
  "utf8_len (s @ t) = utf8_len s + utf8_len t"
  by (simp_all add: utf8_len_def)

lemma utf8_width_bounds: "1 \<le> utf8_width c" "utf8_width c \<le> 4"
  by (simp_all add: utf8_width_def)

lemma utf8_width_ascii [simp]: "c < 128 \<Longrightarrow> utf8_width c = 1"
  by (simp add: utf8_width_def)

lemma hex_digit_ascii: "n < 16 \<Longrightarrow> hex_digit n < 128"
  by (simp add: hex_digit_def)

lemma utf8_len_json_escape: "utf8_len (json_escape c) \<le> 6"
proof (cases "c < 32")
  case True
  then have "hex_digit (c div 16) < 128" "hex_digit (c mod 16) < 128"
    by (auto intro: hex_digit_ascii)
  with True show ?thesis by (simp add: json_escape_def)
next
  case False
  then show ?thesis
    using utf8_width_bounds(2) [of c] by (simp add: json_escape_def)
qed

lemma utf8_len_concat_escape: "utf8_len (concat (map json_escape s)) \<le> 6 * length s"
proof (induction s)
  case Nil
  then show ?case by simp
next
  case (Cons c s)
  then show ?case using utf8_len_json_escape [of c] by simp
qed

lemma utf8_len_json_string: "utf8_len (json_string s) \<le> 6 * length s + 2"
  using utf8_len_concat_escape [of s] by (simp add: json_string_def)

lemma utf8_len_json_string_strip: "utf8_len (json_string (py_strip s)) \<le> utf8_len (json_string s)"
proof -
  obtain pre post where "s = pre @ py_strip s @ post" using py_strip_infix by blast
  then have "utf8_len (concat (map json_escape s)) =
      utf8_len (concat (map json_escape (pre @ py_strip s @ post)))"
    by simp
  then show ?thesis by (simp add: json_string_def)
qed

lemma utf8_len_join_comma:
  "utf8_len (join_comma xs) = sum_list (map utf8_len xs) + (length xs - 1)"
  by (induction xs rule: join_comma.induct) simp_all

lemma join_comma_mono:
  "list_all2 (\<lambda>x y. utf8_len x \<le> utf8_len y) xs ys \<Longrightarrow>
     utf8_len (join_comma xs) \<le> utf8_len (join_comma ys)"
  unfolding utf8_len_join_comma
  by (induction rule: list_all2_induct) (auto dest: list_all2_lengthD split: nat_diff_split)

lemma sum_list_map_bound:
  "(\<And>x. x \<in> set xs \<Longrightarrow> f x \<le> (b::nat)) \<Longrightarrow> sum_list (map f xs) \<le> b * length xs"
  by (induction xs) (simp_all add: add_mono)

lemma head_tail_length: "head_tail h t n s \<Longrightarrow> 1 \<le> length s \<and> length s \<le> Suc n"
  by (cases s) (simp_all add: head_tail_def)

lemma head_tail_all:
  "head_tail h t n s \<Longrightarrow> (\<And>c. h c \<Longrightarrow> P c) \<Longrightarrow> (\<And>c. t c \<Longrightarrow> P c) \<Longrightarrow> list_all P s"
  by (cases s) (auto simp: head_tail_def list_all_iff)

lemmas char_class_defs = lower_def upper_def digit_def py_isspace_def

end
