(* ===== verification/Models.thy ===== *)
theory Models
  imports Py_Text
begin

section \<open>Request, response and event models (models.py)\<close>

text \<open>
  The validators of \<open>samsarix_chat_engine/models.py\<close>. A validation function returns either the
  text of the \<open>ValueError\<close> or the value the model keeps. Declared field constraints (\<open>min_length\<close>,
  \<open>max_length\<close>, \<open>pattern\<close>, \<open>ge\<close>, \<open>le\<close>) are checked on the stripped string, because every model
  inherits \<open>str_strip_whitespace=True\<close> from \<open>APIModel\<close>; a failed one is the error \<open>''constraint''\<close>.
  A model reports its first failing check. Parsing a JSON body into typed fields is pydantic's and is
  not modelled: the functions start from typed fields.
\<close>

definition MESSAGE_METADATA_MAX_KEYS :: nat where "MESSAGE_METADATA_MAX_KEYS = 20"
definition MESSAGE_METADATA_MAX_BYTES :: nat where "MESSAGE_METADATA_MAX_BYTES = 4096"
definition MESSAGE_METADATA_MAX_SAFE_INTEGER :: int where
  "MESSAGE_METADATA_MAX_SAFE_INTEGER = 9007199254740991"
definition MESSAGE_ATTACHMENTS_MAX_COUNT :: nat where "MESSAGE_ATTACHMENTS_MAX_COUNT = 5"
definition MESSAGE_ATTACHMENTS_MAX_BYTES :: nat where "MESSAGE_ATTACHMENTS_MAX_BYTES = 8192"
definition MESSAGE_MENTIONS_MAX_COUNT :: nat where "MESSAGE_MENTIONS_MAX_COUNT = 10"
definition READ_STATE_QUERY_MAX_ROOMS :: nat where "READ_STATE_QUERY_MAX_ROOMS = 100"
definition READ_RECEIPT_QUERY_MAX_SUBJECTS :: nat where "READ_RECEIPT_QUERY_MAX_SUBJECTS = 100"

subsection \<open>Patterns\<close>

definition ROOM_ID_PATTERN :: "pystr \<Rightarrow> bool" where
  "ROOM_ID_PATTERN = head_tail (\<lambda>c. lower c \<or> digit c)
     (\<lambda>c. lower c \<or> digit c \<or> c \<in> set (str ''_-'')) 63"

definition REACTION_KEY_PATTERN :: "pystr \<Rightarrow> bool" where
  "REACTION_KEY_PATTERN = head_tail (\<lambda>c. lower c \<or> digit c)
     (\<lambda>c. lower c \<or> digit c \<or> c \<in> set (str ''_+-'')) 29"

definition MESSAGE_METADATA_KEY_PATTERN :: "pystr \<Rightarrow> bool" where
  "MESSAGE_METADATA_KEY_PATTERN = head_tail lower
     (\<lambda>c. lower c \<or> digit c \<or> c \<in> set (str ''_.-'')) 63"

definition ATTACHMENT_ID_PATTERN :: "pystr \<Rightarrow> bool" where
  "ATTACHMENT_ID_PATTERN = head_tail (\<lambda>c. lower c \<or> upper c \<or> digit c)
     (\<lambda>c. lower c \<or> upper c \<or> digit c \<or> c \<in> set (str ''._:-'')) 127"

definition media_token :: "pystr \<Rightarrow> bool" where
  "media_token = head_tail (\<lambda>c. lower c \<or> digit c)
     (\<lambda>c. lower c \<or> digit c \<or> c \<in> set (str ''!#$&^_.+-'')) 62"

text \<open>The slash is in neither token class, so the pattern splits at the first one.\<close>

definition ATTACHMENT_MEDIA_TYPE_PATTERN :: "pystr \<Rightarrow> bool" where
  "ATTACHMENT_MEDIA_TYPE_PATTERN s =
     (case dropWhile (\<lambda>c. c \<noteq> 47) s of [] \<Rightarrow> False
      | _ # rest \<Rightarrow> media_token (takeWhile (\<lambda>c. c \<noteq> 47) s) \<and> media_token rest)"

definition ATTACHMENT_SHA256_PATTERN :: "pystr \<Rightarrow> bool" where
  "ATTACHMENT_SHA256_PATTERN s \<longleftrightarrow>
     length s = 64 \<and> list_all (\<lambda>c. digit c \<or> (97 \<le> c \<and> c \<le> 102)) s"

definition str_field :: "nat \<Rightarrow> nat \<Rightarrow> pystr \<Rightarrow> string + pystr" where
  "str_field lo hi s = (let t = py_strip s in
     if lo \<le> length t \<and> length t \<le> hi then Inr t else Inl ''constraint'')"

definition opt_field :: "('a \<Rightarrow> 'e + 'b) \<Rightarrow> 'a option \<Rightarrow> 'e + 'b option" where
  "opt_field f v = (case v of None \<Rightarrow> Inr None | Some x \<Rightarrow> res_map Some (f x))"

subsection \<open>Message metadata\<close>

datatype meta_value = MStr pystr | MInt int | MFloat pyfloat | MBool bool | MNone | MOther

type_synonym metadata = "(pystr \<times> meta_value) list"

fun meta_json :: "meta_value \<Rightarrow> json" where
  "meta_json (MStr s) = JStr s"
| "meta_json (MInt i) = JInt i"
| "meta_json (MFloat x) = JFloat x"
| "meta_json (MBool b) = JBool b"
| "meta_json MNone = JNull"
| "meta_json MOther = JArr []"

definition metadata_json :: "metadata \<Rightarrow> json" where
  "metadata_json m = JObj (map (\<lambda>(k, v). (k, meta_json v)) (sort_key fst m))"

fun validate_metadata_item :: "pystr \<times> meta_value \<Rightarrow> string + pystr \<times> meta_value" where
  "validate_metadata_item (key, item) =
     (if \<not> MESSAGE_METADATA_KEY_PATTERN key
      then Inl ''metadata keys must be 1-64 lowercase ASCII key characters''
      else (case item of
        MBool _ \<Rightarrow> Inr (key, item)
      | MNone \<Rightarrow> Inr (key, item)
      | MStr _ \<Rightarrow> Inr (key, item)
      | MInt i \<Rightarrow> (if MESSAGE_METADATA_MAX_SAFE_INTEGER < \<bar>i\<bar>
          then Inl ''metadata integers must be exactly representable by JavaScript''
          else Inr (key, item))
      | MFloat x \<Rightarrow> (if \<not> py_isfinite x then Inl ''metadata numbers must be finite''
          else if py_is_integer x \<and> py_abs_exceeds x MESSAGE_METADATA_MAX_SAFE_INTEGER
          then Inl ''metadata integers must be exactly representable by JavaScript''
          else Inr (key, item))
      | MOther \<Rightarrow> Inl ''metadata values must be JSON scalars; arrays and objects are not supported''))"

definition validate_message_metadata :: "metadata \<Rightarrow> string + metadata" where
  "validate_message_metadata value =
     (if MESSAGE_METADATA_MAX_KEYS < length value
      then Inl ''metadata must contain at most 20 keys''
      else res_bind (res_all validate_metadata_item (sort_key fst value)) (\<lambda>normalized.
        if MESSAGE_METADATA_MAX_BYTES < utf8_len (json_dumps (metadata_json normalized))
        then Inl ''metadata must not exceed 4096 UTF-8 JSON bytes''
        else Inr normalized))"

definition validate_optional_message_metadata :: "metadata option \<Rightarrow> string + metadata option" where
  "validate_optional_message_metadata = opt_field validate_message_metadata"

text \<open>
  Assignment into a \<open>dict\<close> (a key keeps its first position), and the stripping of the keys and
  string values of a metadata field before its validator runs.
\<close>

fun dict_put :: "'k \<Rightarrow> 'v \<Rightarrow> ('k \<times> 'v) list \<Rightarrow> ('k \<times> 'v) list" where
  "dict_put k v [] = [(k, v)]"
| "dict_put k v ((k', v') # d) = (if k' = k then (k, v) # d else (k', v') # dict_put k v d)"

fun strip_meta_value :: "meta_value \<Rightarrow> meta_value" where
  "strip_meta_value (MStr s) = MStr (py_strip s)"
| "strip_meta_value v = v"

definition strip_metadata :: "metadata \<Rightarrow> metadata" where
  "strip_metadata m = fold (\<lambda>(k, v). dict_put (py_strip k) (strip_meta_value v)) m []"

definition metadata_field :: "metadata \<Rightarrow> string + metadata" where
  "metadata_field m = validate_message_metadata (strip_metadata m)"

subsection \<open>Attachment references\<close>

record attachment =
  att_id :: pystr
  att_name :: pystr
  att_media_type :: pystr
  att_size_bytes :: int
  att_sha256 :: "pystr option"

definition reject_control_characters :: "pystr \<Rightarrow> string + pystr" where
  "reject_control_characters value =
     (if list_ex (\<lambda>c. c < 32 \<or> c = 127) value
      then Inl ''attachment names must not contain control characters'' else Inr value)"

definition AttachmentReference :: "attachment \<Rightarrow> string + attachment" where
  "AttachmentReference a =
     res_bind (str_field 1 128 (att_id a)) (\<lambda>aid.
     res_bind (check (ATTACHMENT_ID_PATTERN aid) ''constraint'') (\<lambda>_.
     res_bind (str_field 1 255 (att_name a)) (\<lambda>nm.
     res_bind (reject_control_characters nm) (\<lambda>nm.
     res_bind (str_field 3 127 (att_media_type a)) (\<lambda>mt.
     res_bind (check (ATTACHMENT_MEDIA_TYPE_PATTERN mt) ''constraint'') (\<lambda>_.
     res_bind (check (0 \<le> att_size_bytes a \<and> att_size_bytes a \<le> MESSAGE_METADATA_MAX_SAFE_INTEGER)
        ''constraint'') (\<lambda>_.
     res_bind (opt_field (\<lambda>h. res_bind (check (ATTACHMENT_SHA256_PATTERN (py_strip h)) ''constraint'')
        (\<lambda>_. Inr (py_strip h))) (att_sha256 a)) (\<lambda>sha.
     Inr \<lparr>att_id = aid, att_name = nm, att_media_type = mt, att_size_bytes = att_size_bytes a,
          att_sha256 = sha\<rparr>))))))))"

text \<open>\<open>model_dump(mode="json")\<close> under \<open>sort_keys=True\<close>.\<close>

definition attachment_json :: "attachment \<Rightarrow> json" where
  "attachment_json a = JObj
     [(str ''id'', JStr (att_id a)), (str ''media_type'', JStr (att_media_type a)),
      (str ''name'', JStr (att_name a)),
      (str ''sha256'', case att_sha256 a of None \<Rightarrow> JNull | Some h \<Rightarrow> JStr h),
      (str ''size_bytes'', JInt (att_size_bytes a))]"

definition attachments_json :: "attachment list \<Rightarrow> json" where
  "attachments_json value = JArr (map attachment_json value)"

definition validate_attachment_references :: "attachment list \<Rightarrow> string + attachment list" where
  "validate_attachment_references value =
     (if MESSAGE_ATTACHMENTS_MAX_COUNT < length value
      then Inl ''attachments must contain at most 5 items''
      else if \<not> distinct (map att_id value)
      then Inl ''attachment IDs must be unique within a message''
      else if MESSAGE_ATTACHMENTS_MAX_BYTES < utf8_len (json_dumps (attachments_json value))
      then Inl ''attachments must not exceed 8192 UTF-8 JSON bytes''
      else Inr value)"

subsection \<open>Mentions and query arguments\<close>

text \<open>These validators run before typing (\<open>mode="before"\<close>), on an arbitrary decoded JSON value.\<close>

fun json_strings :: "json list \<Rightarrow> pystr list option" where
  "json_strings [] = Some []"
| "json_strings (JStr s # vs) = map_option ((#) s) (json_strings vs)"
| "json_strings (_ # vs) = None"

definition validate_mentioned_subjects :: "json \<Rightarrow> string + pystr list" where
  "validate_mentioned_subjects value = (case value of
     JArr vs \<Rightarrow>
       (if MESSAGE_MENTIONS_MAX_COUNT < length vs
        then Inl ''mentioned_subjects must contain at most 10 items''
        else (case json_strings vs of
          None \<Rightarrow> Inl ''mentioned_subjects must contain strings''
        | Some subjects \<Rightarrow>
            (if list_ex (\<lambda>s. \<not> (1 \<le> length s \<and> length s \<le> 64)) subjects
             then Inl ''mentioned subjects must be between 1 and 64 characters''
             else if list_ex (\<lambda>s. s \<noteq> py_strip s) subjects
             then Inl ''mentioned subjects must not have surrounding whitespace''
             else if \<not> distinct subjects
             then Inl ''mentioned_subjects must not contain duplicates''
             else Inr subjects)))
   | _ \<Rightarrow> Inl ''mentioned_subjects must be an array'')"

definition validate_optional_mentioned_subjects :: "json \<Rightarrow> string + pystr list option" where
  "validate_optional_mentioned_subjects value =
     (if value = JNull then Inr None else res_map Some (validate_mentioned_subjects value))"

definition mentions_json :: "pystr list \<Rightarrow> json" where
  "mentions_json subjects = JArr (map JStr subjects)"

definition validate_read_state_query_room_ids :: "pystr list \<Rightarrow> string + pystr list" where
  "validate_read_state_query_room_ids value =
     (if \<not> (1 \<le> length value \<and> length value \<le> READ_STATE_QUERY_MAX_ROOMS)
      then Inl ''room_ids must contain between 1 and 100 items''
      else if list_ex (\<lambda>room_id. \<not> ROOM_ID_PATTERN room_id) value
      then Inl ''room_ids must contain valid room IDs''
      else if \<not> distinct value then Inl ''room_ids must not contain duplicates''
      else Inr value)"

definition validate_read_receipt_query_subjects :: "json \<Rightarrow> string + pystr list" where
  "validate_read_receipt_query_subjects value = (case value of
     JArr vs \<Rightarrow> (case json_strings vs of
       None \<Rightarrow> Inl ''subjects must be an array of strings''
     | Some subjects \<Rightarrow>
         (if \<not> (1 \<le> length subjects \<and> length subjects \<le> READ_RECEIPT_QUERY_MAX_SUBJECTS)
          then Inl ''subjects must contain between 1 and 100 items''
          else if list_ex (\<lambda>s. \<not> (1 \<le> length s \<and> length s \<le> 64) \<or> s \<noteq> py_strip s) subjects
          then Inl ''subjects must contain 1-64 character values without surrounding whitespace''
          else if \<not> distinct subjects then Inl ''subjects must not contain duplicates''
          else Inr subjects))
   | _ \<Rightarrow> Inl ''subjects must be an array of strings'')"

subsection \<open>Request payloads\<close>

record room_create =
  rc_name :: pystr
  rc_description :: pystr
  rc_id :: "pystr option"

definition RoomCreate :: "room_create \<Rightarrow> string + room_create" where
  "RoomCreate p =
     res_bind (str_field 1 80 (rc_name p)) (\<lambda>nm.
     res_bind (str_field 0 500 (rc_description p)) (\<lambda>ds.
     res_bind (opt_field (\<lambda>i. res_bind (str_field 1 64 i) (\<lambda>i.
        res_bind (check (ROOM_ID_PATTERN i) ''constraint'') (\<lambda>_. Inr i))) (rc_id p)) (\<lambda>i.
     Inr \<lparr>rc_name = nm, rc_description = ds, rc_id = i\<rparr>)))"

record room_update =
  ru_archived :: "bool option"
  ru_frozen :: "bool option"

definition RoomUpdate :: "room_update \<Rightarrow> string + room_update" where
  "RoomUpdate p = (if ru_archived p = None \<and> ru_frozen p = None
     then Inl ''at least one of archived or frozen is required'' else Inr p)"

record message_create =
  mc_content :: pystr
  mc_sender :: "pystr option"
  mc_client_message_id :: "pystr option"
  mc_parent_message_id :: "pystr option"
  mc_metadata :: metadata
  mc_attachments :: "attachment list"
  mc_mentioned_subjects :: json

definition require_content_or_attachment :: "pystr \<Rightarrow> attachment list \<Rightarrow> string + unit" where
  "require_content_or_attachment content attachments =
     check (py_strip content \<noteq> [] \<or> attachments \<noteq> [])
       ''content or at least one attachment is required''"

definition MessageCreate :: "message_create \<Rightarrow> string + message_create" where
  "MessageCreate p =
     res_bind (str_field 0 100000 (mc_content p)) (\<lambda>content.
     res_bind (opt_field (str_field 1 64) (mc_sender p)) (\<lambda>sender.
     res_bind (opt_field (str_field 1 128) (mc_client_message_id p)) (\<lambda>client.
     res_bind (opt_field (str_field 1 128) (mc_parent_message_id p)) (\<lambda>parent.
     res_bind (metadata_field (mc_metadata p)) (\<lambda>metadata.
     res_bind (res_all AttachmentReference (mc_attachments p)) (\<lambda>attachments.
     res_bind (validate_attachment_references attachments) (\<lambda>attachments.
     res_bind (validate_mentioned_subjects (mc_mentioned_subjects p)) (\<lambda>mentions.
     res_bind (require_content_or_attachment content attachments) (\<lambda>_.
     Inr \<lparr>mc_content = content, mc_sender = sender, mc_client_message_id = client,
          mc_parent_message_id = parent, mc_metadata = metadata, mc_attachments = attachments,
          mc_mentioned_subjects = mentions_json mentions\<rparr>)))))))))"

text \<open>The WebSocket command has the same fields and checks without a sender.\<close>

definition WebSocketMessage :: "message_create \<Rightarrow> string + message_create" where
  "WebSocketMessage p =
     (if mc_sender p \<noteq> None then Inl ''extra fields not permitted'' else MessageCreate p)"

record message_update =
  mu_content :: pystr
  mu_metadata :: "metadata option"
  mu_mentioned_subjects :: json

definition reject_blank_content :: "pystr \<Rightarrow> string + pystr" where
  "reject_blank_content value =
     (if py_strip value = [] then Inl ''content must not be blank'' else Inr value)"

definition MessageUpdate ::
  "message_update \<Rightarrow> string + pystr \<times> metadata option \<times> pystr list option" where
  "MessageUpdate p =
     res_bind (str_field 1 100000 (mu_content p)) (\<lambda>content.
     res_bind (reject_blank_content content) (\<lambda>content.
     res_bind (validate_optional_message_metadata (map_option strip_metadata (mu_metadata p)))
       (\<lambda>metadata.
     res_bind (validate_optional_mentioned_subjects (mu_mentioned_subjects p)) (\<lambda>mentions.
     Inr (content, metadata, mentions)))))"

record moderation_update =
  muted_for_seconds :: "int option"
  banned_for_seconds :: "int option"

definition duration_ok :: "int option \<Rightarrow> bool" where
  "duration_ok d = (case d of None \<Rightarrow> True | Some s \<Rightarrow> 0 \<le> s \<and> s \<le> 31536000)"

definition MemberModerationUpdate :: "moderation_update \<Rightarrow> string + moderation_update" where
  "MemberModerationUpdate p =
     (if \<not> (duration_ok (muted_for_seconds p) \<and> duration_ok (banned_for_seconds p))
      then Inl ''constraint''
      else if muted_for_seconds p = None \<and> banned_for_seconds p = None
      then Inl ''at least one moderation duration is required''
      else Inr p)"

record websocket_auth =
  wa_token :: "pystr option"
  wa_api_key :: "pystr option"

definition WebSocketAuth :: "websocket_auth \<Rightarrow> string + websocket_auth" where
  "WebSocketAuth p =
     res_bind (opt_field (str_field 1 8192) (wa_token p)) (\<lambda>token.
     res_bind (opt_field (str_field 1 4096) (wa_api_key p)) (\<lambda>api_key.
     if (token = None) = (api_key = None)
     then Inl ''exactly one of token or api_key is required''
     else Inr \<lparr>wa_token = token, wa_api_key = api_key\<rparr>))"

subsection \<open>Messages and their response models\<close>

record reaction_summary =
  rs_key :: pystr
  rs_count :: nat

definition ReactionSummary :: "reaction_summary \<Rightarrow> string + reaction_summary" where
  "ReactionSummary s =
     res_bind (str_field 1 30 (rs_key s)) (\<lambda>key.
     res_bind (check (REACTION_KEY_PATTERN key \<and> 1 \<le> rs_count s) ''constraint'') (\<lambda>_.
     Inr (s\<lparr>rs_key := key\<rparr>)))"

record message =
  msg_id :: pystr
  msg_room_id :: pystr
  msg_sender :: pystr
  msg_content :: pystr
  msg_created_at :: timestamp
  msg_client_message_id :: "pystr option"
  msg_parent_message_id :: "pystr option"
  msg_reactions :: "reaction_summary list"
  msg_pinned_at :: "timestamp option"
  msg_pinned_by :: "pystr option"
  msg_metadata :: metadata
  msg_attachments :: "attachment list"
  msg_mentioned_subjects :: "pystr list"
  msg_edited_at :: "timestamp option"
  msg_deleted_at :: "timestamp option"

definition require_complete_pin_metadata :: "message \<Rightarrow> string + message" where
  "require_complete_pin_metadata m =
     (if (msg_pinned_at m = None) \<noteq> (msg_pinned_by m = None)
      then Inl ''pinned_at and pinned_by must both be set or both be null''
      else if msg_deleted_at m \<noteq> None \<and> msg_pinned_at m \<noteq> None
      then Inl ''deleted messages cannot remain pinned''
      else if msg_deleted_at m \<noteq> None \<and> msg_metadata m \<noteq> []
      then Inl ''deleted messages cannot retain application metadata''
      else if msg_deleted_at m \<noteq> None \<and> msg_attachments m \<noteq> []
      then Inl ''deleted messages cannot retain attachment references''
      else if msg_deleted_at m \<noteq> None \<and> msg_mentioned_subjects m \<noteq> []
      then Inl ''deleted messages cannot retain mentioned subjects''
      else Inr m)"

definition Message :: "message \<Rightarrow> string + message" where
  "Message m =
     res_bind (opt_field (str_field 1 64) (msg_pinned_by m)) (\<lambda>pinned_by.
     res_bind (metadata_field (msg_metadata m)) (\<lambda>metadata.
     res_bind (validate_attachment_references (msg_attachments m)) (\<lambda>attachments.
     res_bind (validate_mentioned_subjects (mentions_json (msg_mentioned_subjects m))) (\<lambda>mentions.
     require_complete_pin_metadata
       (m\<lparr>msg_id := py_strip (msg_id m), msg_room_id := py_strip (msg_room_id m),
          msg_sender := py_strip (msg_sender m), msg_content := py_strip (msg_content m),
          msg_client_message_id := map_option py_strip (msg_client_message_id m),
          msg_parent_message_id := map_option py_strip (msg_parent_message_id m),
          msg_pinned_by := pinned_by, msg_metadata := metadata, msg_attachments := attachments,
          msg_mentioned_subjects := mentions\<rparr>)))))"

record read_state_summary =
  sum_room_id :: pystr
  sum_last_read_message_id :: "pystr option"
  sum_last_read_at :: "timestamp option"
  sum_unread_count :: nat
  sum_latest_message_id :: "pystr option"
  sum_latest_message_at :: "timestamp option"

definition require_complete_latest_message ::
  "read_state_summary \<Rightarrow> string + read_state_summary" where
  "require_complete_latest_message s =
     (if (sum_latest_message_id s = None) \<noteq> (sum_latest_message_at s = None)
      then Inl ''latest_message_id and latest_message_at must both be set or both be null''
      else Inr s)"

record read_receipt =
  rr_subject :: pystr
  rr_last_read_message_id :: "pystr option"
  rr_last_read_message_at :: "timestamp option"
  rr_last_read_at :: "timestamp option"

definition ReadReceipt :: "read_receipt \<Rightarrow> string + read_receipt" where
  "ReadReceipt r =
     res_bind (str_field 1 64 (rr_subject r)) (\<lambda>subject.
     if (rr_last_read_message_id r = None) \<noteq> (rr_last_read_message_at r = None)
     then Inl ''last_read_message_id and last_read_message_at must both be set or both be null''
     else if rr_last_read_message_id r \<noteq> None \<and> rr_last_read_at r = None
     then Inl ''last_read_at is required when a message cursor is set''
     else Inr (r\<lparr>rr_subject := subject,
       rr_last_read_message_id := map_option py_strip (rr_last_read_message_id r)\<rparr>))"

subsection \<open>Lemmas about fields\<close>

lemma opt_field_None [simp]: "opt_field f None = Inr None"
  by (simp add: opt_field_def)

lemma opt_field_Some [simp]: "opt_field f (Some x) = res_map Some (f x)"
  by (simp add: opt_field_def)

lemma opt_field_eq_Inr:
  "opt_field f v = Inr w \<longleftrightarrow>
     (v = None \<and> w = None) \<or> (\<exists>x y. v = Some x \<and> f x = Inr y \<and> w = Some y)"
  by (cases v) auto

lemma str_field_eq_Inr:
  "str_field lo hi s = Inr t \<longleftrightarrow> t = py_strip s \<and> lo \<le> length t \<and> length t \<le> hi"
  by (cases "t = py_strip s") (auto simp: str_field_def Let_def)

lemma str_field_idem: "str_field lo hi s = Inr t \<Longrightarrow> str_field lo hi t = Inr t"
  by (auto simp: str_field_eq_Inr)

lemma opt_str_field_idem:
  "opt_field (str_field lo hi) v = Inr w \<Longrightarrow> opt_field (str_field lo hi) w = Inr w"
  by (auto simp: opt_field_eq_Inr dest: str_field_idem)

lemma strip_id_space_free: "(\<And>c. c \<in> set s \<Longrightarrow> \<not> py_isspace c) \<Longrightarrow> py_strip s = s"
  by (simp add: py_strip_no_space list_all_iff)

lemma metadata_key_no_space:
  assumes "MESSAGE_METADATA_KEY_PATTERN k"
  shows "py_strip k = k"
proof -
  have "list_all (\<lambda>c. \<not> py_isspace c) k"
    by (rule head_tail_all [OF assms [unfolded MESSAGE_METADATA_KEY_PATTERN_def]])
      (auto simp: char_class_defs str_def)
  then show ?thesis by (rule py_strip_no_space)
qed

lemma reaction_key_no_space:
  assumes "REACTION_KEY_PATTERN k"
  shows "py_strip k = k"
proof -
  have "list_all (\<lambda>c. \<not> py_isspace c) k"
    by (rule head_tail_all [OF assms [unfolded REACTION_KEY_PATTERN_def]])
      (auto simp: char_class_defs str_def)
  then show ?thesis by (rule py_strip_no_space)
qed

subsection \<open>Lemmas about metadata\<close>

lemma validate_metadata_item_keeps: "validate_metadata_item kv = Inr kv' \<Longrightarrow> kv' = kv"
  by (cases kv) (auto split: if_splits meta_value.splits)

lemma validate_metadata_item_key:
  "validate_metadata_item kv = Inr kv' \<Longrightarrow> MESSAGE_METADATA_KEY_PATTERN (fst kv)"
  by (cases kv) (auto split: if_splits)

lemma res_all_keeps:
  assumes "res_all f xs = Inr ys" and "\<And>x y. f x = Inr y \<Longrightarrow> y = x"
  shows "ys = xs \<and> (\<forall>x\<in>set xs. f x = Inr x)"
  using assms(1)
proof (induction xs arbitrary: ys)
  case Nil
  then show ?case by simp
next
  case (Cons x xs)
  then show ?case using assms(2) by fastforce
qed

lemma validate_message_metadata_Inr:
  "validate_message_metadata v = Inr n \<longleftrightarrow>
     length v \<le> MESSAGE_METADATA_MAX_KEYS \<and> n = sort_key fst v \<and>
     (\<forall>kv\<in>set v. validate_metadata_item kv = Inr kv) \<and>
     utf8_len (json_dumps (metadata_json n)) \<le> MESSAGE_METADATA_MAX_BYTES" (is "?L \<longleftrightarrow> ?R")
proof
  assume ?L
  then obtain n' where n': "res_all validate_metadata_item (sort_key fst v) = Inr n'"
    and rest: "length v \<le> MESSAGE_METADATA_MAX_KEYS" "n = n'"
      "utf8_len (json_dumps (metadata_json n)) \<le> MESSAGE_METADATA_MAX_BYTES"
    by (auto simp: validate_message_metadata_def split: if_splits)
  have "n' = sort_key fst v \<and> (\<forall>x\<in>set v. validate_metadata_item x = Inr x)"
    using res_all_keeps [OF n' validate_metadata_item_keeps] by simp
  with rest show ?R by simp
next
  assume r: ?R
  then have "res_all validate_metadata_item (sort_key fst v) = Inr (sort_key fst v)"
    by (intro res_all_id) simp
  with r show ?L by (auto simp: validate_message_metadata_def)
qed

lemma sort_key_idem: "sort_key f (sort_key f xs) = sort_key f (xs :: 'a list)"
  by (rule sort_key_id_if_sorted) simp

lemma metadata_json_sort [simp]: "metadata_json (sort_key fst m) = metadata_json m"
  by (simp add: metadata_json_def sort_key_idem)

lemma validate_message_metadata_idem:
  "validate_message_metadata v = Inr n \<Longrightarrow> validate_message_metadata n = Inr n"
  by (auto simp: validate_message_metadata_Inr sort_key_idem)

lemma fst_set_dict_put: "fst ` set (dict_put k v d) = insert k (fst ` set d)"
  by (induction k v d rule: dict_put.induct) auto

lemma distinct_dict_put:
  "distinct (map fst d) \<Longrightarrow> distinct (map fst (dict_put k v d))"
  by (induction k v d rule: dict_put.induct) (auto simp: fst_set_dict_put)

lemma snd_set_dict_put: "snd ` set (dict_put k v d) \<subseteq> insert v (snd ` set d)"
  by (induction k v d rule: dict_put.induct) auto

lemma dict_put_fresh: "k \<notin> fst ` set d \<Longrightarrow> dict_put k v d = d @ [(k, v)]"
  by (induction d) force+

lemma strip_meta_value_idem [simp]: "strip_meta_value (strip_meta_value v) = strip_meta_value v"
  by (cases v) simp_all

lemma strip_fold_invariant:
  assumes "distinct (map fst d)" and "\<And>v. v \<in> snd ` set d \<Longrightarrow> strip_meta_value v = v"
  shows "let r = fold (\<lambda>(k, v). dict_put (py_strip k) (strip_meta_value v)) m d in
    distinct (map fst r) \<and> (\<forall>v\<in>snd ` set r. strip_meta_value v = v)"
  using assms
proof (induction m arbitrary: d)
  case Nil
  then show ?case by simp
next
  case (Cons kv m)
  obtain k v where kv: "kv = (k, v)" by (cases kv)
  let ?d = "dict_put (py_strip k) (strip_meta_value v) d"
  have "distinct (map fst ?d)" using Cons.prems(1) by (rule distinct_dict_put)
  moreover have "strip_meta_value w = w" if "w \<in> snd ` set ?d" for w
  proof -
    have "w = strip_meta_value v \<or> w \<in> snd ` set d"
      using subsetD [OF snd_set_dict_put that] by blast
    then show ?thesis
    proof
      assume "w = strip_meta_value v"
      then show ?thesis by simp
    next
      assume "w \<in> snd ` set d"
      then show ?thesis by (rule Cons.prems(2))
    qed
  qed
  ultimately have "let r = fold (\<lambda>(k, v). dict_put (py_strip k) (strip_meta_value v)) m ?d in
    distinct (map fst r) \<and> (\<forall>v\<in>snd ` set r. strip_meta_value v = v)"
    by (rule Cons.IH)
  then show ?case by (simp only: kv fold_simps prod.case)
qed

lemma strip_metadata_wf:
  "distinct (map fst (strip_metadata m))"
  "v \<in> snd ` set (strip_metadata m) \<Longrightarrow> strip_meta_value v = v"
  using strip_fold_invariant [of "[]" m] by (auto simp: strip_metadata_def Let_def)

lemma strip_metadata_id:
  assumes "distinct (map fst m)"
    and "\<And>k v. (k, v) \<in> set m \<Longrightarrow> py_strip k = k \<and> strip_meta_value v = v"
  shows "strip_metadata m = m"
proof -
  have "fold (\<lambda>(k, v). dict_put (py_strip k) (strip_meta_value v)) m d = d @ m"
    if "distinct (map fst (d @ m))" for d
    using that assms(2)
  proof (induction m arbitrary: d)
    case Nil
    then show ?case by simp
  next
    case (Cons kv m)
    obtain k v where kv: "kv = (k, v)" by (cases kv)
    have "k \<notin> fst ` set d" using Cons.prems(1) kv by auto
    then have "dict_put (py_strip k) (strip_meta_value v) d = d @ [(k, v)]"
      using Cons.prems(2) [of k v] kv by (simp add: dict_put_fresh)
    moreover have "distinct (map fst ((d @ [(k, v)]) @ m))" using Cons.prems(1) kv by auto
    then have "fold (\<lambda>(k, v). dict_put (py_strip k) (strip_meta_value v)) m (d @ [(k, v)]) =
        (d @ [(k, v)]) @ m"
      by (rule Cons.IH) (use Cons.prems(2) kv in auto)
    ultimately show ?case using kv by simp
  qed
  from this [of "[]"] show ?thesis using assms(1) by (simp add: strip_metadata_def)
qed

lemma metadata_field_fixpoint:
  assumes "metadata_field m = Inr n"
  shows "metadata_field n = Inr n"
proof -
  have v: "validate_message_metadata (strip_metadata m) = Inr n"
    using assms by (simp add: metadata_field_def)
  have n: "set n = set (strip_metadata m)" "distinct (map fst n)"
    and keys: "\<And>kv. kv \<in> set n \<Longrightarrow> MESSAGE_METADATA_KEY_PATTERN (fst kv)"
    using v strip_metadata_wf(1) [of m]
    by (auto simp: validate_message_metadata_Inr distinct_map inj_on_def
        dest: validate_metadata_item_key)
  have "strip_metadata n = n"
  proof (rule strip_metadata_id [OF n(2)])
    fix k v assume kv: "(k, v) \<in> set n"
    have "py_strip k = k" using keys [OF kv] by (simp add: metadata_key_no_space)
    moreover have "strip_meta_value v = v"
      by (rule strip_metadata_wf(2) [of v m]) (use kv n(1) in force)
    ultimately show "py_strip k = k \<and> strip_meta_value v = v" ..
  qed
  then show ?thesis using validate_message_metadata_idem [OF v] by (simp add: metadata_field_def)
qed

subsection \<open>Lemmas about mentions and attachments\<close>

lemma json_strings_map_JStr [simp]: "json_strings (map JStr xs) = Some xs"
  by (induction xs) simp_all

lemma json_strings_Some: "json_strings vs = Some ss \<Longrightarrow> vs = map JStr ss"
  by (induction vs arbitrary: ss rule: json_strings.induct) auto

lemma validate_mentioned_subjects_Inr:
  "validate_mentioned_subjects v = Inr ss \<longleftrightarrow>
     v = mentions_json ss \<and> length ss \<le> MESSAGE_MENTIONS_MAX_COUNT \<and> distinct ss \<and>
     (\<forall>s\<in>set ss. 1 \<le> length s \<and> length s \<le> 64 \<and> py_strip s = s)" (is "?L \<longleftrightarrow> ?R")
proof
  assume l: ?L
  then obtain vs where vs: "v = JArr vs" "length vs \<le> MESSAGE_MENTIONS_MAX_COUNT"
    by (auto simp: validate_mentioned_subjects_def split: json.splits if_splits)
  with l obtain ss' where ss': "json_strings vs = Some ss'"
    by (auto simp: validate_mentioned_subjects_def split: option.splits if_splits)
  then have eq: "vs = map JStr ss'" by (rule json_strings_Some)
  with l vs ss' show ?R
    by (auto simp: validate_mentioned_subjects_def mentions_json_def list_ex_iff split: if_splits)
next
  assume ?R
  then show ?L
    by (auto simp: validate_mentioned_subjects_def mentions_json_def list_ex_iff)
qed

lemma validate_mentioned_subjects_idem:
  "validate_mentioned_subjects v = Inr ss \<Longrightarrow> validate_mentioned_subjects (mentions_json ss) = Inr ss"
  by (simp add: validate_mentioned_subjects_Inr)

lemma validate_attachment_references_Inr:
  "validate_attachment_references v = Inr w \<longleftrightarrow>
     w = v \<and> length v \<le> MESSAGE_ATTACHMENTS_MAX_COUNT \<and> distinct (map att_id v) \<and>
     utf8_len (json_dumps (attachments_json v)) \<le> MESSAGE_ATTACHMENTS_MAX_BYTES"
  by (auto simp: validate_attachment_references_def)

lemma utf8_len_mentions:
  assumes "length ss \<le> 10" and "\<And>s. s \<in> set ss \<Longrightarrow> length s \<le> 64"
  shows "utf8_len (json_dumps (mentions_json ss)) \<le> 3871"
proof -
  have "utf8_len (json_string s) \<le> 386" if "s \<in> set ss" for s
    using utf8_len_json_string [of s] assms(2) [OF that] by simp
  then have "sum_list (map (utf8_len \<circ> (json_dumps \<circ> JStr)) ss) \<le> 386 * length ss"
    by (intro sum_list_map_bound) simp
  then show ?thesis using assms(1)
    by (simp add: mentions_json_def utf8_len_join_comma o_assoc)
qed

lemma AttachmentReference_idem:
  "AttachmentReference a = Inr b \<Longrightarrow> AttachmentReference b = Inr b"
  by (auto simp: AttachmentReference_def str_field_eq_Inr opt_field_eq_Inr
      reject_control_characters_def split: if_splits)

lemma ReactionSummary_id:
  "REACTION_KEY_PATTERN (rs_key s) \<Longrightarrow> 1 \<le> rs_count s \<Longrightarrow> ReactionSummary s = Inr s"
  using head_tail_length [of _ _ 29 "rs_key s"]
  by (auto simp: ReactionSummary_def str_field_def reaction_key_no_space REACTION_KEY_PATTERN_def
      reaction_key_no_space [unfolded REACTION_KEY_PATTERN_def])

subsection \<open>Lemmas about the message model\<close>

lemma require_complete_pin_metadata_Inr:
  "require_complete_pin_metadata m = Inr m' \<longleftrightarrow> m' = m \<and>
     (msg_pinned_at m = None \<longleftrightarrow> msg_pinned_by m = None) \<and>
     (msg_deleted_at m \<noteq> None \<longrightarrow> msg_pinned_at m = None \<and> msg_metadata m = [] \<and>
        msg_attachments m = [] \<and> msg_mentioned_subjects m = [])"
  by (auto simp: require_complete_pin_metadata_def)

lemma map_option_strip_idem [simp]:
  "map_option py_strip (map_option py_strip v) = map_option py_strip v"
  by (cases v) simp_all

lemma Message_fixpoint:
  assumes "Message m = Inr n"
  shows "Message n = Inr n"
proof -
  obtain pinned_by metadata mentions where
    p: "opt_field (str_field 1 64) (msg_pinned_by m) = Inr pinned_by"
    and d: "metadata_field (msg_metadata m) = Inr metadata"
    and a: "validate_attachment_references (msg_attachments m) = Inr (msg_attachments m)"
    and s: "validate_mentioned_subjects (mentions_json (msg_mentioned_subjects m)) = Inr mentions"
    and r: "require_complete_pin_metadata n = Inr n"
    and n: "n = m\<lparr>msg_id := py_strip (msg_id m), msg_room_id := py_strip (msg_room_id m),
          msg_sender := py_strip (msg_sender m), msg_content := py_strip (msg_content m),
          msg_client_message_id := map_option py_strip (msg_client_message_id m),
          msg_parent_message_id := map_option py_strip (msg_parent_message_id m),
          msg_pinned_by := pinned_by, msg_metadata := metadata,
          msg_attachments := msg_attachments m, msg_mentioned_subjects := mentions\<rparr>"
    using assms
    by (auto simp: Message_def require_complete_pin_metadata_Inr validate_attachment_references_Inr)
  show ?thesis
    using r opt_str_field_idem [OF p] metadata_field_fixpoint [OF d] a
      validate_mentioned_subjects_idem [OF s]
    by (simp add: Message_def n)
qed

end
