(* ===== verification/Store_Schema.thy ===== *)
theory Store_Schema
  imports Models
begin

section \<open>The SQLite store: errors, configuration, tables (store.py)\<close>

text \<open>
  The state of \<open>ChatStore\<close>: one record \<open>db\<close> with one field per table of \<open>_initialize_sync\<close>, a
  table being the list of its rows. A column holding an ISO timestamp holds a \<open>timestamp\<close>; a column
  holding JSON text holds the decoded value, and its \<open>CHECK\<close> on the byte length is stated on the
  compact encoding of that value. A message row extends the public \<open>message\<close> record with the hidden
  column \<open>author_subject\<close>, a webhook row extends the public delivery record with \<open>resource_id\<close> and
  \<open>payload_json\<close>.

  Every write runs in one transaction under \<open>_write_lock\<close>: an operation takes the database and
  returns either the exception, in which case the connection rolls back and the database is as
  before, or its result and the committed database. Clock readings and fresh identifiers are inputs,
  one field of \<open>env\<close> per call site, so nothing is assumed of their order.
\<close>

subsection \<open>Errors\<close>

datatype store_error =
    RoomNotFoundError pystr | RoomAlreadyExistsError pystr | RoomCapacityError
  | RoomArchivedError pystr | RoomFrozenError pystr | RoomNotArchivedError pystr
  | InvalidCursorError pystr | InvalidSearchQueryError
  | InvalidAuditCursorError pystr | InvalidWebhookCursorError pystr
  | MessageNotFoundError pystr | MessageDeletedError pystr | ThreadDepthError pystr
  | ReactionCapacityError pystr | MessageOwnershipError pystr
  | MemberMutedError pystr | MemberBannedError pystr | ReadStateCapacityError pystr
  | WebhookCapacityError | WebhookDeliveryNotFoundError pystr | WebhookPayloadUnavailableError pystr
  | RetentionNotConfiguredError | UnsupportedSchemaVersionError nat
  | IntegrityError | ModelError string | NotRetainedError | ArgumentError string

text \<open>
  The last four are not \<open>StoreError\<close>s: \<open>IntegrityError\<close> is sqlite3's, \<open>ModelError\<close> is a pydantic
  \<open>ValidationError\<close> (a row or argument the model classes refuse), \<open>NotRetainedError\<close> is the
  \<open>RuntimeError\<close> of \<open>_create_message_sync\<close>, \<open>ArgumentError\<close> a plain \<open>ValueError\<close>.
\<close>

subsection \<open>Configuration and inputs\<close>

record store_config =
  max_rooms :: nat
  max_stored_messages :: nat
  max_stored_messages_per_room :: nat
  max_read_states_per_room :: nat
  message_retention_days :: "nat option"
  max_audit_events :: nat
  webhook_events :: "string list"
  max_webhook_deliveries :: nat

text \<open>
  Clock readings and \<open>uuid4\<close> values of one operation: its own, that of the moderation check, and those
  of the at most two audit rows and one webhook row it writes.
\<close>

record env =
  now_op :: timestamp
  now_enforce :: timestamp
  now_audit :: timestamp
  now_op2 :: timestamp
  now_audit2 :: timestamp
  uuid_op :: pystr
  uuid_audit :: pystr
  uuid_audit2 :: pystr
  uuid_webhook :: pystr

subsection \<open>Rows\<close>

record room =
  ro_id :: pystr
  ro_name :: pystr
  ro_description :: pystr
  ro_created_at :: timestamp
  ro_archived_at :: "timestamp option"
  ro_frozen_at :: "timestamp option"

record message_row = message +
  msg_author_subject :: "pystr option"

record reaction_row =
  rx_message_id :: pystr
  rx_room_id :: pystr
  rx_reactor :: pystr
  rx_key :: pystr
  rx_created_at :: timestamp

record member_moderation =
  mod_room_id :: pystr
  mod_subject :: pystr
  mod_muted_until :: "timestamp option"
  mod_banned_until :: "timestamp option"
  mod_updated_at :: timestamp

record read_row =
  rd_room_id :: pystr
  rd_subject :: pystr
  rd_message_id :: "pystr option"
  rd_message_created_at :: timestamp
  rd_updated_at :: timestamp

record reaction_mutation =
  rm_message :: message
  rm_key :: pystr
  rm_reactor :: pystr
  rm_present :: bool
  rm_changed :: bool
  rm_updated_at :: timestamp

record pin_mutation =
  pm_message :: message
  pm_pinner :: pystr
  pm_pinned :: bool
  pm_changed :: bool
  pm_updated_at :: timestamp

text \<open>The \<open>data\<close> object of a webhook envelope, by the operation that writes it.\<close>

datatype webhook_data =
    MessageData "pystr option" message
  | ReactionData reaction_mutation
  | PinData pin_mutation
  | ModerationData pystr member_moderation

record envelope =
  env_id :: pystr
  env_type :: string
  env_timestamp :: timestamp
  env_room_id :: pystr
  env_data :: webhook_data

record webhook_delivery =
  wd_id :: pystr
  wd_event_type :: string
  wd_room_id :: pystr
  wd_created_at :: timestamp
  wd_attempt_count :: nat
  wd_next_attempt_at :: "timestamp option"
  wd_last_attempt_at :: "timestamp option"
  wd_delivered_at :: "timestamp option"
  wd_failed_at :: "timestamp option"
  wd_last_status_code :: "int option"
  wd_last_error :: "string option"

record webhook_row = webhook_delivery +
  wr_resource_id :: pystr
  wr_payload :: "envelope option"

datatype audit_value = AText pystr | ACount nat | AFlag bool | ATime "timestamp option"

record audit_row =
  au_id :: pystr
  au_action :: string
  au_actor :: pystr
  au_room_id :: "pystr option"
  au_created_at :: timestamp
  au_details :: "(pystr \<times> audit_value) list"

record db =
  db_rooms :: "room list"
  db_messages :: "message_row list"
  db_reactions :: "reaction_row list"
  db_controls :: "member_moderation list"
  db_reads :: "read_row list"
  db_webhooks :: "webhook_row list"
  db_audits :: "audit_row list"

definition empty_db :: db where
  "empty_db = \<lparr>db_rooms = [], db_messages = [], db_reactions = [], db_controls = [], db_reads = [],
     db_webhooks = [], db_audits = []\<rparr>"

definition SCHEMA_VERSION :: nat where
  "SCHEMA_VERSION = 11"

text \<open>
  Startup: a database of a newer engine is refused before anything is written; a new file gets the
  empty tables, an existing one keeps its rows. The new version is stored last.
\<close>

definition initialize_sync :: "nat \<times> db option \<Rightarrow> store_error + nat \<times> db" where
  "initialize_sync file = (case file of (current_version, tables) \<Rightarrow>
     if SCHEMA_VERSION < current_version then Inl (UnsupportedSchemaVersionError current_version)
     else Inr (SCHEMA_VERSION, case tables of None \<Rightarrow> empty_db | Some d \<Rightarrow> d))"

subsection \<open>Rows as public models\<close>

definition room_from_row :: "room \<Rightarrow> room" where
  "room_from_row row = row\<lparr>ro_id := py_strip (ro_id row), ro_name := py_strip (ro_name row),
     ro_description := py_strip (ro_description row)\<rparr>"

definition message_from_row :: "message_row \<Rightarrow> store_error + message" where
  "message_from_row row =
     (case res_bind (res_all ReactionSummary (msg_reactions row)) (\<lambda>reactions.
        res_bind (res_all AttachmentReference (msg_attachments row)) (\<lambda>attachments.
        Message ((message.truncate row)\<lparr>msg_reactions := reactions, msg_attachments := attachments\<rparr>)))
      of Inl e \<Rightarrow> Inl (ModelError e) | Inr m \<Rightarrow> Inr m)"

text \<open>The delivery metadata and its \<open>replayable\<close> flag; the body is never returned.\<close>

definition webhook_from_row :: "webhook_row \<Rightarrow> webhook_delivery \<times> bool" where
  "webhook_from_row row = ((webhook_delivery.truncate row)\<lparr>wd_id := py_strip (wd_id row),
     wd_room_id := py_strip (wd_room_id row)\<rparr>, wr_payload row \<noteq> None)"

definition audit_from_row :: "audit_row \<Rightarrow> audit_row" where
  "audit_from_row row = row\<lparr>au_id := py_strip (au_id row), au_actor := py_strip (au_actor row),
     au_room_id := map_option py_strip (au_room_id row)\<rparr>"

subsection \<open>Lookups by key\<close>

definition get_room_row :: "db \<Rightarrow> pystr \<Rightarrow> room option" where
  "get_room_row d room_id = find (\<lambda>r. ro_id r = room_id) (db_rooms d)"

definition get_message_row :: "db \<Rightarrow> pystr \<Rightarrow> pystr \<Rightarrow> message_row option" where
  "get_message_row d room_id message_id =
     find (\<lambda>m. msg_room_id m = room_id \<and> msg_id m = message_id) (db_messages d)"

definition get_message_by_id :: "db \<Rightarrow> pystr \<Rightarrow> message_row option" where
  "get_message_by_id d message_id = find (\<lambda>m. msg_id m = message_id) (db_messages d)"

definition get_control_row :: "db \<Rightarrow> pystr \<Rightarrow> pystr \<Rightarrow> member_moderation option" where
  "get_control_row d room_id subject =
     find (\<lambda>c. mod_room_id c = room_id \<and> mod_subject c = subject) (db_controls d)"

definition get_read_row :: "db \<Rightarrow> pystr \<Rightarrow> pystr \<Rightarrow> read_row option" where
  "get_read_row d room_id subject =
     find (\<lambda>s. rd_room_id s = room_id \<and> rd_subject s = subject) (db_reads d)"

text \<open>The \<open>ORDER BY created_at, id\<close> key of messages, audit events and webhook deliveries.\<close>

definition message_key :: "message_row \<Rightarrow> timestamp \<times> pystr" where
  "message_key m = (msg_created_at m, msg_id m)"

definition audit_key :: "audit_row \<Rightarrow> timestamp \<times> pystr" where
  "audit_key a = (au_created_at a, au_id a)"

definition webhook_key :: "webhook_row \<Rightarrow> timestamp \<times> pystr" where
  "webhook_key w = (wd_created_at w, wd_id w)"

definition room_messages :: "db \<Rightarrow> pystr \<Rightarrow> message_row list" where
  "room_messages d room_id = filter (\<lambda>m. msg_room_id m = room_id) (db_messages d)"

subsection \<open>Column checks, inserts and cascades\<close>

definition message_checks :: "message_row \<Rightarrow> bool" where
  "message_checks m \<longleftrightarrow>
     (case msg_pinned_by m of None \<Rightarrow> True | Some s \<Rightarrow> 1 \<le> length s \<and> length s \<le> 64) \<and>
     utf8_len (json_dumps (metadata_json (msg_metadata m))) \<le> 4096 \<and>
     utf8_len (json_dumps (attachments_json (msg_attachments m))) \<le> 8192 \<and>
     utf8_len (json_dumps (mentions_json (msg_mentioned_subjects m))) \<le> 4096"

text \<open>
  \<open>INSERT INTO messages\<close>: primary key, \<open>UNIQUE(room_id, client_message_id)\<close> (two \<open>NULL\<close>s are
  distinct), the two foreign keys and the checks.
\<close>

definition insert_message_row :: "message_row \<Rightarrow> db \<Rightarrow> store_error + db" where
  "insert_message_row m d =
     (if list_ex (\<lambda>x. msg_id x = msg_id m) (db_messages d) then Inl IntegrityError
      else if msg_client_message_id m \<noteq> None \<and>
        list_ex (\<lambda>x. msg_room_id x = msg_room_id m \<and>
          msg_client_message_id x = msg_client_message_id m) (db_messages d)
      then Inl IntegrityError
      else if get_room_row d (msg_room_id m) = None then Inl IntegrityError
      else if (case msg_parent_message_id m of None \<Rightarrow> False
        | Some p \<Rightarrow> p \<noteq> msg_id m \<and> get_message_by_id d p = None)
      then Inl IntegrityError
      else if \<not> message_checks m then Inl IntegrityError
      else Inr (d\<lparr>db_messages := db_messages d @ [m]\<rparr>))"

definition update_message_row ::
  "pystr \<Rightarrow> (message_row \<Rightarrow> message_row) \<Rightarrow> db \<Rightarrow> store_error + db" where
  "update_message_row message_id f d =
     (if list_ex (\<lambda>m. msg_id m = message_id \<and> \<not> message_checks (f m)) (db_messages d)
      then Inl IntegrityError
      else Inr (d\<lparr>db_messages :=
        update_where (\<lambda>m. msg_id m = message_id) f (db_messages d)\<rparr>))"

text \<open>
  \<open>DELETE FROM messages\<close>: reactions of the deleted rows cascade, replies to them keep their row with
  \<open>parent_message_id\<close> set to \<open>NULL\<close>.
\<close>

definition orphan :: "pystr list \<Rightarrow> message_row \<Rightarrow> message_row" where
  "orphan gone m = (case msg_parent_message_id m of
     None \<Rightarrow> m
   | Some p \<Rightarrow> if p \<in> set gone then m\<lparr>msg_parent_message_id := None\<rparr> else m)"

definition delete_message_rows :: "(message_row \<Rightarrow> bool) \<Rightarrow> db \<Rightarrow> db" where
  "delete_message_rows P d =
     (let gone = map msg_id (filter P (db_messages d)) in
      d\<lparr>db_messages := map (orphan gone) (filter (\<lambda>m. \<not> P m) (db_messages d)),
        db_reactions := filter (\<lambda>x. rx_message_id x \<notin> set gone) (db_reactions d)\<rparr>)"

text \<open>\<open>DELETE FROM rooms\<close>: messages, reactions, member controls and read states cascade.\<close>

definition delete_room_row :: "pystr \<Rightarrow> db \<Rightarrow> db" where
  "delete_room_row rid d =
     (let d1 = delete_message_rows (\<lambda>m. msg_room_id m = rid) d in
      d1\<lparr>db_rooms := filter (\<lambda>r. ro_id r \<noteq> rid) (db_rooms d1),
         db_reactions := filter (\<lambda>x. rx_room_id x \<noteq> rid) (db_reactions d1),
         db_controls := filter (\<lambda>c. mod_room_id c \<noteq> rid) (db_controls d1),
         db_reads := filter (\<lambda>s. rd_room_id s \<noteq> rid) (db_reads d1)\<rparr>)"

definition transaction :: "(db \<Rightarrow> store_error + 'a \<times> db) \<Rightarrow> db \<Rightarrow> (store_error + 'a) \<times> db" where
  "transaction body d = (case body d of Inl e \<Rightarrow> (Inl e, d) | Inr (v, d') \<Rightarrow> (Inr v, d'))"

end
