(* ===== verification/Store_Audit.thy ===== *)
theory Store_Audit
  imports Store_Schema
begin

section \<open>The administrative audit trail (store.py)\<close>

text \<open>
  \<open>_insert_audit\<close> appends one row and trims the table to its cap, oldest rows first. The lemmas show
  that an insert touches no other table, keeps the primary key, keeps the cap and drops only rows
  older than every row it keeps.
\<close>

definition trim_audits :: "store_config \<Rightarrow> audit_row list \<Rightarrow> audit_row list" where
  "trim_audits cfg rows =
     (let excess = map au_id (drop (max_audit_events cfg) (order_by_desc audit_key rows))
      in filter (\<lambda>a. au_id a \<notin> set excess) rows)"

definition insert_audit ::
  "store_config \<Rightarrow> pystr \<Rightarrow> timestamp \<Rightarrow> string \<Rightarrow> pystr \<Rightarrow> pystr option \<Rightarrow>
   (pystr \<times> audit_value) list \<Rightarrow> db \<Rightarrow> store_error + db" where
  "insert_audit cfg uid now action actor room details d =
     (if list_ex (\<lambda>a. au_id a = uid) (db_audits d) then Inl IntegrityError
      else Inr (d\<lparr>db_audits := trim_audits cfg (db_audits d @
        [\<lparr>au_id = uid, au_action = action, au_actor = actor, au_room_id = room,
          au_created_at = now, au_details = sort_key fst details\<rparr>])\<rparr>))"

definition audits_ok :: "store_config \<Rightarrow> db \<Rightarrow> bool" where
  "audits_ok cfg d \<longleftrightarrow> distinct (map au_id (db_audits d)) \<and> length (db_audits d) \<le> max_audit_events cfg"

lemma mset_trim_audits:
  "distinct (map au_id rows) \<Longrightarrow>
     mset (trim_audits cfg rows) = mset (take (max_audit_events cfg) (order_by_desc audit_key rows))"
  unfolding trim_audits_def Let_def by (rule mset_keep_take) simp_all

lemma length_trim_audits:
  "distinct (map au_id rows) \<Longrightarrow>
     length (trim_audits cfg rows) = min (max_audit_events cfg) (length rows)"
  using mset_eq_length [OF mset_trim_audits, of rows cfg] by (simp add: min.commute)

lemma set_trim_audits_subset: "set (trim_audits cfg rows) \<subseteq> set rows"
  by (auto simp: trim_audits_def Let_def)

lemma distinct_trim_audits: "distinct (map au_id rows) \<Longrightarrow> distinct (map au_id (trim_audits cfg rows))"
  unfolding trim_audits_def Let_def by (rule distinct_map_filter_key)

text \<open>Every dropped row is at most as new as every kept one.\<close>

lemma trim_audits_newest:
  assumes "distinct (map au_id rows)" and "a \<in> set rows" and "a \<notin> set (trim_audits cfg rows)"
    and "b \<in> set (trim_audits cfg rows)"
  shows "audit_key a \<le> audit_key b"
proof -
  let ?o = "order_by_desc audit_key rows" and ?n = "max_audit_events cfg"
  have kept: "set (trim_audits cfg rows) = set (take ?n ?o)"
    using mset_trim_audits [OF assms(1), of cfg] by (metis set_mset_mset)
  have "a \<in> set (take ?n ?o @ drop ?n ?o)" using assms(2) by simp
  then have "a \<in> set (drop ?n ?o)" using assms(3) kept by (simp del: append_take_drop_id)
  moreover have "b \<in> set (take ?n ?o)" using assms(4) kept by simp
  ultimately show ?thesis by (rule take_order_by_desc_ge [rotated])
qed

lemma insert_audit_Inr:
  "insert_audit cfg uid now action actor room details d = Inr d' \<longleftrightarrow>
     uid \<notin> au_id ` set (db_audits d) \<and>
     d' = d\<lparr>db_audits := trim_audits cfg (db_audits d @
        [\<lparr>au_id = uid, au_action = action, au_actor = actor, au_room_id = room,
          au_created_at = now, au_details = sort_key fst details\<rparr>])\<rparr>"
  by (auto simp: insert_audit_def list_ex_iff)

lemma insert_audit_frame:
  "insert_audit cfg uid now action actor room details d = Inr d' \<Longrightarrow> d' = d\<lparr>db_audits := db_audits d'\<rparr>"
  by (simp add: insert_audit_Inr)

lemma insert_audit_ok:
  "insert_audit cfg uid now action actor room details d = Inr d' \<Longrightarrow> audits_ok cfg d \<Longrightarrow>
     audits_ok cfg d'"
  by (auto simp: insert_audit_Inr audits_ok_def distinct_trim_audits length_trim_audits)

lemma insert_audit_Inl: "insert_audit cfg uid now action actor room details d = Inl e \<Longrightarrow>
    e = IntegrityError"
  by (simp add: insert_audit_def split: if_splits)

end
