(* ===== verification/Store_Outbox.thy ===== *)
theory Store_Outbox
  imports Store_Schema
begin

section \<open>The durable webhook outbox (store.py)\<close>

text \<open>
  The \<open>webhook_deliveries\<close> table: the insert with its capacity rule, the three scrubbing statements
  that remove retained message bodies, the dispatcher's selection of the next due row, the recording
  of an attempt and the operator's replay.
\<close>

text \<open>\<open>event_type LIKE 'message.%'\<close>; the engine's event names are lower-case.\<close>

definition like_message :: "string \<Rightarrow> bool" where
  "like_message event_type \<longleftrightarrow> take 8 event_type = ''message.''"

definition pending :: "'a webhook_delivery_scheme \<Rightarrow> bool" where
  "pending w \<longleftrightarrow> wd_delivered_at w = None \<and> wd_failed_at w = None"

definition evict_terminal :: "store_config \<Rightarrow> webhook_row list \<Rightarrow> webhook_row list" where
  "evict_terminal cfg rows =
     (let victims = map wd_id (take (length rows + 1 - max_webhook_deliveries cfg)
        (order_by webhook_key (filter (\<lambda>w. \<not> pending w) rows)))
      in filter (\<lambda>w. wd_id w \<notin> set victims) rows)"

definition delivery_id_of :: "pystr \<Rightarrow> pystr" where
  "delivery_id_of uid = str ''wh_'' @ uid"

definition new_webhook_row ::
  "pystr \<Rightarrow> string \<Rightarrow> pystr \<Rightarrow> pystr \<Rightarrow> timestamp \<Rightarrow> webhook_data \<Rightarrow> webhook_row" where
  "new_webhook_row uid event_type room_id resource_id occurred_at data =
     \<lparr>wd_id = delivery_id_of uid, wd_event_type = event_type, wd_room_id = room_id,
      wd_created_at = occurred_at, wd_attempt_count = 0, wd_next_attempt_at = Some occurred_at,
      wd_last_attempt_at = None, wd_delivered_at = None, wd_failed_at = None,
      wd_last_status_code = None, wd_last_error = None, wr_resource_id = resource_id,
      wr_payload = Some \<lparr>env_id = delivery_id_of uid, env_type = event_type,
        env_timestamp = occurred_at, env_room_id = room_id, env_data = data\<rparr>\<rparr>"

definition insert_webhook ::
  "store_config \<Rightarrow> pystr \<Rightarrow> string \<Rightarrow> pystr \<Rightarrow> pystr \<Rightarrow> timestamp \<Rightarrow> webhook_data \<Rightarrow> db \<Rightarrow>
   store_error + db" where
  "insert_webhook cfg uid event_type room_id resource_id occurred_at data d =
     (if event_type \<notin> set (webhook_events cfg) then Inr d
      else (let rows = evict_terminal cfg (db_webhooks d) in
        if max_webhook_deliveries cfg \<le> length rows then Inl WebhookCapacityError
        else if list_ex (\<lambda>w. wd_id w = delivery_id_of uid) rows then Inl IntegrityError
        else Inr (d\<lparr>db_webhooks := rows @
          [new_webhook_row uid event_type room_id resource_id occurred_at data]\<rparr>)))"

text \<open>
  The two statements every scrub consists of: pending rows that match are deleted, finished rows that
  match keep their metadata and lose their body.
\<close>

definition scrub :: "(webhook_row \<Rightarrow> bool) \<Rightarrow> webhook_row list \<Rightarrow> webhook_row list" where
  "scrub P rows = update_where (\<lambda>w. \<not> pending w \<and> P w) (\<lambda>w. w\<lparr>wr_payload := None\<rparr>)
     (filter (\<lambda>w. \<not> (pending w \<and> P w)) rows)"

definition scrub_message_webhooks :: "pystr \<Rightarrow> pystr \<Rightarrow> db \<Rightarrow> db" where
  "scrub_message_webhooks room_id message_id d = d\<lparr>db_webhooks :=
     scrub (\<lambda>w. wd_room_id w = room_id \<and> wr_resource_id w = message_id \<and>
       like_message (wd_event_type w)) (db_webhooks d)\<rparr>"

definition scrub_room_webhooks :: "pystr \<Rightarrow> db \<Rightarrow> db" where
  "scrub_room_webhooks room_id d =
     d\<lparr>db_webhooks := scrub (\<lambda>w. wd_room_id w = room_id) (db_webhooks d)\<rparr>"

text \<open>The deletion batch is a list of message ids with their room ids.\<close>

definition scrub_batch_webhooks :: "(pystr \<times> pystr) list \<Rightarrow> db \<Rightarrow> db" where
  "scrub_batch_webhooks batch d = d\<lparr>db_webhooks :=
     scrub (\<lambda>w. like_message (wd_event_type w) \<and> (wr_resource_id w, wd_room_id w) \<in> set batch)
       (db_webhooks d)\<rparr>"

subsection \<open>Dispatcher and operator operations\<close>

definition is_due :: "timestamp \<Rightarrow> webhook_row \<Rightarrow> bool" where
  "is_due now w \<longleftrightarrow> pending w \<and> wr_payload w \<noteq> None \<and>
     (case wd_next_attempt_at w of None \<Rightarrow> False | Some t \<Rightarrow> t \<le> now)"

definition due_key :: "webhook_row \<Rightarrow> timestamp \<times> timestamp \<times> pystr" where
  "due_key w = (case wd_next_attempt_at w of None \<Rightarrow> 0 | Some t \<Rightarrow> t, wd_created_at w, wd_id w)"

text \<open>A pending webhook: the delivery metadata and the body to sign and send.\<close>

definition next_webhook_delivery_sync ::
  "timestamp \<Rightarrow> db \<Rightarrow> (webhook_delivery \<times> envelope) option" where
  "next_webhook_delivery_sync now d =
     (case order_by due_key (filter (is_due now) (db_webhooks d)) of
        [] \<Rightarrow> None
      | row # _ \<Rightarrow> (case wr_payload row of None \<Rightarrow> None
          | Some payload \<Rightarrow> Some (fst (webhook_from_row row), payload)))"

definition record_webhook_attempt_sync ::
  "pystr \<Rightarrow> timestamp \<Rightarrow> int option \<Rightarrow> string option \<Rightarrow> timestamp option \<Rightarrow> bool \<Rightarrow> bool \<Rightarrow> db \<Rightarrow>
   store_error + unit \<times> db" where
  "record_webhook_attempt_sync delivery_id attempted_at status_code error next_attempt_at delivered
     failed d =
     (if delivered \<and> failed then Inl (ArgumentError ''a webhook attempt cannot be delivered and failed'')
      else if \<not> list_ex (\<lambda>w. wd_id w = delivery_id \<and> pending w) (db_webhooks d)
      then Inl (WebhookDeliveryNotFoundError delivery_id)
      else Inr ((), d\<lparr>db_webhooks :=
        update_where (\<lambda>w. wd_id w = delivery_id \<and> pending w)
          (\<lambda>w. w\<lparr>wd_attempt_count := wd_attempt_count w + 1,
                 wd_next_attempt_at := next_attempt_at,
                 wd_last_attempt_at := Some attempted_at,
                 wd_delivered_at := (if delivered then Some attempted_at else None),
                 wd_failed_at := (if failed then Some attempted_at else None),
                 wd_last_status_code := status_code,
                 wd_last_error := error\<rparr>) (db_webhooks d)\<rparr>))"

definition retry_webhook_delivery_sync ::
  "env \<Rightarrow> pystr \<Rightarrow> db \<Rightarrow> store_error + (webhook_delivery \<times> bool) \<times> db" where
  "retry_webhook_delivery_sync e delivery_id d =
     (case find (\<lambda>w. wd_id w = delivery_id) (db_webhooks d) of
        None \<Rightarrow> Inl (WebhookDeliveryNotFoundError delivery_id)
      | Some existing \<Rightarrow>
          (if wr_payload existing = None then Inl (WebhookPayloadUnavailableError delivery_id)
           else (let reset = (\<lambda>w :: webhook_row. w\<lparr>wd_attempt_count := 0,
                   wd_next_attempt_at := Some (now_op e), wd_last_attempt_at := None,
                   wd_delivered_at := None, wd_failed_at := None,
                   wd_last_status_code := None, wd_last_error := None\<rparr>)
                 in Inr (webhook_from_row (reset existing),
                   d\<lparr>db_webhooks := update_where (\<lambda>w. wd_id w = delivery_id) reset
                       (db_webhooks d)\<rparr>))))"

subsection \<open>Well-formed outbox\<close>

text \<open>
  Delivery ids are unique and within the cap; a delivery is never both delivered and failed; a pending
  delivery still has its body; and a retained body names the delivery, event and room of its row.
\<close>

definition delivery_ok :: "webhook_row \<Rightarrow> bool" where
  "delivery_ok w \<longleftrightarrow> (wd_delivered_at w = None \<or> wd_failed_at w = None) \<and>
     (pending w \<longrightarrow> wr_payload w \<noteq> None) \<and>
     (\<forall>p. wr_payload w = Some p \<longrightarrow>
        env_id p = wd_id w \<and> env_type p = wd_event_type w \<and> env_room_id p = wd_room_id w)"

definition webhooks_ok :: "store_config \<Rightarrow> db \<Rightarrow> bool" where
  "webhooks_ok cfg d \<longleftrightarrow> distinct (map wd_id (db_webhooks d)) \<and>
     length (db_webhooks d) \<le> max_webhook_deliveries cfg \<and> (\<forall>w\<in>set (db_webhooks d). delivery_ok w)"

lemma set_evict_terminal_subset: "set (evict_terminal cfg rows) \<subseteq> set rows"
  by (auto simp: evict_terminal_def Let_def)

lemma evict_terminal_keeps_pending:
  assumes "distinct (map wd_id rows)" and "w \<in> set rows" and "pending w"
  shows "w \<in> set (evict_terminal cfg rows)"
proof -
  have "wd_id w \<notin> wd_id ` {v \<in> set rows. \<not> pending v}"
    using assms distinct_key_inj [OF assms(1)] by blast
  then have "wd_id w \<notin> wd_id ` set (take n (order_by webhook_key (filter (\<lambda>w. \<not> pending w) rows)))"
    for n using in_set_takeD by fastforce
  then show ?thesis using assms(2) by (simp add: evict_terminal_def Let_def)
qed

lemma new_webhook_row_simps [simp]:
  "wd_id (new_webhook_row uid ev rid res t x) = delivery_id_of uid"
  "wd_event_type (new_webhook_row uid ev rid res t x) = ev"
  "wd_room_id (new_webhook_row uid ev rid res t x) = rid"
  "wr_resource_id (new_webhook_row uid ev rid res t x) = res"
  "wd_attempt_count (new_webhook_row uid ev rid res t x) = 0"
  "wd_next_attempt_at (new_webhook_row uid ev rid res t x) = Some t"
  "wr_payload (new_webhook_row uid ev rid res t x) = Some \<lparr>env_id = delivery_id_of uid,
     env_type = ev, env_timestamp = t, env_room_id = rid, env_data = x\<rparr>"
  "pending (new_webhook_row uid ev rid res t x)"
  "delivery_ok (new_webhook_row uid ev rid res t x)"
  by (simp_all add: new_webhook_row_def pending_def delivery_ok_def)

lemma insert_webhook_cases:
  assumes "insert_webhook cfg uid ev rid res t x d = Inr d'"
  obtains "ev \<notin> set (webhook_events cfg)" "d' = d"
  | "ev \<in> set (webhook_events cfg)"
    "length (evict_terminal cfg (db_webhooks d)) < max_webhook_deliveries cfg"
    "delivery_id_of uid \<notin> wd_id ` set (evict_terminal cfg (db_webhooks d))"
    "d' = d\<lparr>db_webhooks := evict_terminal cfg (db_webhooks d) @ [new_webhook_row uid ev rid res t x]\<rparr>"
  using assms by (auto simp: insert_webhook_def Let_def list_ex_key split: if_splits)

lemma insert_webhook_frame:
  "insert_webhook cfg uid ev rid res t x d = Inr d' \<Longrightarrow> d' = d\<lparr>db_webhooks := db_webhooks d'\<rparr>"
  by (erule insert_webhook_cases) simp_all

lemma insert_webhook_rows:
  assumes "insert_webhook cfg uid ev rid res t x d = Inr d'" and "w \<in> set (db_webhooks d')"
  shows "w \<in> set (db_webhooks d) \<or> w = new_webhook_row uid ev rid res t x"
  using assms(1)
proof (cases rule: insert_webhook_cases)
  case 2
  then show ?thesis using assms(2) set_evict_terminal_subset [of cfg "db_webhooks d"] by auto
qed (use assms(2) in simp)

lemma insert_webhook_ok:
  assumes "insert_webhook cfg uid ev rid res t x d = Inr d'" and ok: "webhooks_ok cfg d"
  shows "webhooks_ok cfg d'"
  using assms(1)
proof (cases rule: insert_webhook_cases)
  case 2
  have "distinct (map wd_id (evict_terminal cfg (db_webhooks d)))"
    using ok unfolding webhooks_ok_def evict_terminal_def Let_def
    by (blast intro: distinct_map_filter_key)
  then show ?thesis
    using 2 ok set_evict_terminal_subset [of cfg "db_webhooks d"]
    by (auto simp: webhooks_ok_def)
qed (use ok in simp)

lemma insert_webhook_Inl:
  "insert_webhook cfg uid ev rid res t x d = Inl e \<Longrightarrow> e = WebhookCapacityError \<or> e = IntegrityError"
  by (auto simp: insert_webhook_def Let_def split: if_splits)

subsection \<open>Scrubbing\<close>

lemma delivery_ok_scrubbed [simp]:
  "delivery_ok w \<Longrightarrow> \<not> pending w \<Longrightarrow> delivery_ok (w\<lparr>wr_payload := None\<rparr>)"
  by (auto simp: delivery_ok_def pending_def)

lemma in_scrubE:
  assumes "w \<in> set (scrub P rows)"
  obtains "w \<in> set rows" "\<not> P w"
  | v where "v \<in> set rows" "P v" "\<not> pending v" "w = v\<lparr>wr_payload := None\<rparr>"
  using assms unfolding scrub_def by (elim in_update_whereE) auto

lemma map_wd_id_scrub: "map wd_id (scrub P rows) = map wd_id (filter (\<lambda>w. \<not> (pending w \<and> P w)) rows)"
  by (simp add: scrub_def map_update_where)

lemma scrub_ok:
  assumes "webhooks_ok cfg d"
  shows "webhooks_ok cfg (d\<lparr>db_webhooks := scrub P (db_webhooks d)\<rparr>)"
proof -
  have "length (scrub P (db_webhooks d)) \<le> length (db_webhooks d)"
    by (simp add: scrub_def)
  then show ?thesis using assms
    by (auto simp: webhooks_ok_def map_wd_id_scrub distinct_map_filter_key elim!: in_scrubE)
qed

lemma scrub_no_body:
  assumes "\<And>w. P (w\<lparr>wr_payload := None\<rparr>) = P w" and "w \<in> set (scrub P rows)" and "P w"
  shows "wr_payload w = None"
  using assms(2) by (cases rule: in_scrubE) (use assms in auto)

text \<open>Every body a scrub leaves was there before, in the same row.\<close>

lemma scrub_body_kept:
  assumes "w \<in> set (scrub P rows)" and "wr_payload w \<noteq> None"
  shows "w \<in> set rows \<and> \<not> P w"
  using assms by (cases rule: in_scrubE) auto

lemmas scrub_defs = scrub_message_webhooks_def scrub_room_webhooks_def scrub_batch_webhooks_def

subsection \<open>Attempts and replay\<close>

lemma record_webhook_attempt_Inr:
  "record_webhook_attempt_sync did t st err nxt dl fl d = Inr (u, d') \<longleftrightarrow>
     \<not> (dl \<and> fl) \<and> (\<exists>w\<in>set (db_webhooks d). wd_id w = did \<and> pending w) \<and>
     d' = d\<lparr>db_webhooks :=
        update_where (\<lambda>w. wd_id w = did \<and> pending w)
          (\<lambda>w. w\<lparr>wd_attempt_count := wd_attempt_count w + 1, wd_next_attempt_at := nxt,
                 wd_last_attempt_at := Some t, wd_delivered_at := (if dl then Some t else None),
                 wd_failed_at := (if fl then Some t else None), wd_last_status_code := st,
                 wd_last_error := err\<rparr>) (db_webhooks d)\<rparr>"
  by (auto simp: record_webhook_attempt_sync_def list_ex_iff)

lemma record_webhook_attempt_ok:
  assumes "record_webhook_attempt_sync did t st err nxt dl fl d = Inr (u, d')" and "webhooks_ok cfg d"
  shows "webhooks_ok cfg d'"
  using assms unfolding record_webhook_attempt_Inr
  by (auto simp: webhooks_ok_def map_update_where delivery_ok_def pending_def elim!: in_update_whereE)

lemma retry_webhook_delivery_Inr:
  assumes "retry_webhook_delivery_sync e did d = Inr (r, d')"
  obtains w where "find (\<lambda>w. wd_id w = did) (db_webhooks d) = Some w" "wr_payload w \<noteq> None"
    "d' = d\<lparr>db_webhooks := update_where (\<lambda>w. wd_id w = did)
       (\<lambda>w. w\<lparr>wd_attempt_count := 0, wd_next_attempt_at := Some (now_op e),
          wd_last_attempt_at := None, wd_delivered_at := None, wd_failed_at := None,
          wd_last_status_code := None, wd_last_error := None\<rparr>) (db_webhooks d)\<rparr>"
  using assms by (auto simp: retry_webhook_delivery_sync_def Let_def split: option.splits if_splits)

lemma retry_webhook_delivery_ok:
  assumes "retry_webhook_delivery_sync e did d = Inr (r, d')" and ok: "webhooks_ok cfg d"
  shows "webhooks_ok cfg d'"
  using assms(1)
proof (cases rule: retry_webhook_delivery_Inr)
  case (1 w)
  have body: "wr_payload v \<noteq> None" if "v \<in> set (db_webhooks d)" "wd_id v = did" for v
  proof -
    have "v = w" using ok 1(1) that unfolding webhooks_ok_def by (blast intro: find_key_unique)
    then show ?thesis using 1(2) by simp
  qed
  have "delivery_ok v" if "v \<in> set (db_webhooks d')" for v
    using that ok body unfolding 1(3)
    by (auto simp: webhooks_ok_def delivery_ok_def pending_def elim!: in_update_whereE)
  then show ?thesis using 1(3) ok by (simp add: webhooks_ok_def map_update_where)
qed

subsection \<open>Capacity and selection\<close>

lemma length_evict_terminal:
  assumes "distinct (map wd_id rows)"
  shows "length (evict_terminal cfg rows) = length rows -
    min (length (filter (\<lambda>w. \<not> pending w) rows)) (length rows + 1 - max_webhook_deliveries cfg)"
proof -
  let ?t = "filter (\<lambda>w. \<not> pending w) rows" and ?n = "length rows + 1 - max_webhook_deliveries cfg"
  let ?v = "take ?n (order_by webhook_key ?t)"
  have v: "set ?v \<subseteq> set rows" "distinct (map wd_id ?v)"
  proof -
    have "mset (order_by webhook_key ?t) = mset ?t" by simp
    moreover have "distinct (map wd_id ?t)" by (rule distinct_map_filter_key [OF assms])
    ultimately have "distinct (map wd_id (order_by webhook_key ?t))" by (metis distinct_map_mset)
    then show "distinct (map wd_id ?v)" by (simp add: take_map [symmetric])
    show "set ?v \<subseteq> set rows" using set_take_subset [of ?n "order_by webhook_key ?t"] by auto
  qed
  have keep: "evict_terminal cfg rows = filter (\<lambda>w. wd_id w \<notin> wd_id ` set ?v) rows"
    by (simp add: evict_terminal_def Let_def)
  have gone: "length (filter (\<lambda>w. wd_id w \<in> wd_id ` set ?v) rows) = length ?v"
  proof -
    have "set (filter (\<lambda>w. wd_id w \<in> wd_id ` set ?v) rows) = set ?v"
      using v(1) distinct_key_inj [OF assms] by auto
    moreover have "distinct (filter (\<lambda>w. wd_id w \<in> wd_id ` set ?v) rows)" "distinct ?v"
      using assms v(2) by (simp_all add: distinct_map)
    ultimately show ?thesis by (metis distinct_card)
  qed
  have "length (filter (\<lambda>w. wd_id w \<in> wd_id ` set ?v) rows) +
      length (filter (\<lambda>w. wd_id w \<notin> wd_id ` set ?v) rows) = length rows"
    by (rule sum_length_filter_compl)
  then have "length (evict_terminal cfg rows) = length rows - length ?v"
    unfolding keep gone by (metis diff_add_inverse)
  then show ?thesis by simp
qed

lemma insert_webhook_full:
  assumes "distinct (map wd_id (db_webhooks d))" and "length (db_webhooks d) \<le> max_webhook_deliveries cfg"
    and "ev \<in> set (webhook_events cfg)"
  shows "insert_webhook cfg uid ev rid res t x d = Inl WebhookCapacityError \<longleftrightarrow>
    max_webhook_deliveries cfg \<le> length (filter pending (db_webhooks d))"
proof -
  have "length (filter pending (db_webhooks d)) + length (filter (\<lambda>w. \<not> pending w) (db_webhooks d)) =
      length (db_webhooks d)"
    by (rule sum_length_filter_compl)
  then have "max_webhook_deliveries cfg \<le> length (evict_terminal cfg (db_webhooks d)) \<longleftrightarrow>
      max_webhook_deliveries cfg \<le> length (filter pending (db_webhooks d))"
    unfolding length_evict_terminal [OF assms(1)] using assms(2) by (auto simp: min_def)
  then show ?thesis using assms(3) by (auto simp: insert_webhook_def Let_def)
qed

lemma next_webhook_None:
  "(\<forall>w\<in>set (db_webhooks d). \<not> is_due now w) \<Longrightarrow> next_webhook_delivery_sync now d = None"
  by (simp add: next_webhook_delivery_sync_def order_by_def)

end
