(* ===== verification/Store_Inv.thy ===== *)
theory Store_Inv
  imports Store_Audit Store_Outbox
begin

section \<open>The invariant of the store\<close>

text \<open>
  What holds of the tables between transactions, one predicate per concern, and that the table
  primitives of the schema (insert, update, delete with cascades) keep it. The operations of the
  store are built from these primitives, so their preservation proofs only compose the lemmas below.
\<close>

text \<open>\<open>SELECT reaction_key, COUNT( * ) .. GROUP BY reaction_key ORDER BY reaction_key\<close> for one message.\<close>

definition reaction_keys :: "reaction_row list \<Rightarrow> pystr \<Rightarrow> pystr list" where
  "reaction_keys rows mid = remdups (map rx_key (filter (\<lambda>x. rx_message_id x = mid) rows))"

definition reaction_summaries :: "reaction_row list \<Rightarrow> pystr \<Rightarrow> reaction_summary list" where
  "reaction_summaries rows mid =
     map (\<lambda>k. \<lparr>rs_key = k,
        rs_count = length (filter (\<lambda>x. rx_message_id x = mid \<and> rx_key x = k) rows)\<rparr>)
       (sort (reaction_keys rows mid))"

definition reaction_ident :: "reaction_row \<Rightarrow> pystr \<times> pystr \<times> pystr" where
  "reaction_ident x = (rx_message_id x, rx_reactor x, rx_key x)"

definition has_room :: "db \<Rightarrow> pystr \<Rightarrow> bool" where
  "has_room d rid \<longleftrightarrow> rid \<in> ro_id ` set (db_rooms d)"

text \<open>Primary keys, the shape of room ids and reaction keys, and the idempotency key.\<close>

definition keys_inv :: "db \<Rightarrow> bool" where
  "keys_inv d \<longleftrightarrow> distinct (map ro_id (db_rooms d)) \<and> distinct (map msg_id (db_messages d)) \<and>
     distinct (map reaction_ident (db_reactions d)) \<and>
     distinct (map (\<lambda>c. (mod_room_id c, mod_subject c)) (db_controls d)) \<and>
     distinct (map (\<lambda>s. (rd_room_id s, rd_subject s)) (db_reads d)) \<and>
     (\<forall>r\<in>set (db_rooms d). py_strip (ro_id r) = ro_id r) \<and>
     (\<forall>x\<in>set (db_reactions d). REACTION_KEY_PATTERN (rx_key x)) \<and>
     (\<forall>m\<in>set (db_messages d). \<forall>n\<in>set (db_messages d). msg_room_id m = msg_room_id n \<longrightarrow>
        msg_client_message_id m = msg_client_message_id n \<longrightarrow> msg_client_message_id m \<noteq> None \<longrightarrow>
        m = n)"

definition refs_inv :: "db \<Rightarrow> bool" where
  "refs_inv d \<longleftrightarrow> (\<forall>m\<in>set (db_messages d). has_room d (msg_room_id m)) \<and>
     (\<forall>c\<in>set (db_controls d). has_room d (mod_room_id c)) \<and>
     (\<forall>s\<in>set (db_reads d). has_room d (rd_room_id s))"

text \<open>Threads are one level deep: a parent is a top-level message of the same room.\<close>

definition threads_inv :: "db \<Rightarrow> bool" where
  "threads_inv d \<longleftrightarrow> (\<forall>m\<in>set (db_messages d). \<forall>p. msg_parent_message_id m = Some p \<longrightarrow>
     (\<exists>q\<in>set (db_messages d). msg_id q = p \<and> msg_room_id q = msg_room_id m \<and>
        msg_parent_message_id q = None))"

text \<open>
  Reactions belong to live messages of their room, and the summary kept in the message row is the
  grouped count of the reaction table, with at most twenty keys.
\<close>

definition reactions_inv :: "db \<Rightarrow> bool" where
  "reactions_inv d \<longleftrightarrow>
     (\<forall>x\<in>set (db_reactions d). \<exists>m\<in>set (db_messages d). msg_id m = rx_message_id x \<and>
        msg_room_id m = rx_room_id x \<and> msg_deleted_at m = None) \<and>
     (\<forall>m\<in>set (db_messages d). msg_reactions m = reaction_summaries (db_reactions d) (msg_id m) \<and>
        length (msg_reactions m) \<le> 20)"

text \<open>
  Every row can be read back, its id carries no surrounding space, and a tombstone holds no content
  and no reactions.
\<close>

definition row_ok :: "message_row \<Rightarrow> bool" where
  "row_ok m \<longleftrightarrow> is_ok (message_from_row m) \<and> py_strip (msg_id m) = msg_id m \<and>
     (msg_deleted_at m \<noteq> None \<longrightarrow> msg_content m = [] \<and> msg_reactions m = [])"

definition rows_inv :: "db \<Rightarrow> bool" where
  "rows_inv d \<longleftrightarrow> (\<forall>m\<in>set (db_messages d). row_ok m)"

text \<open>
  Privacy of the outbox: a retained body of a message event belongs to a stored message of its room,
  and for a deleted message only the \<open>message.deleted\<close> event, whose body is the tombstone, is retained.
\<close>

definition body_allowed :: "db \<Rightarrow> string \<Rightarrow> pystr \<Rightarrow> pystr \<Rightarrow> bool" where
  "body_allowed d ev rid res \<longleftrightarrow> (\<exists>m\<in>set (db_messages d). msg_id m = res \<and> msg_room_id m = rid \<and>
     (msg_deleted_at m \<noteq> None \<longrightarrow> ev = ''message.deleted''))"

definition private_inv :: "db \<Rightarrow> bool" where
  "private_inv d \<longleftrightarrow> (\<forall>w\<in>set (db_webhooks d). like_message (wd_event_type w) \<longrightarrow>
     wr_payload w \<noteq> None \<longrightarrow>
     body_allowed d (wd_event_type w) (wd_room_id w) (wr_resource_id w))"

definition caps_inv :: "store_config \<Rightarrow> db \<Rightarrow> bool" where
  "caps_inv cfg d \<longleftrightarrow> length (db_rooms d) \<le> max_rooms cfg \<and>
     length (db_messages d) \<le> max_stored_messages cfg \<and>
     (\<forall>rid. length (room_messages d rid) \<le> max_stored_messages_per_room cfg) \<and>
     (\<forall>rid. length (filter (\<lambda>s. rd_room_id s = rid) (db_reads d)) \<le> max_read_states_per_room cfg)"

definition tables_inv :: "db \<Rightarrow> bool" where
  "tables_inv d \<longleftrightarrow> keys_inv d \<and> refs_inv d \<and> threads_inv d \<and> reactions_inv d \<and> rows_inv d"

definition store_inv :: "store_config \<Rightarrow> db \<Rightarrow> bool" where
  "store_inv cfg d \<longleftrightarrow> tables_inv d \<and> private_inv d \<and> caps_inv cfg d \<and> audits_ok cfg d \<and>
     webhooks_ok cfg d"

lemmas inv_defs = keys_inv_def refs_inv_def threads_inv_def reactions_inv_def rows_inv_def
  private_inv_def body_allowed_def caps_inv_def has_room_def room_messages_def tables_inv_def

lemma store_inv_empty: "store_inv cfg empty_db"
  by (simp add: store_inv_def inv_defs empty_db_def audits_ok_def webhooks_ok_def)

subsection \<open>Tables that do not matter\<close>

text \<open>Only \<open>audits_ok\<close> reads the audit table; only \<open>webhooks_ok\<close> and \<open>private_inv\<close> the outbox.\<close>

lemma inv_audits [simp]:
  "tables_inv (d\<lparr>db_audits := x\<rparr>) = tables_inv d"
  "private_inv (d\<lparr>db_audits := x\<rparr>) = private_inv d"
  "caps_inv cfg (d\<lparr>db_audits := x\<rparr>) = caps_inv cfg d"
  "webhooks_ok cfg (d\<lparr>db_audits := x\<rparr>) = webhooks_ok cfg d"
  by (simp_all add: inv_defs webhooks_ok_def)

lemma inv_webhooks [simp]:
  "tables_inv (d\<lparr>db_webhooks := x\<rparr>) = tables_inv d"
  "caps_inv cfg (d\<lparr>db_webhooks := x\<rparr>) = caps_inv cfg d"
  "audits_ok cfg (d\<lparr>db_webhooks := x\<rparr>) = audits_ok cfg d"
  by (simp_all add: inv_defs audits_ok_def)

lemma insert_audit_inv:
  assumes ins: "insert_audit cfg uid now action actor room details d = Inr d'"
  shows "tables_inv d' = tables_inv d" "private_inv d' = private_inv d"
    "caps_inv cfg d' = caps_inv cfg d" "webhooks_ok cfg d' = webhooks_ok cfg d"
    "store_inv cfg d \<Longrightarrow> store_inv cfg d'"
proof -
  note eq = insert_audit_frame [OF ins]
  show *: "tables_inv d' = tables_inv d" "private_inv d' = private_inv d"
    "caps_inv cfg d' = caps_inv cfg d" "webhooks_ok cfg d' = webhooks_ok cfg d"
    by (subst eq, simp)+
  then show "store_inv cfg d \<Longrightarrow> store_inv cfg d'"
    using insert_audit_ok [OF ins] by (simp add: store_inv_def)
qed

lemma body_allowed_webhooks [simp]:
  "body_allowed (d\<lparr>db_webhooks := x\<rparr>) = body_allowed d"
  by (simp add: body_allowed_def fun_eq_iff)

lemma insert_webhook_inv:
  assumes ins: "insert_webhook cfg uid ev rid res t x d = Inr d'"
    and body: "like_message ev \<Longrightarrow> body_allowed d ev rid res"
  shows "tables_inv d' = tables_inv d" "caps_inv cfg d' = caps_inv cfg d"
    "audits_ok cfg d' = audits_ok cfg d" "private_inv d \<Longrightarrow> private_inv d'"
    "store_inv cfg d \<Longrightarrow> store_inv cfg d'"
proof -
  note eq = insert_webhook_frame [OF ins]
  show *: "tables_inv d' = tables_inv d" "caps_inv cfg d' = caps_inv cfg d"
    "audits_ok cfg d' = audits_ok cfg d"
    by (subst eq, simp)+
  have ba: "body_allowed d' = body_allowed d" by (subst eq) simp
  show priv: "private_inv d \<Longrightarrow> private_inv d'"
    using body unfolding private_inv_def ba by (auto dest!: insert_webhook_rows [OF ins])
  show "store_inv cfg d \<Longrightarrow> store_inv cfg d'"
    using * priv insert_webhook_ok [OF ins] by (simp add: store_inv_def)
qed

end
