(* ===== verification/Store_Tables.thy ===== *)
theory Store_Tables
  imports Store_Inv
begin

section \<open>The invariant under inserts, updates and deletes\<close>

text \<open>
  Each table primitive of the schema keeps the table invariant. The operations of the store are
  sequences of these primitives, so their preservation proofs compose the lemmas below.
\<close>

text \<open>
  A statement changes the row \<open>mid\<close> by \<open>f\<close> and the reaction table to \<open>rs\<close>. It is a legal step when it
  keeps the identity of the row, changes only reactions of that message, and leaves the row readable
  with the summary of the new reaction table.
\<close>

definition change_message ::
  "pystr \<Rightarrow> (message_row \<Rightarrow> message_row) \<Rightarrow> reaction_row list \<Rightarrow> db \<Rightarrow> db" where
  "change_message mid f rs d =
     d\<lparr>db_messages := update_where (\<lambda>m. msg_id m = mid) f (db_messages d), db_reactions := rs\<rparr>"

definition keeps_identity :: "(message_row \<Rightarrow> message_row) \<Rightarrow> bool" where
  "keeps_identity f \<longleftrightarrow> (\<forall>m. msg_id (f m) = msg_id m \<and> msg_room_id (f m) = msg_room_id m \<and>
     msg_client_message_id (f m) = msg_client_message_id m \<and>
     msg_parent_message_id (f m) = msg_parent_message_id m)"

definition legal_change ::
  "pystr \<Rightarrow> (message_row \<Rightarrow> message_row) \<Rightarrow> reaction_row list \<Rightarrow> db \<Rightarrow> bool" where
  "legal_change mid f rs d \<longleftrightarrow> keeps_identity f \<and> distinct (map reaction_ident rs) \<and>
     (\<forall>x\<in>set rs. REACTION_KEY_PATTERN (rx_key x)) \<and>
     (\<forall>other. other \<noteq> mid \<longrightarrow> filter (\<lambda>x. rx_message_id x = other) rs =
        filter (\<lambda>x. rx_message_id x = other) (db_reactions d)) \<and>
     (\<forall>x\<in>set rs. rx_message_id x = mid \<longrightarrow> (\<exists>m\<in>set (db_messages d). msg_id m = mid \<and>
        msg_room_id m = rx_room_id x \<and> msg_deleted_at (f m) = None)) \<and>
     (\<forall>m\<in>set (db_messages d). msg_id m = mid \<longrightarrow> row_ok (f m) \<and>
        msg_reactions (f m) = reaction_summaries rs mid \<and> length (msg_reactions (f m)) \<le> 20)"

text \<open>\<open>INSERT .. ON CONFLICT(key) DO UPDATE\<close>.\<close>

definition upsert :: "('r \<Rightarrow> 'k) \<Rightarrow> 'r \<Rightarrow> 'r list \<Rightarrow> 'r list" where
  "upsert key row rows =
     (if list_ex (\<lambda>r. key r = key row) rows then update_where (\<lambda>r. key r = key row) (\<lambda>_. row) rows
      else rows @ [row])"

subsection \<open>Upserts\<close>

lemma set_upsert: "set (upsert key row rows) = insert row {r \<in> set rows. key r \<noteq> key row}"
  by (auto simp: upsert_def set_update_where list_ex_iff)

lemma map_key_upsert:
  "map key (upsert key row rows) =
     (if key row \<in> key ` set rows then map key rows else map key rows @ [key row])"
  by (simp add: upsert_def list_ex_key) (simp add: update_where_def)

lemma distinct_upsert: "distinct (map key rows) \<Longrightarrow> distinct (map key (upsert key row rows))"
  by (simp add: map_key_upsert)

lemma find_upsert:
  "find (\<lambda>r. key r = k) (upsert key row rows) =
     (if k = key row then Some row else find (\<lambda>r. key r = k) rows)"
proof (cases "list_ex (\<lambda>r. key r = key row) rows")
  case True
  have "find (\<lambda>r. key r = k) (update_where (\<lambda>r. key r = key row) (\<lambda>_. row) rows) =
      map_option (\<lambda>r. if key r = key row then row else r) (find (\<lambda>r. key r = k) rows)"
    by (rule find_update_where) simp
  moreover have "find (\<lambda>r. key r = key row) rows \<noteq> None"
    using True by (auto simp: list_ex_iff find_eq_None)
  ultimately show ?thesis using True
    by (cases "find (\<lambda>r. key r = k) rows") (auto simp: upsert_def dest: find_SomeD)
next
  case False
  then have "find (\<lambda>r. key r = key row) rows = None" by (auto simp: find_eq_None list_ex_iff)
  moreover have "find Q (rows @ [row]) = (case find Q rows of None \<Rightarrow> if Q row then Some row else None
      | Some r \<Rightarrow> Some r)" for Q
    by (induction rows) simp_all
  ultimately show ?thesis using False by (auto simp: upsert_def split: option.splits)
qed

subsection \<open>Deleting messages\<close>

lemma orphan_simps [simp]:
  "msg_id (orphan g m) = msg_id m" "msg_room_id (orphan g m) = msg_room_id m"
  "msg_client_message_id (orphan g m) = msg_client_message_id m"
  "msg_reactions (orphan g m) = msg_reactions m" "msg_deleted_at (orphan g m) = msg_deleted_at m"
  "msg_content (orphan g m) = msg_content m" "msg_created_at (orphan g m) = msg_created_at m"
  "msg_author_subject (orphan g m) = msg_author_subject m"
  by (simp_all add: orphan_def split: option.splits)

lemma orphan_parent:
  "msg_parent_message_id (orphan g m) = (case msg_parent_message_id m of None \<Rightarrow> None
     | Some p \<Rightarrow> if p \<in> set g then None else Some p)"
  by (simp add: orphan_def split: option.splits)

lemma Message_ok_parent:
  "is_ok (Message (m\<lparr>msg_parent_message_id := p\<rparr>)) = is_ok (Message m)"
  by (simp add: Message_def is_ok_def res_bind_def require_complete_pin_metadata_def split: sum.splits)

lemma message_from_row_ok:
  "is_ok (message_from_row row) \<longleftrightarrow>
     (\<exists>rs as. res_all ReactionSummary (msg_reactions row) = Inr rs \<and>
        res_all AttachmentReference (msg_attachments row) = Inr as \<and>
        is_ok (Message ((message.truncate row)\<lparr>msg_reactions := rs, msg_attachments := as\<rparr>)))"
  by (auto simp: message_from_row_def is_ok_iff split: sum.splits)

lemma row_ok_parent [simp]: "row_ok (m\<lparr>msg_parent_message_id := p\<rparr>) = row_ok m"
proof -
  have "is_ok (message_from_row (m\<lparr>msg_parent_message_id := p\<rparr>)) = is_ok (message_from_row m)"
    using Message_ok_parent [where m = "(message.truncate m)\<lparr>msg_reactions := _, msg_attachments := _\<rparr>"
        and p = p]
    by (simp add: message_from_row_ok message.truncate_def)
  then show ?thesis by (simp add: row_ok_def)
qed

lemma row_ok_orphan [simp]: "row_ok (orphan g m) = row_ok m"
  by (simp add: orphan_def split: option.splits)

lemma reaction_summaries_cong:
  "filter (\<lambda>x. rx_message_id x = mid) xs = filter (\<lambda>x. rx_message_id x = mid) ys \<Longrightarrow>
     reaction_summaries xs mid = reaction_summaries ys mid"
proof -
  assume eq: "filter (\<lambda>x. rx_message_id x = mid) xs = filter (\<lambda>x. rx_message_id x = mid) ys"
  have "filter (\<lambda>x. rx_message_id x = mid \<and> rx_key x = k) zs =
      filter (\<lambda>x. rx_key x = k) (filter (\<lambda>x. rx_message_id x = mid) zs)"
    for k and zs :: "reaction_row list"
    by (simp add: conj_commute)
  with eq have "filter (\<lambda>x. rx_message_id x = mid \<and> rx_key x = k) xs =
      filter (\<lambda>x. rx_message_id x = mid \<and> rx_key x = k) ys" for k
    by presburger
  with eq show ?thesis by (simp add: reaction_summaries_def reaction_keys_def)
qed

lemma reaction_summaries_Nil [simp]: "reaction_summaries [] mid = []"
  by (simp add: reaction_summaries_def reaction_keys_def)

lemma in_delete_message_rows:
  "m \<in> set (db_messages (delete_message_rows P d)) \<longleftrightarrow>
     (\<exists>n\<in>set (db_messages d). \<not> P n \<and> m = orphan (map msg_id (filter P (db_messages d))) n)"
  by (auto simp: delete_message_rows_def Let_def)

lemma kept_id_not_gone:
  "keys_inv d \<Longrightarrow> m \<in> set (db_messages d) \<Longrightarrow> \<not> P m \<Longrightarrow>
     msg_id m \<notin> set (map msg_id (filter P (db_messages d)))"
  by (auto simp: keys_inv_def dest: distinct_key_inj)

lemma delete_message_rows_frame [simp]:
  "db_rooms (delete_message_rows P d) = db_rooms d"
  "db_controls (delete_message_rows P d) = db_controls d"
  "db_reads (delete_message_rows P d) = db_reads d"
  "db_webhooks (delete_message_rows P d) = db_webhooks d"
  "db_audits (delete_message_rows P d) = db_audits d"
  by (simp_all add: delete_message_rows_def Let_def)

lemma map_id_delete_message_rows:
  "map msg_id (db_messages (delete_message_rows P d)) = map msg_id (filter (\<lambda>m. \<not> P m) (db_messages d))"
  by (simp add: delete_message_rows_def Let_def o_def)

lemma delete_message_rows_keys:
  assumes "keys_inv d"
  shows "keys_inv (delete_message_rows P d)"
proof -
  have "distinct (map msg_id (db_messages (delete_message_rows P d)))"
    unfolding map_id_delete_message_rows
    using assms by (simp add: keys_inv_def distinct_map_filter_key)
  moreover have "distinct (map reaction_ident (db_reactions (delete_message_rows P d)))"
    using assms by (simp add: keys_inv_def delete_message_rows_def Let_def distinct_map_filter_key)
  moreover have "set (db_reactions (delete_message_rows P d)) \<subseteq> set (db_reactions d)"
    by (auto simp: delete_message_rows_def Let_def)
  moreover have "m = n"
    if m: "m \<in> set (db_messages (delete_message_rows P d))"
      "n \<in> set (db_messages (delete_message_rows P d))"
      and eq: "msg_room_id m = msg_room_id n" "msg_client_message_id m = msg_client_message_id n"
      "msg_client_message_id m \<noteq> None" for m n
    using m eq assms unfolding in_delete_message_rows keys_inv_def by (metis orphan_simps(2,3))
  ultimately show ?thesis using assms by (auto simp: keys_inv_def)
qed

lemma delete_message_rows_threads:
  assumes "keys_inv d" and "threads_inv d"
  shows "threads_inv (delete_message_rows P d)"
  unfolding threads_inv_def
proof (intro ballI allI impI)
  let ?g = "map msg_id (filter P (db_messages d))"
  fix m p
  assume m: "m \<in> set (db_messages (delete_message_rows P d))" and p: "msg_parent_message_id m = Some p"
  then obtain n where n: "n \<in> set (db_messages d)" "\<not> P n" "m = orphan ?g n"
    by (auto simp: in_delete_message_rows)
  then have np: "msg_parent_message_id n = Some p" "p \<notin> set ?g"
    using p by (auto simp: orphan_parent split: option.splits if_splits)
  then obtain q where q: "q \<in> set (db_messages d)" "msg_id q = p" "msg_room_id q = msg_room_id n"
    "msg_parent_message_id q = None"
    using assms(2) n(1) unfolding threads_inv_def by blast
  have "\<not> P q" using np(2) q(1,2) by auto
  moreover have "orphan ?g q = q" using q(4) by (simp add: orphan_def)
  ultimately have "q \<in> set (db_messages (delete_message_rows P d))"
    using q(1) unfolding in_delete_message_rows by metis
  then show "\<exists>q\<in>set (db_messages (delete_message_rows P d)). msg_id q = p \<and>
      msg_room_id q = msg_room_id m \<and> msg_parent_message_id q = None"
    using q n(3) by auto
qed

lemma delete_message_rows_reactions:
  assumes "keys_inv d" and "reactions_inv d"
  shows "reactions_inv (delete_message_rows P d)"
  unfolding reactions_inv_def
proof (intro conjI ballI)
  let ?g = "map msg_id (filter P (db_messages d))" and ?d = "delete_message_rows P d"
  have rx: "db_reactions ?d = filter (\<lambda>x. rx_message_id x \<notin> set ?g) (db_reactions d)"
    by (simp add: delete_message_rows_def Let_def)
  fix x assume "x \<in> set (db_reactions ?d)"
  then have x: "x \<in> set (db_reactions d)" "rx_message_id x \<notin> set ?g" by (simp_all add: rx)
  then obtain m where m: "m \<in> set (db_messages d)" "msg_id m = rx_message_id x"
    "msg_room_id m = rx_room_id x" "msg_deleted_at m = None"
    using assms(2) unfolding reactions_inv_def by blast
  then have "\<not> P m" using x(2) by (auto simp: image_iff)
  then have "orphan ?g m \<in> set (db_messages ?d)"
    using m(1) unfolding in_delete_message_rows by blast
  then show "\<exists>m\<in>set (db_messages ?d). msg_id m = rx_message_id x \<and> msg_room_id m = rx_room_id x \<and>
      msg_deleted_at m = None"
    using m by (intro bexI [of _ "orphan ?g m"]) simp_all
next
  let ?g = "map msg_id (filter P (db_messages d))" and ?d = "delete_message_rows P d"
  fix m assume "m \<in> set (db_messages ?d)"
  then obtain n where n: "n \<in> set (db_messages d)" "\<not> P n" "m = orphan ?g n"
    by (auto simp: in_delete_message_rows)
  have "filter (\<lambda>x. rx_message_id x = msg_id n) (db_reactions ?d) =
      filter (\<lambda>x. rx_message_id x = msg_id n) (db_reactions d)"
    using kept_id_not_gone [of d n P, OF assms(1) n(1,2)]
    by (auto simp: delete_message_rows_def Let_def image_iff intro!: filter_cong)
  then show "msg_reactions m = reaction_summaries (db_reactions ?d) (msg_id m)"
    "length (msg_reactions m) \<le> 20"
    using n assms(2) by (auto simp: reactions_inv_def dest: reaction_summaries_cong)
qed

lemma delete_message_rows_tables:
  "tables_inv d \<Longrightarrow> tables_inv (delete_message_rows P d)"
  unfolding tables_inv_def
  using delete_message_rows_keys delete_message_rows_threads delete_message_rows_reactions
  by (auto simp: refs_inv_def has_room_def rows_inv_def in_delete_message_rows)

lemma length_filter_less: "length (filter P (filter Q xs)) \<le> length (filter P xs)"
  by (induction xs) simp_all

lemma room_messages_delete:
  "length (room_messages (delete_message_rows P d) rid) \<le> length (room_messages d rid)"
proof -
  have "length (room_messages (delete_message_rows P d) rid) =
      length (filter (\<lambda>m. msg_room_id m = rid) (filter (\<lambda>m. \<not> P m) (db_messages d)))"
    by (simp add: room_messages_def delete_message_rows_def Let_def filter_map o_def)
  then show ?thesis unfolding room_messages_def using length_filter_less by metis
qed

lemma length_delete_message_rows:
  "length (db_messages (delete_message_rows P d)) \<le> length (db_messages d)"
  by (simp add: delete_message_rows_def Let_def)

lemma delete_message_rows_caps: "caps_inv cfg d \<Longrightarrow> caps_inv cfg (delete_message_rows P d)"
  using length_delete_message_rows [of P d] room_messages_delete [of P d]
  by (auto simp: caps_inv_def intro: order_trans)

subsection \<open>Scrubbing and the outbox invariant\<close>

text \<open>
  A change of messages and outbox keeps the privacy of the outbox when every remaining body of a
  message event was there before and is still allowed.
\<close>

lemma private_inv_step:
  assumes "private_inv d"
    and "\<And>w. w \<in> set (db_webhooks d') \<Longrightarrow> like_message (wd_event_type w) \<Longrightarrow> wr_payload w \<noteq> None \<Longrightarrow>
      w \<in> set (db_webhooks d) \<and>
      (body_allowed d (wd_event_type w) (wd_room_id w) (wr_resource_id w) \<longrightarrow>
       body_allowed d' (wd_event_type w) (wd_room_id w) (wr_resource_id w))"
  shows "private_inv d'"
  using assms unfolding private_inv_def by blast

lemma body_allowed_delete:
  assumes "body_allowed d ev rid res"
    and "\<And>m. m \<in> set (db_messages d) \<Longrightarrow> msg_id m = res \<Longrightarrow> msg_room_id m = rid \<Longrightarrow> \<not> P m"
  shows "body_allowed (delete_message_rows P d) ev rid res"
proof -
  obtain m where m: "m \<in> set (db_messages d)" "msg_id m = res" "msg_room_id m = rid"
    "msg_deleted_at m \<noteq> None \<longrightarrow> ev = ''message.deleted''"
    using assms(1) unfolding body_allowed_def by blast
  then have "orphan (map msg_id (filter P (db_messages d))) m \<in> set (db_messages (delete_message_rows P d))"
    using assms(2) unfolding in_delete_message_rows by blast
  then show ?thesis
    unfolding body_allowed_def
    by (rule bexI [rotated]) (use m in simp)
qed

lemma scrub_batch_delete_private:
  assumes "private_inv d"
  shows "private_inv (delete_message_rows P (scrub_batch_webhooks
    (map (\<lambda>m. (msg_id m, msg_room_id m)) (filter P (db_messages d))) d))"
    (is "private_inv (delete_message_rows P ?d)")
proof (rule private_inv_step [OF assms])
  fix w assume w: "w \<in> set (db_webhooks (delete_message_rows P ?d))"
    "like_message (wd_event_type w)" "wr_payload w \<noteq> None"
  then have "w \<in> set (scrub (\<lambda>w. like_message (wd_event_type w) \<and> (wr_resource_id w, wd_room_id w) \<in>
      set (map (\<lambda>m. (msg_id m, msg_room_id m)) (filter P (db_messages d)))) (db_webhooks d))"
    by (simp add: scrub_batch_webhooks_def)
  from scrub_body_kept [OF this w(3)] w(2)
  have kept: "w \<in> set (db_webhooks d)"
    "\<And>m. m \<in> set (db_messages d) \<Longrightarrow> msg_id m = wr_resource_id w \<Longrightarrow> msg_room_id m = wd_room_id w \<Longrightarrow>
      \<not> P m"
    by (auto simp: image_iff dest: sym)
  have same: "db_messages ?d = db_messages d" "body_allowed ?d = body_allowed d"
    by (simp_all add: scrub_batch_webhooks_def)
  show "w \<in> set (db_webhooks d) \<and>
      (body_allowed d (wd_event_type w) (wd_room_id w) (wr_resource_id w) \<longrightarrow>
       body_allowed (delete_message_rows P ?d) (wd_event_type w) (wd_room_id w) (wr_resource_id w))"
    using kept by (auto intro!: body_allowed_delete simp: same)
qed

subsection \<open>Inserting a message\<close>

lemma insert_message_row_Inr:
  "insert_message_row m d = Inr d' \<longleftrightarrow>
     msg_id m \<notin> msg_id ` set (db_messages d) \<and>
     (msg_client_message_id m \<noteq> None \<longrightarrow> (\<forall>x\<in>set (db_messages d).
        msg_room_id x = msg_room_id m \<longrightarrow> msg_client_message_id x \<noteq> msg_client_message_id m)) \<and>
     has_room d (msg_room_id m) \<and>
     (\<forall>p. msg_parent_message_id m = Some p \<longrightarrow> p = msg_id m \<or> p \<in> msg_id ` set (db_messages d)) \<and>
     message_checks m \<and> d' = d\<lparr>db_messages := db_messages d @ [m]\<rparr>"
proof -
  have "get_room_row d (msg_room_id m) = None \<longleftrightarrow> \<not> has_room d (msg_room_id m)"
    by (auto simp: get_room_row_def has_room_def find_eq_None image_iff)
  moreover have "get_message_by_id d p = None \<longleftrightarrow> p \<notin> msg_id ` set (db_messages d)" for p
    by (auto simp: get_message_by_id_def find_eq_None image_iff)
  ultimately show ?thesis
    by (auto simp: insert_message_row_def list_ex_key list_ex_iff split: option.splits)
qed

lemma reaction_summaries_fresh:
  assumes "reactions_inv d" and "mid \<notin> msg_id ` set (db_messages d)"
  shows "reaction_summaries (db_reactions d) mid = []"
proof -
  have "filter (\<lambda>x. rx_message_id x = mid) (db_reactions d) = []"
    using assms by (auto simp: reactions_inv_def filter_empty_conv image_iff) metis
  then show ?thesis using reaction_summaries_cong [of mid "db_reactions d" "[]"] by simp
qed

lemma insert_message_row_tables:
  assumes ins: "insert_message_row m d = Inr d'" and inv: "tables_inv d"
    and ok: "row_ok m" and new: "msg_reactions m = []"
    and parent: "\<And>p. msg_parent_message_id m = Some p \<Longrightarrow> \<exists>q\<in>set (db_messages d). msg_id q = p \<and>
      msg_room_id q = msg_room_id m \<and> msg_parent_message_id q = None"
  shows "tables_inv d'"
proof -
  note I = ins [unfolded insert_message_row_Inr]
  have "keys_inv d'" using I inv by (auto simp: tables_inv_def keys_inv_def)
  moreover have "refs_inv d'" using I inv by (auto simp: tables_inv_def refs_inv_def has_room_def)
  moreover have "threads_inv d'"
    using I inv parent by (fastforce simp: tables_inv_def threads_inv_def)
  moreover have "reactions_inv d'"
  proof -
    have r: "reactions_inv d" using inv by (simp add: tables_inv_def)
    have "reaction_summaries (db_reactions d) (msg_id m) = []"
      by (rule reaction_summaries_fresh [OF r]) (use I in simp)
    then show ?thesis using I r new by (fastforce simp: reactions_inv_def)
  qed
  moreover have "rows_inv d'" using I inv ok by (auto simp: tables_inv_def rows_inv_def)
  ultimately show ?thesis by (simp add: tables_inv_def)
qed

subsection \<open>Updating one message\<close>

lemma keeps_identityD:
  "keeps_identity f \<Longrightarrow> msg_id (f m) = msg_id m \<and> msg_room_id (f m) = msg_room_id m \<and>
     msg_client_message_id (f m) = msg_client_message_id m \<and>
     msg_parent_message_id (f m) = msg_parent_message_id m"
  by (simp add: keeps_identity_def)

lemma change_message_frame [simp]:
  "db_rooms (change_message mid f rs d) = db_rooms d"
  "db_controls (change_message mid f rs d) = db_controls d"
  "db_reads (change_message mid f rs d) = db_reads d"
  "db_webhooks (change_message mid f rs d) = db_webhooks d"
  "db_audits (change_message mid f rs d) = db_audits d"
  "db_reactions (change_message mid f rs d) = rs"
  by (simp_all add: change_message_def)

lemma in_change_message:
  "m \<in> set (db_messages (change_message mid f rs d)) \<longleftrightarrow>
     (\<exists>n\<in>set (db_messages d). m = (if msg_id n = mid then f n else n))"
proof -
  have "db_messages (change_message mid f rs d) =
      map (\<lambda>n. if msg_id n = mid then f n else n) (db_messages d)"
    by (simp add: change_message_def update_where_def)
  then show ?thesis by (simp only: set_map image_iff)
qed

lemma change_message_keys:
  assumes "keys_inv d" and leg: "legal_change mid f rs d"
  shows "keys_inv (change_message mid f rs d)"
proof -
  have f: "keeps_identity f" "distinct (map reaction_ident rs)"
    "\<forall>x\<in>set rs. REACTION_KEY_PATTERN (rx_key x)"
    using leg by (simp_all add: legal_change_def)
  have ids: "map msg_id (db_messages (change_message mid f rs d)) = map msg_id (db_messages d)"
    using keeps_identityD [OF f(1)] by (simp add: change_message_def map_update_where)
  have "m = n" if m: "m \<in> set (db_messages (change_message mid f rs d))"
      "n \<in> set (db_messages (change_message mid f rs d))"
      and eq: "msg_room_id m = msg_room_id n" "msg_client_message_id m = msg_client_message_id n"
      "msg_client_message_id m \<noteq> None" for m n
  proof -
    from m obtain m' n' where o: "m' \<in> set (db_messages d)" "n' \<in> set (db_messages d)"
      "m = (if msg_id m' = mid then f m' else m')" "n = (if msg_id n' = mid then f n' else n')"
      unfolding in_change_message by blast
    then have "msg_room_id m' = msg_room_id n'" "msg_client_message_id m' = msg_client_message_id n'"
      "msg_client_message_id m' \<noteq> None"
      using eq keeps_identityD [OF f(1)] by (simp_all split: if_splits)
    then have "m' = n'" using assms(1) o(1,2) unfolding keys_inv_def by blast
    then show ?thesis using o(3,4) by simp
  qed
  then show ?thesis using assms(1) f(2,3) ids by (auto simp: keys_inv_def)
qed

lemma change_message_threads:
  assumes "threads_inv d" and leg: "legal_change mid f rs d"
  shows "threads_inv (change_message mid f rs d)"
  unfolding threads_inv_def
proof (intro ballI allI impI)
  fix m p assume m: "m \<in> set (db_messages (change_message mid f rs d))"
    and p: "msg_parent_message_id m = Some p"
  have f: "keeps_identity f" using leg by (simp add: legal_change_def)
  from m obtain n where n: "n \<in> set (db_messages d)" "m = (if msg_id n = mid then f n else n)"
    unfolding in_change_message by blast
  then have n': "msg_parent_message_id n = Some p" "msg_room_id n = msg_room_id m"
    using p keeps_identityD [OF f] by (simp_all split: if_splits)
  then obtain q where q: "q \<in> set (db_messages d)" "msg_id q = p" "msg_room_id q = msg_room_id n"
    "msg_parent_message_id q = None"
    using assms(1) n(1) unfolding threads_inv_def by blast
  let ?q = "if msg_id q = mid then f q else q"
  have "?q \<in> set (db_messages (change_message mid f rs d))" unfolding in_change_message using q(1) by blast
  moreover have "msg_id ?q = p \<and> msg_room_id ?q = msg_room_id m \<and> msg_parent_message_id ?q = None"
    using q n' keeps_identityD [OF f] by simp
  ultimately show "\<exists>q\<in>set (db_messages (change_message mid f rs d)). msg_id q = p \<and>
      msg_room_id q = msg_room_id m \<and> msg_parent_message_id q = None"
    by blast
qed

lemma change_message_reactions:
  assumes inv: "reactions_inv d" and leg: "legal_change mid f rs d"
  shows "reactions_inv (change_message mid f rs d)"
  unfolding reactions_inv_def
proof (intro conjI ballI)
  have f: "keeps_identity f" using leg by (simp add: legal_change_def)
  fix x assume "x \<in> set (db_reactions (change_message mid f rs d))"
  then have x: "x \<in> set rs" by simp
  obtain m where m: "m \<in> set (db_messages d)" "msg_id m = rx_message_id x" "msg_room_id m = rx_room_id x"
    "msg_deleted_at (if msg_id m = mid then f m else m) = None"
  proof (cases "rx_message_id x = mid")
    case True
    then show thesis using leg x that unfolding legal_change_def by fastforce
  next
    case False
    have "x \<in> set (filter (\<lambda>y. rx_message_id y = rx_message_id x) rs)" using x by simp
    then have "x \<in> set (db_reactions d)" using False leg unfolding legal_change_def by auto
    then show thesis using False inv that unfolding reactions_inv_def by fastforce
  qed
  let ?m = "if msg_id m = mid then f m else m"
  have "?m \<in> set (db_messages (change_message mid f rs d))" unfolding in_change_message using m(1) by blast
  then show "\<exists>m\<in>set (db_messages (change_message mid f rs d)). msg_id m = rx_message_id x \<and>
      msg_room_id m = rx_room_id x \<and> msg_deleted_at m = None"
    by (rule bexI [rotated]) (use m keeps_identityD [OF f] in \<open>simp split: if_splits\<close>)
next
  have f: "keeps_identity f" using leg by (simp add: legal_change_def)
  fix m assume "m \<in> set (db_messages (change_message mid f rs d))"
  then obtain n where n: "n \<in> set (db_messages d)" "m = (if msg_id n = mid then f n else n)"
    unfolding in_change_message by blast
  have "msg_reactions m = reaction_summaries rs (msg_id m) \<and> length (msg_reactions m) \<le> 20"
  proof (cases "msg_id n = mid")
    case True
    then show ?thesis using leg n keeps_identityD [OF f, of n] unfolding legal_change_def by auto
  next
    case False
    have "filter (\<lambda>x. rx_message_id x = msg_id n) rs = filter (\<lambda>x. rx_message_id x = msg_id n) (db_reactions d)"
      using False leg unfolding legal_change_def by blast
    then show ?thesis using False n inv unfolding reactions_inv_def by (auto dest: reaction_summaries_cong)
  qed
  then show "msg_reactions m = reaction_summaries (db_reactions (change_message mid f rs d)) (msg_id m)"
    "length (msg_reactions m) \<le> 20" by auto
qed

lemma change_message_tables:
  assumes "tables_inv d" and leg: "legal_change mid f rs d"
  shows "tables_inv (change_message mid f rs d)"
proof -
  have f: "keeps_identity f" using leg by (simp add: legal_change_def)
  have "refs_inv (change_message mid f rs d)"
    using assms(1) keeps_identityD [OF f]
    by (auto simp: tables_inv_def refs_inv_def has_room_def in_change_message)
  moreover have "rows_inv (change_message mid f rs d)"
    using assms by (auto simp: tables_inv_def rows_inv_def legal_change_def in_change_message)
  ultimately show ?thesis
    using assms change_message_keys change_message_threads change_message_reactions
    by (simp add: tables_inv_def)
qed

lemma change_message_caps:
  assumes "keeps_identity f"
  shows "caps_inv cfg (change_message mid f rs d) = caps_inv cfg d"
proof -
  have "length (room_messages (change_message mid f rs d) rid) = length (room_messages d rid)" for rid
    using keeps_identityD [OF assms]
    by (simp add: room_messages_def change_message_def filter_update_where)
  then show ?thesis by (simp add: caps_inv_def) (simp add: change_message_def)
qed

lemma body_allowed_change:
  assumes "body_allowed d ev rid res" and "keeps_identity f"
    and "\<And>m. res = mid \<Longrightarrow> msg_deleted_at (f m) \<noteq> None \<Longrightarrow> msg_deleted_at m = None \<Longrightarrow>
      ev = ''message.deleted''"
  shows "body_allowed (change_message mid f rs d) ev rid res"
proof -
  obtain m where m: "m \<in> set (db_messages d)" "msg_id m = res" "msg_room_id m = rid"
    "msg_deleted_at m \<noteq> None \<longrightarrow> ev = ''message.deleted''"
    using assms(1) unfolding body_allowed_def by blast
  let ?m = "if msg_id m = mid then f m else m"
  have "?m \<in> set (db_messages (change_message mid f rs d))" unfolding in_change_message using m(1) by blast
  then show ?thesis unfolding body_allowed_def
    by (rule bexI [rotated]) (use m keeps_identityD [OF assms(2)] assms(3) in \<open>auto split: if_splits\<close>)
qed

subsection \<open>Rooms, member controls and read states\<close>

lemma message_inv_frame [simp]:
  "threads_inv (d\<lparr>db_rooms := rs\<rparr>) = threads_inv d" "threads_inv (d\<lparr>db_controls := cs\<rparr>) = threads_inv d"
  "threads_inv (d\<lparr>db_reads := ss\<rparr>) = threads_inv d"
  "reactions_inv (d\<lparr>db_rooms := rs\<rparr>) = reactions_inv d"
  "reactions_inv (d\<lparr>db_controls := cs\<rparr>) = reactions_inv d"
  "reactions_inv (d\<lparr>db_reads := ss\<rparr>) = reactions_inv d"
  "rows_inv (d\<lparr>db_rooms := rs\<rparr>) = rows_inv d" "rows_inv (d\<lparr>db_controls := cs\<rparr>) = rows_inv d"
  "rows_inv (d\<lparr>db_reads := ss\<rparr>) = rows_inv d"
  by (simp_all add: threads_inv_def reactions_inv_def rows_inv_def)

lemma tables_inv_rooms:
  assumes "tables_inv d" and "distinct (map ro_id rs)" and "\<And>r. r \<in> set rs \<Longrightarrow> py_strip (ro_id r) = ro_id r"
    and "ro_id ` set (db_rooms d) \<subseteq> ro_id ` set rs"
  shows "tables_inv (d\<lparr>db_rooms := rs\<rparr>)"
proof -
  have "keys_inv (d\<lparr>db_rooms := rs\<rparr>)" using assms by (simp add: tables_inv_def keys_inv_def)
  moreover have "refs_inv (d\<lparr>db_rooms := rs\<rparr>)"
    using assms(1,4) unfolding tables_inv_def refs_inv_def has_room_def by (simp add: subset_iff)
  ultimately show ?thesis
    using assms(1) by (simp add: tables_inv_def)
qed

lemma tables_inv_controls:
  assumes "tables_inv d" and "distinct (map (\<lambda>c. (mod_room_id c, mod_subject c)) cs)"
    and "\<And>c. c \<in> set cs \<Longrightarrow> has_room d (mod_room_id c)"
  shows "tables_inv (d\<lparr>db_controls := cs\<rparr>)"
  using assms by (simp add: tables_inv_def keys_inv_def refs_inv_def has_room_def)

lemma tables_inv_reads:
  assumes "tables_inv d" and "distinct (map (\<lambda>c. (rd_room_id c, rd_subject c)) cs)"
    and "\<And>c. c \<in> set cs \<Longrightarrow> has_room d (rd_room_id c)"
  shows "tables_inv (d\<lparr>db_reads := cs\<rparr>)"
  using assms by (simp add: tables_inv_def keys_inv_def refs_inv_def has_room_def)

lemma other_inv_rooms [simp]:
  "private_inv (d\<lparr>db_rooms := x\<rparr>) = private_inv d"
  "audits_ok cfg (d\<lparr>db_rooms := x\<rparr>) = audits_ok cfg d"
  "webhooks_ok cfg (d\<lparr>db_rooms := x\<rparr>) = webhooks_ok cfg d"
  by (simp_all add: inv_defs audits_ok_def webhooks_ok_def)

lemma other_inv_controls [simp]:
  "private_inv (d\<lparr>db_controls := x\<rparr>) = private_inv d"
  "audits_ok cfg (d\<lparr>db_controls := x\<rparr>) = audits_ok cfg d"
  "webhooks_ok cfg (d\<lparr>db_controls := x\<rparr>) = webhooks_ok cfg d"
  "caps_inv cfg (d\<lparr>db_controls := x\<rparr>) = caps_inv cfg d"
  by (simp_all add: inv_defs audits_ok_def webhooks_ok_def)

lemma other_inv_reads [simp]:
  "private_inv (d\<lparr>db_reads := x\<rparr>) = private_inv d"
  "audits_ok cfg (d\<lparr>db_reads := x\<rparr>) = audits_ok cfg d"
  "webhooks_ok cfg (d\<lparr>db_reads := x\<rparr>) = webhooks_ok cfg d"
  by (simp_all add: inv_defs audits_ok_def webhooks_ok_def)

lemma ok_messages [simp]:
  "audits_ok cfg (change_message mid f rs d) = audits_ok cfg d"
  "webhooks_ok cfg (change_message mid f rs d) = webhooks_ok cfg d"
  "audits_ok cfg (delete_message_rows P d) = audits_ok cfg d"
  "webhooks_ok cfg (delete_message_rows P d) = webhooks_ok cfg d"
  by (simp_all add: audits_ok_def webhooks_ok_def)

subsection \<open>Deleting a room\<close>

lemma in_delete_room:
  "m \<in> set (db_messages (delete_room_row rid d)) \<longleftrightarrow>
     m \<in> set (db_messages (delete_message_rows (\<lambda>m. msg_room_id m = rid) d))"
  by (simp add: delete_room_row_def Let_def)

lemma reactions_inv_message:
  "reactions_inv d \<Longrightarrow> x \<in> set (db_reactions d) \<Longrightarrow> \<exists>m\<in>set (db_messages d).
     msg_id m = rx_message_id x \<and> msg_room_id m = rx_room_id x \<and> msg_deleted_at m = None"
  by (simp add: reactions_inv_def)

lemma delete_room_reactions:
  assumes "keys_inv d" and "reactions_inv d"
  shows "db_reactions (delete_room_row rid d) =
    db_reactions (delete_message_rows (\<lambda>m. msg_room_id m = rid) d)"
proof -
  let ?d = "delete_message_rows (\<lambda>m. msg_room_id m = rid) d"
  have "rx_room_id x \<noteq> rid" if x: "x \<in> set (db_reactions ?d)" for x
  proof -
    obtain m where "m \<in> set (db_messages ?d)" "msg_room_id m = rx_room_id x"
      using reactions_inv_message [OF delete_message_rows_reactions [OF assms] x] by blast
    then show ?thesis unfolding in_delete_message_rows by (metis orphan_simps(2))
  qed
  then have "filter (\<lambda>x. rx_room_id x \<noteq> rid) (db_reactions ?d) = db_reactions ?d"
    by (intro filter_True) blast
  then show ?thesis by (simp only: delete_room_row_def Let_def) simp
qed

lemma delete_room_row_tables:
  assumes inv: "tables_inv d"
  shows "tables_inv (delete_room_row rid d)"
proof -
  let ?d = "delete_message_rows (\<lambda>m. msg_room_id m = rid) d"
  have t: "tables_inv ?d" using inv by (rule delete_message_rows_tables)
  have rx: "db_reactions (delete_room_row rid d) = db_reactions ?d"
    using inv by (simp add: delete_room_reactions tables_inv_def)
  have eq: "delete_room_row rid d =
      ?d\<lparr>db_rooms := filter (\<lambda>r. ro_id r \<noteq> rid) (db_rooms d),
         db_controls := filter (\<lambda>c. mod_room_id c \<noteq> rid) (db_controls d),
         db_reads := filter (\<lambda>s. rd_room_id s \<noteq> rid) (db_reads d)\<rparr>"
    using rx by (simp add: delete_room_row_def Let_def)
  have "msg_room_id m \<noteq> rid" if "m \<in> set (db_messages ?d)" for m
    using that by (auto simp: in_delete_message_rows)
  moreover have "has_room (delete_room_row rid d) r \<longleftrightarrow> has_room d r \<and> r \<noteq> rid" for r
    unfolding eq has_room_def by auto
  ultimately have "refs_inv (delete_room_row rid d)"
    using t by (simp add: tables_inv_def refs_inv_def has_room_def) (simp add: eq)
  moreover have "keys_inv (delete_room_row rid d)"
    using t unfolding eq by (simp add: tables_inv_def keys_inv_def distinct_map_filter_key)
  ultimately show ?thesis using t unfolding eq by (simp add: tables_inv_def)
qed

lemma delete_room_row_caps: "caps_inv cfg d \<Longrightarrow> caps_inv cfg (delete_room_row rid d)"
proof -
  let ?d = "delete_message_rows (\<lambda>m. msg_room_id m = rid) d"
  assume "caps_inv cfg d"
  then have c: "caps_inv cfg ?d" by (rule delete_message_rows_caps)
  have "length (filter (\<lambda>s. rd_room_id s = r) (filter (\<lambda>s. rd_room_id s \<noteq> rid) (db_reads d))) \<le>
      length (filter (\<lambda>s. rd_room_id s = r) (db_reads d))" for r
    by (rule length_filter_less)
  moreover have "length (filter (\<lambda>r. ro_id r \<noteq> rid) (db_rooms d)) \<le> length (db_rooms d)"
    by simp
  ultimately show ?thesis using c
    by (auto simp: delete_room_row_def Let_def caps_inv_def room_messages_def
        simp del: filter_filter length_filter_le intro: order_trans)
qed

lemma delete_room_row_frame [simp]:
  "db_webhooks (delete_room_row rid d) = db_webhooks d"
  "db_audits (delete_room_row rid d) = db_audits d"
  by (simp_all add: delete_room_row_def Let_def)

end
