(* ===== verification/Store_Rooms.thy ===== *)
theory Store_Rooms
  imports Store_Tables
begin

section \<open>Rooms, member moderation and the write gate (store.py)\<close>

text \<open>
  Room lifecycle (create, archive, freeze, delete), the moderation record of a member, and the gate
  in front of every message write: the room exists, is not archived, is not frozen unless the caller
  may write to frozen rooms, and the member is neither banned nor muted.
\<close>

subsection \<open>Rooms\<close>

definition create_room_sync ::
  "store_config \<Rightarrow> env \<Rightarrow> pystr \<Rightarrow> room_create \<Rightarrow> pystr \<Rightarrow> db \<Rightarrow> store_error + room \<times> db" where
  "create_room_sync cfg e room_id payload actor d =
     (if max_rooms cfg \<le> length (db_rooms d) then Inl RoomCapacityError
      else if list_ex (\<lambda>r. ro_id r = room_id) (db_rooms d) then Inl (RoomAlreadyExistsError room_id)
      else (let row = \<lparr>ro_id = room_id, ro_name = rc_name payload,
              ro_description = rc_description payload, ro_created_at = now_op e,
              ro_archived_at = None, ro_frozen_at = None\<rparr> in
        res_bind (insert_audit cfg (uuid_audit e) (now_audit e) ''room.created'' actor (Some room_id) []
            (d\<lparr>db_rooms := db_rooms d @ [row]\<rparr>))
          (\<lambda>d'. Inr (room_from_row row, d'))))"

text \<open>\<open>room_id = payload.id or uuid.uuid4().hex\<close>.\<close>

definition create_room ::
  "store_config \<Rightarrow> env \<Rightarrow> room_create \<Rightarrow> pystr \<Rightarrow> db \<Rightarrow> store_error + room \<times> db" where
  "create_room cfg e payload actor d =
     create_room_sync cfg e
       (case rc_id payload of Some i \<Rightarrow> if i \<noteq> [] then i else uuid_op e | None \<Rightarrow> uuid_op e)
       payload actor d"

definition get_room :: "db \<Rightarrow> pystr \<Rightarrow> room option" where
  "get_room d room_id = map_option room_from_row (get_room_row d room_id)"

definition list_rooms :: "nat \<Rightarrow> db \<Rightarrow> room list" where
  "list_rooms limit d =
     map room_from_row (take limit (order_by (\<lambda>r. (ro_created_at r, ro_id r)) (db_rooms d)))"

definition update_room :: "pystr \<Rightarrow> (room \<Rightarrow> room) \<Rightarrow> db \<Rightarrow> db" where
  "update_room room_id f d = d\<lparr>db_rooms := update_where (\<lambda>r. ro_id r = room_id) f (db_rooms d)\<rparr>"

text \<open>
  Each of the two flags is changed only when it is given and differs from the row read at the start,
  and each change writes one audit row. The result names the changes, archived first.
\<close>

definition set_archived ::
  "store_config \<Rightarrow> env \<Rightarrow> room \<Rightarrow> bool option \<Rightarrow> pystr \<Rightarrow> db \<Rightarrow> store_error + string list \<times> db" where
  "set_archived cfg e row archived actor d = (case archived of
     None \<Rightarrow> Inr ([], d)
   | Some a \<Rightarrow>
       (if (ro_archived_at row \<noteq> None) \<noteq> a
        then res_bind (insert_audit cfg (uuid_audit e) (now_audit e)
            (if a then ''room.archived'' else ''room.unarchived'') actor (Some (ro_id row)) []
            (update_room (ro_id row) (\<lambda>r. r\<lparr>ro_archived_at := if a then Some (now_op e) else None\<rparr>) d))
          (\<lambda>d'. Inr ([''archived''], d'))
        else Inr ([], d)))"

definition set_frozen ::
  "store_config \<Rightarrow> env \<Rightarrow> room \<Rightarrow> bool option \<Rightarrow> pystr \<Rightarrow> db \<Rightarrow> store_error + string list \<times> db" where
  "set_frozen cfg e row frozen actor d = (case frozen of
     None \<Rightarrow> Inr ([], d)
   | Some a \<Rightarrow>
       (if (ro_frozen_at row \<noteq> None) \<noteq> a
        then res_bind (insert_audit cfg (uuid_audit2 e) (now_audit2 e)
            (if a then ''room.frozen'' else ''room.unfrozen'') actor (Some (ro_id row)) []
            (update_room (ro_id row) (\<lambda>r. r\<lparr>ro_frozen_at := if a then Some (now_op2 e) else None\<rparr>) d))
          (\<lambda>d'. Inr ([''frozen''], d'))
        else Inr ([], d)))"

definition set_room_state_sync ::
  "store_config \<Rightarrow> env \<Rightarrow> pystr \<Rightarrow> bool option \<Rightarrow> bool option \<Rightarrow> pystr \<Rightarrow> db \<Rightarrow>
   store_error + (room \<times> string list) \<times> db" where
  "set_room_state_sync cfg e room_id archived frozen actor d =
     (case get_room_row d room_id of
        None \<Rightarrow> Inl (RoomNotFoundError room_id)
      | Some row \<Rightarrow>
          res_bind (set_archived cfg e row archived actor d) (\<lambda>(c1, d1).
          res_bind (set_frozen cfg e row frozen actor d1) (\<lambda>(c2, d2).
          let changes = c1 @ c2;
              final = (if changes = [] then row
                else (case get_room_row d2 room_id of Some r \<Rightarrow> r | None \<Rightarrow> row))
          in Inr ((room_from_row final, changes), d2))))"

definition delete_room_sync ::
  "store_config \<Rightarrow> env \<Rightarrow> pystr \<Rightarrow> pystr \<Rightarrow> db \<Rightarrow> store_error + nat \<times> db" where
  "delete_room_sync cfg e room_id actor d =
     (case get_room_row d room_id of
        None \<Rightarrow> Inl (RoomNotFoundError room_id)
      | Some row \<Rightarrow>
          (if ro_archived_at row = None then Inl (RoomNotArchivedError room_id)
           else (let message_count = length (room_messages d room_id) in
             res_bind (insert_audit cfg (uuid_audit e) (now_audit e) ''room.deleted'' actor
                 (Some room_id) [(str ''deleted_messages'', ACount message_count)] d)
               (\<lambda>d1. Inr (message_count, delete_room_row room_id (scrub_room_webhooks room_id d1))))))"

definition record_export_requested_sync ::
  "store_config \<Rightarrow> env \<Rightarrow> pystr \<Rightarrow> pystr \<Rightarrow> db \<Rightarrow> store_error + unit \<times> db" where
  "record_export_requested_sync cfg e room_id actor d =
     (case get_room_row d room_id of
        None \<Rightarrow> Inl (RoomNotFoundError room_id)
      | Some _ \<Rightarrow> res_bind (insert_audit cfg (uuid_audit e) (now_audit e) ''room.export_requested'' actor
          (Some room_id) [] d) (\<lambda>d'. Inr ((), d')))"

subsection \<open>Member moderation\<close>

text \<open>The public \<open>MemberModeration\<close> model strips its two strings.\<close>

definition moderation_from_row :: "member_moderation \<Rightarrow> member_moderation" where
  "moderation_from_row row =
     row\<lparr>mod_room_id := py_strip (mod_room_id row), mod_subject := py_strip (mod_subject row)\<rparr>"

definition get_member_moderation :: "db \<Rightarrow> pystr \<Rightarrow> pystr \<Rightarrow> member_moderation option" where
  "get_member_moderation d room_id subject =
     map_option moderation_from_row (get_control_row d room_id subject)"

text \<open>A duration of zero clears the restriction, an absent one keeps it.\<close>

definition new_until :: "timestamp \<Rightarrow> int option \<Rightarrow> timestamp option \<Rightarrow> timestamp option" where
  "new_until now seconds old = (case seconds of
     None \<Rightarrow> old
   | Some s \<Rightarrow> if s \<noteq> 0 then Some (now + seconds_delta s) else None)"

definition set_member_moderation_sync ::
  "store_config \<Rightarrow> env \<Rightarrow> pystr \<Rightarrow> pystr \<Rightarrow> moderation_update \<Rightarrow> pystr \<Rightarrow> db \<Rightarrow>
   store_error + member_moderation \<times> db" where
  "set_member_moderation_sync cfg e room_id subject payload actor d =
     (if get_room_row d room_id = None then Inl (RoomNotFoundError room_id)
      else
       (let now = now_op e;
            existing = get_control_row d room_id subject;
            muted_until = new_until now (muted_for_seconds payload)
              (case existing of None \<Rightarrow> None | Some c \<Rightarrow> mod_muted_until c);
            banned_until = new_until now (banned_for_seconds payload)
              (case existing of None \<Rightarrow> None | Some c \<Rightarrow> mod_banned_until c);
            control = \<lparr>mod_room_id = room_id, mod_subject = subject, mod_muted_until = muted_until,
              mod_banned_until = banned_until, mod_updated_at = now\<rparr>;
            d1 = (if muted_until = None \<and> banned_until = None
              then d\<lparr>db_controls := filter (\<lambda>c. \<not> (mod_room_id c = room_id \<and> mod_subject c = subject))
                (db_controls d)\<rparr>
              else d\<lparr>db_controls := upsert (\<lambda>c. (mod_room_id c, mod_subject c)) control (db_controls d)\<rparr>)
        in res_bind (insert_audit cfg (uuid_audit e) (now_audit e) ''member.moderation_updated'' actor
             (Some room_id) [(str ''subject'', AText subject), (str ''muted_until'', ATime muted_until),
               (str ''banned_until'', ATime banned_until)] d1) (\<lambda>d2.
           res_bind (insert_webhook cfg (uuid_webhook e) ''member.moderation.updated'' room_id subject now
             (ModerationData actor control) d2) (\<lambda>d3.
           Inr (moderation_from_row control, d3)))))"

subsection \<open>The write gate\<close>

definition enforce_member_write_sync ::
  "timestamp \<Rightarrow> pystr \<Rightarrow> pystr option \<Rightarrow> db \<Rightarrow> store_error + unit" where
  "enforce_member_write_sync now room_id subject d = (case subject of
     None \<Rightarrow> Inr ()
   | Some s \<Rightarrow> (case get_control_row d room_id s of
       None \<Rightarrow> Inr ()
     | Some row \<Rightarrow>
         (if (case mod_banned_until row of None \<Rightarrow> False | Some t \<Rightarrow> now < t) then Inl (MemberBannedError s)
          else if (case mod_muted_until row of None \<Rightarrow> False | Some t \<Rightarrow> now < t)
          then Inl (MemberMutedError s)
          else Inr ())))"

text \<open>
  The opening of \<open>_create_message_sync\<close>, \<open>_update_message_sync\<close>, \<open>_delete_message_sync\<close>,
  \<open>_set_message_reaction_sync\<close> and \<open>_set_message_pin_sync\<close>; they differ in whether an archived and
  a frozen room block the caller.
\<close>

definition room_write_gate ::
  "env \<Rightarrow> pystr \<Rightarrow> bool \<Rightarrow> bool \<Rightarrow> pystr option \<Rightarrow> db \<Rightarrow> store_error + unit" where
  "room_write_gate e room_id allow_archived allow_frozen member_subject d =
     (case get_room_row d room_id of
        None \<Rightarrow> Inl (RoomNotFoundError room_id)
      | Some room \<Rightarrow>
          (if ro_archived_at room \<noteq> None \<and> \<not> allow_archived then Inl (RoomArchivedError room_id)
           else if ro_frozen_at room \<noteq> None \<and> \<not> allow_frozen then Inl (RoomFrozenError room_id)
           else enforce_member_write_sync (now_enforce e) room_id member_subject d))"

subsection \<open>Lookups\<close>

lemma get_room_row_SomeD: "get_room_row d rid = Some r \<Longrightarrow> r \<in> set (db_rooms d) \<and> ro_id r = rid"
  by (auto simp: get_room_row_def dest: find_SomeD)

lemma get_room_row_None: "get_room_row d rid = None \<longleftrightarrow> \<not> has_room d rid"
  by (auto simp: get_room_row_def has_room_def find_eq_None image_iff)

lemma get_room_row_update:
  "(\<And>r. ro_id (f r) = ro_id r) \<Longrightarrow>
     get_room_row (update_room rid f d) k =
       map_option (\<lambda>r. if ro_id r = rid then f r else r) (get_room_row d k)"
  unfolding get_room_row_def update_room_def by (simp add: find_update_where)

lemma room_from_row_simps [simp]:
  "ro_archived_at (room_from_row r) = ro_archived_at r"
  "ro_frozen_at (room_from_row r) = ro_frozen_at r"
  "ro_created_at (room_from_row r) = ro_created_at r"
  "ro_id (room_from_row r) = py_strip (ro_id r)"
  by (simp_all add: room_from_row_def)

lemma get_room_row_audits [simp]: "get_room_row (d\<lparr>db_audits := a\<rparr>) = get_room_row d"
  by (simp add: get_room_row_def fun_eq_iff)

lemma insert_audit_rooms:
  "insert_audit cfg uid now action actor room details d = Inr d' \<Longrightarrow>
     db_rooms d' = db_rooms d \<and> db_messages d' = db_messages d \<and> db_reactions d' = db_reactions d \<and>
     db_controls d' = db_controls d \<and> db_reads d' = db_reads d \<and> db_webhooks d' = db_webhooks d"
  by (simp add: insert_audit_Inr)

lemma insert_webhook_tables:
  "insert_webhook cfg uid ev rid res t x d = Inr d' \<Longrightarrow>
     db_rooms d' = db_rooms d \<and> db_messages d' = db_messages d \<and> db_reactions d' = db_reactions d \<and>
     db_controls d' = db_controls d \<and> db_reads d' = db_reads d \<and> db_audits d' = db_audits d"
  by (erule insert_webhook_cases) simp_all

subsection \<open>Preservation\<close>

lemma store_inv_rooms_update:
  assumes "store_inv cfg d" and "\<And>r. ro_id (f r) = ro_id r"
  shows "store_inv cfg (update_room rid f d)"
proof -
  have ids: "map ro_id (update_where (\<lambda>r. ro_id r = rid) f (db_rooms d)) = map ro_id (db_rooms d)"
    using assms(2) by (simp add: map_update_where)
  then have ids_set: "ro_id ` set (update_where (\<lambda>r. ro_id r = rid) f (db_rooms d)) =
      ro_id ` set (db_rooms d)"
    by (metis set_map)
  have "tables_inv (update_room rid f d)"
    unfolding update_room_def
  proof (rule tables_inv_rooms)
    show "tables_inv d" using assms(1) by (simp add: store_inv_def)
    then show "distinct (map ro_id (update_where (\<lambda>r. ro_id r = rid) f (db_rooms d)))"
      by (simp add: ids tables_inv_def keys_inv_def)
    fix r assume "r \<in> set (update_where (\<lambda>r. ro_id r = rid) f (db_rooms d))"
    then show "py_strip (ro_id r) = ro_id r"
      using \<open>tables_inv d\<close> assms(2) by (auto simp: tables_inv_def keys_inv_def elim: in_update_whereE)
  qed (simp add: ids_set)
  moreover have "caps_inv cfg (update_room rid f d)"
    using assms(1) by (simp add: store_inv_def caps_inv_def update_room_def room_messages_def)
  ultimately show ?thesis using assms(1) by (simp add: store_inv_def update_room_def)
qed

lemma create_room_sync_inv:
  assumes ins: "create_room_sync cfg e rid payload actor d = Inr (r, d')" and inv: "store_inv cfg d"
    and clean: "py_strip rid = rid"
  shows "store_inv cfg d'"
proof -
  let ?row = "\<lparr>ro_id = rid, ro_name = rc_name payload, ro_description = rc_description payload,
    ro_created_at = now_op e, ro_archived_at = None, ro_frozen_at = None\<rparr>"
  let ?d = "d\<lparr>db_rooms := db_rooms d @ [?row]\<rparr>"
  from ins have free: "length (db_rooms d) < max_rooms cfg" "rid \<notin> ro_id ` set (db_rooms d)"
    and aud: "insert_audit cfg (uuid_audit e) (now_audit e) ''room.created'' actor (Some rid) [] ?d = Inr d'"
    by (auto simp: create_room_sync_def Let_def list_ex_key split: if_splits)
  have t: "tables_inv d" using inv by (simp add: store_inv_def)
  have "tables_inv ?d"
    by (rule tables_inv_rooms) (use t free clean in \<open>auto simp: tables_inv_def keys_inv_def\<close>)
  moreover have "caps_inv cfg ?d"
    using inv free by (simp add: store_inv_def caps_inv_def room_messages_def)
  ultimately have "store_inv cfg ?d" using inv by (simp add: store_inv_def)
  then show ?thesis by (rule insert_audit_inv(5) [OF aud])
qed

lemma room_id_pattern_clean:
  assumes "ROOM_ID_PATTERN i"
  shows "py_strip i = i"
proof -
  have "list_all (\<lambda>c. \<not> py_isspace c) i"
    by (rule head_tail_all [OF assms [unfolded ROOM_ID_PATTERN_def]])
      (auto simp: char_class_defs str_def)
  then show ?thesis by (rule py_strip_no_space)
qed

lemma RoomCreate_id_clean: "RoomCreate p = Inr payload \<Longrightarrow> rc_id payload = Some i \<Longrightarrow> py_strip i = i"
  by (auto simp: RoomCreate_def opt_field_eq_Inr str_field_eq_Inr)

lemma create_room_inv:
  assumes "create_room cfg e payload actor d = Inr (r, d')" and "store_inv cfg d"
    and "RoomCreate p = Inr payload" and "py_strip (uuid_op e) = uuid_op e"
  shows "store_inv cfg d'"
  using assms(1) unfolding create_room_def
  by (rule create_room_sync_inv) (use assms RoomCreate_id_clean in \<open>auto split: option.splits\<close>)

lemma set_archived_inv:
  assumes "set_archived cfg e row a actor d = Inr (c, d')" and "store_inv cfg d"
  shows "store_inv cfg d'"
  using assms
  by (auto simp: set_archived_def split: option.splits if_splits
      elim!: insert_audit_inv(5) [OF _ store_inv_rooms_update [OF assms(2)]])

lemma set_frozen_inv:
  assumes "set_frozen cfg e row a actor d = Inr (c, d')" and "store_inv cfg d"
  shows "store_inv cfg d'"
  using assms
  by (auto simp: set_frozen_def split: option.splits if_splits
      elim!: insert_audit_inv(5) [OF _ store_inv_rooms_update [OF assms(2)]])

lemma set_room_state_sync_inv:
  assumes "set_room_state_sync cfg e rid a f actor d = Inr (r, d')" and "store_inv cfg d"
  shows "store_inv cfg d'"
  using assms unfolding set_room_state_sync_def Let_def
  by (auto split: option.splits dest: set_archived_inv set_frozen_inv)

lemma scrub_room_private:
  assumes "private_inv d"
  shows "private_inv (delete_room_row rid (scrub_room_webhooks rid d))"
proof (rule private_inv_step [OF assms])
  let ?s = "scrub_room_webhooks rid d"
  fix w assume w: "w \<in> set (db_webhooks (delete_room_row rid ?s))" "wr_payload w \<noteq> None"
  then have "w \<in> set (db_webhooks d) \<and> wd_room_id w \<noteq> rid"
    by (intro scrub_body_kept) (simp_all add: scrub_room_webhooks_def)
  moreover have "body_allowed (delete_room_row rid ?s) ev r res"
    if "body_allowed d ev r res" "r \<noteq> rid" for ev r res
  proof -
    have "body_allowed (delete_message_rows (\<lambda>m. msg_room_id m = rid) ?s) ev r res"
      by (rule body_allowed_delete) (use that in \<open>auto simp: scrub_room_webhooks_def\<close>)
    then show ?thesis unfolding body_allowed_def by (simp only: delete_room_row_def Let_def) simp
  qed
  ultimately show "w \<in> set (db_webhooks d) \<and>
      (body_allowed d (wd_event_type w) (wd_room_id w) (wr_resource_id w) \<longrightarrow>
       body_allowed (delete_room_row rid ?s) (wd_event_type w) (wd_room_id w) (wr_resource_id w))"
    by blast
qed

lemma delete_room_sync_Inr:
  assumes "delete_room_sync cfg e rid actor d = Inr (n, d')"
  obtains row d1 where "get_room_row d rid = Some row" "ro_archived_at row \<noteq> None"
    "n = length (room_messages d rid)"
    "insert_audit cfg (uuid_audit e) (now_audit e) ''room.deleted'' actor (Some rid)
       [(str ''deleted_messages'', ACount n)] d = Inr d1"
    "d' = delete_room_row rid (scrub_room_webhooks rid d1)"
  using assms by (auto simp: delete_room_sync_def Let_def split: option.splits if_splits)

lemma delete_room_sync_inv:
  assumes "delete_room_sync cfg e rid actor d = Inr (n, d')" and inv: "store_inv cfg d"
  shows "store_inv cfg d'"
  using assms(1)
proof (cases rule: delete_room_sync_Inr)
  case (1 row d1)
  have s: "store_inv cfg d1" by (rule insert_audit_inv(5) [OF 1(4) inv])
  have t: "tables_inv (scrub_room_webhooks rid d1)" "caps_inv cfg (scrub_room_webhooks rid d1)"
    "audits_ok cfg (scrub_room_webhooks rid d1)" "webhooks_ok cfg (scrub_room_webhooks rid d1)"
    using s scrub_ok [of cfg d1] by (simp_all add: store_inv_def scrub_room_webhooks_def)
  have "private_inv d'" unfolding 1(5)
    by (rule scrub_room_private) (use s in \<open>simp add: store_inv_def\<close>)
  moreover have "audits_ok cfg d'" "webhooks_ok cfg d'"
    using t(3,4) unfolding 1(5) by (simp_all add: audits_ok_def webhooks_ok_def)
  ultimately show ?thesis
    using delete_room_row_tables [OF t(1)] delete_room_row_caps [OF t(2)]
    by (simp add: store_inv_def 1(5))
qed

lemma record_export_requested_inv:
  "record_export_requested_sync cfg e rid actor d = Inr (u, d') \<Longrightarrow> store_inv cfg d \<Longrightarrow> store_inv cfg d'"
  by (auto simp: record_export_requested_sync_def intro: insert_audit_inv(5) split: option.splits)

lemma not_like_moderation [simp]: "\<not> like_message ''member.moderation.updated''"
  by (simp add: like_message_def)

lemma store_inv_controls:
  assumes "store_inv cfg d" and "distinct (map (\<lambda>c. (mod_room_id c, mod_subject c)) cs)"
    and "\<And>c. c \<in> set cs \<Longrightarrow> has_room d (mod_room_id c)"
  shows "store_inv cfg (d\<lparr>db_controls := cs\<rparr>)"
  using assms by (simp add: store_inv_def tables_inv_controls)

lemma set_member_moderation_inv:
  assumes run: "set_member_moderation_sync cfg e rid subj p actor d = Inr (r, d')"
    and inv: "store_inv cfg d"
  shows "store_inv cfg d'"
proof -
  have room: "has_room d rid"
    using run get_room_row_None by (auto simp: set_member_moderation_sync_def split: if_splits)
  have d: "distinct (map (\<lambda>c. (mod_room_id c, mod_subject c)) (db_controls d))"
    "\<And>c. c \<in> set (db_controls d) \<Longrightarrow> has_room d (mod_room_id c)"
    using inv by (auto simp: store_inv_def tables_inv_def keys_inv_def refs_inv_def)
  have "store_inv cfg (d\<lparr>db_controls := filter P (db_controls d)\<rparr>)" for P
    by (rule store_inv_controls [OF inv]) (use d in \<open>auto simp: distinct_map_filter_key\<close>)
  moreover have "store_inv cfg (d\<lparr>db_controls :=
      upsert (\<lambda>c. (mod_room_id c, mod_subject c)) row (db_controls d)\<rparr>)"
    if "mod_room_id row = rid" for row
    by (rule store_inv_controls [OF inv]) (use d room that in \<open>auto simp: distinct_upsert set_upsert\<close>)
  ultimately show ?thesis
    using run by (auto simp: set_member_moderation_sync_def Let_def split: if_splits
        dest!: insert_audit_inv(5) insert_webhook_inv(5))
qed

subsection \<open>The write gate\<close>

text \<open>What a restriction means: it is active strictly before its end.\<close>

lemma enforce_member_write_Inr:
  "enforce_member_write_sync now rid subj d = Inr u \<longleftrightarrow>
     (\<forall>s c. subj = Some s \<longrightarrow> get_control_row d rid s = Some c \<longrightarrow>
        (\<forall>t. mod_banned_until c = Some t \<or> mod_muted_until c = Some t \<longrightarrow> t \<le> now))"
  by (auto simp: enforce_member_write_sync_def split: option.splits if_splits)

lemma room_write_gate_Inr:
  "room_write_gate e rid aa af subj d = Inr u \<longleftrightarrow>
     (\<exists>r. get_room_row d rid = Some r \<and> (ro_archived_at r = None \<or> aa) \<and> (ro_frozen_at r = None \<or> af)) \<and>
     enforce_member_write_sync (now_enforce e) rid subj d = Inr u"
  by (auto simp: room_write_gate_def split: option.splits if_splits)

end
