(* ===== verification/Store_Messages.thy ===== *)
theory Store_Messages
  imports Store_Rooms
begin

section \<open>Messages: create, edit, delete, trim and retention (store.py)\<close>

text \<open>
  The three message mutations with the retention and capacity trimming that follows an insert, and
  the operator's retention run. Each function is the body of one \<open>BEGIN IMMEDIATE\<close> transaction.
\<close>

subsection \<open>Trimming\<close>

text \<open>
  The batch is the result of the caller's \<open>SELECT id, room_id FROM messages\<close>; nothing is touched when
  it is empty.
\<close>

definition delete_messages_with_webhook_scrub :: "message_row list \<Rightarrow> db \<Rightarrow> nat \<times> db" where
  "delete_messages_with_webhook_scrub selection d =
     (let batch = map (\<lambda>m. (msg_id m, msg_room_id m)) selection; deleted = length batch in
      if deleted = 0 then (0, d)
      else (deleted, delete_message_rows (\<lambda>m. msg_id m \<in> set (map fst batch))
        (scrub_batch_webhooks batch d)))"

definition expired :: "timestamp \<Rightarrow> db \<Rightarrow> message_row list" where
  "expired cutoff d = filter (\<lambda>m. msg_created_at m < cutoff) (db_messages d)"

definition room_excess :: "store_config \<Rightarrow> pystr \<Rightarrow> db \<Rightarrow> message_row list" where
  "room_excess cfg room_id d =
     take (length (room_messages d room_id) - max_stored_messages_per_room cfg)
       (order_by message_key (room_messages d room_id))"

definition global_excess :: "store_config \<Rightarrow> db \<Rightarrow> message_row list" where
  "global_excess cfg d =
     take (length (db_messages d) - max_stored_messages cfg) (order_by message_key (db_messages d))"

text \<open>The three deletions of \<open>_trim_messages\<close>, in order, with the number of rows each removed.\<close>

definition trim_batches ::
  "store_config \<Rightarrow> pystr \<Rightarrow> timestamp \<Rightarrow> db \<Rightarrow> (nat \<times> nat \<times> nat) \<times> db" where
  "trim_batches cfg room_id now d =
     (let r1 = (case message_retention_days cfg of
            None \<Rightarrow> (0, d)
          | Some days \<Rightarrow> delete_messages_with_webhook_scrub (expired (now - days_delta days) d) d);
          r2 = delete_messages_with_webhook_scrub (room_excess cfg room_id (snd r1)) (snd r1);
          r3 = delete_messages_with_webhook_scrub (global_excess cfg (snd r2)) (snd r2)
      in ((fst r1, fst r2, fst r3), snd r3))"

definition trim_messages ::
  "store_config \<Rightarrow> env \<Rightarrow> pystr \<Rightarrow> timestamp \<Rightarrow> db \<Rightarrow> store_error + db" where
  "trim_messages cfg e room_id now d =
     (case trim_batches cfg room_id now d of ((age_deleted, room_cap_deleted, global_cap_deleted), d3) \<Rightarrow>
      if age_deleted \<noteq> 0 \<or> room_cap_deleted \<noteq> 0 \<or> global_cap_deleted \<noteq> 0
      then insert_audit cfg (uuid_audit e) (now_audit e) ''retention.automatic''
        (str ''system:retention'') None
        ([(str ''age_deleted'', ACount age_deleted),
          (str ''global_cap_deleted'', ACount global_cap_deleted),
          (str ''room_cap_deleted'', ACount room_cap_deleted),
          (str ''trigger_room_id'', AText room_id)] @
         (case message_retention_days cfg of None \<Rightarrow> []
          | Some days \<Rightarrow> [(str ''cutoff'', ATime (Some (now - days_delta days)))])) d3
      else Inr d3)"

definition run_retention_sync ::
  "store_config \<Rightarrow> env \<Rightarrow> timestamp \<Rightarrow> pystr \<Rightarrow> db \<Rightarrow> store_error + nat \<times> db" where
  "run_retention_sync cfg e cutoff actor d =
     (let (deleted, d1) = delete_messages_with_webhook_scrub (expired cutoff d) d in
      res_bind (insert_audit cfg (uuid_audit e) (now_audit e) ''retention.executed'' actor None
          [(str ''deleted_messages'', ACount deleted), (str ''cutoff'', ATime (Some cutoff))] d1)
        (\<lambda>d2. Inr (deleted, d2)))"

definition run_retention ::
  "store_config \<Rightarrow> env \<Rightarrow> pystr \<Rightarrow> db \<Rightarrow> store_error + (nat \<times> timestamp) \<times> db" where
  "run_retention cfg e actor d = (case message_retention_days cfg of
     None \<Rightarrow> Inl RetentionNotConfiguredError
   | Some days \<Rightarrow> (let cutoff = now_op e - days_delta days in
       res_bind (run_retention_sync cfg e cutoff actor d) (\<lambda>(deleted, d'). Inr ((deleted, cutoff), d'))))"

subsection \<open>Creating a message\<close>

record create_args =
  ca_room_id :: pystr
  ca_sender :: pystr
  ca_content :: pystr
  ca_metadata :: metadata
  ca_attachments :: "attachment list"
  ca_mentioned_subjects :: "pystr list"
  ca_client_message_id :: "pystr option"
  ca_parent_message_id :: "pystr option"
  ca_allow_frozen :: bool
  ca_member_subject :: "pystr option"
  ca_author_subject :: "pystr option"

definition find_client_message :: "db \<Rightarrow> pystr \<Rightarrow> pystr option \<Rightarrow> message_row option" where
  "find_client_message d room_id client = (if truthy client
     then find (\<lambda>m. msg_room_id m = room_id \<and> msg_client_message_id m = client) (db_messages d)
     else None)"

definition check_parent :: "db \<Rightarrow> pystr \<Rightarrow> pystr option \<Rightarrow> store_error + unit" where
  "check_parent d room_id parent = (case parent of
     None \<Rightarrow> Inr ()
   | Some p \<Rightarrow> (case get_message_row d room_id p of
       None \<Rightarrow> Inl (MessageNotFoundError p)
     | Some row \<Rightarrow>
         (if msg_deleted_at row \<noteq> None then Inl (MessageDeletedError p)
          else if msg_parent_message_id row \<noteq> None then Inl (ThreadDepthError p)
          else Inr ())))"

definition model_error :: "string + 'a \<Rightarrow> store_error + 'a" where
  "model_error r = (case r of Inl e \<Rightarrow> Inl (ModelError e) | Inr v \<Rightarrow> Inr v)"

definition new_message :: "env \<Rightarrow> create_args \<Rightarrow> message" where
  "new_message e a = \<lparr>msg_id = uuid_op e, msg_room_id = ca_room_id a, msg_sender = ca_sender a,
     msg_content = ca_content a, msg_created_at = now_op e,
     msg_client_message_id = ca_client_message_id a,
     msg_parent_message_id = ca_parent_message_id a, msg_reactions = [], msg_pinned_at = None,
     msg_pinned_by = None, msg_metadata = ca_metadata a, msg_attachments = ca_attachments a,
     msg_mentioned_subjects = ca_mentioned_subjects a, msg_edited_at = None, msg_deleted_at = None\<rparr>"

definition message_row_of :: "message \<Rightarrow> pystr option \<Rightarrow> message_row" where
  "message_row_of m author = message.extend m \<lparr>msg_author_subject = author\<rparr>"

definition create_message_sync ::
  "store_config \<Rightarrow> env \<Rightarrow> create_args \<Rightarrow> db \<Rightarrow> store_error + (message \<times> bool) \<times> db" where
  "create_message_sync cfg e a d =
     res_bind (room_write_gate e (ca_room_id a) False (ca_allow_frozen a) (ca_member_subject a) d) (\<lambda>_.
     case find_client_message d (ca_room_id a) (ca_client_message_id a) of
       Some existing \<Rightarrow> res_bind (message_from_row existing) (\<lambda>m. Inr ((m, False), d))
     | None \<Rightarrow>
         res_bind (check_parent d (ca_room_id a) (ca_parent_message_id a)) (\<lambda>_.
         res_bind (model_error (Message (new_message e a))) (\<lambda>message.
         res_bind (insert_message_row (message_row_of message (ca_author_subject a)) d) (\<lambda>d1.
         res_bind (trim_messages cfg e (ca_room_id a) (msg_created_at message) d1) (\<lambda>d2.
         case get_message_by_id d2 (msg_id message) of
           None \<Rightarrow> Inl NotRetainedError
         | Some persisted \<Rightarrow>
             res_bind (message_from_row persisted) (\<lambda>m.
             res_bind (insert_webhook cfg (uuid_webhook e) ''message.created'' (ca_room_id a) (msg_id m)
               (msg_created_at m) (MessageData None m) d2) (\<lambda>d3.
             Inr ((m, True), d3))))))))"

subsection \<open>Editing and deleting a message\<close>

text \<open>\<open>json.dumps(.., allow_nan=False)\<close> refuses a float that is not finite.\<close>

definition dumpable :: "metadata \<Rightarrow> bool" where
  "dumpable m \<longleftrightarrow> list_all (\<lambda>(k, v). case v of MFloat x \<Rightarrow> py_isfinite x | _ \<Rightarrow> True) m"

definition edit_row ::
  "pystr \<Rightarrow> metadata option \<Rightarrow> pystr list option \<Rightarrow> timestamp \<Rightarrow> message_row \<Rightarrow> message_row" where
  "edit_row content metadata mentions edited_at m =
     m\<lparr>msg_content := content,
       msg_metadata := (case metadata of None \<Rightarrow> msg_metadata m | Some v \<Rightarrow> sort_key fst v),
       msg_mentioned_subjects := (case mentions of None \<Rightarrow> msg_mentioned_subjects m | Some v \<Rightarrow> v),
       msg_edited_at := Some edited_at\<rparr>"

text \<open>The row read again by its primary key after the update, decoded to the public model.\<close>

definition reread_message :: "pystr \<Rightarrow> db \<Rightarrow> store_error + message" where
  "reread_message message_id d = (case get_message_by_id d message_id of
     None \<Rightarrow> Inl (MessageNotFoundError message_id) | Some row \<Rightarrow> message_from_row row)"

definition update_message_sync ::
  "store_config \<Rightarrow> env \<Rightarrow> pystr \<Rightarrow> pystr \<Rightarrow> pystr \<Rightarrow> pystr \<Rightarrow> metadata option \<Rightarrow> pystr list option \<Rightarrow>
   bool \<Rightarrow> pystr option \<Rightarrow> db \<Rightarrow> store_error + message \<times> db" where
  "update_message_sync cfg e room_id message_id actor content metadata mentions is_admin member_subject d =
     res_bind (room_write_gate e room_id False is_admin member_subject d) (\<lambda>_.
     case get_message_row d room_id message_id of
       None \<Rightarrow> Inl (MessageNotFoundError message_id)
     | Some row \<Rightarrow>
         (if msg_deleted_at row \<noteq> None then Inl (MessageDeletedError message_id)
          else if \<not> is_admin \<and> msg_sender row \<noteq> actor then Inl (MessageOwnershipError message_id)
          else if \<not> (case metadata of None \<Rightarrow> True | Some v \<Rightarrow> dumpable v)
          then Inl (ArgumentError ''Out of range float values are not JSON compliant'')
          else
            res_bind (update_message_row message_id (edit_row content metadata mentions (now_op e)) d) (\<lambda>d1.
            res_bind (insert_audit cfg (uuid_audit e) (now_audit e) ''message.updated'' actor
              (Some room_id) [(str ''message_id'', AText message_id)] d1) (\<lambda>d2.
            res_bind (reread_message message_id d2) (\<lambda>m.
            res_bind (insert_webhook cfg (uuid_webhook e) ''message.updated'' room_id (msg_id m)
              (case msg_edited_at m of Some t \<Rightarrow> t | None \<Rightarrow> now_op2 e) (MessageData (Some actor) m) d2)
              (\<lambda>d3. Inr (m, d3)))))))"

definition tombstone_row :: "timestamp \<Rightarrow> message_row \<Rightarrow> message_row" where
  "tombstone_row deleted_at m =
     m\<lparr>msg_content := [], msg_reactions := [], msg_pinned_at := None, msg_metadata := [],
       msg_attachments := [], msg_mentioned_subjects := [], msg_pinned_by := None,
       msg_deleted_at := Some deleted_at\<rparr>"

definition delete_message_reactions :: "pystr \<Rightarrow> db \<Rightarrow> db" where
  "delete_message_reactions message_id d =
     d\<lparr>db_reactions := filter (\<lambda>x. rx_message_id x \<noteq> message_id) (db_reactions d)\<rparr>"

definition delete_message_sync ::
  "store_config \<Rightarrow> env \<Rightarrow> pystr \<Rightarrow> pystr \<Rightarrow> pystr \<Rightarrow> bool \<Rightarrow> pystr option \<Rightarrow> db \<Rightarrow>
   store_error + (message \<times> bool) \<times> db" where
  "delete_message_sync cfg e room_id message_id actor is_admin member_subject d =
     res_bind (room_write_gate e room_id is_admin is_admin member_subject d) (\<lambda>_.
     case get_message_row d room_id message_id of
       None \<Rightarrow> Inl (MessageNotFoundError message_id)
     | Some row \<Rightarrow>
         (if \<not> is_admin \<and> msg_sender row \<noteq> actor then Inl (MessageOwnershipError message_id)
          else if msg_deleted_at row \<noteq> None
          then res_bind (message_from_row row) (\<lambda>m. Inr ((m, False), d))
          else
            res_bind (update_message_row message_id (tombstone_row (now_op e))
              (delete_message_reactions message_id d)) (\<lambda>d1.
            res_bind (insert_audit cfg (uuid_audit e) (now_audit e) ''message.deleted'' actor
              (Some room_id) [(str ''message_id'', AText message_id)] d1) (\<lambda>d2.
            res_bind (reread_message message_id d2) (\<lambda>m.
            res_bind (insert_webhook cfg (uuid_webhook e) ''message.deleted'' room_id (msg_id m)
              (case msg_deleted_at m of Some t \<Rightarrow> t | None \<Rightarrow> now_op2 e) (MessageData (Some actor) m)
              (scrub_message_webhooks room_id message_id d2))
              (\<lambda>d3. Inr ((m, True), d3)))))))"

subsection \<open>Deleting a batch\<close>

text \<open>Everything but the caps, which an insert may exceed until the trim that follows it.\<close>

definition core_inv :: "store_config \<Rightarrow> db \<Rightarrow> bool" where
  "core_inv cfg d \<longleftrightarrow> tables_inv d \<and> private_inv d \<and> audits_ok cfg d \<and> webhooks_ok cfg d"

lemma store_inv_core: "store_inv cfg d \<longleftrightarrow> core_inv cfg d \<and> caps_inv cfg d"
  by (auto simp: store_inv_def core_inv_def)

lemma scrub_batch_cong:
  "set batch = set batch' \<Longrightarrow> scrub_batch_webhooks batch d = scrub_batch_webhooks batch' d"
  by (simp add: scrub_batch_webhooks_def)

lemma batch_as_filter:
  assumes "keys_inv d" and "set sel \<subseteq> set (db_messages d)"
  shows "set sel = set (filter (\<lambda>m. msg_id m \<in> set (map msg_id sel)) (db_messages d))"
  using assms by (auto simp: keys_inv_def dest: distinct_key_inj)

lemma delete_batch_db:
  assumes "keys_inv d" and "set sel \<subseteq> set (db_messages d)"
  shows "snd (delete_messages_with_webhook_scrub sel d) =
    (if sel = [] then d
     else delete_message_rows (\<lambda>m. msg_id m \<in> set (map msg_id sel))
       (scrub_batch_webhooks (map (\<lambda>m. (msg_id m, msg_room_id m))
          (filter (\<lambda>m. msg_id m \<in> set (map msg_id sel)) (db_messages d))) d))"
proof -
  have "set (map (\<lambda>m. (msg_id m, msg_room_id m)) sel) = set (map (\<lambda>m. (msg_id m, msg_room_id m))
      (filter (\<lambda>m. msg_id m \<in> set (map msg_id sel)) (db_messages d)))"
    using batch_as_filter [OF assms] by (metis set_map)
  from scrub_batch_cong [OF this, of d] show ?thesis
    by (simp add: delete_messages_with_webhook_scrub_def Let_def image_image)
qed

lemma delete_batch_core:
  assumes inv: "core_inv cfg d" and sub: "set sel \<subseteq> set (db_messages d)"
  shows "core_inv cfg (snd (delete_messages_with_webhook_scrub sel d))"
proof (cases "sel = []")
  case True
  then show ?thesis using inv by (simp add: delete_messages_with_webhook_scrub_def)
next
  case False
  let ?P = "\<lambda>m. msg_id m \<in> set (map msg_id sel)"
  let ?s = "scrub_batch_webhooks (map (\<lambda>m. (msg_id m, msg_room_id m)) (filter ?P (db_messages d))) d"
  have keys: "keys_inv d" using inv by (simp add: core_inv_def tables_inv_def)
  have "tables_inv ?s" "audits_ok cfg ?s" "webhooks_ok cfg ?s"
    using inv scrub_ok [of cfg d] by (simp_all add: core_inv_def scrub_batch_webhooks_def)
  moreover have "private_inv (delete_message_rows ?P ?s)"
    by (rule scrub_batch_delete_private) (use inv in \<open>simp add: core_inv_def\<close>)
  ultimately show ?thesis
    unfolding delete_batch_db [OF keys sub] core_inv_def
    by (simp only: False if_False ok_messages delete_message_rows_tables simp_thms)
qed

lemma delete_batch_frame [simp]:
  "db_rooms (snd (delete_messages_with_webhook_scrub sel d)) = db_rooms d"
  "db_reads (snd (delete_messages_with_webhook_scrub sel d)) = db_reads d"
  "db_controls (snd (delete_messages_with_webhook_scrub sel d)) = db_controls d"
  "db_audits (snd (delete_messages_with_webhook_scrub sel d)) = db_audits d"
  by (simp_all add: delete_messages_with_webhook_scrub_def Let_def scrub_batch_webhooks_def)

lemma delete_batch_messages:
  "db_messages (snd (delete_messages_with_webhook_scrub sel d)) =
     (if sel = [] then db_messages d
      else db_messages (delete_message_rows (\<lambda>m. msg_id m \<in> set (map msg_id sel)) d))"
  by (simp add: delete_messages_with_webhook_scrub_def Let_def scrub_batch_webhooks_def
      delete_message_rows_def image_image)

lemma room_messages_batch:
  "room_messages (snd (delete_messages_with_webhook_scrub sel d)) rid =
     (if sel = [] then room_messages d rid
      else room_messages (delete_message_rows (\<lambda>m. msg_id m \<in> set (map msg_id sel)) d) rid)"
  by (simp add: room_messages_def delete_batch_messages)

lemma fst_delete_batch [simp]: "fst (delete_messages_with_webhook_scrub sel d) = length sel"
  by (simp add: delete_messages_with_webhook_scrub_def Let_def)

lemma delete_batch_caps:
  "caps_inv cfg d \<Longrightarrow> caps_inv cfg (snd (delete_messages_with_webhook_scrub sel d))"
  using delete_message_rows_caps [of cfg d "\<lambda>m. msg_id m \<in> set (map msg_id sel)"]
  by (simp add: caps_inv_def delete_batch_messages room_messages_batch)

text \<open>Deleting the first \<open>n\<close> rows of an ordering of a room, or of the whole table, leaves the others.\<close>

lemma length_filter_delete:
  assumes "\<And>g m. Q (orphan g m) = Q m"
  shows "length (filter Q (db_messages (delete_message_rows P d))) =
    length (filter (\<lambda>m. \<not> P m) (filter Q (db_messages d)))"
  using assms by (simp add: delete_message_rows_def Let_def filter_map o_def conj_commute)

lemma length_after_delete:
  assumes keys: "keys_inv d" and ys: "mset ys = mset (filter Q (db_messages d))"
    and Q: "\<And>g m. Q (orphan g m) = Q m"
  shows "length (filter Q (db_messages (snd (delete_messages_with_webhook_scrub (take n ys) d)))) =
    length (filter Q (db_messages d)) - n"
proof -
  let ?P = "\<lambda>m. msg_id m \<in> set (map msg_id (take n ys))"
  have "distinct (map msg_id (filter Q (db_messages d)))"
    using keys by (simp add: keys_inv_def distinct_map_filter_key)
  from mset_keep_drop [OF this ys, of n]
  have "length (filter (\<lambda>m. \<not> ?P m) (filter Q (db_messages d))) = length (drop n ys)"
    by (metis size_mset)
  moreover have "length ys = length (filter Q (db_messages d))" using ys by (metis size_mset)
  moreover have "take n ys = [] \<Longrightarrow> n = 0 \<or> ys = []" by (cases n; cases ys) simp_all
  ultimately show ?thesis
    by (auto simp add: delete_batch_messages length_filter_delete Q simp del: filter_filter)
qed

subsection \<open>Trimming\<close>

lemma expired_subset: "set (expired c d) \<subseteq> set (db_messages d)"
  by (auto simp: expired_def)

lemma room_excess_subset: "set (room_excess cfg rid d) \<subseteq> set (db_messages d)"
  using set_take_subset by (fastforce simp: room_excess_def room_messages_def)

lemma global_excess_subset: "set (global_excess cfg d) \<subseteq> set (db_messages d)"
  using set_take_subset by (fastforce simp: global_excess_def)

lemma trim_messages_cases:
  assumes "trim_messages cfg e rid now d = Inr d'"
  obtains "d' = snd (trim_batches cfg rid now d)"
  | details where "insert_audit cfg (uuid_audit e) (now_audit e) ''retention.automatic''
      (str ''system:retention'') None details (snd (trim_batches cfg rid now d)) = Inr d'"
proof -
  obtain a b c d3 where eq: "trim_batches cfg rid now d = ((a, b, c), d3)" by (metis surj_pair)
  show thesis
  proof (cases "a \<noteq> 0 \<or> b \<noteq> 0 \<or> c \<noteq> 0")
    case True
    from assms show ?thesis
      unfolding trim_messages_def eq prod.case if_P [OF True] by (rule that(2) [unfolded eq snd_conv])
  next
    case False
    with assms that(1) show ?thesis unfolding trim_messages_def eq prod.case if_not_P [OF False] by simp
  qed
qed

lemma trim_messages_tables:
  assumes "trim_messages cfg e rid now d = Inr d'"
  shows "db_messages d' = db_messages (snd (trim_batches cfg rid now d))"
    "db_rooms d' = db_rooms (snd (trim_batches cfg rid now d))"
    "db_reads d' = db_reads (snd (trim_batches cfg rid now d))"
    "db_webhooks d' = db_webhooks (snd (trim_batches cfg rid now d))"
  by (rule trim_messages_cases [OF assms]; use insert_audit_rooms in simp)+

lemma trim_batches_core:
  assumes "core_inv cfg d"
  shows "core_inv cfg (snd (trim_batches cfg rid now d))"
  using assms unfolding trim_batches_def Let_def snd_conv
  by (intro delete_batch_core expired_subset room_excess_subset global_excess_subset)
    (auto intro!: delete_batch_core expired_subset split: option.splits simp del: subset_code)

lemma core_inv_audit:
  "insert_audit cfg uid now action actor room details d = Inr d' \<Longrightarrow> core_inv cfg d \<Longrightarrow> core_inv cfg d'"
  using insert_audit_inv(1-4) [of cfg uid now action actor room details d d']
    insert_audit_ok [of cfg uid now action actor room details d d']
  by (simp add: core_inv_def)

lemma core_inv_keys: "core_inv cfg d \<Longrightarrow> keys_inv d"
  by (simp add: core_inv_def tables_inv_def)

text \<open>After the trim every cap holds, whatever the trigger room and the whole table held before.\<close>

lemma trim_batches_caps:
  assumes inv: "core_inv cfg d" and rooms: "length (db_rooms d) \<le> max_rooms cfg"
    and reads: "\<And>r. length (filter (\<lambda>s. rd_room_id s = r) (db_reads d)) \<le> max_read_states_per_room cfg"
    and others: "\<And>r. r \<noteq> rid \<Longrightarrow> length (room_messages d r) \<le> max_stored_messages_per_room cfg"
  shows "caps_inv cfg (snd (trim_batches cfg rid now d))"
proof -
  define d1 where "d1 = snd (case message_retention_days cfg of None \<Rightarrow> (0, d)
    | Some days \<Rightarrow> delete_messages_with_webhook_scrub (expired (now - days_delta days) d) d)"
  define d2 where "d2 = snd (delete_messages_with_webhook_scrub (room_excess cfg rid d1) d1)"
  define d3 where "d3 = snd (delete_messages_with_webhook_scrub (global_excess cfg d2) d2)"
  have eq: "snd (trim_batches cfg rid now d) = d3"
    by (simp add: trim_batches_def Let_def d1_def d2_def d3_def)
  have k1: "core_inv cfg d1" using inv delete_batch_core [OF inv expired_subset]
    by (simp add: d1_def split: option.splits)
  have k2: "core_inv cfg d2" unfolding d2_def by (rule delete_batch_core [OF k1 room_excess_subset])
  have le: "length (room_messages (snd (delete_messages_with_webhook_scrub sel y)) r) \<le>
      length (room_messages y r)" for sel y r
    using room_messages_delete by (simp add: room_messages_batch)
  have l1: "length (room_messages d1 r) \<le> length (room_messages d r)" for r
    using le by (simp add: d1_def split: option.splits)
  have l2: "length (room_messages d2 r) \<le> max_stored_messages_per_room cfg" for r
  proof (cases "r = rid")
    case True
    have "length (filter (\<lambda>m. msg_room_id m = rid) (db_messages d2)) =
        length (room_messages d1 rid) - (length (room_messages d1 rid) - max_stored_messages_per_room cfg)"
      unfolding d2_def room_excess_def
      by (subst length_after_delete [OF core_inv_keys [OF k1]]) (simp_all add: room_messages_def)
    then show ?thesis using True by (simp add: room_messages_def)
  next
    case False
    then show ?thesis using others le [of "room_excess cfg rid d1" d1 r] l1 [of r]
      unfolding d2_def by (meson order_trans)
  qed
  have "length (filter (\<lambda>m. True) (db_messages d3)) =
      length (filter (\<lambda>m. True) (db_messages d2)) - (length (db_messages d2) - max_stored_messages cfg)"
    unfolding d3_def global_excess_def
    by (subst length_after_delete [OF core_inv_keys [OF k2]]) simp_all
  then have "length (db_messages d3) \<le> max_stored_messages cfg" by simp
  moreover have "length (room_messages d3 r) \<le> max_stored_messages_per_room cfg" for r
    using l2 le [of _ d2 r] unfolding d3_def by (meson order_trans)
  moreover have "db_rooms d3 = db_rooms d" "db_reads d3 = db_reads d"
    by (simp_all add: d3_def d2_def d1_def split: option.splits)
  ultimately show ?thesis using rooms reads by (simp add: caps_inv_def eq)
qed

lemma trim_messages_inv:
  assumes run: "trim_messages cfg e rid now d = Inr d'" and inv: "core_inv cfg d"
    and rooms: "length (db_rooms d) \<le> max_rooms cfg"
    and reads: "\<And>r. length (filter (\<lambda>s. rd_room_id s = r) (db_reads d)) \<le> max_read_states_per_room cfg"
    and others: "\<And>r. r \<noteq> rid \<Longrightarrow> length (room_messages d r) \<le> max_stored_messages_per_room cfg"
  shows "store_inv cfg d'"
proof -
  have "store_inv cfg (snd (trim_batches cfg rid now d))"
    unfolding store_inv_core using trim_batches_core [OF inv] trim_batches_caps [OF assms(2-)] by blast
  with run show ?thesis
    by (elim trim_messages_cases) (auto dest: insert_audit_inv(5))
qed

subsection \<open>Decoded messages\<close>

lemma Message_fields:
  assumes "Message m = Inr n"
  shows "msg_id n = py_strip (msg_id m)" "msg_room_id n = py_strip (msg_room_id m)"
    "msg_sender n = py_strip (msg_sender m)" "msg_content n = py_strip (msg_content m)"
    "msg_created_at n = msg_created_at m"
    "msg_client_message_id n = map_option py_strip (msg_client_message_id m)"
    "msg_parent_message_id n = map_option py_strip (msg_parent_message_id m)"
    "msg_reactions n = msg_reactions m" "msg_pinned_at n = msg_pinned_at m"
    "msg_attachments n = msg_attachments m"
    "msg_mentioned_subjects n = msg_mentioned_subjects m"
    "msg_edited_at n = msg_edited_at m" "msg_deleted_at n = msg_deleted_at m"
    "metadata_field (msg_metadata m) = Inr (msg_metadata n)"
  using assms
  by (auto simp: Message_def require_complete_pin_metadata_Inr validate_attachment_references_Inr
      validate_mentioned_subjects_Inr mentions_json_def inj_map_eq_map inj_def)

lemma message_from_row_Inr:
  "message_from_row row = Inr m \<longleftrightarrow>
     (\<exists>rs as. res_all ReactionSummary (msg_reactions row) = Inr rs \<and>
        res_all AttachmentReference (msg_attachments row) = Inr as \<and>
        Message ((message.truncate row)\<lparr>msg_reactions := rs, msg_attachments := as\<rparr>) = Inr m)"
  by (auto simp: message_from_row_def split: sum.splits)

lemma message_from_row_fields:
  assumes "message_from_row row = Inr m"
  shows "msg_id m = py_strip (msg_id row)" "msg_room_id m = py_strip (msg_room_id row)"
    "msg_sender m = py_strip (msg_sender row)" "msg_content m = py_strip (msg_content row)"
    "msg_created_at m = msg_created_at row" "msg_edited_at m = msg_edited_at row"
    "msg_deleted_at m = msg_deleted_at row" "msg_pinned_at m = msg_pinned_at row"
    "msg_client_message_id m = map_option py_strip (msg_client_message_id row)"
    "msg_parent_message_id m = map_option py_strip (msg_parent_message_id row)"
    "msg_mentioned_subjects m = msg_mentioned_subjects row"
  using assms Message_fields by (fastforce simp: message_from_row_Inr message.truncate_def)+

lemma model_error_Inr [simp]: "model_error r = Inr v \<longleftrightarrow> r = Inr v"
  by (simp add: model_error_def split: sum.splits)

lemma message_row_of_simps [simp]:
  "msg_id (message_row_of m a) = msg_id m" "msg_room_id (message_row_of m a) = msg_room_id m"
  "msg_created_at (message_row_of m a) = msg_created_at m"
  "msg_client_message_id (message_row_of m a) = msg_client_message_id m"
  "msg_parent_message_id (message_row_of m a) = msg_parent_message_id m"
  "msg_reactions (message_row_of m a) = msg_reactions m"
  "msg_deleted_at (message_row_of m a) = msg_deleted_at m"
  "msg_author_subject (message_row_of m a) = a"
  "message.truncate (message_row_of m a) = m"
  by (simp_all add: message_row_of_def message.defs)

subsection \<open>What a trim keeps\<close>

lemma in_delete_batch:
  assumes "m' \<in> set (db_messages (snd (delete_messages_with_webhook_scrub sel d)))"
  shows "\<exists>m\<in>set (db_messages d). m = m'\<lparr>msg_parent_message_id := msg_parent_message_id m\<rparr>"
proof (cases "sel = []")
  case True
  then show ?thesis using assms by (intro bexI [of _ m']) (simp_all add: delete_batch_messages)
next
  case False
  then obtain m g where "m \<in> set (db_messages d)" "m' = orphan g m"
    using assms by (auto simp: delete_batch_messages in_delete_message_rows)
  then show ?thesis by (intro bexI [of _ m]) (auto simp: orphan_def split: option.splits)
qed

lemma in_trim_batches:
  assumes "m' \<in> set (db_messages (snd (trim_batches cfg rid now d)))"
  shows "\<exists>m\<in>set (db_messages d). m = m'\<lparr>msg_parent_message_id := msg_parent_message_id m\<rparr>"
proof -
  define d1 where "d1 = snd (case message_retention_days cfg of None \<Rightarrow> (0, d)
    | Some days \<Rightarrow> delete_messages_with_webhook_scrub (expired (now - days_delta days) d) d)"
  define d2 where "d2 = snd (delete_messages_with_webhook_scrub (room_excess cfg rid d1) d1)"
  have "m' \<in> set (db_messages (snd (delete_messages_with_webhook_scrub (global_excess cfg d2) d2)))"
    using assms by (simp add: trim_batches_def Let_def d1_def d2_def)
  from in_delete_batch [OF this] obtain m2 where m2: "m2 \<in> set (db_messages d2)"
    "m2 = m'\<lparr>msg_parent_message_id := msg_parent_message_id m2\<rparr>" by blast
  from in_delete_batch [OF m2(1) [unfolded d2_def]] obtain m1 where m1: "m1 \<in> set (db_messages d1)"
    "m1 = m2\<lparr>msg_parent_message_id := msg_parent_message_id m1\<rparr>" by blast
  have "\<exists>m\<in>set (db_messages d). m = m1\<lparr>msg_parent_message_id := msg_parent_message_id m\<rparr>"
  proof (cases "message_retention_days cfg")
    case None
    then show ?thesis using m1(1) by (intro bexI [of _ m1]) (simp_all add: d1_def)
  next
    case (Some days)
    then show ?thesis using m1(1) in_delete_batch unfolding d1_def by simp
  qed
  then obtain m where m: "m \<in> set (db_messages d)" "m = m1\<lparr>msg_parent_message_id := msg_parent_message_id m\<rparr>"
    by blast
  have "m = m'\<lparr>msg_parent_message_id := msg_parent_message_id m\<rparr>"
    by (subst m(2), subst m1(2), subst m2(2)) simp
  with m(1) show ?thesis by blast
qed

lemma trim_messages_row:
  assumes run: "trim_messages cfg e rid now d = Inr d'" and keys: "keys_inv d"
    and row: "row \<in> set (db_messages d)" and get: "get_message_by_id d' (msg_id row) = Some p"
  shows "p = row\<lparr>msg_parent_message_id := msg_parent_message_id p\<rparr>" "p \<in> set (db_messages d')"
proof -
  have p: "p \<in> set (db_messages d')" "msg_id p = msg_id row"
    using get by (auto simp: get_message_by_id_def dest: find_SomeD)
  then obtain m q where m: "m \<in> set (db_messages d)" "m = p\<lparr>msg_parent_message_id := q\<rparr>"
    using in_trim_batches by (metis trim_messages_tables(1) [OF run])
  then have "msg_id m = msg_id row" using p(2) by simp
  then have "m = row" using keys m(1) row unfolding keys_inv_def by (blast intro: distinct_key_inj)
  with m(2) show "p = row\<lparr>msg_parent_message_id := msg_parent_message_id p\<rparr>" by simp
  show "p \<in> set (db_messages d')" by (rule p(1))
qed

lemma message_parent_id: "msg_id (m\<lparr>msg_parent_message_id := q\<rparr>) = msg_id m"
  by simp

lemma message_parent_room: "msg_room_id (m\<lparr>msg_parent_message_id := q\<rparr>) = msg_room_id m"
  by simp

lemma message_key_parent: "message_key (m\<lparr>msg_parent_message_id := q\<rparr>) = message_key m"
  by (simp add: message_key_def)

lemma newest_not_oldest:
  assumes "distinct (map k xs)" and "x \<in> set xs" and "\<And>y. y \<in> set xs \<Longrightarrow> k y \<le> k x" and "n < length xs"
  shows "x \<notin> set (take n (order_by k xs))"
proof
  let ?o = "order_by k xs"
  assume x: "x \<in> set (take n ?o)"
  obtain y where y: "y \<in> set (drop n ?o)"
    using assms(4) by (metis drop_eq_Nil last_in_set length_order_by not_less)
  then have "k x \<le> k y" using take_order_by_le [OF x] by blast
  moreover have "y \<in> set xs" using y in_set_dropD by fastforce
  ultimately have "y = x" using assms(1-3) distinct_key_inj by (metis antisym)
  moreover have "distinct ?o"
    using assms(1) distinct_map_mset [of ?o xs k] by (simp add: distinct_map)
  then have "set (take n ?o) \<inter> set (drop n ?o) = {}" by (simp add: set_take_disj_set_drop_if_distinct)
  ultimately show False using x y by blast
qed

text \<open>A message the batch does not select survives it, up to its parent reference.\<close>

lemma delete_batch_survivor:
  assumes "m \<in> set (db_messages d)" and "msg_id m \<notin> set (map msg_id sel)"
  shows "\<exists>m'\<in>set (db_messages (snd (delete_messages_with_webhook_scrub sel d))).
    m' = m\<lparr>msg_parent_message_id := msg_parent_message_id m'\<rparr>"
proof (cases "sel = []")
  case True
  then show ?thesis using assms(1) by (intro bexI [of _ m]) (simp_all add: delete_batch_messages)
next
  case False
  let ?P = "\<lambda>m. msg_id m \<in> set (map msg_id sel)"
  let ?m = "orphan (map msg_id (filter ?P (db_messages d))) m"
  have "?m \<in> set (db_messages (delete_message_rows ?P d))"
    unfolding in_delete_message_rows using assms by blast
  moreover have "?m = m\<lparr>msg_parent_message_id := msg_parent_message_id ?m\<rparr>"
    by (simp add: orphan_def split: option.splits)
  ultimately show ?thesis using False by (auto simp: delete_batch_messages)
qed

lemma newest_survives:
  assumes keys: "keys_inv d" and m: "m \<in> set (db_messages d)" "Q m" and n: "n < length (filter Q (db_messages d))"
    and max: "\<And>x. x \<in> set (db_messages d) \<Longrightarrow> message_key x \<le> message_key m"
  shows "\<exists>m'\<in>set (db_messages (snd (delete_messages_with_webhook_scrub
      (take n (order_by message_key (filter Q (db_messages d)))) d))).
    m' = m\<lparr>msg_parent_message_id := msg_parent_message_id m'\<rparr>"
proof (rule delete_batch_survivor [OF m(1)])
  let ?o = "take n (order_by message_key (filter Q (db_messages d)))"
  have d: "distinct (map msg_id (filter Q (db_messages d)))"
    using keys by (simp add: keys_inv_def distinct_map_filter_key)
  then have "distinct (map message_key (filter Q (db_messages d)))"
    by (auto simp: distinct_map inj_on_def message_key_def)
  then have "m \<notin> set ?o" by (rule newest_not_oldest) (use m n max in auto)
  moreover have "x = m" if "x \<in> set ?o" "msg_id x = msg_id m" for x
  proof -
    have "x \<in> set (db_messages d)" using in_set_takeD [OF that(1)] by simp
    then show ?thesis using keys m(1) that(2) unfolding keys_inv_def by (blast intro: distinct_key_inj)
  qed
  ultimately show "msg_id m \<notin> set (map msg_id ?o)" by auto
qed

lemma delete_batch_keys:
  "keys_inv d \<Longrightarrow> keys_inv (snd (delete_messages_with_webhook_scrub sel d))"
proof -
  assume k: "keys_inv d"
  have "keys_inv (scrub_batch_webhooks b d)" for b
    using k by (simp add: keys_inv_def scrub_batch_webhooks_def)
  then show ?thesis using k
    by (simp add: delete_messages_with_webhook_scrub_def Let_def delete_message_rows_keys)
qed

lemma max_in_batch:
  assumes max: "\<And>x. x \<in> set (db_messages d) \<Longrightarrow> message_key x \<le> message_key m"
    and m': "m' = m\<lparr>msg_parent_message_id := q\<rparr>"
    and x: "x \<in> set (db_messages (snd (delete_messages_with_webhook_scrub sel d)))"
  shows "message_key x \<le> message_key m'"
proof -
  obtain y where "y \<in> set (db_messages d)" "y = x\<lparr>msg_parent_message_id := msg_parent_message_id y\<rparr>"
    using in_delete_batch [OF x] by blast
  then show ?thesis using max m' message_key_parent by metis
qed

lemma excess_less: "1 \<le> cap \<Longrightarrow> x \<in> set xs \<Longrightarrow> length xs - cap < length xs"
  by (cases xs) auto

lemma trim_keeps_newest:
  assumes keys: "keys_inv d" and m: "m \<in> set (db_messages d)"
    and max: "\<And>x. x \<in> set (db_messages d) \<Longrightarrow> message_key x \<le> message_key m"
    and now: "now = msg_created_at m" and room: "msg_room_id m = rid"
    and caps: "1 \<le> max_stored_messages cfg" "1 \<le> max_stored_messages_per_room cfg"
  shows "\<exists>p\<in>set (db_messages (snd (trim_batches cfg rid now d))). msg_id p = msg_id m"
proof -
  define d1 where "d1 = snd (case message_retention_days cfg of None \<Rightarrow> (0, d)
    | Some days \<Rightarrow> delete_messages_with_webhook_scrub (expired (now - days_delta days) d) d)"
  define d2 where "d2 = snd (delete_messages_with_webhook_scrub (room_excess cfg rid d1) d1)"
  have eq: "snd (trim_batches cfg rid now d) = snd (delete_messages_with_webhook_scrub (global_excess cfg d2) d2)"
    by (simp add: trim_batches_def Let_def d1_def d2_def)
  have k1: "keys_inv d1" using keys delete_batch_keys by (simp add: d1_def split: option.splits)
  have k2: "keys_inv d2" unfolding d2_def by (rule delete_batch_keys [OF k1])
  have "\<exists>m1\<in>set (db_messages d1). m1 = m\<lparr>msg_parent_message_id := msg_parent_message_id m1\<rparr>"
  proof (cases "message_retention_days cfg")
    case None
    then show ?thesis using m by (intro bexI [of _ m]) (simp_all add: d1_def)
  next
    case (Some days)
    have "msg_id m \<notin> set (map msg_id (expired (now - days_delta days) d))"
    proof
      assume "msg_id m \<in> set (map msg_id (expired (now - days_delta days) d))"
      then obtain x where x: "x \<in> set (db_messages d)" "msg_created_at x < now - days_delta days" "msg_id x = msg_id m"
        by (auto simp: expired_def)
      then have "x = m" using keys m unfolding keys_inv_def by (blast intro: distinct_key_inj)
      then show False using x(2) now by (simp add: days_delta_def microseconds_def)
    qed
    from delete_batch_survivor [OF m this] show ?thesis by (simp add: d1_def Some)
  qed
  then obtain m1 where m1: "m1 \<in> set (db_messages d1)" "m1 = m\<lparr>msg_parent_message_id := msg_parent_message_id m1\<rparr>"
    by blast
  have max1: "message_key x \<le> message_key m1" if "x \<in> set (db_messages d1)" for x
  proof (cases "message_retention_days cfg")
    case None
    then have "d1 = d" by (simp add: d1_def)
    moreover have "message_key m1 = message_key m" using m1(2) message_key_parent by metis
    ultimately show ?thesis using max [of x] that by simp
  next
    case (Some days)
    then show ?thesis using max_in_batch [OF max m1(2)] that by (simp add: d1_def)
  qed
  have r1: "msg_room_id m1 = rid" using m1(2) room by (metis message_parent_room)
  have "length (room_messages d1 rid) - max_stored_messages_per_room cfg < length (room_messages d1 rid)"
    using m1(1) r1 by (intro excess_less [OF caps(2), of m1]) (simp add: room_messages_def)
  from newest_survives [OF k1 m1(1) r1 this [unfolded room_messages_def] max1]
  obtain m2 where m2: "m2 \<in> set (db_messages d2)" "m2 = m1\<lparr>msg_parent_message_id := msg_parent_message_id m2\<rparr>"
    by (auto simp: d2_def room_excess_def room_messages_def)
  have max2: "message_key x \<le> message_key m2" if "x \<in> set (db_messages d2)" for x
    using max_in_batch [OF max1 m2(2)] that by (simp add: d2_def)
  have "length (db_messages d2) - max_stored_messages cfg < length (filter (\<lambda>_. True) (db_messages d2))"
    using excess_less [OF caps(1) m2(1)] by simp
  from newest_survives [OF k2 m2(1) TrueI this max2]
  obtain m3 where "m3 \<in> set (db_messages (snd (trim_batches cfg rid now d)))"
    "m3 = m2\<lparr>msg_parent_message_id := msg_parent_message_id m3\<rparr>"
    by (auto simp: eq global_excess_def)
  then show ?thesis using m1(2) m2(2) by (metis message_parent_id)
qed

subsection \<open>Creating keeps the invariant\<close>

lemma create_message_cases:
  assumes "create_message_sync cfg e a d = Inr ((m, created), d')"
  obtains (existing) row where "find_client_message d (ca_room_id a) (ca_client_message_id a) = Some row"
    "message_from_row row = Inr m" "\<not> created" "d' = d"
  | (new) message d1 d2 p where
    "find_client_message d (ca_room_id a) (ca_client_message_id a) = None" "created"
    "check_parent d (ca_room_id a) (ca_parent_message_id a) = Inr ()"
    "Message (new_message e a) = Inr message"
    "insert_message_row (message_row_of message (ca_author_subject a)) d = Inr d1"
    "trim_messages cfg e (ca_room_id a) (msg_created_at message) d1 = Inr d2"
    "get_message_by_id d2 (msg_id message) = Some p" "message_from_row p = Inr m"
    "insert_webhook cfg (uuid_webhook e) ''message.created'' (ca_room_id a) (msg_id m)
       (msg_created_at m) (MessageData None m) d2 = Inr d'"
  using assms unfolding create_message_sync_def
  by (simp split: option.splits) blast+

lemma other_errors:
  "room_write_gate e rid aa af subj d \<noteq> Inl NotRetainedError"
  "message_from_row row \<noteq> Inl NotRetainedError" "check_parent d rid parent \<noteq> Inl NotRetainedError"
  "model_error r \<noteq> Inl NotRetainedError" "insert_message_row m d \<noteq> Inl NotRetainedError"
  "insert_webhook cfg uid ev rid res t x d \<noteq> Inl NotRetainedError"
  "insert_audit cfg uid now action actor room details d \<noteq> Inl NotRetainedError"
  "trim_messages cfg e rid now d \<noteq> Inl NotRetainedError"
  by (auto simp: room_write_gate_def enforce_member_write_sync_def message_from_row_def check_parent_def
      model_error_def insert_message_row_def trim_messages_def split: option.splits sum.splits prod.splits if_splits
      dest: insert_webhook_Inl insert_audit_Inl)

lemma create_message_not_retained:
  assumes "create_message_sync cfg e a d = Inl NotRetainedError"
  shows "\<exists>message d1 d2. has_room d (ca_room_id a) \<and> Message (new_message e a) = Inr message \<and>
    insert_message_row (message_row_of message (ca_author_subject a)) d = Inr d1 \<and>
    trim_messages cfg e (ca_room_id a) (msg_created_at message) d1 = Inr d2 \<and>
    get_message_by_id d2 (msg_id message) = None"
proof -
  have gate: "room_write_gate e (ca_room_id a) False (ca_allow_frozen a) (ca_member_subject a) d = Inr ()"
    using assms other_errors(1) by (cases "room_write_gate e (ca_room_id a) False (ca_allow_frozen a)
      (ca_member_subject a) d") (auto simp: create_message_sync_def)
  moreover have "has_room d (ca_room_id a)"
    using gate unfolding room_write_gate_Inr by (metis get_room_row_None option.distinct(1))
  ultimately show ?thesis
    using assms unfolding create_message_sync_def by (auto simp: other_errors split: option.splits)
qed

lemma create_message_gate:
  "create_message_sync cfg e a d = Inr r \<Longrightarrow>
     room_write_gate e (ca_room_id a) False (ca_allow_frozen a) (ca_member_subject a) d = Inr ()"
  by (auto simp: create_message_sync_def)

lemma check_parent_Inr:
  "check_parent d rid parent = Inr u \<longleftrightarrow>
     (\<forall>p. parent = Some p \<longrightarrow> (\<exists>row. get_message_row d rid p = Some row \<and> msg_deleted_at row = None \<and>
        msg_parent_message_id row = None))"
  by (auto simp: check_parent_def split: option.splits if_splits)

lemma get_message_row_SomeD:
  "get_message_row d rid mid = Some m \<Longrightarrow> m \<in> set (db_messages d) \<and> msg_room_id m = rid \<and> msg_id m = mid"
  by (auto simp: get_message_row_def dest: find_SomeD)

lemma room_clean: "tables_inv d \<Longrightarrow> has_room d rid \<Longrightarrow> py_strip rid = rid"
  by (auto simp: tables_inv_def keys_inv_def has_room_def)

lemma id_clean: "tables_inv d \<Longrightarrow> m \<in> set (db_messages d) \<Longrightarrow> py_strip (msg_id m) = msg_id m"
  by (simp add: tables_inv_def rows_inv_def row_ok_def)

lemma message_unique:
  "tables_inv d \<Longrightarrow> m \<in> set (db_messages d) \<Longrightarrow> n \<in> set (db_messages d) \<Longrightarrow> msg_id m = msg_id n \<Longrightarrow> m = n"
  unfolding tables_inv_def keys_inv_def by (blast intro: distinct_key_inj)

lemma inserted_core:
  assumes inv: "store_inv cfg d" and ins: "insert_message_row row d = Inr d1"
    and ok: "row_ok row" and new: "msg_reactions row = []"
    and parent: "\<And>p. msg_parent_message_id row = Some p \<Longrightarrow> \<exists>q\<in>set (db_messages d). msg_id q = p \<and>
      msg_room_id q = msg_room_id row \<and> msg_parent_message_id q = None"
  shows "core_inv cfg d1"
proof -
  have d1: "d1 = d\<lparr>db_messages := db_messages d @ [row]\<rparr>" using ins by (simp add: insert_message_row_Inr)
  have "tables_inv d1"
    by (rule insert_message_row_tables [OF ins _ ok new parent]) (use inv in \<open>simp_all add: store_inv_def\<close>)
  moreover have "private_inv d1"
    by (rule private_inv_step [of d]) (use inv in \<open>auto simp: store_inv_def d1 body_allowed_def\<close>)
  ultimately show ?thesis
    using inv by (simp add: store_inv_def core_inv_def d1 audits_ok_def webhooks_ok_def)
qed

lemma gate_room: "room_write_gate e rid aa af subj d = Inr u \<Longrightarrow> has_room d rid"
  unfolding room_write_gate_Inr by (metis get_room_row_None option.distinct(1))

lemma trim_after_insert:
  assumes inv: "store_inv cfg d" and ins: "insert_message_row row d = Inr d1"
    and core: "core_inv cfg d1" and room: "msg_room_id row = rid"
    and trim: "trim_messages cfg e rid now d1 = Inr d2"
  shows "store_inv cfg d2"
proof -
  have d1: "d1 = d\<lparr>db_messages := db_messages d @ [row]\<rparr>" using ins by (simp add: insert_message_row_Inr)
  show ?thesis
    by (rule trim_messages_inv [OF trim core])
      (use inv room in \<open>auto simp: d1 store_inv_def caps_inv_def room_messages_def\<close>)
qed

lemma new_message_fields:
  assumes "Message (new_message e a) = Inr m"
  shows "msg_id m = py_strip (uuid_op e)" "msg_room_id m = py_strip (ca_room_id a)"
    "msg_created_at m = now_op e" "msg_reactions m = []" "msg_deleted_at m = None"
    "msg_parent_message_id m = map_option py_strip (ca_parent_message_id a)"
    "msg_client_message_id m = map_option py_strip (ca_client_message_id a)"
    "msg_sender m = py_strip (ca_sender a)" "msg_content m = py_strip (ca_content a)"
    "msg_mentioned_subjects m = ca_mentioned_subjects a" "msg_pinned_at m = None" "msg_edited_at m = None"
  using Message_fields [OF assms] by (simp_all add: new_message_def)

lemma create_message_inv:
  assumes run: "create_message_sync cfg e a d = Inr ((m, created), d')" and inv: "store_inv cfg d"
  shows "store_inv cfg d'"
  using run
proof (cases rule: create_message_cases)
  case (existing row)
  then show ?thesis using inv by simp
next
  case (new message d1 d2 p)
  let ?row = "message_row_of message (ca_author_subject a)"
  have t: "tables_inv d" using inv by (simp add: store_inv_def)
  have room: "py_strip (ca_room_id a) = ca_room_id a"
    by (rule room_clean [OF t gate_room [OF create_message_gate [OF run]]])
  note f = new_message_fields [OF new(4), unfolded room]
  have d1: "d1 = d\<lparr>db_messages := db_messages d @ [?row]\<rparr>" and fresh: "msg_id message \<notin> msg_id ` set (db_messages d)"
    using new(5) by (simp_all add: insert_message_row_Inr)
  have parent: "\<exists>q\<in>set (db_messages d). msg_id q = pid \<and> msg_room_id q = msg_room_id ?row \<and>
      msg_parent_message_id q = None" if parent_id: "msg_parent_message_id ?row = Some pid" for pid
  proof -
    obtain raw where raw: "ca_parent_message_id a = Some raw" "pid = py_strip raw"
      using parent_id f(6) by auto
    then obtain q where q: "get_message_row d (ca_room_id a) raw = Some q" "msg_parent_message_id q = None"
      using new(3) by (auto simp: check_parent_Inr)
    then show ?thesis using get_message_row_SomeD [OF q(1)] raw(2) f(2) id_clean [OF t] by auto
  qed
  have keys: "distinct (map msg_id (db_messages d1))"
    using t fresh by (simp add: d1 tables_inv_def keys_inv_def)
  have k1: "keys_inv d1" using insert_message_row_Inr [of ?row d d1] new(5) t
    by (auto simp: d1 tables_inv_def keys_inv_def)
  have p: "p = ?row\<lparr>msg_parent_message_id := msg_parent_message_id p\<rparr>" "p \<in> set (db_messages d2)"
    using trim_messages_row [OF new(6) k1, of ?row p] new(7) by (simp_all add: d1)
  have pf: "msg_id p = msg_id message" "msg_room_id p = ca_room_id a" "msg_deleted_at p = None"
    using f by (subst p(1), simp)+
  have "row_ok p" using new(8) pf f(1) by (simp add: row_ok_def)
  then have ok: "row_ok ?row" using p(1) by (metis row_ok_parent)
  have "core_inv cfg d1"
    by (rule inserted_core [OF inv new(5) ok]) (use f parent in simp_all)
  then have s2: "store_inv cfg d2"
    by (rule trim_after_insert [OF inv new(5) _ _ new(6)]) (simp add: f)
  have "msg_id m = msg_id p" using message_from_row_fields(1) [OF new(8)] pf(1) f(1) by simp
  then have "body_allowed d2 ''message.created'' (ca_room_id a) (msg_id m)"
    unfolding body_allowed_def using p(2) pf by (intro bexI [of _ p]) simp_all
  then show ?thesis by (intro insert_webhook_inv(5) [OF new(9) _ s2])
qed

subsection \<open>Editing and deleting keep the invariant\<close>

lemma keeps_identity_simps [simp]:
  "keeps_identity (edit_row c md mn t)" "keeps_identity (tombstone_row t)"
  by (simp_all add: keeps_identity_def edit_row_def tombstone_row_def)

lemma update_message_row_change:
  "update_message_row mid f d = Inr d' \<Longrightarrow> d' = change_message mid f (db_reactions d) d"
  by (auto simp: update_message_row_def change_message_def split: if_splits)

lemma get_by_id_change:
  assumes keys: "keys_inv d" and m: "m \<in> set (db_messages d)" "msg_id m = mid" and f: "keeps_identity f"
  shows "get_message_by_id (change_message mid f rs d) mid = Some (f m)"
proof -
  have "find (\<lambda>x. msg_id x = mid) (db_messages d) = Some m"
    using find_by_key [of msg_id "db_messages d" m] keys m by (simp add: keys_inv_def)
  then show ?thesis using f m(2)
    by (simp add: get_message_by_id_def change_message_def find_update_where keeps_identity_def)
qed

lemma legal_change_same_reactions:
  assumes inv: "tables_inv d" and m: "m \<in> set (db_messages d)" "msg_id m = mid"
    and f: "keeps_identity f" "msg_reactions (f m) = msg_reactions m"
      "msg_deleted_at (f m) = msg_deleted_at m" "msg_deleted_at m = None"
    and ok: "is_ok (message_from_row (f m))"
  shows "legal_change mid f (db_reactions d) d"
proof -
  have uniq: "n = m" if "n \<in> set (db_messages d)" "msg_id n = mid" for n
    using message_unique [OF inv that(1) m(1)] that(2) m(2) by simp
  have "row_ok (f m)"
    using ok f id_clean [OF inv m(1)] keeps_identityD [OF f(1), of m] by (simp add: row_ok_def)
  moreover have "msg_reactions m = reaction_summaries (db_reactions d) mid" "length (msg_reactions m) \<le> 20"
    using inv m unfolding tables_inv_def reactions_inv_def by auto
  moreover have "\<exists>n\<in>set (db_messages d). msg_id n = mid \<and> msg_room_id n = rx_room_id x \<and>
      msg_deleted_at (f n) = None" if "x \<in> set (db_reactions d)" "rx_message_id x = mid" for x
    using reactions_inv_message [of d x] inv that uniq f by (auto simp: tables_inv_def)
  ultimately show ?thesis
    using inv f(1,2) uniq unfolding legal_change_def
    by (auto simp: tables_inv_def keys_inv_def)
qed

lemma change_message_inv:
  assumes inv: "store_inv cfg d" and leg: "legal_change mid f rs d"
    and priv: "private_inv (change_message mid f rs d)"
  shows "store_inv cfg (change_message mid f rs d)"
proof -
  have "keeps_identity f" using leg by (simp add: legal_change_def)
  then show ?thesis
    using inv priv change_message_tables [OF _ leg] change_message_caps [of f cfg mid rs d]
    by (simp add: store_inv_def)
qed

lemma change_message_private:
  assumes "private_inv d" and "keeps_identity f" and "\<And>m. msg_deleted_at (f m) = msg_deleted_at m"
  shows "private_inv (change_message mid f rs d)"
  by (rule private_inv_step [OF assms(1)]) (use assms in \<open>auto intro: body_allowed_change\<close>)

lemma reread_after_audit:
  "insert_audit cfg uid now action actor room details d = Inr d' \<Longrightarrow>
     reread_message mid d' = reread_message mid d"
  by (auto simp: reread_message_def get_message_by_id_def dest!: insert_audit_rooms)

lemma reread_change:
  assumes "keys_inv d" and "m \<in> set (db_messages d)" "msg_id m = mid" and "keeps_identity f"
  shows "reread_message mid (change_message mid f rs d) = message_from_row (f m)"
  using get_by_id_change [OF assms] by (simp add: reread_message_def)

lemma update_message_cases:
  assumes "update_message_sync cfg e rid mid actor content md mn adm subj d = Inr (m, d')"
  obtains row d1 d2 where "room_write_gate e rid False adm subj d = Inr ()"
    "get_message_row d rid mid = Some row" "msg_deleted_at row = None" "adm \<or> msg_sender row = actor"
    "update_message_row mid (edit_row content md mn (now_op e)) d = Inr d1"
    "insert_audit cfg (uuid_audit e) (now_audit e) ''message.updated'' actor (Some rid)
       [(str ''message_id'', AText mid)] d1 = Inr d2"
    "reread_message mid d2 = Inr m"
    "insert_webhook cfg (uuid_webhook e) ''message.updated'' rid (msg_id m)
       (case msg_edited_at m of Some t \<Rightarrow> t | None \<Rightarrow> now_op2 e) (MessageData (Some actor) m) d2 = Inr d'"
proof -
  from assms obtain row where row: "room_write_gate e rid False adm subj d = Inr ()"
    "get_message_row d rid mid = Some row"
    by (auto simp: update_message_sync_def split: option.splits)
  then have "msg_deleted_at row = None" "adm \<or> msg_sender row = actor"
    using assms by (auto simp: update_message_sync_def split: if_splits)
  then show thesis using assms row by (auto simp: update_message_sync_def split: if_splits intro!: that)
qed

lemma update_message_result:
  assumes run: "update_message_sync cfg e rid mid actor content md mn adm subj d = Inr (m, d')"
    and keys: "keys_inv d"
  obtains row where "get_message_row d rid mid = Some row" "msg_deleted_at row = None"
    "adm \<or> msg_sender row = actor"
    "message_from_row (edit_row content md mn (now_op e) row) = Inr m"
    "db_messages d' = update_where (\<lambda>x. msg_id x = mid) (edit_row content md mn (now_op e)) (db_messages d)"
  using run
proof (cases rule: update_message_cases)
  case (1 row d1 d2)
  have d1: "d1 = change_message mid (edit_row content md mn (now_op e)) (db_reactions d) d"
    by (rule update_message_row_change [OF 1(5)])
  have r: "row \<in> set (db_messages d)" "msg_id row = mid" using get_message_row_SomeD [OF 1(2)] by simp_all
  have "message_from_row (edit_row content md mn (now_op e) row) = Inr m"
    using 1(7) unfolding reread_after_audit [OF 1(6)] d1
    by (simp add: reread_change [OF keys r])
  moreover have "db_messages d' = db_messages d1"
    using insert_webhook_tables [OF 1(8)] insert_audit_rooms [OF 1(6)] by simp
  ultimately show ?thesis using 1(2-4) that by (simp add: d1 change_message_def)
qed

lemma update_message_inv:
  assumes run: "update_message_sync cfg e rid mid actor content md mn adm subj d = Inr (m, d')"
    and inv: "store_inv cfg d"
  shows "store_inv cfg d'"
  using run
proof (cases rule: update_message_cases)
  case (1 row d1 d2)
  let ?f = "edit_row content md mn (now_op e)"
  have t: "tables_inv d" using inv by (simp add: store_inv_def)
  then have keys: "keys_inv d" by (simp add: tables_inv_def)
  have d1: "d1 = change_message mid ?f (db_reactions d) d" by (rule update_message_row_change [OF 1(5)])
  have r: "row \<in> set (db_messages d)" "msg_id row = mid" "msg_room_id row = rid"
    using get_message_row_SomeD [OF 1(2)] by simp_all
  have dec: "message_from_row (?f row) = Inr m"
    using 1(7) unfolding reread_after_audit [OF 1(6)] d1 by (simp add: reread_change [OF keys r(1,2)])
  have leg: "legal_change mid ?f (db_reactions d) d"
    by (rule legal_change_same_reactions [OF t r(1,2)]) (use dec 1(3) in \<open>simp_all add: edit_row_def\<close>)
  have "private_inv d1" unfolding d1
    by (rule change_message_private) (use inv in \<open>simp_all add: store_inv_def edit_row_def\<close>)
  then have "store_inv cfg d1" using change_message_inv [OF inv leg] by (simp add: d1)
  then have s2: "store_inv cfg d2" by (rule insert_audit_inv(5) [OF 1(6)])
  have "?f row \<in> set (db_messages d2)"
    using insert_audit_rooms [OF 1(6)] r(1,2) by (auto simp: d1 in_change_message)
  moreover have "msg_id m = mid"
    using message_from_row_fields(1) [OF dec] id_clean [OF t r(1)] r(2) by (simp add: edit_row_def)
  ultimately have "body_allowed d2 ''message.updated'' rid (msg_id m)"
    unfolding body_allowed_def using r 1(3) by (intro bexI [of _ "?f row"]) (simp_all add: edit_row_def)
  then show ?thesis by (intro insert_webhook_inv(5) [OF 1(8) _ s2])
qed

lemma delete_message_cases:
  assumes "delete_message_sync cfg e rid mid actor adm subj d = Inr ((m, changed), d')"
  obtains (already) row where "get_message_row d rid mid = Some row" "adm \<or> msg_sender row = actor"
    "msg_deleted_at row \<noteq> None" "message_from_row row = Inr m" "\<not> changed" "d' = d"
  | (deleted) row d1 d2 where "get_message_row d rid mid = Some row" "adm \<or> msg_sender row = actor"
    "msg_deleted_at row = None" "changed"
    "update_message_row mid (tombstone_row (now_op e)) (delete_message_reactions mid d) = Inr d1"
    "insert_audit cfg (uuid_audit e) (now_audit e) ''message.deleted'' actor (Some rid)
       [(str ''message_id'', AText mid)] d1 = Inr d2"
    "reread_message mid d2 = Inr m"
    "insert_webhook cfg (uuid_webhook e) ''message.deleted'' rid (msg_id m)
       (case msg_deleted_at m of Some t \<Rightarrow> t | None \<Rightarrow> now_op2 e) (MessageData (Some actor) m)
       (scrub_message_webhooks rid mid d2) = Inr d'"
proof -
  from assms obtain row where row: "get_message_row d rid mid = Some row"
    by (auto simp: delete_message_sync_def split: option.splits)
  then have own: "adm \<or> msg_sender row = actor"
    using assms by (auto simp: delete_message_sync_def split: if_splits)
  show thesis
  proof (cases "msg_deleted_at row")
    case None
    then show ?thesis using assms row own
      by (auto simp: delete_message_sync_def split: if_splits intro!: deleted)
  next
    case (Some t)
    then show ?thesis using assms row own
      by (auto simp: delete_message_sync_def split: if_splits intro!: already)
  qed
qed

lemma tombstone_change:
  assumes "update_message_row mid (tombstone_row t) (delete_message_reactions mid d) = Inr d1"
  shows "d1 = change_message mid (tombstone_row t) (filter (\<lambda>x. rx_message_id x \<noteq> mid) (db_reactions d)) d"
  using update_message_row_change [OF assms] by (simp add: change_message_def delete_message_reactions_def)

lemma reaction_summaries_deleted:
  "reaction_summaries (filter (\<lambda>x. rx_message_id x \<noteq> mid) rs) mid = []"
  using reaction_summaries_cong [of mid "filter (\<lambda>x. rx_message_id x \<noteq> mid) rs" "[]"] by simp

lemma legal_tombstone:
  assumes inv: "tables_inv d" and m: "m \<in> set (db_messages d)" "msg_id m = mid"
    and ok: "is_ok (message_from_row (tombstone_row t m))"
  shows "legal_change mid (tombstone_row t) (filter (\<lambda>x. rx_message_id x \<noteq> mid) (db_reactions d)) d"
proof -
  have uniq: "n = m" if "n \<in> set (db_messages d)" "msg_id n = mid" for n
    using message_unique [OF inv that(1) m(1)] that(2) m(2) by simp
  have "row_ok (tombstone_row t m)"
    using ok id_clean [OF inv m(1)] by (simp add: row_ok_def tombstone_row_def)
  moreover have "distinct (map reaction_ident (db_reactions d))"
    "\<forall>x\<in>set (db_reactions d). REACTION_KEY_PATTERN (rx_key x)"
    using inv by (simp_all add: tables_inv_def keys_inv_def)
  ultimately show ?thesis
    using uniq unfolding legal_change_def
    by (auto simp: distinct_map_filter_key reaction_summaries_deleted intro!: filter_cong)
      (simp_all add: tombstone_row_def)
qed

lemma scrubbed_tombstone_private:
  assumes inv: "tables_inv d" "private_inv d" and m: "m \<in> set (db_messages d)" "msg_id m = mid" "msg_room_id m = rid"
    and f: "keeps_identity f"
  shows "private_inv (scrub_message_webhooks rid mid (change_message mid f rs d))"
proof (rule private_inv_step [OF inv(2)])
  let ?d = "scrub_message_webhooks rid mid (change_message mid f rs d)"
  fix w assume w: "w \<in> set (db_webhooks ?d)" "like_message (wd_event_type w)" "wr_payload w \<noteq> None"
  then have kept: "w \<in> set (db_webhooks d)" "\<not> (wd_room_id w = rid \<and> wr_resource_id w = mid)"
    using scrub_body_kept [of w _ "db_webhooks d"] by (auto simp: scrub_message_webhooks_def)
  moreover have "body_allowed ?d ev r res" if allowed: "body_allowed d ev r res" "\<not> (r = rid \<and> res = mid)" for ev r res
  proof -
    have "res \<noteq> mid"
    proof
      assume "res = mid"
      then obtain n where "n \<in> set (db_messages d)" "msg_id n = mid" "msg_room_id n = r"
        using allowed(1) by (auto simp: body_allowed_def)
      then have "n = m" using message_unique [OF inv(1) _ m(1)] m(2) by simp
      then show False using allowed(2) \<open>res = mid\<close> \<open>msg_room_id n = r\<close> m(3) by simp
    qed
    then have "body_allowed (change_message mid f rs d) ev r res"
      using body_allowed_change [OF allowed(1) f] by blast
    then show ?thesis by (simp add: scrub_message_webhooks_def)
  qed
  ultimately show "w \<in> set (db_webhooks d) \<and>
      (body_allowed d (wd_event_type w) (wd_room_id w) (wr_resource_id w) \<longrightarrow>
       body_allowed ?d (wd_event_type w) (wd_room_id w) (wr_resource_id w))"
    by blast
qed

lemma delete_message_inv:
  assumes run: "delete_message_sync cfg e rid mid actor adm subj d = Inr ((m, changed), d')"
    and inv: "store_inv cfg d"
  shows "store_inv cfg d'"
  using run
proof (cases rule: delete_message_cases)
  case (already row)
  then show ?thesis using inv by simp
next
  case (deleted row d1 d2)
  let ?f = "tombstone_row (now_op e)" and ?rs = "filter (\<lambda>x. rx_message_id x \<noteq> mid) (db_reactions d)"
  have t: "tables_inv d" "private_inv d" using inv by (simp_all add: store_inv_def)
  then have keys: "keys_inv d" by (simp add: tables_inv_def)
  have d1: "d1 = change_message mid ?f ?rs d" by (rule tombstone_change [OF deleted(5)])
  have r: "row \<in> set (db_messages d)" "msg_id row = mid" "msg_room_id row = rid"
    using get_message_row_SomeD [OF deleted(1)] by simp_all
  have dec: "message_from_row (?f row) = Inr m"
    using deleted(7) unfolding reread_after_audit [OF deleted(6)] d1 by (simp add: reread_change [OF keys r(1,2)])
  have leg: "legal_change mid ?f ?rs d" by (rule legal_tombstone [OF t(1) r(1,2)]) (simp add: dec)
  have d2: "d2 = d1\<lparr>db_audits := db_audits d2\<rparr>" by (rule insert_audit_frame [OF deleted(6)])
  let ?s = "scrub_message_webhooks rid mid d2"
  have "private_inv (scrub_message_webhooks rid mid d1)"
    unfolding d1 by (rule scrubbed_tombstone_private [OF t r]) simp
  then have "private_inv ?s"
    by (subst d2) (simp add: scrub_message_webhooks_def private_inv_def body_allowed_def)
  moreover have "tables_inv d2" "caps_inv cfg d2" "audits_ok cfg d2" "webhooks_ok cfg d2"
    using insert_audit_inv(1-4) [OF deleted(6)] insert_audit_ok [OF deleted(6)] inv
      change_message_tables [OF t(1) leg] change_message_caps [of ?f cfg mid ?rs d]
    by (simp_all add: d1 store_inv_def)
  ultimately have s: "store_inv cfg ?s"
    using scrub_ok [of cfg d2] by (simp add: store_inv_def scrub_message_webhooks_def)
  have "?f row \<in> set (db_messages ?s)"
    using insert_audit_rooms [OF deleted(6)] r(1,2) by (auto simp: d1 scrub_message_webhooks_def in_change_message)
  moreover have "msg_id m = mid"
    using message_from_row_fields(1) [OF dec] id_clean [OF t(1) r(1)] r(2) by (simp add: tombstone_row_def)
  ultimately have "body_allowed ?s ''message.deleted'' rid (msg_id m)"
    unfolding body_allowed_def using r by (intro bexI [of _ "?f row"]) (simp_all add: tombstone_row_def)
  then show ?thesis by (intro insert_webhook_inv(5) [OF deleted(8) _ s])
qed

lemma deleted_message_decoded:
  assumes "store_inv cfg d" and "get_message_row d rid mid = Some row"
    and "update_message_row mid (tombstone_row t) (delete_message_reactions mid d) = Inr d1"
    and "insert_audit cfg uid now action actor room details d1 = Inr d2" and "reread_message mid d2 = Inr m"
  shows "message_from_row (tombstone_row t row) = Inr m"
proof -
  have keys: "keys_inv d" using assms(1) by (simp add: store_inv_def tables_inv_def)
  have "row \<in> set (db_messages d)" "msg_id row = mid" using get_message_row_SomeD [OF assms(2)] by simp_all
  from reread_change [OF keys this, of "tombstone_row t"] show ?thesis
    using assms(5) unfolding reread_after_audit [OF assms(4)] tombstone_change [OF assms(3)] by simp
qed

lemma tombstone_decoded:
  assumes "message_from_row (tombstone_row t row) = Inr m"
  shows "msg_content m = [] \<and> msg_metadata m = [] \<and> msg_attachments m = [] \<and>
    msg_mentioned_subjects m = [] \<and> msg_reactions m = [] \<and> msg_pinned_at m = None"
proof -
  have M: "Message ((message.truncate (tombstone_row t row))\<lparr>msg_reactions := [], msg_attachments := []\<rparr>) = Inr m"
    using assms by (auto simp: message_from_row_Inr tombstone_row_def)
  have "msg_metadata m = []"
    using Message_fields(14) [OF M]
    by (simp add: tombstone_row_def message.defs metadata_field_def strip_metadata_def
        validate_message_metadata_Inr)
  then show ?thesis using Message_fields [OF M] by (simp add: tombstone_row_def message.defs)
qed

lemma get_message_row_unique:
  assumes "tables_inv d" and "m \<in> set (db_messages d)"
  shows "get_message_row d (msg_room_id m) (msg_id m) = Some m"
  unfolding get_message_row_def by (rule find_unique) (use assms message_unique in auto)

lemma delete_message_tombstone:
  assumes inv: "store_inv cfg d" and run: "delete_message_sync cfg e rid mid actor adm subj d = Inr ((m, c), d')"
  obtains row where "get_message_row d' rid mid = Some row" "adm \<or> msg_sender row = actor"
    "msg_deleted_at row \<noteq> None" "message_from_row row = Inr m"
  using run
proof (cases rule: delete_message_cases)
  case (already row)
  then show ?thesis using that by simp
next
  case (deleted row d1 d2)
  let ?row = "tombstone_row (now_op e) row"
  have r: "row \<in> set (db_messages d)" "msg_id row = mid" "msg_room_id row = rid"
    using get_message_row_SomeD [OF deleted(1)] by simp_all
  have "?row \<in> set (db_messages d1)"
    unfolding tombstone_change [OF deleted(5)] in_change_message using r(1,2) by auto
  then have "?row \<in> set (db_messages d')"
    using insert_webhook_tables [OF deleted(8)] insert_audit_rooms [OF deleted(6)]
    by (simp add: scrub_message_webhooks_def)
  moreover have "tables_inv d'" using delete_message_inv [OF run inv] by (simp add: store_inv_def)
  ultimately have "get_message_row d' rid mid = Some ?row"
    using get_message_row_unique [of d' ?row] r by (simp add: tombstone_row_def)
  then show ?thesis
    using that [of ?row] deleted(2) deleted_message_decoded [OF inv deleted(1,5-7)] by (simp add: tombstone_row_def)
qed

lemma run_retention_sync_inv:
  assumes run: "run_retention_sync cfg e cutoff actor d = Inr (n, d')" and inv: "store_inv cfg d"
  shows "store_inv cfg d'"
proof -
  have "store_inv cfg (snd (delete_messages_with_webhook_scrub (expired cutoff d) d))"
    using inv delete_batch_core [OF _ expired_subset] delete_batch_caps unfolding store_inv_core by blast
  then show ?thesis using run
    by (auto simp: run_retention_sync_def Let_def split: prod.splits dest: insert_audit_inv(5))
qed

lemma run_retention_inv:
  "run_retention cfg e actor d = Inr (n, d') \<Longrightarrow> store_inv cfg d \<Longrightarrow> store_inv cfg d'"
  by (auto simp: run_retention_def Let_def split: option.splits dest: run_retention_sync_inv)

end
