(* ===== verification/Store_Reactions.thy ===== *)
theory Store_Reactions
  imports Store_Messages
begin

section \<open>Reactions and pins (store.py)\<close>

text \<open>
  The two idempotent toggles on a live message: one actor's reaction key, kept in its own table with
  the grouped summary copied into the message row, and the room-wide pin.
\<close>

text \<open>The column checks of \<open>message_reactions\<close>; the key check is the reaction key pattern.\<close>

definition reaction_checks :: "reaction_row \<Rightarrow> bool" where
  "reaction_checks x \<longleftrightarrow> 1 \<le> length (rx_reactor x) \<and> length (rx_reactor x) \<le> 64 \<and>
     REACTION_KEY_PATTERN (rx_key x)"

definition has_reaction :: "db \<Rightarrow> pystr \<Rightarrow> pystr \<Rightarrow> pystr \<Rightarrow> bool" where
  "has_reaction d message_id reactor key =
     list_ex (\<lambda>x. reaction_ident x = (message_id, reactor, key)) (db_reactions d)"

text \<open>The change of the reaction table, with the flag \<open>changed\<close>.\<close>

definition toggle_reaction ::
  "timestamp \<Rightarrow> pystr \<Rightarrow> pystr \<Rightarrow> pystr \<Rightarrow> pystr \<Rightarrow> bool \<Rightarrow> db \<Rightarrow> store_error + bool \<times> db" where
  "toggle_reaction now room_id message_id reactor key present d =
     (let row = \<lparr>rx_message_id = message_id, rx_room_id = room_id, rx_reactor = reactor, rx_key = key,
            rx_created_at = now\<rparr> in
      if present \<and> \<not> has_reaction d message_id reactor key
      then (if key \<notin> set (reaction_keys (db_reactions d) message_id) \<and>
              20 \<le> length (reaction_keys (db_reactions d) message_id)
            then Inl (ReactionCapacityError message_id)
            else if \<not> reaction_checks row then Inl IntegrityError
            else Inr (True, d\<lparr>db_reactions := db_reactions d @ [row]\<rparr>))
      else if \<not> present \<and> has_reaction d message_id reactor key
      then Inr (True, d\<lparr>db_reactions :=
        filter (\<lambda>x. reaction_ident x \<noteq> (message_id, reactor, key)) (db_reactions d)\<rparr>)
      else Inr (False, d))"

definition set_summaries :: "reaction_summary list \<Rightarrow> message_row \<Rightarrow> message_row" where
  "set_summaries summaries m = m\<lparr>msg_reactions := summaries\<rparr>"

definition refresh_summaries :: "pystr \<Rightarrow> db \<Rightarrow> store_error + db" where
  "refresh_summaries message_id d =
     res_bind (model_error (res_all ReactionSummary (reaction_summaries (db_reactions d) message_id)))
       (\<lambda>summaries. update_message_row message_id (set_summaries summaries) d)"

definition ReactionMutation ::
  "message \<Rightarrow> pystr \<Rightarrow> pystr \<Rightarrow> bool \<Rightarrow> bool \<Rightarrow> timestamp \<Rightarrow> string + reaction_mutation" where
  "ReactionMutation m key reactor present changed updated_at =
     res_bind (str_field 1 30 key) (\<lambda>key.
     res_bind (check (REACTION_KEY_PATTERN key) ''constraint'') (\<lambda>_.
     res_bind (str_field 1 64 reactor) (\<lambda>reactor.
     Inr \<lparr>rm_message = m, rm_key = key, rm_reactor = reactor, rm_present = present,
          rm_changed = changed, rm_updated_at = updated_at\<rparr>)))"

definition set_message_reaction_sync ::
  "store_config \<Rightarrow> env \<Rightarrow> pystr \<Rightarrow> pystr \<Rightarrow> pystr \<Rightarrow> pystr \<Rightarrow> bool \<Rightarrow> bool \<Rightarrow> pystr option \<Rightarrow> db \<Rightarrow>
   store_error + reaction_mutation \<times> db" where
  "set_message_reaction_sync cfg e room_id message_id reactor key present allow_frozen member_subject d =
     res_bind (room_write_gate e room_id False allow_frozen member_subject d) (\<lambda>_.
     case get_message_row d room_id message_id of
       None \<Rightarrow> Inl (MessageNotFoundError message_id)
     | Some row \<Rightarrow>
         (if msg_deleted_at row \<noteq> None then Inl (MessageDeletedError message_id)
          else
            res_bind (toggle_reaction (now_op e) room_id message_id reactor key present d) (\<lambda>(changed, d1).
            if changed then
              res_bind (refresh_summaries message_id d1) (\<lambda>d2.
              res_bind (reread_message message_id d2) (\<lambda>m.
              res_bind (model_error (ReactionMutation m key reactor present True (now_op e))) (\<lambda>mutation.
              res_bind (insert_webhook cfg (uuid_webhook e) ''message.reaction.updated'' room_id message_id
                (now_op e) (ReactionData mutation) d2) (\<lambda>d3.
              Inr (mutation, d3)))))
            else
              res_bind (message_from_row row) (\<lambda>m.
              res_bind (model_error (ReactionMutation m key reactor present False (now_op e))) (\<lambda>mutation.
              Inr (mutation, d))))))"

definition pin_row :: "timestamp \<Rightarrow> pystr \<Rightarrow> bool \<Rightarrow> message_row \<Rightarrow> message_row" where
  "pin_row now pinner pinned m = m\<lparr>msg_pinned_at := (if pinned then Some now else None),
     msg_pinned_by := (if pinned then Some pinner else None)\<rparr>"

definition PinMutation :: "message \<Rightarrow> pystr \<Rightarrow> bool \<Rightarrow> bool \<Rightarrow> timestamp \<Rightarrow> string + pin_mutation" where
  "PinMutation m pinner pinned changed updated_at =
     res_bind (str_field 1 64 pinner) (\<lambda>pinner.
     Inr \<lparr>pm_message = m, pm_pinner = pinner, pm_pinned = pinned, pm_changed = changed,
          pm_updated_at = updated_at\<rparr>)"

definition set_message_pin_sync ::
  "store_config \<Rightarrow> env \<Rightarrow> pystr \<Rightarrow> pystr \<Rightarrow> pystr \<Rightarrow> pystr \<Rightarrow> bool \<Rightarrow> bool \<Rightarrow> pystr option \<Rightarrow> db \<Rightarrow>
   store_error + pin_mutation \<times> db" where
  "set_message_pin_sync cfg e room_id message_id pinner actor pinned allow_frozen member_subject d =
     res_bind (room_write_gate e room_id False allow_frozen member_subject d) (\<lambda>_.
     case get_message_row d room_id message_id of
       None \<Rightarrow> Inl (MessageNotFoundError message_id)
     | Some row \<Rightarrow>
         (if msg_deleted_at row \<noteq> None then Inl (MessageDeletedError message_id)
          else if (msg_pinned_at row \<noteq> None) \<noteq> pinned then
            res_bind (update_message_row message_id (pin_row (now_op e) pinner pinned) d) (\<lambda>d1.
            res_bind (insert_audit cfg (uuid_audit e) (now_audit e) ''message.pin.updated'' actor
              (Some room_id) [(str ''message_id'', AText message_id), (str ''pinned'', AFlag pinned)] d1) (\<lambda>d2.
            res_bind (reread_message message_id d2) (\<lambda>m.
            res_bind (model_error (PinMutation m pinner pinned True (now_op e))) (\<lambda>mutation.
            res_bind (insert_webhook cfg (uuid_webhook e) ''message.pin.updated'' room_id message_id
              (now_op e) (PinData mutation) d2) (\<lambda>d3.
            Inr (mutation, d3))))))
          else
            res_bind (message_from_row row) (\<lambda>m.
            res_bind (model_error (PinMutation m pinner pinned False (now_op e))) (\<lambda>mutation.
            Inr (mutation, d)))))"

text \<open>What either toggle makes of the reaction table.\<close>

definition reaction_step :: "pystr \<Rightarrow> pystr \<Rightarrow> db \<Rightarrow> reaction_row list \<Rightarrow> bool" where
  "reaction_step rid mid d rs \<longleftrightarrow> distinct (map reaction_ident rs) \<and>
     (\<forall>x\<in>set rs. REACTION_KEY_PATTERN (rx_key x)) \<and>
     (\<forall>other. other \<noteq> mid \<longrightarrow> filter (\<lambda>x. rx_message_id x = other) rs =
        filter (\<lambda>x. rx_message_id x = other) (db_reactions d)) \<and>
     (\<forall>x\<in>set rs. rx_message_id x = mid \<longrightarrow> rx_room_id x = rid) \<and> length (reaction_keys rs mid) \<le> 20"

subsection \<open>Pins keep the invariant\<close>

lemma keeps_identity_pin [simp]: "keeps_identity (pin_row t p b)" "keeps_identity (set_summaries s)"
  by (simp_all add: keeps_identity_def pin_row_def set_summaries_def)

lemma set_message_pin_cases:
  assumes "set_message_pin_sync cfg e rid mid pinner actor pinned af subj d = Inr (mu, d')"
  obtains (same) row m where "get_message_row d rid mid = Some row" "msg_deleted_at row = None"
    "(msg_pinned_at row \<noteq> None) = pinned" "message_from_row row = Inr m"
    "PinMutation m pinner pinned False (now_op e) = Inr mu" "d' = d"
  | (changed) row d1 d2 m where "get_message_row d rid mid = Some row" "msg_deleted_at row = None"
    "(msg_pinned_at row \<noteq> None) \<noteq> pinned"
    "update_message_row mid (pin_row (now_op e) pinner pinned) d = Inr d1"
    "insert_audit cfg (uuid_audit e) (now_audit e) ''message.pin.updated'' actor
       (Some rid) [(str ''message_id'', AText mid), (str ''pinned'', AFlag pinned)] d1 = Inr d2"
    "reread_message mid d2 = Inr m" "PinMutation m pinner pinned True (now_op e) = Inr mu"
    "insert_webhook cfg (uuid_webhook e) ''message.pin.updated'' rid mid (now_op e) (PinData mu) d2 = Inr d'"
proof -
  from assms obtain row where row: "get_message_row d rid mid = Some row" "msg_deleted_at row = None"
    by (auto simp: set_message_pin_sync_def split: option.splits if_splits)
  show thesis
  proof (cases "(msg_pinned_at row \<noteq> None) = pinned")
    case True
    then show ?thesis using assms row by (auto simp: set_message_pin_sync_def intro!: same)
  next
    case False
    then show ?thesis using assms row
      by (auto simp: set_message_pin_sync_def simp del: not_None_eq intro!: changed)
  qed
qed

lemma set_message_pin_inv:
  assumes run: "set_message_pin_sync cfg e rid mid pinner actor pinned af subj d = Inr (mu, d')"
    and inv: "store_inv cfg d"
  shows "store_inv cfg d'"
  using run
proof (cases rule: set_message_pin_cases)
  case (same row m)
  then show ?thesis using inv by simp
next
  case (changed row d1 d2 m)
  let ?f = "pin_row (now_op e) pinner pinned"
  have t: "tables_inv d" using inv by (simp add: store_inv_def)
  then have keys: "keys_inv d" by (simp add: tables_inv_def)
  have d1: "d1 = change_message mid ?f (db_reactions d) d" by (rule update_message_row_change [OF changed(4)])
  have r: "row \<in> set (db_messages d)" "msg_id row = mid" "msg_room_id row = rid"
    using get_message_row_SomeD [OF changed(1)] by simp_all
  have dec: "message_from_row (?f row) = Inr m"
    using changed(6) unfolding reread_after_audit [OF changed(5)] d1
    by (simp add: reread_change [OF keys r(1,2)])
  have leg: "legal_change mid ?f (db_reactions d) d"
    by (rule legal_change_same_reactions [OF t r(1,2)])
      (use dec changed(2) in \<open>simp_all add: pin_row_def\<close>)
  have "private_inv d1" unfolding d1
    by (rule change_message_private) (use inv in \<open>simp_all add: store_inv_def pin_row_def\<close>)
  then have "store_inv cfg d1" using change_message_inv [OF inv leg] by (simp add: d1)
  then have s2: "store_inv cfg d2" by (rule insert_audit_inv(5) [OF changed(5)])
  have "?f row \<in> set (db_messages d2)"
    using insert_audit_rooms [OF changed(5)] r(1,2) by (auto simp: d1 in_change_message)
  then have "body_allowed d2 ''message.pin.updated'' rid mid"
    unfolding body_allowed_def using r changed(2) by (intro bexI [of _ "?f row"]) (simp_all add: pin_row_def)
  then show ?thesis by (intro insert_webhook_inv(5) [OF changed(8) _ s2])
qed

subsection \<open>Reaction summaries\<close>

lemma rs_key_summaries: "map rs_key (reaction_summaries rs mid) = sort (reaction_keys rs mid)"
  by (simp add: reaction_summaries_def o_def)

lemma length_reaction_summaries: "length (reaction_summaries rs mid) = length (reaction_keys rs mid)"
  by (simp add: reaction_summaries_def)

lemma reaction_summary_positive:
  assumes "s \<in> set (reaction_summaries rs mid)"
  shows "1 \<le> rs_count s \<and> (\<exists>x\<in>set rs. rx_message_id x = mid \<and> rx_key x = rs_key s)"
proof -
  obtain k where k: "k \<in> set (reaction_keys rs mid)" "rs_key s = k"
    "rs_count s = length (filter (\<lambda>x. rx_message_id x = mid \<and> rx_key x = k) rs)"
    using assms by (auto simp: reaction_summaries_def)
  then obtain x where x: "x \<in> set rs" "rx_message_id x = mid" "rx_key x = k"
    by (auto simp: reaction_keys_def)
  then have "filter (\<lambda>x. rx_message_id x = mid \<and> rx_key x = k) rs \<noteq> []"
    by (auto simp: filter_empty_conv)
  then have "1 \<le> rs_count s" unfolding k(3) by (simp add: Suc_le_eq)
  moreover have "rx_key x = rs_key s" by (simp only: x(3) k(2))
  ultimately show ?thesis using x(1,2) by blast
qed

lemma summaries_valid:
  assumes "\<forall>x\<in>set rs. REACTION_KEY_PATTERN (rx_key x)"
  shows "res_all ReactionSummary (reaction_summaries rs mid) = Inr (reaction_summaries rs mid)"
proof (rule res_all_id, rule ReactionSummary_id)
  fix s assume "s \<in> set (reaction_summaries rs mid)"
  from reaction_summary_positive [OF this] show "1 \<le> rs_count s" "REACTION_KEY_PATTERN (rs_key s)"
    using assms by auto
qed

lemma toggle_reaction_cases:
  assumes "toggle_reaction now rid mid reactor key present d = Inr (changed, d1)"
  obtains (add) "present" "\<not> has_reaction d mid reactor key" "changed"
    "reaction_checks \<lparr>rx_message_id = mid, rx_room_id = rid, rx_reactor = reactor, rx_key = key,
       rx_created_at = now\<rparr>"
    "key \<in> set (reaction_keys (db_reactions d) mid) \<or> length (reaction_keys (db_reactions d) mid) < 20"
    "d1 = d\<lparr>db_reactions := db_reactions d @ [\<lparr>rx_message_id = mid, rx_room_id = rid,
       rx_reactor = reactor, rx_key = key, rx_created_at = now\<rparr>]\<rparr>"
  | (remove) "\<not> present" "has_reaction d mid reactor key" "changed"
    "d1 = d\<lparr>db_reactions := filter (\<lambda>x. reaction_ident x \<noteq> (mid, reactor, key)) (db_reactions d)\<rparr>"
  | (same) "present = has_reaction d mid reactor key" "\<not> changed" "d1 = d"
proof (cases "present = has_reaction d mid reactor key")
  case True
  then have "toggle_reaction now rid mid reactor key present d = Inr (False, d)"
    by (simp add: toggle_reaction_def Let_def)
  then show ?thesis using assms True by (intro same) simp_all
next
  case False
  show ?thesis
  proof (cases present)
    case True
    with assms False add show ?thesis by (simp add: toggle_reaction_def Let_def not_le split: if_splits)
  next
    case absent: False
    with assms False remove show ?thesis by (simp add: toggle_reaction_def Let_def split: if_splits)
  qed
qed

lemma length_reaction_keys: "length (reaction_keys rs mid) = card (set (reaction_keys rs mid))"
  by (simp add: reaction_keys_def length_remdups_card_conv)

lemma set_reaction_keys: "set (reaction_keys rs mid) = rx_key ` {x \<in> set rs. rx_message_id x = mid}"
  by (auto simp: reaction_keys_def)

lemma reaction_keys_mono:
  "set rs \<subseteq> set ss \<Longrightarrow> length (reaction_keys rs mid) \<le> length (reaction_keys ss mid)"
  unfolding length_reaction_keys by (rule card_mono) (auto simp: set_reaction_keys)

lemma length_reaction_keys_add:
  "length (reaction_keys (rs @ [x]) (rx_message_id x)) =
     (if rx_key x \<in> set (reaction_keys rs (rx_message_id x)) then 0 else 1) +
     length (reaction_keys rs (rx_message_id x))"
proof -
  have "set (reaction_keys (rs @ [x]) (rx_message_id x)) =
      insert (rx_key x) (set (reaction_keys rs (rx_message_id x)))"
    by (auto simp: set_reaction_keys)
  then show ?thesis unfolding length_reaction_keys by (simp add: insert_absorb)
qed

lemma reactions_of_room:
  assumes "tables_inv d" and "m \<in> set (db_messages d)" "x \<in> set (db_reactions d)" "rx_message_id x = msg_id m"
  shows "rx_room_id x = msg_room_id m"
proof -
  obtain n where "n \<in> set (db_messages d)" "msg_id n = rx_message_id x" "msg_room_id n = rx_room_id x"
    using reactions_inv_message [of d x] assms(1,3) by (auto simp: tables_inv_def)
  then show ?thesis using message_unique [OF assms(1) _ assms(2)] assms(4) by force
qed

lemma reaction_keys_cap:
  assumes "tables_inv d" and "m \<in> set (db_messages d)"
  shows "length (reaction_keys (db_reactions d) (msg_id m)) \<le> 20"
proof -
  have "msg_reactions m = reaction_summaries (db_reactions d) (msg_id m)" "length (msg_reactions m) \<le> 20"
    using assms unfolding tables_inv_def reactions_inv_def by auto
  then show ?thesis using length_reaction_summaries by metis
qed

lemma toggle_reaction_step:
  assumes tog: "toggle_reaction now rid mid reactor key present d = Inr (True, d1)" and inv: "tables_inv d"
    and m: "m \<in> set (db_messages d)" "msg_id m = mid" "msg_room_id m = rid"
  obtains rs where "d1 = d\<lparr>db_reactions := rs\<rparr>" "reaction_step rid mid d rs"
proof -
  have k: "distinct (map reaction_ident (db_reactions d))"
    "\<forall>x\<in>set (db_reactions d). REACTION_KEY_PATTERN (rx_key x)"
    using inv by (simp_all add: tables_inv_def keys_inv_def)
  have room: "rx_room_id x = rid" if "x \<in> set (db_reactions d)" "rx_message_id x = mid" for x
    using reactions_of_room [OF inv m(1) that(1)] that(2) m by simp
  have cap: "length (reaction_keys (db_reactions d) mid) \<le> 20" using reaction_keys_cap [OF inv m(1)] m(2) by simp
  show thesis using tog
  proof (cases rule: toggle_reaction_cases)
    case add
    let ?x = "\<lparr>rx_message_id = mid, rx_room_id = rid, rx_reactor = reactor, rx_key = key, rx_created_at = now\<rparr>"
    have "reaction_ident ?x \<notin> reaction_ident ` set (db_reactions d)"
      using add(2) by (auto simp: has_reaction_def list_ex_iff reaction_ident_def)
    moreover have "length (reaction_keys (db_reactions d @ [?x]) mid) \<le> 20"
      using length_reaction_keys_add [of "db_reactions d" ?x] add(5) cap by (auto split: if_splits)
    moreover have "REACTION_KEY_PATTERN key" using add(4) by (simp add: reaction_checks_def)
    ultimately have "reaction_step rid mid d (db_reactions d @ [?x])"
      using k room unfolding reaction_step_def by auto
    then show ?thesis using add(6) that by blast
  next
    case remove
    let ?rs = "filter (\<lambda>x. reaction_ident x \<noteq> (mid, reactor, key)) (db_reactions d)"
    have "length (reaction_keys ?rs mid) \<le> 20"
      using reaction_keys_mono [of ?rs "db_reactions d" mid] cap by auto
    moreover have "filter (\<lambda>x. rx_message_id x = other) ?rs = filter (\<lambda>x. rx_message_id x = other) (db_reactions d)"
      if "other \<noteq> mid" for other
      using that by (auto simp: reaction_ident_def intro!: filter_cong)
    ultimately have "reaction_step rid mid d ?rs"
      using k room unfolding reaction_step_def by (simp add: distinct_map_filter_key)
    then show ?thesis using remove(4) that by blast
  next
    case same
    then show ?thesis by simp
  qed
qed

lemma refresh_summaries_change:
  assumes "refresh_summaries mid (d\<lparr>db_reactions := rs\<rparr>) = Inr d2" and "reaction_step rid mid d rs"
  shows "d2 = change_message mid (set_summaries (reaction_summaries rs mid)) rs d"
proof -
  have "res_all ReactionSummary (reaction_summaries rs mid) = Inr (reaction_summaries rs mid)"
    using assms(2) by (intro summaries_valid) (simp add: reaction_step_def)
  then have "update_message_row mid (set_summaries (reaction_summaries rs mid)) (d\<lparr>db_reactions := rs\<rparr>) = Inr d2"
    using assms(1) by (simp add: refresh_summaries_def)
  from update_message_row_change [OF this] show ?thesis by (simp add: change_message_def)
qed

lemma legal_reaction_step:
  assumes inv: "tables_inv d" and m: "m \<in> set (db_messages d)" "msg_id m = mid" "msg_room_id m = rid"
    and live: "msg_deleted_at m = None" and step: "reaction_step rid mid d rs"
    and ok: "is_ok (message_from_row (set_summaries (reaction_summaries rs mid) m))"
  shows "legal_change mid (set_summaries (reaction_summaries rs mid)) rs d"
proof -
  let ?f = "set_summaries (reaction_summaries rs mid)"
  have uniq: "n = m" if "n \<in> set (db_messages d)" "msg_id n = mid" for n
    using message_unique [OF inv that(1) m(1)] that(2) m(2) by simp
  have "row_ok (?f m)" using ok live id_clean [OF inv m(1)] by (simp add: row_ok_def set_summaries_def)
  moreover have "msg_deleted_at (?f m) = None" "\<And>n. msg_reactions (?f n) = reaction_summaries rs mid"
    using live by (simp_all add: set_summaries_def)
  moreover have "length (reaction_summaries rs mid) \<le> 20"
    using step by (simp add: reaction_step_def length_reaction_summaries)
  moreover have "\<exists>n\<in>set (db_messages d). msg_id n = mid \<and> msg_room_id n = rx_room_id x \<and>
      msg_deleted_at (?f n) = None" if "x \<in> set rs" "rx_message_id x = mid" for x
    using m step that live by (intro bexI [of _ m]) (auto simp: reaction_step_def set_summaries_def)
  ultimately show ?thesis
    using step uniq unfolding legal_change_def reaction_step_def by auto
qed

lemma set_message_reaction_cases:
  assumes "set_message_reaction_sync cfg e rid mid reactor key present af subj d = Inr (mu, d')"
  obtains (same) row m where "get_message_row d rid mid = Some row" "msg_deleted_at row = None"
    "toggle_reaction (now_op e) rid mid reactor key present d = Inr (False, d)"
    "message_from_row row = Inr m"
    "ReactionMutation m key reactor present False (now_op e) = Inr mu" "d' = d"
  | (changed) row d1 d2 m where "get_message_row d rid mid = Some row" "msg_deleted_at row = None"
    "toggle_reaction (now_op e) rid mid reactor key present d = Inr (True, d1)"
    "refresh_summaries mid d1 = Inr d2" "reread_message mid d2 = Inr m"
    "ReactionMutation m key reactor present True (now_op e) = Inr mu"
    "insert_webhook cfg (uuid_webhook e) ''message.reaction.updated'' rid mid (now_op e)
       (ReactionData mu) d2 = Inr d'"
proof -
  from assms obtain row c d1 where row: "get_message_row d rid mid = Some row" "msg_deleted_at row = None"
    "toggle_reaction (now_op e) rid mid reactor key present d = Inr (c, d1)"
    by (auto simp: set_message_reaction_sync_def split: option.splits if_splits)
  show thesis
  proof (cases c)
    case True
    then show ?thesis using assms row by (auto simp: set_message_reaction_sync_def intro!: changed)
  next
    case False
    then have "d1 = d" using row(3) by (auto elim: toggle_reaction_cases)
    then show ?thesis using assms row False by (auto simp: set_message_reaction_sync_def intro!: same)
  qed
qed

lemma reaction_change:
  assumes inv: "store_inv cfg d" and row: "get_message_row d rid mid = Some row" "msg_deleted_at row = None"
    and tog: "toggle_reaction now rid mid reactor key present d = Inr (True, d1)"
    and ref: "refresh_summaries mid d1 = Inr d2" and rr: "reread_message mid d2 = Inr m"
  obtains rs where "d1 = d\<lparr>db_reactions := rs\<rparr>"
    "d2 = change_message mid (set_summaries (reaction_summaries rs mid)) rs d"
    "legal_change mid (set_summaries (reaction_summaries rs mid)) rs d"
    "message_from_row (set_summaries (reaction_summaries rs mid) row) = Inr m"
proof -
  have t: "tables_inv d" using inv by (simp add: store_inv_def)
  then have keys: "keys_inv d" by (simp add: tables_inv_def)
  have r: "row \<in> set (db_messages d)" "msg_id row = mid" "msg_room_id row = rid"
    using get_message_row_SomeD [OF row(1)] by simp_all
  obtain rs where rs: "d1 = d\<lparr>db_reactions := rs\<rparr>" "reaction_step rid mid d rs"
    by (rule toggle_reaction_step [OF tog t r])
  have d2: "d2 = change_message mid (set_summaries (reaction_summaries rs mid)) rs d"
    by (rule refresh_summaries_change [OF ref [unfolded rs(1)] rs(2)])
  have dec: "message_from_row (set_summaries (reaction_summaries rs mid) row) = Inr m"
    using rr unfolding d2 by (simp add: reread_change [OF keys r(1,2)])
  have "legal_change mid (set_summaries (reaction_summaries rs mid)) rs d"
    by (rule legal_reaction_step [OF t r row(2) rs(2)]) (simp add: dec)
  then show thesis using rs(1) d2 dec that by blast
qed

lemma set_message_reaction_inv:
  assumes run: "set_message_reaction_sync cfg e rid mid reactor key present af subj d = Inr (mu, d')"
    and inv: "store_inv cfg d"
  shows "store_inv cfg d'"
  using run
proof (cases rule: set_message_reaction_cases)
  case (same row m)
  then show ?thesis using inv by simp
next
  case (changed row d1 d2 m)
  obtain rs where d2: "d2 = change_message mid (set_summaries (reaction_summaries rs mid)) rs d"
    and leg: "legal_change mid (set_summaries (reaction_summaries rs mid)) rs d"
    by (rule reaction_change [OF inv changed(1-5)])
  have r: "row \<in> set (db_messages d)" "msg_id row = mid" "msg_room_id row = rid"
    using get_message_row_SomeD [OF changed(1)] by simp_all
  have "private_inv d2" unfolding d2
    by (rule change_message_private) (use inv in \<open>simp_all add: store_inv_def set_summaries_def\<close>)
  then have s2: "store_inv cfg d2" using change_message_inv [OF inv leg] by (simp add: d2)
  have "set_summaries (reaction_summaries rs mid) row \<in> set (db_messages d2)"
    using r(1,2) by (auto simp: d2 in_change_message)
  then have "body_allowed d2 ''message.reaction.updated'' rid mid"
    unfolding body_allowed_def using r changed(2)
    by (intro bexI [of _ "set_summaries (reaction_summaries rs mid) row"]) (simp_all add: set_summaries_def)
  then show ?thesis by (intro insert_webhook_inv(5) [OF changed(7) _ s2])
qed

subsection \<open>Counts\<close>

lemma reaction_count_card:
  assumes "distinct (map reaction_ident (db_reactions d))"
  shows "length (filter (\<lambda>x. rx_message_id x = mid \<and> rx_key x = k) (db_reactions d)) =
    card {r. has_reaction d mid r k}"
proof -
  let ?xs = "filter (\<lambda>x. rx_message_id x = mid \<and> rx_key x = k) (db_reactions d)"
  have "distinct (map rx_reactor ?xs)"
    using distinct_map_filter_key [OF assms, of "\<lambda>x. rx_message_id x = mid \<and> rx_key x = k"]
    by (simp add: distinct_map inj_on_def reaction_ident_def)
  from distinct_card [OF this] have "length ?xs = card (set (map rx_reactor ?xs))" by simp
  also have "set (map rx_reactor ?xs) = {r. has_reaction d mid r k}"
    unfolding has_reaction_def list_ex_iff reaction_ident_def set_map set_filter prod.inject by blast
  finally show ?thesis .
qed

end
