(* ===== verification/Store_Reads.thy ===== *)
theory Store_Reads
  imports Store_Messages
begin

section \<open>Read cursors, unread counts and receipts (store.py)\<close>

text \<open>
  A signed subject's cursor in a room is the \<open>(created_at, id)\<close> key of a message, or of an empty
  room at a moment; it only moves forward. Unread counts and receipts are derived from it.
  SQLite's \<open>julianday\<close>, used by one query to compare a ban with the current time, is a parameter.
\<close>

record read_state =
  rst_room_id :: pystr
  rst_subject :: pystr
  rst_last_read_message_id :: "pystr option"
  rst_last_read_at :: "timestamp option"
  rst_unread_count :: nat

record read_state_mutation =
  rsm_state :: read_state
  rsm_receipt :: read_receipt
  rsm_changed :: bool

definition read_cursor :: "read_row \<Rightarrow> timestamp \<times> pystr" where
  "read_cursor s = (rd_message_created_at s, case rd_message_id s of None \<Rightarrow> [] | Some i \<Rightarrow> i)"

text \<open>Live messages of other authors in a room, and those after a cursor.\<close>

definition countable_message :: "pystr \<Rightarrow> pystr \<Rightarrow> message_row \<Rightarrow> bool" where
  "countable_message room_id subject m \<longleftrightarrow> msg_room_id m = room_id \<and> msg_deleted_at m = None \<and>
     (case msg_author_subject m of None \<Rightarrow> True | Some a \<Rightarrow> a \<noteq> subject)"

definition unread_count :: "db \<Rightarrow> pystr \<Rightarrow> pystr \<Rightarrow> read_row option \<Rightarrow> nat" where
  "unread_count d room_id subject row =
     length (filter (\<lambda>m. countable_message room_id subject m \<and>
       (case row of None \<Rightarrow> True | Some s \<Rightarrow> read_cursor s < message_key m)) (db_messages d))"

definition read_state_from_connection :: "db \<Rightarrow> pystr \<Rightarrow> pystr \<Rightarrow> read_state" where
  "read_state_from_connection d room_id subject =
     (let row = get_read_row d room_id subject in
      \<lparr>rst_room_id = py_strip room_id, rst_subject = py_strip subject,
       rst_last_read_message_id = (case row of None \<Rightarrow> None | Some s \<Rightarrow> map_option py_strip (rd_message_id s)),
       rst_last_read_at = (case row of None \<Rightarrow> None | Some s \<Rightarrow> Some (rd_updated_at s)),
       rst_unread_count = unread_count d room_id subject row\<rparr>)"

definition get_read_state_sync :: "pystr \<Rightarrow> pystr \<Rightarrow> db \<Rightarrow> store_error + read_state" where
  "get_read_state_sync room_id subject d =
     (if get_room_row d room_id = None then Inl (RoomNotFoundError room_id)
      else Inr (read_state_from_connection d room_id subject))"

definition latest_message :: "(message_row \<Rightarrow> bool) \<Rightarrow> db \<Rightarrow> message_row option" where
  "latest_message P d = (case order_by_desc message_key (filter P (db_messages d)) of
     [] \<Rightarrow> None | m # _ \<Rightarrow> Some m)"

subsection \<open>Queries\<close>

definition active_ban :: "(timestamp \<Rightarrow> int) \<Rightarrow> timestamp \<Rightarrow> db \<Rightarrow> pystr \<Rightarrow> pystr \<Rightarrow> bool" where
  "active_ban julianday now d room_id subject = (case get_control_row d room_id subject of
     None \<Rightarrow> False
   | Some c \<Rightarrow> (case mod_banned_until c of None \<Rightarrow> False | Some t \<Rightarrow> julianday now < julianday t))"

definition read_state_summary_of ::
  "(timestamp \<Rightarrow> int) \<Rightarrow> timestamp \<Rightarrow> pystr \<Rightarrow> db \<Rightarrow> pystr \<Rightarrow> store_error + read_state_summary" where
  "read_state_summary_of julianday now subject d room_id =
     (let row = get_read_row d room_id subject;
          latest = latest_message (\<lambda>m. msg_room_id m = room_id \<and> msg_deleted_at m = None) d
      in if get_room_row d room_id = None then Inl (RoomNotFoundError room_id)
         else if active_ban julianday now d room_id subject then Inl (MemberBannedError subject)
         else model_error (require_complete_latest_message
           \<lparr>sum_room_id = py_strip room_id,
            sum_last_read_message_id = (case row of None \<Rightarrow> None | Some s \<Rightarrow> map_option py_strip (rd_message_id s)),
            sum_last_read_at = (case row of None \<Rightarrow> None | Some s \<Rightarrow> Some (rd_updated_at s)),
            sum_unread_count = unread_count d room_id subject row,
            sum_latest_message_id = map_option (\<lambda>m. py_strip (msg_id m)) latest,
            sum_latest_message_at = map_option msg_created_at latest\<rparr>))"

definition query_read_states_sync ::
  "(timestamp \<Rightarrow> int) \<Rightarrow> timestamp \<Rightarrow> pystr list \<Rightarrow> pystr \<Rightarrow> db \<Rightarrow> store_error + read_state_summary list" where
  "query_read_states_sync julianday now room_ids subject d =
     res_all (read_state_summary_of julianday now subject d) room_ids"

definition query_read_states ::
  "(timestamp \<Rightarrow> int) \<Rightarrow> timestamp \<Rightarrow> pystr list \<Rightarrow> pystr \<Rightarrow> db \<Rightarrow> store_error + read_state_summary list" where
  "query_read_states julianday now room_ids subject d =
     res_bind (case validate_read_state_query_room_ids room_ids of
        Inl e \<Rightarrow> Inl (ArgumentError e) | Inr v \<Rightarrow> Inr v)
       (\<lambda>validated. query_read_states_sync julianday now validated subject d)"

definition receipt_of :: "db \<Rightarrow> pystr \<Rightarrow> pystr \<Rightarrow> store_error + read_receipt" where
  "receipt_of d room_id subject = (let row = get_read_row d room_id subject in
     model_error (ReadReceipt \<lparr>rr_subject = subject,
       rr_last_read_message_id = (case row of None \<Rightarrow> None | Some s \<Rightarrow> rd_message_id s),
       rr_last_read_message_at = (case row of None \<Rightarrow> None
         | Some s \<Rightarrow> (case rd_message_id s of None \<Rightarrow> None | Some _ \<Rightarrow> Some (rd_message_created_at s))),
       rr_last_read_at = (case row of None \<Rightarrow> None | Some s \<Rightarrow> Some (rd_updated_at s))\<rparr>))"

definition query_read_receipts_sync ::
  "pystr \<Rightarrow> pystr list \<Rightarrow> db \<Rightarrow> store_error + read_receipt list" where
  "query_read_receipts_sync room_id subjects d =
     (if get_room_row d room_id = None then Inl (RoomNotFoundError room_id)
      else res_all (receipt_of d room_id) subjects)"

subsection \<open>Moving and clearing the cursor\<close>

definition mark_target :: "pystr \<Rightarrow> pystr option \<Rightarrow> db \<Rightarrow> store_error + message_row option" where
  "mark_target room_id message_id d = (case message_id of
     None \<Rightarrow> Inr (latest_message (\<lambda>m. msg_room_id m = room_id) d)
   | Some i \<Rightarrow> (case get_message_row d room_id i of
       None \<Rightarrow> Inl (MessageNotFoundError i) | Some m \<Rightarrow> Inr (Some m)))"

definition read_candidate :: "timestamp \<Rightarrow> pystr \<Rightarrow> pystr \<Rightarrow> message_row option \<Rightarrow> read_row" where
  "read_candidate now room_id subject message_row =
     \<lparr>rd_room_id = room_id, rd_subject = subject, rd_message_id = map_option msg_id message_row,
      rd_message_created_at = (case message_row of Some m \<Rightarrow> msg_created_at m | None \<Rightarrow> now),
      rd_updated_at = now\<rparr>"

definition advances :: "read_row option \<Rightarrow> read_row \<Rightarrow> bool" where
  "advances existing candidate =
     (case existing of None \<Rightarrow> True | Some s \<Rightarrow> read_cursor s < read_cursor candidate)"

definition store_cursor :: "read_row \<Rightarrow> db \<Rightarrow> db" where
  "store_cursor candidate d =
     d\<lparr>db_reads := upsert (\<lambda>s. (rd_room_id s, rd_subject s)) candidate (db_reads d)\<rparr>"

definition mark_read_sync ::
  "store_config \<Rightarrow> env \<Rightarrow> pystr \<Rightarrow> pystr \<Rightarrow> pystr option \<Rightarrow> db \<Rightarrow>
   store_error + read_state_mutation \<times> db" where
  "mark_read_sync cfg e room_id subject message_id d =
     (if get_room_row d room_id = None then Inl (RoomNotFoundError room_id)
      else res_bind (mark_target room_id message_id d) (\<lambda>message_row.
       (let candidate = read_candidate (now_op e) room_id subject message_row;
            existing = get_read_row d room_id subject
        in if existing = None \<and>
             max_read_states_per_room cfg \<le> length (filter (\<lambda>s. rd_room_id s = room_id) (db_reads d))
           then Inl (ReadStateCapacityError room_id)
           else
            (let changed = advances existing candidate;
                 d1 = (if changed then store_cursor candidate d else d);
                 state = read_state_from_connection d1 room_id subject;
                 receipt_created_at = (if changed then rd_message_created_at candidate
                   else (case existing of Some s \<Rightarrow> rd_message_created_at s
                     | None \<Rightarrow> rd_message_created_at candidate))
             in res_bind (model_error (ReadReceipt \<lparr>rr_subject = subject,
                    rr_last_read_message_id = rst_last_read_message_id state,
                    rr_last_read_message_at = (if rst_last_read_message_id state \<noteq> None
                      then Some receipt_created_at else None),
                    rr_last_read_at = rst_last_read_at state\<rparr>)) (\<lambda>receipt.
                  Inr (\<lparr>rsm_state = state, rsm_receipt = receipt, rsm_changed = changed\<rparr>, d1))))))"

definition clear_read_state_sync :: "pystr \<Rightarrow> pystr \<Rightarrow> db \<Rightarrow> store_error + bool \<times> db" where
  "clear_read_state_sync room_id subject d =
     (if get_room_row d room_id = None then Inl (RoomNotFoundError room_id)
      else Inr (list_ex (\<lambda>s. rd_room_id s = room_id \<and> rd_subject s = subject) (db_reads d),
        d\<lparr>db_reads := filter (\<lambda>s. \<not> (rd_room_id s = room_id \<and> rd_subject s = subject)) (db_reads d)\<rparr>))"

subsection \<open>Preservation\<close>

lemma store_inv_reads:
  assumes "store_inv cfg d" and "distinct (map (\<lambda>s. (rd_room_id s, rd_subject s)) ss)"
    and "\<And>s. s \<in> set ss \<Longrightarrow> has_room d (rd_room_id s)"
    and "\<And>r. length (filter (\<lambda>s. rd_room_id s = r) ss) \<le> max_read_states_per_room cfg"
  shows "store_inv cfg (d\<lparr>db_reads := ss\<rparr>)"
  using assms by (simp add: store_inv_def tables_inv_reads caps_inv_def room_messages_def)

lemma get_read_row_upsert:
  "rd_room_id s = rid \<Longrightarrow> rd_subject s = subj \<Longrightarrow>
     get_read_row (d\<lparr>db_reads := upsert (\<lambda>s. (rd_room_id s, rd_subject s)) s (db_reads d)\<rparr>) r u =
       (if (r, u) = (rid, subj) then Some s else get_read_row d r u)"
  using find_upsert [where key = "\<lambda>s. (rd_room_id s, rd_subject s)" and k = "(r, u)" and row = s
      and rows = "db_reads d"]
  by (auto simp: get_read_row_def)

lemma length_filter_upsert:
  assumes "\<And>r. key r = key row \<Longrightarrow> Q r = Q row"
  shows "length (filter Q (upsert key row rows)) =
    length (filter Q rows) + (if key row \<notin> key ` set rows \<and> Q row then 1 else 0)"
proof (cases "key row \<in> key ` set rows")
  case True
  then have "upsert key row rows = update_where (\<lambda>r. key r = key row) (\<lambda>_. row) rows"
    by (simp add: upsert_def list_ex_key)
  moreover have "filter Q (update_where (\<lambda>r. key r = key row) (\<lambda>_. row) rows) =
      update_where (\<lambda>r. key r = key row) (\<lambda>_. row) (filter Q rows)"
    by (rule filter_update_where) (erule assms [symmetric])
  ultimately show ?thesis using True by simp
next
  case False
  then show ?thesis by (simp add: upsert_def list_ex_key)
qed

lemma mark_read_cases:
  assumes "mark_read_sync cfg e rid subj mid d = Inr (mu, d')"
  obtains row where "has_room d rid" "mark_target rid mid d = Inr row"
    "get_read_row d rid subj = None \<Longrightarrow>
       length (filter (\<lambda>s. rd_room_id s = rid) (db_reads d)) < max_read_states_per_room cfg"
    "rsm_changed mu = advances (get_read_row d rid subj) (read_candidate (now_op e) rid subj row)"
    "d' = (if rsm_changed mu then store_cursor (read_candidate (now_op e) rid subj row) d else d)"
    "rsm_state mu = read_state_from_connection d' rid subj"
proof -
  have room: "get_room_row d rid \<noteq> None" using assms by (auto simp: mark_read_sync_def split: if_splits)
  from assms obtain row where row: "mark_target rid mid d = Inr row"
    by (auto simp: mark_read_sync_def split: if_splits)
  have cap: "\<not> (get_read_row d rid subj = None \<and>
      max_read_states_per_room cfg \<le> length (filter (\<lambda>s. rd_room_id s = rid) (db_reads d)))"
    using assms row room by (auto simp: mark_read_sync_def Let_def)
  let ?c = "read_candidate (now_op e) rid subj row"
  have "\<exists>r. (mu, d') = (\<lparr>rsm_state = read_state_from_connection d' rid subj, rsm_receipt = r,
      rsm_changed = advances (get_read_row d rid subj) ?c\<rparr>,
      if advances (get_read_row d rid subj) ?c then store_cursor ?c d else d)"
    using assms unfolding mark_read_sync_def Let_def row res_bind_Inr if_not_P [OF room] if_not_P [OF cap]
      res_bind_eq_Inr by auto
  then show thesis using room row cap that get_room_row_None by (auto simp: not_le)
qed

lemma read_candidate_simps [simp]:
  "rd_room_id (read_candidate now rid subj row) = rid" "rd_subject (read_candidate now rid subj row) = subj"
  "rd_updated_at (read_candidate now rid subj row) = now"
  by (simp_all add: read_candidate_def)

lemma store_cursor_inv:
  assumes inv: "store_inv cfg d" and room: "has_room d (rd_room_id c)"
    and cap: "get_read_row d (rd_room_id c) (rd_subject c) = None \<Longrightarrow>
       length (filter (\<lambda>s. rd_room_id s = rd_room_id c) (db_reads d)) < max_read_states_per_room cfg"
  shows "store_inv cfg (store_cursor c d)"
proof -
  let ?key = "\<lambda>s. (rd_room_id s, rd_subject s)"
  have d: "distinct (map ?key (db_reads d))" "\<And>s. s \<in> set (db_reads d) \<Longrightarrow> has_room d (rd_room_id s)"
    "\<And>r. length (filter (\<lambda>s. rd_room_id s = r) (db_reads d)) \<le> max_read_states_per_room cfg"
    using inv by (auto simp: store_inv_def tables_inv_def keys_inv_def refs_inv_def caps_inv_def)
  have none: "get_read_row d (rd_room_id c) (rd_subject c) = None" if "?key c \<notin> ?key ` set (db_reads d)"
    using that unfolding get_read_row_def find_eq_None by (auto simp: image_iff)
  have "length (filter (\<lambda>s. rd_room_id s = r) (upsert ?key c (db_reads d))) \<le> max_read_states_per_room cfg" for r
    using length_filter_upsert [of ?key c "\<lambda>s. rd_room_id s = r" "db_reads d"] d(3) [of r] cap [OF none]
    by (auto split: if_splits)
  then show ?thesis unfolding store_cursor_def
    by (intro store_inv_reads [OF inv]) (use d room in \<open>auto simp: distinct_upsert set_upsert\<close>)
qed

lemma mark_read_inv:
  assumes run: "mark_read_sync cfg e rid subj mid d = Inr (mu, d')" and inv: "store_inv cfg d"
  shows "store_inv cfg d'"
  using run
proof (cases rule: mark_read_cases)
  case (1 row)
  have "store_inv cfg (store_cursor (read_candidate (now_op e) rid subj row) d)"
    by (rule store_cursor_inv [OF inv]) (use 1 in simp_all)
  then show ?thesis using inv by (simp add: 1(5))
qed

lemma clear_read_state_inv:
  assumes "clear_read_state_sync rid subj d = Inr (r, d')" and inv: "store_inv cfg d"
  shows "store_inv cfg d'"
proof -
  have d: "distinct (map (\<lambda>s. (rd_room_id s, rd_subject s)) (db_reads d))"
    "\<And>s. s \<in> set (db_reads d) \<Longrightarrow> has_room d (rd_room_id s)"
    "\<And>r. length (filter (\<lambda>s. rd_room_id s = r) (db_reads d)) \<le> max_read_states_per_room cfg"
    using inv by (auto simp: store_inv_def tables_inv_def keys_inv_def refs_inv_def caps_inv_def)
  have "store_inv cfg (d\<lparr>db_reads := filter P (db_reads d)\<rparr>)" for P
    by (rule store_inv_reads [OF inv])
      (use d in \<open>auto simp: distinct_map_filter_key simp del: filter_filter
         intro: order_trans [OF length_filter_less]\<close>)
  then show ?thesis using assms(1) by (auto simp: clear_read_state_sync_def split: if_splits)
qed

subsection \<open>The cursor\<close>

lemma get_read_store_cursor:
  "get_read_row (store_cursor c d) r u =
     (if (r, u) = (rd_room_id c, rd_subject c) then Some c else get_read_row d r u)"
  unfolding store_cursor_def by (rule get_read_row_upsert) simp_all

lemma latest_message_None: "latest_message P d = None \<longleftrightarrow> (\<forall>m\<in>set (db_messages d). \<not> P m)"
proof -
  have "set (order_by_desc message_key (filter P (db_messages d))) = {m \<in> set (db_messages d). P m}" by simp
  then show ?thesis
    by (cases "order_by_desc message_key (filter P (db_messages d))") (auto simp: latest_message_def)
qed

lemma latest_message_Some:
  assumes "latest_message P d = Some l"
  shows "l \<in> set (db_messages d) \<and> P l" and "m \<in> set (db_messages d) \<Longrightarrow> P m \<Longrightarrow> message_key m \<le> message_key l"
proof -
  let ?o = "order_by_desc message_key (filter P (db_messages d))"
  obtain rest where o: "?o = l # rest" using assms by (auto simp: latest_message_def split: list.splits)
  have s: "set ?o = set (filter P (db_messages d))" by simp
  then show "l \<in> set (db_messages d) \<and> P l" unfolding o by auto
  assume "m \<in> set (db_messages d)" "P m"
  then have "m \<in> set ?o" by simp
  moreover have "sorted (map message_key (rev ?o))" by (rule sorted_desc_order_by_desc)
  ultimately show "message_key m \<le> message_key l" unfolding o by (auto simp: sorted_append)
qed

lemma unread_zero:
  assumes "\<And>m. m \<in> set (db_messages d) \<Longrightarrow> msg_room_id m = rid \<Longrightarrow> message_key m \<le> read_cursor s"
  shows "unread_count d rid subj (Some s) = 0"
proof -
  have "filter (\<lambda>m. countable_message rid subj m \<and> read_cursor s < message_key m) (db_messages d) = []"
    using assms by (auto simp: filter_empty_conv countable_message_def not_less)
  then show ?thesis by (simp add: unread_count_def)
qed

lemma read_cursor_candidate:
  "read_cursor (read_candidate now rid subj (Some m)) = message_key m"
  by (simp add: read_cursor_def read_candidate_def message_key_def)

lemma store_cursor_messages [simp]: "db_messages (store_cursor c d) = db_messages d"
  by (simp add: store_cursor_def)

lemma unread_count_store [simp]: "unread_count (store_cursor c d) = unread_count d"
  by (simp add: unread_count_def fun_eq_iff)

end
