(* ===== verification/Store_Pages.thy ===== *)
theory Store_Pages
  imports Store_Messages
begin

section \<open>Cursor-paged listings (store.py)\<close>

text \<open>
  The six listings of the store select at most \<open>limit + 1\<close> rows older than a cursor, newest first,
  and hand out the id of the last row of a full page as the cursor of the next. The locale
  \<open>paged_listing\<close> states that contract once; following the cursors visits every row exactly once.
  The Unicode normalisation of the search (NFKC and case folding) is a parameter.
\<close>

subsection \<open>Pages\<close>

definition paginate_rows :: "('r \<Rightarrow> pystr) \<Rightarrow> 'r list \<Rightarrow> nat \<Rightarrow> bool \<Rightarrow> 'r list \<times> pystr option" where
  "paginate_rows ident rows limit chronological =
     (let page_rows = take limit rows;
          next_before = (if limit < length rows \<and> page_rows \<noteq> [] then Some (ident (last page_rows)) else None)
      in (if chronological then rev page_rows else page_rows, next_before))"

text \<open>\<open>SELECT .. WHERE P AND (cursor IS NULL OR key < cursor) ORDER BY key DESC LIMIT limit + 1\<close>.\<close>

definition select_before :: "('r \<Rightarrow> 'k::linorder) \<Rightarrow> 'k option \<Rightarrow> nat \<Rightarrow> 'r list \<Rightarrow> 'r list" where
  "select_before key cursor limit rows =
     take (limit + 1) (order_by_desc key
       (filter (\<lambda>r. case cursor of None \<Rightarrow> True | Some c \<Rightarrow> key r < c) rows))"

definition message_page ::
  "(message_row \<Rightarrow> 'k::linorder) \<Rightarrow> message_row list \<Rightarrow> nat \<Rightarrow> bool \<Rightarrow> 'k option \<Rightarrow>
   store_error + message list \<times> pystr option" where
  "message_page key rows limit chronological cursor =
     (case paginate_rows msg_id (select_before key cursor limit rows) limit chronological of
        (page_rows, next_before) \<Rightarrow>
          res_bind (res_all message_from_row page_rows) (\<lambda>messages. Inr (messages, next_before)))"

text \<open>The cursor of a \<open>before\<close> argument; an empty string is no cursor.\<close>

definition resolve_cursor ::
  "(pystr \<Rightarrow> 'r option) \<Rightarrow> ('r \<Rightarrow> 'k) \<Rightarrow> (pystr \<Rightarrow> store_error) \<Rightarrow> pystr option \<Rightarrow> store_error + 'k option" where
  "resolve_cursor lookup key err before = (case before of
     None \<Rightarrow> Inr None
   | Some b \<Rightarrow> (if b = [] then Inr None
       else (case lookup b of None \<Rightarrow> Inl (err b) | Some r \<Rightarrow> Inr (Some (key r)))))"

subsection \<open>Message listings\<close>

definition list_messages_sync ::
  "pystr \<Rightarrow> nat \<Rightarrow> pystr option \<Rightarrow> db \<Rightarrow> store_error + message list \<times> pystr option" where
  "list_messages_sync room_id limit before d =
     (if get_room_row d room_id = None then Inl (RoomNotFoundError room_id)
      else res_bind (resolve_cursor (get_message_row d room_id) message_key InvalidCursorError before)
        (message_page message_key (room_messages d room_id) limit True))"

definition pin_key :: "message_row \<Rightarrow> timestamp \<times> pystr" where
  "pin_key m = (case msg_pinned_at m of None \<Rightarrow> 0 | Some t \<Rightarrow> t, msg_id m)"

definition pinned_messages :: "db \<Rightarrow> pystr \<Rightarrow> message_row list" where
  "pinned_messages d room_id = filter (\<lambda>m. msg_pinned_at m \<noteq> None) (room_messages d room_id)"

definition list_pinned_messages_sync ::
  "pystr \<Rightarrow> nat \<Rightarrow> pystr option \<Rightarrow> db \<Rightarrow> store_error + message list \<times> pystr option" where
  "list_pinned_messages_sync room_id limit before d =
     (if get_room_row d room_id = None then Inl (RoomNotFoundError room_id)
      else res_bind (resolve_cursor
          (\<lambda>b. find (\<lambda>m. msg_id m = b) (pinned_messages d room_id)) pin_key InvalidCursorError before)
        (message_page pin_key (pinned_messages d room_id) limit False))"

definition replies :: "db \<Rightarrow> pystr \<Rightarrow> pystr \<Rightarrow> message_row list" where
  "replies d room_id parent = filter (\<lambda>m. msg_parent_message_id m = Some parent) (room_messages d room_id)"

definition list_replies_sync ::
  "pystr \<Rightarrow> pystr \<Rightarrow> nat \<Rightarrow> pystr option \<Rightarrow> db \<Rightarrow> store_error + message list \<times> pystr option" where
  "list_replies_sync room_id parent limit before d =
     (if get_room_row d room_id = None then Inl (RoomNotFoundError room_id)
      else (case get_message_row d room_id parent of
        None \<Rightarrow> Inl (MessageNotFoundError parent)
      | Some p \<Rightarrow>
          (if msg_parent_message_id p \<noteq> None then Inl (ThreadDepthError parent)
           else res_bind (resolve_cursor
               (\<lambda>b. find (\<lambda>m. msg_id m = b) (replies d room_id parent)) message_key InvalidCursorError before)
             (message_page message_key (replies d room_id parent) limit True))))"

definition instr :: "pystr \<Rightarrow> pystr \<Rightarrow> bool" where
  "instr text pattern =
     list_ex (\<lambda>i. take (length pattern) (drop i text) = pattern) [0..<Suc (length text)]"

definition normalize_search_query :: "(pystr \<Rightarrow> pystr) \<Rightarrow> pystr \<Rightarrow> store_error + pystr" where
  "normalize_search_query nfkc_casefold query =
     (let normalized = nfkc_casefold (py_strip query) in
      if 2 \<le> length normalized \<and> length normalized \<le> 100 then Inr normalized
      else Inl InvalidSearchQueryError)"

definition matching_messages :: "(pystr \<Rightarrow> pystr) \<Rightarrow> pystr \<Rightarrow> db \<Rightarrow> pystr \<Rightarrow> message_row list" where
  "matching_messages nfkc_casefold pattern d room_id =
     filter (\<lambda>m. msg_deleted_at m = None \<and> instr (nfkc_casefold (msg_content m)) pattern)
       (room_messages d room_id)"

definition search_messages_sync ::
  "(pystr \<Rightarrow> pystr) \<Rightarrow> pystr \<Rightarrow> pystr \<Rightarrow> nat \<Rightarrow> pystr option \<Rightarrow> db \<Rightarrow>
   store_error + message list \<times> pystr option" where
  "search_messages_sync nfkc_casefold room_id query limit before d =
     res_bind (normalize_search_query nfkc_casefold query) (\<lambda>pattern.
       if get_room_row d room_id = None then Inl (RoomNotFoundError room_id)
       else res_bind (resolve_cursor (get_message_row d room_id) message_key InvalidCursorError before)
         (message_page message_key (matching_messages nfkc_casefold pattern d room_id) limit True))"

subsection \<open>Audit and delivery listings\<close>

definition list_audit_events_sync ::
  "nat \<Rightarrow> pystr option \<Rightarrow> db \<Rightarrow> store_error + audit_row list \<times> pystr option" where
  "list_audit_events_sync limit before d =
     res_bind (resolve_cursor (\<lambda>b. find (\<lambda>a. au_id a = b) (db_audits d)) audit_key InvalidAuditCursorError before)
       (\<lambda>cursor. case paginate_rows au_id (select_before audit_key cursor limit (db_audits d)) limit True of
          (rows, next_before) \<Rightarrow> Inr (map audit_from_row rows, next_before))"

definition status_match :: "string option \<Rightarrow> webhook_row \<Rightarrow> bool" where
  "status_match status w = (case status of None \<Rightarrow> True | Some s \<Rightarrow>
     (s = ''pending'' \<and> wd_delivered_at w = None \<and> wd_failed_at w = None) \<or>
     (s = ''delivered'' \<and> wd_delivered_at w \<noteq> None) \<or> (s = ''failed'' \<and> wd_failed_at w \<noteq> None))"

text \<open>Here the cursor is used whenever it is given, even when empty, and it may name any delivery.\<close>

definition list_webhook_deliveries_sync ::
  "nat \<Rightarrow> pystr option \<Rightarrow> string option \<Rightarrow> db \<Rightarrow>
   store_error + (webhook_delivery \<times> bool) list \<times> pystr option" where
  "list_webhook_deliveries_sync limit before status d =
     res_bind (case before of None \<Rightarrow> Inr None
       | Some b \<Rightarrow> (case find (\<lambda>w. wd_id w = b) (db_webhooks d) of
           None \<Rightarrow> Inl (InvalidWebhookCursorError b) | Some w \<Rightarrow> Inr (Some (webhook_key w))))
       (\<lambda>cursor. case paginate_rows wd_id
           (select_before webhook_key cursor limit (filter (status_match status) (db_webhooks d))) limit False of
          (rows, next_before) \<Rightarrow> Inr (map webhook_from_row rows, next_before))"

subsection \<open>Following the cursors\<close>

text \<open>
  A client that asks for the first page and then for the page before each returned cursor. The fuel
  bounds the number of requests; \<open>None\<close> means it ran out before the last page.
\<close>

fun follow :: "nat \<Rightarrow> (pystr option \<Rightarrow> 'e + 'a list \<times> pystr option) \<Rightarrow> pystr option \<Rightarrow>
    ('e + 'a list list) option" where
  "follow 0 page before = None"
| "follow (Suc n) page before = (case page before of
     Inl e \<Rightarrow> Some (Inl e)
   | Inr (items, next_before) \<Rightarrow> (case next_before of
       None \<Rightarrow> Some (Inr [items])
     | Some c \<Rightarrow> map_option (res_map ((#) items)) (follow n page (Some c))))"

definition page_order :: "bool \<Rightarrow> 'a list \<Rightarrow> 'a list" where
  "page_order chronological items = (if chronological then rev items else items)"

definition decoded :: "message_row \<Rightarrow> message" where
  "decoded m = (case message_from_row m of Inr v \<Rightarrow> v | Inl _ \<Rightarrow> message.truncate m)"

text \<open>What the listings rely on: the table invariant, and ids that are not empty (those of \<open>uuid4\<close>).\<close>

definition ids_nonempty :: "db \<Rightarrow> bool" where
  "ids_nonempty d \<longleftrightarrow> list_all (\<lambda>m. msg_id m \<noteq> []) (db_messages d) \<and> list_all (\<lambda>a. au_id a \<noteq> []) (db_audits d)"

definition listable :: "pystr \<times> db \<Rightarrow> bool" where
  "listable s \<longleftrightarrow> tables_inv (snd s) \<and> ids_nonempty (snd s) \<and> has_room (snd s) (fst s)"

definition listable_thread :: "(pystr \<times> pystr) \<times> db \<Rightarrow> bool" where
  "listable_thread s \<longleftrightarrow> listable (fst (fst s), snd s) \<and>
     (case get_message_row (snd s) (fst (fst s)) (snd (fst s)) of None \<Rightarrow> False
      | Some p \<Rightarrow> msg_parent_message_id p = None)"

definition listable_audits :: "db \<Rightarrow> bool" where
  "listable_audits d \<longleftrightarrow> distinct (map au_id (db_audits d)) \<and> ids_nonempty d"

definition listable_webhooks :: "string option \<times> db \<Rightarrow> bool" where
  "listable_webhooks s \<longleftrightarrow> distinct (map wd_id (db_webhooks (snd s)))"

type_synonym search_state = "((pystr \<Rightarrow> pystr) \<times> pystr) \<times> pystr \<times> db"

definition searchable :: "search_state \<Rightarrow> bool" where
  "searchable s \<longleftrightarrow> listable (snd s) \<and> is_ok (normalize_search_query (fst (fst s)) (snd (fst s)))"

definition search_rows :: "search_state \<Rightarrow> message_row list" where
  "search_rows s = matching_messages (fst (fst s)) (fst (fst s) (py_strip (snd (fst s))))
     (snd (snd s)) (fst (snd s))"

subsection \<open>The contract of a listing\<close>

lemma page_order_simps [simp]:
  "page_order c (map f (page_order c xs)) = map f xs" "length (page_order c xs) = length xs"
  by (simp_all add: page_order_def rev_map)

text \<open>
  In a state that is \<open>ok\<close>, the first page and the page before any listed row are cut from the rows in
  descending key order, and every listed row is shown through \<open>view\<close>.
\<close>

locale paged_listing =
  fixes ok :: "'s \<Rightarrow> bool" and rows :: "'s \<Rightarrow> 'r list" and key :: "'r \<Rightarrow> 'k::linorder"
    and ident :: "'r \<Rightarrow> pystr" and view :: "'r \<Rightarrow> 'a" and chronological :: bool
    and page :: "'s \<Rightarrow> nat \<Rightarrow> pystr option \<Rightarrow> 'e + 'a list \<times> pystr option"
  assumes keys: "ok s \<Longrightarrow> distinct (map key (rows s))"
    and first: "ok s \<Longrightarrow> page s limit None =
      (case paginate_rows ident (select_before key None limit (rows s)) limit chronological of
        (items, next_before) \<Rightarrow> Inr (map view items, next_before))"
    and later: "ok s \<Longrightarrow> r \<in> set (rows s) \<Longrightarrow> page s limit (Some (ident r)) =
      (case paginate_rows ident (select_before key (Some (key r)) limit (rows s)) limit chronological of
        (items, next_before) \<Rightarrow> Inr (map view items, next_before))"
begin

lemma listing_sorted:
  assumes "ok s"
  shows "sorted_wrt (\<lambda>x y. key y < key x) (order_by_desc key (rows s))"
proof -
  have "distinct (map key (sort_key key (rows s)))"
    using keys [OF assms] distinct_map_mset [of "rows s" "sort_key key (rows s)" key] by simp
  then have "sorted_wrt (<) (map key (sort_key key (rows s)))"
    by (simp add: strict_sorted_iff)
  then show ?thesis by (simp add: order_by_desc_def sorted_wrt_rev sorted_wrt_map)
qed

lemma select_later:
  assumes "ok s" and "order_by_desc key (rows s) = seen @ r # rest"
  shows "select_before key (Some (key r)) limit (rows s) = take (limit + 1) rest"
proof -
  have "order_by_desc key (filter (\<lambda>x. key x < key r) (rows s)) =
      filter (\<lambda>x. key x < key r) (order_by_desc key (rows s))"
    by (simp add: order_by_desc_def filter_sort rev_filter [symmetric])
  moreover have "filter (\<lambda>x. key x < key r) (order_by_desc key (rows s)) = rest"
    using listing_sorted [OF assms(1)] unfolding assms(2)
    by (auto simp: sorted_wrt_append filter_empty_conv filter_id_conv)
  ultimately show ?thesis by (simp add: select_before_def)
qed

lemma follow_rest:
  assumes "ok s" and "0 < limit"
    and "page s limit before = (case paginate_rows ident (take (limit + 1) rest) limit chronological of
      (items, next_before) \<Rightarrow> Inr (map view items, next_before))"
    and "order_by_desc key (rows s) = seen @ rest" and "length rest \<le> n"
  shows "\<exists>pages. follow (Suc n) (page s limit) before = Some (Inr pages) \<and>
    concat (map (page_order chronological) pages) = map view rest \<and> (\<forall>p\<in>set pages. length p \<le> limit)"
  using assms(3-)
proof (induction n arbitrary: before seen rest rule: less_induct)
  case (less n)
  let ?p = "take limit rest"
  show ?case
  proof (cases "limit < length rest")
    case False
    then have "page s limit before = Inr (map view (page_order chronological rest), None)"
      using less.prems(1) by (simp add: paginate_rows_def page_order_def rev_map Let_def)
    then show ?thesis using False by (simp add: page_order_def rev_map)
  next
    case True
    then have ne: "?p \<noteq> []" using assms(2) by auto
    let ?r = "last ?p"
    have split: "order_by_desc key (rows s) = (seen @ butlast ?p) @ ?r # drop limit rest"
      using less.prems(2) append_butlast_last_id [OF ne] by simp (metis append_take_drop_id append_assoc append_Cons append_Nil)
    then have "?r \<in> set (order_by_desc key (rows s))" by simp
    then have "?r \<in> set (rows s)" by simp
    from later [OF assms(1) this] have pg: "page s limit (Some (ident ?r)) = (case paginate_rows ident
        (take (limit + 1) (drop limit rest)) limit chronological of
        (items, next_before) \<Rightarrow> Inr (map view items, next_before))"
      by (simp only: select_later [OF assms(1) split])
    have here: "page s limit before = Inr (map view (page_order chronological ?p), Some (ident ?r))"
      using less.prems(1) True ne by (simp add: paginate_rows_def page_order_def rev_map Let_def)
    obtain k where n: "n = Suc k" using True less.prems(3) by (cases n) simp_all
    have "length (drop limit rest) \<le> k" using n True assms(2) less.prems(3) by simp
    from less.IH [OF _ pg _ this, of "seen @ ?p"] less.prems(2) n
    obtain pages where pages: "follow (Suc k) (page s limit) (Some (ident ?r)) = Some (Inr pages)"
      "concat (map (page_order chronological) pages) = map view (drop limit rest)"
      "\<forall>p\<in>set pages. length p \<le> limit"
      by auto
    have "follow (Suc n) (page s limit) before = Some (Inr (map view (page_order chronological ?p) # pages))"
      using pages(1) unfolding n follow.simps(2) [of "Suc k"] here by (simp del: follow.simps)
    moreover have "map view rest = map view ?p @ map view (drop limit rest)"
      by (simp only: map_append [symmetric] append_take_drop_id)
    ultimately show ?thesis using pages(2,3) by (simp del: follow.simps)
  qed
qed

lemma follow_all:
  "ok s \<Longrightarrow> 0 < limit \<Longrightarrow>
   \<exists>pages. follow (Suc (length (rows s))) (page s limit) None = Some (Inr pages) \<and>
     concat (map (page_order chronological) pages) = map view (order_by_desc key (rows s)) \<and>
     (\<forall>p\<in>set pages. length p \<le> limit)"
  by (rule follow_rest [where seen = "[]"]) (simp_all add: first select_before_def)

end

subsection \<open>The listings meet the contract\<close>

lemma decode_all:
  "tables_inv d \<Longrightarrow> set ms \<subseteq> set (db_messages d) \<Longrightarrow> res_all message_from_row ms = Inr (map decoded ms)"
proof (induction ms)
  case (Cons m ms)
  then have "is_ok (message_from_row m)" by (auto simp: tables_inv_def rows_inv_def row_ok_def)
  then show ?case using Cons by (auto simp: is_ok_iff decoded_def)
qed simp

lemma set_select_before: "set (select_before key c limit rows) \<subseteq> set rows"
proof -
  let ?f = "filter (\<lambda>r. case c of None \<Rightarrow> True | Some x \<Rightarrow> key r < x) rows"
  have "set (take (limit + 1) (order_by_desc key ?f)) \<subseteq> set (order_by_desc key ?f)"
    by (rule set_take_subset)
  also have "\<dots> \<subseteq> set rows" by auto
  finally show ?thesis by (simp add: select_before_def)
qed

lemma set_paginate: "set (fst (paginate_rows ident rows limit chron)) \<subseteq> set rows"
  using set_take_subset [of limit rows] by (simp add: paginate_rows_def Let_def)

lemma message_page_Inr:
  assumes "tables_inv d" and "set rows \<subseteq> set (db_messages d)"
  shows "message_page key rows limit chron c =
    (case paginate_rows msg_id (select_before key c limit rows) limit chron of
      (items, next_before) \<Rightarrow> Inr (map decoded items, next_before))"
proof -
  obtain items nb where p: "paginate_rows msg_id (select_before key c limit rows) limit chron = (items, nb)"
    by fastforce
  then have "set items \<subseteq> set rows"
    using set_paginate [of msg_id "select_before key c limit rows" limit chron] set_select_before by force
  then have "res_all message_from_row items = Inr (map decoded items)"
    using assms by (intro decode_all) auto
  then show ?thesis by (simp add: message_page_def p)
qed

lemma distinct_pair_key:
  "distinct (map ident rows) \<Longrightarrow> distinct (map (\<lambda>r. (t r, ident r)) rows)"
  by (auto simp: distinct_map inj_on_def)

lemma resolve_cursor_simps [simp]:
  "resolve_cursor lookup key err None = Inr None"
  "b \<noteq> [] \<Longrightarrow> lookup b = Some r \<Longrightarrow> resolve_cursor lookup key err (Some b) = Inr (Some (key r))"
  by (simp_all add: resolve_cursor_def)

lemma distinct_room_ids:
  "tables_inv d \<Longrightarrow> distinct (map msg_id (filter P (room_messages d rid)))"
  by (simp add: tables_inv_def keys_inv_def room_messages_def distinct_map_filter_key del: filter_filter)

lemma distinct_message_key: "distinct (map msg_id rows) \<Longrightarrow> distinct (map message_key rows)"
  unfolding message_key_def by (rule distinct_pair_key)

lemma listableD:
  assumes "listable (rid, d)"
  shows "tables_inv d" "get_room_row d rid \<noteq> None"
    "\<And>m. m \<in> set (room_messages d rid) \<Longrightarrow> msg_id m \<noteq> []"
    "set (filter P (room_messages d rid)) \<subseteq> set (db_messages d)"
    "distinct (map msg_id (room_messages d rid))"
  using assms get_room_row_None distinct_room_ids [of d "\<lambda>_. True" rid]
  by (auto simp: listable_def ids_nonempty_def list_all_iff room_messages_def)

lemma get_message_row_self:
  assumes "tables_inv d" and "m \<in> set (room_messages d rid)"
  shows "get_message_row d rid (msg_id m) = Some m"
  unfolding get_message_row_def
  by (rule find_unique) (use assms message_unique in \<open>auto simp: room_messages_def\<close>)

interpretation messages: paged_listing listable "\<lambda>s. room_messages (snd s) (fst s)" message_key msg_id
  decoded True "\<lambda>s limit before. list_messages_sync (fst s) limit before (snd s)"
proof (unfold_locales, unfold split_paired_all fst_conv snd_conv)
  fix rid d limit assume l: "listable (rid, d)"
  note L = listableD [OF l] and page = message_page_Inr [OF listableD(1) [OF l] listableD(4) [OF l, of "\<lambda>_. True"]]
  show "distinct (map message_key (room_messages d rid))"
    by (rule distinct_message_key) (rule L(5))
  show "list_messages_sync rid limit None d = (case paginate_rows msg_id
      (select_before message_key None limit (room_messages d rid)) limit True of
      (items, next_before) \<Rightarrow> Inr (map decoded items, next_before))"
    using L(2) page by (auto simp: list_messages_sync_def)
  fix r assume r: "r \<in> set (room_messages d rid)"
  show "list_messages_sync rid limit (Some (msg_id r)) d = (case paginate_rows msg_id
      (select_before message_key (Some (message_key r)) limit (room_messages d rid)) limit True of
      (items, next_before) \<Rightarrow> Inr (map decoded items, next_before))"
    using L(2) L(3) [OF r] get_message_row_self [OF L(1) r] page by (auto simp: list_messages_sync_def)
qed

lemma distinct_pin_key: "distinct (map msg_id rows) \<Longrightarrow> distinct (map pin_key rows)"
  unfolding pin_key_def by (rule distinct_pair_key)

interpretation pins: paged_listing listable "\<lambda>s. pinned_messages (snd s) (fst s)" pin_key msg_id
  decoded False "\<lambda>s limit before. list_pinned_messages_sync (fst s) limit before (snd s)"
proof (unfold_locales, unfold split_paired_all fst_conv snd_conv)
  fix rid d limit assume l: "listable (rid, d)"
  let ?rows = "pinned_messages d rid"
  note L = listableD [OF l]
  have ids: "distinct (map msg_id ?rows)" unfolding pinned_messages_def by (rule distinct_room_ids [OF L(1)])
  have page: "message_page key ?rows limit c b =
      (case paginate_rows msg_id (select_before key b limit ?rows) limit c of
        (items, next_before) \<Rightarrow> Inr (map decoded items, next_before))" for key :: "message_row \<Rightarrow> timestamp \<times> pystr" and c b
    by (rule message_page_Inr [OF L(1)]) (unfold pinned_messages_def, rule L(4))
  show "distinct (map pin_key ?rows)" by (rule distinct_pin_key [OF ids])
  show "list_pinned_messages_sync rid limit None d = (case paginate_rows msg_id
      (select_before pin_key None limit ?rows) limit False of
      (items, next_before) \<Rightarrow> Inr (map decoded items, next_before))"
    using L(2) page by (auto simp: list_pinned_messages_sync_def)
  fix r assume r: "r \<in> set ?rows"
  then have "msg_id r \<noteq> []" using L(3) by (simp add: pinned_messages_def)
  then show "list_pinned_messages_sync rid limit (Some (msg_id r)) d = (case paginate_rows msg_id
      (select_before pin_key (Some (pin_key r)) limit ?rows) limit False of
      (items, next_before) \<Rightarrow> Inr (map decoded items, next_before))"
    using L(2) find_by_key [OF ids r] page by (auto simp: list_pinned_messages_sync_def)
qed

interpretation threads: paged_listing listable_thread "\<lambda>s. replies (snd s) (fst (fst s)) (snd (fst s))"
  message_key msg_id decoded True
  "\<lambda>s limit before. list_replies_sync (fst (fst s)) (snd (fst s)) limit before (snd s)"
proof (unfold_locales, unfold split_paired_all fst_conv snd_conv)
  fix rid parent d limit assume t: "listable_thread ((rid, parent), d)"
  let ?rows = "replies d rid parent"
  have l: "listable (rid, d)" using t by (simp add: listable_thread_def)
  obtain q where q: "get_message_row d rid parent = Some q" "msg_parent_message_id q = None"
    using t by (auto simp: listable_thread_def split: option.splits)
  note L = listableD [OF l]
  have ids: "distinct (map msg_id ?rows)" unfolding replies_def by (rule distinct_room_ids [OF L(1)])
  have page: "message_page message_key ?rows limit c b =
      (case paginate_rows msg_id (select_before message_key b limit ?rows) limit c of
        (items, next_before) \<Rightarrow> Inr (map decoded items, next_before))" for c b
    by (rule message_page_Inr [OF L(1)]) (unfold replies_def, rule L(4))
  show "distinct (map message_key ?rows)" by (rule distinct_message_key [OF ids])
  show "list_replies_sync rid parent limit None d = (case paginate_rows msg_id
      (select_before message_key None limit ?rows) limit True of
      (items, next_before) \<Rightarrow> Inr (map decoded items, next_before))"
    using L(2) page q by (auto simp: list_replies_sync_def)
  fix r assume r: "r \<in> set ?rows"
  then have "msg_id r \<noteq> []" using L(3) by (simp add: replies_def)
  then show "list_replies_sync rid parent limit (Some (msg_id r)) d = (case paginate_rows msg_id
      (select_before message_key (Some (message_key r)) limit ?rows) limit True of
      (items, next_before) \<Rightarrow> Inr (map decoded items, next_before))"
    using L(2) find_by_key [OF ids r] page q by (auto simp: list_replies_sync_def)
qed

interpretation search: paged_listing searchable search_rows message_key msg_id decoded True
  "\<lambda>s limit before. search_messages_sync (fst (fst s)) (fst (snd s)) (snd (fst s)) limit before (snd (snd s))"
proof (unfold_locales, unfold split_paired_all fst_conv snd_conv)
  fix nf query rid d limit assume t: "searchable ((nf, query), rid, d)"
  let ?rows = "search_rows ((nf, query), rid, d)"
  have l: "listable (rid, d)" using t by (simp add: searchable_def)
  have n: "normalize_search_query nf query = Inr (nf (py_strip query))"
    using t by (auto simp: searchable_def normalize_search_query_def Let_def split: if_splits)
  note L = listableD [OF l]
  have rows: "?rows = matching_messages nf (nf (py_strip query)) d rid" by (simp add: search_rows_def)
  have ids: "distinct (map msg_id ?rows)"
    unfolding rows matching_messages_def by (rule distinct_room_ids [OF L(1)])
  have page: "message_page message_key ?rows limit c b =
      (case paginate_rows msg_id (select_before message_key b limit ?rows) limit c of
        (items, next_before) \<Rightarrow> Inr (map decoded items, next_before))" for c b
    by (rule message_page_Inr [OF L(1)]) (unfold rows matching_messages_def, rule L(4))
  show "distinct (map message_key ?rows)" by (rule distinct_message_key [OF ids])
  show "search_messages_sync nf rid query limit None d = (case paginate_rows msg_id
      (select_before message_key None limit ?rows) limit True of
      (items, next_before) \<Rightarrow> Inr (map decoded items, next_before))"
    using L(2) page n by (auto simp: search_messages_sync_def rows)
  fix r assume "r \<in> set ?rows"
  then have r: "r \<in> set (room_messages d rid)" by (simp add: rows matching_messages_def)
  show "search_messages_sync nf rid query limit (Some (msg_id r)) d = (case paginate_rows msg_id
      (select_before message_key (Some (message_key r)) limit ?rows) limit True of
      (items, next_before) \<Rightarrow> Inr (map decoded items, next_before))"
    using L(2) L(3) [OF r] get_message_row_self [OF L(1) r] page n
    by (auto simp: search_messages_sync_def rows)
qed

interpretation audits: paged_listing listable_audits db_audits audit_key au_id audit_from_row True
  "\<lambda>d limit before. list_audit_events_sync limit before d"
proof
  fix d limit assume l: "listable_audits d"
  then have ids: "distinct (map au_id (db_audits d))" by (simp add: listable_audits_def)
  show "distinct (map audit_key (db_audits d))"
    unfolding audit_key_def by (rule distinct_pair_key [OF ids])
  show "list_audit_events_sync limit None d = (case paginate_rows au_id
      (select_before audit_key None limit (db_audits d)) limit True of
      (items, next_before) \<Rightarrow> Inr (map audit_from_row items, next_before))"
    by (simp add: list_audit_events_sync_def)
  fix r assume r: "r \<in> set (db_audits d)"
  then have "au_id r \<noteq> []" using l by (simp add: listable_audits_def ids_nonempty_def list_all_iff)
  then show "list_audit_events_sync limit (Some (au_id r)) d = (case paginate_rows au_id
      (select_before audit_key (Some (audit_key r)) limit (db_audits d)) limit True of
      (items, next_before) \<Rightarrow> Inr (map audit_from_row items, next_before))"
    using find_by_key [OF ids r] by (simp add: list_audit_events_sync_def)
qed

interpretation deliveries: paged_listing listable_webhooks
  "\<lambda>s. filter (status_match (fst s)) (db_webhooks (snd s))" webhook_key wd_id webhook_from_row False
  "\<lambda>s limit before. list_webhook_deliveries_sync limit before (fst s) (snd s)"
proof (unfold_locales, unfold split_paired_all fst_conv snd_conv)
  fix status d limit assume l: "listable_webhooks (status, d)"
  then have ids: "distinct (map wd_id (db_webhooks d))" by (simp add: listable_webhooks_def)
  show "distinct (map webhook_key (filter (status_match status) (db_webhooks d)))"
    unfolding webhook_key_def by (rule distinct_pair_key) (rule distinct_map_filter_key [OF ids])
  show "list_webhook_deliveries_sync limit None status d = (case paginate_rows wd_id
      (select_before webhook_key None limit (filter (status_match status) (db_webhooks d))) limit False of
      (items, next_before) \<Rightarrow> Inr (map webhook_from_row items, next_before))"
    by (simp add: list_webhook_deliveries_sync_def)
  fix r assume r: "r \<in> set (filter (status_match status) (db_webhooks d))"
  then have "find (\<lambda>w. wd_id w = wd_id r) (db_webhooks d) = Some r" by (intro find_by_key [OF ids]) simp
  then show "list_webhook_deliveries_sync limit (Some (wd_id r)) status d = (case paginate_rows wd_id
      (select_before webhook_key (Some (webhook_key r)) limit (filter (status_match status) (db_webhooks d)))
      limit False of (items, next_before) \<Rightarrow> Inr (map webhook_from_row items, next_before))"
    by (simp add: list_webhook_deliveries_sync_def)
qed

end
