(* ===== verification/Store_System.thy ===== *)
theory Store_System
  imports Store_Reactions Store_Reads Store_Pages
begin

section \<open>The store as a state machine (store.py)\<close>

text \<open>
  Every mutating operation of \<open>ChatStore\<close> is one command, run in one transaction under the write lock:
  a command that raises leaves the database as it was. Reachable databases are those produced from the
  empty schema by any sequence of commands, with the clock readings and \<open>uuid4\<close> values of each command
  arbitrary but for the shape of a uuid.
\<close>

datatype command =
    CreateRoom room_create pystr
  | SetRoomState pystr "bool option" "bool option" pystr
  | DeleteRoom pystr pystr
  | RecordExport pystr pystr
  | SetMemberModeration pystr pystr moderation_update pystr
  | CreateMessage create_args
  | UpdateMessage pystr pystr pystr pystr "metadata option" "pystr list option" bool "pystr option"
  | DeleteMessage pystr pystr pystr bool "pystr option"
  | SetReaction pystr pystr pystr pystr bool bool "pystr option"
  | SetPin pystr pystr pystr pystr bool bool "pystr option"
  | MarkRead pystr pystr "pystr option"
  | ClearReadState pystr pystr
  | RunRetention pystr
  | RecordWebhookAttempt pystr timestamp "int option" "string option" "timestamp option" bool bool
  | RetryWebhookDelivery pystr

fun run_command :: "store_config \<Rightarrow> env \<Rightarrow> command \<Rightarrow> db \<Rightarrow> store_error + db" where
  "run_command cfg e (CreateRoom raw actor) d =
     res_bind (model_error (RoomCreate raw)) (\<lambda>payload. res_map snd (create_room cfg e payload actor d))"
| "run_command cfg e (SetRoomState rid archived frozen actor) d =
     res_map snd (set_room_state_sync cfg e rid archived frozen actor d)"
| "run_command cfg e (DeleteRoom rid actor) d = res_map snd (delete_room_sync cfg e rid actor d)"
| "run_command cfg e (RecordExport rid actor) d = res_map snd (record_export_requested_sync cfg e rid actor d)"
| "run_command cfg e (SetMemberModeration rid subject p actor) d =
     res_map snd (set_member_moderation_sync cfg e rid subject p actor d)"
| "run_command cfg e (CreateMessage a) d = res_map snd (create_message_sync cfg e a d)"
| "run_command cfg e (UpdateMessage rid mid actor content md mn adm subject) d =
     res_map snd (update_message_sync cfg e rid mid actor content md mn adm subject d)"
| "run_command cfg e (DeleteMessage rid mid actor adm subject) d =
     res_map snd (delete_message_sync cfg e rid mid actor adm subject d)"
| "run_command cfg e (SetReaction rid mid reactor key present af subject) d =
     res_map snd (set_message_reaction_sync cfg e rid mid reactor key present af subject d)"
| "run_command cfg e (SetPin rid mid pinner actor pinned af subject) d =
     res_map snd (set_message_pin_sync cfg e rid mid pinner actor pinned af subject d)"
| "run_command cfg e (MarkRead rid subject mid) d = res_map snd (mark_read_sync cfg e rid subject mid d)"
| "run_command cfg e (ClearReadState rid subject) d = res_map snd (clear_read_state_sync rid subject d)"
| "run_command cfg e (RunRetention actor) d = res_map snd (run_retention cfg e actor d)"
| "run_command cfg e (RecordWebhookAttempt did t st err nxt dl fl) d =
     res_map snd (record_webhook_attempt_sync did t st err nxt dl fl d)"
| "run_command cfg e (RetryWebhookDelivery did) d = res_map snd (retry_webhook_delivery_sync e did d)"

definition commit :: "store_config \<Rightarrow> env \<times> command \<Rightarrow> db \<Rightarrow> db" where
  "commit cfg ec d = snd (transaction (\<lambda>d. res_map (\<lambda>d'. ((), d')) (run_command cfg (fst ec) (snd ec) d)) d)"

text \<open>Of the 32 hexadecimal digits of \<open>uuid4().hex\<close> only their alphabet is used.\<close>

definition uuid_hex :: "pystr \<Rightarrow> bool" where
  "uuid_hex s \<longleftrightarrow> s \<noteq> [] \<and> list_all (\<lambda>c. digit c \<or> (97 \<le> c \<and> c \<le> 102)) s"

definition env_ok :: "env \<Rightarrow> bool" where
  "env_ok e \<longleftrightarrow> uuid_hex (uuid_op e) \<and> uuid_hex (uuid_audit e) \<and> uuid_hex (uuid_audit2 e) \<and>
     uuid_hex (uuid_webhook e)"

text \<open>One step of the machine commits a command; an interleaving of clients is a sequence of steps.\<close>

inductive store_step :: "store_config \<Rightarrow> db \<Rightarrow> db \<Rightarrow> bool" for cfg where
  commit_step: "env_ok e \<Longrightarrow> run_command cfg e cmd d = Inr d' \<Longrightarrow> store_step cfg d d'"
| rollback_step: "env_ok e \<Longrightarrow> run_command cfg e cmd d = Inl err \<Longrightarrow> store_step cfg d d"

inductive_cases store_stepE: "store_step cfg d d'"

inductive reachable :: "store_config \<Rightarrow> db \<Rightarrow> bool" for cfg where
  start: "reachable cfg empty_db"
| move: "reachable cfg d \<Longrightarrow> store_step cfg d d' \<Longrightarrow> reachable cfg d'"

text \<open>The ids a transaction may add.\<close>

definition ids_grow :: "env \<Rightarrow> db \<Rightarrow> db \<Rightarrow> bool" where
  "ids_grow e d d' \<longleftrightarrow> msg_id ` set (db_messages d') \<subseteq> insert (py_strip (uuid_op e)) (msg_id ` set (db_messages d)) \<and>
     au_id ` set (db_audits d') \<subseteq> {uuid_audit e, uuid_audit2 e} \<union> au_id ` set (db_audits d)"

subsection \<open>The invariant is kept by every command\<close>

lemma webhook_bodies_kept:
  assumes "private_inv d" and "db_messages d' = db_messages d"
    and "\<And>w. w \<in> set (db_webhooks d') \<Longrightarrow> \<exists>v\<in>set (db_webhooks d). wd_event_type w = wd_event_type v \<and>
      wd_room_id w = wd_room_id v \<and> wr_resource_id w = wr_resource_id v \<and>
      (wr_payload w \<noteq> None \<longrightarrow> wr_payload v \<noteq> None)"
  shows "private_inv d'"
  using assms unfolding private_inv_def body_allowed_def by (metis (no_types, lifting))

lemma record_webhook_attempt_inv:
  assumes run: "record_webhook_attempt_sync did t st err nxt dl fl d = Inr (u, d')" and inv: "store_inv cfg d"
  shows "store_inv cfg d'"
proof -
  have "private_inv d'"
    by (rule webhook_bodies_kept [of d])
      (use run inv in \<open>auto simp: record_webhook_attempt_Inr store_inv_def elim!: in_update_whereE\<close>)
  moreover have "webhooks_ok cfg d'"
    by (rule record_webhook_attempt_ok [OF run]) (use inv in \<open>simp add: store_inv_def\<close>)
  ultimately show ?thesis using run inv by (auto simp: record_webhook_attempt_Inr store_inv_def)
qed

lemma retry_webhook_delivery_inv:
  assumes run: "retry_webhook_delivery_sync e did d = Inr (r, d')" and inv: "store_inv cfg d"
  shows "store_inv cfg d'"
  using run
proof (cases rule: retry_webhook_delivery_Inr)
  case (1 w)
  have "private_inv d'"
    by (rule webhook_bodies_kept [of d]) (use 1(3) inv in \<open>auto simp: store_inv_def elim!: in_update_whereE\<close>)
  moreover have "webhooks_ok cfg d'"
    by (rule retry_webhook_delivery_ok [OF run]) (use inv in \<open>simp add: store_inv_def\<close>)
  ultimately show ?thesis using inv by (simp add: 1(3) store_inv_def)
qed

lemma uuid_hex_clean: "uuid_hex s \<Longrightarrow> py_strip s = s \<and> s \<noteq> []"
proof
  assume "uuid_hex s"
  then have "list_all (\<lambda>c. \<not> py_isspace c) s"
    by (auto simp: uuid_hex_def list_all_iff char_class_defs)
  then show "py_strip s = s" by (rule py_strip_no_space)
qed (auto simp: uuid_hex_def)

lemma run_command_inv:
  assumes "run_command cfg e cmd d = Inr d'" and "store_inv cfg d" and "env_ok e"
  shows "store_inv cfg d'"
proof (cases cmd)
  case (CreateRoom raw actor)
  moreover have "py_strip (uuid_op e) = uuid_op e" using assms(3) by (simp add: env_ok_def uuid_hex_clean)
  ultimately show ?thesis using assms(1,2) create_room_inv by auto
next
  case (CreateMessage a)
  then show ?thesis using assms(1,2) create_message_inv by auto
next
  case (DeleteMessage rid mid actor adm subj)
  then show ?thesis using assms(1,2) delete_message_inv by auto
qed (use assms(1,2) in \<open>auto dest: set_room_state_sync_inv delete_room_sync_inv record_export_requested_inv
    set_member_moderation_inv update_message_inv set_message_reaction_inv set_message_pin_inv mark_read_inv
    clear_read_state_inv run_retention_inv record_webhook_attempt_inv retry_webhook_delivery_inv\<close>)

lemma reachable_store_inv: "reachable cfg d \<Longrightarrow> store_inv cfg d"
  by (induction rule: reachable.induct) (auto simp: store_inv_empty elim!: store_stepE dest: run_command_inv)

lemma commit_is_step: "env_ok (fst ec) \<Longrightarrow> store_step cfg d (commit cfg ec d)"
  by (cases "run_command cfg (fst ec) (snd ec) d")
    (auto simp: commit_def transaction_def intro: commit_step rollback_step)

lemma reachable_session:
  "reachable cfg d \<Longrightarrow> list_all (\<lambda>ec. env_ok (fst ec)) ecs \<Longrightarrow> reachable cfg (fold (commit cfg) ecs d)"
  by (induction ecs arbitrary: d) (auto intro: reachable.move commit_is_step)

subsection \<open>Ids of a reachable store\<close>

lemma ids_grow_refl [simp]: "ids_grow e d d"
  by (auto simp: ids_grow_def)

lemma ids_grow_trans: "ids_grow e d1 d2 \<Longrightarrow> ids_grow e d2 d3 \<Longrightarrow> ids_grow e d1 d3"
  unfolding ids_grow_def by blast

lemma ids_grow_frame:
  "msg_id ` set (db_messages d') \<subseteq> msg_id ` set (db_messages d) \<Longrightarrow> db_audits d' = db_audits d \<Longrightarrow> ids_grow e d d'"
  by (auto simp: ids_grow_def)

lemma ids_grow_audit:
  assumes "insert_audit cfg uid now action actor room details d = Inr d'" "uid \<in> {uuid_audit e, uuid_audit2 e}"
  shows "ids_grow e d d'"
  using assms set_trim_audits_subset by (fastforce simp: insert_audit_Inr ids_grow_def)

lemma ids_grow_webhook: "insert_webhook cfg uid ev rid res t x d = Inr d' \<Longrightarrow> ids_grow e d d'"
  using insert_webhook_tables by (intro ids_grow_frame) auto

lemma ids_grow_delete: "ids_grow e d (delete_message_rows P d)"
  by (rule ids_grow_frame) (auto simp: in_delete_message_rows)

lemma ids_grow_batch: "ids_grow e d (snd (delete_messages_with_webhook_scrub sel d))"
  by (rule ids_grow_frame) (auto simp: delete_batch_messages in_delete_message_rows split: if_splits)

lemma ids_grow_change: "keeps_identity f \<Longrightarrow> ids_grow e d (change_message mid f rs d)"
  by (rule ids_grow_frame) (auto simp: in_change_message keeps_identity_def)

lemma ids_grow_update: "update_message_row mid f d = Inr d' \<Longrightarrow> keeps_identity f \<Longrightarrow> ids_grow e d d'"
  using ids_grow_change update_message_row_change by metis

lemma ids_grow_trim:
  assumes "trim_messages cfg e rid now d = Inr d'"
  shows "ids_grow e d d'"
proof -
  have b: "ids_grow e d (snd (trim_batches cfg rid now d))"
    unfolding trim_batches_def Let_def snd_conv
    by (intro ids_grow_trans [OF _ ids_grow_batch]) (auto intro: ids_grow_batch split: option.splits)
  show ?thesis using assms
    by (cases rule: trim_messages_cases) (use b in \<open>auto intro: ids_grow_trans ids_grow_audit\<close>)
qed

lemma ids_grow_insert_message:
  "insert_message_row row d = Inr d' \<Longrightarrow> msg_id row = py_strip (uuid_op e) \<Longrightarrow> ids_grow e d d'"
  by (auto simp: insert_message_row_Inr ids_grow_def)

lemma ids_grow_rooms [simp]: "ids_grow e d (d\<lparr>db_rooms := x\<rparr>)" "ids_grow e d (update_room rid f d)"
  by (simp_all add: update_room_def ids_grow_frame)

lemma ids_grow_create_room: "create_room cfg e p actor d = Inr (r, d') \<Longrightarrow> ids_grow e d d'"
  by (auto simp: create_room_def create_room_sync_def Let_def split: if_splits
      intro: ids_grow_trans [OF ids_grow_rooms(1) ids_grow_audit])

lemma ids_grow_set_room_state:
  assumes "set_room_state_sync cfg e rid a f actor d = Inr (r, d')"
  shows "ids_grow e d d'"
proof -
  have A: "ids_grow e x y" if "set_archived cfg e row a actor x = Inr (c, y)" for row x y c
    using that by (auto simp: set_archived_def split: option.splits if_splits
        intro: ids_grow_trans [OF ids_grow_rooms(2) ids_grow_audit])
  have F: "ids_grow e x y" if "set_frozen cfg e row f actor x = Inr (c, y)" for row x y c
    using that by (auto simp: set_frozen_def split: option.splits if_splits
        intro: ids_grow_trans [OF ids_grow_rooms(2) ids_grow_audit])
  from assms obtain row c1 d1 c2 where "set_archived cfg e row a actor d = Inr (c1, d1)"
    "set_frozen cfg e row f actor d1 = Inr (c2, d')"
    unfolding set_room_state_sync_def Let_def by (auto split: option.splits)
  then show ?thesis using A F ids_grow_trans by metis
qed

lemma ids_grow_delete_room:
  assumes "delete_room_sync cfg e rid actor d = Inr (n, d')"
  shows "ids_grow e d d'"
  using assms
proof (cases rule: delete_room_sync_Inr)
  case (1 row d1)
  have "ids_grow e d1 d'" unfolding 1(5)
    by (rule ids_grow_frame)
      (auto simp: delete_room_row_def Let_def scrub_room_webhooks_def in_delete_message_rows)
  then show ?thesis using ids_grow_audit [OF 1(4)] ids_grow_trans by blast
qed

lemma ids_grow_create_message:
  assumes "create_message_sync cfg e a d = Inr ((m, c), d')"
  shows "ids_grow e d d'"
  using assms
proof (cases rule: create_message_cases)
  case (new message d1 d2 p)
  have "ids_grow e d d1" using new_message_fields(1) [OF new(4)] by (intro ids_grow_insert_message [OF new(5)]) simp
  then show ?thesis using ids_grow_trim [OF new(6)] ids_grow_webhook [OF new(9)] ids_grow_trans by blast
qed simp

lemma ids_grow_update_message:
  assumes "update_message_sync cfg e rid mid actor content md mn adm subj d = Inr (m, d')"
  shows "ids_grow e d d'"
  using assms
proof (cases rule: update_message_cases)
  case (1 row d1 d2)
  have "ids_grow e d d1" by (rule ids_grow_update [OF 1(5)]) simp
  moreover have "ids_grow e d1 d2" by (rule ids_grow_audit [OF 1(6)]) simp
  ultimately show ?thesis using ids_grow_webhook [OF 1(8)] ids_grow_trans by blast
qed

lemma ids_grow_delete_message:
  assumes "delete_message_sync cfg e rid mid actor adm subj d = Inr ((m, c), d')"
  shows "ids_grow e d d'"
  using assms
proof (cases rule: delete_message_cases)
  case (deleted row d1 d2)
  have "ids_grow e d d1" unfolding tombstone_change [OF deleted(5)] by (rule ids_grow_change) simp
  moreover have "ids_grow e d1 d2" by (rule ids_grow_audit [OF deleted(6)]) simp
  moreover have "ids_grow e d2 (scrub_message_webhooks rid mid d2)"
    by (rule ids_grow_frame) (simp_all add: scrub_message_webhooks_def)
  ultimately show ?thesis using ids_grow_webhook [OF deleted(8)] ids_grow_trans by blast
qed simp

lemma ids_grow_reaction:
  assumes "set_message_reaction_sync cfg e rid mid reactor key present af subj d = Inr (mu, d')"
  shows "ids_grow e d d'"
  using assms
proof (cases rule: set_message_reaction_cases)
  case (changed row d1 d2 m)
  have "db_messages d1 = db_messages d" "db_audits d1 = db_audits d"
    using changed(3) by (auto elim: toggle_reaction_cases)
  then have "ids_grow e d d1" by (intro ids_grow_frame) simp_all
  moreover have "ids_grow e d1 d2"
    using changed(4) by (auto simp: refresh_summaries_def intro: ids_grow_update)
  ultimately show ?thesis using ids_grow_webhook [OF changed(7)] ids_grow_trans by blast
qed simp

lemma ids_grow_pin:
  assumes "set_message_pin_sync cfg e rid mid pinner actor pinned af subj d = Inr (mu, d')"
  shows "ids_grow e d d'"
  using assms
proof (cases rule: set_message_pin_cases)
  case (changed row d1 d2 m)
  have "ids_grow e d d1" by (rule ids_grow_update [OF changed(4)]) simp
  moreover have "ids_grow e d1 d2" by (rule ids_grow_audit [OF changed(5)]) simp
  ultimately show ?thesis using ids_grow_webhook [OF changed(8)] ids_grow_trans by blast
qed simp

lemma ids_grow_moderation:
  assumes "set_member_moderation_sync cfg e rid subj p actor d = Inr (r, d')"
  shows "ids_grow e d d'"
proof -
  have "ids_grow e d (d\<lparr>db_controls := x\<rparr>)" for x by (rule ids_grow_frame) simp_all
  then show ?thesis using assms
    by (auto simp: set_member_moderation_sync_def Let_def split: if_splits
        intro: ids_grow_trans [OF _ ids_grow_trans [OF ids_grow_audit ids_grow_webhook]])
qed

lemma ids_grow_retention:
  assumes "run_retention cfg e actor d = Inr (r, d')"
  shows "ids_grow e d d'"
proof -
  from assms obtain cutoff details where
    "insert_audit cfg (uuid_audit e) (now_audit e) ''retention.executed'' actor None details
       (snd (delete_messages_with_webhook_scrub (expired cutoff d) d)) = Inr d'"
    by (auto simp: run_retention_def run_retention_sync_def Let_def split: option.splits prod.splits)
      (metis snd_conv)
  from ids_grow_audit [OF this, of e] show ?thesis using ids_grow_trans [OF ids_grow_batch] by blast
qed

lemma run_command_ids:
  assumes "run_command cfg e cmd d = Inr d'"
  shows "ids_grow e d d'"
proof (cases cmd)
  case (CreateMessage a)
  then show ?thesis using assms ids_grow_create_message by auto
next
  case (DeleteMessage rid mid actor adm subj)
  then show ?thesis using assms ids_grow_delete_message by auto
next
  case (RecordExport rid actor)
  then show ?thesis using assms
    by (auto simp: record_export_requested_sync_def split: option.splits intro: ids_grow_audit)
next
  case (MarkRead rid subj mid)
  then obtain mu where "mark_read_sync cfg e rid subj mid d = Inr (mu, d')" using assms by auto
  then show ?thesis by (cases rule: mark_read_cases) (auto simp: store_cursor_def intro: ids_grow_frame)
next
  case (RetryWebhookDelivery did)
  then show ?thesis using assms by (auto elim!: retry_webhook_delivery_Inr intro: ids_grow_frame)
qed (use assms in \<open>auto simp: clear_read_state_sync_def record_webhook_attempt_Inr split: if_splits
    intro: ids_grow_frame dest: ids_grow_create_room ids_grow_set_room_state ids_grow_delete_room
    ids_grow_moderation ids_grow_update_message ids_grow_reaction ids_grow_pin ids_grow_retention\<close>)

lemma ids_grow_nonempty: "ids_grow e d d' \<Longrightarrow> env_ok e \<Longrightarrow> ids_nonempty d \<Longrightarrow> ids_nonempty d'"
  by (fastforce simp: ids_grow_def ids_nonempty_def list_all_iff env_ok_def dest: uuid_hex_clean)

lemma reachable_ids: "reachable cfg d \<Longrightarrow> ids_nonempty d"
proof (induction rule: reachable.induct)
  case start
  then show ?case by (simp add: ids_nonempty_def empty_db_def)
next
  case (move d d')
  then show ?case by (auto elim!: store_stepE dest: run_command_ids intro: ids_grow_nonempty)
qed

lemma reachable_listable: "reachable cfg d \<Longrightarrow> has_room d rid \<Longrightarrow> listable (rid, d)"
  using reachable_store_inv reachable_ids by (fastforce simp: listable_def store_inv_def)

end
