(* ===== verification/Samples.thy ===== *)
theory Samples
  imports Store_System
begin

section \<open>Concrete inputs\<close>

text \<open>
  A small store, used where a property is applied to a concrete input: a room, a message in it and
  what the first commands of a session make of the empty database.
\<close>

definition sample_cfg :: store_config where
  "sample_cfg = \<lparr>max_rooms = 3, max_stored_messages = 4, max_stored_messages_per_room = 1,
     max_read_states_per_room = 2, message_retention_days = None, max_audit_events = 5,
     webhook_events = [''message.created'', ''message.deleted''], max_webhook_deliveries = 2\<rparr>"

text \<open>Clock readings and uuids of the \<open>n\<close>-th command; the uuids are two decimal digits.\<close>

definition sample_env :: "nat \<Rightarrow> env" where
  "sample_env n = \<lparr>now_op = int n, now_enforce = int n, now_audit = int n, now_op2 = int n,
     now_audit2 = int n, uuid_op = [48 + n, 48], uuid_audit = [48 + n, 49],
     uuid_audit2 = [48 + n, 50], uuid_webhook = [48 + n, 51]\<rparr>"

text \<open>The strings are given by their code points: a room \<open>lo\<close>, the subjects \<open>a\<close> and \<open>b\<close>.\<close>

definition lobby :: pystr where "lobby = [108, 111]"
definition ann :: pystr where "ann = [97]"
definition bob :: pystr where "bob = [98]"

definition sample_room :: room_create where
  "sample_room = \<lparr>rc_name = [76], rc_description = [], rc_id = Some lobby\<rparr>"

definition sample_message :: "pystr \<Rightarrow> pystr option \<Rightarrow> create_args" where
  "sample_message content client = \<lparr>ca_room_id = lobby, ca_sender = ann, ca_content = content,
     ca_metadata = [], ca_attachments = [], ca_mentioned_subjects = [bob],
     ca_client_message_id = client, ca_parent_message_id = None, ca_allow_frozen = False,
     ca_member_subject = Some ann, ca_author_subject = Some ann\<rparr>"

definition sample_session :: "(env \<times> command) list" where
  "sample_session = [(sample_env 2, CreateRoom sample_room ann),
     (sample_env 3, CreateMessage (sample_message [104, 105] (Some [99])))]"

definition lobby_row :: room where
  "lobby_row = \<lparr>ro_id = lobby, ro_name = [76], ro_description = [], ro_created_at = 2,
     ro_archived_at = None, ro_frozen_at = None\<rparr>"

definition first_message :: message where
  "first_message = \<lparr>msg_id = [51, 48], msg_room_id = lobby, msg_sender = ann, msg_content = [104, 105],
     msg_created_at = 3, msg_client_message_id = Some [99], msg_parent_message_id = None,
     msg_reactions = [], msg_pinned_at = None, msg_pinned_by = None, msg_metadata = [],
     msg_attachments = [], msg_mentioned_subjects = [bob], msg_edited_at = None, msg_deleted_at = None\<rparr>"

definition room_audit :: audit_row where
  "room_audit = \<lparr>au_id = [50, 49], au_action = ''room.created'', au_actor = ann, au_room_id = Some lobby,
     au_created_at = 2, au_details = []\<rparr>"

definition room_db :: db where
  "room_db = empty_db\<lparr>db_rooms := [lobby_row], db_audits := [room_audit]\<rparr>"

definition message_db :: db where
  "message_db = room_db\<lparr>db_messages := [message_row_of first_message (Some ann)],
     db_webhooks := [new_webhook_row [51, 51] ''message.created'' lobby [51, 48] 3
       (MessageData None first_message)]\<rparr>"

definition gone_message :: message where
  "gone_message = first_message\<lparr>msg_content := [], msg_mentioned_subjects := [], msg_deleted_at := Some 4\<rparr>"

definition delete_audit :: audit_row where
  "delete_audit = \<lparr>au_id = [52, 49], au_action = ''message.deleted'', au_actor = ann, au_room_id = Some lobby,
     au_created_at = 4, au_details = [(str ''message_id'', AText [51, 48])]\<rparr>"

definition deleted_db :: db where
  "deleted_db = room_db\<lparr>db_messages := [message_row_of gone_message (Some ann)],
     db_audits := [room_audit, delete_audit],
     db_webhooks := [new_webhook_row [52, 51] ''message.deleted'' lobby [51, 48] 4
       (MessageData (Some ann) gone_message)]\<rparr>"

definition reply_cfg :: store_config where
  "reply_cfg = sample_cfg\<lparr>max_stored_messages_per_room := 4\<rparr>"

definition sample_reply :: create_args where
  "sample_reply = (sample_message [111] None)\<lparr>ca_parent_message_id := Some [51, 48]\<rparr>"

subsection \<open>Evaluation\<close>

lemma res_bind_weak: "r = r' \<Longrightarrow> res_bind r f = res_bind r' f"
  by simp

lemmas sample_defs = sample_cfg_def sample_env_def lobby_def ann_def bob_def sample_room_def
  sample_message_def lobby_row_def first_message_def room_audit_def room_db_def message_db_def
  gone_message_def delete_audit_def deleted_db_def

lemmas strip_defs = py_strip_def py_lstrip_def py_isspace_def

lemma no_metadata [simp]: "metadata_field [] = Inr []"
  by (simp add: metadata_field_def strip_metadata_def validate_message_metadata_def
      MESSAGE_METADATA_MAX_KEYS_def metadata_json_def MESSAGE_METADATA_MAX_BYTES_def utf8_len_def
      utf8_width_def)

lemma no_attachments [simp]: "validate_attachment_references [] = Inr []"
  by (simp add: validate_attachment_references_def attachments_json_def utf8_len_def utf8_width_def
      MESSAGE_ATTACHMENTS_MAX_BYTES_def)

lemma no_mentions [simp]: "validate_mentioned_subjects (mentions_json []) = Inr []"
  by (simp add: validate_mentioned_subjects_Inr)

lemma mention_bob [simp]: "validate_mentioned_subjects (mentions_json [[98]]) = Inr [[98]]"
  by (simp add: validate_mentioned_subjects_Inr MESSAGE_MENTIONS_MAX_COUNT_def strip_defs)

lemma small_checks [simp]:
  "utf8_len (json_dumps (metadata_json [])) = 2" "utf8_len (json_dumps (attachments_json [])) = 2"
  "utf8_len (json_dumps (mentions_json [])) = 2" "utf8_len (json_dumps (mentions_json [[98]])) = 5"
  by (simp_all add: metadata_json_def attachments_json_def mentions_json_def utf8_len_def utf8_width_def
      json_string_def json_escape_def)

lemma message_row_of_more [simp]:
  "msg_sender (message_row_of m a) = msg_sender m" "msg_content (message_row_of m a) = msg_content m"
  "msg_attachments (message_row_of m a) = msg_attachments m"
  "msg_metadata (message_row_of m a) = msg_metadata m"
  "msg_mentioned_subjects (message_row_of m a) = msg_mentioned_subjects m"
  "msg_pinned_by (message_row_of m a) = msg_pinned_by m"
  "msg_pinned_at (message_row_of m a) = msg_pinned_at m"
  by (simp_all add: message_row_of_def message.defs)

lemmas store_eval = run_command.simps create_room_def create_room_sync_def RoomCreate_def str_field_def
  ROOM_ID_PATTERN_def head_tail_def lower_def digit_def str_def insert_audit_def trim_audits_def
  order_by_desc_def order_by_def empty_db_def create_message_sync_def room_write_gate_def get_room_row_def
  enforce_member_write_sync_def get_control_row_def find_client_message_def truthy_def check_parent_def
  new_message_def model_error_def Message_def require_complete_pin_metadata_def insert_message_row_def
  message_checks_def trim_messages_def trim_batches_def delete_messages_with_webhook_scrub_def
  room_excess_def global_excess_def room_messages_def get_message_by_id_def message_from_row_def
  insert_webhook_def evict_terminal_def delivery_id_of_def get_message_row_def Let_def strip_defs

lemma create_room_sample:
  "run_command sample_cfg (sample_env 2) (CreateRoom sample_room ann) empty_db = Inr room_db"
  by (simp add: sample_defs store_eval cong: res_bind_weak)

lemma create_message_sample:
  "create_message_sync sample_cfg (sample_env 3) (sample_message [104, 105] (Some [99])) room_db =
     Inr ((first_message, True), message_db)"
  by (simp add: sample_defs store_eval cong: res_bind_weak)

lemma sample_envs_ok: "list_all (\<lambda>ec. env_ok (fst ec)) sample_session" "env_ok (sample_env 2)" "env_ok (sample_env 3)"
  by (simp_all add: sample_session_def sample_env_def env_ok_def uuid_hex_def digit_def)

lemma sample_session_db: "fold (commit sample_cfg) sample_session empty_db = message_db"
  by (simp add: sample_session_def commit_def transaction_def create_room_sample create_message_sample
      del: run_command.simps(1))

lemma truncate_row_of_update [simp]:
  "tombstone_row t (message_row_of m a) = message_row_of (m\<lparr>msg_content := [], msg_reactions := [],
     msg_pinned_at := None, msg_metadata := [], msg_attachments := [], msg_mentioned_subjects := [],
     msg_pinned_by := None, msg_deleted_at := Some t\<rparr>) a"
  by (simp add: tombstone_row_def message_row_of_def message.defs)

lemma delete_message_sample:
  "delete_message_sync sample_cfg (sample_env 4) lobby [51, 48] ann False (Some ann) message_db =
     Inr ((gone_message, True), deleted_db)"
  by (simp add: sample_defs store_eval delete_message_sync_def delete_message_reactions_def
      update_message_row_def update_where_def reread_message_def scrub_message_webhooks_def scrub_def
      like_message_def cong: res_bind_weak)

lemma edit_row_of [simp]:
  "edit_row content None None t (message_row_of m a) =
     message_row_of (m\<lparr>msg_content := content, msg_edited_at := Some t\<rparr>) a"
  by (simp add: edit_row_def message_row_of_def message.defs)

lemma update_message_sample:
  "\<exists>m d'. update_message_sync sample_cfg (sample_env 4) lobby [51, 48] ann [111] None None False (Some ann)
     message_db = Inr (m, d')"
  by (simp add: sample_defs store_eval update_message_sync_def update_message_row_def update_where_def
      reread_message_def cong: res_bind_weak)

lemma other_row_of [simp]:
  "set_summaries s (message_row_of m a) = message_row_of (m\<lparr>msg_reactions := s\<rparr>) a"
  "pin_row t p b (message_row_of m a) = message_row_of (m\<lparr>msg_pinned_at := (if b then Some t else None),
     msg_pinned_by := (if b then Some p else None)\<rparr>) a"
  by (simp_all add: set_summaries_def pin_row_def message_row_of_def message.defs)

lemma reaction_sample:
  "\<exists>mu d'. set_message_reaction_sync sample_cfg (sample_env 4) lobby [51, 48] bob [117] True False (Some bob)
     message_db = Inr (mu, d')"
  by (simp add: sample_defs store_eval set_message_reaction_sync_def toggle_reaction_def has_reaction_def
      reaction_keys_def reaction_checks_def REACTION_KEY_PATTERN_def refresh_summaries_def reaction_summaries_def
      ReactionSummary_def update_message_row_def update_where_def reread_message_def ReactionMutation_def
      cong: res_bind_weak)

lemma pin_sample:
  "\<exists>mu d'. set_message_pin_sync sample_cfg (sample_env 4) lobby [51, 48] ann ann True False (Some ann)
     message_db = Inr (mu, d')"
  by (simp add: sample_defs store_eval set_message_pin_sync_def update_message_row_def update_where_def
      reread_message_def PinMutation_def cong: res_bind_weak)

lemma mark_read_sample:
  "\<exists>mu d'. mark_read_sync sample_cfg (sample_env 4) lobby bob (Some [51, 48]) message_db = Inr (mu, d')"
  by (simp add: sample_defs store_eval mark_read_sync_def mark_target_def get_read_row_def advances_def
      read_candidate_def store_cursor_def upsert_def read_state_from_connection_def ReadReceipt_def
      cong: res_bind_weak)

lemma mark_latest_sample:
  "\<exists>mu d'. mark_read_sync sample_cfg (sample_env 4) lobby bob None message_db = Inr (mu, d')"
  by (simp add: sample_defs store_eval mark_read_sync_def mark_target_def latest_message_def get_read_row_def
      advances_def read_candidate_def store_cursor_def upsert_def read_state_from_connection_def ReadReceipt_def
      cong: res_bind_weak)

lemma retention_sample:
  "\<exists>r d'. run_retention (sample_cfg\<lparr>message_retention_days := Some 0\<rparr>) (sample_env 4) ann message_db = Inr (r, d')"
  by (simp add: sample_defs store_eval run_retention_def run_retention_sync_def expired_def
      scrub_batch_webhooks_def days_delta_def cong: res_bind_weak)

lemma moderation_sample:
  "\<exists>r d'. set_member_moderation_sync sample_cfg (sample_env 4) lobby bob
     \<lparr>muted_for_seconds = None, banned_for_seconds = Some 60\<rparr> ann message_db = Inr (r, d')"
  by (simp add: sample_defs store_eval set_member_moderation_sync_def new_until_def upsert_def cong: res_bind_weak)

lemma create_room_reply: "run_command reply_cfg (sample_env 2) (CreateRoom sample_room ann) empty_db = Inr room_db"
  by (simp add: reply_cfg_def sample_defs store_eval cong: res_bind_weak)

lemma create_message_reply:
  "run_command reply_cfg (sample_env 3) (CreateMessage (sample_message [104, 105] (Some [99]))) room_db = Inr message_db"
  by (simp add: reply_cfg_def sample_defs store_eval cong: res_bind_weak)

lemma create_reply:
  "\<exists>d. run_command reply_cfg (sample_env 4) (CreateMessage sample_reply) message_db = Inr d \<and>
     (\<exists>m\<in>set (db_messages d). msg_parent_message_id m = Some [51, 48])"
  by (simp add: reply_cfg_def sample_reply_def sample_defs store_eval message_key_def cong: res_bind_weak)

lemma sample_env_ok [simp]: "n < 10 \<Longrightarrow> env_ok (sample_env n)"
  by (simp add: sample_env_def env_ok_def uuid_hex_def digit_def)

lemma reply_sample:
  "\<exists>d m. reachable reply_cfg d \<and> m \<in> set (db_messages d) \<and> msg_parent_message_id m = Some [51, 48]"
proof -
  have "reachable reply_cfg room_db"
    by (rule reachable.move [OF reachable.start commit_step [OF _ create_room_reply]]) simp
  then have r: "reachable reply_cfg message_db"
    by (rule reachable.move [OF _ commit_step [OF _ create_message_reply]]) simp
  obtain d m where d: "run_command reply_cfg (sample_env 4) (CreateMessage sample_reply) message_db = Inr d"
      and m: "m \<in> set (db_messages d)" "msg_parent_message_id m = Some [51, 48]"
    using create_reply by blast
  from r have "reachable reply_cfg d"
    by (rule reachable.move [OF _ commit_step [OF _ d]]) simp
  with m show ?thesis by blast
qed

end
