(* ===== verification/Store_Properties.thy ===== *)
theory Store_Properties
  imports Samples
begin

section \<open>What the store guarantees\<close>

text \<open>
  The properties of the SQLite store, stated over its operations and proved from the lemmas of the
  component theories. Where a property has hypotheses, the theorem after it applies it to the
  concrete store of \<open>Samples\<close>.
\<close>

lemma reachable_message_db: "reachable sample_cfg message_db"
  using reachable_session [OF reachable.start sample_envs_ok(1), of sample_cfg] by (simp add: sample_session_db)

lemma inv_message_db: "store_inv sample_cfg message_db"
  by (rule reachable_store_inv [OF reachable_message_db])

lemma inv_room_db: "store_inv sample_cfg room_db"
  by (rule run_command_inv [OF create_room_sample store_inv_empty sample_envs_ok(2)])

text \<open>
  C1. Whatever sequence of commands clients issue, in whatever interleaving, and whether each of them
  commits or fails, the database keeps its invariant: keys, references and one-level threads, reaction
  summaries that match the reaction table, readable rows and empty tombstones, an outbox without
  bodies of messages that are gone, and every configured cap.
\<close>

theorem session_keeps_invariant:
  "list_all (\<lambda>ec. env_ok (fst ec)) ecs \<Longrightarrow> store_inv cfg (fold (commit cfg) ecs empty_db)"
  using reachable_session [OF reachable.start] reachable_store_inv by blast

theorem session_keeps_invariant_witness:
  "store_inv sample_cfg message_db \<and> length (db_messages message_db) = 1 \<and> length (db_webhooks message_db) = 1"
  using session_keeps_invariant [OF sample_envs_ok(1), of sample_cfg]
  by (simp add: sample_session_db) (simp add: message_db_def)

text \<open>
  C5. Deleting a message leaves nothing of it in the outbox: after the transaction the only retained
  body of a message event for it is the new \<open>message.deleted\<close> event, whose message is the tombstone
  without content, metadata, attachments, mentions, reactions or pin.
\<close>

theorem delete_leaves_no_body:
  assumes "store_inv cfg d"
    and "delete_message_sync cfg e rid mid actor adm subj d = Inr ((m, True), d')"
    and "w \<in> set (db_webhooks d')" and "wd_room_id w = rid" and "wr_resource_id w = mid"
    and "like_message (wd_event_type w)" and "wr_payload w = Some p"
  shows "wd_event_type w = ''message.deleted'' \<and> env_data p = MessageData (Some actor) m \<and>
    msg_content m = [] \<and> msg_metadata m = [] \<and> msg_attachments m = [] \<and>
    msg_mentioned_subjects m = [] \<and> msg_reactions m = [] \<and> msg_pinned_at m = None"
  using assms(2)
proof (cases rule: delete_message_cases)
  case (deleted row d1 d2)
  let ?s = "scrub_message_webhooks rid mid d2"
  have "w \<in> set (db_webhooks ?s) \<or> w = new_webhook_row (uuid_webhook e) ''message.deleted'' rid (msg_id m)
      (case msg_deleted_at m of Some t \<Rightarrow> t | None \<Rightarrow> now_op2 e) (MessageData (Some actor) m)"
    by (rule insert_webhook_rows [OF deleted(8) assms(3)])
  moreover have "w \<notin> set (db_webhooks ?s)"
    using scrub_body_kept [of w _ "db_webhooks d2"] assms(4-7) by (auto simp: scrub_message_webhooks_def)
  moreover have "message_from_row (tombstone_row (now_op e) row) = Inr m"
    using deleted_message_decoded [OF assms(1) deleted(1,5-7)] .
  then have "msg_content m = [] \<and> msg_metadata m = [] \<and> msg_attachments m = [] \<and>
    msg_mentioned_subjects m = [] \<and> msg_reactions m = [] \<and> msg_pinned_at m = None"
    by (rule tombstone_decoded)
  ultimately show ?thesis using assms(7) by auto
qed simp

theorem delete_leaves_no_body_witness:
  "\<exists>w p. w \<in> set (db_webhooks deleted_db) \<and> wr_payload w = Some p \<and>
     env_data p = MessageData (Some ann) gone_message \<and> msg_content gone_message = []"
  using delete_leaves_no_body [OF inv_message_db delete_message_sample,
      of "new_webhook_row [52, 51] ''message.deleted'' lobby [51, 48] 4 (MessageData (Some ann) gone_message)"]
  by (simp add: deleted_db_def like_message_def)

subsection \<open>Creating messages\<close>

lemma find_client_unique:
  assumes "tables_inv d" and "m \<in> set (db_messages d)" and "msg_room_id m = rid"
    and "msg_client_message_id m = client" and "truthy client"
  shows "find_client_message d rid client = Some m"
proof -
  have "client \<noteq> None" using assms(5) by (auto simp: truthy_iff)
  then have "find (\<lambda>m. msg_room_id m = rid \<and> msg_client_message_id m = client) (db_messages d) = Some m"
    using assms(1-4) by (intro find_unique) (auto simp: tables_inv_def keys_inv_def)
  then show ?thesis using assms(5) by (simp add: find_client_message_def)
qed

lemma created_row:
  assumes inv: "store_inv cfg d" and run: "create_message_sync cfg e a d = Inr ((m, True), d')"
  obtains p where "p \<in> set (db_messages d')" "message_from_row p = Inr m" "msg_room_id p = ca_room_id a"
    "msg_client_message_id p = map_option py_strip (ca_client_message_id a)"
    "msg_id p = py_strip (uuid_op e)" "msg_created_at p = now_op e" "msg_author_subject p = ca_author_subject a"
    "msg_sender m = py_strip (ca_sender a)"
  using run
proof (cases rule: create_message_cases)
  case (new message d1 d2 p)
  let ?row = "message_row_of message (ca_author_subject a)"
  have t: "tables_inv d" using inv by (simp add: store_inv_def)
  have room: "py_strip (ca_room_id a) = ca_room_id a"
    by (rule room_clean [OF t gate_room [OF create_message_gate [OF run]]])
  note f = new_message_fields [OF new(4), unfolded room]
  have k1: "keys_inv d1" and d1: "?row \<in> set (db_messages d1)"
    using insert_message_row_Inr [of ?row d d1] new(5) t by (auto simp: tables_inv_def keys_inv_def)
  have p: "p = ?row\<lparr>msg_parent_message_id := msg_parent_message_id p\<rparr>" "p \<in> set (db_messages d2)"
    using trim_messages_row [OF new(6) k1 d1, of p] new(7) by simp_all
  have "msg_id p = msg_id message \<and> msg_room_id p = msg_room_id message \<and>
      msg_client_message_id p = msg_client_message_id message \<and> msg_created_at p = msg_created_at message \<and>
      msg_author_subject p = ca_author_subject a \<and> msg_sender p = msg_sender message"
    by (subst (1 2 3 4 5 6) p(1)) (simp add: message_row_of_def message.defs)
  then show ?thesis using that p(2) new(8) f message_from_row_fields(3) [OF new(8)] insert_webhook_tables [OF new(9)] by simp
qed simp



text \<open>
  Under a clock that has not gone back behind a stored message, and with caps of at least one, a
  new message is never trimmed away by its own insert: the write does not end in the internal error
  "newly created message was not retained".
\<close>

theorem create_message_retained:
  assumes "store_inv cfg d" and "\<And>m. m \<in> set (db_messages d) \<Longrightarrow> message_key m < (now_op e, py_strip (uuid_op e))"
    and "1 \<le> max_stored_messages cfg" and "1 \<le> max_stored_messages_per_room cfg"
  shows "create_message_sync cfg e a d \<noteq> Inl NotRetainedError"
proof
  assume fail: "create_message_sync cfg e a d = Inl NotRetainedError"
  from create_message_not_retained [OF fail] obtain message d1 d2 where s:
    "has_room d (ca_room_id a)" "Message (new_message e a) = Inr message"
    "insert_message_row (message_row_of message (ca_author_subject a)) d = Inr d1"
    "trim_messages cfg e (ca_room_id a) (msg_created_at message) d1 = Inr d2"
    "get_message_by_id d2 (msg_id message) = None" by blast
  let ?row = "message_row_of message (ca_author_subject a)"
  have t: "tables_inv d" using assms(1) by (simp add: store_inv_def)
  note f = new_message_fields [OF s(2), unfolded room_clean [OF t s(1)]]
  have d1: "d1 = d\<lparr>db_messages := db_messages d @ [?row]\<rparr>" using s(3) by (simp add: insert_message_row_Inr)
  have k1: "keys_inv d1" using insert_message_row_Inr [of ?row d d1] s(3) t
    by (auto simp: d1 tables_inv_def keys_inv_def)
  have "\<exists>p\<in>set (db_messages (snd (trim_batches cfg (ca_room_id a) (msg_created_at message) d1))). msg_id p = msg_id ?row"
  proof (rule trim_keeps_newest [OF k1])
    show "?row \<in> set (db_messages d1)" by (simp add: d1)
    fix m assume "m \<in> set (db_messages d1)"
    then show "message_key m \<le> message_key ?row"
      using assms(2) [of m] f by (auto simp: d1 message_key_def)
  qed (use f assms(3,4) in simp_all)
  then show False using s(5) trim_messages_tables(1) [OF s(4)]
    by (simp add: get_message_by_id_def find_eq_None)
qed

theorem create_message_retained_witness:
  "create_message_sync sample_cfg (sample_env 5) (sample_message [104] None) message_db \<noteq> Inl NotRetainedError"
proof (rule create_message_retained [OF inv_message_db])
  fix m assume "m \<in> set (db_messages message_db)"
  then show "message_key m < (now_op (sample_env 5), py_strip (uuid_op (sample_env 5)))"
    by (simp add: sample_defs message_key_def strip_defs)
qed (simp_all add: sample_cfg_def)

text \<open>
  When the clock does step back behind a stored message, a room at its cap drops the new message
  in the transaction that inserts it, and the write fails with the internal error that the source
  marks as unreachable ("newest inserts are retained by every configured cap"). The concrete run: a
  room with a cap of one message, stored at time 3, and a write at time 2.
\<close>

theorem create_message_clock_regression:
  "create_message_sync sample_cfg ((sample_env 2)\<lparr>uuid_audit := [57, 49]\<rparr>) (sample_message [104] None) message_db =
     Inl NotRetainedError"
  by (simp add: sample_defs store_eval scrub_batch_webhooks_def scrub_def delete_message_rows_def message_key_def
      update_where_def like_message_def orphan_def cong: res_bind_weak)



text \<open>
  A caller without the admin right edits only messages it sent itself, in a room that is neither
  archived nor frozen; the edit changes exactly that row, and of it only content, metadata, mentions
  and the edit time.
\<close>

theorem update_message_ownership:
  assumes "store_inv cfg d"
    and "update_message_sync cfg e rid mid actor content md mn False subj d = Inr (m, d')"
  shows "\<exists>row. get_message_row d rid mid = Some row \<and> msg_sender row = actor \<and> msg_deleted_at row = None \<and>
    db_messages d' = update_where (\<lambda>x. msg_id x = mid) (edit_row content md mn (now_op e)) (db_messages d) \<and>
    (\<exists>r. get_room_row d rid = Some r \<and> ro_archived_at r = None \<and> ro_frozen_at r = None)"
proof -
  have "keys_inv d" using assms(1) by (simp add: store_inv_def tables_inv_def)
  then obtain row where "get_message_row d rid mid = Some row" "msg_deleted_at row = None"
    "False \<or> msg_sender row = actor"
    "db_messages d' = update_where (\<lambda>x. msg_id x = mid) (edit_row content md mn (now_op e)) (db_messages d)"
    using update_message_result [OF assms(2)] by blast
  moreover have "room_write_gate e rid False False subj d = Inr ()"
    using assms(2) by (cases rule: update_message_cases)
  then have "\<exists>r. get_room_row d rid = Some r \<and> ro_archived_at r = None \<and> ro_frozen_at r = None"
    unfolding room_write_gate_Inr by blast
  ultimately show ?thesis by blast
qed

theorem update_message_ownership_witness:
  "\<exists>m d'. update_message_sync sample_cfg (sample_env 4) lobby [51, 48] ann [111] None None False (Some ann) message_db = Inr (m, d') \<and>
     (\<exists>row. get_message_row message_db lobby [51, 48] = Some row \<and> msg_sender row = ann)"
proof -
  obtain m d' where run: "update_message_sync sample_cfg (sample_env 4) lobby [51, 48] ann [111] None None False
      (Some ann) message_db = Inr (m, d')"
    using update_message_sample by blast
  from update_message_ownership [OF inv_message_db run] run show ?thesis by blast
qed

text \<open>
  Deletion is idempotent: deleting the same message again, by the same caller while the room
  still admits it, reports no change, returns the same tombstone and leaves the database as it is.
\<close>

theorem delete_message_idempotent:
  assumes "store_inv cfg d" and "delete_message_sync cfg e rid mid actor adm subj d = Inr ((m, c), d')"
    and "room_write_gate e' rid adm adm subj d' = Inr ()"
  shows "delete_message_sync cfg e' rid mid actor adm subj d' = Inr ((m, False), d')"
proof -
  obtain row where row: "get_message_row d' rid mid = Some row" "adm \<or> msg_sender row = actor"
    "msg_deleted_at row \<noteq> None" "message_from_row row = Inr m"
    by (rule delete_message_tombstone [OF assms(1,2)])
  then show ?thesis using assms(3) by (auto simp: delete_message_sync_def)
qed

theorem delete_message_idempotent_witness:
  "delete_message_sync sample_cfg (sample_env 5) lobby [51, 48] ann False (Some ann) deleted_db =
     Inr ((gone_message, False), deleted_db)"
  by (rule delete_message_idempotent [OF inv_message_db delete_message_sample])
    (simp add: sample_defs store_eval)

subsection \<open>Reactions and pins\<close>

lemma reactions_after:
  assumes "set_message_reaction_sync cfg e rid mid reactor key present af subj d = Inr (mu, d')"
  obtains changed d1 where "toggle_reaction (now_op e) rid mid reactor key present d = Inr (changed, d1)"
    "db_reactions d' = db_reactions d1" "rm_changed mu = changed"
  using assms
proof (cases rule: set_message_reaction_cases)
  case (same row m)
  then show ?thesis using that [of False d] by (auto simp: ReactionMutation_def)
next
  case (changed row d1 d2 m)
  have "db_reactions d2 = db_reactions d1"
    using changed(4) by (auto simp: refresh_summaries_def update_message_row_def split: if_splits)
  then show ?thesis using that [of True d1] changed(3,6) insert_webhook_tables [OF changed(7)]
    by (auto simp: ReactionMutation_def)
qed

text \<open>
  Reactions are a set of (message, reactor, key) triples: setting one to present or absent makes
  exactly that triple present or absent, touches no other triple, and reports a change exactly when
  it was not so before. In particular repeating the request changes nothing.
\<close>

theorem reaction_is_set_update:
  assumes "set_message_reaction_sync cfg e rid mid reactor key present af subj d = Inr (mu, d')"
  shows "has_reaction d' m r k = (if (m, r, k) = (mid, reactor, key) then present else has_reaction d m r k) \<and>
    rm_changed mu = (has_reaction d mid reactor key \<noteq> present)"
proof -
  obtain changed d1 where t: "toggle_reaction (now_op e) rid mid reactor key present d = Inr (changed, d1)"
    and d': "db_reactions d' = db_reactions d1" "rm_changed mu = changed"
    by (rule reactions_after [OF assms])
  have "has_reaction d1 m r k = (if (m, r, k) = (mid, reactor, key) then present else has_reaction d m r k) \<and>
    changed = (has_reaction d mid reactor key \<noteq> present)"
    using t
  proof (cases rule: toggle_reaction_cases)
    case add
    then show ?thesis by (auto simp: has_reaction_def reaction_ident_def)
  next
    case remove
    then show ?thesis by (auto simp: has_reaction_def list_ex_iff)
  next
    case same
    then show ?thesis by auto
  qed
  then show ?thesis using d' by (simp add: has_reaction_def)
qed

theorem reaction_is_set_update_witness:
  "\<exists>mu d'. set_message_reaction_sync sample_cfg (sample_env 4) lobby [51, 48] bob [117] True False (Some bob) message_db =
     Inr (mu, d') \<and> has_reaction d' [51, 48] bob [117] \<and> rm_changed mu"
proof -
  obtain mu d' where run: "set_message_reaction_sync sample_cfg (sample_env 4) lobby [51, 48] bob [117] True False
      (Some bob) message_db = Inr (mu, d')"
    using reaction_sample by blast
  have "\<not> has_reaction message_db [51, 48] bob [117]" by (simp add: has_reaction_def sample_defs empty_db_def)
  then show ?thesis using reaction_is_set_update [OF run, of "[51, 48]" bob "[117]"] run by auto
qed

text \<open>
  The reaction summary stored in a message row is the truth about the reaction table: its keys are
  listed once each, in order, and are exactly the keys somebody reacted with; each count is the number
  of distinct reactors with that key; and there are at most twenty keys.
\<close>

theorem reaction_summary_counts:
  assumes "store_inv cfg d" and "m \<in> set (db_messages d)"
  shows "sorted (map rs_key (msg_reactions m)) \<and> distinct (map rs_key (msg_reactions m)) \<and>
    length (msg_reactions m) \<le> 20 \<and>
    set (map rs_key (msg_reactions m)) = {k. \<exists>r. has_reaction d (msg_id m) r k} \<and>
    (\<forall>s\<in>set (msg_reactions m). rs_count s = card {r. has_reaction d (msg_id m) r (rs_key s)})"
proof -
  have t: "tables_inv d" using assms(1) by (simp add: store_inv_def)
  have m: "msg_reactions m = reaction_summaries (db_reactions d) (msg_id m)" "length (msg_reactions m) \<le> 20"
    using t assms(2) unfolding tables_inv_def reactions_inv_def by auto
  have "set (map rs_key (msg_reactions m)) = {k. \<exists>r. has_reaction d (msg_id m) r k}"
    unfolding m(1) rs_key_summaries has_reaction_def list_ex_iff
    by (auto simp: set_reaction_keys reaction_ident_def)
  moreover have "rs_count s = card {r. has_reaction d (msg_id m) r (rs_key s)}" if "s \<in> set (msg_reactions m)" for s
    using that reaction_count_card [of d "msg_id m" "rs_key s"] t unfolding m(1)
    by (auto simp: reaction_summaries_def tables_inv_def keys_inv_def)
  moreover have "distinct (sort (reaction_keys (db_reactions d) (msg_id m)))" by (simp add: reaction_keys_def)
  ultimately show ?thesis using m(2) unfolding m(1) rs_key_summaries by simp
qed

theorem reaction_summary_counts_witness:
  "msg_reactions (message_row_of first_message (Some ann)) = [] \<and>
   {k. \<exists>r. has_reaction message_db [51, 48] r k} = {}"
  using reaction_summary_counts [OF inv_message_db, of "message_row_of first_message (Some ann)"]
  by (simp add: message_db_def) (simp add: first_message_def)

text \<open>
  A pin request makes the room-wide pin state of a live message what was asked for, reports a
  change exactly when it differed, and when it did not, the database is untouched.
\<close>

theorem pin_sets_state:
  assumes "store_inv cfg d" and "set_message_pin_sync cfg e rid mid pinner actor pinned af subj d = Inr (mu, d')"
  shows "\<exists>row row'. get_message_row d rid mid = Some row \<and> get_message_row d' rid mid = Some row' \<and>
    (msg_pinned_at row' \<noteq> None) = pinned \<and> msg_pinned_at (pm_message mu) = msg_pinned_at row' \<and>
    pm_changed mu = ((msg_pinned_at row \<noteq> None) \<noteq> pinned) \<and> (pm_changed mu \<or> d' = d)"
  using assms(2)
proof (cases rule: set_message_pin_cases)
  case (same row m)
  then show ?thesis using message_from_row_fields(8) [OF same(4)] by (auto simp: PinMutation_def)
next
  case (changed row d1 d2 m)
  let ?row = "pin_row (now_op e) pinner pinned row"
  have t: "tables_inv d" "tables_inv d'"
    using assms(1) set_message_pin_inv [OF assms(2,1)] by (simp_all add: store_inv_def)
  have r: "row \<in> set (db_messages d)" "msg_id row = mid" "msg_room_id row = rid"
    using get_message_row_SomeD [OF changed(1)] by simp_all
  have d1: "d1 = change_message mid (pin_row (now_op e) pinner pinned) (db_reactions d) d"
    by (rule update_message_row_change [OF changed(4)])
  have "?row \<in> set (db_messages d')"
    using insert_webhook_tables [OF changed(8)] insert_audit_rooms [OF changed(5)] r(1,2)
    by (auto simp: d1 in_change_message)
  then have "get_message_row d' rid mid = Some ?row"
    using get_message_row_unique [OF t(2), of ?row] r by (simp add: pin_row_def)
  moreover have "message_from_row ?row = Inr m"
    using changed(6) reread_change [OF _ r(1,2), of "pin_row (now_op e) pinner pinned"] t(1)
    unfolding reread_after_audit [OF changed(5)] d1 by (simp add: tables_inv_def)
  from message_from_row_fields(8) [OF this] have "msg_pinned_at m = msg_pinned_at ?row" .
  ultimately show ?thesis using changed(1,3,7) by (auto simp: PinMutation_def pin_row_def)
qed

theorem pin_sets_state_witness:
  "\<exists>mu d'. set_message_pin_sync sample_cfg (sample_env 4) lobby [51, 48] ann ann True False (Some ann) message_db =
     Inr (mu, d') \<and> (\<exists>row'. get_message_row d' lobby [51, 48] = Some row' \<and> msg_pinned_at row' \<noteq> None)"
proof -
  obtain mu d' where run: "set_message_pin_sync sample_cfg (sample_env 4) lobby [51, 48] ann ann True False
      (Some ann) message_db = Inr (mu, d')"
    using pin_sample by blast
  then show ?thesis using pin_sets_state [OF inv_message_db run] by auto
qed

subsection \<open>Read cursors\<close>

text \<open>
  C26. A subject's read cursor in a room only moves forward: after marking, the cursor is the larger of
  the old one and the marked message's position, a change is reported exactly when it moved, and no
  other cursor is touched.
\<close>

theorem mark_read_monotone:
  assumes "mark_read_sync cfg e rid subj mid d = Inr (mu, d')"
  shows "\<exists>row s'. mark_target rid mid d = Inr row \<and> get_read_row d' rid subj = Some s' \<and>
    read_cursor s' = (case get_read_row d rid subj of
      None \<Rightarrow> read_cursor (read_candidate (now_op e) rid subj row)
    | Some s \<Rightarrow> max (read_cursor s) (read_cursor (read_candidate (now_op e) rid subj row))) \<and>
    rsm_changed mu = (case get_read_row d rid subj of None \<Rightarrow> True | Some s \<Rightarrow> read_cursor s < read_cursor s') \<and>
    (\<forall>r u. (r, u) \<noteq> (rid, subj) \<longrightarrow> get_read_row d' r u = get_read_row d r u)"
  using assms
proof (cases rule: mark_read_cases)
  case (1 row)
  then show ?thesis
    by (cases "get_read_row d rid subj")
      (auto simp: advances_def get_read_store_cursor max_def not_less split: if_splits)
qed

theorem mark_read_monotone_witness:
  "\<exists>mu d'. mark_read_sync sample_cfg (sample_env 4) lobby bob (Some [51, 48]) message_db = Inr (mu, d') \<and>
     (\<exists>s'. get_read_row d' lobby bob = Some s' \<and> read_cursor s' = (3, [51, 48]))"
proof -
  obtain mu d' where run: "mark_read_sync sample_cfg (sample_env 4) lobby bob (Some [51, 48]) message_db = Inr (mu, d')"
    using mark_read_sample by blast
  moreover have "mark_target lobby (Some [51, 48]) message_db = Inr (Some (message_row_of first_message (Some ann)))"
    by (simp add: sample_defs mark_target_def get_message_row_def)
  moreover have "get_read_row message_db lobby bob = None"
    by (simp add: sample_defs get_read_row_def empty_db_def)
  ultimately show ?thesis using mark_read_monotone [OF run]
    by (auto simp: read_cursor_candidate message_key_def first_message_def)
qed

text \<open>
  Marking a room read without naming a message leaves nothing unread: the returned unread count
  is zero, even when the subject's cursor was already ahead of every message.
\<close>

theorem mark_latest_reads_all:
  assumes "mark_read_sync cfg e rid subj None d = Inr (mu, d')"
  shows "rst_unread_count (rsm_state mu) = 0"
  using assms
proof (cases rule: mark_read_cases)
  case (1 row)
  let ?c = "read_candidate (now_op e) rid subj row"
  have row: "row = latest_message (\<lambda>m. msg_room_id m = rid) d" using 1(2) by (simp add: mark_target_def)
  have le: "message_key m \<le> read_cursor ?c" if "m \<in> set (db_messages d)" "msg_room_id m = rid" for m
  proof (cases row)
    case None
    then show ?thesis using that row by (simp add: latest_message_None)
  next
    case (Some l)
    then show ?thesis using latest_message_Some(2) [of "\<lambda>m. msg_room_id m = rid" d l m] row that
      by (simp add: read_cursor_candidate)
  qed
  have msgs: "unread_count d' = unread_count d" using 1(5) by simp
  have "\<exists>s. get_read_row d' rid subj = Some s \<and> read_cursor ?c \<le> read_cursor s"
    using 1(4,5) by (auto simp: advances_def get_read_store_cursor not_less split: option.splits if_splits)
  then obtain s where s: "get_read_row d' rid subj = Some s" "read_cursor ?c \<le> read_cursor s" by blast
  have "unread_count d rid subj (Some s) = 0" by (rule unread_zero) (use le s(2) order_trans in blast)
  then show ?thesis using 1(6) s(1) msgs by (simp add: read_state_from_connection_def)
qed

theorem mark_latest_reads_all_witness:
  "\<exists>mu d'. mark_read_sync sample_cfg (sample_env 4) lobby bob None message_db = Inr (mu, d') \<and>
     rst_unread_count (rsm_state mu) = 0 \<and> unread_count message_db lobby bob None = 1"
proof -
  obtain mu d' where run: "mark_read_sync sample_cfg (sample_env 4) lobby bob None message_db = Inr (mu, d')"
    using mark_latest_sample by blast
  moreover have "unread_count message_db lobby bob None = 1"
    by (simp add: unread_count_def countable_message_def sample_defs)
  ultimately show ?thesis using mark_latest_reads_all [OF run] by blast
qed

subsection \<open>Listings\<close>

text \<open>
  C30. Paging through a room's history is complete and exact: from any reachable store, following the
  \<open>next_before\<close> cursors from the first page ends after finitely many requests, every page has at most
  \<open>limit\<close> messages in chronological order, and the pages together list every message of the room
  exactly once, newest page first.
\<close>

theorem list_messages_walk:
  assumes "reachable cfg d" and "has_room d rid" and "0 < limit"
  shows "\<exists>pages. follow (Suc (length (room_messages d rid))) (\<lambda>before. list_messages_sync rid limit before d) None =
      Some (Inr pages) \<and>
    concat (map (page_order True) pages) = map decoded (order_by_desc message_key (room_messages d rid)) \<and>
    (\<forall>p\<in>set pages. length p \<le> limit)"
  using messages.follow_all [OF reachable_listable [OF assms(1,2)] assms(3)] by simp

theorem list_messages_walk_witness:
  "\<exists>pages. follow 2 (\<lambda>before. list_messages_sync lobby 3 before message_db) None = Some (Inr pages) \<and>
    concat (map (page_order True) pages) = map decoded (order_by_desc message_key (room_messages message_db lobby))"
proof -
  have "has_room message_db lobby" by (simp add: has_room_def sample_defs)
  moreover have "length (room_messages message_db lobby) = 1" by (simp add: room_messages_def sample_defs)
  ultimately show ?thesis using list_messages_walk [OF reachable_message_db, of lobby 3]
    by (auto simp: numeral_2_eq_2)
qed

text \<open>
  Search pages through exactly the live messages of the room whose normalised content contains the
  normalised query: every one of them, once, and none other, whatever the normalisation.
\<close>

theorem search_messages_walk:
  assumes "reachable cfg d" and "has_room d rid" and "0 < limit"
    and "normalize_search_query nfkc query = Inr pattern"
  shows "\<exists>pages. follow (Suc (length (matching_messages nfkc pattern d rid)))
      (\<lambda>before. search_messages_sync nfkc rid query limit before d) None = Some (Inr pages) \<and>
    concat (map (page_order True) pages) =
      map decoded (order_by_desc message_key (matching_messages nfkc pattern d rid)) \<and>
    (\<forall>p\<in>set pages. length p \<le> limit)"
proof -
  have p: "pattern = nfkc (py_strip query)"
    using assms(4) by (simp add: normalize_search_query_def Let_def split: if_splits)
  have "searchable ((nfkc, query), rid, d)"
    using reachable_listable [OF assms(1,2)] assms(4) by (simp add: searchable_def)
  from search.follow_all [OF this assms(3)] show ?thesis by (simp add: search_rows_def p)
qed

theorem search_messages_walk_witness:
  "\<exists>pages. follow 2 (\<lambda>before. search_messages_sync (\<lambda>s. s) lobby [104, 105] 3 before message_db) None = Some (Inr pages) \<and>
    concat (map (page_order True) pages) = map decoded [message_row_of first_message (Some ann)]"
proof -
  have room: "has_room message_db lobby" by (simp add: has_room_def sample_defs)
  have query: "normalize_search_query (\<lambda>s. s) [104, 105] = Inr [104, 105]"
    by (simp add: normalize_search_query_def strip_defs)
  have rows: "matching_messages (\<lambda>s. s) [104, 105] message_db lobby = [message_row_of first_message (Some ann)]"
    by (simp add: matching_messages_def room_messages_def instr_def sample_defs)
  from search_messages_walk [OF reachable_message_db room _ query, of 3] show ?thesis
    unfolding rows by (auto simp: numeral_2_eq_2 order_by_desc_def simp del: follow.simps)
qed

subsection \<open>The outbox\<close>

text \<open>
  C27. An enabled event is refused for lack of space exactly when the outbox is full of deliveries that
  are still pending; otherwise finished deliveries make room. No pending delivery is ever evicted.
\<close>

theorem outbox_capacity:
  assumes "webhooks_ok cfg d" and "ev \<in> set (webhook_events cfg)"
  shows "(insert_webhook cfg uid ev rid res t x d = Inl WebhookCapacityError \<longleftrightarrow>
      max_webhook_deliveries cfg \<le> length (filter pending (db_webhooks d))) \<and>
    (\<forall>d' w. insert_webhook cfg uid ev rid res t x d = Inr d' \<longrightarrow> w \<in> set (db_webhooks d) \<longrightarrow> pending w \<longrightarrow>
      w \<in> set (db_webhooks d'))"
proof -
  have k: "distinct (map wd_id (db_webhooks d))" "length (db_webhooks d) \<le> max_webhook_deliveries cfg"
    using assms(1) by (simp_all add: webhooks_ok_def)
  have "w \<in> set (db_webhooks d')" if "insert_webhook cfg uid ev rid res t x d = Inr d'" "w \<in> set (db_webhooks d)" "pending w" for d' w
    using that(1) by (cases rule: insert_webhook_cases)
      (use that(2,3) evict_terminal_keeps_pending [OF k(1)] in auto)
  then show ?thesis using insert_webhook_full [OF k assms(2)] by blast
qed

theorem outbox_capacity_witness:
  "webhooks_ok sample_cfg message_db \<and>
   insert_webhook sample_cfg [57] ''message.created'' lobby [51] 9 (MessageData None first_message) message_db \<noteq>
     Inl WebhookCapacityError"
proof -
  have ok: "webhooks_ok sample_cfg message_db" using inv_message_db by (simp add: store_inv_def)
  have "''message.created'' \<in> set (webhook_events sample_cfg)" by (simp add: sample_cfg_def)
  from outbox_capacity [OF ok this] ok show ?thesis
    by (simp add: message_db_def) (simp add: sample_cfg_def)
qed

text \<open>
  The dispatcher is handed the most urgent due delivery: one that is pending, still has its body
  and whose time has come, with the least next-attempt time, creation time and id among those; and it
  is handed none only when there is none.
\<close>

theorem next_delivery_is_first_due:
  "case next_webhook_delivery_sync now d of
     None \<Rightarrow> \<forall>w\<in>set (db_webhooks d). \<not> is_due now w
   | Some (delivery, payload) \<Rightarrow> \<exists>r\<in>set (db_webhooks d). is_due now r \<and> wr_payload r = Some payload \<and>
       delivery = fst (webhook_from_row r) \<and> (\<forall>w\<in>set (db_webhooks d). is_due now w \<longrightarrow> due_key r \<le> due_key w)"
proof (cases "\<forall>w\<in>set (db_webhooks d). \<not> is_due now w")
  case True
  then show ?thesis by (simp add: next_webhook_None)
next
  case False
  let ?o = "order_by due_key (filter (is_due now) (db_webhooks d))"
  have s: "set ?o = {w \<in> set (db_webhooks d). is_due now w}" by simp
  then obtain r rest where o: "?o = r # rest" using False by (cases ?o) auto
  then have r: "r \<in> set (db_webhooks d)" "is_due now r" using s by auto
  then obtain p where p: "wr_payload r = Some p" by (auto simp: is_due_def)
  have "sorted (map due_key ?o)" by (rule sorted_order_by)
  then have least: "due_key r \<le> due_key w" if "w \<in> set (db_webhooks d)" "is_due now w" for w
    using that s unfolding o by auto
  have "next_webhook_delivery_sync now d = Some (fst (webhook_from_row r), p)"
    unfolding next_webhook_delivery_sync_def o by (simp add: p)
  then show ?thesis using r p least by auto
qed

theorem next_delivery_is_first_due_witness:
  "\<exists>delivery payload. next_webhook_delivery_sync 5 message_db = Some (delivery, payload) \<and>
     payload = \<lparr>env_id = delivery_id_of [51, 51], env_type = ''message.created'', env_timestamp = 3,
       env_room_id = lobby, env_data = MessageData None first_message\<rparr>"
proof -
  have due: "\<exists>w\<in>set (db_webhooks message_db). is_due 5 w" by (simp add: message_db_def is_due_def)
  show ?thesis using next_delivery_is_first_due [where now = 5 and d = message_db] due
    by (auto simp: message_db_def split: option.splits)
qed

text \<open>
  A delivery is a small state machine: only a pending delivery takes an attempt; the attempt adds
  one to its count and leaves it pending, delivered or failed as recorded, never both; its body, its
  identity and every other delivery are untouched.
\<close>

theorem attempt_moves_one_pending_delivery:
  assumes "webhooks_ok cfg d" and "record_webhook_attempt_sync did t st err nxt dl fl d = Inr (u, d')"
  shows "\<exists>w w'. find (\<lambda>w. wd_id w = did) (db_webhooks d) = Some w \<and> pending w \<and>
    find (\<lambda>w. wd_id w = did) (db_webhooks d') = Some w' \<and>
    wd_attempt_count w' = wd_attempt_count w + 1 \<and> wr_payload w' = wr_payload w \<and>
    (wd_delivered_at w' \<noteq> None) = dl \<and> (wd_failed_at w' \<noteq> None) = fl \<and> \<not> (dl \<and> fl) \<and>
    wd_next_attempt_at w' = nxt \<and>
    (\<forall>other. other \<noteq> did \<longrightarrow> find (\<lambda>w. wd_id w = other) (db_webhooks d') = find (\<lambda>w. wd_id w = other) (db_webhooks d))"
proof -
  let ?f = "\<lambda>w :: webhook_row. w\<lparr>wd_attempt_count := wd_attempt_count w + 1, wd_next_attempt_at := nxt,
    wd_last_attempt_at := Some t, wd_delivered_at := (if dl then Some t else None),
    wd_failed_at := (if fl then Some t else None), wd_last_status_code := st, wd_last_error := err\<rparr>"
  from assms(2) obtain w where w: "w \<in> set (db_webhooks d)" "wd_id w = did" "pending w" and nb: "\<not> (dl \<and> fl)"
    and d': "d' = d\<lparr>db_webhooks := update_where (\<lambda>w. wd_id w = did \<and> pending w) ?f (db_webhooks d)\<rparr>"
    by (auto simp: record_webhook_attempt_Inr)
  have rows: "db_webhooks d' = update_where (\<lambda>w. wd_id w = did \<and> pending w) ?f (db_webhooks d)"
    using d' by simp
  have find_d': "find (\<lambda>w. wd_id w = k) (db_webhooks d') =
      map_option (\<lambda>w. if wd_id w = did \<and> pending w then ?f w else w) (find (\<lambda>w. wd_id w = k) (db_webhooks d))" for k
    unfolding rows by (rule find_update_where) simp
  have "find (\<lambda>w. wd_id w = did) (db_webhooks d) = Some w"
    using find_by_key [of wd_id "db_webhooks d" w] assms(1) w by (simp add: webhooks_ok_def)
  moreover have "find (\<lambda>w. wd_id w = k) (db_webhooks d') = find (\<lambda>w. wd_id w = k) (db_webhooks d)" if "k \<noteq> did" for k
    using that unfolding find_d' by (cases "find (\<lambda>w. wd_id w = k) (db_webhooks d)") (auto dest: find_SomeD)
  ultimately show ?thesis using w nb find_d' [of did] by auto
qed

theorem attempt_moves_one_pending_delivery_witness:
  "\<exists>u d'. record_webhook_attempt_sync (delivery_id_of [51, 51]) 6 (Some 200) None None True False message_db = Inr (u, d') \<and>
     (\<exists>w'. find (\<lambda>w. wd_id w = delivery_id_of [51, 51]) (db_webhooks d') = Some w' \<and> wd_delivered_at w' \<noteq> None)"
proof -
  have ok: "webhooks_ok sample_cfg message_db" using inv_message_db by (simp add: store_inv_def)
  obtain u d' where run: "record_webhook_attempt_sync (delivery_id_of [51, 51]) 6 (Some 200) None None True False
      message_db = Inr (u, d')"
    by (simp add: record_webhook_attempt_sync_def message_db_def)
  then show ?thesis using attempt_moves_one_pending_delivery [OF ok run] by auto
qed

subsection \<open>Retention and audit\<close>

text \<open>
  A retention run removes exactly the messages created before its cutoff, in every room, keeps all
  others in place, and reports how many it removed.
\<close>

theorem retention_is_exact:
  assumes "store_inv cfg d" and "run_retention cfg e actor d = Inr ((n, cutoff), d')"
  shows "(\<exists>days. message_retention_days cfg = Some days \<and> cutoff = now_op e - days_delta days) \<and>
    n = length (filter (\<lambda>m. msg_created_at m < cutoff) (db_messages d)) \<and>
    map msg_id (db_messages d') = map msg_id (filter (\<lambda>m. cutoff \<le> msg_created_at m) (db_messages d))"
proof -
  let ?b = "delete_messages_with_webhook_scrub (expired cutoff d) d"
  from assms(2) have days: "\<exists>days. message_retention_days cfg = Some days \<and> cutoff = now_op e - days_delta days"
    and run: "run_retention_sync cfg e cutoff actor d = Inr (n, d')"
    by (auto simp: run_retention_def Let_def split: option.splits)
  obtain details where "insert_audit cfg (uuid_audit e) (now_audit e) ''retention.executed'' actor None details (snd ?b) = Inr d'"
    and n: "n = fst ?b"
    using run by (cases ?b) (auto simp: run_retention_sync_def Let_def)
  then have msgs: "db_messages d' = db_messages (snd ?b)" using insert_audit_rooms by blast
  have keys: "keys_inv d" using assms(1) by (simp add: store_inv_def tables_inv_def)
  have sel: "msg_id m \<in> set (map msg_id (expired cutoff d)) \<longleftrightarrow> msg_created_at m < cutoff" if "m \<in> set (db_messages d)" for m
    using that keys by (auto simp: expired_def keys_inv_def dest: distinct_key_inj)
  have "map msg_id (db_messages (snd ?b)) = map msg_id (filter (\<lambda>m. cutoff \<le> msg_created_at m) (db_messages d))"
  proof (cases "expired cutoff d = []")
    case True
    then have "filter (\<lambda>m. cutoff \<le> msg_created_at m) (db_messages d) = db_messages d"
      by (auto simp: expired_def filter_empty_conv filter_id_conv not_less)
    then show ?thesis using True by (simp add: delete_batch_messages)
  next
    case False
    have "filter (\<lambda>m. \<not> msg_id m \<in> set (map msg_id (expired cutoff d))) (db_messages d) =
        filter (\<lambda>m. cutoff \<le> msg_created_at m) (db_messages d)"
      by (rule filter_cong) (use sel in \<open>auto simp: not_less\<close>)
    then show ?thesis using False by (simp add: delete_batch_messages map_id_delete_message_rows)
  qed
  then show ?thesis using days n msgs by (simp add: expired_def)
qed

theorem retention_is_exact_witness:
  "\<exists>n c d'. run_retention (sample_cfg\<lparr>message_retention_days := Some 0\<rparr>) (sample_env 4) ann message_db = Inr ((n, c), d') \<and>
     n = 1 \<and> db_messages d' = []"
proof -
  let ?cfg = "sample_cfg\<lparr>message_retention_days := Some 0\<rparr>"
  have inv: "store_inv ?cfg message_db"
    using inv_message_db by (simp add: store_inv_def caps_inv_def audits_ok_def webhooks_ok_def)
  obtain r d' where run: "run_retention ?cfg (sample_env 4) ann message_db = Inr (r, d')"
    using retention_sample by blast
  obtain n c where r: "r = (n, c)" by (cases r)
  from retention_is_exact [OF inv run [unfolded r]]
  have "c = 4" "n = length (filter (\<lambda>m. msg_created_at m < c) (db_messages message_db))"
    "map msg_id (db_messages d') = map msg_id (filter (\<lambda>m. c \<le> msg_created_at m) (db_messages message_db))"
    by (auto simp: days_delta_def sample_env_def)
  then show ?thesis using run r by (simp add: sample_defs)
qed

text \<open>
  The audit trail keeps its newest events: after an insert it holds as many events as the cap
  allows, and every event that was dropped is no newer than every event that is kept.
\<close>

theorem audit_trail_keeps_newest:
  assumes "audits_ok cfg d" and "insert_audit cfg uid now action actor room details d = Inr d'"
  shows "length (db_audits d') = min (max_audit_events cfg) (length (db_audits d) + 1) \<and>
    (\<forall>a b. a \<in> set (db_audits d) \<longrightarrow> a \<notin> set (db_audits d') \<longrightarrow> b \<in> set (db_audits d') \<longrightarrow> audit_key a \<le> audit_key b)"
proof -
  let ?new = "\<lparr>au_id = uid, au_action = action, au_actor = actor, au_room_id = room,
    au_created_at = now, au_details = sort_key fst details\<rparr>"
  have d': "db_audits d' = trim_audits cfg (db_audits d @ [?new])" and fresh: "uid \<notin> au_id ` set (db_audits d)"
    using assms(2) by (simp_all add: insert_audit_Inr)
  have k: "distinct (map au_id (db_audits d @ [?new]))"
    using assms(1) fresh by (simp add: audits_ok_def)
  show ?thesis using trim_audits_newest [OF k] length_trim_audits [OF k, of cfg] by (auto simp: d')
qed

theorem audit_trail_keeps_newest_witness:
  "\<exists>d'. insert_audit sample_cfg [57] 9 ''room.frozen'' ann (Some lobby) [] message_db = Inr d' \<and> length (db_audits d') = 2"
proof -
  have ok: "audits_ok sample_cfg message_db" using inv_message_db by (simp add: store_inv_def)
  obtain d' where "insert_audit sample_cfg [57] 9 ''room.frozen'' ann (Some lobby) [] message_db = Inr d'"
    by (simp add: insert_audit_def sample_defs)
  then show ?thesis using audit_trail_keeps_newest [OF ok] by (fastforce simp: sample_defs)
qed

subsection \<open>Moderation, rooms and threads\<close>

lemma control_after_moderation:
  assumes "set_member_moderation_sync cfg e rid subj p actor d = Inr (r, d')"
    and "banned_for_seconds p = Some s" "s \<noteq> 0"
  shows "\<exists>c. get_control_row d' rid subj = Some c \<and> mod_banned_until c = Some (now_op e + seconds_delta s)"
    and "(r', u) \<noteq> (rid, subj) \<Longrightarrow> get_control_row d' r' u = get_control_row d r' u"
proof -
  let ?key = "\<lambda>c. (mod_room_id c, mod_subject c)"
  from assms obtain mu d2 aud wh where d2: "insert_audit cfg (uuid_audit e) (now_audit e) ''member.moderation_updated'' actor (Some rid) aud
      (d\<lparr>db_controls := upsert ?key \<lparr>mod_room_id = rid, mod_subject = subj, mod_muted_until = mu,
        mod_banned_until = Some (now_op e + seconds_delta s), mod_updated_at = now_op e\<rparr> (db_controls d)\<rparr>) = Inr d2"
    "insert_webhook cfg (uuid_webhook e) ''member.moderation.updated'' rid subj (now_op e) wh d2 = Inr d'"
    by (auto simp: set_member_moderation_sync_def new_until_def Let_def split: if_splits)
  have c: "db_controls d' = upsert ?key \<lparr>mod_room_id = rid, mod_subject = subj, mod_muted_until = mu,
        mod_banned_until = Some (now_op e + seconds_delta s), mod_updated_at = now_op e\<rparr> (db_controls d)"
    using insert_webhook_tables [OF d2(2)] insert_audit_rooms [OF d2(1)] by simp
  note f = find_upsert [where key = ?key and row = "\<lparr>mod_room_id = rid, mod_subject = subj, mod_muted_until = mu,
        mod_banned_until = Some (now_op e + seconds_delta s), mod_updated_at = now_op e\<rparr>" and rows = "db_controls d"]
  show "\<exists>c. get_control_row d' rid subj = Some c \<and> mod_banned_until c = Some (now_op e + seconds_delta s)"
    using f [of "(rid, subj)"] by (simp add: get_control_row_def c)
  show "(r', u) \<noteq> (rid, subj) \<Longrightarrow> get_control_row d' r' u = get_control_row d r' u"
    using f [of "(r', u)"] by (auto simp: get_control_row_def c)
qed

text \<open>
  C14. A ban takes effect and ends when it says: after a member is banned for \<open>s\<close> seconds, its writes to
  that room are refused as banned at exactly the times before the ban's end, and no other member and
  no other room is affected.
\<close>

theorem ban_lasts_its_duration:
  assumes "set_member_moderation_sync cfg e rid subj p actor d = Inr (r, d')"
    and "banned_for_seconds p = Some s" and "s \<noteq> 0"
  shows "(enforce_member_write_sync t rid (Some subj) d' = Inl (MemberBannedError subj) \<longleftrightarrow>
      t < now_op e + s * 1000000) \<and>
    ((r', u) \<noteq> (rid, subj) \<longrightarrow> enforce_member_write_sync t r' (Some u) d' = enforce_member_write_sync t r' (Some u) d)"
proof -
  obtain c where "get_control_row d' rid subj = Some c" "mod_banned_until c = Some (now_op e + s * 1000000)"
    using control_after_moderation(1) [OF assms] by (auto simp: seconds_delta_def microseconds_def)
  then show ?thesis using control_after_moderation(2) [OF assms]
    by (auto simp: enforce_member_write_sync_def)
qed

theorem ban_lasts_its_duration_witness:
  "\<exists>r d'. set_member_moderation_sync sample_cfg (sample_env 4) lobby bob
       \<lparr>muted_for_seconds = None, banned_for_seconds = Some 60\<rparr> ann message_db = Inr (r, d') \<and>
     enforce_member_write_sync 5 lobby (Some bob) d' = Inl (MemberBannedError bob)"
proof -
  obtain r d' where run: "set_member_moderation_sync sample_cfg (sample_env 4) lobby bob
       \<lparr>muted_for_seconds = None, banned_for_seconds = Some 60\<rparr> ann message_db = Inr (r, d')"
    using moderation_sample by blast
  from ban_lasts_its_duration [OF run, of 60 5] run show ?thesis by (auto simp: sample_env_def)
qed

lemma delete_room_other_messages:
  assumes "tables_inv d"
  shows "db_messages (delete_room_row rid d) = filter (\<lambda>m. msg_room_id m \<noteq> rid) (db_messages d)"
proof -
  let ?g = "map msg_id (filter (\<lambda>m. msg_room_id m = rid) (db_messages d))"
  have "orphan ?g m = m" if m: "m \<in> set (db_messages d)" "msg_room_id m \<noteq> rid" for m
  proof (cases "msg_parent_message_id m")
    case None
    then show ?thesis by (simp add: orphan_def)
  next
    case (Some p)
    then obtain q where q: "q \<in> set (db_messages d)" "msg_id q = p" "msg_room_id q = msg_room_id m"
      using assms m(1) unfolding tables_inv_def threads_inv_def by blast
    have "p \<notin> set ?g"
    proof
      assume "p \<in> set ?g"
      then obtain n where "n \<in> set (db_messages d)" "msg_id n = p" "msg_room_id n = rid" by auto
      with message_unique [OF assms this(1) q(1)] q(2,3) m(2) show False by simp
    qed
    then show ?thesis using Some by (simp add: orphan_def)
  qed
  then have "map (orphan ?g) (filter (\<lambda>m. msg_room_id m \<noteq> rid) (db_messages d)) =
      filter (\<lambda>m. msg_room_id m \<noteq> rid) (db_messages d)"
    by (intro map_idI) simp
  then show ?thesis by (simp add: delete_room_row_def delete_message_rows_def Let_def)
qed

text \<open>
  Deleting a room requires that it is archived and erases it: no message, reaction, member control
  or read cursor of it remains and no webhook body of it is retained, while the messages of every
  other room are exactly as before. The returned number is the number of messages erased.
\<close>

theorem delete_room_erases:
  assumes "store_inv cfg d" and "delete_room_sync cfg e rid actor d = Inr (n, d')"
  shows "(\<exists>r. get_room_row d rid = Some r \<and> ro_archived_at r \<noteq> None) \<and> \<not> has_room d' rid \<and>
    db_messages d' = filter (\<lambda>m. msg_room_id m \<noteq> rid) (db_messages d) \<and> n = length (room_messages d rid) \<and>
    (\<forall>x\<in>set (db_reactions d'). rx_room_id x \<noteq> rid) \<and> (\<forall>c\<in>set (db_controls d'). mod_room_id c \<noteq> rid) \<and>
    (\<forall>s\<in>set (db_reads d'). rd_room_id s \<noteq> rid) \<and>
    (\<forall>w\<in>set (db_webhooks d'). wd_room_id w = rid \<longrightarrow> wr_payload w = None)"
  using assms(2)
proof (cases rule: delete_room_sync_Inr)
  case (1 row d1)
  let ?s = "scrub_room_webhooks rid d1"
  have d1: "db_messages ?s = db_messages d" "tables_inv ?s"
    using insert_audit_rooms [OF 1(4)] insert_audit_inv(1) [OF 1(4)] assms(1)
    by (simp_all add: scrub_room_webhooks_def store_inv_def)
  have "db_messages d' = filter (\<lambda>m. msg_room_id m \<noteq> rid) (db_messages d)"
    unfolding 1(5) delete_room_other_messages [OF d1(2)] d1(1) ..
  moreover have "\<forall>w\<in>set (db_webhooks d'). wd_room_id w = rid \<longrightarrow> wr_payload w = None"
    unfolding 1(5) by (auto simp: scrub_room_webhooks_def intro: scrub_no_body [where P = "\<lambda>w. wd_room_id w = rid"])
  moreover have "\<not> has_room d' rid" by (auto simp: 1(5) delete_room_row_def Let_def has_room_def)
  ultimately show ?thesis using 1(1-3) by (simp add: 1(5) delete_room_row_def Let_def)
qed

theorem delete_room_erases_witness:
  "\<exists>n d'. delete_room_sync sample_cfg (sample_env 5) lobby ann (message_db\<lparr>db_rooms := [lobby_row\<lparr>ro_archived_at := Some 4\<rparr>]\<rparr>) =
     Inr (n, d') \<and> n = 1 \<and> db_messages d' = []"
proof -
  let ?d = "message_db\<lparr>db_rooms := [lobby_row\<lparr>ro_archived_at := Some 4\<rparr>]\<rparr>"
  have "?d = update_room lobby (\<lambda>r. r\<lparr>ro_archived_at := Some 4\<rparr>) message_db"
    by (simp add: update_room_def update_where_def sample_defs)
  then have inv: "store_inv sample_cfg ?d" using store_inv_rooms_update [OF inv_message_db] by simp
  obtain n d' where run: "delete_room_sync sample_cfg (sample_env 5) lobby ann ?d = Inr (n, d')"
    by (simp add: sample_defs store_eval delete_room_sync_def cong: res_bind_weak)
  from delete_room_erases [OF inv run] run show ?thesis by (auto simp: sample_defs room_messages_def)
qed

text \<open>
  Threads stay one level deep in every reachable store: the parent of a reply is a stored
  top-level message of the same room, also after parents were deleted, trimmed or expired.
\<close>

theorem threads_are_one_level:
  assumes "reachable cfg d" and "m \<in> set (db_messages d)" and "msg_parent_message_id m = Some p"
  shows "\<exists>q\<in>set (db_messages d). msg_id q = p \<and> msg_room_id q = msg_room_id m \<and> msg_parent_message_id q = None"
  using reachable_store_inv [OF assms(1)] assms(2,3)
  unfolding store_inv_def tables_inv_def threads_inv_def by blast

theorem threads_are_one_level_witness:
  "\<exists>d m q. reachable reply_cfg d \<and> m \<in> set (db_messages d) \<and> msg_parent_message_id m = Some [51, 48] \<and>
     q \<in> set (db_messages d) \<and> msg_id q = [51, 48] \<and> msg_parent_message_id q = None"
proof -
  obtain d m where d: "reachable reply_cfg d" "m \<in> set (db_messages d)" "msg_parent_message_id m = Some [51, 48]"
    using reply_sample by blast
  from threads_are_one_level [OF d] d show ?thesis by blast
qed

end
