(* ===== verification/Py_Bytes.thy ===== *)
theory Py_Bytes
  imports Py_Text
begin

section \<open>Python byte strings: UTF-8 encoding\<close>

text \<open>
  \<open>str.encode("utf-8")\<close> as a function to lists of byte values: a lone surrogate raises
  \<open>UnicodeEncodeError\<close>, which is \<open>None\<close> here. The encoding of the code points Python's \<open>str\<close> can
  hold is injective and its length is \<open>utf8_len\<close>, so comparing encoded credentials or bounding encoded
  sizes says something about the strings.
\<close>

type_synonym pybytes = "nat list"

definition surrogate :: "nat \<Rightarrow> bool" where
  "surrogate c \<longleftrightarrow> 55296 \<le> c \<and> c \<le> 57343"

definition utf8_bytes :: "nat \<Rightarrow> pybytes" where
  "utf8_bytes c =
     (if c < 128 then [c]
      else if c < 2048 then [192 + c div 64, 128 + c mod 64]
      else if c < 65536 then [224 + c div 4096, 128 + c div 64 mod 64, 128 + c mod 64]
      else [240 + c div 262144, 128 + c div 4096 mod 64, 128 + c div 64 mod 64, 128 + c mod 64])"

definition utf8_encode :: "pystr \<Rightarrow> pybytes option" where
  "utf8_encode s = (if list_ex surrogate s then None else Some (concat (map utf8_bytes s)))"

text \<open>The strings a Python \<open>str\<close> can be: every element is at most the last code point.\<close>

definition code_points :: "pystr \<Rightarrow> bool" where
  "code_points s = list_all (\<lambda>c. c < 1114112) s"

lemma length_utf8_bytes [simp]: "length (utf8_bytes c) = utf8_width c"
  by (simp add: utf8_bytes_def utf8_width_def)

lemma length_utf8_encode: "utf8_encode s = Some b \<Longrightarrow> length b = utf8_len s"
  by (auto simp: utf8_encode_def utf8_len_def length_concat comp_def split: if_splits)

lemma utf8_bytes_nonempty [simp]: "utf8_bytes c \<noteq> []"
  by (simp add: utf8_bytes_def)

text \<open>The first byte fixes the width, and the width and the bytes fix the code point.\<close>

lemma utf8_lead:
  assumes "c < 1114112"
  shows "hd (utf8_bytes c) < 128 \<longleftrightarrow> c < 128"
    and "hd (utf8_bytes c) < 224 \<longleftrightarrow> c < 2048"
    and "hd (utf8_bytes c) < 240 \<longleftrightarrow> c < 65536"
  using assms by (auto simp: utf8_bytes_def)

lemma utf8_width_lead:
  assumes "c < 1114112" and "d < 1114112" and "hd (utf8_bytes c) = hd (utf8_bytes d)"
  shows "utf8_width c = utf8_width d"
  using utf8_lead [OF assms(1)] utf8_lead [OF assms(2)] assms(3) by (auto simp: utf8_width_def)

lemma by_low_bits: "(c::nat) div 64 = d div 64 \<Longrightarrow> c mod 64 = d mod 64 \<Longrightarrow> c = d"
  by (metis mult_div_mod_eq)

lemma by_middle_bits:
  assumes "(c::nat) div 4096 = d div 4096" and "c div 64 mod 64 = d div 64 mod 64" and "c mod 64 = d mod 64"
  shows "c = d"
  by (rule by_low_bits [OF by_low_bits]) (use assms in \<open>simp_all add: div_mult2_eq [symmetric]\<close>)

lemma by_high_bits:
  assumes "(c::nat) div 262144 = d div 262144" and "c div 4096 mod 64 = d div 4096 mod 64"
    and "c div 64 mod 64 = d div 64 mod 64" and "c mod 64 = d mod 64"
  shows "c = d"
proof (rule by_middle_bits)
  show "c div 4096 = d div 4096"
    by (rule by_low_bits) (use assms(1,2) in \<open>simp_all add: div_mult2_eq [symmetric]\<close>)
qed (use assms(3,4) in simp_all)

lemma utf8_bytes_inj:
  assumes "c < 1114112" and "d < 1114112" and "utf8_bytes c = utf8_bytes d"
  shows "c = d"
proof -
  have "utf8_width c = utf8_width d" using utf8_width_lead [OF assms(1,2)] assms(3) by simp
  then show ?thesis
    using assms(3)
    by (auto simp: utf8_bytes_def utf8_width_def split: if_splits intro: by_low_bits by_middle_bits by_high_bits)
qed

lemma utf8_prefix_free:
  assumes "c < 1114112" and "d < 1114112" and "utf8_bytes c @ xs = utf8_bytes d @ ys"
  shows "c = d \<and> xs = ys"
proof -
  have "hd (utf8_bytes c) = hd (utf8_bytes d)"
    using assms(3) by (metis hd_append2 utf8_bytes_nonempty)
  then have "length (utf8_bytes c) = length (utf8_bytes d)"
    using utf8_width_lead [OF assms(1,2)] by simp
  with assms(3) have "utf8_bytes c = utf8_bytes d" "xs = ys" by simp_all
  with utf8_bytes_inj [OF assms(1,2)] show ?thesis by simp
qed

lemma concat_utf8_inj:
  assumes "code_points s" and "code_points t" and "concat (map utf8_bytes s) = concat (map utf8_bytes t)"
  shows "s = t"
  using assms
proof (induction s arbitrary: t)
  case Nil
  then show ?case by (cases t) auto
next
  case (Cons c s)
  then obtain d t' where t: "t = d # t'" by (cases t) auto
  with Cons.prems have "c = d \<and> concat (map utf8_bytes s) = concat (map utf8_bytes t')"
    by (intro utf8_prefix_free) (simp_all add: code_points_def)
  with Cons t show ?case by (simp add: code_points_def)
qed

lemma utf8_encode_inj:
  assumes "code_points s" and "code_points t" and "utf8_encode s = Some b" and "utf8_encode t = Some b"
  shows "s = t"
  using assms by (auto simp: utf8_encode_def split: if_splits intro: concat_utf8_inj)

end
