(* ===== verification/Auth.thy ===== *)
theory Auth
  imports Models Py_Bytes "HOL-Library.Countable"
begin

section \<open>Access tokens and principals (auth.py)\<close>

text \<open>
  The principals, the token profile and the two verifiers of \<open>samsarix_chat_engine/auth.py\<close>. A JSON
  object is an association list, read with \<open>map_of\<close> (\<open>dict.get\<close>; a JSON \<open>null\<close> and a missing key are
  both \<open>None\<close>); a \<open>frozenset\<close> is a set. PyJWT is not part of the repository: its functions are the
  fields of the record \<open>jwt\<close> (\<open>None\<close> is an exception that the callers catch) and \<open>PyJWK.from_dict\<close> is
  an argument; \<open>jwt_documented\<close> states what the properties rely on. The clock is in whole seconds:
  with integer claims and an integer leeway PyJWT's comparisons with its fractional clock come out
  the same for its integral part.
\<close>

type_synonym claims = "(pystr \<times> json) list"

datatype auth_error =
    AuthenticationError
  | TokenKeySetError string
  | TokenValueError string
  | PyTypeError

definition permission_names :: "string list" where
  "permission_names = [''room:read'', ''room:write'', ''room:pin'', ''room:read-receipts'', ''admin'']"

definition ALLOWED_PERMISSIONS :: "pystr set" where
  "ALLOWED_PERMISSIONS = set (map str permission_names)"

definition TOKEN_TYPE :: pystr where
  "TOKEN_TYPE = str ''samsarix-access+jwt''"

definition KEY_ID :: "pystr \<Rightarrow> bool" where
  "KEY_ID s \<longleftrightarrow> 1 \<le> length s \<and> length s \<le> 128 \<and>
     list_all (\<lambda>c. lower c \<or> upper c \<or> digit c \<or> c \<in> set (str ''._~-'')) s"

definition ASYMMETRIC_ALGORITHMS :: "(pystr \<times> pystr \<times> pystr option) list" where
  "ASYMMETRIC_ALGORITHMS =
     [(str ''EdDSA'', str ''OKP'', Some (str ''Ed25519'')), (str ''RS256'', str ''RSA'', None)]"

definition PRIVATE_JWK_PARAMETERS :: "pystr list" where
  "PRIVATE_JWK_PARAMETERS = map str [''d'', ''p'', ''q'', ''dp'', ''dq'', ''qi'', ''oth'', ''k'']"

definition FORBIDDEN_TOKEN_HEADERS :: "pystr list" where
  "FORBIDDEN_TOKEN_HEADERS = map str [''b64'', ''crit'', ''jku'', ''x5c'', ''x5u'']"

subsection \<open>Principals\<close>

datatype authentication = NoAuthentication | ApiKey | Token

record principal =
  subject :: "pystr option"
  permissions :: "pystr set"
  rooms :: "pystr set"
  authentication :: authentication

definition is_admin :: "principal \<Rightarrow> bool" where
  "is_admin p \<longleftrightarrow> str ''admin'' \<in> permissions p"

definition allows :: "principal \<Rightarrow> pystr \<Rightarrow> pystr option \<Rightarrow> bool" where
  "allows p permission room_id =
     (if is_admin p then True
      else if permission \<notin> permissions p then False
      else (case room_id of None \<Rightarrow> True | Some r \<Rightarrow> r \<in> rooms p))"

definition local_operator :: principal where
  "local_operator = \<lparr>subject = None, permissions = {str ''admin''}, rooms = {},
     authentication = NoAuthentication\<rparr>"

definition api_key_operator :: principal where
  "api_key_operator = \<lparr>subject = None, permissions = {str ''admin''}, rooms = {}, authentication = ApiKey\<rparr>"

subsection \<open>Validation of claims\<close>

record token_profile =
  issuer :: pystr
  audience :: pystr
  max_lifetime_seconds :: int
  clock_skew_seconds :: int

definition padded_name_ok :: "pystr \<Rightarrow> bool" where
  "padded_name_ok v \<longleftrightarrow> 1 \<le> length v \<and> length v \<le> 256 \<and> v = py_strip v"

definition validate_token_profile :: "token_profile \<Rightarrow> auth_error + unit" where
  "validate_token_profile tp =
     (if \<not> padded_name_ok (issuer tp)
      then Inl (TokenValueError ''token issuer must be 1 to 256 non-whitespace-padded characters'')
      else if \<not> padded_name_ok (audience tp)
      then Inl (TokenValueError ''token audience must be 1 to 256 non-whitespace-padded characters'')
      else if \<not> (60 \<le> max_lifetime_seconds tp \<and> max_lifetime_seconds tp \<le> 604800)
      then Inl (TokenValueError ''token maximum lifetime must be between 60 and 604800 seconds'')
      else if \<not> (0 \<le> clock_skew_seconds tp \<and> clock_skew_seconds tp \<le> 300)
      then Inl (TokenValueError ''token clock skew must be between 0 and 300 seconds'')
      else Inr ())"

definition as_string :: "json \<Rightarrow> pystr option" where
  "as_string v = (case v of JStr s \<Rightarrow> Some s | _ \<Rightarrow> None)"

definition string_list :: "json option \<Rightarrow> auth_error + pystr list" where
  "string_list value = (case value of
     Some (JArr items) \<Rightarrow>
       (if list_ex (\<lambda>v. as_string v = None) items
        then Inl (TokenValueError ''claim must be a string list'')
        else (let strings = map (the \<circ> as_string) items in
          if \<not> distinct strings \<or> 1000 < length strings
          then Inl (TokenValueError ''claim contains duplicate or excessive values'')
          else Inr strings))
   | _ \<Rightarrow> Inl (TokenValueError ''claim must be a string list''))"

definition validate_rooms :: "pystr list \<Rightarrow> auth_error + pystr set" where
  "validate_rooms rs =
     (if 1000 < card (set rs) \<or> \<not> list_all ROOM_ID_PATTERN rs
      then Inl (TokenValueError ''token rooms must contain valid room IDs'')
      else Inr (set rs))"

definition validate_permissions :: "pystr list \<Rightarrow> auth_error + pystr set" where
  "validate_permissions ps =
     (if \<not> set ps \<subseteq> ALLOWED_PERMISSIONS
      then Inl (TokenValueError ''token contains an unknown permission'')
      else Inr (set ps))"

definition claim_int :: "claims \<Rightarrow> string \<Rightarrow> int option" where
  "claim_int payload name = (case map_of payload (str name) of Some (JInt i) \<Rightarrow> Some i | _ \<Rightarrow> None)"

definition claim_str :: "claims \<Rightarrow> string \<Rightarrow> pystr option" where
  "claim_str payload name = (case map_of payload (str name) of Some (JStr s) \<Rightarrow> Some s | _ \<Rightarrow> None)"

definition subject_claim_ok :: "pystr option \<Rightarrow> bool" where
  "subject_claim_ok s = (case s of None \<Rightarrow> False
     | Some t \<Rightarrow> 1 \<le> length (py_strip t) \<and> length (py_strip t) \<le> 64 \<and> t = py_strip t)"

definition lifetime_ok :: "claims \<Rightarrow> int \<Rightarrow> bool" where
  "lifetime_ok payload max_lifetime =
     (case (claim_int payload ''iat'', claim_int payload ''nbf'', claim_int payload ''exp'') of
        (Some issued_at, Some not_before, Some expires_at) \<Rightarrow>
          \<not> expires_at \<le> issued_at \<and> \<not> expires_at - issued_at > max_lifetime
      | _ \<Rightarrow> False)"

definition token_id_ok :: "pystr option \<Rightarrow> bool" where
  "token_id_ok s = (case s of None \<Rightarrow> False | Some t \<Rightarrow> 1 \<le> length t \<and> length t \<le> 128)"

definition principal_from_payload :: "claims \<Rightarrow> int \<Rightarrow> auth_error + principal" where
  "principal_from_payload payload max_lifetime =
     (if \<not> subject_claim_ok (claim_str payload ''sub'') then Inl AuthenticationError
      else if \<not> lifetime_ok payload max_lifetime then Inl AuthenticationError
      else if \<not> token_id_ok (claim_str payload ''jti'') then Inl AuthenticationError
      else (case res_bind (res_bind (string_list (map_of payload (str ''rooms''))) validate_rooms) (\<lambda>rs.
          res_bind (res_bind (string_list (map_of payload (str ''permissions''))) validate_permissions)
            (\<lambda>ps. Inr (rs, ps))) of
        Inl _ \<Rightarrow> Inl AuthenticationError
      | Inr (rs, ps) \<Rightarrow>
          (if ps = {} \<or> (str ''admin'' \<notin> ps \<and> rs = {}) then Inl AuthenticationError
           else Inr \<lparr>subject = claim_str payload ''sub'', permissions = ps, rooms = rs,
             authentication = Token\<rparr>)))"

subsection \<open>PyJWT\<close>

record jwt_request =
  rq_algorithms :: "pystr list"
  rq_audience :: pystr
  rq_issuer :: pystr
  rq_leeway :: int
  rq_require :: "string list"
  rq_now :: int

record 'k jwt =
  jwt_encode :: "claims \<Rightarrow> 'k \<Rightarrow> pystr \<Rightarrow> claims \<Rightarrow> pystr"
  jwt_get_unverified_header :: "pystr \<Rightarrow> claims option"
  jwt_decode :: "jwt_request \<Rightarrow> pystr \<Rightarrow> 'k \<Rightarrow> claims option"

definition required_claims :: "string list" where
  "required_claims = [''iss'', ''aud'', ''sub'', ''iat'', ''nbf'', ''exp'', ''jti'', ''rooms'', ''permissions'']"

definition decode_request :: "token_profile \<Rightarrow> pystr \<Rightarrow> int \<Rightarrow> jwt_request" where
  "decode_request tp algorithm now = \<lparr>rq_algorithms = [algorithm], rq_audience = audience tp,
     rq_issuer = issuer tp, rq_leeway = clock_skew_seconds tp, rq_require = required_claims, rq_now = now\<rparr>"

text \<open>
  The registered claims PyJWT checks for a token with string \<open>iss\<close> and \<open>aud\<close> and integer times: the
  required ones are present, issuer and audience are the expected ones, and with the leeway the token
  is not issued in the future, already valid and not expired.
\<close>

definition claims_valid :: "jwt_request \<Rightarrow> claims \<Rightarrow> bool" where
  "claims_valid rq payload \<longleftrightarrow>
     list_all (\<lambda>c. \<exists>v. map_of payload (str c) = Some v \<and> v \<noteq> JNull) (rq_require rq) \<and>
     claim_str payload ''iss'' = Some (rq_issuer rq) \<and> claim_str payload ''aud'' = Some (rq_audience rq) \<and>
     (\<exists>iat nbf exp. claim_int payload ''iat'' = Some iat \<and> claim_int payload ''nbf'' = Some nbf \<and>
        claim_int payload ''exp'' = Some exp \<and> iat \<le> rq_now rq + rq_leeway rq \<and>
        nbf \<le> rq_now rq + rq_leeway rq \<and> rq_now rq - rq_leeway rq < exp)"

text \<open>
  Documented behaviour: an encoded token is not empty; its header is PyJWT's default header updated
  with the given one, so the given \<open>typ\<close> and the algorithm are in it; and \<open>decode\<close> returns the
  claims of a token that was encoded with the same key and an admitted algorithm when the registered
  claims are valid.
\<close>

definition jwt_documented :: "'k jwt \<Rightarrow> bool" where
  "jwt_documented J \<longleftrightarrow>
     (\<forall>payload key algorithm headers. jwt_encode J payload key algorithm headers \<noteq> []) \<and>
     (\<forall>payload key algorithm typ. \<exists>h.
        jwt_get_unverified_header J (jwt_encode J payload key algorithm [(str ''typ'', JStr typ)]) = Some h \<and>
        map_of h (str ''typ'') = Some (JStr typ) \<and> map_of h (str ''alg'') = Some (JStr algorithm)) \<and>
     (\<forall>payload key algorithm headers rq. algorithm \<in> set (rq_algorithms rq) \<longrightarrow> claims_valid rq payload \<longrightarrow>
        jwt_decode J rq (jwt_encode J payload key algorithm headers) key = Some payload)"

text \<open>And \<open>decode\<close> refuses every token whose expiry, with the leeway, is not in the future.\<close>

definition jwt_checks_expiry :: "'k jwt \<Rightarrow> bool" where
  "jwt_checks_expiry J \<longleftrightarrow> (\<forall>rq token key payload exp. jwt_decode J rq token key = Some payload \<longrightarrow>
     claim_int payload ''exp'' = Some exp \<longrightarrow> rq_now rq - rq_leeway rq < exp)"

subsection \<open>The shared-secret service\<close>

record token_service =
  svc_secret :: pystr
  svc_profile :: token_profile

definition AccessTokenService :: "pystr \<Rightarrow> token_profile \<Rightarrow> auth_error + token_service" where
  "AccessTokenService secret tp = (case utf8_encode secret of
     None \<Rightarrow> Inl (TokenValueError ''surrogates not allowed'')
   | Some b \<Rightarrow>
       (if \<not> (32 \<le> length b \<and> length b \<le> 4096)
        then Inl (TokenValueError ''token signing secret must be between 32 and 4096 bytes'')
        else res_bind (validate_token_profile tp) (\<lambda>_. Inr \<lparr>svc_secret = secret, svc_profile = tp\<rparr>)))"

definition issue_payload ::
  "token_profile \<Rightarrow> pystr \<Rightarrow> int \<Rightarrow> int \<Rightarrow> pystr \<Rightarrow> pystr set \<Rightarrow> pystr set \<Rightarrow> claims" where
  "issue_payload tp subj issued_at expires_in jti rs ps =
     [(str ''iss'', JStr (issuer tp)), (str ''aud'', JStr (audience tp)), (str ''sub'', JStr subj),
      (str ''iat'', JInt issued_at), (str ''nbf'', JInt issued_at), (str ''exp'', JInt (issued_at + expires_in)),
      (str ''jti'', JStr jti), (str ''rooms'', JArr (map JStr (sorted_list_of_set rs))),
      (str ''permissions'', JArr (map JStr (sorted_list_of_set ps)))]"

definition issue ::
  "pystr jwt \<Rightarrow> token_service \<Rightarrow> pystr \<Rightarrow> pystr list \<Rightarrow> pystr list \<Rightarrow> int \<Rightarrow> int \<Rightarrow> pystr \<Rightarrow> auth_error + pystr" where
  "issue J svc subj rs ps expires_in now uuid =
     (let s = py_strip subj in
      if \<not> (1 \<le> length s \<and> length s \<le> 64)
      then Inl (TokenValueError ''token subject must be between 1 and 64 characters'')
      else res_bind (validate_rooms rs) (\<lambda>nrooms. res_bind (validate_permissions ps) (\<lambda>nperms.
        if nperms = {} then Inl (TokenValueError ''token must grant at least one permission'')
        else if str ''admin'' \<notin> nperms \<and> nrooms = {}
        then Inl (TokenValueError ''non-admin token must grant at least one room'')
        else if \<not> (60 \<le> expires_in \<and> expires_in \<le> max_lifetime_seconds (svc_profile svc))
        then Inl (TokenValueError ''token lifetime out of range'')
        else (let token = jwt_encode J (issue_payload (svc_profile svc) s now expires_in uuid nrooms nperms)
                (svc_secret svc) (str ''HS256'') [(str ''typ'', JStr TOKEN_TYPE)] in
          if 8192 < length token
          then Inl (TokenValueError ''issued token exceeds the 8192-character transport limit'')
          else Inr token))))"

definition service_verify :: "pystr jwt \<Rightarrow> token_service \<Rightarrow> int \<Rightarrow> pystr \<Rightarrow> auth_error + principal" where
  "service_verify J svc now token =
     (if token = [] \<or> 8192 < length token then Inl AuthenticationError
      else (case jwt_get_unverified_header J token of
        None \<Rightarrow> Inl AuthenticationError
      | Some header \<Rightarrow>
          (if claim_str header ''typ'' \<noteq> Some TOKEN_TYPE \<or> claim_str header ''alg'' \<noteq> Some (str ''HS256'')
           then Inl AuthenticationError
           else (case jwt_decode J (decode_request (svc_profile svc) (str ''HS256'') now) token (svc_secret svc) of
             None \<Rightarrow> Inl AuthenticationError
           | Some payload \<Rightarrow> principal_from_payload payload (max_lifetime_seconds (svc_profile svc))))))"

subsection \<open>The public-key verifier\<close>

datatype jwk_failure = MissingCryptography | InvalidKey

record 'k pyjwk =
  pk_key :: 'k
  pk_algorithm_name :: pystr
  pk_key_size :: "nat option"

type_synonym 'k from_dict = "claims \<Rightarrow> pystr \<Rightarrow> jwk_failure + 'k pyjwk"

abbreviation "invalid_key \<equiv> TokenKeySetError ''token JWKS contains an invalid public signing key''"

text \<open>Values a Python set cannot test for membership: asking raises \<open>TypeError\<close>.\<close>

definition unhashable :: "json option \<Rightarrow> bool" where
  "unhashable v = (case v of Some (JArr _) \<Rightarrow> True | Some (JObj _) \<Rightarrow> True | _ \<Rightarrow> False)"

definition load_key ::
  "'k from_dict \<Rightarrow> claims \<Rightarrow> (pystr \<times> 'k pyjwk) list \<Rightarrow> auth_error + pystr \<times> 'k pyjwk" where
  "load_key from_dict value loaded =
     (case (claim_str value ''kid'', claim_str value ''alg'') of
       (Some kid, Some algorithm) \<Rightarrow>
         (if \<not> KEY_ID kid \<or> kid \<in> fst ` set loaded then Inl invalid_key
          else (case map_of ASYMMETRIC_ALGORITHMS algorithm of
            None \<Rightarrow> Inl invalid_key
          | Some (kty, crv) \<Rightarrow>
              (if claim_str value ''kty'' \<noteq> Some kty then Inl invalid_key
               else if crv \<noteq> None \<and> claim_str value ''crv'' \<noteq> crv then Inl invalid_key
               else if unhashable (map_of value (str ''use'')) then Inl PyTypeError
               else if map_of value (str ''use'') \<notin> {None, Some JNull, Some (JStr (str ''sig''))} then Inl invalid_key
               else if list_ex (\<lambda>x. x \<in> fst ` set value) PRIVATE_JWK_PARAMETERS then Inl invalid_key
               else if map_of value (str ''key_ops'') \<notin> {None, Some JNull, Some (JArr [JStr (str ''verify'')])}
               then Inl invalid_key
               else (case from_dict value algorithm of
                 Inl MissingCryptography \<Rightarrow>
                   Inl (TokenKeySetError ''asymmetric token verification requires samsarix-chat-engine[asymmetric-auth]'')
               | Inl InvalidKey \<Rightarrow> Inl invalid_key
               | Inr key \<Rightarrow>
                   (if algorithm = str ''RS256'' \<and> (case pk_key_size key of None \<Rightarrow> 0 | Some n \<Rightarrow> n) < 2048
                    then Inl (TokenKeySetError ''token JWKS RSA keys must be at least 2048 bits'')
                    else Inr (kid, key))))))
     | _ \<Rightarrow> Inl invalid_key)"

fun load_keys ::
  "'k from_dict \<Rightarrow> json list \<Rightarrow> (pystr \<times> 'k pyjwk) list \<Rightarrow> auth_error + (pystr \<times> 'k pyjwk) list" where
  "load_keys from_dict [] loaded = Inr loaded"
| "load_keys from_dict (JObj value # keys) loaded =
     res_bind (load_key from_dict value loaded) (\<lambda>k. load_keys from_dict keys (loaded @ [k]))"
| "load_keys from_dict (_ # keys) loaded = Inl invalid_key"

record 'k jwks_verifier =
  jv_keys :: "(pystr \<times> 'k pyjwk) list"
  jv_profile :: token_profile

definition JWKSAccessTokenVerifier ::
  "'k from_dict \<Rightarrow> json \<Rightarrow> token_profile \<Rightarrow> auth_error + 'k jwks_verifier" where
  "JWKSAccessTokenVerifier from_dict jwks tp =
     res_bind (validate_token_profile tp) (\<lambda>_.
       (case (case jwks of JObj members \<Rightarrow> map_of members (str ''keys'') | _ \<Rightarrow> None) of
         Some (JArr keys) \<Rightarrow>
           (if \<not> (1 \<le> length keys \<and> length keys \<le> 32)
            then Inl (TokenKeySetError ''token JWKS must contain between 1 and 32 public signing keys'')
            else res_bind (load_keys from_dict keys []) (\<lambda>loaded. Inr \<lparr>jv_keys = loaded, jv_profile = tp\<rparr>))
       | _ \<Rightarrow> Inl (TokenKeySetError ''token JWKS must contain between 1 and 32 public signing keys'')))"

text \<open>\<open>from_file\<close>: the file's bytes (\<open>None\<close> when it cannot be read) and \<open>json.loads\<close> on decoded text are arguments.\<close>

definition from_file ::
  "'k from_dict \<Rightarrow> (pybytes \<Rightarrow> json option) \<Rightarrow> pybytes option \<Rightarrow> token_profile \<Rightarrow> auth_error + 'k jwks_verifier" where
  "from_file from_dict loads_utf8 contents tp = (case contents of
     None \<Rightarrow> Inl (TokenKeySetError ''token JWKS file must be readable'')
   | Some bytes \<Rightarrow> (let encoded = take 65537 bytes in
       if 65536 < length encoded then Inl (TokenKeySetError ''token JWKS file must not exceed 65536 bytes'')
       else (case loads_utf8 encoded of
         None \<Rightarrow> Inl (TokenKeySetError ''token JWKS file must contain valid UTF-8 JSON'')
       | Some (JObj members) \<Rightarrow> JWKSAccessTokenVerifier from_dict (JObj members) tp
       | Some _ \<Rightarrow> Inl (TokenKeySetError ''token JWKS file must contain a JSON object''))))"

definition jwks_verify :: "'k jwt \<Rightarrow> 'k jwks_verifier \<Rightarrow> int \<Rightarrow> pystr \<Rightarrow> auth_error + principal" where
  "jwks_verify J jv now token =
     (if token = [] \<or> 8192 < length token then Inl AuthenticationError
      else (case jwt_get_unverified_header J token of
        None \<Rightarrow> Inl AuthenticationError
      | Some header \<Rightarrow>
          (case (claim_str header ''kid'', claim_str header ''alg'') of
            (Some kid, Some algorithm) \<Rightarrow>
              (if claim_str header ''typ'' \<noteq> Some TOKEN_TYPE \<or> \<not> KEY_ID kid \<or>
                  algorithm \<notin> fst ` set ASYMMETRIC_ALGORITHMS \<or>
                  list_ex (\<lambda>x. x \<in> fst ` set header) FORBIDDEN_TOKEN_HEADERS
               then Inl AuthenticationError
               else (case map_of (jv_keys jv) kid of
                 None \<Rightarrow> Inl AuthenticationError
               | Some key \<Rightarrow>
                   (if pk_algorithm_name key \<noteq> algorithm then Inl AuthenticationError
                    else (case jwt_decode J (decode_request (jv_profile jv) algorithm now) token (pk_key key) of
                      None \<Rightarrow> Inl AuthenticationError
                    | Some payload \<Rightarrow> principal_from_payload payload (max_lifetime_seconds (jv_profile jv))))))
          | _ \<Rightarrow> Inl AuthenticationError)))"

text \<open>\<open>credentials_match\<close>: \<open>None\<close> is the \<open>UnicodeEncodeError\<close> of a lone surrogate.\<close>

definition credentials_match :: "pystr option \<Rightarrow> pystr option \<Rightarrow> bool option" where
  "credentials_match provided expected = (case (expected, provided) of
     (Some e, Some p) \<Rightarrow>
       (case (utf8_encode p, utf8_encode e) of (Some pb, Some eb) \<Rightarrow> Some (pb = eb) | _ \<Rightarrow> None)
   | _ \<Rightarrow> Some False)"

subsection \<open>What a verified principal is\<close>

text \<open>The contract of the protocol \<open>AccessTokenVerifier\<close>: what every accepted token yields.\<close>

definition token_principal :: "principal \<Rightarrow> bool" where
  "token_principal p \<longleftrightarrow> authentication p = Token \<and>
     (\<exists>s. subject p = Some s \<and> 1 \<le> length s \<and> length s \<le> 64 \<and> py_strip s = s) \<and>
     permissions p \<noteq> {} \<and> permissions p \<subseteq> ALLOWED_PERMISSIONS \<and>
     finite (rooms p) \<and> card (rooms p) \<le> 1000 \<and> (\<forall>r\<in>rooms p. ROOM_ID_PATTERN r) \<and>
     (is_admin p \<or> rooms p \<noteq> {})"

text \<open>What every loaded key satisfies: it comes from a public entry with a pinned algorithm.\<close>

definition key_ok :: "'k from_dict \<Rightarrow> json list \<Rightarrow> pystr \<times> 'k pyjwk \<Rightarrow> bool" where
  "key_ok from_dict keys k \<longleftrightarrow> KEY_ID (fst k) \<and> (\<exists>value algorithm. JObj value \<in> set keys \<and>
     claim_str value ''kid'' = Some (fst k) \<and> claim_str value ''alg'' = Some algorithm \<and>
     algorithm \<in> fst ` set ASYMMETRIC_ALGORITHMS \<and> from_dict value algorithm = Inr (snd k) \<and>
     fst ` set value \<inter> set PRIVATE_JWK_PARAMETERS = {} \<and>
     (algorithm = str ''RS256'' \<longrightarrow> (\<exists>n\<ge>2048. pk_key_size (snd k) = Some n)))"

lemma allows_Some [simp]: "allows p permission (Some r) \<longleftrightarrow> is_admin p \<or> permission \<in> permissions p \<and> r \<in> rooms p"
  by (simp add: allows_def)

locale access_token_verifier =
  fixes verify :: "int \<Rightarrow> pystr \<Rightarrow> auth_error + principal"
  assumes verified: "verify now token = Inr p \<Longrightarrow> token_principal p"
    and refused: "verify now token = Inl e \<Longrightarrow> e = AuthenticationError"
    and bounded: "8192 < length token \<Longrightarrow> verify now token = Inl AuthenticationError"
begin

lemma subject_present: "verify now token = Inr p \<Longrightarrow> subject p \<noteq> None"
  using verified [of now token p] by (auto simp: token_principal_def)

lemma member_reach:
  assumes "verify now token = Inr p" and "\<not> is_admin p"
  shows "allows p permission (Some room) \<longleftrightarrow> permission \<in> permissions p \<and> room \<in> rooms p"
    and "allows p permission (Some room) \<Longrightarrow> permission \<in> ALLOWED_PERMISSIONS - {str ''admin''} \<and> ROOM_ID_PATTERN room"
  using assms verified [OF assms(1)] by (auto simp: is_admin_def token_principal_def)

lemma useful:
  assumes "verify now token = Inr p"
  obtains permission room where "allows p permission (Some room)"
  using verified [OF assms] by (fastforce simp: token_principal_def)

end

lemma string_list_Inr: "string_list v = Inr xs \<Longrightarrow> distinct xs \<and> length xs \<le> 1000 \<and> v = Some (JArr (map JStr xs))"
proof -
  assume a: "string_list v = Inr xs"
  then obtain items where v: "v = Some (JArr items)" "\<not> list_ex (\<lambda>v. as_string v = None) items"
      "xs = map (the \<circ> as_string) items" "distinct xs" "length xs \<le> 1000"
    by (auto simp: string_list_def Let_def split: option.splits json.splits if_splits)
  moreover have "map JStr (map (the \<circ> as_string) items) = items"
    using v(2) by (induction items) (auto simp: as_string_def split: json.splits)
  ultimately show ?thesis by metis
qed

lemma as_string_JStr [simp]: "as_string (JStr s) = Some s"
  by (simp add: as_string_def)

lemma string_list_JStr:
  "distinct xs \<Longrightarrow> length xs \<le> 1000 \<Longrightarrow> string_list (Some (JArr (map JStr xs))) = Inr xs"
  by (simp add: string_list_def list_ex_iff comp_def)

lemma principal_from_payload_Inr:
  assumes "principal_from_payload payload ml = Inr p"
  shows "token_principal p" and "lifetime_ok payload ml" and "subject p = claim_str payload ''sub''"
proof -
  from assms obtain rs ps xs ys where *: "subject_claim_ok (claim_str payload ''sub'')" "lifetime_ok payload ml"
    "string_list (map_of payload (str ''rooms'')) = Inr xs" "validate_rooms xs = Inr rs"
    "string_list (map_of payload (str ''permissions'')) = Inr ys" "validate_permissions ys = Inr ps"
    "ps \<noteq> {}" "str ''admin'' \<in> ps \<or> rs \<noteq> {}"
    "p = \<lparr>subject = claim_str payload ''sub'', permissions = ps, rooms = rs, authentication = Token\<rparr>"
    by (auto simp: principal_from_payload_def split: if_splits sum.splits)
  then show "token_principal p" "lifetime_ok payload ml" "subject p = claim_str payload ''sub''"
    by (auto simp: token_principal_def is_admin_def subject_claim_ok_def validate_rooms_def validate_permissions_def
        list_all_iff split: option.splits if_splits)
qed

lemma principal_from_payload_Inl: "principal_from_payload payload ml = Inl e \<Longrightarrow> e = AuthenticationError"
  by (auto simp: principal_from_payload_def split: if_splits sum.splits)

lemma service_verify_Inr:
  assumes "service_verify J svc now token = Inr p"
  obtains header payload where "jwt_get_unverified_header J token = Some header"
    "claim_str header ''alg'' = Some (str ''HS256'')" "claim_str header ''typ'' = Some TOKEN_TYPE"
    "jwt_decode J (decode_request (svc_profile svc) (str ''HS256'') now) token (svc_secret svc) = Some payload"
    "principal_from_payload payload (max_lifetime_seconds (svc_profile svc)) = Inr p"
  using assms by (auto simp: service_verify_def split: if_splits option.splits)

lemma jwks_verify_Inr:
  assumes "jwks_verify J jv now token = Inr p"
  obtains header kid algorithm key payload where "jwt_get_unverified_header J token = Some header"
    "claim_str header ''kid'' = Some kid" "claim_str header ''alg'' = Some algorithm"
    "algorithm \<in> fst ` set ASYMMETRIC_ALGORITHMS" "claim_str header ''typ'' = Some TOKEN_TYPE"
    "\<not> list_ex (\<lambda>x. x \<in> fst ` set header) FORBIDDEN_TOKEN_HEADERS"
    "map_of (jv_keys jv) kid = Some key" "pk_algorithm_name key = algorithm"
    "jwt_decode J (decode_request (jv_profile jv) algorithm now) token (pk_key key) = Some payload"
    "principal_from_payload payload (max_lifetime_seconds (jv_profile jv)) = Inr p"
  using assms by (auto simp: jwks_verify_def split: if_splits option.splits)

interpretation hs256: access_token_verifier "service_verify J svc"
proof
  show "service_verify J svc now token = Inr p \<Longrightarrow> token_principal p" for now token p
    by (auto elim: service_verify_Inr dest: principal_from_payload_Inr(1))
  show "service_verify J svc now token = Inl e \<Longrightarrow> e = AuthenticationError" for now token e
    by (auto simp: service_verify_def dest: principal_from_payload_Inl split: if_splits option.splits)
qed (simp add: service_verify_def)

interpretation jwks: access_token_verifier "jwks_verify J jv"
proof
  show "jwks_verify J jv now token = Inr p \<Longrightarrow> token_principal p" for now token p
    by (auto elim: jwks_verify_Inr dest: principal_from_payload_Inr(1))
  show "jwks_verify J jv now token = Inl e \<Longrightarrow> e = AuthenticationError" for now token e
    by (auto simp: jwks_verify_def dest: principal_from_payload_Inl split: if_splits option.splits)
qed (simp add: jwks_verify_def)

subsection \<open>The loaded key set\<close>

lemma load_key_Inr:
  assumes "load_key from_dict value loaded = Inr k" and "JObj value \<in> set keys"
  shows "key_ok from_dict keys k \<and> fst k \<notin> fst ` set loaded"
proof -
  from assms(1) obtain algorithm kty crv where *: "claim_str value ''kid'' = Some (fst k)" "claim_str value ''alg'' = Some algorithm"
    "KEY_ID (fst k)" "fst k \<notin> fst ` set loaded" "map_of ASYMMETRIC_ALGORITHMS algorithm = Some (kty, crv)"
    "from_dict value algorithm = Inr (snd k)" "\<not> list_ex (\<lambda>x. x \<in> fst ` set value) PRIVATE_JWK_PARAMETERS"
    "algorithm = str ''RS256'' \<longrightarrow> \<not> (case pk_key_size (snd k) of None \<Rightarrow> 0 | Some n \<Rightarrow> n) < 2048"
    unfolding load_key_def by (auto split: option.splits if_splits sum.splits jwk_failure.splits)
  moreover have "algorithm \<in> fst ` set ASYMMETRIC_ALGORITHMS"
    using *(5) by (auto dest!: map_of_SomeD intro: rev_image_eqI)
  moreover have "fst ` set value \<inter> set PRIVATE_JWK_PARAMETERS = {}" using *(7) by (auto simp: list_ex_iff)
  moreover have "algorithm = str ''RS256'' \<longrightarrow> (\<exists>n\<ge>2048. pk_key_size (snd k) = Some n)"
    using *(8) by (auto simp: not_less split: option.splits)
  ultimately show ?thesis using assms(2) unfolding key_ok_def by blast
qed

lemma load_keys_ok:
  assumes "load_keys from_dict keys loaded = Inr out" and "set keys \<subseteq> set all" and "distinct (map fst loaded)"
    and "\<forall>k\<in>set loaded. key_ok from_dict all k"
  shows "length out = length loaded + length keys \<and> distinct (map fst out) \<and> (\<forall>k\<in>set out. key_ok from_dict all k)"
  using assms
proof (induction from_dict keys loaded rule: load_keys.induct)
  case (2 from_dict obj keys loaded)
  then obtain k where k: "load_key from_dict obj loaded = Inr k"
    "load_keys from_dict keys (loaded @ [k]) = Inr out" by auto
  have "key_ok from_dict all k \<and> fst k \<notin> fst ` set loaded"
    using load_key_Inr [OF k(1), of all] 2(3) by simp
  then have "distinct (map fst (loaded @ [k]))" "\<forall>x\<in>set (loaded @ [k]). key_ok from_dict all x"
    using 2(4,5) by auto
  with 2(1) [OF k(2)] 2(3) show ?case by simp
qed auto

end
