(* ===== verification/Auth_Properties.thy ===== *)
theory Auth_Properties
  imports Auth
begin

section \<open>Properties of authentication\<close>

text \<open>
  What the two verifiers and the operator credential check guarantee. The witnesses run on
  \<open>plain_jwt\<close>, a token library whose tokens are numbered records instead of signed texts and which
  satisfies everything that \<open>jwt_documented\<close> and \<open>jwt_checks_expiry\<close> state.
\<close>

instance pyfloat :: countable
  by countable_datatype

instance json :: countable
  by countable_datatype

definition plain_jwt :: "'k::countable jwt" where
  "plain_jwt = \<lparr>
     jwt_encode = (\<lambda>payload key algorithm headers.
       [to_nat (payload, key, algorithm, headers @ [(str ''alg'', JStr algorithm)])]),
     jwt_get_unverified_header = (\<lambda>token. case token of [n] \<Rightarrow>
       (case from_nat n :: claims \<times> 'k \<times> pystr \<times> claims of (p, k, a, h) \<Rightarrow> Some h) | _ \<Rightarrow> None),
     jwt_decode = (\<lambda>rq token key. case token of [n] \<Rightarrow>
       (case from_nat n :: claims \<times> 'k \<times> pystr \<times> claims of (p, k, a, h) \<Rightarrow>
         if k = key \<and> a \<in> set (rq_algorithms rq) \<and> claims_valid rq p then Some p else None) | _ \<Rightarrow> None)\<rparr>"

definition sample_profile :: token_profile where
  "sample_profile = \<lparr>issuer = str ''iss'', audience = str ''aud'', max_lifetime_seconds = 3600, clock_skew_seconds = 30\<rparr>"

definition sample_service :: token_service where
  "sample_service = \<lparr>svc_secret = replicate 32 97, svc_profile = sample_profile\<rparr>"

definition sample_token :: pystr where
  "sample_token = jwt_encode (plain_jwt :: pystr jwt) (issue_payload sample_profile (str ''ann'') 1000 60 [49] {str ''lobby''} {str ''room:read''})
     (replicate 32 97) (str ''HS256'') [(str ''typ'', JStr TOKEN_TYPE)]"

definition sample_jwk :: claims where
  "sample_jwk = [(str ''kid'', JStr (str ''k1'')), (str ''alg'', JStr (str ''EdDSA'')), (str ''kty'', JStr (str ''OKP'')),
     (str ''crv'', JStr (str ''Ed25519''))]"

definition sample_from_dict :: "nat from_dict" where
  "sample_from_dict v algorithm = Inr \<lparr>pk_key = 7, pk_algorithm_name = algorithm, pk_key_size = None\<rparr>"

definition sample_jwks :: "nat jwks_verifier" where
  "sample_jwks = \<lparr>jv_keys = [(str ''k1'', \<lparr>pk_key = 7, pk_algorithm_name = str ''EdDSA'', pk_key_size = None\<rparr>)],
     jv_profile = sample_profile\<rparr>"

definition sample_signed :: pystr where
  "sample_signed = jwt_encode plain_jwt
     (issue_payload sample_profile (str ''ann'') 1000 60 [49] {str ''lobby''} {str ''room:read''}) (7::nat)
     (str ''EdDSA'') [(str ''typ'', JStr TOKEN_TYPE), (str ''kid'', JStr (str ''k1''))]"

declare str_eq_iff [simp]

lemma plain_jwt_documented: "jwt_documented plain_jwt"
  by (simp add: jwt_documented_def plain_jwt_def)

lemma plain_jwt_checks_expiry: "jwt_checks_expiry plain_jwt"
  by (auto simp: jwt_checks_expiry_def plain_jwt_def claims_valid_def split: list.splits prod.splits if_splits)

lemmas claim_eval = claim_int_def claim_str_def issue_payload_def

lemma issued_claims:
  "claim_str (issue_payload tp s t n jti rs ps) ''sub'' = Some s"
  "claim_str (issue_payload tp s t n jti rs ps) ''jti'' = Some jti"
  "claim_str (issue_payload tp s t n jti rs ps) ''iss'' = Some (issuer tp)"
  "claim_str (issue_payload tp s t n jti rs ps) ''aud'' = Some (audience tp)"
  "claim_int (issue_payload tp s t n jti rs ps) ''iat'' = Some t"
  "claim_int (issue_payload tp s t n jti rs ps) ''nbf'' = Some t"
  "claim_int (issue_payload tp s t n jti rs ps) ''exp'' = Some (t + n)"
  "map_of (issue_payload tp s t n jti rs ps) (str ''rooms'') = Some (JArr (map JStr (sorted_list_of_set rs)))"
  "map_of (issue_payload tp s t n jti rs ps) (str ''permissions'') = Some (JArr (map JStr (sorted_list_of_set ps)))"
  by (simp_all add: claim_eval)

lemma issued_valid:
  "issuer tp = rq_issuer rq \<Longrightarrow> audience tp = rq_audience rq \<Longrightarrow> rq_require rq = required_claims \<Longrightarrow>
   t \<le> rq_now rq + rq_leeway rq \<Longrightarrow> rq_now rq - rq_leeway rq < t + n \<Longrightarrow>
   claims_valid rq (issue_payload tp s t n jti rs ps)"
  by (simp add: claims_valid_def issued_claims) (simp add: required_claims_def issue_payload_def)

lemma validated_rooms:
  assumes "validate_rooms xs = Inr rs"
  shows "finite rs" "validate_rooms (sorted_list_of_set rs) = Inr rs" "length (sorted_list_of_set rs) \<le> 1000"
  using assms by (auto simp: validate_rooms_def list_all_iff split: if_splits)

lemma validated_permissions:
  assumes "validate_permissions ps = Inr qs"
  shows "finite qs" "validate_permissions (sorted_list_of_set qs) = Inr qs" "length (sorted_list_of_set qs) \<le> 1000"
proof -
  have q: "qs = set ps" "qs \<subseteq> ALLOWED_PERMISSIONS" using assms by (auto simp: validate_permissions_def split: if_splits)
  then show "finite qs" "validate_permissions (sorted_list_of_set qs) = Inr qs" by (simp_all add: validate_permissions_def)
  have "card qs \<le> card ALLOWED_PERMISSIONS" using q(2) by (rule card_mono [rotated]) (simp add: ALLOWED_PERMISSIONS_def)
  also have "\<dots> \<le> 5" unfolding ALLOWED_PERMISSIONS_def by (rule order.trans [OF card_length]) (simp add: permission_names_def)
  finally show "length (sorted_list_of_set qs) \<le> 1000" by simp
qed

lemma issued_principal:
  assumes "validate_rooms xs = Inr rs" and "validate_permissions ys = Inr ps" and "ps \<noteq> {}"
    and "str ''admin'' \<in> ps \<or> rs \<noteq> {}" and "1 \<le> length s" "length s \<le> 64" "py_strip s = s"
    and "0 < n" "n \<le> ml" and "1 \<le> length jti" "length jti \<le> 128"
  shows "principal_from_payload (issue_payload tp s t n jti rs ps) ml =
    Inr \<lparr>subject = Some s, permissions = ps, rooms = rs, authentication = Token\<rparr>"
  using assms(3-) validated_rooms [OF assms(1)] validated_permissions [OF assms(2)]
  by (auto simp: principal_from_payload_def issued_claims subject_claim_ok_def lifetime_ok_def token_id_ok_def
      string_list_JStr)

lemma issue_then_verify:
  assumes "jwt_documented J" and "issue J svc subj xs ys n t jti = Inr token"
    and "1 \<le> length jti" and "length jti \<le> 128"
    and "t \<le> now + clock_skew_seconds (svc_profile svc)" and "now - clock_skew_seconds (svc_profile svc) < t + n"
  shows "service_verify J svc now token =
    Inr \<lparr>subject = Some (py_strip subj), permissions = set ys, rooms = set xs, authentication = Token\<rparr>"
proof -
  let ?tp = "svc_profile svc" and ?s = "py_strip subj"
  obtain rs ps where v: "validate_rooms xs = Inr rs" "validate_permissions ys = Inr ps" "ps \<noteq> {}"
    "str ''admin'' \<in> ps \<or> rs \<noteq> {}" "1 \<le> length ?s" "length ?s \<le> 64" "60 \<le> n" "n \<le> max_lifetime_seconds ?tp"
    and token: "token = jwt_encode J (issue_payload ?tp ?s t n jti rs ps) (svc_secret svc) (str ''HS256'')
      [(str ''typ'', JStr TOKEN_TYPE)]" "length token \<le> 8192"
    using assms(2) by (auto simp: issue_def Let_def not_less split: if_splits)
  have sets: "rs = set xs" "ps = set ys"
    using v(1,2) by (auto simp: validate_rooms_def validate_permissions_def split: if_splits)
  obtain h where h: "jwt_get_unverified_header J token = Some h" "map_of h (str ''typ'') = Some (JStr TOKEN_TYPE)"
    "map_of h (str ''alg'') = Some (JStr (str ''HS256''))"
    using assms(1) unfolding jwt_documented_def token(1) by metis
  have "claims_valid (decode_request ?tp (str ''HS256'') now) (issue_payload ?tp ?s t n jti rs ps)"
    by (rule issued_valid) (use assms(5,6) in \<open>simp_all add: decode_request_def\<close>)
  then have "jwt_decode J (decode_request ?tp (str ''HS256'') now) token (svc_secret svc) =
      Some (issue_payload ?tp ?s t n jti rs ps)"
    using assms(1) unfolding jwt_documented_def token(1) by (simp add: decode_request_def)
  moreover have "token \<noteq> []" using assms(1) unfolding jwt_documented_def token(1) by blast
  ultimately show ?thesis
    using h token(2) issued_principal [OF v(1-6) py_strip_idem _ v(8) assms(3,4), where t = t and tp = ?tp] v(7)
    by (simp add: service_verify_def claim_str_def sets)
qed

lemma issue_sample: "issue plain_jwt sample_service (str '' ann'') [str ''lobby''] [str ''room:read''] 60 1000 [49] = Inr sample_token"
proof -
  have s: "py_strip (str '' ann'') = str ''ann''" by (simp add: str_def py_strip_def py_lstrip_def py_isspace_def)
  have r: "validate_rooms [str ''lobby''] = Inr {str ''lobby''}"
    by (simp add: validate_rooms_def ROOM_ID_PATTERN_def head_tail_def str_def char_class_defs)
  have p: "validate_permissions [str ''room:read''] = Inr {str ''room:read''}"
    by (simp add: validate_permissions_def ALLOWED_PERMISSIONS_def permission_names_def)
  show ?thesis
    unfolding issue_def s r p Let_def
    by (simp add: sample_service_def sample_profile_def sample_token_def plain_jwt_def) (simp add: str_def)
qed

lemma verify_sample:
  "service_verify plain_jwt sample_service 1030 sample_token =
     Inr \<lparr>subject = Some (str ''ann''), permissions = {str ''room:read''}, rooms = {str ''lobby''}, authentication = Token\<rparr>"
proof -
  have s: "py_strip (str '' ann'') = str ''ann''" by (simp add: str_def py_strip_def py_lstrip_def py_isspace_def)
  show ?thesis
    using issue_then_verify [OF plain_jwt_documented issue_sample, of 1030] s
    by (simp add: sample_service_def sample_profile_def)
qed

text \<open>
  C31. A token that the service issues verifies: at every time between its issue and its expiry, with
  the tolerated clock skew, verification returns the subject without surrounding whitespace and
  exactly the rooms and permissions it was issued for.
\<close>

theorem issued_token_verifies:
  assumes "jwt_documented J" and "issue J svc subj xs ys n t jti = Inr token"
    and "1 \<le> length jti" and "length jti \<le> 128"
    and "t \<le> now + clock_skew_seconds (svc_profile svc)" and "now - clock_skew_seconds (svc_profile svc) < t + n"
  shows "service_verify J svc now token =
    Inr \<lparr>subject = Some (py_strip subj), permissions = set ys, rooms = set xs, authentication = Token\<rparr>"
  using assms by (rule issue_then_verify)

theorem issued_token_verifies_witness:
  "service_verify plain_jwt sample_service 1030 sample_token =
     Inr \<lparr>subject = Some (str ''ann''), permissions = {str ''room:read''}, rooms = {str ''lobby''}, authentication = Token\<rparr>"
proof -
  have s: "py_strip (str '' ann'') = str ''ann''" by (simp add: str_def py_strip_def py_lstrip_def py_isspace_def)
  show ?thesis
    using issued_token_verifies [OF plain_jwt_documented issue_sample, of 1030] s
    by (simp add: sample_service_def sample_profile_def)
qed

text \<open>
  No accepted token outlives the profile: whatever a token's own claims say, the shared-secret
  service accepts it only with an expiry after its issue, at most the maximum lifetime later, and only
  until the maximum lifetime and the clock skew have passed since its issue.
\<close>

theorem accepted_token_expires:
  assumes "jwt_checks_expiry J" and "service_verify J svc now token = Inr p"
  shows "\<exists>payload issued expires.
    jwt_decode J (decode_request (svc_profile svc) (str ''HS256'') now) token (svc_secret svc) = Some payload \<and>
    claim_int payload ''iat'' = Some issued \<and> claim_int payload ''exp'' = Some expires \<and> issued < expires \<and>
    expires \<le> issued + max_lifetime_seconds (svc_profile svc) \<and>
    now < issued + max_lifetime_seconds (svc_profile svc) + clock_skew_seconds (svc_profile svc)"
proof -
  obtain payload where p: "jwt_decode J (decode_request (svc_profile svc) (str ''HS256'') now) token (svc_secret svc) = Some payload"
    "principal_from_payload payload (max_lifetime_seconds (svc_profile svc)) = Inr p"
    using assms(2) by (rule service_verify_Inr)
  then obtain i e where c: "claim_int payload ''iat'' = Some i" "claim_int payload ''exp'' = Some e"
    "i < e" "e - i \<le> max_lifetime_seconds (svc_profile svc)"
    using principal_from_payload_Inr(2) [OF p(2)] by (auto simp: lifetime_ok_def split: option.splits)
  moreover have "now - clock_skew_seconds (svc_profile svc) < e"
    using assms(1) p(1) c(2) unfolding jwt_checks_expiry_def by (fastforce simp: decode_request_def)
  ultimately show ?thesis using p(1) by auto
qed

theorem accepted_token_expires_witness:
  "\<exists>p issued. service_verify plain_jwt sample_service 1030 sample_token = Inr p \<and> 1030 < issued + 3600 + (30 :: int)"
proof -
  obtain p where "service_verify plain_jwt sample_service 1030 sample_token = Inr p"
    using verify_sample by blast
  with accepted_token_expires [OF plain_jwt_checks_expiry this] show ?thesis
    by (auto simp: sample_service_def sample_profile_def)
qed

text \<open>
  C32. The public-key verifier cannot be confused about keys: it accepts a token only when the header
  names a loaded key by its id and exactly the algorithm that key was loaded for, one of the two pinned
  asymmetric ones, and carries none of the forbidden header parameters; the signature is then checked
  with that key and that algorithm alone.
\<close>

theorem jwks_accepts_only_pinned_keys:
  assumes "jwks_verify J jv now token = Inr p"
  shows "\<exists>header kid algorithm key payload. jwt_get_unverified_header J token = Some header \<and>
    claim_str header ''kid'' = Some kid \<and> claim_str header ''alg'' = Some algorithm \<and>
    algorithm \<in> {str ''EdDSA'', str ''RS256''} \<and> fst ` set header \<inter> set FORBIDDEN_TOKEN_HEADERS = {} \<and>
    map_of (jv_keys jv) kid = Some key \<and> pk_algorithm_name key = algorithm \<and>
    jwt_decode J (decode_request (jv_profile jv) algorithm now) token (pk_key key) = Some payload \<and>
    rq_algorithms (decode_request (jv_profile jv) algorithm now) = [algorithm] \<and> subject p = claim_str payload ''sub''"
  using assms
proof (rule jwks_verify_Inr)
  fix header kid algorithm key payload
  assume h: "jwt_get_unverified_header J token = Some header" "claim_str header ''kid'' = Some kid"
    "claim_str header ''alg'' = Some algorithm" "algorithm \<in> fst ` set ASYMMETRIC_ALGORITHMS"
    "\<not> list_ex (\<lambda>x. x \<in> fst ` set header) FORBIDDEN_TOKEN_HEADERS"
    "map_of (jv_keys jv) kid = Some key" "pk_algorithm_name key = algorithm"
    "jwt_decode J (decode_request (jv_profile jv) algorithm now) token (pk_key key) = Some payload"
    "principal_from_payload payload (max_lifetime_seconds (jv_profile jv)) = Inr p"
  have "algorithm \<in> {str ''EdDSA'', str ''RS256''}" using h(4) by (auto simp: ASYMMETRIC_ALGORITHMS_def)
  moreover have "fst ` set header \<inter> set FORBIDDEN_TOKEN_HEADERS = {}" using h(5) by (auto simp: list_ex_iff)
  moreover have "rq_algorithms (decode_request (jv_profile jv) algorithm now) = [algorithm]"
    by (simp add: decode_request_def)
  ultimately show ?thesis using h principal_from_payload_Inr(3) [OF h(9)] by blast
qed

lemma jwks_sample: "\<exists>p. jwks_verify plain_jwt sample_jwks 1030 sample_signed = Inr p"
proof -
  let ?pl = "issue_payload sample_profile (str ''ann'') 1000 60 [49] {str ''lobby''} {str ''room:read''}"
  have v: "validate_rooms [str ''lobby''] = Inr {str ''lobby''}" "validate_permissions [str ''room:read''] = Inr {str ''room:read''}"
    by (simp_all add: validate_rooms_def ROOM_ID_PATTERN_def head_tail_def str_def char_class_defs
        validate_permissions_def ALLOWED_PERMISSIONS_def permission_names_def)
  have s: "py_strip (str ''ann'') = str ''ann''" "length (str ''ann'') = 3"
    by (simp_all add: str_def py_strip_def py_lstrip_def py_isspace_def)
  have "claims_valid (decode_request sample_profile (str ''EdDSA'') 1030) ?pl"
    by (rule issued_valid) (simp_all add: decode_request_def sample_profile_def)
  moreover have "KEY_ID (str ''k1'')" by (simp add: KEY_ID_def str_def char_class_defs)
  moreover have "principal_from_payload ?pl 3600 =
      Inr \<lparr>subject = Some (str ''ann''), permissions = {str ''room:read''}, rooms = {str ''lobby''}, authentication = Token\<rparr>"
    by (rule issued_principal [OF v]) (simp_all add: s)
  ultimately show ?thesis
    by (simp add: jwks_verify_def sample_signed_def sample_jwks_def plain_jwt_def claim_str_def decode_request_def
        ASYMMETRIC_ALGORITHMS_def FORBIDDEN_TOKEN_HEADERS_def) (simp add: sample_profile_def)
qed

theorem jwks_accepts_only_pinned_keys_witness:
  "\<exists>p kid key. jwks_verify plain_jwt sample_jwks 1030 sample_signed = Inr p \<and>
     map_of (jv_keys sample_jwks) kid = Some key \<and> pk_algorithm_name key \<in> {str ''EdDSA'', str ''RS256''}"
proof -
  obtain p where p: "jwks_verify plain_jwt sample_jwks 1030 sample_signed = Inr p" using jwks_sample by blast
  from jwks_accepts_only_pinned_keys [OF p] p show ?thesis by blast
qed



text \<open>
  A verified member reaches exactly what its token names: an accepted token without the admin
  permission allows a permission in a room only if the token lists both, and then it is one of the
  known non-admin permissions and a valid room id; an accepted token always names a subject.
\<close>

theorem member_token_reach:
  assumes "service_verify J svc now token = Inr p" and "\<not> is_admin p"
  shows "subject p \<noteq> None \<and>
    (allows p permission (Some room) \<longleftrightarrow> permission \<in> permissions p \<and> room \<in> rooms p) \<and>
    (allows p permission (Some room) \<longrightarrow> permission \<in> ALLOWED_PERMISSIONS - {str ''admin''} \<and> ROOM_ID_PATTERN room)"
  using hs256.subject_present [OF assms(1)] hs256.member_reach [OF assms] by blast

theorem member_token_reach_witness:
  "\<exists>p. service_verify plain_jwt sample_service 1030 sample_token = Inr p \<and>
     allows p (str ''room:read'') (Some (str ''lobby'')) \<and> \<not> allows p (str ''room:write'') (Some (str ''lobby''))"
proof -
  let ?p = "\<lparr>subject = Some (str ''ann''), permissions = {str ''room:read''}, rooms = {str ''lobby''}, authentication = Token\<rparr>"
  have "\<not> is_admin ?p" by (simp add: is_admin_def)
  from member_token_reach [OF verify_sample this] verify_sample show ?thesis by (simp add: is_admin_def)
qed

text \<open>
  The constant-time comparison of operator credentials on UTF-8 bytes decides equality of the two
  strings, and never matches when either is absent.
\<close>

theorem credentials_match_equality:
  assumes "code_points p" and "code_points e" and "\<not> list_ex surrogate p" and "\<not> list_ex surrogate e"
  shows "credentials_match (Some p) (Some e) = Some (p = e) \<and> credentials_match None x = Some False \<and>
    credentials_match x None = Some False"
  using assms utf8_encode_inj [OF assms(1,2)]
  by (auto simp: credentials_match_def utf8_encode_def split: option.splits)

theorem credentials_match_equality_witness:
  "credentials_match (Some [228, 98]) (Some [228, 99]) = Some False"
  using credentials_match_equality [of "[228, 98]" "[228, 99]"] by (simp add: code_points_def surrogate_def)

text \<open>
  A key whose \<open>use\<close> member is an array reaches a membership test in a Python set and raises
  \<open>TypeError\<close> instead of the documented \<open>TokenKeySetError\<close>.
\<close>

lemma use_array_is_type_error:
  "JWKSAccessTokenVerifier sample_from_dict (JObj [(str ''keys'', JArr [JObj (sample_jwk @ [(str ''use'', JArr [])])])])
     sample_profile = Inl PyTypeError"
proof -
  have "validate_token_profile sample_profile = Inr ()"
    by (simp add: validate_token_profile_def sample_profile_def padded_name_ok_def str_def py_strip_def py_lstrip_def py_isspace_def)
  moreover have "KEY_ID (str ''k1'')" by (simp add: KEY_ID_def str_def char_class_defs)
  ultimately show ?thesis
    by (simp add: JWKSAccessTokenVerifier_def load_key_def sample_jwk_def claim_str_def ASYMMETRIC_ALGORITHMS_def unhashable_def)
qed

end
