(* ===== verification/Connections.thy ===== *)
theory Connections
  imports Py_Bytes
begin

section \<open>Room-scoped connections (websocket_manager.py)\<close>

text \<open>
  The connection manager of \<open>samsarix_chat_engine/websocket_manager.py\<close>. A socket is a number. The
  \<open>ConnectionMetadata\<close> objects live in a heap, a list in which an object's address is its position,
  because the code tells two registrations of one socket apart by object identity and because an
  activation keeps updating its object after the socket was detached. Every definition is one critical
  section of the manager's lock or one stretch of code without an \<open>await\<close>; awaiting I/O (\<open>send_json\<close>,
  \<open>close\<close>) separates the steps, and its outcome is an argument. The \<open>operation_lock\<close> of an object
  admits one activation of it at a time, so the activation's position is kept in the object.
  \<open>tuple(set)\<close> enumerates a set in an order the language leaves open: it is an argument.
\<close>

type_synonym socket = nat
type_synonym addr = nat

datatype conn_error = PendingLimitError | SequenceError

record pending_event =
  pe_payload :: pystr
  pe_size :: nat

datatype activation = Idle | Flushing

record connection =
  cn_room_id :: pystr
  cn_username :: pystr
  cn_subject :: "pystr option"
  cn_permissions :: "pystr set"
  cn_connection_id :: "pystr option"
  cn_broadcast_ready :: bool
  cn_after_sequence :: "int option"
  cn_pending :: "pending_event list"
  cn_pending_bytes :: int
  cn_inflight :: "pending_event option"
  cn_activation :: activation

record limits =
  max_connections :: nat
  max_per_room :: nat
  max_pending_events :: nat
  max_pending_bytes :: nat
  max_total_pending_bytes :: nat

record manager =
  mg_pending_bytes :: int
  mg_rooms :: "pystr \<rightharpoonup> socket set"
  mg_metadata :: "(socket \<times> addr) list"
  mg_heap :: "connection list"

definition ConnectionManager :: "limits \<Rightarrow> conn_error + manager" where
  "ConnectionManager lim =
     (if max_pending_events lim < 1 \<or> max_pending_bytes lim < 1 \<or> max_total_pending_bytes lim < 1
      then Inl PendingLimitError
      else Inr \<lparr>mg_pending_bytes = 0, mg_rooms = Map.empty, mg_metadata = [], mg_heap = []\<rparr>)"

definition validate_sequence :: "int option \<Rightarrow> conn_error + unit" where
  "validate_sequence s = (case s of None \<Rightarrow> Inr () | Some n \<Rightarrow> if n < 0 then Inl SequenceError else Inr ())"

definition accepts_sequence :: "connection \<Rightarrow> int option \<Rightarrow> bool" where
  "accepts_sequence c event_sequence = (case event_sequence of None \<Rightarrow> True
     | Some n \<Rightarrow> (case cn_after_sequence c of None \<Rightarrow> True | Some k \<Rightarrow> n > k))"

definition room_set :: "manager \<Rightarrow> pystr \<Rightarrow> socket set" where
  "room_set m r = (case mg_rooms m r of None \<Rightarrow> {} | Some s \<Rightarrow> s)"

definition active_connections :: "manager \<Rightarrow> nat" where
  "active_connections m = length (mg_metadata m)"

definition room_connections :: "manager \<Rightarrow> pystr \<Rightarrow> nat" where
  "room_connections m r = card (room_set m r)"

definition new_connection ::
  "pystr \<Rightarrow> pystr \<Rightarrow> pystr option \<Rightarrow> pystr set \<Rightarrow> pystr option \<Rightarrow> bool \<Rightarrow> int option \<Rightarrow> connection" where
  "new_connection room_id username subject permissions connection_id ready after =
     \<lparr>cn_room_id = room_id, cn_username = username, cn_subject = subject, cn_permissions = permissions,
      cn_connection_id = connection_id, cn_broadcast_ready = ready, cn_after_sequence = after,
      cn_pending = [], cn_pending_bytes = 0, cn_inflight = None, cn_activation = Idle\<rparr>"

text \<open>\<open>register\<close>: the new object is given, \<open>admission\<close> is the answer of \<open>admission_check\<close>, if there is one.\<close>

definition register ::
  "limits \<Rightarrow> socket \<Rightarrow> connection \<Rightarrow> bool option \<Rightarrow> manager \<Rightarrow> conn_error + bool \<times> manager" where
  "register lim ws obj admission m =
     res_bind (validate_sequence (cn_after_sequence obj)) (\<lambda>_. Inr
       (let r = cn_room_id obj in
        if map_of (mg_metadata m) ws \<noteq> None then (False, m)
        else if admission = Some False then (False, m)
        else if max_connections lim \<le> length (mg_metadata m) \<or> max_per_room lim \<le> card (room_set m r)
        then (False, if room_set m r = {} then m\<lparr>mg_rooms := (mg_rooms m)(r := None)\<rparr> else m)
        else (True, m\<lparr>mg_rooms := (mg_rooms m)(r \<mapsto> insert ws (room_set m r)),
          mg_metadata := mg_metadata m @ [(ws, length (mg_heap m))], mg_heap := mg_heap m @ [obj]\<rparr>)))"

definition update_object :: "addr \<Rightarrow> (connection \<Rightarrow> connection) \<Rightarrow> manager \<Rightarrow> manager" where
  "update_object a f m = m\<lparr>mg_heap := (mg_heap m)[a := f (mg_heap m ! a)]\<rparr>"

definition inflight_size :: "connection \<Rightarrow> int" where
  "inflight_size c = (case cn_inflight c of None \<Rightarrow> 0 | Some e \<Rightarrow> int (pe_size e))"

definition discard_pending :: "addr \<Rightarrow> manager \<Rightarrow> manager" where
  "discard_pending a m =
     (let c = mg_heap m ! a; retained = inflight_size c in
      update_object a (\<lambda>c. c\<lparr>cn_pending_bytes := retained, cn_pending := []\<rparr>)
        (m\<lparr>mg_pending_bytes := mg_pending_bytes m - (cn_pending_bytes c - retained)\<rparr>))"

text \<open>The entry of a room after sockets left it: an empty set is not kept.\<close>

definition set_room_entry :: "pystr \<Rightarrow> socket set \<Rightarrow> manager \<Rightarrow> manager" where
  "set_room_entry r s m = m\<lparr>mg_rooms := (mg_rooms m)(r := if s = {} then None else Some s)\<rparr>"

definition discard_from_room :: "pystr \<Rightarrow> socket \<Rightarrow> manager \<Rightarrow> manager" where
  "discard_from_room r ws m = (case mg_rooms m r of
     None \<Rightarrow> m
   | Some s \<Rightarrow> set_room_entry r (s - {ws}) m)"

definition detach_connection :: "socket \<Rightarrow> manager \<Rightarrow> addr option \<times> manager" where
  "detach_connection ws m = (case map_of (mg_metadata m) ws of
     None \<Rightarrow> (None, m)
   | Some a \<Rightarrow> (Some a, discard_from_room (cn_room_id (mg_heap m ! a)) ws
       (discard_pending a (m\<lparr>mg_metadata := filter (\<lambda>p. fst p \<noteq> ws) (mg_metadata m)\<rparr>))))"

text \<open>\<open>unregister\<close> and the state change of \<open>close\<close>: both return the room and the user name once.\<close>

definition unregister :: "socket \<Rightarrow> manager \<Rightarrow> (pystr \<times> pystr) option \<times> manager" where
  "unregister ws m = (let (a, m') = detach_connection ws m in
     (map_option (\<lambda>a. (cn_room_id (mg_heap m ! a), cn_username (mg_heap m ! a))) a, m'))"

subsection \<open>Activation\<close>

datatype activate_entry = NotRegistered | AlreadyReady | Enter addr

definition activate_enter :: "socket \<Rightarrow> manager \<Rightarrow> activate_entry" where
  "activate_enter ws m = (case map_of (mg_metadata m) ws of
     None \<Rightarrow> NotRegistered
   | Some a \<Rightarrow> if cn_broadcast_ready (mg_heap m ! a) then AlreadyReady else Enter a)"

text \<open>Taking the operation lock of the object.\<close>

definition activate_lock :: "addr \<Rightarrow> manager \<Rightarrow> manager" where
  "activate_lock a = update_object a (\<lambda>c. c\<lparr>cn_activation := Flushing\<rparr>)"

datatype flush = Flushed bool | Sending pending_event

text \<open>One turn of the loop of \<open>_activate\<close> up to its \<open>await\<close>.\<close>

definition activate_turn :: "socket \<Rightarrow> addr \<Rightarrow> manager \<Rightarrow> flush \<times> manager" where
  "activate_turn ws a m =
     (if map_of (mg_metadata m) ws \<noteq> Some a
      then (Flushed False, update_object a (\<lambda>c. c\<lparr>cn_activation := Idle\<rparr>) m)
      else (case cn_pending (mg_heap m ! a) of
        [] \<Rightarrow> (Flushed True, update_object a (\<lambda>c. c\<lparr>cn_broadcast_ready := True, cn_activation := Idle\<rparr>) m)
      | event # rest \<Rightarrow>
          (Sending event, update_object a (\<lambda>c. c\<lparr>cn_pending := rest, cn_inflight := Some event\<rparr>) m)))"

text \<open>
  The \<open>finally\<close> block after the send. When the send raised (\<open>sent = False\<close>) the lock is released and
  \<open>activate\<close> closes the socket.
\<close>

definition activate_finally :: "socket \<Rightarrow> addr \<Rightarrow> bool \<Rightarrow> manager \<Rightarrow> manager" where
  "activate_finally ws a sent m =
     (let size = inflight_size (mg_heap m ! a);
          m1 = update_object a (\<lambda>c. c\<lparr>cn_inflight := None, cn_pending_bytes := cn_pending_bytes c - size\<rparr>)
                 (m\<lparr>mg_pending_bytes := mg_pending_bytes m - size\<rparr>) in
      if sent then m1
      else snd (detach_connection ws (update_object a (\<lambda>c. c\<lparr>cn_activation := Idle\<rparr>) m1)))"

text \<open>A timeout or cancellation while the activation waits for the manager's lock, between two turns.\<close>

definition activate_cancel :: "socket \<Rightarrow> addr \<Rightarrow> manager \<Rightarrow> manager" where
  "activate_cancel ws a m = snd (detach_connection ws (update_object a (\<lambda>c. c\<lparr>cn_activation := Idle\<rparr>) m))"

text \<open>The whole loop when nothing interleaves and every send succeeds: the payloads sent, in order.\<close>

fun activate_loop :: "nat \<Rightarrow> socket \<Rightarrow> addr \<Rightarrow> manager \<Rightarrow> (pystr list \<times> bool \<times> manager) option" where
  "activate_loop 0 ws a m = None"
| "activate_loop (Suc fuel) ws a m = (case activate_turn ws a m of
     (Flushed b, m1) \<Rightarrow> Some ([], b, m1)
   | (Sending event, m1) \<Rightarrow>
       map_option (\<lambda>(sent, b, m2). (pe_payload event # sent, b, m2))
         (activate_loop fuel ws a (activate_finally ws a True m1)))"

subsection \<open>Broadcasting\<close>

definition encode_event :: "json \<Rightarrow> pending_event option" where
  "encode_event event = (let payload = json_dumps event in
     map_option (\<lambda>b. \<lparr>pe_payload = payload, pe_size = length b\<rparr>) (utf8_encode payload))"

record audience =
  au_exclude :: "socket option"
  au_exclude_connection_id :: "pystr option"
  au_event_sequence :: "int option"
  au_required_permission :: "pystr option"

definition addressed :: "audience \<Rightarrow> socket \<Rightarrow> connection \<Rightarrow> bool" where
  "addressed au ws c \<longleftrightarrow> accepts_sequence c (au_event_sequence au) \<and>
     \<not> (case au_required_permission au of None \<Rightarrow> False
        | Some p \<Rightarrow> p \<notin> cn_permissions c \<and> str ''admin'' \<notin> cn_permissions c) \<and>
     \<not> (au_exclude au = Some ws \<or>
        (au_exclude_connection_id au \<noteq> None \<and> cn_connection_id c = au_exclude_connection_id au))"

definition inflight_count :: "connection \<Rightarrow> nat" where
  "inflight_count c = (if cn_inflight c = None then 0 else 1)"

definition overflows :: "limits \<Rightarrow> manager \<Rightarrow> connection \<Rightarrow> pending_event option \<Rightarrow> bool" where
  "overflows lim m c buffered = (case buffered of None \<Rightarrow> True
     | Some e \<Rightarrow> max_pending_events lim \<le> length (cn_pending c) + inflight_count c \<or>
         int (max_pending_bytes lim) < cn_pending_bytes c + int (pe_size e) \<or>
         int (max_total_pending_bytes lim) < mg_pending_bytes m + int (pe_size e))"

definition enqueue :: "addr \<Rightarrow> pending_event \<Rightarrow> manager \<Rightarrow> manager" where
  "enqueue a e m = update_object a (\<lambda>c. c\<lparr>cn_pending := cn_pending c @ [e],
       cn_pending_bytes := cn_pending_bytes c + int (pe_size e)\<rparr>)
     (m\<lparr>mg_pending_bytes := mg_pending_bytes m + int (pe_size e)\<rparr>)"

text \<open>The body of the loop for one connection; the two lists are the recipients and the overflow.\<close>

definition broadcast_one ::
  "limits \<Rightarrow> audience \<Rightarrow> pending_event option \<Rightarrow> socket \<Rightarrow>
     manager \<times> (socket \<times> addr) list \<times> (socket \<times> addr) list \<Rightarrow> manager \<times> (socket \<times> addr) list \<times> (socket \<times> addr) list" where
  "broadcast_one lim au buffered ws acc = (case acc of (m, recipients, overflow) \<Rightarrow>
     (let a = the (map_of (mg_metadata m) ws); c = mg_heap m ! a in
      if \<not> addressed au ws c then (m, recipients, overflow)
      else if cn_broadcast_ready c then (m, recipients @ [(ws, a)], overflow)
      else if overflows lim m c buffered then (snd (detach_connection ws m), recipients, overflow @ [(ws, a)])
      else (enqueue a (the buffered) m, recipients, overflow)))"

definition broadcast ::
  "limits \<Rightarrow> socket list \<Rightarrow> json \<Rightarrow> audience \<Rightarrow> manager \<Rightarrow>
     conn_error + manager \<times> (socket \<times> addr) list \<times> (socket \<times> addr) list" where
  "broadcast lim order event au m =
     res_bind (validate_sequence (au_event_sequence au)) (\<lambda>_.
       Inr (fold (broadcast_one lim au (encode_event event)) order (m, [], [])))"

text \<open>
  \<open>_send_with_lock\<close>: a frame goes out only while the addressed registration is still the socket's
  current one; a failed send closes the socket.
\<close>

definition send_with_lock :: "socket \<Rightarrow> addr \<Rightarrow> bool \<Rightarrow> manager \<Rightarrow> bool \<times> bool \<times> manager" where
  "send_with_lock ws a io_ok m =
     (if map_of (mg_metadata m) ws \<noteq> Some a then (False, False, m)
      else if io_ok then (True, True, m) else (True, False, snd (detach_connection ws m)))"

subsection \<open>Closing\<close>

definition close_all :: "manager \<Rightarrow> (socket \<times> addr) list \<times> manager" where
  "close_all m = (mg_metadata m,
     (fold discard_pending (map snd (mg_metadata m)) m)\<lparr>mg_metadata := [], mg_rooms := Map.empty\<rparr>)"

definition detach_selected :: "manager \<Rightarrow> socket list \<Rightarrow> pystr option \<Rightarrow> int option \<Rightarrow> socket list" where
  "detach_selected m order subject event_sequence =
     filter (\<lambda>ws. let c = mg_heap m ! the (map_of (mg_metadata m) ws) in
       (subject = None \<or> cn_subject c = subject) \<and> accepts_sequence c event_sequence) order"

text \<open>The body of the loop of \<open>_detach_room_connections\<close>, without the room's entry.\<close>

definition drop_registration :: "socket \<Rightarrow> manager \<Rightarrow> manager" where
  "drop_registration ws m = discard_pending (the (map_of (mg_metadata m) ws))
     (m\<lparr>mg_metadata := filter (\<lambda>p. fst p \<noteq> ws) (mg_metadata m)\<rparr>)"

text \<open>
  \<open>_detach_room_connections\<close>, with which \<open>close_room\<close> (no subject) and \<open>close_member\<close> detach: it
  empties the room's entry step by step and drops it at the end when nothing is left.
\<close>

definition detach_room_connections ::
  "pystr \<Rightarrow> socket list \<Rightarrow> pystr option \<Rightarrow> int option \<Rightarrow> manager \<Rightarrow> conn_error + (socket \<times> addr) list \<times> manager" where
  "detach_room_connections r order subject event_sequence m =
     res_bind (validate_sequence event_sequence) (\<lambda>_. Inr (case mg_rooms m r of
       None \<Rightarrow> ([], m)
     | Some s \<Rightarrow>
         (let selected = detach_selected m order subject event_sequence;
              m1 = fold drop_registration selected m;
              left = s - set selected in
          (map (\<lambda>ws. (ws, the (map_of (mg_metadata m) ws))) selected,
           set_room_entry r left m1))))"

subsection \<open>The invariant\<close>

definition queued_bytes :: "pending_event list \<Rightarrow> int" where
  "queued_bytes es = sum_list (map (\<lambda>e. int (pe_size e)) es)"

text \<open>An object is charged for what it queues and sends, within the limits; only an activation sends.\<close>

definition connection_ok :: "limits \<Rightarrow> connection \<Rightarrow> bool" where
  "connection_ok lim c \<longleftrightarrow> cn_pending_bytes c = queued_bytes (cn_pending c) + inflight_size c \<and>
     cn_pending_bytes c \<le> int (max_pending_bytes lim) \<and>
     length (cn_pending c) + inflight_count c \<le> max_pending_events lim \<and>
     (cn_inflight c \<noteq> None \<longrightarrow> cn_activation c = Flushing)"

definition budget_inv :: "limits \<Rightarrow> manager \<Rightarrow> bool" where
  "budget_inv lim m \<longleftrightarrow> (\<forall>c\<in>set (mg_heap m). connection_ok lim c) \<and>
     mg_pending_bytes m = sum_list (map cn_pending_bytes (mg_heap m)) \<and>
     mg_pending_bytes m \<le> int (max_total_pending_bytes lim)"

definition registered_in :: "manager \<Rightarrow> pystr \<Rightarrow> socket set" where
  "registered_in m r = {ws. \<exists>a. map_of (mg_metadata m) ws = Some a \<and> cn_room_id (mg_heap m ! a) = r}"

definition index_inv :: "limits \<Rightarrow> manager \<Rightarrow> bool" where
  "index_inv lim m \<longleftrightarrow> distinct (map fst (mg_metadata m)) \<and> distinct (map snd (mg_metadata m)) \<and>
     (\<forall>p\<in>set (mg_metadata m). snd p < length (mg_heap m)) \<and>
     length (mg_metadata m) \<le> max_connections lim \<and>
     (\<forall>r. mg_rooms m r = (if registered_in m r = {} then None else Some (registered_in m r)) \<and>
        card (registered_in m r) \<le> max_per_room lim) \<and>
     (\<forall>a<length (mg_heap m). a \<notin> snd ` set (mg_metadata m) \<longrightarrow> cn_pending (mg_heap m ! a) = [])"

text \<open>The critical sections, in any interleaving that the locks admit.\<close>

inductive manager_step :: "limits \<Rightarrow> manager \<Rightarrow> manager \<Rightarrow> bool" for lim where
  step_register: "obj = new_connection r u s ps cid ready after \<Longrightarrow> register lim ws obj adm m = Inr (b, m') \<Longrightarrow>
     manager_step lim m m'"
| step_unregister: "m' = snd (unregister ws m) \<Longrightarrow> manager_step lim m m'"
| step_lock: "a < length (mg_heap m) \<Longrightarrow> cn_activation (mg_heap m ! a) = Idle \<Longrightarrow>
     manager_step lim m (activate_lock a m)"
| step_turn: "a < length (mg_heap m) \<Longrightarrow> cn_activation (mg_heap m ! a) = Flushing \<Longrightarrow>
     cn_inflight (mg_heap m ! a) = None \<Longrightarrow> manager_step lim m (snd (activate_turn ws a m))"
| step_finally: "a < length (mg_heap m) \<Longrightarrow> cn_inflight (mg_heap m ! a) \<noteq> None \<Longrightarrow>
     manager_step lim m (activate_finally ws a sent m)"
| step_cancel: "a < length (mg_heap m) \<Longrightarrow> cn_inflight (mg_heap m ! a) = None \<Longrightarrow>
     manager_step lim m (activate_cancel ws a m)"
| step_broadcast: "distinct order \<Longrightarrow> set order = room_set m r \<Longrightarrow>
     broadcast lim order event au m = Inr (m', out) \<Longrightarrow> manager_step lim m m'"
| step_send: "manager_step lim m (snd (snd (send_with_lock ws a io_ok m)))"
| step_close_all: "manager_step lim m (snd (close_all m))"
| step_detach_room: "distinct order \<Longrightarrow> set order = room_set m r \<Longrightarrow>
     detach_room_connections r order subj sq m = Inr (closed, m') \<Longrightarrow> manager_step lim m m'"

inductive manager_reachable :: "limits \<Rightarrow> manager \<Rightarrow> bool" for lim where
  start: "ConnectionManager lim = Inr m \<Longrightarrow> manager_reachable lim m"
| move: "manager_reachable lim m \<Longrightarrow> manager_step lim m m' \<Longrightarrow> manager_reachable lim m'"

subsection \<open>Updating one object\<close>

lemma update_object_simps [simp]:
  "mg_pending_bytes (update_object a f m) = mg_pending_bytes m"
  "mg_rooms (update_object a f m) = mg_rooms m"
  "mg_metadata (update_object a f m) = mg_metadata m"
  "length (mg_heap (update_object a f m)) = length (mg_heap m)"
  by (simp_all add: update_object_def)

lemma heap_update_object:
  "a < length (mg_heap m) \<Longrightarrow> mg_heap (update_object a f m) ! b = (if b = a then f (mg_heap m ! a) else mg_heap m ! b)"
  by (simp add: update_object_def nth_list_update)

lemma heap_bytes_update:
  fixes xs :: "connection list"
  assumes "a < length xs"
  shows "sum_list (map cn_pending_bytes (xs[a := c])) =
    sum_list (map cn_pending_bytes xs) + cn_pending_bytes c - cn_pending_bytes (xs ! a)"
  using assms by (induction xs arbitrary: a) (auto split: nat.split)

lemma budget_inv_update:
  assumes "budget_inv lim m" and "a < length (mg_heap m)" and "connection_ok lim (f (mg_heap m ! a))"
    and "t = mg_pending_bytes m + cn_pending_bytes (f (mg_heap m ! a)) - cn_pending_bytes (mg_heap m ! a)"
    and "t \<le> int (max_total_pending_bytes lim)"
  shows "budget_inv lim (update_object a f (m\<lparr>mg_pending_bytes := t\<rparr>))"
  using assms by (auto simp: budget_inv_def update_object_def heap_bytes_update dest!: set_update_subset_insert [THEN subsetD])

lemma queued_bytes_nonneg [simp]: "0 \<le> queued_bytes es"
  by (induction es) (simp_all add: queued_bytes_def)

lemma queued_bytes_simps [simp]:
  "queued_bytes [] = 0" "queued_bytes (e # es) = int (pe_size e) + queued_bytes es"
  "queued_bytes (es @ fs) = queued_bytes es + queued_bytes fs"
  by (simp_all add: queued_bytes_def)

lemma inflight_size_nonneg [simp]: "0 \<le> inflight_size c"
  by (simp add: inflight_size_def split: option.splits)

lemma inflight_updates [simp]:
  "inflight_size (c\<lparr>cn_pending_bytes := x\<rparr>) = inflight_size c" "inflight_size (c\<lparr>cn_pending := y\<rparr>) = inflight_size c"
  "inflight_count (c\<lparr>cn_pending_bytes := x\<rparr>) = inflight_count c" "inflight_count (c\<lparr>cn_pending := y\<rparr>) = inflight_count c"
  "inflight_size (c\<lparr>cn_activation := z\<rparr>) = inflight_size c" "inflight_count (c\<lparr>cn_activation := z\<rparr>) = inflight_count c"
  "inflight_size (c\<lparr>cn_broadcast_ready := b\<rparr>) = inflight_size c" "inflight_count (c\<lparr>cn_broadcast_ready := b\<rparr>) = inflight_count c"
  "inflight_size (c\<lparr>cn_inflight := None\<rparr>) = 0" "inflight_count (c\<lparr>cn_inflight := None\<rparr>) = 0"
  "inflight_size (c\<lparr>cn_inflight := Some e\<rparr>) = int (pe_size e)" "inflight_count (c\<lparr>cn_inflight := Some e\<rparr>) = 1"
  by (simp_all add: inflight_size_def inflight_count_def)

lemma inflight_within: "connection_ok lim c \<Longrightarrow> inflight_size c \<le> cn_pending_bytes c"
  by (simp add: connection_ok_def)

lemma connection_in_budget: "budget_inv lim m \<Longrightarrow> a < length (mg_heap m) \<Longrightarrow> connection_ok lim (mg_heap m ! a)"
  by (simp add: budget_inv_def)

lemma index_inv_update:
  assumes "index_inv lim m" and "a < length (mg_heap m)" and "\<And>c. cn_room_id (f c) = cn_room_id c"
    and "cn_pending (mg_heap m ! a) = [] \<Longrightarrow> a \<notin> snd ` set (mg_metadata m) \<Longrightarrow> cn_pending (f (mg_heap m ! a)) = []"
  shows "index_inv lim (update_object a f m)"
proof -
  have "registered_in (update_object a f m) = registered_in m"
    using assms(2,3) by (auto simp: registered_in_def heap_update_object fun_eq_iff)
  then show ?thesis using assms(1,2,4) by (auto simp: index_inv_def heap_update_object)
qed

lemma registered_in_total [simp]: "registered_in (m\<lparr>mg_pending_bytes := t\<rparr>) r = registered_in m r"
  by (simp add: registered_in_def)

lemma index_inv_total [simp]: "index_inv lim (m\<lparr>mg_pending_bytes := t\<rparr>) = index_inv lim m"
  by (simp add: index_inv_def)

lemma update_object_total:
  "update_object a f (m\<lparr>mg_pending_bytes := t\<rparr>) = (update_object a f m)\<lparr>mg_pending_bytes := t\<rparr>"
  by (simp add: update_object_def)

lemma budget_inv_metadata [simp]:
  "budget_inv lim (m\<lparr>mg_metadata := x\<rparr>) = budget_inv lim m" "budget_inv lim (m\<lparr>mg_rooms := y\<rparr>) = budget_inv lim m"
  by (simp_all add: budget_inv_def)

lemma budget_inv_same_bytes:
  assumes "budget_inv lim m" and "a < length (mg_heap m)" and "connection_ok lim (f (mg_heap m ! a))"
    and "cn_pending_bytes (f (mg_heap m ! a)) = cn_pending_bytes (mg_heap m ! a)"
  shows "budget_inv lim (update_object a f m)"
  using budget_inv_update [where f = f, OF assms(1-3), of "mg_pending_bytes m"] assms(1,4) by (simp add: budget_inv_def)

subsection \<open>Detaching\<close>

lemma discard_pending_simps [simp]:
  "mg_rooms (discard_pending a m) = mg_rooms m" "mg_metadata (discard_pending a m) = mg_metadata m"
  "length (mg_heap (discard_pending a m)) = length (mg_heap m)"
  by (simp_all add: discard_pending_def Let_def)

lemma heap_discard_pending:
  "a < length (mg_heap m) \<Longrightarrow> mg_heap (discard_pending a m) ! b =
     (if b = a then (mg_heap m ! a)\<lparr>cn_pending_bytes := inflight_size (mg_heap m ! a), cn_pending := []\<rparr> else mg_heap m ! b)"
  by (simp add: discard_pending_def Let_def heap_update_object)

lemma discard_pending_fields [simp]:
  "discard_pending a (m\<lparr>mg_metadata := x\<rparr>) = (discard_pending a m)\<lparr>mg_metadata := x\<rparr>"
  "discard_pending a (m\<lparr>mg_rooms := y\<rparr>) = (discard_pending a m)\<lparr>mg_rooms := y\<rparr>"
  by (simp_all add: discard_pending_def update_object_def Let_def)

lemma discard_pending_budget:
  assumes "budget_inv lim m" and "a < length (mg_heap m)"
  shows "budget_inv lim (discard_pending a m)"
  unfolding discard_pending_def Let_def
proof (rule budget_inv_update [OF assms])
  note ok = connection_in_budget [OF assms] and le = inflight_within [OF connection_in_budget [OF assms]]
  show "connection_ok lim ((mg_heap m ! a)\<lparr>cn_pending_bytes := inflight_size (mg_heap m ! a), cn_pending := []\<rparr>)"
  proof -
    have "inflight_size (mg_heap m ! a) \<le> int (max_pending_bytes lim)"
      using ok le unfolding connection_ok_def by linarith
    then show ?thesis using ok by (simp add: connection_ok_def)
  qed
  show "mg_pending_bytes m - (cn_pending_bytes (mg_heap m ! a) - inflight_size (mg_heap m ! a)) \<le> int (max_total_pending_bytes lim)"
    using le assms(1) by (simp add: budget_inv_def)
qed simp

lemma discard_pending_index:
  assumes "index_inv lim m" and "a < length (mg_heap m)"
  shows "index_inv lim (discard_pending a m)"
  unfolding discard_pending_def Let_def update_object_total index_inv_total
  by (rule index_inv_update [OF assms]) simp_all

lemma map_of_remove: "map_of (filter (\<lambda>p. fst p \<noteq> k) al) = (map_of al)(k := None)"
  by (induction al) (auto simp: fun_eq_iff)

lemma registered_in_remove:
  "registered_in (m\<lparr>mg_metadata := filter (\<lambda>p. fst p \<noteq> ws) (mg_metadata m), mg_rooms := y\<rparr>) r = registered_in m r - {ws}"
  by (auto simp: registered_in_def map_of_remove split: if_splits)

lemma finite_registered_in [simp]: "finite (registered_in m r)"
proof -
  have "registered_in m r \<subseteq> fst ` set (mg_metadata m)"
    by (auto simp: registered_in_def dest!: map_of_SomeD intro: rev_image_eqI)
  then show ?thesis by (rule finite_subset) simp
qed

lemma removed_value:
  assumes "distinct (map fst al)" and "map_of al k = Some v"
    and "w \<in> snd ` set al" and "w \<notin> snd ` set (filter (\<lambda>p. fst p \<noteq> k) al)"
  shows "w = v"
proof -
  obtain j where j: "(j, w) \<in> set al" using assms(3) by auto
  with assms(4) have "j = k" by force
  with j assms(1,2) show ?thesis by simp
qed

lemma index_inv_detach:
  assumes inv: "index_inv lim m" and ws: "map_of (mg_metadata m) ws = Some a" and p: "cn_pending (mg_heap m ! a) = []"
  shows "index_inv lim (discard_from_room (cn_room_id (mg_heap m ! a)) ws
    (m\<lparr>mg_metadata := filter (\<lambda>p. fst p \<noteq> ws) (mg_metadata m)\<rparr>))"
proof -
  let ?r = "cn_room_id (mg_heap m ! a)" and ?al = "filter (\<lambda>p. fst p \<noteq> ws) (mg_metadata m)"
  have rooms: "mg_rooms m r = (if registered_in m r = {} then None else Some (registered_in m r))"
    "card (registered_in m r) \<le> max_per_room lim" for r
    using inv by (simp_all add: index_inv_def)
  have mem: "ws \<in> registered_in m ?r" using ws by (simp add: registered_in_def)
  have other: "registered_in m r - {ws} = registered_in m r" if "r \<noteq> ?r" for r
    using ws that by (auto simp: registered_in_def)
  have eq: "discard_from_room ?r ws (m\<lparr>mg_metadata := ?al\<rparr>) = m\<lparr>mg_metadata := ?al,
      mg_rooms := (mg_rooms m)(?r := if registered_in m ?r - {ws} = {} then None else Some (registered_in m ?r - {ws}))\<rparr>"
    using rooms(1) [of ?r] mem by (auto simp: discard_from_room_def set_room_entry_def)
  have "card (registered_in m r - {ws}) \<le> max_per_room lim" for r
    using rooms(2) [of r] card_mono [of "registered_in m r" "registered_in m r - {ws}"] by auto
  moreover have "cn_pending (mg_heap m ! b) = []" if "b < length (mg_heap m)" "b \<notin> snd ` set ?al" for b
    using that inv p removed_value [OF _ ws, of b] by (cases "b \<in> snd ` set (mg_metadata m)") (auto simp: index_inv_def)
  moreover have "((mg_rooms m)(?r := if registered_in m ?r - {ws} = {} then None else Some (registered_in m ?r - {ws}))) r =
      (if registered_in m r - {ws} = {} then None else Some (registered_in m r - {ws}))" for r
    by (cases "r = ?r") (simp_all only: other fun_upd_same fun_upd_other rooms(1) not_False_eq_True)
  ultimately show ?thesis
    unfolding eq using inv unfolding index_inv_def
    by (simp add: registered_in_remove distinct_map_filter_key order.trans [OF length_filter_le])
qed

lemma detach_connection_inv:
  assumes "budget_inv lim m" and "index_inv lim m"
  shows "budget_inv lim (snd (detach_connection ws m))" and "index_inv lim (snd (detach_connection ws m))"
proof -
  have "budget_inv lim (snd (detach_connection ws m)) \<and> index_inv lim (snd (detach_connection ws m))"
  proof (cases "map_of (mg_metadata m) ws")
    case None
    then show ?thesis using assms by (simp add: detach_connection_def)
  next
    case (Some a)
    then have a: "a < length (mg_heap m)" using assms(2) by (auto simp: index_inv_def dest: map_of_SomeD)
    let ?m = "discard_pending a m"
    have e: "snd (detach_connection ws m) = discard_from_room (cn_room_id (mg_heap ?m ! a)) ws
        (?m\<lparr>mg_metadata := filter (\<lambda>p. fst p \<noteq> ws) (mg_metadata ?m)\<rparr>)"
      using Some a by (simp add: detach_connection_def heap_discard_pending)
    have "budget_inv lim (snd (detach_connection ws m))"
      using discard_pending_budget [OF assms(1) a] unfolding e
      by (simp add: discard_from_room_def set_room_entry_def split: option.splits)
    moreover have "index_inv lim (snd (detach_connection ws m))"
      unfolding e by (rule index_inv_detach) (use Some a in \<open>simp_all add: heap_discard_pending discard_pending_index assms(2)\<close>)
    ultimately show ?thesis ..
  qed
  then show "budget_inv lim (snd (detach_connection ws m))" "index_inv lim (snd (detach_connection ws m))" by auto
qed

end
