(* ===== verification/Connection_Steps.thy ===== *)
theory Connection_Steps
  imports Connections
begin

section \<open>Every critical section keeps the connection invariant\<close>

text \<open>
  For each operation of the connection manager: it keeps the byte budget and the index of rooms and
  registrations. The last lemma puts them together for every reachable manager.
\<close>

subsection \<open>Registration\<close>

lemma registered_in_append:
  assumes "index_inv lim m" and "map_of (mg_metadata m) ws = None"
  shows "registered_in (m\<lparr>mg_rooms := y, mg_metadata := mg_metadata m @ [(ws, length (mg_heap m))],
      mg_heap := mg_heap m @ [obj]\<rparr>) r =
    (if r = cn_room_id obj then insert ws (registered_in m r) else registered_in m r)"
proof -
  have a: "a < length (mg_heap m)" if "map_of (mg_metadata m) w = Some a" for w a
    using assms(1) map_of_SomeD [OF that] by (auto simp: index_inv_def)
  show ?thesis
    using assms(2) a
    by (auto simp: registered_in_def map_of_append map_add_def nth_append split: option.splits if_splits dest: a)
qed

lemma room_set_registered: "index_inv lim m \<Longrightarrow> room_set m r = registered_in m r"
  by (simp add: room_set_def index_inv_def)

lemma new_connection_ok [simp]: "connection_ok lim (new_connection r u s ps cid ready after)"
  by (simp add: connection_ok_def new_connection_def inflight_size_def inflight_count_def)

lemma register_inv:
  assumes "budget_inv lim m" and "index_inv lim m" and obj: "obj = new_connection r u s ps cid ready after"
    and reg: "register lim ws obj adm m = Inr (b, m')"
  shows "budget_inv lim m' \<and> index_inv lim m'"
proof -
  let ?r = "cn_room_id obj"
  let ?new = "m\<lparr>mg_rooms := (mg_rooms m)(?r \<mapsto> insert ws (room_set m ?r)),
    mg_metadata := mg_metadata m @ [(ws, length (mg_heap m))], mg_heap := mg_heap m @ [obj]\<rparr>"
  consider "m' = m" | "room_set m ?r = {}" "m' = m\<lparr>mg_rooms := (mg_rooms m)(?r := None)\<rparr>"
    | "map_of (mg_metadata m) ws = None" "length (mg_metadata m) < max_connections lim"
      "card (room_set m ?r) < max_per_room lim" "m' = ?new"
  proof (cases "map_of (mg_metadata m) ws \<noteq> None \<or> adm = Some False")
    case True
    then have "m' = m" using reg by (auto simp: register_def Let_def split: if_splits)
    then show ?thesis using that(1) by blast
  next
    case False
    show ?thesis
    proof (cases "max_connections lim \<le> length (mg_metadata m) \<or> max_per_room lim \<le> card (room_set m ?r)")
      case True
      then have "m' = (if room_set m ?r = {} then m\<lparr>mg_rooms := (mg_rooms m)(?r := None)\<rparr> else m)"
        using reg False by (simp add: register_def Let_def)
      then show ?thesis using that(1,2) by presburger
    next
      case room: False
      then have "m' = ?new" using reg False by (simp add: register_def Let_def)
      then show ?thesis using that(3) room False by (simp add: not_le)
    qed
  qed
  then show ?thesis
  proof cases
    case 1
    then show ?thesis using assms by simp
  next
    case 2
    then have "(mg_rooms m)(?r := None) = mg_rooms m"
      using assms(2) room_set_registered [OF assms(2), of ?r] by (auto simp: index_inv_def)
    then show ?thesis using 2 assms by simp
  next
    case 3
    note reg_in = registered_in_append [OF assms(2) 3(1), where obj = obj]
    have fresh: "ws \<notin> fst ` set (mg_metadata m)" using 3(1) by (simp add: map_of_eq_None_iff)
    have addr: "length (mg_heap m) \<notin> snd ` set (mg_metadata m)" using assms(2) by (auto simp: index_inv_def)
    have "card (registered_in m' r) \<le> max_per_room lim" for r
      using 3(3) [unfolded room_set_registered [OF assms(2)]] assms(2) by (simp add: 3(4) reg_in index_inv_def card_insert_if)
    moreover have "mg_rooms m' r = (if registered_in m' r = {} then None else Some (registered_in m' r))" for r
      using assms(2) room_set_registered [OF assms(2), of ?r] by (simp add: 3(4) reg_in index_inv_def)
    moreover have "budget_inv lim m'" using assms(1) by (simp add: 3(4) budget_inv_def obj) (simp add: new_connection_def)
    moreover have "cn_pending (mg_heap m' ! a) = []" if "a < length (mg_heap m')" "a \<notin> snd ` set (mg_metadata m')" for a
      using that assms(2) by (auto simp: 3(4) index_inv_def nth_append less_Suc_eq)
    ultimately show ?thesis
      using assms(2) fresh addr 3(2) by (auto simp: index_inv_def 3(4))
  qed
qed

subsection \<open>Activation\<close>

lemma activate_lock_inv:
  assumes "budget_inv lim m" and "index_inv lim m" and "a < length (mg_heap m)"
  shows "budget_inv lim (activate_lock a m) \<and> index_inv lim (activate_lock a m)"
  unfolding activate_lock_def
  using budget_inv_same_bytes [OF assms(1,3), of "\<lambda>c. c\<lparr>cn_activation := Flushing\<rparr>"] connection_in_budget [OF assms(1,3)]
    index_inv_update [OF assms(2,3), of "\<lambda>c. c\<lparr>cn_activation := Flushing\<rparr>"]
  by (auto simp: connection_ok_def)

lemma activate_turn_inv:
  assumes "budget_inv lim m" and "index_inv lim m" and "a < length (mg_heap m)"
    and "cn_activation (mg_heap m ! a) = Flushing" and "cn_inflight (mg_heap m ! a) = None"
  shows "budget_inv lim (snd (activate_turn ws a m)) \<and> index_inv lim (snd (activate_turn ws a m))"
proof -
  have step: "budget_inv lim (update_object a f m) \<and> index_inv lim (update_object a f m)"
    if "connection_ok lim (f (mg_heap m ! a))" "cn_pending_bytes (f (mg_heap m ! a)) = cn_pending_bytes (mg_heap m ! a)"
      "\<And>c. cn_room_id (f c) = cn_room_id c"
      "cn_pending (mg_heap m ! a) = [] \<Longrightarrow> cn_pending (f (mg_heap m ! a)) = []" for f
    using budget_inv_same_bytes [where f = f, OF assms(1,3) that(1,2)] index_inv_update [where f = f, OF assms(2,3) that(3)] that(4) by blast
  note ok = connection_in_budget [OF assms(1,3)]
  have "connection_ok lim ((mg_heap m ! a)\<lparr>cn_pending := es, cn_inflight := Some e\<rparr>)"
    if "cn_pending (mg_heap m ! a) = e # es" for e es
    using ok that assms(4,5) by (auto simp: connection_ok_def inflight_size_def inflight_count_def)
  moreover have "connection_ok lim ((mg_heap m ! a)\<lparr>cn_activation := Idle\<rparr>)"
    "connection_ok lim ((mg_heap m ! a)\<lparr>cn_broadcast_ready := True, cn_activation := Idle\<rparr>)"
    using ok assms(5) by (auto simp: connection_ok_def)
  ultimately show ?thesis
    using step [of "\<lambda>c. c\<lparr>cn_activation := Idle\<rparr>"] step [of "\<lambda>c. c\<lparr>cn_broadcast_ready := True, cn_activation := Idle\<rparr>"]
      step [of "\<lambda>c. c\<lparr>cn_pending := tl (cn_pending (mg_heap m ! a)), cn_inflight := Some (hd (cn_pending (mg_heap m ! a)))\<rparr>"]
      ok assms(5)
    by (cases "cn_pending (mg_heap m ! a)") (simp_all add: activate_turn_def connection_ok_def)
qed

lemma activate_finally_inv:
  assumes "budget_inv lim m" and "index_inv lim m" and "a < length (mg_heap m)"
  shows "budget_inv lim (activate_finally ws a sent m) \<and> index_inv lim (activate_finally ws a sent m)"
proof -
  let ?size = "inflight_size (mg_heap m ! a)"
  let ?f = "\<lambda>c. c\<lparr>cn_inflight := None, cn_pending_bytes := cn_pending_bytes c - ?size\<rparr>"
  let ?m1 = "update_object a ?f (m\<lparr>mg_pending_bytes := mg_pending_bytes m - ?size\<rparr>)"
  note ok = connection_in_budget [OF assms(1,3)]
  have f_ok: "connection_ok lim (?f (mg_heap m ! a))"
    using ok inflight_size_nonneg [of "mg_heap m ! a"] unfolding connection_ok_def by (simp, linarith)
  have t: "mg_pending_bytes m - ?size \<le> int (max_total_pending_bytes lim)"
    using assms(1) inflight_size_nonneg [of "mg_heap m ! a"] unfolding budget_inv_def by linarith
  have b1: "budget_inv lim ?m1" by (rule budget_inv_update [where f = ?f, OF assms(1,3) f_ok _ t]) simp
  have i1: "index_inv lim ?m1"
    unfolding update_object_total index_inv_total by (rule index_inv_update [OF assms(2,3)]) simp_all
  let ?g = "\<lambda>c. c\<lparr>cn_activation := Idle\<rparr>"
  have a: "a < length (mg_heap ?m1)" using assms(3) by simp
  have h: "mg_heap ?m1 ! a = ?f (mg_heap m ! a)" using assms(3) by (simp add: update_object_def)
  have "connection_ok lim (?g (mg_heap ?m1 ! a))"
    using f_ok unfolding h by (simp add: connection_ok_def)
  then have "budget_inv lim (update_object a ?g ?m1)" by (intro budget_inv_same_bytes [OF b1 a]) simp_all
  moreover have "index_inv lim (update_object a ?g ?m1)" by (rule index_inv_update [OF i1 a]) simp_all
  ultimately show ?thesis using b1 i1 detach_connection_inv by (simp add: activate_finally_def Let_def)
qed

lemma activate_cancel_inv:
  assumes "budget_inv lim m" and "index_inv lim m" and "a < length (mg_heap m)" and "cn_inflight (mg_heap m ! a) = None"
  shows "budget_inv lim (activate_cancel ws a m) \<and> index_inv lim (activate_cancel ws a m)"
proof -
  let ?g = "\<lambda>c. c\<lparr>cn_activation := Idle\<rparr>"
  have "connection_ok lim (?g (mg_heap m ! a))"
    using connection_in_budget [OF assms(1,3)] assms(4) by (simp add: connection_ok_def)
  then have "budget_inv lim (update_object a ?g m)" by (intro budget_inv_same_bytes [OF assms(1,3)]) simp_all
  moreover have "index_inv lim (update_object a ?g m)" by (rule index_inv_update [OF assms(2,3)]) simp_all
  ultimately show ?thesis by (simp add: activate_cancel_def detach_connection_inv)
qed

subsection \<open>Broadcasting\<close>

lemma enqueue_inv:
  assumes "budget_inv lim m" and "index_inv lim m" and "a \<in> snd ` set (mg_metadata m)"
    and "\<not> overflows lim m (mg_heap m ! a) (Some e)"
  shows "budget_inv lim (enqueue a e m) \<and> index_inv lim (enqueue a e m)"
proof -
  let ?f = "\<lambda>c. c\<lparr>cn_pending := cn_pending c @ [e], cn_pending_bytes := cn_pending_bytes c + int (pe_size e)\<rparr>"
  have a: "a < length (mg_heap m)" using assms(2,3) by (auto simp: index_inv_def)
  have "connection_ok lim (?f (mg_heap m ! a))"
    using connection_in_budget [OF assms(1) a] assms(4) by (auto simp: connection_ok_def overflows_def)
  then have "budget_inv lim (enqueue a e m)"
    unfolding enqueue_def
    by (intro budget_inv_update [where f = ?f, OF assms(1) a]) (use assms(4) in \<open>simp_all add: overflows_def\<close>)
  moreover have "index_inv lim (enqueue a e m)"
    unfolding enqueue_def update_object_total index_inv_total
    by (rule index_inv_update [OF assms(2) a]) (use assms(3) in simp_all)
  ultimately show ?thesis ..
qed

lemma detach_keeps_others:
  "v \<noteq> ws \<Longrightarrow> map_of (mg_metadata (snd (detach_connection ws m))) v = map_of (mg_metadata m) v"
  by (simp add: detach_connection_def discard_from_room_def set_room_entry_def map_of_remove split: option.splits)

lemma metadata_enqueue [simp]: "mg_metadata (enqueue a e m) = mg_metadata m"
  by (simp add: enqueue_def)

lemma broadcast_one_inv:
  assumes "budget_inv lim m" and "index_inv lim m" and "map_of (mg_metadata m) ws \<noteq> None"
    and "broadcast_one lim au e ws (m, rs, os) = (m', out)"
  shows "budget_inv lim m' \<and> index_inv lim m' \<and> (\<forall>v. v \<noteq> ws \<longrightarrow> map_of (mg_metadata m') v = map_of (mg_metadata m) v)"
proof -
  obtain a where a: "map_of (mg_metadata m) ws = Some a" using assms(3) by blast
  then have "a \<in> snd ` set (mg_metadata m)" by (auto dest!: map_of_SomeD intro: rev_image_eqI)
  moreover have "e \<noteq> None" if "\<not> overflows lim m (mg_heap m ! a) e" using that by (cases e) (simp_all add: overflows_def)
  ultimately have "budget_inv lim (enqueue a (the e) m) \<and> index_inv lim (enqueue a (the e) m)"
    if "\<not> overflows lim m (mg_heap m ! a) e" using that enqueue_inv [OF assms(1,2)] by (metis option.collapse)
  then show ?thesis
    using assms(4) a assms(1,2) detach_connection_inv [OF assms(1,2), of ws] detach_keeps_others [of _ ws m]
    by (auto simp: broadcast_one_def Let_def split: if_splits)
qed

lemma broadcast_fold_inv:
  assumes "budget_inv lim m" and "index_inv lim m" and "distinct order"
    and "\<And>ws. ws \<in> set order \<Longrightarrow> map_of (mg_metadata m) ws \<noteq> None"
    and "fold (broadcast_one lim au e) order (m, rs, os) = (m', out)"
  shows "budget_inv lim m' \<and> index_inv lim m'"
  using assms
proof (induction order arbitrary: m rs os)
  case Nil
  then show ?case by simp
next
  case (Cons ws order)
  obtain m1 rs1 os1 where one: "broadcast_one lim au e ws (m, rs, os) = (m1, rs1, os1)"
    by (cases "broadcast_one lim au e ws (m, rs, os)") auto
  have ws: "map_of (mg_metadata m) ws \<noteq> None" using Cons.prems(4) by simp
  note inv = broadcast_one_inv [OF Cons.prems(1,2) ws one]
  have "map_of (mg_metadata m1) v \<noteq> None" if "v \<in> set order" for v
  proof -
    have "v \<noteq> ws" using that Cons.prems(3) by auto
    then show ?thesis using inv Cons.prems(4) [of v] that by simp
  qed
  then show ?case using Cons.IH [of m1 rs1 os1] inv Cons.prems(3,5) one by simp
qed

subsection \<open>Closing several connections\<close>

lemma fold_discard:
  assumes "\<forall>a\<in>set as. a < length (mg_heap m)" and "budget_inv lim m"
  shows "budget_inv lim (fold discard_pending as m)"
    and "length (mg_heap (fold discard_pending as m)) = length (mg_heap m)"
    and "b \<in> set as \<or> cn_pending (mg_heap m ! b) = [] \<Longrightarrow> cn_pending (mg_heap (fold discard_pending as m) ! b) = []"
proof -
  have "budget_inv lim (fold discard_pending as m) \<and> length (mg_heap (fold discard_pending as m)) = length (mg_heap m) \<and>
      (b \<in> set as \<or> cn_pending (mg_heap m ! b) = [] \<longrightarrow> cn_pending (mg_heap (fold discard_pending as m) ! b) = [])"
    using assms
  proof (induction as arbitrary: m)
    case (Cons a as)
    have "budget_inv lim (discard_pending a m)" using Cons.prems by (intro discard_pending_budget) simp_all
    with Cons.IH [of "discard_pending a m"] Cons.prems show ?case by (auto simp: heap_discard_pending)
  qed simp
  then show "budget_inv lim (fold discard_pending as m)"
    "length (mg_heap (fold discard_pending as m)) = length (mg_heap m)"
    "b \<in> set as \<or> cn_pending (mg_heap m ! b) = [] \<Longrightarrow> cn_pending (mg_heap (fold discard_pending as m) ! b) = []"
    by blast+
qed

lemma close_all_inv:
  assumes "budget_inv lim m" and "index_inv lim m"
  shows "budget_inv lim (snd (close_all m)) \<and> index_inv lim (snd (close_all m))"
proof -
  have as: "\<forall>a\<in>set (map snd (mg_metadata m)). a < length (mg_heap m)" using assms(2) by (auto simp: index_inv_def)
  have "cn_pending (mg_heap (fold discard_pending (map snd (mg_metadata m)) m) ! b) = []" if "b < length (mg_heap m)" for b
    using fold_discard(3) [OF as assms(1), of b] assms(2) that by (auto simp: index_inv_def)
  then show ?thesis
    using fold_discard(1,2) [OF as assms(1)] by (simp add: close_all_def index_inv_def registered_in_def)
qed

text \<open>
  Detaching the connections of one room one after the other and fixing the room's entry at the end is
  the same as detaching each of them completely.
\<close>

lemma drop_registration_rooms [simp]:
  "mg_rooms (drop_registration ws m) = mg_rooms m"
  "drop_registration ws (set_room_entry r t m) = set_room_entry r t (drop_registration ws m)"
  by (cases m; simp add: drop_registration_def discard_pending_def update_object_def set_room_entry_def Let_def)+

lemma fold_drop_rooms [simp]:
  "mg_rooms (fold drop_registration sel m) = mg_rooms m"
  "fold drop_registration sel (set_room_entry r t m) = set_room_entry r t (fold drop_registration sel m)"
  by (induction sel arbitrary: m) simp_all

lemma set_room_entry_twice [simp]: "set_room_entry r t (set_room_entry r u m) = set_room_entry r t m"
  by (simp add: set_room_entry_def)

lemma detach_in_room:
  assumes "map_of (mg_metadata m) ws = Some a" and "mg_rooms m (cn_room_id (mg_heap m ! a)) = Some s"
  shows "snd (detach_connection ws m) = set_room_entry (cn_room_id (mg_heap m ! a)) (s - {ws}) (drop_registration ws m)"
  using assms by (simp add: detach_connection_def discard_from_room_def drop_registration_def)

lemma registered_in_detach:
  assumes "map_of (mg_metadata m) ws = Some a" and "a < length (mg_heap m)"
  shows "registered_in (snd (detach_connection ws m)) r = registered_in m r - {ws}"
  using assms
  by (auto simp: registered_in_def detach_connection_def discard_from_room_def set_room_entry_def map_of_remove heap_discard_pending
      split: option.splits if_splits)

lemma fold_detach_is_drop:
  assumes "index_inv lim m" and "budget_inv lim m" and "distinct sel" and "set sel \<subseteq> registered_in m r"
    and "mg_rooms m r = Some s"
  shows "fold (\<lambda>ws m. snd (detach_connection ws m)) sel m = set_room_entry r (s - set sel) (fold drop_registration sel m)"
  using assms
proof (induction sel arbitrary: m s)
  case Nil
  then have "s \<noteq> {}" by (auto simp: index_inv_def split: if_splits)
  then show ?case using Nil by (simp add: set_room_entry_def fun_upd_idem)
next
  case (Cons ws sel)
  let ?m1 = "snd (detach_connection ws m)"
  obtain a where a: "map_of (mg_metadata m) ws = Some a" "cn_room_id (mg_heap m ! a) = r"
    using Cons.prems(4) by (auto simp: registered_in_def)
  then have al: "a < length (mg_heap m)" using Cons.prems(1) by (auto simp: index_inv_def dest: map_of_SomeD)
  have m1: "?m1 = set_room_entry r (s - {ws}) (drop_registration ws m)"
    using detach_in_room [OF a(1)] a(2) Cons.prems(5) by simp
  have s: "s = registered_in m r" using Cons.prems(1,5) by (auto simp: index_inv_def split: if_splits)
  show ?case
  proof (cases "s - {ws} = {}")
    case True
    then have "sel = []" using Cons.prems(3,4) s by (cases sel) auto
    then show ?thesis using m1 by simp
  next
    case False
    have sub: "set sel \<subseteq> registered_in ?m1 r"
      using Cons.prems(3,4) registered_in_detach [OF a(1) al] by auto
    have rooms: "mg_rooms ?m1 r = Some (s - {ws})" using m1 False by (simp add: set_room_entry_def)
    have "s - {ws} - set sel = s - set (ws # sel)" by auto
    with Cons.IH [OF detach_connection_inv(2) [OF Cons.prems(2,1)] detach_connection_inv(1) [OF Cons.prems(2,1)] _ sub rooms]
    show ?thesis using Cons.prems(3) by (simp add: m1)
  qed
qed

lemma fold_detach_inv:
  assumes "budget_inv lim m" and "index_inv lim m"
  shows "budget_inv lim (fold (\<lambda>ws m. snd (detach_connection ws m)) sel m) \<and>
    index_inv lim (fold (\<lambda>ws m. snd (detach_connection ws m)) sel m)"
  using assms by (induction sel arbitrary: m) (simp_all add: detach_connection_inv)

lemma detach_room_inv:
  assumes "budget_inv lim m" and "index_inv lim m" and "distinct order" and "set order = room_set m r"
    and "detach_room_connections r order subj sq m = Inr (closed, m')"
  shows "budget_inv lim m' \<and> index_inv lim m'"
proof (cases "mg_rooms m r")
  case None
  then show ?thesis using assms by (auto simp: detach_room_connections_def)
next
  case (Some s)
  let ?sel = "detach_selected m order subj sq"
  have "distinct ?sel" "set ?sel \<subseteq> registered_in m r"
    using assms(3,4) room_set_registered [OF assms(2), of r] by (auto simp: detach_selected_def)
  from fold_detach_is_drop [OF assms(2,1) this Some]
  have "m' = fold (\<lambda>ws m. snd (detach_connection ws m)) ?sel m"
    using assms(5) Some by (simp add: detach_room_connections_def Let_def)
  then show ?thesis using fold_detach_inv [OF assms(1,2)] by simp
qed

subsection \<open>Reachable managers\<close>

lemma manager_step_inv:
  assumes "manager_step lim m m'" and "budget_inv lim m" and "index_inv lim m"
  shows "budget_inv lim m' \<and> index_inv lim m'"
  using assms
proof (cases rule: manager_step.cases)
  case (step_broadcast order r event au out)
  have "map_of (mg_metadata m) ws \<noteq> None" if "ws \<in> set order" for ws
    using that step_broadcast(2) room_set_registered [OF assms(3), of r] by (auto simp: registered_in_def)
  moreover obtain rs os where "fold (broadcast_one lim au (encode_event event)) order (m, [], []) = (m', rs, os)"
    using step_broadcast(3) by (cases out) (auto simp: broadcast_def)
  ultimately show ?thesis using broadcast_fold_inv [OF assms(2,3) step_broadcast(1)] by blast
next
  case (step_unregister ws)
  then show ?thesis using detach_connection_inv [OF assms(2,3), of ws]
    by (cases "detach_connection ws m") (simp add: unregister_def)
next
  case (step_send ws a io_ok)
  then show ?thesis using detach_connection_inv [OF assms(2,3), of ws] assms(2,3) by (simp add: send_with_lock_def)
next
  case (step_turn a ws)
  then show ?thesis using activate_turn_inv [OF assms(2,3)] by simp
qed (use assms(2,3) in \<open>auto dest: register_inv detach_room_inv simp: activate_lock_inv activate_finally_inv activate_cancel_inv close_all_inv\<close>)

lemma manager_reachable_inv:
  "manager_reachable lim m \<Longrightarrow> budget_inv lim m \<and> index_inv lim m"
proof (induction rule: manager_reachable.induct)
  case (start m)
  then show ?case
    by (auto simp: ConnectionManager_def budget_inv_def index_inv_def registered_in_def split: if_splits)
next
  case (move m m')
  then show ?case using manager_step_inv by blast
qed

end
