(* ===== verification/Connection_Properties.thy ===== *)
theory Connection_Properties
  imports Connection_Steps
begin

section \<open>Properties of the connection manager\<close>

text \<open>
  The budgets that hold in every reachable manager, what a broadcast does to each connection of a room,
  that an activation drains its queue in order, and that closing a room or a member detaches exactly
  its connections. The sample manager has one initialising connection.
\<close>

definition sample_limits :: limits where
  "sample_limits = \<lparr>max_connections = 2, max_per_room = 2, max_pending_events = 2, max_pending_bytes = 10,
     max_total_pending_bytes = 10\<rparr>"

definition fresh_manager :: manager where
  "fresh_manager = \<lparr>mg_pending_bytes = 0, mg_rooms = Map.empty, mg_metadata = [], mg_heap = []\<rparr>"

definition sample_connection :: connection where
  "sample_connection = new_connection [114] [117] (Some [115]) {} None False None"

definition sample_manager :: manager where
  "sample_manager = \<lparr>mg_pending_bytes = 0, mg_rooms = Map.empty([114] \<mapsto> {7}), mg_metadata = [(7, 0)],
     mg_heap = [sample_connection]\<rparr>"

definition everyone :: audience where
  "everyone = \<lparr>au_exclude = None, au_exclude_connection_id = None, au_event_sequence = None,
     au_required_permission = None\<rparr>"

text \<open>What a broadcast does to one connection of the room, from the state before to the state after.\<close>

definition broadcast_effect ::
  "audience \<Rightarrow> pending_event option \<Rightarrow> manager \<Rightarrow> manager \<Rightarrow> (socket \<times> addr) list \<Rightarrow> (socket \<times> addr) list \<Rightarrow> socket \<Rightarrow> bool" where
  "broadcast_effect au e m m' recipients overflow ws \<longleftrightarrow>
     (let a = the (map_of (mg_metadata m) ws); c = mg_heap m ! a; c' = mg_heap m' ! a;
          kept = (map_of (mg_metadata m') ws = Some a) in
      if \<not> addressed au ws c then kept \<and> c' = c \<and> ws \<notin> fst ` set recipients \<and> ws \<notin> fst ` set overflow
      else if cn_broadcast_ready c then kept \<and> c' = c \<and> (ws, a) \<in> set recipients \<and> ws \<notin> fst ` set overflow
      else ws \<notin> fst ` set recipients \<and>
        ((ws, a) \<in> set overflow \<and> map_of (mg_metadata m') ws = None \<or>
         ws \<notin> fst ` set overflow \<and> kept \<and>
           (\<exists>x. e = Some x \<and> cn_pending c' = cn_pending c @ [x])))"

lemma sample_reachable: "manager_reachable sample_limits sample_manager"
proof (rule manager_reachable.move)
  show "manager_reachable sample_limits fresh_manager"
    by (rule manager_reachable.start) (simp add: ConnectionManager_def sample_limits_def fresh_manager_def)
  have "register sample_limits 7 sample_connection None fresh_manager = Inr (True, sample_manager)"
    by (simp add: register_def validate_sequence_def sample_connection_def new_connection_def sample_limits_def
        fresh_manager_def sample_manager_def room_set_def)
  then show "manager_step sample_limits fresh_manager sample_manager"
    by (rule step_register [OF sample_connection_def])
qed

subsection \<open>Budgets\<close>

lemma queue_within:
  "connection_ok lim c \<Longrightarrow> 0 \<le> cn_pending_bytes c \<and> cn_pending_bytes c \<le> int (max_pending_bytes lim) \<and>
     length (cn_pending c) \<le> max_pending_events lim"
  by (simp add: connection_ok_def)

text \<open>
  C28. Whatever clients and peers do, in whatever interleaving, the manager stays within its limits: the
  numbers of connections in all and in each room, the queued events and bytes of each connection, and
  the bytes of all queues together. The shared counter is exactly the sum of what the connections are
  charged, so no byte of budget leaks: it is zero when nothing is registered and no send is in flight.
\<close>

theorem connection_budgets_hold:
  assumes "manager_reachable lim m"
  shows "active_connections m \<le> max_connections lim \<and> room_connections m r \<le> max_per_room lim \<and>
    (\<forall>c\<in>set (mg_heap m). 0 \<le> cn_pending_bytes c \<and> cn_pending_bytes c \<le> int (max_pending_bytes lim) \<and>
       length (cn_pending c) \<le> max_pending_events lim) \<and>
    mg_pending_bytes m = sum_list (map cn_pending_bytes (mg_heap m)) \<and>
    0 \<le> mg_pending_bytes m \<and> mg_pending_bytes m \<le> int (max_total_pending_bytes lim) \<and>
    (mg_metadata m = [] \<longrightarrow> (\<forall>c\<in>set (mg_heap m). cn_inflight c = None) \<longrightarrow> mg_pending_bytes m = 0)"
proof -
  have inv: "budget_inv lim m" "index_inv lim m" using manager_reachable_inv [OF assms] by auto
  have ok: "connection_ok lim c" if "c \<in> set (mg_heap m)" for c using that inv(1) by (simp add: budget_inv_def)
  have "0 \<le> sum_list (map cn_pending_bytes (mg_heap m))"
    by (rule sum_list_nonneg) (use ok queue_within in auto)
  moreover have "sum_list (map cn_pending_bytes (mg_heap m)) = 0"
    if idle: "mg_metadata m = []" "\<forall>c\<in>set (mg_heap m). cn_inflight c = None"
  proof -
    have "cn_pending_bytes c = 0" if c: "c \<in> set (mg_heap m)" for c
    proof -
      have "cn_pending c = []" using c inv(2) idle(1) by (auto simp: index_inv_def in_set_conv_nth)
      then show ?thesis using ok [OF c] idle(2) c by (simp add: connection_ok_def inflight_size_def)
    qed
    then have "map cn_pending_bytes (mg_heap m) = replicate (length (mg_heap m)) 0"
      by (simp add: map_replicate_const [symmetric])
    then show ?thesis by (simp add: sum_list_replicate)
  qed
  moreover have "room_connections m r \<le> max_per_room lim"
    using inv(2) room_set_registered [OF inv(2), of r] by (simp add: room_connections_def index_inv_def)
  ultimately show ?thesis
    using inv ok queue_within by (auto simp: budget_inv_def active_connections_def index_inv_def)
qed

theorem connection_budgets_hold_witness:
  "active_connections sample_manager \<le> 2 \<and> mg_pending_bytes sample_manager \<le> 10"
  using connection_budgets_hold [OF sample_reachable, of "[114]"] by (simp add: sample_limits_def)

subsection \<open>Broadcasts\<close>

lemma detach_heap:
  assumes "index_inv lim m" and "map_of (mg_metadata m) ws = Some a" and "b \<noteq> a"
  shows "mg_heap (snd (detach_connection ws m)) ! b = mg_heap m ! b"
proof -
  have "a < length (mg_heap m)" using assms(1,2) by (auto simp: index_inv_def dest: map_of_SomeD)
  then show ?thesis using assms
    by (simp add: detach_connection_def discard_from_room_def set_room_entry_def heap_discard_pending split: option.splits)
qed

lemma enqueue_heap:
  "a < length (mg_heap m) \<Longrightarrow> mg_heap (enqueue a e m) ! b = (if b = a then (mg_heap m ! a)\<lparr>
     cn_pending := cn_pending (mg_heap m ! a) @ [e], cn_pending_bytes := cn_pending_bytes (mg_heap m ! a) + int (pe_size e)\<rparr>
     else mg_heap m ! b)"
  by (simp add: enqueue_def heap_update_object)

lemma fold_broadcast_append:
  "fold (broadcast_one lim au e) order (m, rs, os) = (m', rs', os') \<Longrightarrow>
   \<exists>rs1 os1. fold (broadcast_one lim au e) order (m, [], []) = (m', rs1, os1) \<and> rs' = rs @ rs1 \<and> os' = os @ os1"
proof (induction order arbitrary: m rs os m' rs' os')
  case (Cons ws order)
  obtain m1 r1 o1 where one: "broadcast_one lim au e ws (m, [], []) = (m1, r1, o1)"
    by (cases "broadcast_one lim au e ws (m, [], [])") auto
  then have "broadcast_one lim au e ws (m, rs, os) = (m1, rs @ r1, os @ o1)"
    by (auto simp: broadcast_one_def Let_def split: if_splits)
  then obtain rs2 os2 where two: "fold (broadcast_one lim au e) order (m1, [], []) = (m', rs2, os2)"
      "rs' = (rs @ r1) @ rs2" "os' = (os @ o1) @ os2"
    using Cons.IH [of m1 "rs @ r1" "os @ o1"] Cons.prems by auto
  obtain m2 rs3 os3 where three: "fold (broadcast_one lim au e) order (m1, r1, o1) = (m2, rs3, os3)"
    by (cases "fold (broadcast_one lim au e) order (m1, r1, o1)") auto
  from Cons.IH [OF three] two(1) have "m2 = m'" "rs3 = r1 @ rs2" "os3 = o1 @ os2" by auto
  then show ?case using one three two by simp
qed simp

lemma broadcast_one_effect:
  assumes inv: "budget_inv lim m" "index_inv lim m" and ws: "map_of (mg_metadata m) ws = Some a"
    and one: "broadcast_one lim au e ws (m, [], []) = (m1, rs, os)"
  shows "broadcast_effect au e m m1 rs os ws" and "fst ` (set rs \<union> set os) \<subseteq> {ws}"
    and "b \<noteq> a \<Longrightarrow> mg_heap m1 ! b = mg_heap m ! b"
proof -
  have a: "a < length (mg_heap m)" using inv(2) ws by (auto simp: index_inv_def dest: map_of_SomeD)
  have gone: "map_of (mg_metadata (snd (detach_connection ws m))) ws = None"
    using ws by (simp add: detach_connection_def discard_from_room_def set_room_entry_def map_of_remove split: option.splits)
  show "broadcast_effect au e m m1 rs os ws"
    using one ws a gone
    by (cases e) (auto simp: broadcast_one_def broadcast_effect_def Let_def overflows_def enqueue_heap split: if_splits)
  show "fst ` (set rs \<union> set os) \<subseteq> {ws}"
    using one by (auto simp: broadcast_one_def Let_def split: if_splits)
  show "b \<noteq> a \<Longrightarrow> mg_heap m1 ! b = mg_heap m ! b"
    using one ws a detach_heap [OF inv(2) ws]
    by (auto simp: broadcast_one_def Let_def enqueue_heap split: if_splits)
qed

lemma broadcast_effect_transfer:
  assumes "broadcast_effect au e m1 m1' rs1 os1 ws"
    and "map_of (mg_metadata m) ws = Some a" "map_of (mg_metadata m1) ws = Some a" "mg_heap m ! a = mg_heap m1 ! a"
    and "map_of (mg_metadata m') ws = map_of (mg_metadata m1') ws" "mg_heap m' ! a = mg_heap m1' ! a"
    and rs: "\<And>x. (ws, x) \<in> set rs \<longleftrightarrow> (ws, x) \<in> set rs1" and os: "\<And>x. (ws, x) \<in> set os \<longleftrightarrow> (ws, x) \<in> set os1"
  shows "broadcast_effect au e m m' rs os ws"
proof -
  have fst: "ws \<in> fst ` set al \<longleftrightarrow> (\<exists>x. (ws, x) \<in> set al)" for al :: "(socket \<times> addr) list"
    by force
  show ?thesis
    using assms(1) unfolding broadcast_effect_def Let_def fst assms(2,3) option.sel assms(4-6) rs os .
qed

lemma broadcast_fold_effect:
  assumes "budget_inv lim m" and "index_inv lim m" and "distinct order"
    and "\<And>ws. ws \<in> set order \<Longrightarrow> map_of (mg_metadata m) ws \<noteq> None"
    and "fold (broadcast_one lim au e) order (m, [], []) = (m', rs, os)"
  shows "(\<forall>ws\<in>set order. broadcast_effect au e m m' rs os ws) \<and> fst ` (set rs \<union> set os) \<subseteq> set order \<and>
    (\<forall>v. v \<notin> set order \<longrightarrow> map_of (mg_metadata m') v = map_of (mg_metadata m) v) \<and>
    (\<forall>b. (\<forall>ws\<in>set order. map_of (mg_metadata m) ws \<noteq> Some b) \<longrightarrow> mg_heap m' ! b = mg_heap m ! b)"
  using assms
proof (induction order arbitrary: m rs os)
  case Nil
  then show ?case by simp
next
  case (Cons ws order)
  obtain a where a: "map_of (mg_metadata m) ws = Some a" using Cons.prems(4) [of ws] by auto
  obtain m1 r1 o1 where one: "broadcast_one lim au e ws (m, [], []) = (m1, r1, o1)"
    by (cases "broadcast_one lim au e ws (m, [], [])") auto
  obtain r2 o2 where two: "fold (broadcast_one lim au e) order (m1, [], []) = (m', r2, o2)" "rs = r1 @ r2" "os = o1 @ o2"
    using fold_broadcast_append [of lim au e order m1 r1 o1 m' rs os] Cons.prems(5) one by auto
  note eff = broadcast_one_effect [OF Cons.prems(1,2) a one]
  have ws: "map_of (mg_metadata m) ws \<noteq> None" using a by simp
  note inv = broadcast_one_inv [OF Cons.prems(1,2) ws one]
  have md: "map_of (mg_metadata m1) v = map_of (mg_metadata m) v" if "v \<in> set order" for v
    using that inv Cons.prems(3) by auto
  have ih: "(\<forall>v\<in>set order. broadcast_effect au e m1 m' r2 o2 v) \<and> fst ` (set r2 \<union> set o2) \<subseteq> set order \<and>
    (\<forall>v. v \<notin> set order \<longrightarrow> map_of (mg_metadata m') v = map_of (mg_metadata m1) v) \<and>
    (\<forall>b. (\<forall>v\<in>set order. map_of (mg_metadata m1) v \<noteq> Some b) \<longrightarrow> mg_heap m' ! b = mg_heap m1 ! b)"
    using Cons.IH [OF _ _ _ _ two(1)] inv md Cons.prems(3,4) by auto
  have other: "map_of (mg_metadata m) v \<noteq> Some a" if "v \<in> set order" for v
  proof
    assume "map_of (mg_metadata m) v = Some a"
    then have "v = ws" using a Cons.prems(2) unfolding index_inv_def
      by (metis distinct_key_inj map_of_SomeD prod.inject snd_conv)
    then show False using that Cons.prems(3) by auto
  qed
  have heap_a: "mg_heap m' ! a = mg_heap m1 ! a" using ih other md by metis
  have ws_order: "ws \<notin> set order" using Cons.prems(3) by simp
  have "broadcast_effect au e m m' rs os ws"
  proof (rule broadcast_effect_transfer [OF eff(1) a a refl])
    show "map_of (mg_metadata m') ws = map_of (mg_metadata m1) ws" using ih ws_order by blast
    show "(ws, x) \<in> set rs \<longleftrightarrow> (ws, x) \<in> set r1" "(ws, x) \<in> set os \<longleftrightarrow> (ws, x) \<in> set o1" for x
      using ih ws_order two(2,3) by auto
  qed (rule heap_a)
  moreover have "broadcast_effect au e m m' rs os v" if v: "v \<in> set order" for v
  proof -
    obtain b where b: "map_of (mg_metadata m) v = Some b" using Cons.prems(4) [of v] v by auto
    have "b \<noteq> a" using other [OF v] b by auto
    then have h: "mg_heap m ! b = mg_heap m1 ! b" by (simp add: eff(3))
    have "v \<noteq> ws" using v ws_order by auto
    then have mem: "(v, x) \<in> set rs \<longleftrightarrow> (v, x) \<in> set r2" "(v, x) \<in> set os \<longleftrightarrow> (v, x) \<in> set o2" for x
      using eff(2) two(2,3) by auto
    have e1: "broadcast_effect au e m1 m' r2 o2 v" using ih v by simp
    show ?thesis by (rule broadcast_effect_transfer [OF e1 b md [OF v, unfolded b] h refl refl mem])
  qed
  moreover have "\<forall>v. v \<notin> set (ws # order) \<longrightarrow> map_of (mg_metadata m') v = map_of (mg_metadata m) v"
    using ih inv by auto
  moreover have "\<forall>b. (\<forall>v\<in>set (ws # order). map_of (mg_metadata m) v \<noteq> Some b) \<longrightarrow> mg_heap m' ! b = mg_heap m ! b"
    using ih eff(3) a md by auto
  moreover have "fst ` (set rs \<union> set os) \<subseteq> set (ws # order)" using ih eff(2) two(2,3) by auto
  ultimately show ?case by auto
qed

text \<open>
  A broadcast treats every connection of the room by exactly one of four rules and touches nothing
  else: one that is not addressed (older sequence, missing permission, excluded) is left alone; an
  active one becomes a recipient; an initialising one has the event appended to its queue, or, when
  that would exceed a limit, is detached and closed. Registrations and objects outside the room keep
  their state.
\<close>

theorem broadcast_effects:
  assumes "manager_reachable lim m" and "distinct order" and "set order = room_set m r"
    and "broadcast lim order event au m = Inr (m', recipients, overflow)"
  shows "(\<forall>ws\<in>room_set m r. broadcast_effect au (encode_event event) m m' recipients overflow ws) \<and>
    fst ` (set recipients \<union> set overflow) \<subseteq> room_set m r \<and>
    (\<forall>v. v \<notin> room_set m r \<longrightarrow> map_of (mg_metadata m') v = map_of (mg_metadata m) v) \<and>
    (\<forall>b. (\<forall>ws\<in>room_set m r. map_of (mg_metadata m) ws \<noteq> Some b) \<longrightarrow> mg_heap m' ! b = mg_heap m ! b)"
proof -
  have inv: "budget_inv lim m" "index_inv lim m" using manager_reachable_inv [OF assms(1)] by auto
  have "map_of (mg_metadata m) ws \<noteq> None" if "ws \<in> set order" for ws
    using that assms(3) room_set_registered [OF inv(2), of r] by (auto simp: registered_in_def)
  moreover have "fold (broadcast_one lim au (encode_event event)) order (m, [], []) = (m', recipients, overflow)"
    using assms(4) by (simp add: broadcast_def)
  ultimately show ?thesis using broadcast_fold_effect [OF inv assms(2)] unfolding assms(3) by blast
qed

theorem broadcast_effects_witness:
  "\<exists>m' rs os. broadcast sample_limits [7] (JStr [97]) everyone sample_manager = Inr (m', rs, os) \<and>
     broadcast_effect everyone (encode_event (JStr [97])) sample_manager m' rs os 7"
proof -
  have room: "room_set sample_manager [114] = {7}" by (simp add: room_set_def sample_manager_def)
  obtain m' rs os where b: "broadcast sample_limits [7] (JStr [97]) everyone sample_manager = Inr (m', rs, os)"
    by (cases "fold (broadcast_one sample_limits everyone (encode_event (JStr [97]))) [7] (sample_manager, [], [])")
      (simp add: broadcast_def everyone_def validate_sequence_def)
  from broadcast_effects [OF sample_reachable _ _ b, of "[114]"] b show ?thesis by (simp add: room)
qed

subsection \<open>Activation\<close>

lemma activate_turn_send:
  assumes "map_of (mg_metadata m) ws = Some a" and "a < length (mg_heap m)" and "cn_pending (mg_heap m ! a) = e # es"
    and "cn_inflight (mg_heap m ! a) = None"
  shows "\<exists>m1. activate_turn ws a m = (Sending e, m1) \<and>
    mg_metadata (activate_finally ws a True m1) = mg_metadata m \<and>
    length (mg_heap (activate_finally ws a True m1)) = length (mg_heap m) \<and>
    mg_pending_bytes (activate_finally ws a True m1) = mg_pending_bytes m - int (pe_size e) \<and>
    mg_heap (activate_finally ws a True m1) ! a = (mg_heap m ! a)\<lparr>cn_pending := es, cn_inflight := None,
      cn_pending_bytes := cn_pending_bytes (mg_heap m ! a) - int (pe_size e)\<rparr>"
  using assms
  by (simp add: activate_turn_def activate_finally_def Let_def heap_update_object)

lemma activate_loop_flushes:
  assumes "map_of (mg_metadata m) ws = Some a" and "a < length (mg_heap m)" and "cn_inflight (mg_heap m ! a) = None"
    and "cn_pending (mg_heap m ! a) = es" and "length es < fuel"
  shows "\<exists>m'. activate_loop fuel ws a m = Some (map pe_payload es, True, m') \<and>
    mg_pending_bytes m' = mg_pending_bytes m - queued_bytes es \<and>
    cn_broadcast_ready (mg_heap m' ! a) \<and> cn_pending (mg_heap m' ! a) = [] \<and>
    cn_pending_bytes (mg_heap m' ! a) = cn_pending_bytes (mg_heap m ! a) - queued_bytes es"
  using assms
proof (induction es arbitrary: m fuel)
  case Nil
  then obtain n where "fuel = Suc n" by (cases fuel) auto
  with Nil show ?case by (simp add: activate_turn_def heap_update_object)
next
  case (Cons e es)
  then obtain n where n: "fuel = Suc n" by (cases fuel) auto
  obtain m1 where m1: "activate_turn ws a m = (Sending e, m1)"
    and f: "mg_metadata (activate_finally ws a True m1) = mg_metadata m"
      "length (mg_heap (activate_finally ws a True m1)) = length (mg_heap m)"
      "mg_pending_bytes (activate_finally ws a True m1) = mg_pending_bytes m - int (pe_size e)"
      "mg_heap (activate_finally ws a True m1) ! a = (mg_heap m ! a)\<lparr>cn_pending := es, cn_inflight := None,
        cn_pending_bytes := cn_pending_bytes (mg_heap m ! a) - int (pe_size e)\<rparr>"
    using activate_turn_send [OF Cons.prems(1,2,4,3)] by blast
  obtain m' where "activate_loop n ws a (activate_finally ws a True m1) = Some (map pe_payload es, True, m')"
    "mg_pending_bytes m' = mg_pending_bytes m - int (pe_size e) - queued_bytes es"
    "cn_broadcast_ready (mg_heap m' ! a)" "cn_pending (mg_heap m' ! a) = []"
    "cn_pending_bytes (mg_heap m' ! a) = cn_pending_bytes (mg_heap m ! a) - int (pe_size e) - queued_bytes es"
    using Cons.IH [of "activate_finally ws a True m1" n] Cons.prems n by (auto simp: f)
  then show ?case by (simp add: n m1)
qed

text \<open>
  Activation drains its queue and ends: as long as the sends succeed and nothing else intervenes, the
  loop sends every queued event exactly once, in the order in which the broadcasts queued them, needs
  one turn more than there are events, gives back the whole charge of the connection and leaves it
  ready to receive broadcasts directly.
\<close>

theorem activation_drains_queue:
  assumes "manager_reachable lim m" and "activate_enter ws m = Enter a" and "cn_activation (mg_heap m ! a) = Idle"
  shows "\<exists>m'. activate_loop (Suc (length (cn_pending (mg_heap m ! a)))) ws a (activate_lock a m) =
      Some (map pe_payload (cn_pending (mg_heap m ! a)), True, m') \<and>
    cn_broadcast_ready (mg_heap m' ! a) \<and> cn_pending (mg_heap m' ! a) = [] \<and> cn_pending_bytes (mg_heap m' ! a) = 0 \<and>
    mg_pending_bytes m' = mg_pending_bytes m - cn_pending_bytes (mg_heap m ! a)"
proof -
  have inv: "budget_inv lim m" "index_inv lim m" using manager_reachable_inv [OF assms(1)] by auto
  have ws: "map_of (mg_metadata m) ws = Some a" using assms(2) by (auto simp: activate_enter_def split: option.splits if_splits)
  then have a: "a < length (mg_heap m)" using inv(2) by (auto simp: index_inv_def dest: map_of_SomeD)
  note ok = connection_in_budget [OF inv(1) a]
  have idle: "cn_inflight (mg_heap m ! a) = None" using ok assms(3) by (auto simp: connection_ok_def)
  then have bytes: "cn_pending_bytes (mg_heap m ! a) = queued_bytes (cn_pending (mg_heap m ! a))"
    using ok by (simp add: connection_ok_def inflight_size_def)
  have "mg_heap (activate_lock a m) ! a = (mg_heap m ! a)\<lparr>cn_activation := Flushing\<rparr>"
    using a by (simp add: activate_lock_def heap_update_object)
  then show ?thesis
    using activate_loop_flushes [of "activate_lock a m" ws a "cn_pending (mg_heap m ! a)" "Suc (length (cn_pending (mg_heap m ! a)))"]
      ws a idle bytes by (auto simp: activate_lock_def simp del: activate_loop.simps)
qed

theorem activation_drains_queue_witness:
  "\<exists>m'. activate_loop 1 7 0 (activate_lock 0 sample_manager) = Some ([], True, m') \<and> cn_broadcast_ready (mg_heap m' ! 0)"
  using activation_drains_queue [OF sample_reachable, of 7 0]
  by (auto simp: activate_enter_def sample_manager_def sample_connection_def new_connection_def)

subsection \<open>Closing a room\<close>

text \<open>
  Closing a room detaches every one of its connections and no other: afterwards the room has no entry
  and no connection, the returned list names exactly the sockets it had, and every socket of another
  room keeps its registration.
\<close>

theorem close_room_detaches_all:
  assumes "manager_reachable lim m" and "distinct order" and "set order = room_set m r"
    and "detach_room_connections r order None None m = Inr (closed, m')"
  shows "mg_rooms m' r = None \<and> room_connections m' r = 0 \<and> fst ` set closed = room_set m r \<and>
    (\<forall>v. v \<notin> room_set m r \<longrightarrow> map_of (mg_metadata m') v = map_of (mg_metadata m) v)"
proof -
  have inv: "budget_inv lim m" "index_inv lim m" using manager_reachable_inv [OF assms(1)] by auto
  have sel: "detach_selected m order None None = order"
    by (simp add: detach_selected_def accepts_sequence_def)
  have others: "map_of (mg_metadata (fold drop_registration xs n)) v = map_of (mg_metadata n) v"
    if "v \<notin> set xs" for v xs n
    using that by (induction xs arbitrary: n) (auto simp: drop_registration_def map_of_remove)
  show ?thesis
  proof (cases "mg_rooms m r")
    case None
    then show ?thesis using assms(3,4) by (simp add: detach_room_connections_def validate_sequence_def room_set_def room_connections_def)
  next
    case (Some s)
    then have s: "s = set order" using assms(3) by (simp add: room_set_def)
    have m': "m' = set_room_entry r {} (fold drop_registration order m)"
      "closed = map (\<lambda>ws. (ws, the (map_of (mg_metadata m) ws))) order"
      using assms(4) Some by (simp_all add: detach_room_connections_def validate_sequence_def Let_def sel s)
    have "fst ` set closed = room_set m r" using assms(3) by (simp add: m'(2) image_image)
    then show ?thesis using others assms(3) by (simp add: m'(1) set_room_entry_def room_connections_def room_set_def)
  qed
qed

theorem close_room_detaches_all_witness:
  "\<exists>closed m'. detach_room_connections [114] [7] None None sample_manager = Inr (closed, m') \<and> mg_rooms m' [114] = None"
proof -
  have room: "room_set sample_manager [114] = {7}" by (simp add: room_set_def sample_manager_def)
  obtain closed m' where d: "detach_room_connections [114] [7] None None sample_manager = Inr (closed, m')"
    by (simp add: detach_room_connections_def validate_sequence_def Let_def sample_manager_def)
  from close_room_detaches_all [OF sample_reachable _ _ d] d show ?thesis by (simp add: room)
qed

end
