(* ===== verification/Rate_Limits.thy ===== *)
theory Rate_Limits
  imports Models
begin

section \<open>The in-process rate limiter (app.py, MessageRateLimiter)\<close>

text \<open>
  The sliding-window limiter of \<open>samsarix_chat_engine/app.py\<close>. Its dictionary is an association list
  in insertion order and a deque is a list with its left end first. Times and the window are integers
  in one unit (the code's \<open>time.monotonic()\<close> floats are multiples of a clock tick); the time of a call
  is an argument. The abstract specification keeps the whole history of admitted times of every key
  and counts those inside the window.
\<close>

record limiter =
  rl_limit :: nat
  rl_window :: int
  rl_max_keys :: nat

type_synonym events = "(pystr \<times> int list) list"

text \<open>Reading a \<open>defaultdict\<close>: a missing key is inserted at the end with an empty deque.\<close>

definition touch :: "pystr \<Rightarrow> events \<Rightarrow> events" where
  "touch key ev = (if key \<in> fst ` set ev then ev else ev @ [(key, [])])"

definition deque_of :: "events \<Rightarrow> pystr \<Rightarrow> int list" where
  "deque_of ev key = (case map_of ev key of None \<Rightarrow> [] | Some es \<Rightarrow> es)"

definition discard_inactive :: "limiter \<Rightarrow> int \<Rightarrow> events \<Rightarrow> events" where
  "discard_inactive rl cutoff ev =
     (let active = filter (\<lambda>(key, es). \<not> (es = [] \<or> last es \<le> cutoff)) ev in
      drop (length active - rl_max_keys rl) active)"

definition allow :: "limiter \<Rightarrow> int \<Rightarrow> pystr \<Rightarrow> events \<Rightarrow> bool \<times> events" where
  "allow rl now key ev =
     (let cutoff = now - rl_window rl;
          ev1 = touch key ev;
          es = dropWhile (\<lambda>t. t \<le> cutoff) (deque_of ev1 key);
          ev2 = dict_put key es ev1 in
      if rl_limit rl \<le> length es then (False, ev2)
      else (let ev3 = dict_put key (es @ [now]) ev2 in
        (True, if rl_max_keys rl < length ev3 then discard_inactive rl cutoff ev3 else ev3)))"

text \<open>A sequence of calls, each with its time and key: the answers and the final dictionary.\<close>

fun allow_run :: "limiter \<Rightarrow> (int \<times> pystr) list \<Rightarrow> events \<Rightarrow> bool list \<times> events" where
  "allow_run rl [] ev = ([], ev)"
| "allow_run rl ((now, key) # calls) ev =
     (case allow rl now key ev of (b, ev1) \<Rightarrow>
      (case allow_run rl calls ev1 of (bs, ev2) \<Rightarrow> (b # bs, ev2)))"

subsection \<open>The abstract specification\<close>

type_synonym history = "pystr \<Rightarrow> int list"

definition spec_allow :: "limiter \<Rightarrow> int \<Rightarrow> pystr \<Rightarrow> history \<Rightarrow> bool \<times> history" where
  "spec_allow rl now key h =
     (if length (filter (\<lambda>t. now - rl_window rl < t) (h key)) < rl_limit rl
      then (True, h(key := h key @ [now])) else (False, h))"

fun spec_run :: "limiter \<Rightarrow> (int \<times> pystr) list \<Rightarrow> history \<Rightarrow> bool list \<times> history" where
  "spec_run rl [] h = ([], h)"
| "spec_run rl ((now, key) # calls) h =
     (case spec_allow rl now key h of (b, h1) \<Rightarrow>
      (case spec_run rl calls h1 of (bs, h2) \<Rightarrow> (b # bs, h2)))"

definition admitted :: "(int \<times> pystr) list \<Rightarrow> bool list \<Rightarrow> pystr \<Rightarrow> int list" where
  "admitted calls answers key = map (fst \<circ> fst) (filter (\<lambda>(c, b). b \<and> snd c = key) (zip calls answers))"

definition within :: "int \<Rightarrow> int \<Rightarrow> int list \<Rightarrow> int list" where
  "within a b ts = filter (\<lambda>t. a < t \<and> t \<le> b) ts"

text \<open>The dictionary represents a history up to events that have left the window.\<close>

definition represents :: "limiter \<Rightarrow> int \<Rightarrow> events \<Rightarrow> history \<Rightarrow> bool" where
  "represents rl now ev h \<longleftrightarrow> distinct (map fst ev) \<and> (\<forall>key.
     (\<exists>old. h key = old @ deque_of ev key \<and> (\<forall>t\<in>set old. t \<le> now - rl_window rl)) \<and>
     sorted (h key) \<and> (\<forall>t\<in>set (h key). t \<le> now))"

definition bounded_events :: "limiter \<Rightarrow> events \<Rightarrow> bool" where
  "bounded_events rl ev \<longleftrightarrow> distinct (map fst ev) \<and> length ev \<le> rl_max_keys rl \<and>
     (\<forall>p\<in>set ev. length (snd p) \<le> rl_limit rl)"

text \<open>A history within the limit, up to a time.\<close>

definition window_ok :: "limiter \<Rightarrow> int \<Rightarrow> history \<Rightarrow> bool" where
  "window_ok rl now h \<longleftrightarrow> (\<forall>key. (\<forall>t\<in>set (h key). t \<le> now) \<and> (\<forall>a. length (within a (a + rl_window rl) (h key)) \<le> rl_limit rl))"

text \<open>The answers of the code on a run of calls with non-decreasing times and not more keys than it may keep.\<close>

definition local_admits :: "limiter \<Rightarrow> pystr \<Rightarrow> int list \<Rightarrow> bool" where
  "local_admits rl key ts \<longleftrightarrow> 0 < rl_window rl \<and> (\<exists>calls. sorted (map fst calls) \<and> card (snd ` set calls) \<le> rl_max_keys rl \<and>
     ts = admitted calls (fst (allow_run rl calls [])) key)"

lemma within_split: "a \<le> b \<Longrightarrow> b \<le> c \<Longrightarrow> length (within a c ts) = length (within a b ts) + length (within b c ts)"
  unfolding within_def by (induction ts) auto

lemma within_le: "b \<le> a + w \<Longrightarrow> length (within a (a + w) ts) \<le> length (filter (\<lambda>t. b - w < t) ts)"
  unfolding within_def by (induction ts) auto

lemma within_append [simp]: "within a b (xs @ ys) = within a b xs @ within a b ys"
  by (simp add: within_def)

text \<open>
  The contract of a request limiter: in every window of its length it admits at most a fixed number of
  calls of one key. Its client lemma is the long-run rate.
\<close>

locale windowed_limiter =
  fixes admits :: "pystr \<Rightarrow> int list \<Rightarrow> bool" and cap :: nat and window :: int
  assumes window_bound: "admits key ts \<Longrightarrow> length (within a (a + window) ts) \<le> cap"
    and window_positive: "admits key ts \<Longrightarrow> 0 < window"
begin

lemma long_run: "admits key ts \<Longrightarrow> length (within a (a + int n * window) ts) \<le> n * cap"
proof (induction n)
  case 0
  then show ?case by (simp add: within_def)
next
  case (Suc n)
  let ?b = "a + int n * window"
  have w: "int (Suc n) * window = int n * window + window" by (simp add: algebra_simps)
  have "length (within a (?b + window) ts) = length (within a ?b ts) + length (within ?b (?b + window) ts)"
    by (rule within_split) (use window_positive [OF Suc.prems] in auto)
  then show ?case unfolding w using Suc.IH [OF Suc.prems] window_bound [OF Suc.prems, of ?b] by (simp add: add.assoc)
qed

end

subsection \<open>Dictionary lemmas\<close>

lemma map_of_dict_put [simp]: "map_of (dict_put k v d) = (map_of d)(k \<mapsto> v)"
  by (induction k v d rule: dict_put.induct) (auto simp: fun_eq_iff)

lemma deque_of_dict_put [simp]: "deque_of (dict_put k es ev) key = (if key = k then es else deque_of ev key)"
  by (simp add: deque_of_def)

lemma deque_of_touch [simp]: "deque_of (touch k ev) key = deque_of ev key"
  by (auto simp: deque_of_def touch_def map_add_def domIff simp flip: dom_map_of_conv_image_fst split: option.splits)

lemma length_dict_put: "length (dict_put k v d) = (if k \<in> fst ` set d then length d else Suc (length d))"
  by (induction k v d rule: dict_put.induct) auto

lemma touch_keys: "fst ` set (touch k ev) = insert k (fst ` set ev)"
  "distinct (map fst ev) \<Longrightarrow> distinct (map fst (touch k ev))"
  by (auto simp: touch_def)

lemma in_dict_put: "p \<in> set (dict_put k v d) \<Longrightarrow> p = (k, v) \<or> p \<in> set d"
  by (induction k v d rule: dict_put.induct) (auto split: if_splits)

subsection \<open>Refinement\<close>

lemma sorted_dropWhile_filter: "sorted es \<Longrightarrow> dropWhile (\<lambda>t. t \<le> c) es = filter (\<lambda>t. c < t) (es :: int list)"
  by (induction es) (auto simp: filter_id_conv intro!: filter_True [symmetric])

lemma represents_window:
  assumes "represents rl now ev h" and "now \<le> now'"
  shows "dropWhile (\<lambda>t. t \<le> now' - rl_window rl) (deque_of ev key) = filter (\<lambda>t. now' - rl_window rl < t) (h key)"
proof -
  obtain old where old: "h key = old @ deque_of ev key" "\<forall>t\<in>set old. t \<le> now - rl_window rl" "sorted (h key)"
    using assms(1) unfolding represents_def by blast
  have "filter (\<lambda>t. now' - rl_window rl < t) old = []" using old(2) assms(2) by (force simp: filter_empty_conv)
  then show ?thesis using old(1,3) by (simp add: sorted_dropWhile_filter sorted_append)
qed

lemma allow_refines:
  assumes rep: "represents rl now ev h" and time: "now \<le> now'"
    and keys: "fst ` set ev \<subseteq> K" "finite K" "card K \<le> rl_max_keys rl" "key \<in> K"
    and run: "allow rl now' key ev = (b, ev')"
  shows "\<exists>h'. spec_allow rl now' key h = (b, h') \<and> represents rl now' ev' h' \<and> fst ` set ev' \<subseteq> K"
proof -
  let ?c = "now' - rl_window rl"
  let ?es = "dropWhile (\<lambda>t. t \<le> ?c) (deque_of ev key)"
  let ?ev2 = "dict_put key ?es (touch key ev)" and ?ev3 = "dict_put key (?es @ [now']) (dict_put key ?es (touch key ev))"
  have es: "?es = filter (\<lambda>t. ?c < t) (h key)" by (rule represents_window [OF rep time])
  have k: "fst ` set ?ev2 \<subseteq> K" "fst ` set ?ev3 \<subseteq> K" "distinct (map fst ?ev2)" "distinct (map fst ?ev3)"
    using keys(1,4) rep by (auto simp: fst_set_dict_put touch_keys represents_def intro!: distinct_dict_put)
  have old: "\<exists>old. h k = old @ deque_of ev k \<and> (\<forall>t\<in>set old. t \<le> now - rl_window rl)" "sorted (h k)" "\<forall>t\<in>set (h k). t \<le> now'" for k
    using rep time by (fastforce simp: represents_def)+
  have cut: "\<exists>old. h key = old @ ?es \<and> (\<forall>t\<in>set old. t \<le> ?c)"
  proof -
    obtain o1 where o1: "h key = o1 @ deque_of ev key" "\<forall>t\<in>set o1. t \<le> now - rl_window rl" using old(1) by blast
    have "h key = (o1 @ takeWhile (\<lambda>t. t \<le> ?c) (deque_of ev key)) @ ?es" using o1(1) by simp
    moreover have "\<forall>t\<in>set (o1 @ takeWhile (\<lambda>t. t \<le> ?c) (deque_of ev key)). t \<le> ?c"
      using o1(2) time by (auto dest: set_takeWhileD)
    ultimately show ?thesis by blast
  qed
  have others: "\<exists>old. h k = old @ deque_of ev k \<and> (\<forall>t\<in>set old. t \<le> ?c)" for k
    using old(1) [of k] time by (metis diff_right_mono order.trans)
  show ?thesis
  proof (cases "rl_limit rl \<le> length ?es")
    case True
    then have "b = False" "ev' = ?ev2" using run by (simp_all add: allow_def)
    moreover have "represents rl now' ?ev2 h" using cut others old(2,3) k(3) by (simp add: represents_def)
    ultimately show ?thesis using True k(1) by (simp add: spec_allow_def es)
  next
    case False
    have "length ?ev3 \<le> card K"
      using card_mono [OF keys(2) k(2)] k(4) by (simp add: card_image distinct_map distinct_card [symmetric] flip: length_map)
    then have "b = True" "ev' = ?ev3" using run False keys(3) by (simp_all add: allow_def Let_def)
    moreover have "represents rl now' ?ev3 (h(key := h key @ [now']))"
      using cut others old(2,3) k(4) by (auto simp: represents_def sorted_append)
    ultimately show ?thesis using False k(2) by (simp add: spec_allow_def es)
  qed
qed

lemma allow_run_refines:
  assumes "represents rl now ev h" and "sorted (now # map fst calls)"
    and "fst ` set ev \<subseteq> K" "finite K" "card K \<le> rl_max_keys rl" "snd ` set calls \<subseteq> K"
  shows "fst (allow_run rl calls ev) = fst (spec_run rl calls h)"
  using assms
proof (induction calls arbitrary: now ev h)
  case (Cons c calls)
  obtain t key where c: "c = (t, key)" by (cases c)
  obtain b ev1 where a: "allow rl t key ev = (b, ev1)" by (cases "allow rl t key ev")
  have "key \<in> K" "now \<le> t" using Cons.prems(2,6) c by auto
  then obtain h1 where "spec_allow rl t key h = (b, h1)" "represents rl t ev1 h1" "fst ` set ev1 \<subseteq> K"
    using allow_refines [OF Cons.prems(1) _ Cons.prems(3-5) _ a] by blast
  with Cons.IH [of t ev1 h1] Cons.prems(2,4-6) c a show ?case
    by (cases "allow_run rl calls ev1"; cases "spec_run rl calls h1") simp
qed simp

subsection \<open>What the specification guarantees\<close>

lemma spec_allow_window:
  assumes "window_ok rl now h" and "now \<le> now'" and "spec_allow rl now' key h = (b, h')"
  shows "window_ok rl now' h'"
proof (cases b)
  case False
  then show ?thesis using assms by (fastforce simp: spec_allow_def window_ok_def split: if_splits)
next
  case True
  then have h': "h' = h(key := h key @ [now'])" and few: "length (filter (\<lambda>t. now' - rl_window rl < t) (h key)) < rl_limit rl"
    using assms(3) by (auto simp: spec_allow_def split: if_splits)
  have bound: "length (within a (a + rl_window rl) (h k)) \<le> rl_limit rl" "\<forall>t\<in>set (h k). t \<le> now'" for a k
    using assms(1,2) by (fastforce simp: window_ok_def)+
  have "length (within a (a + rl_window rl) (h key @ [now'])) \<le> rl_limit rl" for a
  proof (cases "a < now' \<and> now' \<le> a + rl_window rl")
    case inside: True
    then have "length (within a (a + rl_window rl) (h key)) \<le> length (filter (\<lambda>t. now' - rl_window rl < t) (h key))"
      by (intro within_le) simp
    then show ?thesis using few by (simp add: within_def)
  next
    case outside: False
    then show ?thesis using bound(1) [of a key] by (auto simp: within_def)
  qed
  then show ?thesis using bound by (simp add: window_ok_def h')
qed

lemma admitted_Cons:
  "admitted ((t, k) # calls) (b # bs) key = (if b \<and> k = key then [t] else []) @ admitted calls bs key"
  by (simp add: admitted_def)

lemma spec_run_window:
  assumes "window_ok rl now h" and "sorted (now # map fst calls)" and "spec_run rl calls h = (bs, h')"
  shows "h' key = h key @ admitted calls bs key" and "\<exists>now'. window_ok rl now' h'"
proof -
  have "h' key = h key @ admitted calls bs key \<and> (\<exists>now'. window_ok rl now' h')"
    using assms
  proof (induction calls arbitrary: now h bs)
    case Nil
    then show ?case by (auto simp: admitted_def)
  next
    case (Cons c calls)
    obtain t k where c: "c = (t, k)" by (cases c)
    obtain b h1 where one: "spec_allow rl t k h = (b, h1)" by (cases "spec_allow rl t k h")
    obtain bs1 where rest: "spec_run rl calls h1 = (bs1, h')" "bs = b # bs1"
      using Cons.prems(3) c one by (cases "spec_run rl calls h1") simp
    have "window_ok rl t h1" using spec_allow_window [OF Cons.prems(1) _ one] Cons.prems(2) c by simp
    with Cons.IH [OF this _ rest(1)] Cons.prems(2) c
    have ih: "h' key = h1 key @ admitted calls bs1 key" "\<exists>now'. window_ok rl now' h'" by auto
    have "h1 key = h key @ (if b \<and> k = key then [t] else [])"
      using one by (auto simp: spec_allow_def split: if_splits)
    then show ?case using ih by (simp add: c rest(2) admitted_Cons)
  qed
  then show "h' key = h key @ admitted calls bs key" "\<exists>now'. window_ok rl now' h'" by blast+
qed

lemma represents_empty: "represents rl now [] (\<lambda>_. [])"
  by (simp add: represents_def deque_of_def)

lemma allow_run_is_spec_run:
  assumes "sorted (map fst calls)" and "card (snd ` set calls) \<le> rl_max_keys rl"
  shows "fst (allow_run rl calls []) = fst (spec_run rl calls (\<lambda>_. []))"
proof (cases calls)
  case (Cons c cs)
  show ?thesis
    by (rule allow_run_refines [OF represents_empty [of rl "fst c"], where K = "snd ` set calls"])
      (use assms Cons in auto)
qed simp

lemma local_admits_window:
  assumes "local_admits rl key ts"
  shows "length (within a (a + rl_window rl) ts) \<le> rl_limit rl"
proof -
  obtain calls where c: "sorted (map fst calls)" "card (snd ` set calls) \<le> rl_max_keys rl"
    "ts = admitted calls (fst (allow_run rl calls [])) key"
    using assms by (auto simp: local_admits_def)
  obtain bs h' where run: "spec_run rl calls (\<lambda>_. []) = (bs, h')" by (cases "spec_run rl calls (\<lambda>_. [])")
  obtain now where "sorted (now # map fst calls)" using c(1) by (cases calls) (auto intro: order_refl)
  with spec_run_window [OF _ this run] obtain now' where "h' key = admitted calls bs key" "window_ok rl now' h'"
    by (auto simp: window_ok_def within_def)
  moreover have "ts = admitted calls bs key" using c(3) allow_run_is_spec_run [OF c(1,2)] run by simp
  ultimately show ?thesis unfolding window_ok_def by metis
qed

interpretation local_limiter: windowed_limiter "local_admits rl" "rl_limit rl" "rl_window rl"
  by unfold_locales (auto simp: local_admits_window, simp add: local_admits_def)

subsection \<open>Memory\<close>

lemma discard_inactive_bounded:
  assumes "distinct (map fst ev)" and "\<forall>p\<in>set ev. length (snd p) \<le> rl_limit rl"
  shows "bounded_events rl (discard_inactive rl cutoff ev)"
proof -
  let ?a = "filter (\<lambda>(key, es). \<not> (es = [] \<or> last es \<le> cutoff)) ev"
  have "distinct (map fst ?a)" using assms(1) by (rule distinct_map_filter_key)
  then have "distinct (map fst (drop n ?a))" for n by (simp add: drop_map [symmetric] distinct_drop)
  then show ?thesis using assms(2) by (auto simp: bounded_events_def discard_inactive_def Let_def dest!: in_set_dropD)
qed

lemma allow_bounded:
  assumes "bounded_events rl ev" and "1 \<le> rl_limit rl" and "1 \<le> rl_max_keys rl" and "allow rl now key ev = (b, ev')"
  shows "bounded_events rl ev'"
proof -
  let ?c = "now - rl_window rl"
  let ?es = "dropWhile (\<lambda>t. t \<le> ?c) (deque_of ev key)"
  let ?ev2 = "dict_put key ?es (touch key ev)" and ?ev3 = "dict_put key (?es @ [now]) (dict_put key ?es (touch key ev))"
  have deque: "length (deque_of ev key) \<le> rl_limit rl"
    using assms(1) by (auto simp: bounded_events_def deque_of_def dest!: map_of_SomeD split: option.splits)
  then have es: "length ?es \<le> rl_limit rl" by (meson length_dropWhile_le order.trans)
  have lens: "\<forall>p\<in>set (touch key ev). length (snd p) \<le> rl_limit rl" using assms(1) by (auto simp: touch_def bounded_events_def)
  have d: "distinct (map fst ?ev2)" "distinct (map fst ?ev3)"
    using assms(1) by (auto simp: bounded_events_def touch_keys intro!: distinct_dict_put)
  show ?thesis
  proof (cases "rl_limit rl \<le> length ?es")
    case True
    then have "deque_of ev key \<noteq> []" using assms(2) by (cases "deque_of ev key") auto
    then have "key \<in> fst ` set ev" by (auto simp: deque_of_def dest!: map_of_SomeD intro: rev_image_eqI split: option.splits)
    then have "length ?ev2 = length ev" by (simp add: length_dict_put touch_def)
    then show ?thesis
      using True assms(1,4) d(1) lens es by (auto simp: allow_def bounded_events_def dest!: in_dict_put)
  next
    case False
    have "\<forall>p\<in>set ?ev3. length (snd p) \<le> rl_limit rl"
      using False lens es by (auto dest!: in_dict_put)
    then show ?thesis
      using False assms(4) d(2) discard_inactive_bounded [of ?ev3 rl ?c]
      by (auto simp: allow_def Let_def bounded_events_def split: if_splits)
  qed
qed

lemma allow_run_bounded:
  assumes "bounded_events rl ev" and "1 \<le> rl_limit rl" and "1 \<le> rl_max_keys rl"
  shows "bounded_events rl (snd (allow_run rl calls ev))"
  using assms(1)
proof (induction calls arbitrary: ev)
  case (Cons c calls)
  obtain t key where c: "c = (t, key)" by (cases c)
  obtain b ev1 where a: "allow rl t key ev = (b, ev1)" by (cases "allow rl t key ev")
  from Cons.IH [OF allow_bounded [OF Cons.prems assms(2,3) a]] show ?case
    by (cases "allow_run rl calls ev1") (simp add: c a)
qed simp

end
