(* ===== verification/Pg_Rate_Limits.thy ===== *)
theory Pg_Rate_Limits
  imports Rate_Limits Py_Bytes
begin

section \<open>The shared rate limiter (postgres_rate_limits.py)\<close>

text \<open>
  The fixed-window limiter of \<open>samsarix_chat_engine/postgres_rate_limits.py\<close>: the bucket table is a list
  of rows, times are microseconds of the database clock, and the clock readings of the statements of one
  call are arguments (\<open>clocks\<close>). Transactions are taken one after the other: the statements of one
  transaction see no other writes, so what another replica commits shows up between two transactions.
  SHA-256 is the argument \<open>sha\<close>. \<open>date_bin\<close> counts windows from the origin the query gives.
\<close>

datatype rate_error = RateValueError string | RateBucketCapacityError | UniqueViolation

record pg_limiter =
  pl_scope :: string
  pl_limit :: nat
  pl_window_seconds :: int
  pl_max_buckets :: nat

record bucket =
  bk_scope :: string
  bk_key_digest :: pybytes
  bk_window_started_at :: int
  bk_event_count :: nat
  bk_expires_at :: int

record rate_decision =
  rd_allowed :: bool
  rd_remaining :: int
  rd_retry_after_seconds :: int
  rd_reset_at :: int

definition RATE_LIMIT_SCOPES :: "string list" where
  "RATE_LIMIT_SCOPES = [''message'', ''search'', ''typing'']"

definition PostgresRateLimiter :: "pg_limiter \<Rightarrow> rate_error + pg_limiter" where
  "PostgresRateLimiter pl =
     (if pl_scope pl \<notin> set RATE_LIMIT_SCOPES then Inl (RateValueError ''invalid PostgreSQL rate-limit scope'')
      else if \<not> (1 \<le> pl_limit pl \<and> pl_limit pl \<le> 100000)
      then Inl (RateValueError ''PostgreSQL rate limit must be between 1 and 100000'')
      else if \<not> (1 \<le> pl_window_seconds pl \<and> pl_window_seconds pl \<le> 3600)
      then Inl (RateValueError ''PostgreSQL rate window must be between 1 and 3600 seconds'')
      else if \<not> (1 \<le> pl_max_buckets pl \<and> pl_max_buckets pl \<le> 10000000)
      then Inl (RateValueError ''PostgreSQL rate-bucket capacity must be between 1 and 10000000'')
      else Inr pl)"

definition digest_key :: "(pybytes \<Rightarrow> pybytes) \<Rightarrow> string \<Rightarrow> pystr \<Rightarrow> rate_error + pybytes" where
  "digest_key sha scope key =
     (if key = [] then Inl (RateValueError ''PostgreSQL rate-limit key is required'')
      else (case utf8_encode key of
        None \<Rightarrow> Inl (RateValueError ''surrogates not allowed'')
      | Some encoded \<Rightarrow>
          (if 1024 < length encoded then Inl (RateValueError ''PostgreSQL rate-limit key exceeds 1024 bytes'')
           else Inr (sha (str scope @ 0 # encoded)))))"

definition window_micros :: "pg_limiter \<Rightarrow> int" where
  "window_micros pl = pl_window_seconds pl * 1000000"

text \<open>\<open>date_bin\<close> with the origin 2000-01-01 00:00:00+00.\<close>

definition bin_origin :: int where
  "bin_origin = 946684800000000"

definition database_window :: "pg_limiter \<Rightarrow> int \<Rightarrow> int" where
  "database_window pl now = bin_origin + (now - bin_origin) div window_micros pl * window_micros pl"

definition ceil_seconds :: "int \<Rightarrow> int" where
  "ceil_seconds micros = - ((- micros) div 1000000)"

definition decision :: "pg_limiter \<Rightarrow> bool \<Rightarrow> nat \<Rightarrow> int \<Rightarrow> int \<Rightarrow> rate_decision" where
  "decision pl allowed n now window_started_at =
     (let reset_at = window_started_at + window_micros pl in
      \<lparr>rd_allowed = allowed, rd_remaining = max 0 (int (pl_limit pl) - int n),
       rd_retry_after_seconds = (if \<not> allowed then max 1 (ceil_seconds (reset_at - now)) else 0),
       rd_reset_at = reset_at\<rparr>)"

definition bucket_key :: "bucket \<Rightarrow> string \<times> pybytes \<times> int" where
  "bucket_key b = (bk_scope b, bk_key_digest b, bk_window_started_at b)"

definition live_bucket :: "pg_limiter \<Rightarrow> pybytes \<Rightarrow> int \<Rightarrow> int \<Rightarrow> bucket \<Rightarrow> bool" where
  "live_bucket pl digest win clock b \<longleftrightarrow> bucket_key b = (pl_scope pl, digest, win) \<and> clock < bk_expires_at b"

definition increment_existing ::
  "pg_limiter \<Rightarrow> pybytes \<Rightarrow> int \<Rightarrow> int \<Rightarrow> bucket list \<Rightarrow> (nat \<times> bucket list) option" where
  "increment_existing pl digest win clock bs =
     (let hit = (\<lambda>b. live_bucket pl digest win clock b \<and> bk_event_count b < pl_limit pl) in
      case find hit bs of None \<Rightarrow> None
      | Some b \<Rightarrow> Some (bk_event_count b + 1,
          update_where hit (\<lambda>b. b\<lparr>bk_event_count := bk_event_count b + 1\<rparr>) bs))"

definition read_existing :: "pg_limiter \<Rightarrow> pybytes \<Rightarrow> int \<Rightarrow> int \<Rightarrow> bucket list \<Rightarrow> (nat \<times> int) option" where
  "read_existing pl digest win clock bs =
     map_option (\<lambda>b. (bk_event_count b, clock)) (find (live_bucket pl digest win clock) bs)"

text \<open>
  The retry loop of \<open>_consume_existing\<close>: one pair of clock readings (of the update and of the read) for
  each turn; \<open>Looping\<close> when the turns given are not enough.
\<close>

datatype existing = Consumed rate_decision "bucket list" | Missing | Looping

fun consume_existing ::
  "pg_limiter \<Rightarrow> pybytes \<Rightarrow> int \<Rightarrow> int \<Rightarrow> (int \<times> int) list \<Rightarrow> bucket list \<Rightarrow> existing" where
  "consume_existing pl digest now win [] bs = Looping"
| "consume_existing pl digest now win ((u, r) # turns) bs =
     (case increment_existing pl digest win u bs of
       Some (n, bs') \<Rightarrow> Consumed (decision pl True n now win) bs'
     | None \<Rightarrow> (case read_existing pl digest win r bs of
         None \<Rightarrow> Missing
       | Some (n, observed_at) \<Rightarrow>
           (if pl_limit pl \<le> n then Consumed (decision pl False n observed_at win) bs
            else consume_existing pl digest now win turns bs)))"

record clocks =
  ck_statement1 :: int
  ck_turns1 :: "(int \<times> int) list"
  ck_delete :: int
  ck_statement2 :: int
  ck_turns2 :: "(int \<times> int) list"

datatype 'a outcome = Returned 'a | Raised rate_error | Unfinished

text \<open>The first transaction of \<open>consume\<close>, on an existing bucket.\<close>

definition consume_first :: "pg_limiter \<Rightarrow> pybytes \<Rightarrow> clocks \<Rightarrow> bucket list \<Rightarrow> existing" where
  "consume_first pl digest ck bs =
     consume_existing pl digest (ck_statement1 ck) (database_window pl (ck_statement1 ck)) (ck_turns1 ck) bs"

text \<open>The second one, under the capacity lock; a duplicate primary key raises and rolls back.\<close>

definition consume_second :: "pg_limiter \<Rightarrow> pybytes \<Rightarrow> clocks \<Rightarrow> bucket list \<Rightarrow> (rate_decision \<times> bucket list) outcome" where
  "consume_second pl digest ck bs0 =
     (let bs = filter (\<lambda>b. ck_delete ck < bk_expires_at b) bs0;
          now = ck_statement2 ck; win = database_window pl now in
      case consume_existing pl digest now win (ck_turns2 ck) bs of
        Consumed d bs' \<Rightarrow> Returned (d, bs')
      | Looping \<Rightarrow> Unfinished
      | Missing \<Rightarrow>
          (if pl_max_buckets pl \<le> length bs then Raised RateBucketCapacityError
           else if (pl_scope pl, digest, win) \<in> bucket_key ` set bs then Raised UniqueViolation
           else Returned (decision pl True 1 now win,
             bs @ [\<lparr>bk_scope = pl_scope pl, bk_key_digest = digest, bk_window_started_at = win,
               bk_event_count = 1, bk_expires_at = win + window_micros pl\<rparr>])))"

definition consume ::
  "(pybytes \<Rightarrow> pybytes) \<Rightarrow> pg_limiter \<Rightarrow> pystr \<Rightarrow> clocks \<Rightarrow> bucket list \<Rightarrow> (rate_decision \<times> bucket list) outcome" where
  "consume sha pl key ck bs = (case digest_key sha (pl_scope pl) key of
     Inl e \<Rightarrow> Raised e
   | Inr digest \<Rightarrow> (case consume_first pl digest ck bs of
       Consumed d bs' \<Rightarrow> Returned (d, bs')
     | Looping \<Rightarrow> Unfinished
     | Missing \<Rightarrow> consume_second pl digest ck bs))"

definition active_bucket_count :: "int \<Rightarrow> bucket list \<Rightarrow> nat" where
  "active_bucket_count clock bs = length (filter (\<lambda>b. clock < bk_expires_at b) bs)"

definition prune_expired :: "int \<Rightarrow> bucket list \<Rightarrow> nat \<times> bucket list" where
  "prune_expired clock bs = (length (filter (\<lambda>b. bk_expires_at b \<le> clock) bs), filter (\<lambda>b. \<not> bk_expires_at b \<le> clock) bs)"

subsection \<open>Runs\<close>

text \<open>
  The readings of the clock in the order of the statements; the database clock does not go back. A log
  entry is the scope, the key and the statement time of an admitted call. \<open>cfg\<close> gives the limiter of
  each scope.
\<close>

definition clock_list :: "clocks \<Rightarrow> int list" where
  "clock_list ck = ck_statement1 ck # concat (map (\<lambda>(u, r). [u, r]) (ck_turns1 ck)) @
     [ck_delete ck, ck_statement2 ck] @ concat (map (\<lambda>(u, r). [u, r]) (ck_turns2 ck))"

definition decided_at :: "pg_limiter \<Rightarrow> pybytes \<Rightarrow> clocks \<Rightarrow> bucket list \<Rightarrow> int" where
  "decided_at pl digest ck bs = (case consume_first pl digest ck bs of
     Missing \<Rightarrow> ck_statement2 ck | _ \<Rightarrow> ck_statement1 ck)"

type_synonym rate_log = "(string \<times> pystr \<times> int) list"

inductive pg_reachable ::
  "(pybytes \<Rightarrow> pybytes) \<Rightarrow> (string \<Rightarrow> pg_limiter) \<Rightarrow> int \<Rightarrow> bucket list \<Rightarrow> rate_log \<Rightarrow> bool" for sha cfg where
  pg_start: "pg_reachable sha cfg t [] []"
| pg_consume: "pg_reachable sha cfg t bs log \<Longrightarrow> sorted (t # clock_list ck) \<Longrightarrow>
     consume sha (cfg s) key ck bs = Returned (d, bs') \<Longrightarrow> digest_key sha (pl_scope (cfg s)) key = Inr digest \<Longrightarrow>
     pg_reachable sha cfg (last (clock_list ck)) bs'
       (if rd_allowed d then log @ [(s, key, decided_at (cfg s) digest ck bs)] else log)"
| pg_refused: "pg_reachable sha cfg t bs log \<Longrightarrow> t \<le> t' \<Longrightarrow> pg_reachable sha cfg t' bs log"
| pg_prune: "pg_reachable sha cfg t bs log \<Longrightarrow> t \<le> t' \<Longrightarrow> pg_reachable sha cfg t' (snd (prune_expired t' bs)) log"

definition window_log ::
  "(pybytes \<Rightarrow> pybytes) \<Rightarrow> (string \<Rightarrow> pg_limiter) \<Rightarrow> rate_log \<Rightarrow> string \<times> pybytes \<times> int \<Rightarrow> nat" where
  "window_log sha cfg log k = length (filter (\<lambda>(s, key, t). \<exists>digest.
     digest_key sha s key = Inr digest \<and> k = (s, digest, database_window (cfg s) t)) log)"

definition buckets_ok :: "(string \<Rightarrow> pg_limiter) \<Rightarrow> bucket list \<Rightarrow> bool" where
  "buckets_ok cfg bs \<longleftrightarrow> distinct (map bucket_key bs) \<and>
     (\<forall>b\<in>set bs. bk_expires_at b = bk_window_started_at b + window_micros (cfg (bk_scope b)) \<and>
        bk_event_count b \<le> pl_limit (cfg (bk_scope b)))"

text \<open>A bucket counts the admitted calls of its window; a window without a bucket has none or is over.\<close>

definition log_inv ::
  "(pybytes \<Rightarrow> pybytes) \<Rightarrow> (string \<Rightarrow> pg_limiter) \<Rightarrow> int \<Rightarrow> bucket list \<Rightarrow> rate_log \<Rightarrow> bool" where
  "log_inv sha cfg t bs log \<longleftrightarrow> (\<forall>b\<in>set bs. window_log sha cfg log (bucket_key b) = bk_event_count b) \<and>
     (\<forall>s digest win. (s, digest, win) \<notin> bucket_key ` set bs \<longrightarrow>
        window_log sha cfg log (s, digest, win) \<le> pl_limit (cfg s) \<and>
        (window_log sha cfg log (s, digest, win) = 0 \<or> win + window_micros (cfg s) \<le> t))"

definition limiters_ok :: "(string \<Rightarrow> pg_limiter) \<Rightarrow> bool" where
  "limiters_ok cfg \<longleftrightarrow> (\<forall>s. pl_scope (cfg s) = s \<and> 1 \<le> pl_limit (cfg s) \<and> 0 < pl_window_seconds (cfg s))"

definition pg_admits :: "(pybytes \<Rightarrow> pybytes) \<Rightarrow> (string \<Rightarrow> pg_limiter) \<Rightarrow> string \<Rightarrow> pystr \<Rightarrow> int list \<Rightarrow> bool" where
  "pg_admits sha cfg s key ts \<longleftrightarrow> limiters_ok cfg \<and> (\<exists>t bs log. pg_reachable sha cfg t bs log \<and>
     ts = map (snd \<circ> snd) (filter (\<lambda>(s', k, t). s' = s \<and> k = key) log))"

subsection \<open>Windows\<close>

lemma window_micros_pos: "limiters_ok cfg \<Longrightarrow> 0 < window_micros (cfg s)"
  by (simp add: limiters_ok_def window_micros_def)

lemma database_window_bounds:
  assumes "0 < window_micros pl"
  shows "database_window pl now \<le> now" and "now < database_window pl now + window_micros pl"
proof -
  let ?x = "now - bin_origin" and ?w = "window_micros pl"
  have "?x = ?x div ?w * ?w + ?x mod ?w" by simp
  moreover have "0 \<le> ?x mod ?w" "?x mod ?w < ?w" using assms by simp_all
  ultimately show "database_window pl now \<le> now" "now < database_window pl now + ?w"
    unfolding database_window_def by linarith+
qed

lemma two_windows:
  assumes "0 < window_micros pl" and "a < t" and "t \<le> a + window_micros pl"
  shows "database_window pl t = database_window pl a \<or> database_window pl t = database_window pl a + window_micros pl"
proof -
  let ?w = "window_micros pl" and ?q = "\<lambda>x. (x - bin_origin) div window_micros pl"
  have "?q a \<le> ?q t" "?q t \<le> ?q (a + ?w)" using assms by (simp_all add: zdiv_mono1)
  moreover have "?q (a + ?w) = ?q a + 1"
    using div_add_self2 [of ?w "a - bin_origin"] assms(1) by (simp add: algebra_simps)
  ultimately have "?q t = ?q a \<or> ?q t = ?q a + 1" by linarith
  then show ?thesis by (auto simp: database_window_def algebra_simps)
qed

subsection \<open>One call\<close>

lemma window_log_append:
  "window_log sha cfg (log @ [(s, key, t)]) k =
     window_log sha cfg log k + (if \<exists>digest. digest_key sha s key = Inr digest \<and> k = (s, digest, database_window (cfg s) t) then 1 else 0)"
  by (auto simp: window_log_def)

lemma increment_existing_Some:
  assumes "increment_existing pl digest win u bs = Some (n, bs')"
  shows "\<exists>b\<in>set bs. bucket_key b = (pl_scope pl, digest, win) \<and> bk_event_count b < pl_limit pl \<and> u < bk_expires_at b"
    and "bs' = update_where (\<lambda>b. live_bucket pl digest win u b \<and> bk_event_count b < pl_limit pl)
      (\<lambda>b. b\<lparr>bk_event_count := bk_event_count b + 1\<rparr>) bs"
  using assms by (auto simp: increment_existing_def live_bucket_def Let_def dest!: find_SomeD split: option.splits)

lemma consume_existing_Consumed:
  assumes "consume_existing pl digest now win turns bs = Consumed d bs'"
  shows "(\<exists>u n. rd_allowed d \<and> increment_existing pl digest win u bs = Some (n, bs')) \<or> (\<not> rd_allowed d \<and> bs' = bs)"
  using assms
proof (induction turns)
  case (Cons c turns)
  obtain u r where c: "c = (u, r)" by (cases c)
  show ?case
  proof (cases "increment_existing pl digest win u bs")
    case None
    then show ?thesis using Cons c
      by (cases "read_existing pl digest win r bs") (auto simp: decision_def Let_def split: if_splits)
  next
    case (Some p)
    then show ?thesis using Cons.prems c by (cases p) (auto simp: decision_def Let_def)
  qed
qed simp

lemma bucket_key_count [simp]: "bucket_key (b\<lparr>bk_event_count := n\<rparr>) = bucket_key b"
  by (simp add: bucket_key_def)

lemma bump_inv:
  assumes ok: "buckets_ok cfg bs" and inv: "log_inv sha cfg t bs log" and b: "b \<in> set bs"
    and key: "bucket_key b = (s, digest, database_window (cfg s) now)" and room: "bk_event_count b < pl_limit (cfg s)"
    and live: "u < bk_expires_at b" and dg: "digest_key sha s key = Inr digest" and scope: "pl_scope (cfg s) = s"
    and bs': "bs' = update_where (\<lambda>b. live_bucket (cfg s) digest (database_window (cfg s) now) u b \<and>
      bk_event_count b < pl_limit (cfg s)) (\<lambda>b. b\<lparr>bk_event_count := bk_event_count b + 1\<rparr>) bs"
  shows "buckets_ok cfg bs' \<and> log_inv sha cfg t bs' (log @ [(s, key, now)])"
proof -
  let ?inc = "\<lambda>b. b\<lparr>bk_event_count := bk_event_count b + 1\<rparr>"
  have uniq: "x = b" if "x \<in> set bs" "bucket_key x = bucket_key b" for x
    using ok that b by (auto simp: buckets_ok_def dest: distinct_key_inj)
  have hit: "(live_bucket (cfg s) digest (database_window (cfg s) now) u x \<and> bk_event_count x < pl_limit (cfg s)) \<longleftrightarrow> x = b"
    if "x \<in> set bs" for x
    using uniq [OF that] key live room scope by (auto simp: live_bucket_def)
  have set': "set bs' = (\<lambda>x. if x = b then ?inc x else x) ` set bs"
    unfolding bs' set_update_where using hit by (intro image_cong) auto
  have map': "map bucket_key bs' = map bucket_key bs"
    unfolding bs' by (rule map_update_where) simp
  have bk: "bucket_key ` set bs' = bucket_key ` set bs" using arg_cong [OF map', of set] by simp
  have bscope: "bk_scope b = s" using key by (simp add: bucket_key_def)
  have "buckets_ok cfg bs'" using ok room bscope unfolding buckets_ok_def map' by (auto simp: set')
  moreover have "window_log sha cfg (log @ [(s, key, now)]) (bucket_key x) = bk_event_count x" if x: "x \<in> set bs'" for x
  proof -
    obtain y where y: "y \<in> set bs" "x = (if y = b then ?inc y else y)" using x by (auto simp: set')
    have "window_log sha cfg log (bucket_key y) = bk_event_count y" using inv y(1) by (simp add: log_inv_def)
    moreover have "bucket_key y = bucket_key b \<longleftrightarrow> y = b" using uniq y(1) by auto
    ultimately show ?thesis using y(2) dg key by (auto simp: window_log_append)
  qed
  moreover have "(s', d', w') \<noteq> (s, digest, database_window (cfg s) now)" if "(s', d', w') \<notin> bucket_key ` set bs" for s' d' w'
    using that b key by (metis image_eqI)
  then have "window_log sha cfg (log @ [(s, key, now)]) (s', d', w') = window_log sha cfg log (s', d', w')"
    if "(s', d', w') \<notin> bucket_key ` set bs" for s' d' w'
    using that dg by (auto simp: window_log_append)
  ultimately show ?thesis using inv by (auto simp: log_inv_def bk)
qed

lemma delete_inv:
  assumes "buckets_ok cfg bs" and "log_inv sha cfg t bs log" and "t \<le> t'"
  shows "buckets_ok cfg (filter (\<lambda>b. t' < bk_expires_at b) bs) \<and> log_inv sha cfg t' (filter (\<lambda>b. t' < bk_expires_at b) bs) log"
proof -
  let ?bs = "filter (\<lambda>b. t' < bk_expires_at b) bs"
  have "window_log sha cfg log (s, d, w) \<le> pl_limit (cfg s) \<and>
      (window_log sha cfg log (s, d, w) = 0 \<or> w + window_micros (cfg s) \<le> t')"
    if gone: "(s, d, w) \<notin> bucket_key ` set ?bs" for s d w
  proof (cases "(s, d, w) \<in> bucket_key ` set bs")
    case True
    then obtain b where b: "b \<in> set bs" "bucket_key b = (s, d, w)" by auto
    then have "\<not> t' < bk_expires_at b" using gone by force
    then show ?thesis using b assms(1,2) by (fastforce simp: buckets_ok_def log_inv_def bucket_key_def)
  next
    case False
    then show ?thesis using assms(2,3) by (fastforce simp: log_inv_def)
  qed
  then show ?thesis using assms(1,2) by (auto simp: buckets_ok_def log_inv_def distinct_map_filter_key)
qed

lemma log_inv_mono: "log_inv sha cfg t bs log \<Longrightarrow> t \<le> t' \<Longrightarrow> log_inv sha cfg t' bs log"
  by (fastforce simp: log_inv_def)

lemma consume_existing_inv:
  assumes "limiters_ok cfg" and "buckets_ok cfg bs" and "log_inv sha cfg t bs log"
    and "consume_existing (cfg s) digest now (database_window (cfg s) now) turns bs = Consumed d bs'"
    and "digest_key sha s key = Inr digest"
  shows "buckets_ok cfg bs' \<and> log_inv sha cfg t bs' (if rd_allowed d then log @ [(s, key, now)] else log)"
  using consume_existing_Consumed [OF assms(4)]
proof (elim disjE exE conjE)
  fix u n
  have scope: "pl_scope (cfg s) = s" using assms(1) by (simp add: limiters_ok_def)
  assume a: "rd_allowed d" "increment_existing (cfg s) digest (database_window (cfg s) now) u bs = Some (n, bs')"
  obtain b where b: "b \<in> set bs" "bucket_key b = (s, digest, database_window (cfg s) now)"
      "bk_event_count b < pl_limit (cfg s)" "u < bk_expires_at b"
    using increment_existing_Some(1) [OF a(2)] scope by auto
  show ?thesis using bump_inv [OF assms(2,3) b assms(5) scope increment_existing_Some(2) [OF a(2)]] a(1) by simp
qed (use assms(2,3) in simp)

lemma insert_inv:
  assumes ok: "buckets_ok cfg bs" and inv: "log_inv sha cfg t bs log" and lim: "limiters_ok cfg"
    and new: "(s, digest, database_window (cfg s) now) \<notin> bucket_key ` set bs" and time: "t \<le> now"
    and dg: "digest_key sha s key = Inr digest"
  shows "buckets_ok cfg (bs @ [\<lparr>bk_scope = s, bk_key_digest = digest, bk_window_started_at = database_window (cfg s) now,
      bk_event_count = 1, bk_expires_at = database_window (cfg s) now + window_micros (cfg s)\<rparr>]) \<and>
    log_inv sha cfg t (bs @ [\<lparr>bk_scope = s, bk_key_digest = digest, bk_window_started_at = database_window (cfg s) now,
      bk_event_count = 1, bk_expires_at = database_window (cfg s) now + window_micros (cfg s)\<rparr>]) (log @ [(s, key, now)])"
proof -
  let ?k = "(s, digest, database_window (cfg s) now)"
  have "now < database_window (cfg s) now + window_micros (cfg s)"
    using database_window_bounds(2) [OF window_micros_pos [OF lim]] by blast
  then have none: "window_log sha cfg log ?k = 0" using inv new time unfolding log_inv_def by fastforce
  have k: "bucket_key \<lparr>bk_scope = s, bk_key_digest = digest, bk_window_started_at = database_window (cfg s) now,
      bk_event_count = 1, bk_expires_at = database_window (cfg s) now + window_micros (cfg s)\<rparr> = ?k"
    by (simp add: bucket_key_def)
  have log: "window_log sha cfg (log @ [(s, key, now)]) x = (if x = ?k then 1 else window_log sha cfg log x)" for x
    using dg none by (auto simp: window_log_append)
  have "buckets_ok cfg (bs @ [\<lparr>bk_scope = s, bk_key_digest = digest, bk_window_started_at = database_window (cfg s) now,
      bk_event_count = 1, bk_expires_at = database_window (cfg s) now + window_micros (cfg s)\<rparr>])"
    using ok new lim k by (auto simp: buckets_ok_def limiters_ok_def)
  moreover have "bucket_key b \<noteq> ?k" if "b \<in> set bs" for b using new that by (metis image_eqI)
  ultimately show ?thesis using inv k new by (auto simp: log_inv_def log)
qed

lemma clock_list_bounds:
  assumes "sorted (t # clock_list ck)"
  shows "t \<le> ck_delete ck" "ck_delete ck \<le> ck_statement2 ck" "t \<le> last (clock_list ck)" "ck_delete ck \<le> last (clock_list ck)"
proof -
  show "t \<le> ck_delete ck" "ck_delete ck \<le> ck_statement2 ck" using assms by (auto simp: clock_list_def sorted_append)
  have le: "x \<le> last xs" if "sorted xs" "x \<in> set xs" for x :: int and xs
    using that by (cases xs rule: rev_cases) (auto simp: sorted_append)
  have "clock_list ck \<noteq> []" "ck_delete ck \<in> set (clock_list ck)" by (simp_all add: clock_list_def)
  then show "t \<le> last (clock_list ck)" "ck_delete ck \<le> last (clock_list ck)"
    using le [OF assms, of t] le [OF assms, of "ck_delete ck"] by simp_all
qed

lemma consume_inv:
  assumes lim: "limiters_ok cfg" and ok: "buckets_ok cfg bs" and inv: "log_inv sha cfg t bs log"
    and ck: "sorted (t # clock_list ck)" and run: "consume sha (cfg s) key ck bs = Returned (d, bs')"
    and dg: "digest_key sha (pl_scope (cfg s)) key = Inr digest"
  shows "buckets_ok cfg bs' \<and> log_inv sha cfg (last (clock_list ck)) bs'
    (if rd_allowed d then log @ [(s, key, decided_at (cfg s) digest ck bs)] else log)"
proof (cases "consume_first (cfg s) digest ck bs")
  case (Consumed d1 bs1)
  then have "d1 = d" "bs1 = bs'" using run dg by (simp_all add: consume_def)
  moreover have "digest_key sha s key = Inr digest" using dg lim by (simp add: limiters_ok_def)
  ultimately show ?thesis
    using consume_existing_inv [OF lim ok inv Consumed [unfolded consume_first_def], of key]
      log_inv_mono [OF _ clock_list_bounds(3) [OF ck]] Consumed by (auto simp: decided_at_def split: if_splits)
next
  case Looping
  then show ?thesis using run dg by (simp add: consume_def)
next
  case Missing
  let ?bs = "filter (\<lambda>b. ck_delete ck < bk_expires_at b) bs" and ?now = "ck_statement2 ck"
  have scope: "pl_scope (cfg s) = s" using lim by (simp add: limiters_ok_def)
  have dg': "digest_key sha s key = Inr digest" using dg scope by simp
  note del = delete_inv [OF ok inv clock_list_bounds(1) [OF ck]]
  have second: "consume_second (cfg s) digest ck bs = Returned (d, bs')" using run dg Missing by (simp add: consume_def)
  have "buckets_ok cfg bs' \<and> log_inv sha cfg (ck_delete ck) bs' (if rd_allowed d then log @ [(s, key, ?now)] else log)"
  proof (cases "consume_existing (cfg s) digest ?now (database_window (cfg s) ?now) (ck_turns2 ck) ?bs")
    case (Consumed d1 bs1)
    then have "d1 = d" "bs1 = bs'" using second by (simp_all add: consume_second_def)
    then show ?thesis using consume_existing_inv [OF lim _ _ Consumed dg'] del by blast
  next
    case m: Missing
    then have new: "(s, digest, database_window (cfg s) ?now) \<notin> bucket_key ` set ?bs" "rd_allowed d"
      "bs' = ?bs @ [\<lparr>bk_scope = s, bk_key_digest = digest, bk_window_started_at = database_window (cfg s) ?now,
        bk_event_count = 1, bk_expires_at = database_window (cfg s) ?now + window_micros (cfg s)\<rparr>]"
      using second scope by (auto simp: consume_second_def Let_def decision_def split: if_splits)
    show ?thesis
      using insert_inv [OF del [THEN conjunct1] del [THEN conjunct2] lim new(1) clock_list_bounds(2) [OF ck] dg'] new(2,3) by simp
  qed (use second in \<open>simp add: consume_second_def\<close>)
  then show ?thesis
    using log_inv_mono [OF _ clock_list_bounds(4) [OF ck]] Missing by (auto simp: decided_at_def split: if_splits)
qed

lemma pg_reachable_inv:
  assumes "limiters_ok cfg" and "pg_reachable sha cfg t bs log"
  shows "buckets_ok cfg bs \<and> log_inv sha cfg t bs log"
  using assms(2)
proof (induction rule: pg_reachable.induct)
  case (pg_start t)
  then show ?case by (simp add: buckets_ok_def log_inv_def window_log_def)
next
  case (pg_consume t bs log ck s key d bs' digest)
  then show ?case using consume_inv [OF assms(1)] by blast
next
  case (pg_refused t bs log t')
  then show ?case using log_inv_mono by blast
next
  case (pg_prune t bs log t')
  then show ?case using delete_inv [of cfg bs sha t log t'] by (simp add: prune_expired_def not_le)
qed

lemma window_log_bound:
  assumes "limiters_ok cfg" and "pg_reachable sha cfg t bs log"
  shows "window_log sha cfg log (s, digest, win) \<le> pl_limit (cfg s)"
proof (cases "(s, digest, win) \<in> bucket_key ` set bs")
  case True
  then obtain b where b: "b \<in> set bs" "bucket_key b = (s, digest, win)" by auto
  then have "bk_scope b = s" by (simp add: bucket_key_def)
  then show ?thesis using pg_reachable_inv [OF assms] b by (fastforce simp: buckets_ok_def log_inv_def)
next
  case False
  then show ?thesis using pg_reachable_inv [OF assms] by (simp add: log_inv_def)
qed

lemma filter_two: "(\<And>x. x \<in> set xs \<Longrightarrow> P x \<Longrightarrow> Q x \<or> R x) \<Longrightarrow> length (filter P xs) \<le> length (filter Q xs) + length (filter R xs)"
  by (induction xs) auto

lemma logged_keys_valid:
  "pg_reachable sha cfg t bs log \<Longrightarrow> limiters_ok cfg \<Longrightarrow> (s, key, u) \<in> set log \<Longrightarrow> \<exists>digest. digest_key sha s key = Inr digest"
  by (induction rule: pg_reachable.induct) (auto simp: limiters_ok_def split: if_splits)

lemma pg_admits_window:
  assumes "pg_admits sha cfg s key ts"
  shows "length (within a (a + window_micros (cfg s)) ts) \<le> 2 * pl_limit (cfg s)"
proof -
  obtain t bs log where r: "limiters_ok cfg" "pg_reachable sha cfg t bs log"
    "ts = map (snd \<circ> snd) (filter (\<lambda>(s', k, t). s' = s \<and> k = key) log)"
    using assms by (auto simp: pg_admits_def)
  let ?w = "database_window (cfg s) a" and ?m = "window_micros (cfg s)"
  let ?in = "\<lambda>e. fst e = s \<and> fst (snd e) = key \<and> a < snd (snd e) \<and> snd (snd e) \<le> a + ?m"
  have len: "length (within a (a + ?m) ts) = length (filter ?in log)"
    by (simp add: r(3) within_def filter_map filter_filter comp_def case_prod_beta conj_commute conj_left_commute conj_assoc)
  show ?thesis
  proof (cases "filter ?in log")
    case Nil
    then show ?thesis using len by simp
  next
    case (Cons e es)
    have "e \<in> set (filter ?in log)" unfolding Cons by simp
    then have "e \<in> set log" "e = (s, key, snd (snd e))" by (simp_all add: prod_eq_iff)
    then have "(s, key, snd (snd e)) \<in> set log" by simp
    then obtain digest where dg: "digest_key sha s key = Inr digest" using logged_keys_valid [OF r(2,1)] by blast
    let ?q = "\<lambda>k e. case e of (s, key, t) \<Rightarrow> \<exists>digest. digest_key sha s key = Inr digest \<and> k = (s, digest, database_window (cfg s) t)"
    have "length (filter ?in log) \<le> length (filter (?q (s, digest, ?w)) log) + length (filter (?q (s, digest, ?w + ?m)) log)"
    proof (rule filter_two)
      fix x assume "x \<in> set log" "?in x"
      then show "?q (s, digest, ?w) x \<or> ?q (s, digest, ?w + ?m) x"
        using dg two_windows [OF window_micros_pos [OF r(1)], of a "snd (snd x)" s] by (cases x) auto
    qed
    then show ?thesis
      using len window_log_bound [OF r(1,2), of s digest ?w] window_log_bound [OF r(1,2), of s digest "?w + ?m"]
      by (simp add: window_log_def)
  qed
qed

interpretation pg_limiter: windowed_limiter "pg_admits sha cfg s" "2 * pl_limit (cfg s)" "window_micros (cfg s)"
  by unfold_locales (auto simp: pg_admits_window, auto simp: pg_admits_def window_micros_pos)

end
