(* ===== verification/Rate_Properties.thy ===== *)
theory Rate_Properties
  imports Pg_Rate_Limits
begin

section \<open>Properties of the rate limiters\<close>

text \<open>
  The claims about \<open>MessageRateLimiter\<close> of \<open>app.py\<close> and about \<open>postgres_rate_limits.py\<close>, with their
  witnesses on concrete runs.
\<close>

definition two_per_minute :: limiter where
  "two_per_minute = \<lparr>rl_limit = 2, rl_window = 60, rl_max_keys = 2\<rparr>"

definition message_limiter :: "string \<Rightarrow> pg_limiter" where
  "message_limiter s = \<lparr>pl_scope = s, pl_limit = 1, pl_window_seconds = 60, pl_max_buckets = 10\<rparr>"

definition clocks_at :: "int \<Rightarrow> clocks" where
  "clocks_at t = \<lparr>ck_statement1 = t, ck_turns1 = [(t, t)], ck_delete = t, ck_statement2 = t, ck_turns2 = [(t, t)]\<rparr>"

definition first_bucket :: bucket where
  "first_bucket = \<lparr>bk_scope = ''message'', bk_key_digest = str ''message'' @ [0, 97], bk_window_started_at = bin_origin,
     bk_event_count = 1, bk_expires_at = bin_origin + 60000000\<rparr>"

text \<open>The clocks of a call whose second transaction reads the time just before a window ends and scans just after it.\<close>

definition boundary_clocks :: clocks where
  "boundary_clocks = (clocks_at (bin_origin + 59999999))
     \<lparr>ck_turns1 := [(bin_origin + 59999999, bin_origin + 59999999)], ck_statement1 := bin_origin - 1,
      ck_turns2 := [(bin_origin + 60000000, bin_origin + 60000000)]\<rparr>"

lemma consume_existing_one_turn:
  assumes "u \<le> r" and "consume_existing pl digest now win ((u, r) # turns) bs = res"
  shows "res \<noteq> Looping"
    and "res = Missing \<Longrightarrow> b \<in> set bs \<Longrightarrow> bucket_key b = (pl_scope pl, digest, win) \<Longrightarrow> bk_expires_at b \<le> r"
proof -
  have live: "live_bucket pl digest win u b" if "live_bucket pl digest win r b" for b
    using that assms(1) by (simp add: live_bucket_def)
  show "res \<noteq> Looping"
    using assms(2) live
    by (auto simp: increment_existing_def read_existing_def Let_def find_None_iff not_less dest!: find_SomeD
      split: option.splits if_splits)
  show "res = Missing \<Longrightarrow> b \<in> set bs \<Longrightarrow> bucket_key b = (pl_scope pl, digest, win) \<Longrightarrow> bk_expires_at b \<le> r"
    using assms
    by (fastforce simp: increment_existing_def read_existing_def Let_def find_None_iff live_bucket_def not_less dest!: find_SomeD
      split: option.splits if_splits)
qed

lemma consume_turns_ends:
  assumes "ck_turns1 ck = (u1, r1) # rest1" "u1 \<le> r1" and "ck_turns2 ck = (u2, r2) # rest2" "u2 \<le> r2"
  shows "consume sha pl key ck bs \<noteq> Unfinished"
  using consume_existing_one_turn(1) [OF assms(2) refl] consume_existing_one_turn(1) [OF assms(4) refl] assms(1,3)
  by (auto simp: consume_def consume_first_def consume_second_def Let_def split: sum.splits existing.splits)

lemma unique_violation_at_boundary:
  assumes "ck_turns2 ck = (u2, r2) # rest2" "u2 \<le> r2" and ok: "buckets_ok cfg bs" and pl: "pl_scope pl = s" "cfg s = pl"
    and res: "consume sha pl key ck bs = Raised UniqueViolation"
  shows "database_window pl (ck_statement2 ck) + window_micros pl \<le> r2"
proof -
  let ?bs = "filter (\<lambda>b. ck_delete ck < bk_expires_at b) bs" and ?win = "database_window pl (ck_statement2 ck)"
  obtain digest where dg: "digest_key sha (pl_scope pl) key = Inr digest"
    and second: "consume_second pl digest ck bs = Raised UniqueViolation"
    using res by (auto simp: consume_def digest_key_def split: sum.splits existing.splits if_splits option.splits)
  then have miss: "consume_existing pl digest (ck_statement2 ck) ?win (ck_turns2 ck) ?bs = Missing"
    and "(pl_scope pl, digest, ?win) \<in> bucket_key ` set ?bs"
    by (auto simp: consume_second_def Let_def split: existing.splits if_splits)
  then obtain b where b: "b \<in> set ?bs" "bucket_key b = (pl_scope pl, digest, ?win)" by auto
  have "bk_expires_at b \<le> r2" using consume_existing_one_turn(2) [OF assms(2) refl _ b] miss assms(1) by simp
  moreover have "bk_expires_at b = ?win + window_micros pl"
    using ok b pl by (auto simp: buckets_ok_def bucket_key_def)
  ultimately show ?thesis by simp
qed

subsection \<open>The in-process limiter\<close>



text \<open>
  under the same conditions the limiter admits at most \<open>limit\<close> calls of one key in any window of its
  length and so at most \<open>n * limit\<close> in \<open>n\<close> consecutive windows, wherever they start.
\<close>

theorem allow_rate_bound:
  assumes "sorted (map fst calls)" and "card (snd ` set calls) \<le> rl_max_keys rl" and "0 < rl_window rl"
  shows "length (within a (a + int n * rl_window rl) (admitted calls (fst (allow_run rl calls [])) key)) \<le> n * rl_limit rl"
  by (rule local_limiter.long_run) (use assms in \<open>auto simp: local_admits_def\<close>)

theorem allow_rate_bound_witness:
  "length (within (-1) (-1 + int 1 * 60) (admitted [(0, [97]), (2, [97]), (3, [97])]
     (fst (allow_run two_per_minute [(0, [97]), (2, [97]), (3, [97])] [])) [97])) \<le> 2"
  using allow_rate_bound [of "[(0, [97]), (2, [97]), (3, [97])]" two_per_minute "-1" 1 "[97]"]
  by (simp add: two_per_minute_def)

text \<open>
  whatever the times and keys of the calls, the limiter keeps at most \<open>max_keys\<close> keys, each once,
  and at most \<open>limit\<close> times for each of them.
\<close>

theorem allow_memory_bound:
  assumes "1 \<le> rl_limit rl" and "1 \<le> rl_max_keys rl" and "snd (allow_run rl calls []) = ev"
  shows "length ev \<le> rl_max_keys rl \<and> distinct (map fst ev) \<and> (\<forall>(key, es)\<in>set ev. length es \<le> rl_limit rl)"
  using allow_run_bounded [of rl "[]" calls] assms by (auto simp: bounded_events_def)

theorem allow_memory_bound_witness:
  "length (snd (allow_run two_per_minute [(0, [97]), (1, [98]), (2, [99]), (3, [100])] [])) \<le> 2"
  using allow_memory_bound [of two_per_minute "[(0, [97]), (1, [98]), (2, [99]), (3, [100])]"]
  by (simp add: two_per_minute_def)

text \<open>
  Past \<open>max_keys\<close> active keys the oldest one is forgotten although it is inside the window, and starts
  again with a full allowance.
\<close>

lemma evicted_key_restarts:
  "fst (allow_run \<lparr>rl_limit = 1, rl_window = 60, rl_max_keys = 1\<rparr> [(0, [97]), (1, [98]), (2, [97])] []) = [True, True, True]"
  by (simp add: allow_def touch_def deque_of_def discard_inactive_def Let_def)

subsection \<open>The shared limiter\<close>


lemma first_consume:
  "consume id (message_limiter ''message'') [97] (clocks_at bin_origin) [] =
     Returned (decision (message_limiter ''message'') True 1 bin_origin bin_origin, [first_bucket])"
  by (simp add: consume_def digest_key_def utf8_encode_def utf8_bytes_def surrogate_def consume_first_def consume_second_def
    increment_existing_def read_existing_def clocks_at_def message_limiter_def database_window_def window_micros_def
    first_bucket_def Let_def)

lemma first_reachable: "pg_reachable id message_limiter bin_origin [first_bucket] [(''message'', [97], bin_origin)]"
proof -
  have "digest_key id (pl_scope (message_limiter ''message'')) [97] = Inr (str ''message'' @ [0, 97])"
    by (simp add: digest_key_def utf8_encode_def utf8_bytes_def surrogate_def message_limiter_def)
  from pg_consume [OF pg_start [of id message_limiter bin_origin] _ first_consume this]
  show ?thesis
    by (simp add: clocks_at_def clock_list_def decision_def Let_def decided_at_def consume_first_def increment_existing_def
      read_existing_def id_def)
qed



lemma boundary_consume:
  "consume id (message_limiter ''message'') [97] boundary_clocks [first_bucket] = Raised UniqueViolation"
  by (simp add: consume_def digest_key_def utf8_encode_def utf8_bytes_def surrogate_def consume_first_def consume_second_def
    increment_existing_def read_existing_def clocks_at_def message_limiter_def database_window_def window_micros_def
    first_bucket_def boundary_clocks_def live_bucket_def bucket_key_def bin_origin_def Let_def)


end
