(* ===== verification/Transport.thy ===== *)
theory Transport
  imports Prelude
begin

section \<open>The bounded webhook transport (webhook_transport.py)\<close>

text \<open>
  The attempt budget and the one-slot transport of \<open>samsarix_chat_engine/webhook_transport.py\<close>. Works,
  with their budgets and futures, live in a heap, a list in which a work's number is its position. A
  definition is one critical section of the transport's or a budget's lock, one action of the worker
  thread between two of them, or one callback of the event loop; \<open>transport_step\<close> interleaves them.
  Times are integers of the monotonic clock and arguments. A socket is a number; shutting it down and
  closing it are recorded as effects. What a work computes is an argument of the step that ends it.
\<close>

datatype transport_error = TimeoutError | TransportUnavailable | ThreadStartError | QueueFull | BudgetValueError

datatype socket_effect = Shutdown nat | Close nat

record budget =
  bd_deadline :: int
  bd_cancelled :: bool
  bd_socket :: "nat option"

text \<open>The timeout in clock units with the number of units in a second; \<open>None\<close> is a non-finite or boolean one.\<close>

definition AttemptBudget :: "int \<Rightarrow> int option \<Rightarrow> int \<Rightarrow> transport_error + budget" where
  "AttemptBudget second timeout now = (case timeout of
     None \<Rightarrow> Inl BudgetValueError
   | Some t \<Rightarrow> (if 0 < t \<and> t \<le> 30 * second
       then Inr \<lparr>bd_deadline = now + t, bd_cancelled = False, bd_socket = None\<rparr> else Inl BudgetValueError))"

definition close_socket :: "nat \<Rightarrow> socket_effect list" where
  "close_socket s = [Shutdown s, Close s]"

definition remaining :: "int \<Rightarrow> budget \<Rightarrow> transport_error + int" where
  "remaining now b = (let left = bd_deadline b - now in
     if bd_cancelled b \<or> left \<le> 0 then Inl TimeoutError else Inr left)"

definition bind_socket :: "int \<Rightarrow> nat \<Rightarrow> budget \<Rightarrow> (transport_error + budget) \<times> socket_effect list" where
  "bind_socket now s b = (if bd_cancelled b \<or> bd_deadline b \<le> now then (Inl TimeoutError, close_socket s)
     else (Inr (b\<lparr>bd_socket := Some s\<rparr>), []))"

definition cancel :: "budget \<Rightarrow> budget \<times> socket_effect list" where
  "cancel b = (if bd_cancelled b then (b, [])
     else (b\<lparr>bd_cancelled := True\<rparr>, case bd_socket b of None \<Rightarrow> [] | Some s \<Rightarrow> [Shutdown s]))"

definition finish :: "budget \<Rightarrow> budget \<times> socket_effect list" where
  "finish b = (b\<lparr>bd_cancelled := True, bd_socket := None\<rparr>, case bd_socket b of None \<Rightarrow> [] | Some s \<Rightarrow> close_socket s)"

subsection \<open>The transport\<close>

datatype 'r future = Unset | Result 'r | Failed transport_error | Cancelled

record 'r work =
  wk_budget :: budget
  wk_future :: "'r future"

text \<open>Where the worker thread is: not started, in \<open>queue.get\<close>, running a work, past its lock with what it read, gone.\<close>

datatype 'r worker = NotStarted | Waiting | Running nat | Posting nat "'r future" bool | Exited

record 'r transport =
  tp_queue :: "nat option list"
  tp_active :: "nat option"
  tp_closed :: bool
  tp_worker :: "'r worker"
  tp_works :: "'r work list"

definition BoundedTransport :: "'r transport" where
  "BoundedTransport = \<lparr>tp_queue = [], tp_active = None, tp_closed = False, tp_worker = NotStarted, tp_works = []\<rparr>"

definition available :: "'r transport \<Rightarrow> bool" where
  "available tp \<longleftrightarrow> \<not> tp_closed tp \<and> tp_active tp = None"

text \<open>\<open>queue.Queue(maxsize=1).put_nowait\<close>.\<close>

definition put_nowait :: "nat option \<Rightarrow> 'r transport \<Rightarrow> transport_error + 'r transport" where
  "put_nowait item tp = (if 1 \<le> length (tp_queue tp) then Inl QueueFull else Inr (tp\<lparr>tp_queue := tp_queue tp @ [item]\<rparr>))"

definition update_work :: "nat \<Rightarrow> ('r work \<Rightarrow> 'r work) \<Rightarrow> 'r transport \<Rightarrow> 'r transport" where
  "update_work w f tp = tp\<lparr>tp_works := (tp_works tp)[w := f (tp_works tp ! w)]\<rparr>"

text \<open>
  The first half of \<open>run\<close>, under the lock: \<open>started\<close> says whether starting the thread succeeds. The
  result is the number of the new work.
\<close>

definition run_begin :: "budget \<Rightarrow> bool \<Rightarrow> 'r transport \<Rightarrow> (transport_error + nat) \<times> 'r transport" where
  "run_begin b started tp =
     (if tp_closed tp \<or> tp_active tp \<noteq> None then (Inl TransportUnavailable, tp)
      else if tp_worker tp = NotStarted \<and> \<not> started then (Inl ThreadStartError, tp)
      else (let w = length (tp_works tp);
                tp1 = tp\<lparr>tp_active := Some w, tp_works := tp_works tp @ [\<lparr>wk_budget = b, wk_future = Unset\<rparr>],
                  tp_worker := (if tp_worker tp = NotStarted then Waiting else tp_worker tp)\<rparr> in
            case put_nowait (Some w) tp1 of Inl e \<Rightarrow> (Inl e, tp1) | Inr tp2 \<Rightarrow> (Inr w, tp2)))"

definition cancel_future :: "'r future \<Rightarrow> 'r future" where
  "cancel_future f = (case f of Unset \<Rightarrow> Cancelled | _ \<Rightarrow> f)"

text \<open>The second half: what the awaited future holds when the wait ends, and the \<open>finally\<close> block.\<close>

definition run_result :: "nat \<Rightarrow> 'r transport \<Rightarrow> 'r future" where
  "run_result w tp = (case wk_future (tp_works tp ! w) of Unset \<Rightarrow> Failed TimeoutError | f \<Rightarrow> f)"

definition run_end :: "nat \<Rightarrow> 'r transport \<Rightarrow> 'r transport" where
  "run_end w = update_work w (\<lambda>k. k\<lparr>wk_budget := fst (cancel (wk_budget k)), wk_future := cancel_future (wk_future k)\<rparr>)"

definition worker_get :: "'r transport \<Rightarrow> 'r transport" where
  "worker_get tp = (case tp_queue tp of [] \<Rightarrow> tp
     | item # rest \<Rightarrow> tp\<lparr>tp_queue := rest, tp_worker := (case item of None \<Rightarrow> Exited | Some w \<Rightarrow> Running w)\<rparr>)"

text \<open>
  The worker's \<open>try\<close> block: the budget is consulted before (at \<open>t1\<close>) and after (at \<open>t2\<close>) the work's
  function, whose own outcome is \<open>out\<close>.
\<close>

definition work_outcome :: "int \<Rightarrow> transport_error + 'r \<Rightarrow> budget \<Rightarrow> int \<Rightarrow> budget \<Rightarrow> 'r future" where
  "work_outcome t1 out b1 t2 b2 =
     (case res_bind (remaining t1 b1) (\<lambda>_. res_bind out (\<lambda>r. res_map (\<lambda>_. r) (remaining t2 b2))) of
        Inl e \<Rightarrow> Failed e | Inr r \<Rightarrow> Result r)"

definition worker_finish :: "nat \<Rightarrow> 'r future \<Rightarrow> 'r transport \<Rightarrow> 'r transport" where
  "worker_finish w out tp =
     (update_work w (\<lambda>k. k\<lparr>wk_budget := fst (finish (wk_budget k))\<rparr>) tp)
       \<lparr>tp_active := None, tp_worker := Posting w out (tp_closed tp)\<rparr>"

text \<open>\<open>_finish\<close>, the callback on the event loop; when the loop is closed it never runs.\<close>

definition finish_future :: "nat \<Rightarrow> 'r future \<Rightarrow> 'r transport \<Rightarrow> 'r transport" where
  "finish_future w out = update_work w (\<lambda>k. case wk_future k of Unset \<Rightarrow> k\<lparr>wk_future := out\<rparr> | _ \<Rightarrow> k)"

definition worker_loop :: "bool \<Rightarrow> 'r transport \<Rightarrow> 'r transport" where
  "worker_loop closed tp = tp\<lparr>tp_worker := (if closed then Exited else Waiting)\<rparr>"

definition close :: "'r transport \<Rightarrow> transport_error + 'r transport" where
  "close tp =
     (let tp1 = tp\<lparr>tp_closed := True\<rparr> in
      res_map (\<lambda>tp2. case tp_active tp of None \<Rightarrow> tp2
          | Some w \<Rightarrow> update_work w (\<lambda>k. k\<lparr>wk_budget := fst (cancel (wk_budget k)), wk_future := cancel_future (wk_future k)\<rparr>) tp2)
        (if tp_worker tp \<noteq> NotStarted \<and> tp_queue tp = [] then put_nowait None tp1 else Inr tp1))"

subsection \<open>Interleavings\<close>

inductive transport_step :: "'r transport \<Rightarrow> 'r transport \<Rightarrow> bool" where
  step_run: "bd_cancelled b = False \<Longrightarrow> run_begin b started tp = (r, tp') \<Longrightarrow> transport_step tp tp'"
| step_end: "w < length (tp_works tp) \<Longrightarrow> transport_step tp (run_end w tp)"
| step_get: "tp_worker tp = Waiting \<Longrightarrow> tp_queue tp \<noteq> [] \<Longrightarrow> transport_step tp (worker_get tp)"
| step_bind: "tp_worker tp = Running w \<Longrightarrow> bind_socket now s (wk_budget (tp_works tp ! w)) = (Inr b, fx) \<Longrightarrow>
     transport_step tp (update_work w (\<lambda>k. k\<lparr>wk_budget := b\<rparr>) tp)"
| step_finish: "tp_worker tp = Running w \<Longrightarrow> transport_step tp (worker_finish w out tp)"
| step_post: "w < length (tp_works tp) \<Longrightarrow> transport_step tp (finish_future w out tp)"
| step_loop: "tp_worker tp = Posting w out closed \<Longrightarrow> transport_step tp (worker_loop closed tp)"
| step_close: "close tp = Inr tp' \<Longrightarrow> transport_step tp tp'"

inductive transport_steps :: "'r transport \<Rightarrow> 'r transport \<Rightarrow> bool" where
  steps_refl: "transport_steps tp tp"
| steps_move: "transport_steps tp tp' \<Longrightarrow> transport_step tp' tp'' \<Longrightarrow> transport_steps tp tp''"

text \<open>The one slot: the active work is queued or running, nothing else is, the stop marker needs a closed transport,
  and the worker of a closed transport finds something in the queue.\<close>

definition slot_inv :: "'r transport \<Rightarrow> bool" where
  "slot_inv tp \<longleftrightarrow> length (tp_queue tp) \<le> 1 \<and>
     (\<forall>w. tp_active tp = Some w \<longleftrightarrow> Some w \<in> set (tp_queue tp) \<or> tp_worker tp = Running w) \<and>
     (\<forall>w. Some w \<in> set (tp_queue tp) \<longrightarrow> (\<exists>v out. tp_worker tp = Waiting \<or> tp_worker tp = Posting v out False) \<and> w < length (tp_works tp)) \<and>
     (\<forall>w. tp_worker tp = Running w \<longrightarrow> w < length (tp_works tp)) \<and>
     (None \<in> set (tp_queue tp) \<or> tp_worker tp = Exited \<or> (\<exists>w out. tp_worker tp = Posting w out True) \<longrightarrow> tp_closed tp) \<and>
     (tp_closed tp \<and> (\<exists>v out. tp_worker tp = Waiting \<or> tp_worker tp = Posting v out False) \<longrightarrow> tp_queue tp \<noteq> []) \<and>
     (tp_worker tp = NotStarted \<longrightarrow> tp_queue tp = [])"

lemma update_work_simps [simp]:
  "tp_queue (update_work w f tp) = tp_queue tp" "tp_active (update_work w f tp) = tp_active tp"
  "tp_closed (update_work w f tp) = tp_closed tp" "tp_worker (update_work w f tp) = tp_worker tp"
  "tp_works (update_work w f tp) = (tp_works tp)[w := f (tp_works tp ! w)]"
  by (simp_all add: update_work_def)

lemma slot_inv_update_work [simp]: "slot_inv (update_work w f tp) = slot_inv tp"
  by (simp add: slot_inv_def)

lemma idle_queue_empty:
  assumes "slot_inv tp" and "tp_active tp = None" and "\<not> tp_closed tp"
  shows "tp_queue tp = []"
proof (cases "tp_queue tp")
  case (Cons item rest)
  then have "item \<in> set (tp_queue tp)" by simp
  moreover have "item = None \<or> tp_active tp = item"
    using assms(1) calculation unfolding slot_inv_def by (cases item) blast+
  ultimately show ?thesis using assms unfolding slot_inv_def by auto
qed simp

lemma run_begin_fits:
  assumes "slot_inv tp"
  shows "fst (run_begin b started tp) \<noteq> Inl QueueFull" and "slot_inv (snd (run_begin b started tp))"
proof -
  have q: "tp_queue tp = []" if "\<not> (tp_closed tp \<or> tp_active tp \<noteq> None)" using idle_queue_empty [OF assms] that by auto
  show "fst (run_begin b started tp) \<noteq> Inl QueueFull" using q by (auto simp: run_begin_def put_nowait_def Let_def)
  show "slot_inv (snd (run_begin b started tp))"
  proof (cases "tp_closed tp \<or> tp_active tp \<noteq> None")
    case False
    then have "tp_worker tp \<noteq> Running w" for w using assms by (auto simp: slot_inv_def)
    then show ?thesis using q False assms
      by (cases "tp_worker tp") (auto simp: run_begin_def put_nowait_def Let_def slot_inv_def)
  qed (simp add: run_begin_def assms)
qed

lemma close_fits:
  assumes "slot_inv tp"
  shows "\<exists>tp'. close tp = Inr tp' \<and> slot_inv tp' \<and> tp_closed tp' \<and> (tp_queue tp' \<noteq> [] \<or> tp_worker tp' = NotStarted)"
  using assms by (cases "tp_active tp") (auto simp: close_def Let_def put_nowait_def slot_inv_def)

lemma transport_step_inv: "transport_step tp tp' \<Longrightarrow> slot_inv tp \<Longrightarrow> slot_inv tp'"
proof (induction rule: transport_step.induct)
  case (step_run b started tp r tp')
  then show ?case using run_begin_fits(2) by (metis snd_conv)
next
  case (step_get tp)
  then show ?case
    by (cases "tp_queue tp"; cases "hd (tp_queue tp)") (auto simp: worker_get_def slot_inv_def)
next
  case (step_close tp tp')
  then show ?case using close_fits by fastforce
qed (auto simp: run_end_def finish_future_def, auto simp: slot_inv_def worker_finish_def worker_loop_def)

lemma transport_steps_inv: "transport_steps tp tp' \<Longrightarrow> slot_inv tp \<Longrightarrow> slot_inv tp'"
  by (induction rule: transport_steps.induct) (auto intro: transport_step_inv)

lemma slot_inv_start: "slot_inv BoundedTransport"
  by (simp add: slot_inv_def BoundedTransport_def)

lemma cancel_finish_cancelled [simp]: "bd_cancelled (fst (cancel b))" "bd_cancelled (fst (finish b))"
  by (simp_all add: cancel_def finish_def)

lemma cancelled_stays_step:
  assumes "transport_step tp tp'" and "w < length (tp_works tp)" and "bd_cancelled (wk_budget (tp_works tp ! w))"
  shows "w < length (tp_works tp') \<and> bd_cancelled (wk_budget (tp_works tp' ! w))"
  using assms
proof (induction rule: transport_step.induct)
  case (step_run b started tp r tp')
  then show ?case by (auto simp: run_begin_def put_nowait_def Let_def nth_append split: if_splits sum.splits)
next
  case (step_bind tp v now s b fx)
  then show ?case by (cases "v = w") (auto simp: bind_socket_def split: if_splits)
next
  case (step_finish tp v out)
  then show ?case by (cases "v = w") (auto simp: worker_finish_def)
next
  case (step_close tp tp')
  then show ?case
    by (cases "tp_active tp"; cases "the (tp_active tp) = w") (auto simp: close_def Let_def put_nowait_def split: if_splits)
qed (auto simp: run_end_def worker_get_def worker_finish_def finish_future_def worker_loop_def nth_list_update
  split: list.splits future.splits)

lemma cancelled_stays:
  "transport_steps tp tp' \<Longrightarrow> w < length (tp_works tp) \<Longrightarrow> bd_cancelled (wk_budget (tp_works tp ! w)) \<Longrightarrow>
     w < length (tp_works tp') \<and> bd_cancelled (wk_budget (tp_works tp' ! w))"
  by (induction rule: transport_steps.induct) (auto dest: cancelled_stays_step)

end
