(* ===== verification/Py_Base64.thy ===== *)
theory Py_Base64
  imports Py_Bytes
begin

section \<open>Python byte strings: base64\<close>

text \<open>
  \<open>base64.b64encode\<close> and \<open>base64.b64decode(.., validate=True)\<close> on lists of byte values. The decoder is
  the strict one: only the alphabet, groups of four, padding at the end of the last group; everything
  else raises \<open>binascii.Error\<close>, which is \<open>None\<close> here.
\<close>

definition b64_char :: "nat \<Rightarrow> nat" where
  "b64_char n = (if n < 26 then 65 + n else if n < 52 then 71 + n else if n < 62 then n - 4
     else if n = 62 then 43 else 47)"

definition b64_value :: "nat \<Rightarrow> nat option" where
  "b64_value c = (if upper c then Some (c - 65) else if lower c then Some (c - 71)
     else if digit c then Some (c + 4) else if c = 43 then Some 62 else if c = 47 then Some 63 else None)"

fun b64encode :: "pybytes \<Rightarrow> pystr" where
  "b64encode [] = []"
| "b64encode [a] = [b64_char (a div 4), b64_char (a mod 4 * 16), 61, 61]"
| "b64encode [a, b] = [b64_char (a div 4), b64_char (a mod 4 * 16 + b div 16), b64_char (b mod 16 * 4), 61]"
| "b64encode (a # b # c # rest) =
     b64_char (a div 4) # b64_char (a mod 4 * 16 + b div 16) # b64_char (b mod 16 * 4 + c div 64) # b64_char (c mod 64) #
     b64encode rest"

definition b64_group :: "nat option list \<Rightarrow> pybytes option" where
  "b64_group vs = (case vs of
     [Some p, Some q, Some r, Some s] \<Rightarrow> Some [p * 4 + q div 16, q mod 16 * 16 + r div 4, r mod 4 * 64 + s]
   | [Some p, Some q, Some r] \<Rightarrow> Some [p * 4 + q div 16, q mod 16 * 16 + r div 4]
   | [Some p, Some q] \<Rightarrow> Some [p * 4 + q div 16]
   | _ \<Rightarrow> None)"

fun b64decode :: "pystr \<Rightarrow> pybytes option" where
  "b64decode [] = Some []"
| "b64decode (p # q # r # s # rest) =
     (if rest = [] \<and> s = 61
      then b64_group (map b64_value (if r = 61 then [p, q] else [p, q, r]))
      else (case (b64_group (map b64_value [p, q, r, s]), b64decode rest) of
        (Some bs, Some more) \<Rightarrow> Some (bs @ more) | _ \<Rightarrow> None))"
| "b64decode _ = None"

lemma b64_value_char [simp]: "n < 64 \<Longrightarrow> b64_value (b64_char n) = Some n"
  by (auto simp: b64_value_def b64_char_def upper_def lower_def digit_def)

lemma b64_char_not_pad [simp]: "n < 64 \<Longrightarrow> b64_char n \<noteq> 61"
  by (auto simp: b64_char_def)

lemma b64_roundtrip: "list_all (\<lambda>b. b < 256) bs \<Longrightarrow> b64decode (b64encode bs) = Some bs"
proof (induction bs rule: b64encode.induct)
  case (2 a)
  then have "a div 4 < 64" "a mod 4 * 16 < 64" by auto
  then show ?case by (simp add: b64_group_def)
next
  case (3 a b)
  then have "a div 4 < 64" "a mod 4 * 16 + b div 16 < 64" "b mod 16 * 4 < 64" "b div 16 < 16" by auto
  then show ?case by (simp add: b64_group_def)
next
  case (4 a b c rest)
  then have "a div 4 < 64" "a mod 4 * 16 + b div 16 < 64" "b mod 16 * 4 + c div 64 < 64" "b div 16 < 16" "c div 64 < 4" by auto
  with 4 show ?case by (simp add: b64_group_def)
qed simp

end
