(* ===== verification/Dispatcher.thy ===== *)
theory Dispatcher
  imports Store_Outbox Transport Py_Base64 Complex_Main
begin

section \<open>Webhook delivery (webhooks.py)\<close>

text \<open>
  The signature, the destination policy, one attempt and the dispatcher's turn of
  \<open>samsarix_chat_engine/webhooks.py\<close>. Numbers the code keeps as floats are rationals. HMAC-SHA256,
  SHA-256, the IDNA codec, the resolver, \<open>urllib.parse.quote\<close>, \<open>float\<close> and the date parser are
  arguments; a parsed URL is the record of what \<open>urlparse\<close> returns, its \<open>hostname\<close> and \<open>port\<close> being
  left values where reading them raises \<open>ValueError\<close>. What the network does during an attempt is the
  record \<open>exchange\<close>; the outcome of \<open>BoundedTransport.run\<close> and the state of the stop event at each
  check are arguments of a turn.
\<close>

subsection \<open>Results and signatures\<close>

record attempt_result =
  ar_status_code :: "int option"
  ar_error :: "string option"
  ar_retry_after_seconds :: "rat option"

definition delivered :: "attempt_result \<Rightarrow> bool" where
  "delivered r = (case ar_status_code r of None \<Rightarrow> False | Some s \<Rightarrow> 200 \<le> s \<and> s < 300)"

definition ascii_encode :: "pystr \<Rightarrow> pybytes option" where
  "ascii_encode s = (if list_all (\<lambda>c. c < 128) s then Some s else None)"

fun join_space :: "pystr list \<Rightarrow> pystr" where
  "join_space [] = []"
| "join_space [x] = x"
| "join_space (x # y # ys) = x @ 32 # join_space (y # ys)"

definition signed_content :: "pystr \<Rightarrow> int \<Rightarrow> pybytes \<Rightarrow> pybytes option" where
  "signed_content delivery_id timestamp payload =
     map_option (\<lambda>encoded. encoded @ 46 # decimal timestamp @ 46 # payload) (ascii_encode delivery_id)"

definition signature_of :: "(pybytes \<Rightarrow> pybytes \<Rightarrow> pybytes) \<Rightarrow> pybytes \<Rightarrow> pybytes \<Rightarrow> pystr" where
  "signature_of hmac signed secret = str ''v1,'' @ b64encode (hmac secret signed)"

definition sign_webhook ::
  "(pybytes \<Rightarrow> pybytes \<Rightarrow> pybytes) \<Rightarrow> pystr \<Rightarrow> int \<Rightarrow> pybytes \<Rightarrow> pybytes list \<Rightarrow> pystr option" where
  "sign_webhook hmac delivery_id timestamp payload secrets =
     map_option (\<lambda>signed. join_space (map (signature_of hmac signed) secrets))
       (signed_content delivery_id timestamp payload)"

subsection \<open>Destinations\<close>

record parsed_url =
  pu_scheme :: pystr
  pu_netloc :: pystr
  pu_hostname :: "unit + pystr option"
  pu_port :: "unit + nat option"
  pu_username :: "pystr option"
  pu_password :: "pystr option"
  pu_path :: pystr
  pu_query :: pystr
  pu_fragment :: pystr

record ip_address =
  ip_text :: pystr
  ip_is_global :: bool

text \<open>The resolver's answer: the address of each entry, \<open>None\<close> where \<open>ipaddress.ip_address\<close> raises.\<close>

record resolver =
  rv_idna :: "pystr \<Rightarrow> pystr option"
  rv_getaddrinfo :: "pystr \<Rightarrow> nat \<Rightarrow> unit + ip_address option list"
  rv_quote :: "pystr \<Rightarrow> pystr"

record target =
  tg_scheme :: pystr
  tg_hostname :: pystr
  tg_address :: pystr
  tg_port :: nat
  tg_path :: pystr
  tg_host_header :: pystr

text \<open>
  \<open>hostname.lower()\<close> compared with three ASCII names: lowering the ASCII letters decides it, since no
  other character lowers to a letter these names have.
\<close>

definition ascii_lower :: "pystr \<Rightarrow> pystr" where
  "ascii_lower s = map (\<lambda>c. if upper c then c + 32 else c) s"

definition LOOPBACK_NAMES :: "pystr list" where
  "LOOPBACK_NAMES = [str ''localhost'', str ''127.0.0.1'', str ''::1'']"

definition is_loopback :: "pystr option \<Rightarrow> bool" where
  "is_loopback hostname = (case hostname of None \<Rightarrow> False | Some h \<Rightarrow> ascii_lower h \<in> set LOOPBACK_NAMES)"

definition url_acceptable :: "parsed_url \<Rightarrow> pystr option \<Rightarrow> bool" where
  "url_acceptable pu hostname \<longleftrightarrow> pu_scheme pu \<in> {str ''http'', str ''https''} \<and> pu_netloc pu \<noteq> [] \<and> hostname \<noteq> None \<and>
     pu_username pu = None \<and> pu_password pu = None \<and> pu_query pu = [] \<and> pu_fragment pu = [] \<and>
     \<not> (pu_scheme pu = str ''http'' \<and> \<not> is_loopback hostname)"

fun collect_addresses :: "bool \<Rightarrow> ip_address option list \<Rightarrow> pystr list \<Rightarrow> string + pystr list" where
  "collect_addresses any_target [] found = Inr found"
| "collect_addresses any_target (None # rest) found = Inl ''dns_error''"
| "collect_addresses any_target (Some ip # rest) found =
     (if \<not> any_target \<and> \<not> ip_is_global ip then Inl ''private_target_blocked''
      else collect_addresses any_target rest (if ip_text ip \<in> set found then found else found @ [ip_text ip]))"

definition default_port :: "pystr \<Rightarrow> nat" where
  "default_port scheme = (if scheme = str ''https'' then 443 else 80)"

definition host_header :: "pystr \<Rightarrow> pystr \<Rightarrow> nat \<Rightarrow> pystr" where
  "host_header scheme hostname port =
     (let h = (if 58 \<in> set hostname then 91 # hostname @ [93] else hostname) in
      if port \<noteq> default_port scheme then h @ 58 # decimal (int port) else h)"

definition resolve_target :: "resolver \<Rightarrow> parsed_url \<Rightarrow> bool \<Rightarrow> string + target" where
  "resolve_target rv pu allow_private_targets =
     (case (pu_hostname pu, pu_port pu) of
       (Inr hostname, Inr port) \<Rightarrow>
         (if \<not> url_acceptable pu hostname then Inl ''invalid_target''
          else (case rv_idna rv (the hostname) of
            None \<Rightarrow> Inl ''invalid_target''
          | Some ascii_hostname \<Rightarrow>
              (let resolved_port = (case port of Some p \<Rightarrow> if p = 0 then default_port (pu_scheme pu) else p
                   | None \<Rightarrow> default_port (pu_scheme pu)) in
               case rv_getaddrinfo rv ascii_hostname resolved_port of
                 Inl _ \<Rightarrow> Inl ''dns_error''
               | Inr addresses \<Rightarrow>
                   (if addresses = [] then Inl ''dns_error''
                    else res_map (\<lambda>found. \<lparr>tg_scheme = pu_scheme pu, tg_hostname = ascii_hostname, tg_address = hd found,
                        tg_port = resolved_port, tg_path = rv_quote rv (if pu_path pu = [] then str ''/'' else pu_path pu),
                        tg_host_header = host_header (pu_scheme pu) ascii_hostname resolved_port\<rparr>)
                      (collect_addresses (is_loopback hostname \<or> allow_private_targets) addresses [])))))
     | _ \<Rightarrow> Inl ''invalid_target'')"

subsection \<open>One attempt\<close>

definition float_rat :: "int \<Rightarrow> int \<Rightarrow> rat" where
  "float_rat m e = (if 0 \<le> e then of_int (m * 2 ^ nat e) else of_int m / of_int (2 ^ nat (- e)))"

text \<open>\<open>to_float\<close> is \<open>float(value)\<close>, \<open>to_date\<close> the parsed date, in UTC; both are \<open>None\<close> where they raise.\<close>

definition retry_after_seconds ::
  "(pystr \<Rightarrow> pyfloat option) \<Rightarrow> (pystr \<Rightarrow> timestamp option) \<Rightarrow> pystr option \<Rightarrow> timestamp \<Rightarrow> rat option" where
  "retry_after_seconds to_float to_date header now = (case header of None \<Rightarrow> None
     | Some v \<Rightarrow>
        (let seconds = (case to_float v of
             Some (PyFinite m e _) \<Rightarrow> Some (float_rat m e)
           | Some _ \<Rightarrow> None
           | None \<Rightarrow> map_option (\<lambda>t. of_int (t - now) / 1000000) (to_date v)) in
         map_option (\<lambda>s. if s < 0 then 0 else min s 86400) seconds))"

datatype send_exn = TargetErr string | TimeoutErr | TlsErr | ConnectionErr | OtherErr

record exchange =
  ex_readings :: "nat \<Rightarrow> int \<times> bool"
  ex_connect :: "send_exn + unit"
  ex_request :: "send_exn + unit"
  ex_response :: "send_exn + int \<times> pystr option"
  ex_now :: timestamp

record request =
  rq_target :: target
  rq_headers :: "(string \<times> pystr) list"
  rq_body :: pybytes

text \<open>The \<open>i\<close>-th \<open>budget.remaining()\<close>: the clock and whether the budget was cancelled by then.\<close>

definition checkpoint :: "budget \<Rightarrow> exchange \<Rightarrow> nat \<Rightarrow> send_exn + unit" where
  "checkpoint b ex i = (case remaining (fst (ex_readings ex i)) (b\<lparr>bd_cancelled := snd (ex_readings ex i)\<rparr>) of
     Inl _ \<Rightarrow> Inl TimeoutErr | Inr _ \<Rightarrow> Inr ())"

definition timestamp_seconds :: "timestamp \<Rightarrow> int" where
  "timestamp_seconds t = (if 0 \<le> t then t div 1000000 else - ((- t) div 1000000))"

definition prepare_request ::
  "(pybytes \<Rightarrow> pybytes \<Rightarrow> pybytes) \<Rightarrow> resolver \<Rightarrow> parsed_url \<Rightarrow> bool \<Rightarrow> budget \<Rightarrow> exchange \<Rightarrow>
     pystr \<Rightarrow> pybytes \<Rightarrow> pybytes list \<Rightarrow> timestamp \<Rightarrow> send_exn + request" where
  "prepare_request hmac rv pu allow_private b ex delivery_id payload secrets attempted_at =
     res_bind (checkpoint b ex 0) (\<lambda>_.
     res_bind (case resolve_target rv pu allow_private of Inl e \<Rightarrow> Inl (TargetErr e) | Inr tg \<Rightarrow> Inr tg) (\<lambda>tg.
     res_bind (checkpoint b ex 1) (\<lambda>_.
     (let timestamp = timestamp_seconds attempted_at in
      res_bind (case sign_webhook hmac delivery_id timestamp payload secrets of None \<Rightarrow> Inl OtherErr | Some s \<Rightarrow> Inr s) (\<lambda>signature.
      res_bind (ex_connect ex) (\<lambda>_.
      res_bind (checkpoint b ex 2) (\<lambda>_.
        Inr \<lparr>rq_target = tg, rq_headers = [(''Content-Type'', str ''application/json''), (''Host'', tg_host_header tg),
          (''User-Agent'', str ''Samsarix-Chat-Webhook/0.9''), (''webhook-id'', delivery_id),
          (''webhook-timestamp'', decimal timestamp), (''webhook-signature'', signature)], rq_body = payload\<rparr>)))))))"

definition complete_request ::
  "(pystr \<Rightarrow> pyfloat option) \<Rightarrow> (pystr \<Rightarrow> timestamp option) \<Rightarrow> budget \<Rightarrow> exchange \<Rightarrow> send_exn + attempt_result" where
  "complete_request to_float to_date b ex =
     res_bind (ex_request ex) (\<lambda>_.
     res_bind (checkpoint b ex 3) (\<lambda>_.
     res_bind (ex_response ex) (\<lambda>(status, retry_after).
     res_bind (checkpoint b ex 4) (\<lambda>_.
       if 200 \<le> status \<and> status < 300
       then Inr \<lparr>ar_status_code = Some status, ar_error = None, ar_retry_after_seconds = None\<rparr>
       else Inr \<lparr>ar_status_code = Some status, ar_error = Some (''http_status_'' @ map char_of (decimal status)),
         ar_retry_after_seconds = retry_after_seconds to_float to_date retry_after (ex_now ex)\<rparr>))))"

definition failed_attempt :: "string \<Rightarrow> attempt_result" where
  "failed_attempt e = \<lparr>ar_status_code = None, ar_error = Some e, ar_retry_after_seconds = None\<rparr>"

definition handle_exn :: "send_exn \<Rightarrow> send_exn + attempt_result" where
  "handle_exn e = (case e of TargetErr s \<Rightarrow> Inr (failed_attempt s) | TimeoutErr \<Rightarrow> Inr (failed_attempt ''timeout'')
     | TlsErr \<Rightarrow> Inr (failed_attempt ''tls_error'') | ConnectionErr \<Rightarrow> Inr (failed_attempt ''connection_error'')
     | OtherErr \<Rightarrow> Inl OtherErr)"

text \<open>The request handed to the connection, if any, and the result.\<close>

definition send_budgeted_request ::
  "(pybytes \<Rightarrow> pybytes \<Rightarrow> pybytes) \<Rightarrow> resolver \<Rightarrow> (pystr \<Rightarrow> pyfloat option) \<Rightarrow> (pystr \<Rightarrow> timestamp option) \<Rightarrow>
     parsed_url \<Rightarrow> bool \<Rightarrow> budget \<Rightarrow> exchange \<Rightarrow> pystr \<Rightarrow> pybytes \<Rightarrow> pybytes list \<Rightarrow> timestamp \<Rightarrow>
     request option \<times> (send_exn + attempt_result)" where
  "send_budgeted_request hmac rv to_float to_date pu allow_private b ex delivery_id payload secrets attempted_at =
     (case prepare_request hmac rv pu allow_private b ex delivery_id payload secrets attempted_at of
       Inl e \<Rightarrow> (None, handle_exn e)
     | Inr rq \<Rightarrow> (Some rq, case complete_request to_float to_date b ex of Inl e \<Rightarrow> handle_exn e | Inr r \<Rightarrow> Inr r))"

subsection \<open>The dispatcher\<close>

definition RETRY_SCHEDULE_SECONDS :: "rat list" where
  "RETRY_SCHEDULE_SECONDS = [5, 300, 1800, 7200, 18000, 36000, 50400, 72000]"

definition retry_base :: "nat \<Rightarrow> rat" where
  "retry_base attempt_number =
     (if attempt_number \<le> length RETRY_SCHEDULE_SECONDS
      then RETRY_SCHEDULE_SECONDS ! min (attempt_number - 1) (length RETRY_SCHEDULE_SECONDS - 1) else 86400)"

definition retry_jitter :: "pybytes \<Rightarrow> rat" where
  "retry_jitter digest = (of_nat (256 * digest ! 0 + digest ! 1) / 65535 - 1 / 2) * (2 / 5)"

text \<open>\<open>attempt_number\<close> is at least one; \<open>None\<close> where encoding the id raises.\<close>

definition retry_delay :: "(pybytes \<Rightarrow> pybytes) \<Rightarrow> pystr \<Rightarrow> nat \<Rightarrow> rat option" where
  "retry_delay sha delivery_id attempt_number =
     map_option (\<lambda>encoded. max 1 (retry_base attempt_number * (1 + retry_jitter (sha encoded))))
       (utf8_encode (delivery_id @ 58 # decimal (int attempt_number)))"

text \<open>\<open>timedelta(seconds=x)\<close> rounds to microseconds, ties to even.\<close>

definition timedelta_seconds :: "rat \<Rightarrow> int" where
  "timedelta_seconds x =
     (let y = x * 1000000; f = \<lfloor>y\<rfloor> in
      if y - of_int f < 1 / 2 then f else if 1 / 2 < y - of_int f then f + 1 else if even f then f else f + 1)"

datatype run_outcome = RunResult attempt_result | RunTimeout | RunCancelled | RunRaised

datatype turn = Processed bool | CancelledError | TurnError

record turn_input =
  ti_now :: timestamp
  ti_stop0 :: bool
  ti_available :: bool
  ti_stop1 :: bool
  ti_outcome :: run_outcome
  ti_stop2 :: bool

definition is_terminal :: "nat \<Rightarrow> nat \<Rightarrow> attempt_result \<Rightarrow> bool" where
  "is_terminal max_attempts attempt_number r \<longleftrightarrow> \<not> delivered r \<and> (max_attempts \<le> attempt_number \<or> ar_status_code r = Some 410)"

definition next_attempt_at ::
  "(pybytes \<Rightarrow> pybytes) \<Rightarrow> pystr \<Rightarrow> nat \<Rightarrow> attempt_result \<Rightarrow> timestamp \<Rightarrow> timestamp option" where
  "next_attempt_at sha delivery_id attempt_number r attempted_at =
     map_option (\<lambda>delay. attempted_at + timedelta_seconds
         (case ar_retry_after_seconds r of None \<Rightarrow> delay | Some s \<Rightarrow> max delay s))
       (retry_delay sha delivery_id attempt_number)"

text \<open>Recording the outcome of an attempt on the delivery \<open>w\<close> in the store as it is then.\<close>

definition settle_attempt ::
  "(pybytes \<Rightarrow> pybytes) \<Rightarrow> nat \<Rightarrow> webhook_delivery \<Rightarrow> timestamp \<Rightarrow> attempt_result \<Rightarrow> db \<Rightarrow> turn \<times> db" where
  "settle_attempt sha max_attempts w attempted_at r d =
     (let attempt_number = wd_attempt_count w + 1;
          terminal = is_terminal max_attempts attempt_number r;
          retried = \<not> delivered r \<and> \<not> terminal;
          next = (if retried then next_attempt_at sha (wd_id w) attempt_number r attempted_at else None) in
      if retried \<and> next = None then (TurnError, d)
      else (case record_webhook_attempt_sync (wd_id w) attempted_at (ar_status_code r) (ar_error r) next
               (delivered r) terminal d of
          Inr (_, d') \<Rightarrow> (Processed True, d')
        | Inl (WebhookDeliveryNotFoundError _) \<Rightarrow> (Processed True, d)
        | Inl _ \<Rightarrow> (TurnError, d)))"

text \<open>A turn: \<open>d\<close> is the store when the delivery is selected, \<open>d2\<close> the store when the outcome is recorded.\<close>

definition process_due_once :: "(pybytes \<Rightarrow> pybytes) \<Rightarrow> nat \<Rightarrow> turn_input \<Rightarrow> db \<Rightarrow> db \<Rightarrow> turn \<times> db" where
  "process_due_once sha max_attempts ti d d2 =
     (if ti_stop0 ti \<or> \<not> ti_available ti then (Processed False, d2)
      else (case next_webhook_delivery_sync (ti_now ti) d of
        None \<Rightarrow> (Processed False, d2)
      | Some (w, payload) \<Rightarrow>
          (if ti_stop1 ti then (Processed False, d2)
           else (case ti_outcome ti of
               RunCancelled \<Rightarrow> (if ti_stop2 ti then Processed False else CancelledError, d2)
             | RunRaised \<Rightarrow> (TurnError, d2)
             | RunTimeout \<Rightarrow> (if ti_stop2 ti then (Processed False, d2)
                 else settle_attempt sha max_attempts w (ti_now ti) (failed_attempt ''timeout'') d2)
             | RunResult r \<Rightarrow> (if ti_stop2 ti then (Processed False, d2)
                 else settle_attempt sha max_attempts w (ti_now ti) r d2)))))"

text \<open>A run of turns on a store nobody else changes, as long as each turn processed a row.\<close>

fun busy_run :: "(pybytes \<Rightarrow> pybytes) \<Rightarrow> nat \<Rightarrow> turn_input list \<Rightarrow> db \<Rightarrow> nat \<times> db" where
  "busy_run sha max_attempts [] d = (0, d)"
| "busy_run sha max_attempts (ti # tis) d =
     (case process_due_once sha max_attempts ti d d of
       (Processed True, d') \<Rightarrow> (case busy_run sha max_attempts tis d' of (n, d2) \<Rightarrow> (Suc n, d2))
     | (_, d') \<Rightarrow> (0, d'))"

text \<open>How many attempts a row can still take.\<close>

definition attempts_left :: "nat \<Rightarrow> webhook_row \<Rightarrow> nat" where
  "attempts_left max_attempts w = (if pending w then max 1 (max_attempts - wd_attempt_count w) else 0)"

text \<open>Delivery ids are distinct and carry no padding, as the ids the store makes do.\<close>

definition delivery_ids :: "db \<Rightarrow> bool" where
  "delivery_ids d \<longleftrightarrow> distinct (map wd_id (db_webhooks d)) \<and> (\<forall>w\<in>set (db_webhooks d). py_strip (wd_id w) = wd_id w)"

text \<open>Splitting a signature list as a receiver does.\<close>

fun split_space :: "pystr \<Rightarrow> pystr list" where
  "split_space [] = [[]]"
| "split_space (c # cs) = (if c = 32 then [] # split_space cs else (case split_space cs of [] \<Rightarrow> [[c]] | x # xs \<Rightarrow> (c # x) # xs))"

end
