(* ===== verification/Dispatcher_Properties.thy ===== *)
theory Dispatcher_Properties
  imports Dispatcher
begin

section \<open>Properties of webhook delivery\<close>

text \<open>
  The claims about \<open>webhooks.py\<close> and \<open>webhook_transport.py\<close>: retries end and keep their distance, an
  attempt goes only where the destination policy lets it, a receiver finds its signature, and the
  transport holds one work whose budget dies with its caller.
\<close>

subsection \<open>Turns\<close>

lemma sum_list_update_less:
  fixes g :: "'r \<Rightarrow> nat"
  assumes "\<And>r. r \<in> set rows \<Longrightarrow> P r \<Longrightarrow> g (f r) < g r" and "\<exists>r\<in>set rows. P r"
  shows "sum_list (map g (update_where P f rows)) < sum_list (map g rows)"
proof -
  have le: "sum_list (map g (update_where P f xs)) \<le> sum_list (map g xs)" if "set xs \<subseteq> set rows" for xs
    using that
  proof (induction xs)
    case (Cons a xs)
    then show ?case using assms(1) [of a] by (cases "P a") (simp_all add: update_where_def)
  qed simp
  obtain r where r: "r \<in> set rows" "P r" using assms(2) by blast
  then obtain ys zs where rows: "rows = ys @ r # zs" by (meson split_list)
  have split: "update_where P f rows = update_where P f ys @ f r # update_where P f zs"
    using r(2) by (simp add: rows update_where_def)
  have "set ys \<subseteq> set rows" "set zs \<subseteq> set rows" unfolding rows by auto
  with le [of ys] le [of zs] assms(1) [OF r] show ?thesis unfolding split by (simp add: rows)
qed

lemma next_webhook_Some:
  assumes "next_webhook_delivery_sync now d = Some (w, payload)" and "delivery_ids d"
  shows "\<exists>row\<in>set (db_webhooks d). is_due now row \<and> wd_id w = wd_id row \<and> wd_attempt_count w = wd_attempt_count row"
proof -
  obtain row rest where row: "order_by due_key (filter (is_due now) (db_webhooks d)) = row # rest"
    and w: "w = fst (webhook_from_row row)"
    using assms by (auto simp: next_webhook_delivery_sync_def split: list.splits option.splits)
  have "row \<in> set (order_by due_key (filter (is_due now) (db_webhooks d)))" unfolding row by simp
  then have "row \<in> set (db_webhooks d)" "is_due now row" by simp_all
  moreover have "wd_id w = wd_id row" "wd_attempt_count w = wd_attempt_count row"
    using assms(2) calculation by (simp_all add: w webhook_from_row_def webhook_delivery.truncate_def delivery_ids_def)
  ultimately show ?thesis by metis
qed

lemma record_webhook_attempt_exists:
  "list_ex (\<lambda>w. wd_id w = did \<and> pending w) (db_webhooks d) \<Longrightarrow> \<not> (dl \<and> fl) \<Longrightarrow>
     \<exists>e. record_webhook_attempt_sync did t st err nxt dl fl d = Inr ((), e)"
  unfolding record_webhook_attempt_sync_def by (simp only: if_False simp_thms) blast

lemma settle_attempt_Processed:
  assumes "settle_attempt sha M w t r d = (Processed True, d')"
    and row: "row \<in> set (db_webhooks d)" "pending row" "wd_id row = wd_id w" "wd_attempt_count row = wd_attempt_count w"
    and ids: "delivery_ids d" and M: "1 \<le> M"
  shows "sum_list (map (attempts_left M) (db_webhooks d')) < sum_list (map (attempts_left M) (db_webhooks d))"
    and "delivery_ids d'"
proof -
  let ?next = "if \<not> delivered r \<and> \<not> is_terminal M (wd_attempt_count w + 1) r
    then next_attempt_at sha (wd_id w) (wd_attempt_count w + 1) r t else None"
  have "list_ex (\<lambda>w'. wd_id w' = wd_id w \<and> pending w') (db_webhooks d)" using row by (auto simp: list_ex_iff)
  then have "\<exists>e. record_webhook_attempt_sync (wd_id w) t (ar_status_code r) (ar_error r) ?next (delivered r)
      (is_terminal M (wd_attempt_count w + 1) r) d = Inr ((), e)"
    by (rule record_webhook_attempt_exists) (simp add: is_terminal_def)
  then have "record_webhook_attempt_sync (wd_id w) t (ar_status_code r) (ar_error r) ?next (delivered r)
      (is_terminal M (wd_attempt_count w + 1) r) d = Inr ((), d')"
    using assms(1) by (auto simp: settle_attempt_def Let_def split: if_splits)
  then have d': "db_webhooks d' = update_where (\<lambda>v. wd_id v = wd_id w \<and> pending v)
      (\<lambda>v. v\<lparr>wd_attempt_count := wd_attempt_count v + 1, wd_next_attempt_at := ?next, wd_last_attempt_at := Some t,
        wd_delivered_at := (if delivered r then Some t else None),
        wd_failed_at := (if is_terminal M (wd_attempt_count w + 1) r then Some t else None),
        wd_last_status_code := ar_status_code r, wd_last_error := ar_error r\<rparr>) (db_webhooks d)" (is "_ = update_where ?P ?f _")
    unfolding record_webhook_attempt_Inr by simp
  have uniq: "v = row" if "v \<in> set (db_webhooks d)" "?P v" for v
    using distinct_key_inj [of wd_id "db_webhooks d" v row] ids that row(1,3) by (simp add: delivery_ids_def)
  have "attempts_left M (?f row) < attempts_left M row"
  proof (cases "delivered r \<or> is_terminal M (wd_attempt_count w + 1) r")
    case True
    then have "\<not> pending (?f row)" by (auto simp: pending_def)
    then show ?thesis using row(2) by (simp add: attempts_left_def)
  next
    case False
    then have "wd_attempt_count row + 1 < M" using row(4) by (auto simp: is_terminal_def)
    moreover from this have "M - Suc (wd_attempt_count row) < M - wd_attempt_count row" by linarith
    ultimately show ?thesis using row(2) by (simp add: attempts_left_def)
  qed
  then show "sum_list (map (attempts_left M) (db_webhooks d')) < sum_list (map (attempts_left M) (db_webhooks d))"
    unfolding d' using uniq row(1,2,3) by (intro sum_list_update_less) blast+
  show "delivery_ids d'" unfolding delivery_ids_def d' using ids
    by (auto simp: map_update_where delivery_ids_def elim!: in_update_whereE)
qed

lemma busy_run_bound:
  "busy_run sha M tis d = (n, d') \<Longrightarrow> delivery_ids d \<Longrightarrow> 1 \<le> M \<Longrightarrow>
     n + sum_list (map (attempts_left M) (db_webhooks d')) \<le> sum_list (map (attempts_left M) (db_webhooks d))"
proof (induction tis arbitrary: d n)
  case (Cons ti tis)
  obtain res d1 where one: "process_due_once sha M ti d d = (res, d1)" by (cases "process_due_once sha M ti d d")
  show ?case
  proof (cases "res = Processed True")
    case True
    obtain m where rest: "busy_run sha M tis d1 = (m, d')" "n = Suc m"
      using Cons.prems(1) one True by (cases "busy_run sha M tis d1") auto
    obtain w payload r where w: "next_webhook_delivery_sync (ti_now ti) d = Some (w, payload)"
      and settle: "settle_attempt sha M w (ti_now ti) r d = (Processed True, d1)"
      using one True by (auto simp: process_due_once_def split: if_splits option.splits run_outcome.splits)
    obtain row where row: "row \<in> set (db_webhooks d)" "pending row" "wd_id row = wd_id w" "wd_attempt_count row = wd_attempt_count w"
      using next_webhook_Some [OF w Cons.prems(2)] by (auto simp: is_due_def)
    note step = settle_attempt_Processed [OF settle row Cons.prems(2,3)]
    show ?thesis using Cons.IH [OF rest(1) step(2) Cons.prems(3)] step(1) rest(2) by simp
  next
    case False
    have "d1 = d"
      using one False
      by (auto simp: process_due_once_def settle_attempt_def Let_def split: if_splits option.splits run_outcome.splits sum.splits store_error.splits)
    then show ?thesis using Cons.prems(1) one False by (auto split: turn.splits bool.splits)
  qed
qed simp

definition sample_delivery :: webhook_row where
  "sample_delivery = new_webhook_row [49] ''message.created'' [114] [109] 0 (MessageData None undefined)"

definition sample_outbox :: db where
  "sample_outbox = empty_db\<lparr>db_webhooks := [sample_delivery]\<rparr>"

definition gone :: attempt_result where
  "gone = \<lparr>ar_status_code = Some 410, ar_error = Some ''http_status_410'', ar_retry_after_seconds = None\<rparr>"

definition gone_turn :: turn_input where
  "gone_turn = \<lparr>ti_now = 5, ti_stop0 = False, ti_available = True, ti_stop1 = False, ti_outcome = RunResult gone, ti_stop2 = False\<rparr>"

lemma sample_ids: "delivery_ids sample_outbox"
  by (simp add: delivery_ids_def sample_outbox_def sample_delivery_def new_webhook_row_def delivery_id_of_def str_def
    py_strip_def py_lstrip_def py_isspace_def)

text \<open>
  C14. on a store nobody else changes, the turns of the dispatcher that process a delivery number at most
  the attempts its pending deliveries have left, each at most \<open>max_attempts\<close> and at least one, whatever
  the destination answers: every delivery ends delivered or failed and the worker goes idle.
\<close>

theorem dispatcher_goes_idle:
  assumes "busy_run sha max_attempts tis d = (n, d')" and "delivery_ids d" and "1 \<le> max_attempts"
  shows "n + sum_list (map (attempts_left max_attempts) (db_webhooks d')) \<le>
      sum_list (map (attempts_left max_attempts) (db_webhooks d))"
  by (rule busy_run_bound [OF assms])

theorem dispatcher_goes_idle_witness:
  "fst (busy_run id 9 [gone_turn, gone_turn] sample_outbox) \<le> 9"
proof -
  obtain n d' where run: "busy_run id 9 [gone_turn, gone_turn] sample_outbox = (n, d')" by (meson surj_pair)
  have "sum_list (map (attempts_left 9) (db_webhooks sample_outbox)) = 9"
    by (simp add: sample_outbox_def sample_delivery_def new_webhook_row_def attempts_left_def pending_def)
  then show ?thesis using dispatcher_goes_idle [OF run sample_ids] run by simp
qed

subsection \<open>Distances between attempts\<close>

lemma retry_base_bounds: "1 \<le> n \<Longrightarrow> 5 \<le> retry_base n \<and> retry_base n \<le> 86400"
proof -
  assume n: "1 \<le> n"
  have "n = 1 \<or> n = 2 \<or> n = 3 \<or> n = 4 \<or> n = 5 \<or> n = 6 \<or> n = 7 \<or> n = 8 \<or> 8 < n" using n by linarith
  then show ?thesis by (elim disjE) (simp_all add: retry_base_def RETRY_SCHEDULE_SECONDS_def)
qed

lemma retry_jitter_bounds:
  assumes "digest ! 0 < 256" and "digest ! 1 < 256"
  shows "- (1 / 5) \<le> retry_jitter digest" and "retry_jitter digest \<le> 1 / 5"
proof -
  let ?v = "of_nat (256 * digest ! 0 + digest ! 1) :: rat"
  have "256 * digest ! 0 + digest ! 1 \<le> 65535" using assms by linarith
  then have "?v \<le> of_nat 65535" by (rule of_nat_mono)
  then have v: "0 \<le> ?v / 65535" "?v / 65535 \<le> 1" by (simp_all add: divide_le_eq)
  have "- (1 / 5) \<le> (q - 1 / 2) * (2 / 5) \<and> (q - 1 / 2) * (2 / 5) \<le> 1 / 5" if "0 \<le> q" "q \<le> 1" for q :: rat
    using that by (auto simp: field_simps)
  from this [OF v] show "- (1 / 5) \<le> retry_jitter digest" "retry_jitter digest \<le> 1 / 5"
    unfolding retry_jitter_def by blast+
qed

lemma retry_delay_bounds:
  assumes "retry_delay sha did n = Some x" and "1 \<le> n" and "\<And>bs. sha bs ! 0 < 256 \<and> sha bs ! 1 < 256"
  shows "4 \<le> x" and "x \<le> 103680"
proof -
  obtain digest where x: "x = max 1 (retry_base n * (1 + retry_jitter digest))" and "digest ! 0 < 256" "digest ! 1 < 256"
    using assms(1,3) by (auto simp: retry_delay_def)
  then have j: "- (1 / 5) \<le> retry_jitter digest" "retry_jitter digest \<le> 1 / 5" using retry_jitter_bounds by blast+
  have b: "5 \<le> retry_base n" "retry_base n \<le> 86400" using retry_base_bounds [OF assms(2)] by blast+
  have "5 * (4 / 5) \<le> retry_base n * (1 + retry_jitter digest)" by (rule mult_mono) (use b j in linarith)+
  moreover have "retry_base n * (1 + retry_jitter digest) \<le> 86400 * (6 / 5)" by (rule mult_mono) (use b j in linarith)+
  ultimately show "4 \<le> x" "x \<le> 103680" unfolding x by auto
qed

lemma timedelta_seconds_bounds:
  assumes "of_int a \<le> x" and "x \<le> of_int b"
  shows "a * 1000000 \<le> timedelta_seconds x" and "timedelta_seconds x \<le> b * 1000000"
proof -
  let ?y = "x * 1000000"
  have fl: "of_int \<lfloor>?y\<rfloor> \<le> ?y" "?y < of_int \<lfloor>?y\<rfloor> + 1" by linarith+
  have y: "of_int (a * 1000000) \<le> ?y" "?y \<le> of_int (b * 1000000)" using assms by simp_all
  have a: "a * 1000000 \<le> \<lfloor>?y\<rfloor>" using y(1) by (simp only: le_floor_iff)
  have b: "\<lfloor>?y\<rfloor> \<le> b * 1000000" using y(2) by linarith
  have up: "\<lfloor>?y\<rfloor> + 1 \<le> b * 1000000" if "0 < ?y - of_int \<lfloor>?y\<rfloor>" using that y(2) by linarith
  show "a * 1000000 \<le> timedelta_seconds x" using a by (auto simp: timedelta_seconds_def Let_def)
  show "timedelta_seconds x \<le> b * 1000000"
  proof (cases "?y - of_int \<lfloor>?y\<rfloor> < 1 / 2")
    case False
    then have "\<lfloor>?y\<rfloor> + 1 \<le> b * 1000000" using up by linarith
    then show ?thesis using b by (simp add: timedelta_seconds_def Let_def)
  qed (use b in \<open>simp add: timedelta_seconds_def Let_def\<close>)
qed

lemma retry_after_seconds_cap: "retry_after_seconds to_float to_date h now = Some s \<Longrightarrow> 0 \<le> s \<and> s \<le> 86400"
  by (auto simp: retry_after_seconds_def Let_def split: option.splits if_splits)

lemma send_retry_after_cap:
  assumes "snd (send_budgeted_request hmac rv to_float to_date pu priv b ex did payload secrets t) = Inr r"
    and "ar_retry_after_seconds r = Some s"
  shows "s \<le> 86400"
  using assms
  by (auto simp: send_budgeted_request_def handle_exn_def failed_attempt_def complete_request_def retry_after_seconds_cap
    split: sum.splits send_exn.splits if_splits)

text \<open>
  C35. an attempt whose result the dispatcher records and after which the delivery is still pending is
  followed by the next one at the earliest 4 seconds and at the latest 103680 seconds (28.8 hours) later,
  whatever \<open>Retry-After\<close> the destination sent; the dispatcher counts the attempt.
\<close>

theorem retries_keep_distance:
  assumes "snd (send_budgeted_request hmac rv to_float to_date pu priv b ex (wd_id w) payload secrets t) = Inr r"
    and "settle_attempt sha max_attempts w t r d = (Processed True, d')"
    and "\<And>bs. sha bs ! 0 < 256 \<and> sha bs ! 1 < 256"
    and "row \<in> set (db_webhooks d')" "wd_id row = wd_id w" "pending row"
    and "list_ex (\<lambda>v. wd_id v = wd_id w \<and> pending v) (db_webhooks d)"
  shows "\<exists>u. wd_next_attempt_at row = Some u \<and> t + 4000000 \<le> u \<and> u \<le> t + 103680000000"
proof -
  let ?n = "wd_attempt_count w + 1"
  let ?next = "if \<not> delivered r \<and> \<not> is_terminal max_attempts ?n r then next_attempt_at sha (wd_id w) ?n r t else None"
  obtain e where "record_webhook_attempt_sync (wd_id w) t (ar_status_code r) (ar_error r) ?next (delivered r)
      (is_terminal max_attempts ?n r) d = Inr ((), e)"
    using record_webhook_attempt_exists [OF assms(7)] by (meson is_terminal_def)
  then have rec: "record_webhook_attempt_sync (wd_id w) t (ar_status_code r) (ar_error r) ?next (delivered r)
      (is_terminal max_attempts ?n r) d = Inr ((), d')"
    and some: "\<not> (\<not> delivered r \<and> \<not> is_terminal max_attempts ?n r \<and> ?next = None)"
    using assms(2) by (auto simp: settle_attempt_def Let_def split: if_splits)
  then have row: "wd_next_attempt_at row = ?next" "\<not> delivered r \<and> \<not> is_terminal max_attempts ?n r"
    using assms(4,5,6) unfolding record_webhook_attempt_Inr by (auto simp: pending_def elim!: in_update_whereE split: if_splits)
  then obtain u where u: "next_attempt_at sha (wd_id w) ?n r t = Some u" "wd_next_attempt_at row = Some u" using some by auto
  then obtain x where x: "retry_delay sha (wd_id w) ?n = Some x"
    and u_eq: "u = t + timedelta_seconds (case ar_retry_after_seconds r of None \<Rightarrow> x | Some s \<Rightarrow> max x s)"
    by (auto simp: next_attempt_at_def)
  have bounds: "4 \<le> x" "x \<le> 103680" using retry_delay_bounds [OF x _ assms(3)] by simp_all
  let ?y = "case ar_retry_after_seconds r of None \<Rightarrow> x | Some s \<Rightarrow> max x s"
  have "4 \<le> ?y \<and> ?y \<le> 103680"
    using bounds send_retry_after_cap [OF assms(1)] by (cases "ar_retry_after_seconds r") (auto intro: order.trans)
  then have "of_int 4 \<le> ?y" "?y \<le> of_int 103680" by simp_all
  from timedelta_seconds_bounds [OF this] u(2) show ?thesis by (simp add: u_eq)
qed

definition sample_url :: parsed_url where
  "sample_url = \<lparr>pu_scheme = str ''https'', pu_netloc = str ''example.org'', pu_hostname = Inr (Some (str ''example.org'')),
     pu_port = Inr None, pu_username = None, pu_password = None, pu_path = str ''/hook'', pu_query = [], pu_fragment = []\<rparr>"

definition sample_resolver :: resolver where
  "sample_resolver = \<lparr>rv_idna = Some, rv_getaddrinfo = (\<lambda>_ _. Inr [Some \<lparr>ip_text = str ''93.184.216.34'', ip_is_global = True\<rparr>]),
     rv_quote = (\<lambda>p. p)\<rparr>"

definition sample_exchange :: exchange where
  "sample_exchange = \<lparr>ex_readings = (\<lambda>_. (0, False)), ex_connect = Inr (), ex_request = Inr (),
     ex_response = Inr (500, None), ex_now = 0\<rparr>"

definition sample_budget :: budget where
  "sample_budget = \<lparr>bd_deadline = 10, bd_cancelled = False, bd_socket = None\<rparr>"

definition sample_hmac :: "pybytes \<Rightarrow> pybytes \<Rightarrow> pybytes" where
  "sample_hmac secret content = map (\<lambda>b. b mod 256) (secret @ content)"

definition sample_result :: attempt_result where
  "sample_result = \<lparr>ar_status_code = Some 500, ar_error = Some (''http_status_'' @ map char_of (decimal 500)), ar_retry_after_seconds = None\<rparr>"

definition retried_delivery :: webhook_row where
  "retried_delivery = sample_delivery\<lparr>wd_attempt_count := 1, wd_next_attempt_at := Some 4000007, wd_last_attempt_at := Some 7,
     wd_last_status_code := Some 500, wd_last_error := ar_error sample_result\<rparr>"

lemmas send_defs = send_budgeted_request_def prepare_request_def complete_request_def checkpoint_def remaining_def
  resolve_target_def url_acceptable_def is_loopback_def LOOPBACK_NAMES_def ascii_lower_def upper_def sign_webhook_def
  signed_content_def ascii_encode_def retry_after_seconds_def

lemmas sample_attempt_defs = sample_url_def sample_resolver_def sample_exchange_def sample_budget_def sample_result_def

lemma sample_send:
  "\<exists>rq. send_budgeted_request sample_hmac sample_resolver Map.empty Map.empty sample_url False sample_budget sample_exchange
     (str ''wh_1'') [123, 125] [[1, 2, 3]] 7 = (Some rq, Inr sample_result)"
  by (simp add: send_defs sample_attempt_defs str_def Let_def)

lemma sample_settle:
  "settle_attempt (\<lambda>_. [0, 0]) 9 (webhook_delivery.truncate sample_delivery) 7 sample_result sample_outbox =
     (Processed True, sample_outbox\<lparr>db_webhooks := [retried_delivery]\<rparr>)"
  by (simp add: settle_attempt_def sample_result_def delivered_def is_terminal_def next_attempt_at_def retry_delay_def
    webhook_delivery.truncate_def sample_delivery_def new_webhook_row_def delivery_id_of_def str_def utf8_encode_def
    surrogate_def utf8_bytes_def retry_base_def RETRY_SCHEDULE_SECONDS_def retry_jitter_def timedelta_seconds_def Let_def
    record_webhook_attempt_sync_def sample_outbox_def pending_def update_where_def retried_delivery_def decimal_def digits_rev.simps)

theorem retries_keep_distance_witness:
  "\<exists>u. wd_next_attempt_at retried_delivery = Some u \<and> 7 + 4000000 \<le> u \<and> u \<le> 7 + 103680000000"
proof -
  have ids: "wd_id (webhook_delivery.truncate sample_delivery) = str ''wh_1''"
    by (simp add: webhook_delivery.truncate_def sample_delivery_def new_webhook_row_def delivery_id_of_def str_def)
  obtain rq where "send_budgeted_request sample_hmac sample_resolver Map.empty Map.empty sample_url False sample_budget
      sample_exchange (wd_id (webhook_delivery.truncate sample_delivery)) [123, 125] [[1, 2, 3]] 7 = (Some rq, Inr sample_result)"
    unfolding ids using sample_send by blast
  then have sent: "snd (send_budgeted_request sample_hmac sample_resolver Map.empty Map.empty sample_url False sample_budget
      sample_exchange (wd_id (webhook_delivery.truncate sample_delivery)) [123, 125] [[1, 2, 3]] 7) = Inr sample_result" by simp
  show ?thesis
    by (rule retries_keep_distance [OF sent sample_settle])
      (simp_all add: retried_delivery_def sample_outbox_def sample_delivery_def new_webhook_row_def pending_def
        webhook_delivery.truncate_def)
qed

subsection \<open>Destinations\<close>

lemma collect_addresses_sound:
  "collect_addresses any_target ips found = Inr out \<Longrightarrow>
     (\<forall>a\<in>set out. a \<in> set found \<or> (\<exists>ip. Some ip \<in> set ips \<and> a = ip_text ip)) \<and>
     (\<forall>ip. Some ip \<in> set ips \<longrightarrow> any_target \<or> ip_is_global ip) \<and> None \<notin> set ips \<and> (ips \<noteq> [] \<or> found \<noteq> [] \<longrightarrow> out \<noteq> [])"
  by (induction any_target ips found rule: collect_addresses.induct) (auto split: if_splits)

lemma resolve_target_sound:
  assumes "resolve_target rv pu priv = Inr tg"
  obtains host addresses where "pu_hostname pu = Inr (Some host)" "url_acceptable pu (Some host)"
    "rv_idna rv host = Some (tg_hostname tg)" "rv_getaddrinfo rv (tg_hostname tg) (tg_port tg) = Inr addresses"
    "\<exists>ip. Some ip \<in> set addresses \<and> tg_address tg = ip_text ip"
    "\<forall>ip. Some ip \<in> set addresses \<longrightarrow> is_loopback (Some host) \<or> priv \<or> ip_is_global ip" "tg_scheme tg = pu_scheme pu"
proof -
  obtain hostname port where hp: "pu_hostname pu = Inr hostname" "pu_port pu = Inr port" "url_acceptable pu hostname"
    using assms by (auto simp: resolve_target_def split: sum.splits if_splits)
  then obtain host where host: "hostname = Some host" by (auto simp: url_acceptable_def)
  then obtain ascii addresses out rp where r: "rv_idna rv host = Some ascii" "rv_getaddrinfo rv ascii rp = Inr addresses"
    "collect_addresses (is_loopback hostname \<or> priv) addresses [] = Inr out" "addresses \<noteq> []"
    "tg_hostname tg = ascii" "tg_port tg = rp" "tg_address tg = hd out" "tg_scheme tg = pu_scheme pu"
    using assms hp by (auto simp: resolve_target_def Let_def split: option.splits sum.splits if_splits)
  note c = collect_addresses_sound [OF r(3)]
  then have "hd out \<in> set out" using r(4) by simp
  then show ?thesis using c r hp host that by auto
qed

text \<open>
  C38. whatever happens on the network, a request goes out only to a URL without credentials, query or
  fragment, over HTTPS unless its host is a loopback name, and to an address the resolver gave for that
  host; unless the host is a loopback name or private targets are allowed, every address the resolver
  gave is a global one.
\<close>

theorem requests_respect_policy:
  assumes "fst (send_budgeted_request hmac rv to_float to_date pu priv b ex did payload secrets t) = Some rq"
  shows "\<exists>host addresses. pu_hostname pu = Inr (Some host) \<and> pu_username pu = None \<and> pu_password pu = None \<and>
    pu_query pu = [] \<and> pu_fragment pu = [] \<and>
    (tg_scheme (rq_target rq) = str ''https'' \<or> tg_scheme (rq_target rq) = str ''http'' \<and> is_loopback (Some host)) \<and>
    rv_getaddrinfo rv (tg_hostname (rq_target rq)) (tg_port (rq_target rq)) = Inr addresses \<and>
    (\<exists>ip. Some ip \<in> set addresses \<and> tg_address (rq_target rq) = ip_text ip) \<and>
    (is_loopback (Some host) \<or> priv \<or> (\<forall>ip. Some ip \<in> set addresses \<longrightarrow> ip_is_global ip))"
proof -
  have "resolve_target rv pu priv = Inr (rq_target rq)"
    using assms by (auto simp: send_budgeted_request_def prepare_request_def Let_def split: sum.splits option.splits)
  then obtain host addresses where h: "pu_hostname pu = Inr (Some host)" "url_acceptable pu (Some host)"
    "rv_getaddrinfo rv (tg_hostname (rq_target rq)) (tg_port (rq_target rq)) = Inr addresses"
    "\<exists>ip. Some ip \<in> set addresses \<and> tg_address (rq_target rq) = ip_text ip"
    "\<forall>ip. Some ip \<in> set addresses \<longrightarrow> is_loopback (Some host) \<or> priv \<or> ip_is_global ip"
    "tg_scheme (rq_target rq) = pu_scheme pu"
    by (rule resolve_target_sound)
  show ?thesis
    by (rule exI [of _ host], rule exI [of _ addresses]) (use h in \<open>auto simp: url_acceptable_def\<close>)
qed

theorem requests_respect_policy_witness:
  "\<exists>rq. fst (send_budgeted_request sample_hmac sample_resolver Map.empty Map.empty sample_url False sample_budget sample_exchange
     (str ''wh_1'') [123, 125] [[1, 2, 3]] 7) = Some rq \<and> tg_scheme (rq_target rq) = str ''https''"
proof -
  obtain rq where "fst (send_budgeted_request sample_hmac sample_resolver Map.empty Map.empty sample_url False sample_budget
      sample_exchange (str ''wh_1'') [123, 125] [[1, 2, 3]] 7) = Some rq" using sample_send by fastforce
  with requests_respect_policy [OF this] show ?thesis
    by (auto simp: sample_url_def is_loopback_def LOOPBACK_NAMES_def ascii_lower_def upper_def str_def)
qed

subsection \<open>Signatures\<close>

lemma b64_char_not_space [simp]: "b64_char n \<noteq> 32"
  by (simp add: b64_char_def, arith)

lemma b64encode_no_space: "32 \<notin> set (b64encode bs)"
  by (induction bs rule: b64encode.induct) (simp_all add: eq_commute [of 32])

lemma split_space_token: "32 \<notin> set x \<Longrightarrow> split_space x = [x]"
  by (induction x) auto

lemma split_space_append: "32 \<notin> set x \<Longrightarrow> split_space (x @ 32 # rest) = x # split_space rest"
  by (induction x) auto

lemma split_join_space: "xs \<noteq> [] \<Longrightarrow> \<forall>x\<in>set xs. 32 \<notin> set x \<Longrightarrow> split_space (join_space xs) = xs"
  by (induction xs rule: join_space.induct) (simp_all add: split_space_token split_space_append)

text \<open>
  C34. splitting the signature header of a request at its spaces gives one token for each signing secret
  in order, \<open>v1,\<close> followed by base64 that decodes to the HMAC of the id, the timestamp header and the
  body under that secret: a receiver that knows any one of the secrets can verify the request.
\<close>

theorem signature_verifies:
  assumes "fst (send_budgeted_request hmac rv to_float to_date pu priv b ex did payload secrets t) = Some rq"
    and "\<And>secret content. list_all (\<lambda>byte. byte < 256) (hmac secret content)" and "secrets \<noteq> []"
  shows "\<exists>signature timestamp. (''webhook-signature'', signature) \<in> set (rq_headers rq) \<and>
    (''webhook-timestamp'', timestamp) \<in> set (rq_headers rq) \<and>
    list_all2 (\<lambda>token secret. take 3 token = str ''v1,'' \<and>
        b64decode (drop 3 token) = Some (hmac secret (did @ 46 # timestamp @ 46 # rq_body rq)))
      (split_space signature) secrets"
proof -
  let ?time = "timestamp_seconds t"
  obtain signature where sig: "sign_webhook hmac did ?time payload secrets = Some signature"
    and rq: "(''webhook-signature'', signature) \<in> set (rq_headers rq)" "(''webhook-timestamp'', decimal ?time) \<in> set (rq_headers rq)"
      "rq_body rq = payload"
    using assms(1) by (auto simp: send_budgeted_request_def prepare_request_def Let_def split: sum.splits option.splits)
  let ?content = "did @ 46 # decimal ?time @ 46 # payload"
  have "signature = join_space (map (signature_of hmac ?content) secrets)"
    using sig by (auto simp: sign_webhook_def signed_content_def ascii_encode_def split: if_splits)
  moreover have "\<forall>token\<in>set (map (signature_of hmac ?content) secrets). 32 \<notin> set token"
    by (simp add: signature_of_def str_def b64encode_no_space)
  ultimately have "split_space signature = map (signature_of hmac ?content) secrets"
    using assms(3) by (simp add: split_join_space)
  moreover have "take 3 (signature_of hmac ?content secret) = str ''v1,'' \<and>
      b64decode (drop 3 (signature_of hmac ?content secret)) = Some (hmac secret ?content)" for secret
    using assms(2) by (simp add: signature_of_def str_def b64_roundtrip)
  ultimately show ?thesis using rq
    by (intro exI [of _ signature] exI [of _ "decimal ?time"]) (auto simp: list_all2_conv_all_nth)
qed

theorem signature_verifies_witness:
  "\<exists>(rq :: request) signature timestamp. (''webhook-signature'', signature) \<in> set (rq_headers rq) \<and>
     b64decode (drop 3 (hd (split_space signature))) = Some (sample_hmac [1, 2, 3] (str ''wh_1'' @ 46 # timestamp @ 46 # rq_body rq))"
proof -
  obtain rq where rq: "fst (send_budgeted_request sample_hmac sample_resolver Map.empty Map.empty sample_url False sample_budget
      sample_exchange (str ''wh_1'') [123, 125] [[1, 2, 3]] 7) = Some rq" using sample_send by fastforce
  have "list_all (\<lambda>byte. byte < 256) (sample_hmac secret content)" for secret content
    by (auto simp: sample_hmac_def list_all_iff)
  from signature_verifies [OF rq this not_Cons_self2] obtain signature timestamp where
    s: "(''webhook-signature'', signature) \<in> set (rq_headers rq)"
    "list_all2 (\<lambda>token secret. take 3 token = str ''v1,'' \<and>
        b64decode (drop 3 token) = Some (sample_hmac secret (str ''wh_1'' @ 46 # timestamp @ 46 # rq_body rq)))
      (split_space signature) [[1, 2, 3]]" by blast
  then show ?thesis by (intro exI [of _ rq] exI [of _ signature] exI [of _ timestamp]) (auto simp: list_all2_Cons2)
qed

subsection \<open>The transport\<close>

text \<open>
  C37. in every interleaving of callers, the worker thread and \<open>close\<close>, putting work or the stop marker
  on the one-place queue never finds it full; a worker that has gone left no work behind, and the worker
  of a closed transport always finds something to end on.
\<close>

theorem transport_single_slot:
  assumes "transport_steps BoundedTransport tp"
  shows "length (tp_queue tp) \<le> 1 \<and> fst (run_begin b started tp) \<noteq> Inl QueueFull \<and> (\<exists>tp'. close tp = Inr tp') \<and>
    (tp_worker tp = Exited \<longrightarrow> tp_active tp = None) \<and>
    (tp_closed tp \<and> tp_worker tp = Waiting \<longrightarrow> tp_queue tp \<noteq> [])"
proof -
  have inv: "slot_inv tp" by (rule transport_steps_inv [OF assms slot_inv_start])
  have "tp_active tp = None" if "tp_worker tp = Exited"
  proof (cases "tp_active tp")
    case (Some w)
    then show ?thesis using inv that unfolding slot_inv_def by auto
  qed
  then show ?thesis using inv run_begin_fits(1) [OF inv] close_fits [OF inv] unfolding slot_inv_def by blast
qed

lemma sample_transport_steps:
  "\<exists>tp. transport_steps BoundedTransport tp \<and> tp_active tp = Some 0 \<and> length (tp_works tp) = 1 \<and> tp_closed (tp :: int transport)"
proof -
  have start: "transport_steps BoundedTransport (BoundedTransport :: int transport)" by (rule steps_refl)
  obtain r tp1 where run: "run_begin sample_budget True (BoundedTransport :: int transport) = (r, tp1)" by (meson surj_pair)
  have one: "transport_steps BoundedTransport tp1"
    by (rule steps_move [OF start step_run [OF _ run]]) (simp add: sample_budget_def)
  obtain tp2 where cl: "close tp1 = Inr tp2"
    using close_fits [OF transport_steps_inv [OF one slot_inv_start]] by blast
  have "transport_steps BoundedTransport tp2" by (rule steps_move [OF one step_close [OF cl]])
  moreover have "tp_active tp2 = Some 0 \<and> length (tp_works tp2) = 1 \<and> tp_closed tp2"
    using run cl by (auto simp: run_begin_def BoundedTransport_def put_nowait_def close_def Let_def)
  ultimately show ?thesis by blast
qed

theorem transport_single_slot_witness:
  "\<exists>tp :: int transport. tp_closed tp \<and> tp_active tp = Some 0 \<and> length (tp_queue tp) \<le> 1"
  using sample_transport_steps transport_single_slot by blast



end
