(* ===== verification/App_Core.thy ===== *)
theory App_Core
  imports Store_System Auth Rate_Limits
begin

section \<open>Requests, guards and errors (app.py)\<close>

text \<open>
  What the handlers of \<open>samsarix_chat_engine/app.py\<close> share: the public error, the state of an
  application with SQLite storage (the database and the four in-process limiters), the effects a handler
  leaves to the connection manager and the webhook dispatcher, and the guards every handler starts with.
  A handler is an action on the state: it answers or raises, and its state and effects are kept either
  way, since a handler that raises does not undo what it did before. The error envelope is its status
  and code. Handlers are taken one after the other; the clock readings and ids of the store operation
  are its \<open>env\<close>, the limiter's monotonic clock and the clock of the moderation guard are arguments.
\<close>

datatype api_error = APIError int string | ServerError store_error

datatype app_event =
    RoomArchivedEvent room | RoomFrozenEvent room | RoomUnfrozenEvent room
  | MessageCreatedEvent message | MessageUpdatedEvent message | MessageDeletedEvent message
  | ReactionEvent reaction_mutation | PinEvent pin_mutation | ReadUpdatedEvent read_receipt
  | MemberBannedEvent pystr timestamp

text \<open>
  \<open>CloseMember\<close> also announces \<open>presence.left\<close> when it closed a socket. A broadcast may ask for a
  permission of its receivers.
\<close>

datatype effect =
    Broadcast pystr app_event "string option" | CloseRoom pystr app_event | CloseMember pystr pystr app_event
  | WakeDispatcher

record app_settings =
  st_store :: store_config
  st_max_message_chars :: nat
  st_webhooks :: bool
  st_messages_limit :: limiter
  st_searches_limit :: limiter
  st_reads_limit :: limiter
  st_nfkc_casefold :: "pystr \<Rightarrow> pystr"
  st_julianday :: "timestamp \<Rightarrow> int"

record app =
  ap_db :: db
  ap_messages :: events
  ap_searches :: events
  ap_reads :: events

type_synonym 'a action = "app \<Rightarrow> (api_error + 'a) \<times> app \<times> effect list"

definition act_return :: "'a \<Rightarrow> 'a action" where
  "act_return v app = (Inr v, app, [])"

definition act_raise :: "api_error \<Rightarrow> 'a action" where
  "act_raise e app = (Inl e, app, [])"

definition act_emit :: "effect list \<Rightarrow> unit action" where
  "act_emit fx app = (Inr (), app, fx)"

definition act_bind :: "'a action \<Rightarrow> ('a \<Rightarrow> 'b action) \<Rightarrow> 'b action" where
  "act_bind m f app = (case m app of
     (Inl e, app1, fx) \<Rightarrow> (Inl e, app1, fx)
   | (Inr v, app1, fx) \<Rightarrow> (case f v app1 of (r, app2, fx2) \<Rightarrow> (r, app2, fx @ fx2)))"

definition act_check :: "bool \<Rightarrow> int \<Rightarrow> string \<Rightarrow> unit action" where
  "act_check b status code = (if b then act_return () else act_raise (APIError status code))"

subsection \<open>Storage calls\<close>

text \<open>
  A store error the handler names becomes its \<open>APIError\<close>; a \<open>sqlite3.Error\<close> is answered with 503 by the
  application's exception handler, every other one is a server error.
\<close>

definition map_error :: "(store_error \<Rightarrow> (int \<times> string) option) \<Rightarrow> store_error \<Rightarrow> api_error" where
  "map_error named e = (case named e of
     Some (status, code) \<Rightarrow> APIError status code
   | None \<Rightarrow> (case e of IntegrityError \<Rightarrow> APIError 503 ''storage_unavailable'' | _ \<Rightarrow> ServerError e))"

definition reading :: "(store_error \<Rightarrow> (int \<times> string) option) \<Rightarrow> (db \<Rightarrow> store_error + 'a) \<Rightarrow> 'a action" where
  "reading named op app = (case op (ap_db app) of
     Inl e \<Rightarrow> (Inl (map_error named e), app, []) | Inr v \<Rightarrow> (Inr v, app, []))"

definition storing :: "(store_error \<Rightarrow> (int \<times> string) option) \<Rightarrow> (db \<Rightarrow> store_error + 'a \<times> db) \<Rightarrow> 'a action" where
  "storing named op app = (case op (ap_db app) of
     Inl e \<Rightarrow> (Inl (map_error named e), app, []) | Inr (v, d) \<Rightarrow> (Inr v, app\<lparr>ap_db := d\<rparr>, []))"

definition no_error :: "store_error \<Rightarrow> (int \<times> string) option" where
  "no_error e = None"

subsection \<open>Credentials\<close>

text \<open>\<open>str.partition(" ")\<close> at the first space; the scheme is compared in lower case.\<close>

definition bearer_from_headers :: "pystr option \<Rightarrow> pystr option" where
  "bearer_from_headers header =
     (let authorization = (case header of None \<Rightarrow> [] | Some h \<Rightarrow> h);
          scheme = takeWhile (\<lambda>c. c \<noteq> 32) authorization;
          value = drop (length scheme + 1) authorization in
      if map (\<lambda>c. if upper c then c + 32 else c) scheme = str ''bearer'' \<and> value \<noteq> [] then Some value else None)"

text \<open>
  \<open>_authenticate_credentials\<close>: \<open>verify\<close> is the token verifier, if one is configured. Encoding an
  operator credential that is not valid Unicode raises: \<open>None\<close>.
\<close>

definition authenticate_credentials ::
  "pystr option \<Rightarrow> (pystr \<Rightarrow> auth_error + principal) option \<Rightarrow> pystr option \<Rightarrow> pystr option \<Rightarrow>
     (auth_error + principal) option" where
  "authenticate_credentials configured_key verify api_key bearer =
     (if configured_key = None \<and> verify = None then Some (Inr local_operator)
      else (let operator_credential = (if truthy api_key then api_key else bearer) in
        case credentials_match operator_credential configured_key of
          None \<Rightarrow> None
        | Some True \<Rightarrow> Some (Inr api_key_operator)
        | Some False \<Rightarrow> (case (bearer, verify) of
            (Some token, Some v) \<Rightarrow> Some (v token) | _ \<Rightarrow> Some (Inl AuthenticationError))))"

subsection \<open>Guards\<close>

definition audit_actor :: "principal \<Rightarrow> pystr" where
  "audit_actor p = (case subject p of Some s \<Rightarrow> s
     | None \<Rightarrow> if authentication p = ApiKey then str ''operator-api-key'' else str ''local-operator'')"

definition authorize :: "principal \<Rightarrow> string \<Rightarrow> pystr option \<Rightarrow> unit action" where
  "authorize p permission room_id = act_check (allows p (str permission) room_id) 403 ''authorization_denied''"

definition stable_subject :: "principal \<Rightarrow> pystr action" where
  "stable_subject p = (case subject p of None \<Rightarrow> act_raise (APIError 403 ''stable_subject_required'') | Some s \<Rightarrow> act_return s)"

definition after :: "timestamp \<Rightarrow> timestamp option \<Rightarrow> bool" where
  "after now until = (case until of None \<Rightarrow> False | Some t \<Rightarrow> now < t)"

definition enforce_member_access :: "timestamp \<Rightarrow> principal \<Rightarrow> pystr \<Rightarrow> bool \<Rightarrow> unit action" where
  "enforce_member_access now p room_id write app =
     (if is_admin p then (Inr (), app, [])
      else (case subject p of
        None \<Rightarrow> (Inr (), app, [])
      | Some s \<Rightarrow> (case get_member_moderation (ap_db app) room_id s of
          None \<Rightarrow> (Inr (), app, [])
        | Some moderation \<Rightarrow>
            (if after now (mod_banned_until moderation) then (Inl (APIError 403 ''room_banned''), app, [])
             else if write \<and> after now (mod_muted_until moderation) then (Inl (APIError 403 ''room_muted''), app, [])
             else (Inr (), app, [])))))"

definition rate_subject :: "principal \<Rightarrow> pystr \<Rightarrow> pystr" where
  "rate_subject p client = (if truthy (subject p) then the (subject p) else client)"

datatype which_limiter = MessageLimiter | SearchLimiter | ReadStateLimiter

definition rate_limited :: "app_settings \<Rightarrow> which_limiter \<Rightarrow> int \<Rightarrow> pystr \<Rightarrow> string \<Rightarrow> unit action" where
  "rate_limited st which clk key code app =
     (let (b, app') = (case which of
          MessageLimiter \<Rightarrow> map_prod id (\<lambda>ev. app\<lparr>ap_messages := ev\<rparr>) (allow (st_messages_limit st) clk key (ap_messages app))
        | SearchLimiter \<Rightarrow> map_prod id (\<lambda>ev. app\<lparr>ap_searches := ev\<rparr>) (allow (st_searches_limit st) clk key (ap_searches app))
        | ReadStateLimiter \<Rightarrow> map_prod id (\<lambda>ev. app\<lparr>ap_reads := ev\<rparr>) (allow (st_reads_limit st) clk key (ap_reads app))) in
      (if b then Inr () else Inl (APIError 429 code), app', []))"

text \<open>
  The actor a payload names must be the token's subject; operators must name one. \<open>code\<close> is the error
  when nobody is named.
\<close>

definition bound_actor :: "principal \<Rightarrow> pystr option \<Rightarrow> string \<Rightarrow> pystr action" where
  "bound_actor p named code = (case subject p of
     Some s \<Rightarrow> (if named \<noteq> None \<and> named \<noteq> Some s then act_raise (APIError 403 ''identity_mismatch'') else act_return s)
   | None \<Rightarrow> (case named of None \<Rightarrow> act_raise (APIError 422 code) | Some n \<Rightarrow> act_return n))"

definition member_subject_of :: "principal \<Rightarrow> pystr option" where
  "member_subject_of p = (if is_admin p then None else subject p)"

definition wake :: "app_settings \<Rightarrow> effect list" where
  "wake st = (if st_webhooks st then [WakeDispatcher] else [])"

end
