(* ===== verification/App_Http.thy ===== *)
theory App_Http
  imports App_Core
begin

section \<open>The HTTP handlers (app.py)\<close>

text \<open>
  Every route of the \<open>/v1\<close> router of \<open>samsarix_chat_engine/app.py\<close>, for an application with SQLite
  storage. A handler gets the authenticated principal, the parameters of the route as FastAPI parsed
  them, and a request record with the store operation's clock and ids, the limiter's clock, the clock of
  the moderation guard and the client's address. Parameters out of their declared range are answered
  with 422 before the handler's body.
\<close>

record request_context =
  cx_env :: env
  cx_now :: timestamp
  cx_clock :: int
  cx_client :: pystr

definition validated :: "string + 'p \<Rightarrow> ('p \<Rightarrow> 'a action) \<Rightarrow> 'a action" where
  "validated r f = (case r of Inl _ \<Rightarrow> act_raise (APIError 422 ''invalid_request'') | Inr p \<Rightarrow> f p)"

definition page_query :: "nat \<Rightarrow> pystr option \<Rightarrow> unit action" where
  "page_query limit before = act_check (1 \<le> limit \<and> limit \<le> 100 \<and>
     (case before of None \<Rightarrow> True | Some b \<Rightarrow> 1 \<le> length b \<and> length b \<le> 128)) 422 ''invalid_request''"

definition id_path :: "nat \<Rightarrow> pystr \<Rightarrow> unit action" where
  "id_path n i = act_check (1 \<le> length i \<and> length i \<le> n) 422 ''invalid_request''"

text \<open>Errors several handlers answer alike.\<close>

fun room_errors :: "store_error \<Rightarrow> (int \<times> string) option" where
  "room_errors (RoomNotFoundError _) = Some (404, ''room_not_found'')"
| "room_errors _ = None"

fun page_errors :: "store_error \<Rightarrow> (int \<times> string) option" where
  "page_errors (InvalidCursorError _) = Some (400, ''invalid_cursor'')"
| "page_errors e = room_errors e"

fun write_errors :: "store_error \<Rightarrow> (int \<times> string) option" where
  "write_errors (RoomArchivedError _) = Some (409, ''room_archived'')"
| "write_errors (RoomFrozenError _) = Some (409, ''room_frozen'')"
| "write_errors (MemberBannedError _) = Some (403, ''room_banned'')"
| "write_errors (MemberMutedError _) = Some (403, ''room_muted'')"
| "write_errors WebhookCapacityError = Some (507, ''webhook_capacity_reached'')"
| "write_errors e = room_errors e"

subsection \<open>Rooms\<close>

fun create_room_errors :: "store_error \<Rightarrow> (int \<times> string) option" where
  "create_room_errors (RoomAlreadyExistsError _) = Some (409, ''room_already_exists'')"
| "create_room_errors RoomCapacityError = Some (507, ''room_capacity_reached'')"
| "create_room_errors _ = None"

definition post_room :: "app_settings \<Rightarrow> request_context \<Rightarrow> principal \<Rightarrow> room_create \<Rightarrow> room action" where
  "post_room st cx p raw = validated (RoomCreate raw) (\<lambda>payload.
     act_bind (authorize p ''admin'' None) (\<lambda>_.
     storing create_room_errors (create_room (st_store st) (cx_env cx) payload (audit_actor p))))"

definition get_rooms :: "principal \<Rightarrow> nat \<Rightarrow> room list action" where
  "get_rooms p limit = act_bind (page_query limit None) (\<lambda>_.
     act_bind (authorize p ''admin'' None) (\<lambda>_. reading no_error (\<lambda>d. Inr (list_rooms limit d))))"

definition read_room :: "request_context \<Rightarrow> principal \<Rightarrow> pystr \<Rightarrow> room action" where
  "read_room cx p room_id = act_bind (authorize p ''room:read'' (Some room_id)) (\<lambda>_.
     act_bind (reading no_error (\<lambda>d. Inr (get_room d room_id))) (\<lambda>room. case room of
       None \<Rightarrow> act_raise (APIError 404 ''room_not_found'')
     | Some r \<Rightarrow> act_bind (enforce_member_access (cx_now cx) p room_id False) (\<lambda>_. act_return r)))"

definition patch_room :: "app_settings \<Rightarrow> request_context \<Rightarrow> principal \<Rightarrow> pystr \<Rightarrow> room_update \<Rightarrow> room action" where
  "patch_room st cx p room_id raw = validated (RoomUpdate raw) (\<lambda>payload.
     act_bind (authorize p ''admin'' None) (\<lambda>_.
     act_bind (storing room_errors (set_room_state_sync (st_store st) (cx_env cx) room_id (ru_archived payload)
         (ru_frozen payload) (audit_actor p))) (\<lambda>(room, changes).
     act_bind (act_emit
       (if ''archived'' \<in> set changes \<and> ru_archived payload = Some True then [CloseRoom room_id (RoomArchivedEvent room)]
        else if ''frozen'' \<in> set changes
        then [Broadcast room_id (if ru_frozen payload = Some True then RoomFrozenEvent room else RoomUnfrozenEvent room) None]
        else [])) (\<lambda>_. act_return room))))"

fun delete_room_errors :: "store_error \<Rightarrow> (int \<times> string) option" where
  "delete_room_errors (RoomNotArchivedError _) = Some (409, ''room_not_archived'')"
| "delete_room_errors e = room_errors e"

definition remove_room :: "app_settings \<Rightarrow> request_context \<Rightarrow> principal \<Rightarrow> pystr \<Rightarrow> pystr option \<Rightarrow> unit action" where
  "remove_room st cx p room_id confirmation =
     act_bind (act_check (case confirmation of None \<Rightarrow> True | Some c \<Rightarrow> length c \<le> 64) 422 ''invalid_request'') (\<lambda>_.
     act_bind (authorize p ''admin'' None) (\<lambda>_.
     act_bind (act_check (confirmation = Some room_id) 400 ''deletion_confirmation_required'') (\<lambda>_.
     act_bind (storing delete_room_errors (delete_room_sync (st_store st) (cx_env cx) room_id (audit_actor p)))
       (\<lambda>_. act_return ()))))"

text \<open>
  The export: the request is audited before the first line is produced; the messages are those of the
  room in order, which the code streams from one read transaction, so a row the model class refuses
  ends the stream after the answer has begun.
\<close>

definition export_room ::
  "app_settings \<Rightarrow> request_context \<Rightarrow> principal \<Rightarrow> pystr \<Rightarrow> (room \<times> (store_error + message list)) action" where
  "export_room st cx p room_id = act_bind (authorize p ''admin'' None) (\<lambda>_.
     act_bind (reading no_error (\<lambda>d. Inr (get_room d room_id))) (\<lambda>room. case room of
       None \<Rightarrow> act_raise (APIError 404 ''room_not_found'')
     | Some r \<Rightarrow> act_bind (storing room_errors (record_export_requested_sync (st_store st) (cx_env cx) room_id (audit_actor p)))
         (\<lambda>_. act_bind (reading no_error (\<lambda>d. Inr (res_all message_from_row (order_by message_key (room_messages d room_id)))))
           (\<lambda>messages. act_return (r, messages)))))"

subsection \<open>Listings\<close>

definition readable :: "request_context \<Rightarrow> principal \<Rightarrow> pystr \<Rightarrow> unit action" where
  "readable cx p room_id = act_bind (authorize p ''room:read'' (Some room_id)) (\<lambda>_.
     enforce_member_access (cx_now cx) p room_id False)"

type_synonym message_page = "message list \<times> pystr option"

definition get_messages ::
  "request_context \<Rightarrow> principal \<Rightarrow> pystr \<Rightarrow> nat \<Rightarrow> pystr option \<Rightarrow> message_page action" where
  "get_messages cx p room_id limit before = act_bind (page_query limit before) (\<lambda>_. act_bind (readable cx p room_id) (\<lambda>_.
     reading page_errors (list_messages_sync room_id limit before)))"

definition get_pins ::
  "request_context \<Rightarrow> principal \<Rightarrow> pystr \<Rightarrow> nat \<Rightarrow> pystr option \<Rightarrow> message_page action" where
  "get_pins cx p room_id limit before = act_bind (page_query limit before) (\<lambda>_. act_bind (readable cx p room_id) (\<lambda>_.
     reading page_errors (list_pinned_messages_sync room_id limit before)))"

definition get_search ::
  "app_settings \<Rightarrow> request_context \<Rightarrow> principal \<Rightarrow> pystr \<Rightarrow> pystr \<Rightarrow> nat \<Rightarrow> pystr option \<Rightarrow> message_page action" where
  "get_search st cx p room_id q limit before = act_bind (id_path 100 q) (\<lambda>_. act_bind (page_query limit before) (\<lambda>_.
     act_bind (readable cx p room_id) (\<lambda>_.
     case normalize_search_query (st_nfkc_casefold st) q of
       Inl _ \<Rightarrow> act_raise (APIError 422 ''invalid_search_query'')
     | Inr normalized \<Rightarrow>
         act_bind (rate_limited st SearchLimiter (cx_clock cx) (str ''search:'' @ rate_subject p (cx_client cx))
           ''search_rate_limit_exceeded'') (\<lambda>_.
         reading page_errors (search_messages_sync (st_nfkc_casefold st) room_id normalized limit before)))))"

fun replies_errors :: "store_error \<Rightarrow> (int \<times> string) option" where
  "replies_errors (MessageNotFoundError _) = Some (404, ''parent_message_not_found'')"
| "replies_errors (ThreadDepthError _) = Some (409, ''thread_depth_exceeded'')"
| "replies_errors e = page_errors e"

definition get_replies ::
  "request_context \<Rightarrow> principal \<Rightarrow> pystr \<Rightarrow> pystr \<Rightarrow> nat \<Rightarrow> pystr option \<Rightarrow> message_page action" where
  "get_replies cx p room_id parent limit before = act_bind (id_path 128 parent) (\<lambda>_. act_bind (page_query limit before) (\<lambda>_.
     act_bind (readable cx p room_id) (\<lambda>_. reading replies_errors (list_replies_sync room_id parent limit before))))"

subsection \<open>Read state\<close>

definition fetch_read_state :: "request_context \<Rightarrow> principal \<Rightarrow> pystr \<Rightarrow> read_state action" where
  "fetch_read_state cx p room_id = act_bind (readable cx p room_id) (\<lambda>_.
     act_bind (stable_subject p) (\<lambda>s. reading room_errors (get_read_state_sync room_id s)))"

fun authorize_rooms :: "principal \<Rightarrow> pystr list \<Rightarrow> unit action" where
  "authorize_rooms p [] = act_return ()"
| "authorize_rooms p (r # rs) = act_bind (authorize p ''room:read'' (Some r)) (\<lambda>_. authorize_rooms p rs)"

fun read_query_errors :: "store_error \<Rightarrow> (int \<times> string) option" where
  "read_query_errors (MemberBannedError _) = Some (403, ''room_banned'')"
| "read_query_errors e = room_errors e"

text \<open>The answer: the items, their total unread count and the number of rooms with unread messages.\<close>

definition post_read_state_query ::
  "app_settings \<Rightarrow> request_context \<Rightarrow> principal \<Rightarrow> pystr list \<Rightarrow> (pystr \<times> read_state_summary list \<times> nat \<times> nat) action" where
  "post_read_state_query st cx p raw = validated (validate_read_state_query_room_ids (map py_strip raw)) (\<lambda>room_ids.
     act_bind (stable_subject p) (\<lambda>s. act_bind (authorize_rooms p room_ids) (\<lambda>_.
     act_bind (rate_limited st ReadStateLimiter (cx_clock cx) (str ''read-state-query:'' @ s)
       ''read_state_query_rate_limit_exceeded'') (\<lambda>_.
     act_bind (reading read_query_errors (query_read_states (st_julianday st) (now_op (cx_env cx)) room_ids s)) (\<lambda>items.
     act_return (s, items, sum_list (map sum_unread_count items),
       length (filter (\<lambda>i. 0 < sum_unread_count i) items)))))))"

definition post_read_receipt_query ::
  "app_settings \<Rightarrow> request_context \<Rightarrow> principal \<Rightarrow> pystr \<Rightarrow> json \<Rightarrow> (pystr \<times> read_receipt list) action" where
  "post_read_receipt_query st cx p room_id raw = validated (validate_read_receipt_query_subjects raw) (\<lambda>subjects.
     act_bind (authorize p ''room:read'' (Some room_id)) (\<lambda>_. act_bind (authorize p ''room:read-receipts'' (Some room_id)) (\<lambda>_.
     act_bind (enforce_member_access (cx_now cx) p room_id False) (\<lambda>_.
     act_bind (rate_limited st ReadStateLimiter (cx_clock cx) (str ''read-receipt-query:'' @ rate_subject p (cx_client cx))
       ''read_receipt_query_rate_limit_exceeded'') (\<lambda>_.
     act_bind (reading room_errors (query_read_receipts_sync room_id subjects)) (\<lambda>items.
     act_return (room_id, items)))))))"

fun mark_read_errors :: "store_error \<Rightarrow> (int \<times> string) option" where
  "mark_read_errors (MessageNotFoundError _) = Some (404, ''message_not_found'')"
| "mark_read_errors (ReadStateCapacityError _) = Some (507, ''read_state_capacity_reached'')"
| "mark_read_errors e = room_errors e"

definition put_read_state ::
  "app_settings \<Rightarrow> request_context \<Rightarrow> principal \<Rightarrow> pystr \<Rightarrow> pystr option \<Rightarrow> read_state action" where
  "put_read_state st cx p room_id raw = validated (opt_field (str_field 1 128) raw) (\<lambda>message_id.
     act_bind (readable cx p room_id) (\<lambda>_. act_bind (stable_subject p) (\<lambda>s.
     act_bind (rate_limited st ReadStateLimiter (cx_clock cx) (str ''read-receipt-update:'' @ s)
       ''read_receipt_update_rate_limit_exceeded'') (\<lambda>_.
     act_bind (storing mark_read_errors (mark_read_sync (st_store st) (cx_env cx) room_id s message_id)) (\<lambda>mutation.
     act_bind (act_emit (if rsm_changed mutation
         then [Broadcast room_id (ReadUpdatedEvent (rsm_receipt mutation)) (Some ''room:read-receipts'')] else [])) (\<lambda>_.
     act_return (rsm_state mutation)))))))"

definition delete_read_state :: "app_settings \<Rightarrow> request_context \<Rightarrow> principal \<Rightarrow> pystr \<Rightarrow> unit action" where
  "delete_read_state st cx p room_id = act_bind (readable cx p room_id) (\<lambda>_. act_bind (stable_subject p) (\<lambda>s.
     act_bind (rate_limited st ReadStateLimiter (cx_clock cx) (str ''read-receipt-update:'' @ s)
       ''read_receipt_update_rate_limit_exceeded'') (\<lambda>_.
     act_bind (storing room_errors (clear_read_state_sync room_id s)) (\<lambda>changed.
     act_emit (if changed
       then [Broadcast room_id (ReadUpdatedEvent \<lparr>rr_subject = s, rr_last_read_message_id = None,
         rr_last_read_message_at = None, rr_last_read_at = None\<rparr>) (Some ''room:read-receipts'')] else [])))))"

end
