(* ===== verification/App_Messages.thy ===== *)
theory App_Messages
  imports App_Http
begin

section \<open>The message, moderation and operator handlers (app.py)\<close>

text \<open>
  The mutating message routes, member moderation and the operator routes of
  \<open>samsarix_chat_engine/app.py\<close>, and \<open>handle\<close>, which dispatches a call to its handler and forgets the
  answer's body. Only the length of a content against \<open>max_message_chars\<close>, the actor's identity and the
  rate limit are decided here; everything else is the store operation's.
\<close>

subsection \<open>Messages\<close>

text \<open>The mention list of a validated payload.\<close>

definition mentions_of :: "json \<Rightarrow> pystr list" where
  "mentions_of value = (case value of JArr vs \<Rightarrow> (case json_strings vs of Some l \<Rightarrow> l | None \<Rightarrow> []) | _ \<Rightarrow> [])"

fun create_message_errors :: "store_error \<Rightarrow> (int \<times> string) option" where
  "create_message_errors (MessageNotFoundError _) = Some (404, ''parent_message_not_found'')"
| "create_message_errors (MessageDeletedError _) = Some (409, ''parent_message_deleted'')"
| "create_message_errors (ThreadDepthError _) = Some (409, ''thread_depth_exceeded'')"
| "create_message_errors e = write_errors e"

definition message_args :: "principal \<Rightarrow> pystr \<Rightarrow> pystr \<Rightarrow> message_create \<Rightarrow> pystr option \<Rightarrow> create_args" where
  "message_args p room_id sender payload client_id =
     \<lparr>ca_room_id = room_id, ca_sender = sender, ca_content = mc_content payload, ca_metadata = mc_metadata payload,
      ca_attachments = mc_attachments payload, ca_mentioned_subjects = mentions_of (mc_mentioned_subjects payload),
      ca_client_message_id = client_id, ca_parent_message_id = mc_parent_message_id payload,
      ca_allow_frozen = is_admin p, ca_member_subject = member_subject_of p, ca_author_subject = subject p\<rparr>"

text \<open>The answer is the message and whether it was created (status 201, else 200).\<close>

definition post_message ::
  "app_settings \<Rightarrow> request_context \<Rightarrow> principal \<Rightarrow> pystr \<Rightarrow> message_create \<Rightarrow> pystr option \<Rightarrow> (message \<times> bool) action" where
  "post_message st cx p room_id raw idempotency_key = validated (MessageCreate raw) (\<lambda>payload.
     act_bind (act_check (case idempotency_key of None \<Rightarrow> True | Some k \<Rightarrow> 1 \<le> length k \<and> length k \<le> 128) 422 ''invalid_request'') (\<lambda>_.
     act_bind (authorize p ''room:write'' (Some room_id)) (\<lambda>_.
     act_bind (enforce_member_access (cx_now cx) p room_id True) (\<lambda>_.
     act_bind (bound_actor p (mc_sender payload) ''sender_required'') (\<lambda>sender.
     act_bind (act_check (length (mc_content payload) \<le> st_max_message_chars st) 413 ''message_too_large'') (\<lambda>_.
     act_bind (act_check (\<not> (truthy idempotency_key \<and> truthy (mc_client_message_id payload) \<and>
         idempotency_key \<noteq> mc_client_message_id payload)) 400 ''idempotency_conflict'') (\<lambda>_.
     act_bind (rate_limited st MessageLimiter (cx_clock cx) (str ''http:'' @ rate_subject p (cx_client cx)) ''rate_limit_exceeded'') (\<lambda>_.
     act_bind (storing create_message_errors (create_message_sync (st_store st) (cx_env cx)
         (message_args p room_id sender payload (if truthy idempotency_key then idempotency_key else mc_client_message_id payload))))
       (\<lambda>(message, created).
     act_bind (act_emit (if created then wake st @ [Broadcast room_id (MessageCreatedEvent message) None] else [])) (\<lambda>_.
     act_return (message, created)))))))))))"

fun change_message_errors :: "store_error \<Rightarrow> (int \<times> string) option" where
  "change_message_errors (MessageNotFoundError _) = Some (404, ''message_not_found'')"
| "change_message_errors (MessageOwnershipError _) = Some (403, ''message_not_owned'')"
| "change_message_errors (MessageDeletedError _) = Some (409, ''message_deleted'')"
| "change_message_errors e = write_errors e"

definition patch_message ::
  "app_settings \<Rightarrow> request_context \<Rightarrow> principal \<Rightarrow> pystr \<Rightarrow> pystr \<Rightarrow> message_update \<Rightarrow> message action" where
  "patch_message st cx p room_id message_id raw = validated (MessageUpdate raw) (\<lambda>(content, metadata, mentions).
     act_bind (authorize p ''room:write'' (Some room_id)) (\<lambda>_.
     act_bind (enforce_member_access (cx_now cx) p room_id True) (\<lambda>_.
     act_bind (act_check (length content \<le> st_max_message_chars st) 413 ''message_too_large'') (\<lambda>_.
     act_bind (storing change_message_errors (update_message_sync (st_store st) (cx_env cx) room_id message_id (audit_actor p)
         content metadata mentions (is_admin p) (member_subject_of p))) (\<lambda>message.
     act_bind (act_emit (wake st @ [Broadcast room_id (MessageUpdatedEvent message) None])) (\<lambda>_.
     act_return message))))))"

text \<open>A deleted message is not an error of the delete handler; the store never raises it there.\<close>

fun delete_message_errors :: "store_error \<Rightarrow> (int \<times> string) option" where
  "delete_message_errors (MessageNotFoundError _) = Some (404, ''message_not_found'')"
| "delete_message_errors (MessageOwnershipError _) = Some (403, ''message_not_owned'')"
| "delete_message_errors e = write_errors e"

definition remove_message :: "app_settings \<Rightarrow> request_context \<Rightarrow> principal \<Rightarrow> pystr \<Rightarrow> pystr \<Rightarrow> unit action" where
  "remove_message st cx p room_id message_id =
     act_bind (authorize p ''room:write'' (Some room_id)) (\<lambda>_.
     act_bind (enforce_member_access (cx_now cx) p room_id True) (\<lambda>_.
     act_bind (storing delete_message_errors (delete_message_sync (st_store st) (cx_env cx) room_id message_id (audit_actor p)
         (is_admin p) (member_subject_of p))) (\<lambda>(message, deleted).
     act_emit (if deleted then wake st @ [Broadcast room_id (MessageDeletedEvent message) None] else []))))"

fun reaction_errors :: "store_error \<Rightarrow> (int \<times> string) option" where
  "reaction_errors (MessageNotFoundError _) = Some (404, ''message_not_found'')"
| "reaction_errors (MessageDeletedError _) = Some (409, ''message_deleted'')"
| "reaction_errors (ReactionCapacityError _) = Some (409, ''reaction_capacity_reached'')"
| "reaction_errors e = write_errors e"

definition mutate_reaction ::
  "app_settings \<Rightarrow> request_context \<Rightarrow> principal \<Rightarrow> pystr \<Rightarrow> pystr \<Rightarrow> pystr \<Rightarrow> pystr option \<Rightarrow> bool \<Rightarrow> reaction_mutation action" where
  "mutate_reaction st cx p room_id message_id key raw present =
     act_bind (act_check (REACTION_KEY_PATTERN key) 422 ''invalid_request'') (\<lambda>_.
     validated (opt_field (str_field 1 64) raw) (\<lambda>named.
     act_bind (authorize p ''room:write'' (Some room_id)) (\<lambda>_.
     act_bind (enforce_member_access (cx_now cx) p room_id True) (\<lambda>_.
     act_bind (bound_actor p named ''reactor_required'') (\<lambda>reactor.
     act_bind (rate_limited st MessageLimiter (cx_clock cx) (str ''reaction:'' @ rate_subject p (cx_client cx)) ''rate_limit_exceeded'') (\<lambda>_.
     act_bind (storing reaction_errors (set_message_reaction_sync (st_store st) (cx_env cx) room_id message_id reactor key present
         (is_admin p) (member_subject_of p))) (\<lambda>mutation.
     act_bind (act_emit (if rm_changed mutation then wake st @ [Broadcast room_id (ReactionEvent mutation) None] else [])) (\<lambda>_.
     act_return mutation))))))))"

fun pin_errors :: "store_error \<Rightarrow> (int \<times> string) option" where
  "pin_errors (MessageNotFoundError _) = Some (404, ''message_not_found'')"
| "pin_errors (MessageDeletedError _) = Some (409, ''message_deleted'')"
| "pin_errors e = write_errors e"

definition mutate_pin ::
  "app_settings \<Rightarrow> request_context \<Rightarrow> principal \<Rightarrow> pystr \<Rightarrow> pystr \<Rightarrow> pystr option \<Rightarrow> bool \<Rightarrow> pin_mutation action" where
  "mutate_pin st cx p room_id message_id raw pinned = validated (opt_field (str_field 1 64) raw) (\<lambda>named.
     act_bind (authorize p ''room:read'' (Some room_id)) (\<lambda>_. act_bind (authorize p ''room:pin'' (Some room_id)) (\<lambda>_.
     act_bind (enforce_member_access (cx_now cx) p room_id True) (\<lambda>_.
     act_bind (bound_actor p named ''pinner_required'') (\<lambda>pinner.
     act_bind (rate_limited st MessageLimiter (cx_clock cx) (str ''pin:'' @ rate_subject p (cx_client cx)) ''rate_limit_exceeded'') (\<lambda>_.
     act_bind (storing pin_errors (set_message_pin_sync (st_store st) (cx_env cx) room_id message_id pinner (audit_actor p) pinned
         (is_admin p) (member_subject_of p))) (\<lambda>mutation.
     act_bind (act_emit (if pm_changed mutation then wake st @ [Broadcast room_id (PinEvent mutation) None] else [])) (\<lambda>_.
     act_return mutation))))))))"

subsection \<open>Moderation and operations\<close>

fun moderation_errors :: "store_error \<Rightarrow> (int \<times> string) option" where
  "moderation_errors WebhookCapacityError = Some (507, ''webhook_capacity_reached'')"
| "moderation_errors e = room_errors e"

definition patch_moderation ::
  "app_settings \<Rightarrow> request_context \<Rightarrow> principal \<Rightarrow> pystr \<Rightarrow> pystr \<Rightarrow> moderation_update \<Rightarrow> member_moderation action" where
  "patch_moderation st cx p room_id member raw = act_bind (id_path 64 member) (\<lambda>_.
     validated (MemberModerationUpdate raw) (\<lambda>payload.
     act_bind (authorize p ''admin'' None) (\<lambda>_.
     act_bind (act_check (member = py_strip member) 422 ''invalid_request'') (\<lambda>_.
     act_bind (storing moderation_errors (set_member_moderation_sync (st_store st) (cx_env cx) room_id member payload (audit_actor p)))
       (\<lambda>moderation.
     act_bind (act_emit (wake st @ (case mod_banned_until moderation of
         None \<Rightarrow> [] | Some t \<Rightarrow> if cx_now cx < t then [CloseMember room_id member (MemberBannedEvent member t)] else []))) (\<lambda>_.
     act_return moderation))))))"

fun audit_errors :: "store_error \<Rightarrow> (int \<times> string) option" where
  "audit_errors (InvalidAuditCursorError _) = Some (400, ''invalid_cursor'')"
| "audit_errors _ = None"

definition get_audit_events :: "principal \<Rightarrow> nat \<Rightarrow> pystr option \<Rightarrow> (audit_row list \<times> pystr option) action" where
  "get_audit_events p limit before = act_bind (page_query limit before) (\<lambda>_. act_bind (authorize p ''admin'' None) (\<lambda>_.
     reading audit_errors (list_audit_events_sync limit before)))"

fun delivery_errors :: "store_error \<Rightarrow> (int \<times> string) option" where
  "delivery_errors (InvalidWebhookCursorError _) = Some (400, ''invalid_cursor'')"
| "delivery_errors _ = None"

definition get_webhook_deliveries ::
  "principal \<Rightarrow> nat \<Rightarrow> pystr option \<Rightarrow> string option \<Rightarrow> ((webhook_delivery \<times> bool) list \<times> pystr option) action" where
  "get_webhook_deliveries p limit before status = act_bind (page_query limit before) (\<lambda>_.
     act_bind (act_check (status \<in> {None, Some ''pending'', Some ''delivered'', Some ''failed''}) 422 ''invalid_request'') (\<lambda>_.
     act_bind (authorize p ''admin'' None) (\<lambda>_.
     reading delivery_errors (list_webhook_deliveries_sync limit before status))))"

fun retry_errors :: "store_error \<Rightarrow> (int \<times> string) option" where
  "retry_errors (WebhookDeliveryNotFoundError _) = Some (404, ''webhook_delivery_not_found'')"
| "retry_errors (WebhookPayloadUnavailableError _) = Some (409, ''webhook_payload_unavailable'')"
| "retry_errors _ = None"

definition post_delivery_retry ::
  "app_settings \<Rightarrow> request_context \<Rightarrow> principal \<Rightarrow> pystr \<Rightarrow> (webhook_delivery \<times> bool) action" where
  "post_delivery_retry st cx p delivery_id = act_bind (id_path 128 delivery_id) (\<lambda>_. act_bind (authorize p ''admin'' None) (\<lambda>_.
     act_bind (act_check (st_webhooks st) 409 ''webhook_not_configured'') (\<lambda>_.
     act_bind (storing retry_errors (retry_webhook_delivery_sync (cx_env cx) delivery_id)) (\<lambda>delivery.
     act_bind (act_emit [WakeDispatcher]) (\<lambda>_. act_return delivery)))))"

fun retention_errors :: "store_error \<Rightarrow> (int \<times> string) option" where
  "retention_errors RetentionNotConfiguredError = Some (409, ''retention_not_configured'')"
| "retention_errors _ = None"

definition post_retention_run :: "app_settings \<Rightarrow> request_context \<Rightarrow> principal \<Rightarrow> (nat \<times> timestamp) action" where
  "post_retention_run st cx p = act_bind (authorize p ''admin'' None) (\<lambda>_.
     storing retention_errors (run_retention (st_store st) (cx_env cx) (audit_actor p)))"

subsection \<open>All calls\<close>

datatype api_call =
    PostRoom room_create | GetRooms nat | GetRoom pystr | PatchRoom pystr room_update | RemoveRoom pystr "pystr option"
  | ExportRoom pystr | GetMessages pystr nat "pystr option" | GetPins pystr nat "pystr option"
  | GetSearch pystr pystr nat "pystr option" | GetReplies pystr pystr nat "pystr option"
  | GetReadState pystr | PostReadStateQuery "pystr list" | PostReadReceiptQuery pystr json
  | PutReadState pystr "pystr option" | DeleteReadState pystr
  | PostMessage pystr message_create "pystr option" | PatchMessage pystr pystr message_update | RemoveMessage pystr pystr
  | MutateReaction pystr pystr pystr "pystr option" bool | MutatePin pystr pystr "pystr option" bool
  | PatchModeration pystr pystr moderation_update | GetAuditEvents nat "pystr option"
  | GetWebhookDeliveries nat "pystr option" "string option" | PostDeliveryRetry pystr | PostRetentionRun

definition act_void :: "'a action \<Rightarrow> unit action" where
  "act_void m = act_bind m (\<lambda>_. act_return ())"

fun handle :: "app_settings \<Rightarrow> request_context \<Rightarrow> principal \<Rightarrow> api_call \<Rightarrow> unit action" where
  "handle st cx p (PostRoom raw) = act_void (post_room st cx p raw)"
| "handle st cx p (GetRooms limit) = act_void (get_rooms p limit)"
| "handle st cx p (GetRoom r) = act_void (read_room cx p r)"
| "handle st cx p (PatchRoom r raw) = act_void (patch_room st cx p r raw)"
| "handle st cx p (RemoveRoom r c) = act_void (remove_room st cx p r c)"
| "handle st cx p (ExportRoom r) = act_void (export_room st cx p r)"
| "handle st cx p (GetMessages r limit before) = act_void (get_messages cx p r limit before)"
| "handle st cx p (GetPins r limit before) = act_void (get_pins cx p r limit before)"
| "handle st cx p (GetSearch r q limit before) = act_void (get_search st cx p r q limit before)"
| "handle st cx p (GetReplies r m limit before) = act_void (get_replies cx p r m limit before)"
| "handle st cx p (GetReadState r) = act_void (fetch_read_state cx p r)"
| "handle st cx p (PostReadStateQuery rs) = act_void (post_read_state_query st cx p rs)"
| "handle st cx p (PostReadReceiptQuery r raw) = act_void (post_read_receipt_query st cx p r raw)"
| "handle st cx p (PutReadState r raw) = act_void (put_read_state st cx p r raw)"
| "handle st cx p (DeleteReadState r) = act_void (delete_read_state st cx p r)"
| "handle st cx p (PostMessage r raw k) = act_void (post_message st cx p r raw k)"
| "handle st cx p (PatchMessage r m raw) = act_void (patch_message st cx p r m raw)"
| "handle st cx p (RemoveMessage r m) = act_void (remove_message st cx p r m)"
| "handle st cx p (MutateReaction r m key raw b) = act_void (mutate_reaction st cx p r m key raw b)"
| "handle st cx p (MutatePin r m raw b) = act_void (mutate_pin st cx p r m raw b)"
| "handle st cx p (PatchModeration r s raw) = act_void (patch_moderation st cx p r s raw)"
| "handle st cx p (GetAuditEvents limit before) = act_void (get_audit_events p limit before)"
| "handle st cx p (GetWebhookDeliveries limit before s) = act_void (get_webhook_deliveries p limit before s)"
| "handle st cx p (PostDeliveryRetry w) = act_void (post_delivery_retry st cx p w)"
| "handle st cx p PostRetentionRun = act_void (post_retention_run st cx p)"

end
