(* ===== verification/App_Laws.thy ===== *)
theory App_Laws
  imports App_Messages
begin

section \<open>Laws of actions\<close>

text \<open>
  Three properties of actions and how \<open>act_bind\<close> composes them: an action is \<open>steady\<close> when it leaves the
  database and emits nothing, \<open>atomic\<close> when it does so if it raises, and \<open>lawful\<close> when it takes reachable
  databases to reachable ones; it is \<open>granted Q\<close> when it answers only on databases that satisfy \<open>Q\<close>. The
  rules are applied in order to the text of a handler.
\<close>

definition steady :: "'a action \<Rightarrow> bool" where
  "steady m \<longleftrightarrow> (\<forall>app r app' fx. m app = (r, app', fx) \<longrightarrow> ap_db app' = ap_db app \<and> fx = [])"

definition atomic :: "'a action \<Rightarrow> bool" where
  "atomic m \<longleftrightarrow> (\<forall>app e app' fx. m app = (Inl e, app', fx) \<longrightarrow> ap_db app' = ap_db app \<and> fx = [])"

definition never_fails :: "'a action \<Rightarrow> bool" where
  "never_fails m \<longleftrightarrow> (\<forall>app e app' fx. m app \<noteq> (Inl e, app', fx))"

definition lawful :: "store_config \<Rightarrow> 'a action \<Rightarrow> bool" where
  "lawful cfg m \<longleftrightarrow> (\<forall>app r app' fx. m app = (r, app', fx) \<longrightarrow> reachable cfg (ap_db app) \<longrightarrow> reachable cfg (ap_db app'))"

definition granted :: "(db \<Rightarrow> bool) \<Rightarrow> 'a action \<Rightarrow> bool" where
  "granted Q m \<longleftrightarrow> (\<forall>app v app' fx. m app = (Inr v, app', fx) \<longrightarrow> Q (ap_db app))"

named_theorems steady_rules \<open>actions that touch neither the database nor the outside\<close>
named_theorems total_rules \<open>actions that always answer\<close>

lemma act_bind_cases:
  assumes "act_bind m f app = (r, app2, fx)"
  obtains (raised) e where "m app = (Inl e, app2, fx)" "r = Inl e"
  | (passed) v app1 fx1 fx2 where "m app = (Inr v, app1, fx1)" "f v app1 = (r, app2, fx2)" "fx = fx1 @ fx2"
  using assms unfolding act_bind_def by (auto split: prod.splits sum.splits)

lemma act_bind_simps [simp]:
  "act_bind (act_return v) f = f v" "act_bind (act_raise e) f = act_raise e"
  "act_check True s c = act_return ()" "act_check False s c = act_raise (APIError s c)"
  by (simp_all add: fun_eq_iff act_bind_def act_return_def act_raise_def act_check_def)

lemma act_bind_at:
  "m app = (Inr v, app1, []) \<Longrightarrow> act_bind m f app = f v app1"
  "act_bind (act_emit fx) f app = (case f () app of (r, app2, fx2) \<Rightarrow> (r, app2, fx @ fx2))"
  by (simp_all add: act_bind_def act_emit_def)

lemma act_at: "act_return v app = (Inr v, app, [])" "act_raise e app = (Inl e, app, [])"
    "act_emit fx app = (Inr (), app, fx)"
  by (simp_all add: act_return_def act_raise_def act_emit_def)

subsection \<open>Steady and total actions\<close>

lemma steady_basic [steady_rules]:
  "steady (act_return v)" "steady (act_raise e)" "steady (act_check b s c)" "steady (reading n r)"
  "steady (authorize p perm ro)" "steady (stable_subject p)" "steady (enforce_member_access now p room w)"
  "steady (bound_actor p named code)" "steady (page_query limit before)" "steady (id_path k i)"
  by (auto simp: steady_def act_return_def act_raise_def act_check_def reading_def authorize_def stable_subject_def
    enforce_member_access_def bound_actor_def page_query_def id_path_def split: sum.splits option.splits if_splits)

lemma steady_rate_limited [steady_rules]: "steady (rate_limited st w clk key code)"
  by (cases w) (auto simp: steady_def rate_limited_def map_prod_def split: prod.splits)

lemma steady_bind [steady_rules]: "steady m \<Longrightarrow> (\<And>v. steady (f v)) \<Longrightarrow> steady (act_bind m f)"
  unfolding steady_def by (intro allI impI, erule act_bind_cases) fastforce+

lemma steadyD: "steady m \<Longrightarrow> m app = (r, app', fx) \<Longrightarrow> ap_db app' = ap_db app \<and> fx = []"
  by (simp add: steady_def)

lemma steady_readable [steady_rules]: "steady (readable cx p room)"
  unfolding readable_def by (rule steady_rules)+

lemma steady_authorize_rooms [steady_rules]: "steady (authorize_rooms p rs)"
  by (induction rs) (auto intro!: steady_rules)

lemma total_basic [total_rules]: "never_fails (act_return v)" "never_fails (act_emit fx)"
  "never_fails (reading n (\<lambda>d. Inr (g d)))"
  by (simp_all add: never_fails_def act_return_def act_emit_def reading_def)

lemma total_bind [total_rules]: "never_fails m \<Longrightarrow> (\<And>v. never_fails (f v)) \<Longrightarrow> never_fails (act_bind m f)"
  unfolding never_fails_def by (intro allI notI, erule act_bind_cases) auto

lemma total_prod [total_rules]: "(\<And>a b. never_fails (f a b)) \<Longrightarrow> never_fails (case v of (a, b) \<Rightarrow> f a b)"
  by (cases v) simp

subsection \<open>Atomic actions\<close>

lemma steady_atomic: "steady m \<Longrightarrow> atomic m"
  unfolding steady_def atomic_def by blast

lemma atomic_storing: "atomic (storing n r)"
  by (auto simp: atomic_def storing_def split: sum.splits)

lemma total_atomic: "never_fails m \<Longrightarrow> atomic m"
  by (simp add: never_fails_def atomic_def)

lemma atomic_bind_steady: "steady m \<Longrightarrow> (\<And>v. atomic (f v)) \<Longrightarrow> atomic (act_bind m f)"
  unfolding atomic_def steady_def by (intro allI impI, erule act_bind_cases) fastforce+

lemma atomic_bind_total: "atomic m \<Longrightarrow> (\<And>v. never_fails (f v)) \<Longrightarrow> atomic (act_bind m f)"
  unfolding atomic_def never_fails_def by (intro allI impI, erule act_bind_cases) fastforce+

lemma atomic_validated: "(\<And>v. atomic (f v)) \<Longrightarrow> atomic (validated r f)"
  by (cases r) (simp_all add: validated_def steady_atomic steady_rules)

lemma atomic_option: "atomic m \<Longrightarrow> (\<And>v. atomic (f v)) \<Longrightarrow> atomic (case x of None \<Rightarrow> m | Some v \<Rightarrow> f v)"
  by (cases x) simp_all

lemma atomic_sum: "(\<And>v. atomic (m v)) \<Longrightarrow> (\<And>v. atomic (f v)) \<Longrightarrow> atomic (case x of Inl v \<Rightarrow> m v | Inr v \<Rightarrow> f v)"
  by (cases x) simp_all

lemma atomic_prod: "(\<And>a b. atomic (f a b)) \<Longrightarrow> atomic (case v of (a, b) \<Rightarrow> f a b)"
  by (cases v) simp

lemma atomic_bind_storing: "(\<And>v. never_fails (f v)) \<Longrightarrow> atomic (act_bind (storing n r) f)"
  by (rule atomic_bind_total [OF atomic_storing])

lemma atomic_void: "atomic m \<Longrightarrow> atomic (act_void m)"
  unfolding act_void_def by (rule atomic_bind_total) (auto intro: total_rules)

lemmas atomic_rules = atomic_bind_storing atomic_storing atomic_validated atomic_bind_steady atomic_option atomic_sum atomic_prod

lemma handler_atomic:
  "atomic (post_room st cx p rc)" "atomic (patch_room st cx p r ru)" "atomic (remove_room st cx p r c)"
  "atomic (export_room st cx p r)" "atomic (put_read_state st cx p r mid)" "atomic (delete_read_state st cx p r)"
  "atomic (post_message st cx p r mc k)" "atomic (patch_message st cx p r m mu)" "atomic (remove_message st cx p r m)"
  "atomic (mutate_reaction st cx p r m key actor b)" "atomic (mutate_pin st cx p r m actor b)"
  "atomic (patch_moderation st cx p r s md)" "atomic (post_delivery_retry st cx p w)" "atomic (post_retention_run st cx p)"
  unfolding post_room_def patch_room_def remove_room_def export_room_def put_read_state_def delete_read_state_def
    post_message_def patch_message_def remove_message_def mutate_reaction_def mutate_pin_def patch_moderation_def
    post_delivery_retry_def post_retention_run_def
  by (rule atomic_rules steady_atomic steady_rules total_rules)+

lemma handler_steady:
  "steady (get_rooms p limit)" "steady (get_messages cx p r limit before)" "steady (get_pins cx p r limit before)"
  "steady (get_replies cx p r m limit before)" "steady (fetch_read_state cx p r)"
  "steady (get_audit_events p limit before)" "steady (get_webhook_deliveries p limit before status)"
  unfolding get_rooms_def get_messages_def get_pins_def get_replies_def fetch_read_state_def get_audit_events_def
    get_webhook_deliveries_def
  by (rule steady_rules)+

lemma steady_cases [steady_rules]:
  "(\<And>v. steady (f v)) \<Longrightarrow> steady (validated r f)"
  "steady m \<Longrightarrow> (\<And>v. steady (f v)) \<Longrightarrow> steady (case x of None \<Rightarrow> m | Some v \<Rightarrow> f v)"
  "(\<And>v. steady (g v)) \<Longrightarrow> (\<And>v. steady (f v)) \<Longrightarrow> steady (case y of Inl v \<Rightarrow> g v | Inr v \<Rightarrow> f v)"
  subgoal by (cases r) (simp_all add: validated_def steady_rules)
  subgoal by (cases x) simp_all
  subgoal by (cases y) simp_all
  done

lemma query_steady:
  "steady (read_room cx p r)" "steady (get_search st cx p r q limit before)"
  "steady (post_read_state_query st cx p rs)" "steady (post_read_receipt_query st cx p r j)"
  unfolding read_room_def get_search_def post_read_state_query_def post_read_receipt_query_def
  by (rule steady_rules)+

lemma handle_atomic: "atomic (handle st cx p call)"
  by (cases call) (simp_all add: atomic_void handler_atomic steady_atomic handler_steady query_steady)

subsection \<open>Lawful actions\<close>

text \<open>A storing action runs one command of the store's machine.\<close>

lemma steady_lawful: "steady m \<Longrightarrow> lawful cfg m"
  unfolding steady_def lawful_def by metis

lemma lawful_bind: "lawful cfg m \<Longrightarrow> (\<And>v. lawful cfg (f v)) \<Longrightarrow> lawful cfg (act_bind m f)"
  unfolding lawful_def by (intro allI impI, erule act_bind_cases) blast+

lemma lawful_emit: "lawful cfg (act_emit fx)"
  by (simp add: lawful_def act_emit_def)

lemma lawful_storing:
  assumes "env_ok e" and "\<And>d. run_command cfg e cmd d = res_map snd (op d)"
  shows "lawful cfg (storing n op)"
proof -
  have "reachable cfg d'" if "reachable cfg d" "op d = Inr (v, d')" for d v d'
    by (rule reachable.move [OF that(1) commit_step [OF assms(1), where cmd = cmd]]) (simp add: assms(2) that(2))
  then show ?thesis by (auto simp: lawful_def storing_def split: sum.splits)
qed

lemma lawful_validated: "(\<And>v. r = Inr v \<Longrightarrow> lawful cfg (f v)) \<Longrightarrow> lawful cfg (validated r f)"
  by (cases r) (simp_all add: validated_def steady_lawful steady_rules)

lemma lawful_option: "lawful cfg m \<Longrightarrow> (\<And>v. lawful cfg (f v)) \<Longrightarrow> lawful cfg (case x of None \<Rightarrow> m | Some v \<Rightarrow> f v)"
  by (cases x) simp_all

lemma lawful_prod: "(\<And>a b. lawful cfg (f a b)) \<Longrightarrow> lawful cfg (case v of (a, b) \<Rightarrow> f a b)"
  by (cases v) simp

lemma lawful_commands:
  assumes "env_ok e"
  shows "RoomCreate raw = Inr payload \<Longrightarrow> lawful cfg (storing n (create_room cfg e payload actor))"
    and "lawful cfg (storing n (set_room_state_sync cfg e rid a f actor))"
    and "lawful cfg (storing n (delete_room_sync cfg e rid actor))"
    and "lawful cfg (storing n (record_export_requested_sync cfg e rid actor))"
    and "lawful cfg (storing n (set_member_moderation_sync cfg e rid subj md actor))"
    and "lawful cfg (storing n (create_message_sync cfg e args))"
    and "lawful cfg (storing n (update_message_sync cfg e rid mid actor content meta mn adm ms))"
    and "lawful cfg (storing n (delete_message_sync cfg e rid mid actor adm ms))"
    and "lawful cfg (storing n (set_message_reaction_sync cfg e rid mid actor key b adm ms))"
    and "lawful cfg (storing n (set_message_pin_sync cfg e rid mid pinner actor b adm ms))"
    and "lawful cfg (storing n (mark_read_sync cfg e rid subj target))"
    and "lawful cfg (storing n (clear_read_state_sync rid subj))"
    and "lawful cfg (storing n (run_retention cfg e actor))"
    and "lawful cfg (storing n (retry_webhook_delivery_sync e did))"
  subgoal by (rule lawful_storing [OF assms, where cmd = "CreateRoom raw actor"]) (simp add: model_error_def)
  subgoal by (rule lawful_storing [OF assms, where cmd = "SetRoomState rid a f actor"]) simp
  subgoal by (rule lawful_storing [OF assms, where cmd = "DeleteRoom rid actor"]) simp
  subgoal by (rule lawful_storing [OF assms, where cmd = "RecordExport rid actor"]) simp
  subgoal by (rule lawful_storing [OF assms, where cmd = "SetMemberModeration rid subj md actor"]) simp
  subgoal by (rule lawful_storing [OF assms, where cmd = "CreateMessage args"]) simp
  subgoal by (rule lawful_storing [OF assms, where cmd = "UpdateMessage rid mid actor content meta mn adm ms"]) simp
  subgoal by (rule lawful_storing [OF assms, where cmd = "DeleteMessage rid mid actor adm ms"]) simp
  subgoal by (rule lawful_storing [OF assms, where cmd = "SetReaction rid mid actor key b adm ms"]) simp
  subgoal by (rule lawful_storing [OF assms, where cmd = "SetPin rid mid pinner actor b adm ms"]) simp
  subgoal by (rule lawful_storing [OF assms, where cmd = "MarkRead rid subj target"]) simp
  subgoal by (rule lawful_storing [OF assms, where cmd = "ClearReadState rid subj"]) simp
  subgoal by (rule lawful_storing [OF assms, where cmd = "RunRetention actor"]) simp
  subgoal by (rule lawful_storing [OF assms, where cmd = "RetryWebhookDelivery did"]) simp
  done

lemmas lawful_rules = lawful_commands lawful_validated lawful_bind lawful_option lawful_prod lawful_emit

lemma handle_lawful:
  assumes "env_ok (cx_env cx)"
  shows "lawful (st_store st) (handle st cx p call)"
  using assms
  by (cases call)
    (simp_all add: act_void_def post_room_def patch_room_def remove_room_def export_room_def put_read_state_def
       delete_read_state_def post_message_def patch_message_def remove_message_def mutate_reaction_def mutate_pin_def
       patch_moderation_def post_delivery_retry_def post_retention_run_def,
     (assumption | rule lawful_rules steady_lawful steady_rules handler_steady query_steady)+)

subsection \<open>Granted actions\<close>

definition unrestrained :: "timestamp \<Rightarrow> principal \<Rightarrow> pystr \<Rightarrow> bool \<Rightarrow> db \<Rightarrow> bool" where
  "unrestrained now p room_id write d \<longleftrightarrow> (\<forall>s m. \<not> is_admin p \<and> subject p = Some s \<and>
     get_member_moderation d room_id s = Some m \<longrightarrow>
       \<not> after now (mod_banned_until m) \<and> (write \<longrightarrow> \<not> after now (mod_muted_until m)))"

lemma granted_weaken: "granted P m \<Longrightarrow> (\<And>d. P d \<Longrightarrow> Q d) \<Longrightarrow> granted Q m"
  unfolding granted_def by blast

lemma granted_authorize: "granted (\<lambda>d. allows p (str perm) ro) (authorize p perm ro)"
  by (simp add: granted_def authorize_def act_check_def act_raise_def)

lemma granted_access: "granted (unrestrained now p room_id w) (enforce_member_access now p room_id w)"
  by (auto simp: granted_def enforce_member_access_def unrestrained_def split: option.splits if_splits)

lemma granted_raise: "granted Q (act_raise e)"
  by (simp add: granted_def act_raise_def)

lemma granted_any: "granted (\<lambda>d. True) m"
  by (simp add: granted_def)

lemma granted_bind:
  "granted P m \<Longrightarrow> steady m \<Longrightarrow> (\<And>v. granted Q (f v)) \<Longrightarrow> granted (\<lambda>d. P d \<and> Q d) (act_bind m f)"
  unfolding granted_def steady_def by (intro allI impI, erule act_bind_cases) (auto, metis)

lemma granted_option: "granted Q m \<Longrightarrow> (\<And>v. granted Q (f v)) \<Longrightarrow> granted Q (case x of None \<Rightarrow> m | Some v \<Rightarrow> f v)"
  by (cases x) simp_all

lemma granted_sum: "(\<And>v. granted Q (g v)) \<Longrightarrow> (\<And>v. granted Q (f v)) \<Longrightarrow> granted Q (case x of Inl v \<Rightarrow> g v | Inr v \<Rightarrow> f v)"
  by (cases x) simp_all

lemma granted_prod: "(\<And>a b. granted Q (f a b)) \<Longrightarrow> granted Q (case v of (a, b) \<Rightarrow> f a b)"
  by (cases v) simp

lemma granted_validated: "(\<And>v. granted Q (f v)) \<Longrightarrow> granted Q (validated r f)"
  by (cases r) (simp_all add: validated_def granted_raise)

lemma granted_void: "granted Q m \<Longrightarrow> granted Q (act_void m)"
  unfolding granted_def act_void_def by (intro allI impI, erule act_bind_cases) auto

end
