(* ===== verification/App_Properties.thy ===== *)
theory App_Properties
  imports App_Laws Store_Properties
begin

section \<open>Properties of the HTTP interface\<close>

text \<open>
  What holds of every call of the \<open>/v1\<close> router, whichever handler serves it: an answered error changed
  nothing, every session of calls leaves a reachable store, an answered call was granted, and what is
  broadcast of a message was written by its author.
\<close>

subsection \<open>The access table\<close>

text \<open>
  The permissions a call asks for, and the room whose moderation it is subject to (with \<open>True\<close> for
  calls that write), stated from \<open>docs/API_REFERENCE.md\<close> and independently of the handlers.
\<close>

fun needs :: "api_call \<Rightarrow> (string \<times> pystr option) list" where
  "needs (GetRoom r) = [(''room:read'', Some r)]"
| "needs (GetMessages r _ _) = [(''room:read'', Some r)]"
| "needs (GetPins r _ _) = [(''room:read'', Some r)]"
| "needs (GetSearch r _ _ _) = [(''room:read'', Some r)]"
| "needs (GetReplies r _ _ _) = [(''room:read'', Some r)]"
| "needs (GetReadState r) = [(''room:read'', Some r)]"
| "needs (PostReadStateQuery rs) = map (\<lambda>r. (''room:read'', Some (py_strip r))) rs"
| "needs (PostReadReceiptQuery r _) = [(''room:read'', Some r), (''room:read-receipts'', Some r)]"
| "needs (PutReadState r _) = [(''room:read'', Some r)]"
| "needs (DeleteReadState r) = [(''room:read'', Some r)]"
| "needs (PostMessage r _ _) = [(''room:write'', Some r)]"
| "needs (PatchMessage r _ _) = [(''room:write'', Some r)]"
| "needs (RemoveMessage r _) = [(''room:write'', Some r)]"
| "needs (MutateReaction r _ _ _ _) = [(''room:write'', Some r)]"
| "needs (MutatePin r _ _ _) = [(''room:read'', Some r), (''room:pin'', Some r)]"
| "needs _ = [(''admin'', None)]"

fun guarded_room :: "api_call \<Rightarrow> (pystr \<times> bool) option" where
  "guarded_room (GetRoom r) = Some (r, False)"
| "guarded_room (GetMessages r _ _) = Some (r, False)"
| "guarded_room (GetPins r _ _) = Some (r, False)"
| "guarded_room (GetSearch r _ _ _) = Some (r, False)"
| "guarded_room (GetReplies r _ _ _) = Some (r, False)"
| "guarded_room (GetReadState r) = Some (r, False)"
| "guarded_room (PostReadReceiptQuery r _) = Some (r, False)"
| "guarded_room (PutReadState r _) = Some (r, False)"
| "guarded_room (DeleteReadState r) = Some (r, False)"
| "guarded_room (PostMessage r _ _) = Some (r, True)"
| "guarded_room (PatchMessage r _ _) = Some (r, True)"
| "guarded_room (RemoveMessage r _) = Some (r, True)"
| "guarded_room (MutateReaction r _ _ _ _) = Some (r, True)"
| "guarded_room (MutatePin r _ _ _) = Some (r, True)"
| "guarded_room _ = None"

definition entitled :: "timestamp \<Rightarrow> principal \<Rightarrow> api_call \<Rightarrow> db \<Rightarrow> bool" where
  "entitled now p call d \<longleftrightarrow> (\<forall>(permission, room)\<in>set (needs call). allows p (str permission) room) \<and>
     (case guarded_room call of None \<Rightarrow> True | Some (room, write) \<Rightarrow> unrestrained now p room write d)"

lemma granted_storing: "granted (\<lambda>d. True) (act_bind (storing n op) f)"
  by (rule granted_any)

lemmas granted_rules = granted_authorize granted_access granted_raise granted_storing granted_bind granted_option
  granted_sum granted_prod granted_validated granted_any

lemmas handler_defs = post_room_def get_rooms_def read_room_def patch_room_def remove_room_def export_room_def
  get_messages_def get_pins_def get_search_def get_replies_def fetch_read_state_def post_read_state_query_def
  post_read_receipt_query_def put_read_state_def delete_read_state_def post_message_def patch_message_def
  remove_message_def mutate_reaction_def mutate_pin_def patch_moderation_def get_audit_events_def
  get_webhook_deliveries_def post_delivery_retry_def post_retention_run_def readable_def

text \<open>Concrete inputs: an application over the sample store, a member of the room and an admin's token.\<close>

definition sample_settings :: app_settings where
  "sample_settings = \<lparr>st_store = sample_cfg, st_max_message_chars = 100, st_webhooks = True,
     st_messages_limit = \<lparr>rl_limit = 5, rl_window = 60, rl_max_keys = 10\<rparr>,
     st_searches_limit = \<lparr>rl_limit = 5, rl_window = 60, rl_max_keys = 10\<rparr>,
     st_reads_limit = \<lparr>rl_limit = 5, rl_window = 60, rl_max_keys = 10\<rparr>,
     st_nfkc_casefold = id, st_julianday = id\<rparr>"

definition app_of :: "db \<Rightarrow> app" where
  "app_of d = \<lparr>ap_db = d, ap_messages = [], ap_searches = [], ap_reads = []\<rparr>"

definition sample_context :: "nat \<Rightarrow> request_context" where
  "sample_context n = \<lparr>cx_env = sample_env n, cx_now = int n, cx_clock = int n, cx_client = []\<rparr>"

definition member_token :: "pystr \<Rightarrow> string list \<Rightarrow> principal" where
  "member_token s perms = \<lparr>subject = Some s, permissions = set (map str perms), rooms = {lobby}, authentication = Token\<rparr>"

definition sample_post :: "pystr \<Rightarrow> pystr option \<Rightarrow> message_create" where
  "sample_post content client = \<lparr>mc_content = content, mc_sender = None, mc_client_message_id = client,
     mc_parent_message_id = None, mc_metadata = [], mc_attachments = [], mc_mentioned_subjects = JArr [JStr bob]\<rparr>"

lemma sample_author [simp]:
  "(sample_message content c)\<lparr>ca_sender := ann, ca_member_subject := Some ann, ca_author_subject := Some ann\<rparr> =
     sample_message content c"
  by (simp add: sample_message_def)

definition banned_db :: db where
  "banned_db = room_db\<lparr>db_controls := [\<lparr>mod_room_id = lobby, mod_subject = ann, mod_muted_until = None,
     mod_banned_until = Some 60, mod_updated_at = 0\<rparr>]\<rparr>"

definition serve :: "app_settings \<Rightarrow> (request_context \<times> principal \<times> api_call) list \<Rightarrow> app \<Rightarrow> app" where
  "serve st calls app = fold (\<lambda>(cx, p, call) app. fst (snd (handle st cx p call app))) calls app"

lemma granted_rooms: "granted (\<lambda>d. \<forall>r\<in>set rs. allows p (str ''room:read'') (Some r)) (authorize_rooms p rs)"
proof (induction rs)
  case (Cons r rs)
  show ?case
    by (rule granted_weaken [OF _ _], unfold authorize_rooms.simps, rule granted_bind [OF granted_authorize _ Cons.IH])
      (auto intro: steady_rules)
qed (simp add: granted_any)

lemma granted_query:
  "granted (\<lambda>d. \<forall>r\<in>set raw. allows p (str ''room:read'') (Some (py_strip r))) (post_read_state_query st cx p raw)"
proof (cases "validate_read_state_query_room_ids (map py_strip raw)")
  case (Inr ids)
  then have ids: "ids = map py_strip raw" by (auto simp: validate_read_state_query_room_ids_def split: if_splits)
  show ?thesis
    unfolding post_read_state_query_def Inr validated_def sum.case ids
    by (rule granted_weaken, rule granted_bind [OF granted_any _ granted_bind [OF granted_rooms _ granted_any]])
      (simp_all add: steady_rules)
qed (simp add: post_read_state_query_def validated_def granted_raise)

lemma entitled_query:
  "granted (entitled (cx_now cx) p (PostReadStateQuery raw)) (handle st cx p (PostReadStateQuery raw))"
  unfolding handle.simps by (rule granted_void, rule granted_weaken [OF granted_query]) (simp add: entitled_def)

lemma handle_granted: "granted (entitled (cx_now cx) p call) (handle st cx p call)"
proof (cases call)
  case (PostReadStateQuery raw)
  show ?thesis unfolding PostReadStateQuery by (rule entitled_query)
qed (simp_all only: handle.simps handler_defs,
     (rule granted_void, rule granted_weaken, (rule granted_rules steady_rules)+, simp add: entitled_def)+)

lemma app_of_simps [simp]:
  "ap_db (app_of d) = d" "ap_messages (app_of d) = []" "ap_searches (app_of d) = []" "ap_reads (app_of d) = []"
  by (simp_all add: app_of_def)

lemma member_token_simps [simp]:
  "subject (member_token s ps) = Some s" "is_admin (member_token s ps) \<longleftrightarrow> str ''admin'' \<in> set (map str ps)"
  "permissions (member_token s ps) = set (map str ps)" "rooms (member_token s ps) = {lobby}"
  by (simp_all add: member_token_def is_admin_def)

lemma sample_context_simps [simp]:
  "cx_env (sample_context n) = sample_env n" "cx_now (sample_context n) = int n" "cx_clock (sample_context n) = int n"
  by (simp_all add: sample_context_def)

lemma sample_settings_simps [simp]:
  "st_store sample_settings = sample_cfg" "st_webhooks sample_settings" "st_max_message_chars sample_settings = 100"
  "st_messages_limit sample_settings = \<lparr>rl_limit = 5, rl_window = 60, rl_max_keys = 10\<rparr>"
  "st_reads_limit sample_settings = \<lparr>rl_limit = 5, rl_window = 60, rl_max_keys = 10\<rparr>"
  "st_julianday sample_settings = id"
  by (simp_all add: sample_settings_def)

lemma sample_post_simps [simp]:
  "mc_sender (sample_post content c) = None" "mc_client_message_id (sample_post content c) = c"
  "mc_content (sample_post content c) = content"
  by (simp_all add: sample_post_def)

lemma sample_subjects [simp]: "truthy (Some ann)" "truthy (Some bob)" "\<not> truthy (None :: pystr option)"
  by (simp_all add: truthy_def ann_def bob_def)

lemma sample_controls [simp]: "get_control_row room_db r s = None" "get_control_row message_db r s = None"
  by (simp_all add: get_control_row_def room_db_def message_db_def empty_db_def)

lemmas app_eval = act_bind_at authorize_def stable_subject_def enforce_member_access_def get_member_moderation_def
  rate_limited_def rate_subject_def bound_actor_def member_subject_of_def wake_def validated_def storing_def reading_def
  act_bind_def [of "storing n op" for n op] act_bind_def [of "reading n op" for n op] str_def act_at

lemma sample_payloads [simp]:
  "MessageCreate (sample_post [104, 105] (Some [99])) = Inr (sample_post [104, 105] (Some [99]))"
  "MessageCreate (sample_post [121] (Some [99])) = Inr (sample_post [121] (Some [99]))"
  by (simp_all add: sample_post_def MessageCreate_def str_field_def strip_defs bob_def require_content_or_attachment_def
      mention_bob [unfolded mentions_json_def, simplified] mentions_json_def)

lemma sample_args [simp]:
  "message_args (member_token s [''room:write'']) lobby s (sample_post content c) c' =
     (sample_message content c')\<lparr>ca_sender := s, ca_member_subject := Some s, ca_author_subject := Some s\<rparr>"
  by (simp add: message_args_def sample_message_def sample_post_def mentions_of_def member_token_def member_subject_of_def
      is_admin_def str_def)

lemma allow_sample [simp]:
  "allow \<lparr>rl_limit = 5, rl_window = 60, rl_max_keys = 10\<rparr> n key [] = (True, [(key, [n])])"
  by (simp add: allow_def Let_def touch_def deque_of_def)

lemma post_sample:
  "post_message sample_settings (sample_context 3) (member_token ann [''room:write'']) lobby
     (sample_post [104, 105] (Some [99])) None (app_of room_db) =
     (Inr (first_message, True), (app_of message_db)\<lparr>ap_messages := [(str ''http:'' @ ann, [3])]\<rparr>,
      [WakeDispatcher, Broadcast lobby (MessageCreatedEvent first_message) None])"
  by (simp add: post_message_def app_eval create_message_sample)

lemma bob_create_sample:
  "create_message_sync sample_cfg (sample_env 4) ((sample_message [121] (Some [99]))
     \<lparr>ca_sender := bob, ca_member_subject := Some bob, ca_author_subject := Some bob\<rparr>) message_db =
   Inr ((first_message, False), message_db)"
  by (simp add: sample_defs store_eval cong: res_bind_weak)

lemma replay_sample:
  "post_message sample_settings (sample_context 4) (member_token bob [''room:write'']) lobby
     (sample_post [121] (Some [99])) None (app_of message_db) =
     (Inr (first_message, False), (app_of message_db)\<lparr>ap_messages := [(str ''http:'' @ bob, [4])]\<rparr>, [])"
  by (simp add: post_message_def app_eval bob_create_sample)

subsection \<open>Every call\<close>

text \<open>
  C25. An error changed nothing: whatever call is answered with an error, at whatever point of its
  handler, the database is as it was and nothing was broadcast, closed or woken. Only the rate limiters
  may have counted the call.
\<close>

theorem failed_call_changes_nothing:
  assumes "handle st cx p call app = (Inl e, app', fx)"
  shows "ap_db app' = ap_db app \<and> fx = []"
  using handle_atomic [of st cx p call] assms unfolding atomic_def by blast

theorem failed_call_changes_nothing_witness:
  "\<exists>app' fx. handle sample_settings (sample_context 3) local_operator (GetRoom [120]) (app_of room_db) =
     (Inl (APIError 404 ''room_not_found''), app', fx) \<and> ap_db app' = room_db"
proof -
  have "handle sample_settings (sample_context 3) local_operator (GetRoom [120]) (app_of room_db) =
    (Inl (APIError 404 ''room_not_found''), app_of room_db, [])"
    by (simp add: act_void_def act_bind_def read_room_def app_eval local_operator_def allows_def is_admin_def get_room_def
        get_room_row_def room_db_def lobby_row_def lobby_def)
  then show ?thesis using failed_call_changes_nothing by fastforce
qed

text \<open>
  Every session of calls, from any callers and with any outcome, takes a store that keeps the
  invariant and was reached from the empty schema to another such store: no handler calls the store in
  a way the store's machine does not have.
\<close>

theorem served_sessions_keep_invariant:
  assumes "reachable (st_store st) (ap_db app)" and "\<forall>(cx, p, call)\<in>set calls. env_ok (cx_env cx)"
  shows "reachable (st_store st) (ap_db (serve st calls app)) \<and> store_inv (st_store st) (ap_db (serve st calls app))"
proof -
  have "reachable (st_store st) (ap_db (serve st calls app))"
    using assms
  proof (induction calls arbitrary: app)
    case (Cons c calls)
    obtain cx p call where c: "c = (cx, p, call)" by (cases c)
    obtain r app1 fx where run: "handle st cx p call app = (r, app1, fx)" by (cases "handle st cx p call app")
    have "reachable (st_store st) (ap_db app1)"
      using handle_lawful [of cx st p call] Cons.prems run unfolding lawful_def c by auto
    then show ?case using Cons by (simp add: serve_def c run)
  qed (simp add: serve_def)
  then show ?thesis using reachable_store_inv by blast
qed

definition sample_calls :: "(request_context \<times> principal \<times> api_call) list" where
  "sample_calls =
     [(sample_context 3, member_token ann [''room:write''], PostMessage lobby (sample_post [104, 105] (Some [99])) None),
      (sample_context 4, member_token bob [''room:write''], PostMessage lobby (sample_post [121] (Some [99])) None)]"

theorem served_sessions_keep_invariant_witness:
  "store_inv sample_cfg (ap_db (serve sample_settings sample_calls (app_of room_db)))"
proof -
  have "reachable sample_cfg room_db"
    by (rule reachable.move [OF reachable.start commit_step [OF _ create_room_sample]]) simp
  then show ?thesis
    using served_sessions_keep_invariant [of sample_settings "app_of room_db" sample_calls]
    by (simp add: sample_calls_def)
qed



subsection \<open>Writing messages\<close>

lemma post_message_answer:
  assumes "post_message st cx p room_id raw key app = (Inr (m, created), app', fx)" and "subject p = Some s"
  obtains payload client where "MessageCreate raw = Inr payload"
    "client = (if truthy key then key else mc_client_message_id payload)"
    "allows p (str ''room:write'') (Some room_id)" "length (mc_content payload) \<le> st_max_message_chars st"
    "create_message_sync (st_store st) (cx_env cx) (message_args p room_id s payload client) (ap_db app) =
       Inr ((m, created), ap_db app')"
    "fx = (if created then wake st @ [Broadcast room_id (MessageCreatedEvent m) None] else [])"
  using assms
  by (auto simp: act_at post_message_def validated_def act_check_def bound_actor_def authorize_def storing_def
      split: if_splits sum.splits option.splits elim!: act_bind_cases
      dest!: steadyD [OF steady_rate_limited] steadyD [OF steady_basic(7)])

text \<open>
  C37. A signed caller writes under its own name only: a message its call created carries the token's
  subject as sender, its row carries it as author, and it is announced to its room once, after the
  commit. A call that found the client's message id in use changes and announces nothing.
\<close>

theorem message_attribution:
  assumes "store_inv (st_store st) (ap_db app)" and "subject p = Some s"
    and "post_message st cx p room_id raw key app = (Inr (m, created), app', fx)"
  shows "if created
    then msg_sender m = py_strip s \<and> fx = wake st @ [Broadcast room_id (MessageCreatedEvent m) None] \<and>
      (\<exists>row\<in>set (db_messages (ap_db app')). message_from_row row = Inr m \<and> msg_room_id row = room_id \<and>
         msg_author_subject row = Some s)
    else ap_db app' = ap_db app \<and> fx = []"
proof -
  obtain payload client where
    run: "create_message_sync (st_store st) (cx_env cx) (message_args p room_id s payload client) (ap_db app) =
      Inr ((m, created), ap_db app')" and
    fx: "fx = (if created then wake st @ [Broadcast room_id (MessageCreatedEvent m) None] else [])"
    using post_message_answer [OF assms(3,2)] by metis
  show ?thesis
  proof (cases created)
    case True
    from run True have "create_message_sync (st_store st) (cx_env cx) (message_args p room_id s payload client) (ap_db app) =
      Inr ((m, True), ap_db app')" by simp
    from created_row [OF assms(1) this] show ?thesis using True fx assms(2) by (auto simp: message_args_def)
  next
    case False
    then show ?thesis using run fx by (auto elim: create_message_cases)
  qed
qed

theorem message_attribution_witness:
  "msg_sender first_message = ann \<and>
     (\<exists>row\<in>set (db_messages message_db). message_from_row row = Inr first_message \<and> msg_author_subject row = Some ann)"
  using message_attribution [OF _ _ post_sample, of ann] inv_room_db by (auto simp: strip_defs ann_def)

text \<open>
  The client's message id is one namespace for the whole room: a member who reuses an id that
  another member's message has is answered with that message, and its own text is stored nowhere,
  although the API reference has the signed subject persisted with every accepted message.
\<close>

theorem foreign_replay:
  "post_message sample_settings (sample_context 4) (member_token bob [''room:write'']) lobby
     (sample_post [121] (Some [99])) None (app_of message_db) =
     (Inr (first_message, False), (app_of message_db)\<lparr>ap_messages := [(str ''http:'' @ bob, [4])]\<rparr>, []) \<and>
   msg_sender first_message \<noteq> bob"
  using replay_sample by (simp add: first_message_def ann_def bob_def)

text \<open>
  An administrator's token passes the room's moderation everywhere but in the inbox: with a ban
  running on its subject it may read its state in the room, while the query over rooms is refused.
\<close>

theorem admin_inbox_is_banned:
  "fst (handle sample_settings (sample_context 3) (member_token ann [''admin'']) (GetReadState lobby) (app_of banned_db)) =
     Inr () \<and>
   fst (handle sample_settings (sample_context 3) (member_token ann [''admin'']) (PostReadStateQuery [lobby])
     (app_of banned_db)) = Inl (APIError 403 ''room_banned'')"
proof
  show "fst (handle sample_settings (sample_context 3) (member_token ann [''admin'']) (GetReadState lobby) (app_of banned_db)) = Inr ()"
    by (simp add: act_void_def act_bind_def fetch_read_state_def readable_def app_eval allows_def get_read_state_sync_def
        banned_db_def room_db_def get_room_row_def lobby_row_def)
  show "fst (handle sample_settings (sample_context 3) (member_token ann [''admin'']) (PostReadStateQuery [lobby])
     (app_of banned_db)) = Inl (APIError 403 ''room_banned'')"
    by (simp add: act_void_def act_bind_def post_read_state_query_def app_eval allows_def query_read_states_def
        query_read_states_sync_def read_state_summary_of_def active_ban_def banned_db_def room_db_def get_room_row_def
        lobby_row_def get_control_row_def validate_read_state_query_room_ids_def READ_STATE_QUERY_MAX_ROOMS_def lobby_def
        strip_defs ROOM_ID_PATTERN_def head_tail_def lower_def digit_def Let_def ann_def sample_env_def map_error_def)
qed

end
