(* ===== verification/App_Socket.thy ===== *)
theory App_Socket
  imports App_Messages
begin

section \<open>The WebSocket endpoint (app.py)\<close>

text \<open>
  \<open>room_websocket\<close> and \<open>run_socket_session\<close> of \<open>samsarix_chat_engine/app.py\<close> for an application with
  SQLite storage: authentication, admission, the opening snapshot, the command loop, the typing timer
  and the finalizer. The answers of the connection manager (was the connection registered, did a send
  reach the peer, did this cleanup remove the connection) are inputs; what the handler asks of it is the
  list of effects. The steps of a session are the frames its client sends and the wake-ups of its typing
  timer, in any order, with arbitrary changes of the shared state by others between them; a step runs to
  its end. Pydantic's JSON reader is the parameter \<open>decode\<close>; the validators of the commands are those
  of the request models. The close codes are those of the source; error texts are left out.
\<close>

datatype ws_event =
    WsError string | AuthRequired | Ready room pystr nat nat | History "message list" "pystr option"
  | Pong | SyncCompleted nat "pystr option" | WsMessageCreated message bool
  | PresenceJoined pystr nat | PresenceLeft pystr nat | TypingStarted pystr int | TypingStopped pystr

text \<open>
  \<open>ToOthers\<close> is a broadcast that excludes the own socket, \<open>Fence\<close> a close through the manager and
  \<open>CloseRaw\<close> one of a socket the manager does not know.
\<close>

datatype ws_effect =
    ToSelf ws_event | ToOthers ws_event | ToRoom ws_event | Fence int string | CloseRaw int string | WakeUp

subsection \<open>Origin, credentials and admission\<close>

text \<open>\<open>hostname_of\<close> is \<open>urlparse(origin).hostname\<close>; its outer \<open>None\<close> is a \<open>ValueError\<close>.\<close>

definition rstrip_slash :: "pystr \<Rightarrow> pystr" where
  "rstrip_slash s = rev (dropWhile (\<lambda>c. c = 47) (rev s))"

definition websocket_origin_allowed ::
  "(pystr \<Rightarrow> pystr option option) \<Rightarrow> pystr list \<Rightarrow> pystr option \<Rightarrow> bool" where
  "websocket_origin_allowed hostname_of allowed_origins origin = (case origin of
     None \<Rightarrow> True
   | Some raw \<Rightarrow> (let normalized = rstrip_slash raw in
       if allowed_origins \<noteq> [] then normalized \<in> set allowed_origins
       else (case hostname_of normalized of
         Some (Some h) \<Rightarrow> h \<in> set (map str [''localhost'', ''127.0.0.1'', ''::1'']) | _ \<Rightarrow> False)))"

text \<open>
  The first frame of a socket without credential headers: \<open>None\<close> when it does not come in time, is not
  text or does not parse. The result is the principal, a refusal, or \<open>None\<close> when a credential cannot be
  encoded.
\<close>

definition authenticate_websocket ::
  "pystr option \<Rightarrow> (pystr \<Rightarrow> auth_error + principal) option \<Rightarrow> pystr option \<Rightarrow> pystr option \<Rightarrow> websocket_auth option \<Rightarrow>
     (ws_effect list + principal) option \<times> ws_effect list" where
  "authenticate_websocket configured_key verify header_api_key authorization first_frame =
     (let header_bearer = bearer_from_headers authorization;
          refused = Inl [ToSelf (WsError ''authentication_failed''), CloseRaw 4401 ''Authentication required''];
          answer = (\<lambda>r. case r of None \<Rightarrow> None | Some (Inl _) \<Rightarrow> Some refused | Some (Inr p) \<Rightarrow> Some (Inr p)) in
      if configured_key = None \<and> verify = None then (Some (Inr local_operator), [])
      else if header_api_key \<noteq> None \<or> header_bearer \<noteq> None
      then (answer (authenticate_credentials configured_key verify header_api_key header_bearer), [])
      else (case first_frame of
          None \<Rightarrow> (Some refused, [ToSelf AuthRequired])
        | Some raw \<Rightarrow> (case WebSocketAuth raw of
            Inl _ \<Rightarrow> (Some refused, [ToSelf AuthRequired])
          | Inr command \<Rightarrow>
              (answer (authenticate_credentials configured_key verify (wa_api_key command) (wa_token command)), [ToSelf AuthRequired]))))"

text \<open>The name a socket speaks under, or the refusal.\<close>

definition admit_socket :: "principal \<Rightarrow> pystr \<Rightarrow> pystr option \<Rightarrow> ws_effect list + pystr" where
  "admit_socket p room_id username =
     (if \<not> allows p (str ''room:read'') (Some room_id)
      then Inl [ToSelf (WsError ''authorization_denied''), CloseRaw 4403 ''Room access denied'']
      else (case subject p of
          Some s \<Rightarrow> (if username \<noteq> None \<and> username \<noteq> Some s
            then Inl [ToSelf (WsError ''identity_mismatch''), CloseRaw 4403 ''Username mismatch''] else Inr s)
        | None \<Rightarrow> (case username of
            None \<Rightarrow> Inl [ToSelf (WsError ''username_required''), CloseRaw 1008 ''Username required'']
          | Some u \<Rightarrow> Inr u)))"

subsection \<open>Opening a session\<close>

record session =
  se_registered :: bool
  se_initialized :: bool
  se_typing :: bool
  se_task :: bool
  se_deadline :: int
  se_invalid :: nat
  se_history :: nat
  se_next_before :: "pystr option"

definition fresh_session :: "bool \<Rightarrow> session" where
  "fresh_session registered = \<lparr>se_registered = registered, se_initialized = False, se_typing = False, se_task = False,
     se_deadline = 0, se_invalid = 0, se_history = 0, se_next_before = None\<rparr>"

text \<open>
  The database when the room and its moderation are first read, when they are read again behind the
  registration and when the history is listed, with the clock of each check, and the manager's answers.
\<close>

record opening_input =
  op_first :: db
  op_first_now :: timestamp
  op_register :: bool
  op_second :: db
  op_second_now :: timestamp
  op_listed :: db
  op_active :: nat
  op_ready_sent :: bool
  op_history_sent :: bool
  op_activated :: bool

definition member_of :: "db \<Rightarrow> pystr \<Rightarrow> principal \<Rightarrow> member_moderation option" where
  "member_of d room_id p = (if truthy (subject p) then get_member_moderation d room_id (the (subject p)) else None)"

definition socket_banned :: "timestamp \<Rightarrow> db \<Rightarrow> pystr \<Rightarrow> principal \<Rightarrow> bool" where
  "socket_banned now d room_id p \<longleftrightarrow> \<not> is_admin p \<and>
     (case member_of d room_id p of None \<Rightarrow> False | Some m \<Rightarrow> after now (mod_banned_until m))"

text \<open>The error code, the close code, and the close reasons of the first and of the second check.\<close>

definition room_refusal ::
  "timestamp \<Rightarrow> db \<Rightarrow> pystr \<Rightarrow> principal \<Rightarrow> (string \<times> int \<times> string \<times> string) option" where
  "room_refusal now d room_id p = (case get_room d room_id of
     None \<Rightarrow> Some (''room_not_found'', 4404, ''Room not found'', ''Room not found'')
   | Some room \<Rightarrow>
       (if socket_banned now d room_id p then Some (''room_banned'', 4403, ''Room access revoked'', ''This account is banned from the room'')
        else if ro_archived_at room \<noteq> None then Some (''room_archived'', 4409, ''Room archived'', ''Archived rooms are read-only'') else None))"

text \<open>
  The outcome: the session did not open (with its registration), it opened, or a storage call raised.
\<close>

datatype opened = NotOpened session | Opened session | OpenFailed session store_error

definition open_socket :: "app_settings \<Rightarrow> opening_input \<Rightarrow> principal \<Rightarrow> pystr \<Rightarrow> pystr \<Rightarrow> opened \<times> ws_effect list" where
  "open_socket st oi p room_id username = (case room_refusal (op_first_now oi) (op_first oi) room_id p of
     Some (code, c, reason, _) \<Rightarrow> (NotOpened (fresh_session False), [ToSelf (WsError code), CloseRaw c reason])
   | None \<Rightarrow>
       (if \<not> op_register oi
        then (NotOpened (fresh_session False), [ToSelf (WsError ''connection_capacity_reached''), CloseRaw 1013 ''Try again later''])
        else (let s = fresh_session True in
          case room_refusal (op_second_now oi) (op_second oi) room_id p of
            Some (code, c, _, reason) \<Rightarrow> (NotOpened s, [ToSelf (WsError code), Fence c reason])
          | None \<Rightarrow> (case list_messages_sync room_id 50 None (op_listed oi) of
              Inl e \<Rightarrow> (OpenFailed s e, [])
            | Inr (history, next_before) \<Rightarrow>
                (let ready = ToSelf (Ready (the (get_room (op_second oi) room_id)) username (op_active oi) (st_max_message_chars st)) in
                 if \<not> op_ready_sent oi then (NotOpened s, [ready])
                 else if \<not> op_history_sent oi \<or> \<not> op_activated oi then (NotOpened s, [ready, ToSelf (History history next_before)])
                 else (Opened (s\<lparr>se_initialized := True, se_history := length history, se_next_before := next_before\<rparr>),
                   [ready, ToSelf (History history next_before), ToOthers (PresenceJoined username (op_active oi))]))))))"

subsection \<open>Typing\<close>

definition set_typing :: "int \<Rightarrow> int \<Rightarrow> pystr \<Rightarrow> bool \<Rightarrow> session \<Rightarrow> session \<times> ws_effect list" where
  "set_typing timeout now username active s =
     (if active
      then (s\<lparr>se_deadline := now + timeout, se_typing := True, se_task := True\<rparr>,
            if se_typing s then [] else [ToOthers (TypingStarted username timeout)])
      else if se_typing s then (s\<lparr>se_typing := False\<rparr>, [ToOthers (TypingStopped username)])
      else (s, []))"

text \<open>A wake-up of \<open>expire_typing\<close>; a timer that finds nothing to wait for ends.\<close>

definition expire_typing :: "int \<Rightarrow> pystr \<Rightarrow> session \<Rightarrow> session \<times> ws_effect list" where
  "expire_typing now username s =
     (if \<not> se_task s then (s, [])
      else if \<not> se_typing s then (s\<lparr>se_task := False\<rparr>, [])
      else if 0 < se_deadline s - now then (s, [])
      else (s\<lparr>se_typing := False, se_task := False\<rparr>, [ToOthers (TypingStopped username)]))"

subsection \<open>Commands\<close>

record shared =
  sh_app :: app
  sh_typing :: events

record socket_settings =
  so_max_bytes :: nat
  so_typing_limit :: limiter
  so_typing_timeout :: int

text \<open>A frame with the clocks of its handling; \<open>si_tick\<close> is the clock of the typing deadline.\<close>

record socket_input =
  si_cx :: request_context
  si_tick :: int

datatype verdict = Continue | Ended | StorageError | Crashed

type_synonym outcome = "verdict \<times> session \<times> shared \<times> ws_effect list"

definition refuse :: "string \<Rightarrow> session \<Rightarrow> shared \<Rightarrow> outcome" where
  "refuse code s sh = (Continue, s, sh, [ToSelf (WsError code)])"

definition refuse_and_close :: "string \<Rightarrow> int \<Rightarrow> string \<Rightarrow> session \<Rightarrow> shared \<Rightarrow> outcome" where
  "refuse_and_close code c reason s sh = (Ended, s, sh, [ToSelf (WsError code), Fence c reason])"

definition socket_typing ::
  "socket_settings \<Rightarrow> principal \<Rightarrow> pystr \<Rightarrow> pystr \<Rightarrow> socket_input \<Rightarrow> bool \<Rightarrow> session \<Rightarrow> shared \<Rightarrow> outcome" where
  "socket_typing so p room_id username si active s sh =
     (let d = ap_db (sh_app sh); now = cx_now (si_cx si) in
      if \<not> allows p (str ''room:write'') (Some room_id) then refuse ''authorization_denied'' s sh
      else (case get_room d room_id of
          None \<Rightarrow> refuse_and_close ''room_not_found'' 4404 ''Room not found'' s sh
        | Some room \<Rightarrow>
            (if ro_archived_at room \<noteq> None then refuse_and_close ''room_archived'' 4409 ''Room archived'' s sh
             else if ro_frozen_at room \<noteq> None \<and> \<not> is_admin p then refuse ''room_frozen'' s sh
             else if socket_banned now d room_id p then refuse_and_close ''room_banned'' 4403 ''Room access revoked'' s sh
             else if \<not> is_admin p \<and> (case member_of d room_id p of None \<Rightarrow> False | Some m \<Rightarrow> after now (mod_muted_until m))
             then refuse ''room_muted'' s sh
             else (let (ok, ev) = allow (so_typing_limit so) (cx_clock (si_cx si))
                     (str ''typing:'' @ rate_subject p (cx_client (si_cx si))) (sh_typing sh);
                   sh' = sh\<lparr>sh_typing := ev\<rparr> in
               if \<not> ok then refuse ''typing_rate_limit_exceeded'' s sh'
               else (let (s', fx) = set_typing (so_typing_timeout so) (si_tick si) username active s in
                 (Continue, s', sh', fx))))))"

text \<open>\<open>_MESSAGE_WRITE_ERRORS\<close>: the code of a write error the loop answers, and the close it asks for.\<close>

fun message_write_error :: "store_error \<Rightarrow> (string \<times> (int \<times> string) option) option" where
  "message_write_error (RoomArchivedError _) = Some (''room_archived'', Some (4409, ''Room archived''))"
| "message_write_error (RoomFrozenError _) = Some (''room_frozen'', None)"
| "message_write_error (MemberBannedError _) = Some (''room_banned'', Some (4403, ''Room access revoked''))"
| "message_write_error (MemberMutedError _) = Some (''room_muted'', None)"
| "message_write_error WebhookCapacityError = Some (''webhook_capacity_reached'', None)"
| "message_write_error (MessageNotFoundError _) = Some (''parent_message_not_found'', None)"
| "message_write_error (MessageDeletedError _) = Some (''parent_message_deleted'', None)"
| "message_write_error (ThreadDepthError _) = Some (''thread_depth_exceeded'', None)"
| "message_write_error (RoomNotFoundError _) = Some (''room_not_found'', Some (4404, ''Room not found''))"
| "message_write_error _ = None"

definition uncaught :: "store_error \<Rightarrow> verdict" where
  "uncaught e = (if e = IntegrityError then StorageError else Crashed)"

definition socket_message ::
  "app_settings \<Rightarrow> socket_settings \<Rightarrow> principal \<Rightarrow> pystr \<Rightarrow> pystr \<Rightarrow> socket_input \<Rightarrow> message_create \<Rightarrow> session \<Rightarrow> shared \<Rightarrow> outcome" where
  "socket_message st so p room_id username si payload s sh =
     (let cx = si_cx si in
      if \<not> allows p (str ''room:write'') (Some room_id) then refuse ''authorization_denied'' s sh
      else if \<not> length (mc_content payload) \<le> st_max_message_chars st then refuse ''message_too_large'' s sh
      else (case rate_limited st MessageLimiter (cx_clock cx) (str ''ws:'' @ rate_subject p (cx_client cx))
               ''rate_limit_exceeded'' (sh_app sh) of
          (Inl _, app1, _) \<Rightarrow> refuse ''rate_limit_exceeded'' s (sh\<lparr>sh_app := app1\<rparr>)
        | (Inr _, app1, _) \<Rightarrow> (let sh1 = sh\<lparr>sh_app := app1\<rparr> in
            case create_message_sync (st_store st) (cx_env cx)
                (message_args p room_id username payload (mc_client_message_id payload)) (ap_db app1) of
              Inl e \<Rightarrow> (case message_write_error e of
                  None \<Rightarrow> (uncaught e, s, sh1, [])
                | Some (code, None) \<Rightarrow> refuse code s sh1
                | Some (code, Some (c, reason)) \<Rightarrow> refuse_and_close code c reason s sh1)
            | Inr ((message, created), d) \<Rightarrow>
                (let (s', fx) = set_typing (so_typing_timeout so) (si_tick si) username False s in
                 (Continue, s', sh1\<lparr>sh_app := app1\<lparr>ap_db := d\<rparr>\<rparr>,
                  fx @ (if created then map (\<lambda>_. WakeUp) (wake st) @ [ToRoom (WsMessageCreated message False)]
                        else [ToSelf (WsMessageCreated message True)]))))))"

subsection \<open>The loop\<close>

datatype raw_command = RawMessage message_create | RawPing | RawSync | RawTyping bool

datatype packet = Disconnect | NotText | Text pystr

definition command_of :: "(pystr \<Rightarrow> raw_command option) \<Rightarrow> pystr \<Rightarrow> raw_command option" where
  "command_of decode raw = (case decode raw of
     Some (RawMessage payload) \<Rightarrow> (case WebSocketMessage payload of Inl _ \<Rightarrow> None | Inr c \<Rightarrow> Some (RawMessage c))
   | r \<Rightarrow> r)"

definition invalid_frame :: "string \<Rightarrow> int \<Rightarrow> string \<Rightarrow> session \<Rightarrow> shared \<Rightarrow> outcome" where
  "invalid_frame code c reason s sh = (let s' = s\<lparr>se_invalid := se_invalid s + 1\<rparr> in
     if 3 \<le> se_invalid s' then refuse_and_close code c reason s' sh else refuse code s' sh)"

fun socket_command ::
  "app_settings \<Rightarrow> socket_settings \<Rightarrow> principal \<Rightarrow> pystr \<Rightarrow> pystr \<Rightarrow> socket_input \<Rightarrow> raw_command \<Rightarrow> session \<Rightarrow> shared \<Rightarrow> outcome" where
  "socket_command st so p room_id username si RawPing s sh = (Continue, s, sh, [ToSelf Pong])"
| "socket_command st so p room_id username si RawSync s sh =
     (Continue, s, sh, [ToSelf (SyncCompleted (se_history s) (se_next_before s))])"
| "socket_command st so p room_id username si (RawTyping active) s sh = socket_typing so p room_id username si active s sh"
| "socket_command st so p room_id username si (RawMessage payload) s sh = socket_message st so p room_id username si payload s sh"

fun socket_packet ::
  "app_settings \<Rightarrow> socket_settings \<Rightarrow> (pystr \<Rightarrow> raw_command option) \<Rightarrow> principal \<Rightarrow> pystr \<Rightarrow> pystr \<Rightarrow> socket_input \<Rightarrow> packet \<Rightarrow>
     session \<Rightarrow> shared \<Rightarrow> outcome" where
  "socket_packet st so decode p room_id username si Disconnect s sh = (Ended, s, sh, [])"
| "socket_packet st so decode p room_id username si NotText s sh = invalid_frame ''text_required'' 1003 ''Text frames required'' s sh"
| "socket_packet st so decode p room_id username si (Text raw) s sh =
     (if so_max_bytes so < utf8_len raw then refuse_and_close ''frame_too_large'' 1009 ''Message too large'' s sh
      else (case command_of decode raw of
          None \<Rightarrow> invalid_frame ''invalid_command'' 1008 ''Too many invalid commands'' s sh
        | Some command \<Rightarrow> socket_command st so p room_id username si command (s\<lparr>se_invalid := 0\<rparr>) sh))"

datatype socket_step = Packet socket_input packet | TypingTimer int | Elsewhere shared

fun socket_run ::
  "app_settings \<Rightarrow> socket_settings \<Rightarrow> (pystr \<Rightarrow> raw_command option) \<Rightarrow> principal \<Rightarrow> pystr \<Rightarrow> pystr \<Rightarrow> socket_step list \<Rightarrow>
     session \<Rightarrow> shared \<Rightarrow> outcome" where
  "socket_run st so decode p room_id username [] s sh = (Continue, s, sh, [])"
| "socket_run st so decode p room_id username (Elsewhere sh' # steps) s sh =
     socket_run st so decode p room_id username steps s sh'"
| "socket_run st so decode p room_id username (TypingTimer now # steps) s sh =
     (case expire_typing now username s of (s1, fx1) \<Rightarrow>
       (case socket_run st so decode p room_id username steps s1 sh of (v, s2, sh2, fx2) \<Rightarrow> (v, s2, sh2, fx1 @ fx2)))"
| "socket_run st so decode p room_id username (Packet si k # steps) s sh =
     (case socket_packet st so decode p room_id username si k s sh of
        (Continue, s1, sh1, fx1) \<Rightarrow>
          (case socket_run st so decode p room_id username steps s1 sh1 of (v, s2, sh2, fx2) \<Rightarrow> (v, s2, sh2, fx1 @ fx2))
      | (v, s1, sh1, fx1) \<Rightarrow> (v, s1, sh1, fx1))"

subsection \<open>The finalizer\<close>

text \<open>\<open>removed\<close>: the manager's close found the connection; \<open>active\<close>: the room's connections afterwards.\<close>

definition cleanup :: "int \<Rightarrow> string \<Rightarrow> bool \<Rightarrow> nat \<Rightarrow> pystr \<Rightarrow> session \<Rightarrow> ws_effect list" where
  "cleanup close_code close_reason removed active username s =
     [Fence close_code close_reason] @ (if se_registered s then [] else [CloseRaw close_code close_reason]) @
     (if se_typing s then [ToOthers (TypingStopped username)] else []) @
     (if removed \<and> se_initialized s then [ToRoom (PresenceLeft username active)] else [])"

definition finish_socket :: "verdict \<Rightarrow> bool \<Rightarrow> nat \<Rightarrow> pystr \<Rightarrow> session \<Rightarrow> ws_effect list" where
  "finish_socket v removed active username s = (case v of
     StorageError \<Rightarrow> ToSelf (WsError ''storage_unavailable'') # cleanup 1012 ''Storage unavailable'' removed active username s
   | Crashed \<Rightarrow> cleanup 1011 ''Unexpected server error'' removed active username s
   | _ \<Rightarrow> cleanup 1000 ''Connection ended'' removed active username s)"

text \<open>
  A whole session of an admitted socket: \<open>None\<close> when the steps end before the session does.
\<close>

definition serve_socket ::
  "app_settings \<Rightarrow> socket_settings \<Rightarrow> (pystr \<Rightarrow> raw_command option) \<Rightarrow> opening_input \<Rightarrow> principal \<Rightarrow> pystr \<Rightarrow> pystr \<Rightarrow> socket_step list \<Rightarrow>
     bool \<Rightarrow> nat \<Rightarrow> shared \<Rightarrow> (shared \<times> ws_effect list) option" where
  "serve_socket st so decode oi p room_id username steps removed active sh =
     (case open_socket st oi p room_id username of
        (NotOpened s, fx) \<Rightarrow> Some (sh, fx @ finish_socket Ended removed active username s)
      | (OpenFailed s e, fx) \<Rightarrow> Some (sh, fx @ finish_socket (uncaught e) removed active username s)
      | (Opened s, fx) \<Rightarrow> (case socket_run st so decode p room_id username steps s sh of
          (Continue, _) \<Rightarrow> None
        | (v, s', sh', fx') \<Rightarrow> Some (sh', fx @ fx' @ finish_socket v removed active username s')))"

end
