(* ===== verification/Socket_Properties.thy ===== *)
theory Socket_Properties
  imports App_Socket App_Properties
begin

section \<open>Properties of the WebSocket endpoint\<close>

text \<open>
  The socket and the HTTP interface write messages alike; what a session starts in the room it also ends;
  content reaches only admitted connections; and a socket that may not write changes nothing.
\<close>

fun typing_signal :: "ws_effect \<Rightarrow> bool list" where
  "typing_signal (ToOthers (TypingStarted _ _)) = [True]"
| "typing_signal (ToOthers (TypingStopped _)) = [False]"
| "typing_signal _ = []"

fun presence_signal :: "ws_effect \<Rightarrow> bool list" where
  "presence_signal (ToOthers (PresenceJoined _ _)) = [True]"
| "presence_signal (ToRoom (PresenceLeft _ _)) = [False]"
| "presence_signal _ = []"

definition typing_signals :: "ws_effect list \<Rightarrow> bool list" where
  "typing_signals fx = concat (map typing_signal fx)"

definition presence_signals :: "ws_effect list \<Rightarrow> bool list" where
  "presence_signals fx = concat (map presence_signal fx)"

text \<open>Signals that alternate from one state to another.\<close>

fun toggles :: "bool \<Rightarrow> bool list \<Rightarrow> bool \<Rightarrow> bool" where
  "toggles b [] b' \<longleftrightarrow> b = b'"
| "toggles b (x # xs) b' \<longleftrightarrow> x \<noteq> b \<and> toggles x xs b'"

definition no_interference :: "socket_step list \<Rightarrow> bool" where
  "no_interference steps \<longleftrightarrow> list_all (\<lambda>x. case x of Elsewhere _ \<Rightarrow> False | _ \<Rightarrow> True) steps"

fun own_effect :: "ws_effect \<Rightarrow> bool" where
  "own_effect (ToOthers _) \<longleftrightarrow> False"
| "own_effect (ToRoom _) \<longleftrightarrow> False"
| "own_effect WakeUp \<longleftrightarrow> False"
| "own_effect _ \<longleftrightarrow> True"

fun room_content :: "ws_effect \<Rightarrow> bool" where
  "room_content (ToSelf (Ready _ _ _ _)) \<longleftrightarrow> True"
| "room_content (ToSelf (History _ _)) \<longleftrightarrow> True"
| "room_content (ToSelf (WsMessageCreated _ _)) \<longleftrightarrow> True"
| "room_content _ \<longleftrightarrow> False"

subsection \<open>The shape of a session's effects\<close>

lemma signals_simps [simp]:
  "typing_signals [] = []" "typing_signals (x # fx) = typing_signal x @ typing_signals fx"
  "typing_signals (fx @ gx) = typing_signals fx @ typing_signals gx"
  "presence_signals [] = []" "presence_signals (x # fx) = presence_signal x @ presence_signals fx"
  "presence_signals (fx @ gx) = presence_signals fx @ presence_signals gx"
  by (simp_all add: typing_signals_def presence_signals_def)

lemma signals_wake [simp]: "typing_signals (map (\<lambda>_. WakeUp) xs) = []" "presence_signals (map (\<lambda>_. WakeUp) xs) = []"
  by (induction xs) simp_all

lemma toggles_append: "toggles b xs c \<Longrightarrow> toggles c ys d \<Longrightarrow> toggles b (xs @ ys) d"
  by (induction b xs c rule: toggles.induct) auto

text \<open>What one frame may do to the session: \<open>kept\<close> relates the session before and after with the effects.\<close>

definition kept :: "session \<Rightarrow> session \<Rightarrow> ws_effect list \<Rightarrow> bool" where
  "kept s s' fx \<longleftrightarrow> toggles (se_typing s) (typing_signals fx) (se_typing s') \<and> presence_signals fx = [] \<and>
     ((se_typing s \<longrightarrow> se_task s) \<longrightarrow> (se_typing s' \<longrightarrow> se_task s')) \<and>
     se_registered s' = se_registered s \<and> se_initialized s' = se_initialized s"

lemma kept_silent: "typing_signals fx = [] \<Longrightarrow> presence_signals fx = [] \<Longrightarrow> kept s (s\<lparr>se_invalid := n\<rparr>) fx"
  "typing_signals fx = [] \<Longrightarrow> presence_signals fx = [] \<Longrightarrow> kept s s fx"
  by (simp_all add: kept_def)

lemma kept_trans: "kept s s1 fx \<Longrightarrow> kept s1 s2 gx \<Longrightarrow> kept s s2 (fx @ gx)"
  unfolding kept_def by (auto intro: toggles_append)

lemma kept_set_typing: "set_typing t now u active s = (s', fx) \<Longrightarrow> kept s s' fx"
  by (auto simp: set_typing_def kept_def split: if_splits)

lemma kept_expire: "expire_typing now u s = (s', fx) \<Longrightarrow> kept s s' fx"
  by (auto simp: expire_typing_def kept_def split: if_splits)

lemma kept_refuse: "refuse code s sh = (v, s', sh', fx) \<Longrightarrow> kept s s' fx"
  "refuse_and_close code c reason s sh = (v, s', sh', fx) \<Longrightarrow> kept s s' fx"
  by (auto simp: refuse_def refuse_and_close_def kept_silent)

lemma kept_more: "kept s s' fx \<Longrightarrow> typing_signals gx = [] \<Longrightarrow> presence_signals gx = [] \<Longrightarrow> kept s s' (fx @ gx)"
  by (simp add: kept_def)

lemma kept_invalid: "kept (s\<lparr>se_invalid := n\<rparr>) s' fx \<Longrightarrow> kept s s' fx"
  by (simp add: kept_def)

lemma kept_typing: "socket_typing so p r u si active s sh = (v, s', sh', fx) \<Longrightarrow> kept s s' fx"
  by (auto simp: socket_typing_def Let_def split: if_splits option.splits prod.splits
      intro: kept_refuse kept_set_typing)

lemma kept_message: "socket_message st so p r u si payload s sh = (v, s', sh', fx) \<Longrightarrow> kept s s' fx"
  by (auto simp: socket_message_def Let_def kept_silent split: if_splits option.splits prod.splits sum.splits
      dest: kept_set_typing intro: kept_refuse kept_more)

lemma kept_packet:
  assumes "socket_packet st so decode p r u si k s sh = (v, s', sh', fx)"
  shows "kept s s' fx"
proof -
  have command: "kept s s' fx" if "socket_command st so p r u si c (s\<lparr>se_invalid := 0\<rparr>) sh = (v, s', sh', fx)" for c
  proof (rule kept_invalid [where n = 0])
    show "kept (s\<lparr>se_invalid := 0\<rparr>) s' fx"
    proof (cases c)
      case (RawMessage payload)
      show ?thesis by (rule kept_message) (use that in \<open>simp add: RawMessage\<close>)
    next
      case (RawTyping active)
      show ?thesis by (rule kept_typing) (use that in \<open>simp add: RawTyping\<close>)
    qed (use that kept_silent(2) in auto)
  qed
  have invalid: "kept s s' fx" if "invalid_frame code c reason s sh = (v, s', sh', fx)" for code c reason
    by (rule kept_invalid [where n = "se_invalid s + 1"])
      (use that in \<open>auto simp: invalid_frame_def Let_def split: if_splits dest: kept_refuse\<close>)
  show ?thesis using assms
    by (cases k) (auto simp: kept_silent split: if_splits option.splits dest: kept_refuse command invalid)
qed

lemma kept_run: "socket_run st so decode p r u steps s sh = (v, s', sh', fx) \<Longrightarrow> kept s s' fx"
proof (induction st so decode p r u steps s sh arbitrary: v s' sh' fx rule: socket_run.induct)
  case (3 st so decode p r u now steps s sh)
  then show ?case by (auto split: prod.splits intro: kept_trans kept_expire)
next
  case (4 st so decode p r u si k steps s sh)
  then show ?case by (auto split: prod.splits verdict.splits intro: kept_trans kept_packet)
qed (simp_all add: kept_silent)

lemma open_socket_cases:
  assumes "open_socket st oi p r u = (res, fx)"
  obtains (closed) s where "res = NotOpened s" "\<not> se_typing s" "\<not> se_initialized s" "typing_signals fx = []" "presence_signals fx = []"
  | (failed) s e where "res = OpenFailed s e" "\<not> se_typing s" "\<not> se_initialized s" "fx = []"
  | (opened) s history next_before where "res = Opened s" "\<not> se_typing s" "se_initialized s" "se_registered s"
    "room_refusal (op_first_now oi) (op_first oi) r p = None" "room_refusal (op_second_now oi) (op_second oi) r p = None"
    "op_register oi" "list_messages_sync r 50 None (op_listed oi) = Inr (history, next_before)"
    "fx = [ToSelf (Ready (the (get_room (op_second oi) r)) u (op_active oi) (st_max_message_chars st)),
       ToSelf (History history next_before), ToOthers (PresenceJoined u (op_active oi))]"
proof (cases "room_refusal (op_first_now oi) (op_first oi) r p")
  case (Some a)
  then show ?thesis
    by (intro closed [of "fresh_session False"]) (use assms in \<open>auto simp: open_socket_def fresh_session_def split: prod.splits\<close>)
next
  case first: None
  consider (full) "\<not> op_register oi" | (refused) a where "op_register oi" "room_refusal (op_second_now oi) (op_second oi) r p = Some a"
    | (registered) "op_register oi" "room_refusal (op_second_now oi) (op_second oi) r p = None" by fastforce
  then show ?thesis
  proof cases
    case full
    then show ?thesis
      by (intro closed [of "fresh_session False"]) (use assms first in \<open>auto simp: open_socket_def fresh_session_def\<close>)
  next
    case refused
    then show ?thesis
      by (intro closed [of "fresh_session True"]) (use assms first in \<open>auto simp: open_socket_def fresh_session_def Let_def split: prod.splits\<close>)
  next
    case registered
    show ?thesis
    proof (cases "list_messages_sync r 50 None (op_listed oi)")
      case (Inl e)
      then show ?thesis
        by (intro failed [of "fresh_session True" e])
          (use assms first registered in \<open>auto simp: open_socket_def fresh_session_def Let_def\<close>)
    next
      case (Inr h)
      obtain history next_before where h: "h = (history, next_before)" by (cases h)
      show ?thesis
      proof (cases "op_ready_sent oi \<and> op_history_sent oi \<and> op_activated oi")
        case True
        then show ?thesis
          by (intro opened [of "(fresh_session True)\<lparr>se_initialized := True, se_history := length history, se_next_before := next_before\<rparr>" history next_before])
            (use assms first registered Inr h in \<open>auto simp: open_socket_def fresh_session_def Let_def\<close>)
      next
        case False
        then show ?thesis
          by (intro closed [of "fresh_session True"])
            (use assms first registered Inr h in \<open>auto simp: open_socket_def fresh_session_def Let_def split: if_splits\<close>)
      qed
    qed
  qed
qed

lemma cleanup_signals:
  "typing_signals (finish_socket v removed n u s) = (if se_typing s then [False] else [])"
  "presence_signals (finish_socket v removed n u s) = (if removed \<and> se_initialized s then [False] else [])"
  by (cases v; simp add: finish_socket_def cleanup_def)+


text \<open>A session in which a member types, sends a message and leaves.\<close>

definition sample_opening :: opening_input where
  "sample_opening = \<lparr>op_first = room_db, op_first_now = 3, op_register = True, op_second = room_db, op_second_now = 3,
     op_listed = room_db, op_active = 1, op_ready_sent = True, op_history_sent = True, op_activated = True\<rparr>"

definition sample_socket :: socket_settings where
  "sample_socket = \<lparr>so_max_bytes = 100, so_typing_limit = \<lparr>rl_limit = 5, rl_window = 60, rl_max_keys = 10\<rparr>,
     so_typing_timeout = 8\<rparr>"

definition sample_input :: "nat \<Rightarrow> socket_input" where
  "sample_input n = \<lparr>si_cx = sample_context n, si_tick = int n\<rparr>"

definition sample_shared :: "db \<Rightarrow> shared" where
  "sample_shared d = \<lparr>sh_app = app_of d, sh_typing = []\<rparr>"

definition sample_decode :: "pystr \<Rightarrow> raw_command option" where
  "sample_decode raw = (if raw = [116] then Some (RawTyping True)
     else if raw = [109] then Some (RawMessage (sample_post [104, 105] (Some [99]))) else None)"

lemma sample_socket_simps [simp]:
  "so_max_bytes sample_socket = 100" "so_typing_timeout sample_socket = 8"
  "so_typing_limit sample_socket = \<lparr>rl_limit = 5, rl_window = 60, rl_max_keys = 10\<rparr>"
  "si_cx (sample_input n) = sample_context n" "si_tick (sample_input n) = int n"
  "sh_app (sample_shared d) = app_of d" "sh_typing (sample_shared d) = []"
  by (simp_all add: sample_socket_def sample_input_def sample_shared_def)

lemma get_row_room_db: "get_room_row room_db lobby = Some lobby_row"
  by (simp add: get_room_row_def room_db_def lobby_row_def)

lemma sample_room [simp]: "get_room room_db lobby = Some (room_from_row lobby_row)"
  by (simp add: get_room_def get_room_row_def room_db_def lobby_row_def)

lemma sample_unrestrained [simp]: "room_refusal now room_db lobby (member_token ann perms) = None"
  by (simp add: room_refusal_def socket_banned_def member_of_def get_member_moderation_def room_from_row_def lobby_row_def)

lemma sample_history [simp]: "list_messages_sync lobby 50 None room_db = Inr ([], None)"
  by (simp add: list_messages_sync_def get_row_room_db room_messages_def message_page_def paginate_rows_def select_before_def
      resolve_cursor_def) (simp add: room_db_def empty_db_def order_by_def order_by_desc_def)

definition sample_steps :: "socket_step list" where
  "sample_steps = [Packet (sample_input 3) (Text [116]), Packet (sample_input 4) Disconnect]"

lemma sample_member [simp]: "member_of room_db lobby (member_token s perms) = None"
  by (simp add: member_of_def get_member_moderation_def)

lemma sample_free [simp]: "\<not> socket_banned now room_db lobby (member_token s perms)"
  by (simp add: socket_banned_def)

lemma sample_room_open [simp]: "ro_archived_at (room_from_row lobby_row) = None" "ro_frozen_at (room_from_row lobby_row) = None"
    "ro_archived_at lobby_row = None" "ro_frozen_at lobby_row = None"
  by (simp_all add: room_from_row_def lobby_row_def)

lemma fresh_session_simps [simp]:
  "se_registered (fresh_session b) = b" "\<not> se_initialized (fresh_session b)" "\<not> se_typing (fresh_session b)" "\<not> se_task (fresh_session b)"
  by (simp_all add: fresh_session_def)

lemma sample_served:
  "\<exists>sh fx. serve_socket sample_settings sample_socket sample_decode sample_opening
     (member_token ann [''room:read'', ''room:write'']) lobby ann sample_steps True 0 (sample_shared room_db) = Some (sh, fx) \<and>
     typing_signals fx = [True, False]"
  by (simp add: serve_socket_def open_socket_def sample_opening_def sample_steps_def socket_typing_def utf8_len_def
      utf8_width_def command_of_def sample_decode_def Let_def set_typing_def str_def finish_socket_def cleanup_def)


subsection \<open>Who gets content and who writes\<close>



lemma read_only_command:
  assumes "\<not> allows p (str ''room:write'') (Some r)" and "socket_command st so p r u si c s sh = (v, s', sh', fx)"
  shows "sh' = sh \<and> se_typing s' = se_typing s \<and> list_all own_effect fx"
  using assms by (cases c) (auto simp: socket_typing_def socket_message_def refuse_def Let_def)

lemma read_only_packet:
  assumes no: "\<not> allows p (str ''room:write'') (Some r)" and run: "socket_packet st so decode p r u si k s sh = (v, s', sh', fx)"
  shows "sh' = sh \<and> se_typing s' = se_typing s \<and> list_all own_effect fx"
proof (cases k)
  case (Text raw)
  then show ?thesis
    using run read_only_command [OF no, of st so u si _ "s\<lparr>se_invalid := 0\<rparr>"]
    by (fastforce simp: refuse_def refuse_and_close_def invalid_frame_def Let_def split: if_splits option.splits)
qed (use run in \<open>auto simp: refuse_def refuse_and_close_def invalid_frame_def Let_def split: if_splits\<close>)

lemma read_only_run:
  "\<not> allows p (str ''room:write'') (Some r) \<Longrightarrow> no_interference steps \<Longrightarrow> \<not> se_typing s \<Longrightarrow>
     socket_run st so decode p r u steps s sh = (v, s', sh', fx) \<Longrightarrow> sh' = sh \<and> list_all own_effect fx"
proof (induction st so decode p r u steps s sh arbitrary: v s' sh' fx rule: socket_run.induct)
  case (3 st so decode p r u now steps s sh)
  obtain v1 s1 sh1 fx1 where rest: "socket_run st so decode p r u steps (fst (expire_typing now u s)) sh = (v1, s1, sh1, fx1)"
    by (metis prod_cases4)
  have e: "snd (expire_typing now u s) = []" "\<not> se_typing (fst (expire_typing now u s))"
    using 3(4) by (simp_all add: expire_typing_def)
  show ?case
    using 3 rest e by (cases "expire_typing now u s") (auto simp: no_interference_def)
next
  case (4 st so decode p r u si k steps s sh)
  obtain v1 s1 sh1 fx1 where one: "socket_packet st so decode p r u si k s sh = (v1, s1, sh1, fx1)"
    by (metis prod_cases4)
  note own = read_only_packet [OF 4(2) one]
  show ?case
  proof (cases "v1 = Continue")
    case True
    obtain v2 s2 sh2 fx2 where rest: "socket_run st so decode p r u steps s1 sh1 = (v2, s2, sh2, fx2)"
      by (metis prod_cases4)
    have "sh2 = sh1 \<and> list_all own_effect fx2"
      using 4(1) [OF one [symmetric] True refl refl 4(2)] 4(3,4) own rest by (simp add: no_interference_def)
    then show ?thesis using 4(5) one own rest True by auto
  next
    case False
    then show ?thesis using 4(5) one own by (cases v1) simp_all
  qed
qed (auto simp: no_interference_def)

text \<open>
  A socket that may not write to its room is read-only: whatever frames its client sends, with no
  one else acting, the database and the rate limiters stay as they are, and nothing is broadcast to
  others; it only gets answers, or is closed.
\<close>

theorem read_only_socket:
  assumes "\<not> allows p (str ''room:write'') (Some room_id)" and "no_interference steps"
    and "open_socket st oi p room_id username = (Opened s, fx0)"
    and "socket_run st so decode p room_id username steps s sh = (v, s', sh', fx)"
  shows "sh' = sh \<and> list_all own_effect fx"
proof -
  have "\<not> se_typing s" using assms(3) by (cases rule: open_socket_cases) auto
  then show ?thesis using read_only_run assms(1,2,4) by blast
qed

theorem read_only_socket_witness:
  "\<exists>s v s' sh' fx. open_socket sample_settings sample_opening (member_token ann [''room:read'']) lobby ann = (Opened s,
       [ToSelf (Ready (room_from_row lobby_row) ann 1 100), ToSelf (History [] None), ToOthers (PresenceJoined ann 1)]) \<and>
     socket_run sample_settings sample_socket sample_decode (member_token ann [''room:read'']) lobby ann sample_steps s
       (sample_shared room_db) = (v, s', sh', fx) \<and> sh' = sample_shared room_db \<and> list_all own_effect fx"
proof -
  obtain s where o: "open_socket sample_settings sample_opening (member_token ann [''room:read'']) lobby ann = (Opened s,
       [ToSelf (Ready (room_from_row lobby_row) ann 1 100), ToSelf (History [] None), ToOthers (PresenceJoined ann 1)])"
    by (simp add: open_socket_def sample_opening_def Let_def)
  obtain v s' sh' fx where r: "socket_run sample_settings sample_socket sample_decode (member_token ann [''room:read'']) lobby ann
      sample_steps s (sample_shared room_db) = (v, s', sh', fx)"
    by (metis prod_cases4)
  have "sh' = sample_shared room_db \<and> list_all own_effect fx"
    by (rule read_only_socket [OF _ _ o r]) (simp_all add: str_def no_interference_def sample_steps_def)
  then show ?thesis using o r by blast
qed

subsection \<open>The two ways to write a message\<close>

lemma create_passes_guard:
  assumes "create_message_sync cfg e (message_args p r s payload c) (ap_db app) = Inr x" and "now_enforce e = now"
  shows "enforce_member_access now p r True app = (Inr (), app, [])"
proof -
  have "room_write_gate e r False (is_admin p) (member_subject_of p) (ap_db app) = Inr ()"
    using create_message_gate [OF assms(1)] by (simp add: message_args_def)
  then have "enforce_member_write_sync now r (member_subject_of p) (ap_db app) = Inr ()"
    using assms(2) by (simp add: room_write_gate_Inr)
  then show ?thesis
    by (cases "is_admin p") (auto simp: enforce_member_access_def enforce_member_write_Inr member_subject_of_def
        get_member_moderation_def moderation_from_row_def after_def split: option.splits)
qed

text \<open>What a write request of either interface comes to once its limiter let it pass.\<close>

definition written ::
  "app_settings \<Rightarrow> request_context \<Rightarrow> principal \<Rightarrow> pystr \<Rightarrow> pystr \<Rightarrow> message_create \<Rightarrow> db \<Rightarrow> ((message \<times> bool) \<times> db) option" where
  "written st cx p r u payload d =
     (if allows p (str ''room:write'') (Some r) \<and> length (mc_content payload) \<le> st_max_message_chars st
      then (case create_message_sync (st_store st) (cx_env cx) (message_args p r u payload (mc_client_message_id payload)) d of
        Inl _ \<Rightarrow> None | Inr x \<Rightarrow> Some x) else None)"

definition ws_answer :: "message \<Rightarrow> bool \<Rightarrow> ws_effect" where
  "ws_answer m created = (if created then ToRoom (WsMessageCreated m False) else ToSelf (WsMessageCreated m True))"

lemma written_Some: "written st cx p r u payload d = Some x \<longleftrightarrow>
    allows p (str ''room:write'') (Some r) \<and> length (mc_content payload) \<le> st_max_message_chars st \<and>
    create_message_sync (st_store st) (cx_env cx) (message_args p r u payload (mc_client_message_id payload)) d = Inr x"
  by (auto simp: written_def simp del: allows_Some split: sum.splits)

lemma http_write:
  assumes payload: "MessageCreate raw = Inr payload" "mc_sender payload = None" and s: "subject p = Some s"
    and now: "now_enforce (cx_env cx) = cx_now cx"
    and lim: "rate_limited st MessageLimiter (cx_clock cx) (str ''http:'' @ rate_subject p (cx_client cx))
      ''rate_limit_exceeded'' app = (Inr (), app1, [])"
    and wr: "written st cx p r s payload (ap_db app) = Some ((m, created), d)"
  shows "\<exists>app' fx. post_message st cx p r raw None app = (Inr (m, created), app', fx)"
proof -
  note w = wr [unfolded written_Some]
  have guard: "enforce_member_access (cx_now cx) p r True app = (Inr (), app, [])"
    by (rule create_passes_guard) (use w now in auto)
  have "ap_db app1 = ap_db app" using steadyD [OF steady_rate_limited lim] by simp
  then show ?thesis
    using w
    by (simp add: post_message_def validated_def payload s authorize_def bound_actor_def act_bind_at guard lim storing_def
        act_bind_def [of "storing n op" for n op] act_at del: allows_Some)
qed

lemma socket_write_db:
  assumes lim: "rate_limited st MessageLimiter (cx_clock (si_cx si)) (str ''ws:'' @ rate_subject p (cx_client (si_cx si)))
      ''rate_limit_exceeded'' (sh_app sh) = (Inr (), app1, [])"
    and run: "socket_message st so p r u si payload se sh = (v, se', sh', gx)"
  shows "ap_db (sh_app sh') = (case written st (si_cx si) p r u payload (ap_db (sh_app sh)) of
      None \<Rightarrow> ap_db (sh_app sh) | Some (x, d) \<Rightarrow> d)"
proof -
  have "ap_db app1 = ap_db (sh_app sh)" using steadyD [OF steady_rate_limited lim] by simp
  then show ?thesis
    using run lim
    by (auto simp: socket_message_def written_def Let_def refuse_def refuse_and_close_def simp del: allows_Some
        split: if_splits sum.splits option.splits prod.splits)
qed

lemma socket_write_answer:
  assumes lim: "rate_limited st MessageLimiter (cx_clock (si_cx si)) (str ''ws:'' @ rate_subject p (cx_client (si_cx si)))
      ''rate_limit_exceeded'' (sh_app sh) = (Inr (), app1, [])"
    and run: "socket_message st so p r u si payload se sh = (v, se', sh', gx)"
  shows "ws_answer m created \<in> set gx \<longleftrightarrow>
    (\<exists>d. written st (si_cx si) p r u payload (ap_db (sh_app sh)) = Some ((m, created), d))"
proof -
  have "ap_db app1 = ap_db (sh_app sh)" using steadyD [OF steady_rate_limited lim] by simp
  then show ?thesis
    using run lim
    by (auto simp: socket_message_def written_def Let_def refuse_def refuse_and_close_def set_typing_def ws_answer_def
        simp del: allows_Some split: if_splits sum.splits option.splits prod.splits)
qed

text \<open>
  C13. The socket and the HTTP route write alike: for a signed caller, on the same database, at the same
  time and with both rate limits open, a message command and a POST of the same fields end in the same
  database, and the socket announces a created message, or confirms a replayed one, exactly when the
  route answers with it.
\<close>

theorem socket_writes_like_http:
  assumes "subject p = Some s" and "WebSocketMessage raw = Inr payload" and "now_enforce (cx_env cx) = cx_now cx"
    and "fst (rate_limited st MessageLimiter (cx_clock cx) (str ''http:'' @ rate_subject p (cx_client cx))
      ''rate_limit_exceeded'' app) = Inr ()"
    and "fst (rate_limited st MessageLimiter (cx_clock cx) (str ''ws:'' @ rate_subject p (cx_client cx))
      ''rate_limit_exceeded'' app) = Inr ()"
    and "si_cx si = cx" and "sh_app sh = app"
    and http: "post_message st cx p room_id raw None app = (r, app', fx)"
    and ws: "socket_message st so p room_id s si payload se sh = (v, se', sh', gx)"
  shows "ap_db (sh_app sh') = ap_db app' \<and>
    (\<forall>m created. r = Inr (m, created) \<longleftrightarrow> ws_answer m created \<in> set gx)"
proof -
  have payload: "MessageCreate raw = Inr payload" "mc_sender payload = None"
    using assms(2) by (auto simp: WebSocketMessage_def MessageCreate_def split: if_splits)
  obtain app1 where hl: "rate_limited st MessageLimiter (cx_clock cx) (str ''http:'' @ rate_subject p (cx_client cx))
      ''rate_limit_exceeded'' app = (Inr (), app1, [])"
    using assms(4) steadyD [OF steady_rate_limited] by (metis prod.collapse)
  obtain app2 where wl: "rate_limited st MessageLimiter (cx_clock (si_cx si)) (str ''ws:'' @ rate_subject p (cx_client (si_cx si)))
      ''rate_limit_exceeded'' (sh_app sh) = (Inr (), app2, [])"
    using assms(5) steadyD [OF steady_rate_limited] unfolding assms(6,7) by (metis prod.collapse)
  note sock = socket_write_db [OF wl ws, unfolded assms(6,7)] socket_write_answer [OF wl ws, unfolded assms(6,7)]
  have answer: "written st cx p room_id s payload (ap_db app) = Some ((m, created), ap_db app')" if "r = Inr (m, created)" for m created
    unfolding written_Some using post_message_answer [OF http [unfolded that] assms(1)] payload(1) by (auto simp: truthy_def)
  show ?thesis
  proof (cases r)
    case (Inr x)
    then show ?thesis using sock answer by (cases x) auto
  next
    case (Inl e)
    have db: "ap_db app' = ap_db app"
      using handler_atomic(7) [of st cx p room_id raw None] http Inl unfolding atomic_def by blast
    have "written st cx p room_id s payload (ap_db app) = None"
    proof (rule ccontr)
      assume "written st cx p room_id s payload (ap_db app) \<noteq> None"
      then obtain m created d where "written st cx p room_id s payload (ap_db app) = Some ((m, created), d)" by auto
      from http_write [OF payload assms(1,3) hl this] show False using http Inl by simp
    qed
    then show ?thesis using sock Inl db by simp
  qed
qed

theorem socket_writes_like_http_witness:
  "\<exists>v se' sh' gx. socket_message sample_settings sample_socket (member_token ann [''room:write'']) lobby ann (sample_input 3)
       (sample_post [104, 105] (Some [99])) (fresh_session True) (sample_shared room_db) = (v, se', sh', gx) \<and>
     ap_db (sh_app sh') = message_db \<and> ws_answer first_message True \<in> set gx"
proof -
  obtain v se' sh' gx where ws: "socket_message sample_settings sample_socket (member_token ann [''room:write'']) lobby ann
      (sample_input 3) (sample_post [104, 105] (Some [99])) (fresh_session True) (sample_shared room_db) = (v, se', sh', gx)"
    by (metis prod_cases4)
  have "WebSocketMessage (sample_post [104, 105] (Some [99])) = Inr (sample_post [104, 105] (Some [99]))"
    by (simp add: WebSocketMessage_def)
  from socket_writes_like_http [OF _ this _ _ _ _ _ post_sample ws]
  show ?thesis using ws by (auto simp: rate_limited_def sample_env_def)
qed

end
