(* ===== verification/Pg_Events.thy ===== *)
theory Pg_Events
  imports Models Py_Bytes
begin

section \<open>The realtime event log and the instance cursors (postgres.py)\<close>

text \<open>
  The coordination tables of \<open>samsarix_chat_engine/postgres.py\<close>: the event log, the retention watermark
  and one cursor row for each process. A method of \<open>PostgresFoundation\<close> is one transaction; it is a
  function of the tables (an extensible record, so the tables of the connection registry can be added),
  of \<open>clk\<close>, which gives the reading of \<open>clock_timestamp()\<close> in each statement of the transaction in turn,
  and of the UUID that \<open>gen_random_uuid\<close> gives it. Transactions are taken one after the other, in the
  order in which their row and advisory locks put them; a failed one leaves the tables as they were.
  Identity numbers that a rolled back insert has used are skipped by the step \<open>burn_sequence\<close>. What
  PostgreSQL takes into a JSONB column is the argument \<open>jsonb\<close>. Times are microseconds; \<open>updated_at\<close>
  columns, which nothing reads, are left out, and so are the pool and its timeouts, which the relay's
  model has as the outcome of a call.
\<close>

type_synonym uuid = nat
type_synonym readings = "nat \<Rightarrow> timestamp"

subsection \<open>Errors\<close>

datatype lag_reason = LagCount | LagAge

datatype pg_error =
    PgValueError string
  | PostgresUnavailableError
  | PostgresFoundationError string
  | InvalidRealtimeEventError string
  | InstanceLeaseError string
  | EventLogGapError
  | EventLogLagError lag_reason
  | ConnectionLeaseError string
  | ConnectionRoomUnavailableError
  | TypingStateError

subsection \<open>Tables\<close>

record realtime_event =
  re_sequence :: nat
  re_room_id :: pystr
  re_event_type :: pystr
  re_payload :: json
  re_created_at :: timestamp

record cursor_row =
  cu_instance_id :: pystr
  cu_generation :: uuid
  cu_last_sequence :: nat
  cu_lease_expires_at :: timestamp

record foundation =
  fd_events :: "realtime_event list"
  fd_next_sequence :: nat
  fd_pruned_through :: nat
  fd_cursors :: "cursor_row list"

record registration =
  rg_generation :: uuid
  rg_last_sequence :: nat

definition empty_foundation :: foundation where
  "empty_foundation = \<lparr>fd_events = [], fd_next_sequence = 1, fd_pruned_through = 0, fd_cursors = []\<rparr>"

subsection \<open>Validation\<close>

definition MAX_EVENT_PAYLOAD_BYTES :: nat where
  "MAX_EVENT_PAYLOAD_BYTES = 524288"

definition INSTANCE_ID_PATTERN :: "pystr \<Rightarrow> bool" where
  "INSTANCE_ID_PATTERN = head_tail (\<lambda>c. lower c \<or> upper c \<or> digit c)
     (\<lambda>c. lower c \<or> upper c \<or> digit c \<or> c \<in> set (str ''._:-'')) 127"

definition EVENT_TYPE_PATTERN :: "pystr \<Rightarrow> bool" where
  "EVENT_TYPE_PATTERN = head_tail lower (\<lambda>c. lower c \<or> digit c \<or> c \<in> set (str ''_.-'')) 79"

definition validate_instance_id :: "pystr \<Rightarrow> pg_error + unit" where
  "validate_instance_id instance_id = check (INSTANCE_ID_PATTERN instance_id) (PgValueError ''invalid instance ID'')"

definition validate_instance :: "pystr \<Rightarrow> int \<Rightarrow> pg_error + unit" where
  "validate_instance instance_id lease_seconds = res_bind (validate_instance_id instance_id) (\<lambda>_.
     check (1 \<le> lease_seconds \<and> lease_seconds \<le> 300) (PgValueError ''instance lease must be between 1 and 300 seconds''))"

definition validate_lag_limits :: "int option \<Rightarrow> int option \<Rightarrow> pg_error + unit" where
  "validate_lag_limits max_pending max_age =
     res_bind (check (case max_pending of None \<Rightarrow> True | Some n \<Rightarrow> 1 \<le> n \<and> n \<le> 100000)
       (PgValueError ''pending event limit must be an integer between 1 and 100000'')) (\<lambda>_.
     check (case max_age of None \<Rightarrow> True | Some n \<Rightarrow> 1 \<le> n \<and> n \<le> 3600)
       (PgValueError ''pending event age must be an integer between 1 and 3600 seconds''))"

text \<open>\<open>allow_nan=False\<close> refuses the floats that are no JSON numbers.\<close>

fun json_finite :: "json \<Rightarrow> bool" where
  "json_finite (JFloat x) = py_isfinite x"
| "json_finite (JArr vs) = list_all json_finite vs"
| "json_finite (JObj kvs) = list_all (\<lambda>(k, v). json_finite v) kvs"
| "json_finite _ = True"

definition validate_event :: "pystr \<Rightarrow> pystr \<Rightarrow> json \<Rightarrow> pg_error + json" where
  "validate_event room_id event_type payload =
     (if \<not> ROOM_ID_PATTERN room_id then Inl (InvalidRealtimeEventError ''invalid realtime event room ID'')
      else if \<not> EVENT_TYPE_PATTERN event_type then Inl (InvalidRealtimeEventError ''invalid realtime event type'')
      else (case payload of
        JObj fs \<Rightarrow>
          (if \<not> json_finite payload then Inl (InvalidRealtimeEventError ''realtime event payload must be finite JSON'')
           else (case utf8_encode (json_dumps payload) of
             None \<Rightarrow> Inl (InvalidRealtimeEventError ''realtime event payload must be finite JSON'')
           | Some encoded \<Rightarrow>
               (if MAX_EVENT_PAYLOAD_BYTES < length encoded
                then Inl (InvalidRealtimeEventError ''realtime event payload exceeds 512 KiB'')
                else Inr payload)))
      | _ \<Rightarrow> Inl (InvalidRealtimeEventError ''realtime event payload must be an object'')))"

subsection \<open>The log\<close>

definition sequences :: "'z foundation_scheme \<Rightarrow> nat list" where
  "sequences fd = map re_sequence (fd_events fd)"

text \<open>\<open>GREATEST(COALESCE(MAX(sequence), 0), pruned_through_sequence)\<close>.\<close>

definition current_head :: "'z foundation_scheme \<Rightarrow> nat" where
  "current_head fd = max (foldr max (sequences fd) 0) (fd_pruned_through fd)"

definition event_retention_floor :: "'z foundation_scheme \<Rightarrow> nat" where
  "event_retention_floor fd = fd_pruned_through fd"

definition append_event ::
  "(json \<Rightarrow> bool) \<Rightarrow> timestamp \<Rightarrow> pystr \<Rightarrow> pystr \<Rightarrow> json \<Rightarrow> 'z foundation_scheme \<Rightarrow> pg_error + nat \<times> 'z foundation_scheme" where
  "append_event jsonb now room_id event_type payload fd =
     res_bind (validate_event room_id event_type payload) (\<lambda>normalized.
       if \<not> jsonb normalized then Inl (PostgresFoundationError ''operation'')
       else Inr (fd_next_sequence fd, fd\<lparr>
         fd_events := fd_events fd @ [\<lparr>re_sequence = fd_next_sequence fd, re_room_id = room_id,
           re_event_type = event_type, re_payload = normalized, re_created_at = now\<rparr>],
         fd_next_sequence := fd_next_sequence fd + 1\<rparr>))"

definition burn_sequence :: "'z foundation_scheme \<Rightarrow> 'z foundation_scheme" where
  "burn_sequence fd = fd\<lparr>fd_next_sequence := fd_next_sequence fd + 1\<rparr>"

subsection \<open>Cursors\<close>

definition live_cursor :: "timestamp \<Rightarrow> cursor_row \<Rightarrow> bool" where
  "live_cursor now c \<longleftrightarrow> now < cu_lease_expires_at c"

definition cursor_of :: "pystr \<Rightarrow> 'z foundation_scheme \<Rightarrow> cursor_row option" where
  "cursor_of instance_id fd = find (\<lambda>c. cu_instance_id c = instance_id) (fd_cursors fd)"

definition owned :: "uuid option \<Rightarrow> cursor_row \<Rightarrow> bool" where
  "owned generation c \<longleftrightarrow> (case generation of None \<Rightarrow> True | Some g \<Rightarrow> cu_generation c = g)"

definition update_cursor :: "pystr \<Rightarrow> (cursor_row \<Rightarrow> cursor_row) \<Rightarrow> 'z foundation_scheme \<Rightarrow> 'z foundation_scheme" where
  "update_cursor instance_id f fd =
     fd\<lparr>fd_cursors := update_where (\<lambda>c. cu_instance_id c = instance_id) f (fd_cursors fd)\<rparr>"

definition new_cursor :: "pystr \<Rightarrow> uuid \<Rightarrow> timestamp \<Rightarrow> 'z foundation_scheme \<Rightarrow> 'z foundation_scheme" where
  "new_cursor instance_id fresh expires fd = fd\<lparr>fd_cursors := fd_cursors fd @ [\<lparr>cu_instance_id = instance_id,
     cu_generation = fresh, cu_last_sequence = current_head fd, cu_lease_expires_at = expires\<rparr>]\<rparr>"

definition renewed :: "timestamp \<Rightarrow> cursor_row \<Rightarrow> cursor_row" where
  "renewed expires c = c\<lparr>cu_lease_expires_at := expires\<rparr>"

definition registration_of :: "cursor_row \<Rightarrow> registration" where
  "registration_of c = \<lparr>rg_generation = cu_generation c, rg_last_sequence = cu_last_sequence c\<rparr>"

definition register_instance ::
  "readings \<Rightarrow> uuid \<Rightarrow> pystr \<Rightarrow> int \<Rightarrow> 'z foundation_scheme \<Rightarrow> pg_error + nat \<times> 'z foundation_scheme" where
  "register_instance clk fresh instance_id lease_seconds fd =
     res_bind (validate_instance instance_id lease_seconds) (\<lambda>_.
     let expires = clk 0 + seconds_delta lease_seconds in
     case cursor_of instance_id fd of
       None \<Rightarrow> Inr (current_head fd, new_cursor instance_id fresh expires fd)
     | Some c \<Rightarrow> Inr (cu_last_sequence c, update_cursor instance_id (\<lambda>c. renewed expires
         (if live_cursor (clk 1) c then c else c\<lparr>cu_generation := fresh\<rparr>)) fd))"

definition claim_instance ::
  "readings \<Rightarrow> uuid \<Rightarrow> pystr \<Rightarrow> int \<Rightarrow> uuid option \<Rightarrow> 'z foundation_scheme \<Rightarrow> pg_error + registration \<times> 'z foundation_scheme" where
  "claim_instance clk fresh instance_id lease_seconds generation fd =
     res_bind (validate_instance instance_id lease_seconds) (\<lambda>_.
     let expires = clk 1 + seconds_delta lease_seconds in
     case cursor_of instance_id fd of
       None \<Rightarrow> Inr (\<lparr>rg_generation = fresh, rg_last_sequence = current_head fd\<rparr>,
         new_cursor instance_id fresh expires fd)
     | Some c \<Rightarrow>
         (if live_cursor (clk 0) c
          then (if generation \<noteq> Some (cu_generation c) then Inl (InstanceLeaseError ''instance ID is already active'')
                else Inr (registration_of c, update_cursor instance_id (renewed expires) fd))
          else Inr (\<lparr>rg_generation = fresh, rg_last_sequence = cu_last_sequence c\<rparr>,
            update_cursor instance_id (\<lambda>c. renewed expires (c\<lparr>cu_generation := fresh\<rparr>)) fd)))"

definition release_instance ::
  "readings \<Rightarrow> pystr \<Rightarrow> uuid \<Rightarrow> 'z foundation_scheme \<Rightarrow> pg_error + bool \<times> 'z foundation_scheme" where
  "release_instance clk instance_id generation fd =
     res_bind (validate_instance_id instance_id) (\<lambda>_.
     case cursor_of instance_id fd of
       None \<Rightarrow> Inr (False, fd)
     | Some c \<Rightarrow> if cu_generation c = generation \<and> live_cursor (clk 0) c
         then Inr (True, update_cursor instance_id (renewed (clk 1)) fd) else Inr (False, fd))"

definition heartbeat_claimed_instance ::
  "readings \<Rightarrow> pystr \<Rightarrow> uuid \<Rightarrow> int \<Rightarrow> 'z foundation_scheme \<Rightarrow> pg_error + 'z foundation_scheme" where
  "heartbeat_claimed_instance clk instance_id generation lease_seconds fd =
     res_bind (validate_instance instance_id lease_seconds) (\<lambda>_.
     case cursor_of instance_id fd of
       None \<Rightarrow> Inl (InstanceLeaseError ''instance generation is missing or expired'')
     | Some c \<Rightarrow> if cu_generation c = generation \<and> live_cursor (clk 0) c
         then Inr (update_cursor instance_id (renewed (clk 1 + seconds_delta lease_seconds)) fd)
         else Inl (InstanceLeaseError ''instance generation is missing or expired''))"

definition heartbeat_instance ::
  "readings \<Rightarrow> pystr \<Rightarrow> int \<Rightarrow> 'z foundation_scheme \<Rightarrow> pg_error + 'z foundation_scheme" where
  "heartbeat_instance clk instance_id lease_seconds fd =
     res_bind (validate_instance instance_id lease_seconds) (\<lambda>_.
     case cursor_of instance_id fd of
       None \<Rightarrow> Inl (InstanceLeaseError ''instance lease is missing or expired'')
     | Some c \<Rightarrow> if live_cursor (clk 0) c
         then Inr (update_cursor instance_id (renewed (clk 1 + seconds_delta lease_seconds)) fd)
         else Inl (InstanceLeaseError ''instance lease is missing or expired''))"

text \<open>What the three recoveries write: a generation of their own, the cursor at the committed head.\<close>

definition moved_to_head :: "uuid \<Rightarrow> timestamp \<Rightarrow> 'z foundation_scheme \<Rightarrow> cursor_row \<Rightarrow> cursor_row" where
  "moved_to_head generation expires fd c = c\<lparr>cu_generation := generation,
     cu_last_sequence := current_head fd, cu_lease_expires_at := expires\<rparr>"

definition recover_instance_after_gap ::
  "readings \<Rightarrow> uuid \<Rightarrow> pystr \<Rightarrow> int \<Rightarrow> 'z foundation_scheme \<Rightarrow> pg_error + nat \<times> 'z foundation_scheme" where
  "recover_instance_after_gap clk fresh instance_id lease_seconds fd =
     res_bind (validate_instance instance_id lease_seconds) (\<lambda>_.
     case cursor_of instance_id fd of
       None \<Rightarrow> Inl (InstanceLeaseError ''instance cursor is missing'')
     | Some c \<Rightarrow> if fd_pruned_through fd \<le> cu_last_sequence c
         then Inl (InstanceLeaseError ''instance cursor has no retained event gap'')
         else Inr (current_head fd, update_cursor instance_id
           (moved_to_head fresh (clk 0 + seconds_delta lease_seconds) fd) fd))"

definition recover_claimed_instance_after_gap ::
  "readings \<Rightarrow> uuid \<Rightarrow> pystr \<Rightarrow> uuid \<Rightarrow> int \<Rightarrow> 'z foundation_scheme \<Rightarrow> pg_error + registration \<times> 'z foundation_scheme" where
  "recover_claimed_instance_after_gap clk fresh instance_id generation lease_seconds fd =
     res_bind (validate_instance instance_id lease_seconds) (\<lambda>_.
     case cursor_of instance_id fd of
       None \<Rightarrow> Inl (InstanceLeaseError ''instance generation is missing'')
     | Some c \<Rightarrow>
         (if cu_generation c \<noteq> generation then Inl (InstanceLeaseError ''instance generation is missing'')
          else if fd_pruned_through fd \<le> cu_last_sequence c
          then Inl (InstanceLeaseError ''instance cursor has no retained event gap'')
          else Inr (\<lparr>rg_generation = fresh, rg_last_sequence = current_head fd\<rparr>, update_cursor instance_id
            (moved_to_head fresh (clk 0 + seconds_delta lease_seconds) fd) fd)))"

definition resynchronize_claimed_instance ::
  "readings \<Rightarrow> pystr \<Rightarrow> uuid \<Rightarrow> uuid \<Rightarrow> int \<Rightarrow> 'z foundation_scheme \<Rightarrow> pg_error + registration \<times> 'z foundation_scheme" where
  "resynchronize_claimed_instance clk instance_id generation recovery_generation lease_seconds fd =
     res_bind (validate_instance instance_id lease_seconds) (\<lambda>_.
     if generation = recovery_generation
     then Inl (PgValueError ''recovery generation must differ from the current generation'')
     else (let expires = clk 0 + seconds_delta lease_seconds in
       case cursor_of instance_id fd of
         None \<Rightarrow> Inl (InstanceLeaseError ''instance generation is missing'')
       | Some c \<Rightarrow>
           (if cu_generation c \<notin> {generation, recovery_generation}
            then Inl (InstanceLeaseError ''instance generation is missing'')
            else if cu_generation c = recovery_generation
            then Inr (registration_of c, update_cursor instance_id (renewed expires) fd)
            else Inr (\<lparr>rg_generation = recovery_generation, rg_last_sequence = current_head fd\<rparr>,
              update_cursor instance_id (moved_to_head recovery_generation expires fd) fd))))"

subsection \<open>Reading, acknowledging, pruning\<close>

definition unread :: "nat \<Rightarrow> 'z foundation_scheme \<Rightarrow> realtime_event list" where
  "unread last_sequence fd = order_by re_sequence (filter (\<lambda>e. last_sequence < re_sequence e) (fd_events fd))"

definition lag_error :: "timestamp \<Rightarrow> int option \<Rightarrow> int option \<Rightarrow> realtime_event list \<Rightarrow> lag_reason option" where
  "lag_error now max_pending max_age backlog =
     (if (case max_pending of None \<Rightarrow> False | Some n \<Rightarrow> nat n < length backlog) then Some LagCount
      else if (case max_age of None \<Rightarrow> False | Some n \<Rightarrow>
          (case backlog of [] \<Rightarrow> False | e # es \<Rightarrow> re_created_at e < now - seconds_delta n)) then Some LagAge
      else None)"

definition read_events ::
  "readings \<Rightarrow> pystr \<Rightarrow> int \<Rightarrow> uuid option \<Rightarrow> int option \<Rightarrow> int option \<Rightarrow> 'z foundation_scheme \<Rightarrow> pg_error + realtime_event list" where
  "read_events clk instance_id limit generation max_pending max_age fd =
     res_bind (validate_instance_id instance_id) (\<lambda>_.
     res_bind (check (1 \<le> limit \<and> limit \<le> 1000) (PgValueError ''event read limit must be between 1 and 1000'')) (\<lambda>_.
     res_bind (validate_lag_limits max_pending max_age) (\<lambda>_.
     case cursor_of instance_id fd of
       None \<Rightarrow> Inl (InstanceLeaseError ''instance lease is missing or expired'')
     | Some c \<Rightarrow>
         (if \<not> (live_cursor (clk 0) c \<and> owned generation c)
          then Inl (InstanceLeaseError ''instance lease is missing or expired'')
          else if cu_last_sequence c < fd_pruned_through fd then Inl EventLogGapError
          else (let backlog = unread (cu_last_sequence c) fd in
            case lag_error (clk 1) max_pending max_age backlog of
              Some reason \<Rightarrow> Inl (EventLogLagError reason)
            | None \<Rightarrow> Inr (take (nat limit) backlog))))))"

definition acknowledge_events ::
  "readings \<Rightarrow> pystr \<Rightarrow> nat \<Rightarrow> uuid option \<Rightarrow> 'z foundation_scheme \<Rightarrow> pg_error + nat \<times> 'z foundation_scheme" where
  "acknowledge_events clk instance_id through_sequence generation fd =
     res_bind (validate_instance_id instance_id) (\<lambda>_.
     case cursor_of instance_id fd of
       None \<Rightarrow> Inl (InstanceLeaseError ''instance lease is missing or expired'')
     | Some c \<Rightarrow>
         (if \<not> (live_cursor (clk 0) c \<and> owned generation c)
          then Inl (InstanceLeaseError ''instance lease is missing or expired'')
          else if through_sequence \<le> cu_last_sequence c then Inr (cu_last_sequence c, fd)
          else if current_head fd < through_sequence
          then Inl (InstanceLeaseError ''instance cursor cannot advance beyond the event head'')
          else if through_sequence \<notin> set (sequences fd)
          then Inl (InstanceLeaseError ''instance cursor target is not a committed event'')
          else Inr (through_sequence, update_cursor instance_id (\<lambda>c. c\<lparr>cu_last_sequence := through_sequence\<rparr>) fd)))"

text \<open>No active cursor is crossed; without one, the committed head bounds the prune.\<close>

definition safe_through :: "timestamp \<Rightarrow> 'z foundation_scheme \<Rightarrow> nat" where
  "safe_through now fd = (case map cu_last_sequence (filter (live_cursor now) (fd_cursors fd)) of
     [] \<Rightarrow> current_head fd | s # ss \<Rightarrow> foldr min ss s)"

definition count_cutoff :: "int \<Rightarrow> 'z foundation_scheme \<Rightarrow> nat option" where
  "count_cutoff max_events fd = (case drop (nat max_events) (rev (sort (sequences fd))) of
     [] \<Rightarrow> None | s # ss \<Rightarrow> Some s)"

text \<open>\<open>locked\<close> tells the rows another transaction holds, which \<open>SKIP LOCKED\<close> passes over.\<close>

definition prunable :: "readings \<Rightarrow> (nat \<Rightarrow> bool) \<Rightarrow> int \<Rightarrow> int \<Rightarrow> int \<Rightarrow> 'z foundation_scheme \<Rightarrow> nat list" where
  "prunable clk locked max_events max_age limit fd =
     (let safe = safe_through (clk 0) fd; cutoff = count_cutoff max_events fd in
      take (nat limit) (filter (\<lambda>s. \<not> locked s) (map re_sequence (order_by re_sequence (filter
        (\<lambda>e. re_sequence e \<le> safe \<and> (re_created_at e < clk 1 - seconds_delta max_age \<or>
          (case cutoff of None \<Rightarrow> False | Some s \<Rightarrow> re_sequence e \<le> s))) (fd_events fd))))))"

definition prune_events ::
  "readings \<Rightarrow> (nat \<Rightarrow> bool) \<Rightarrow> int \<Rightarrow> int \<Rightarrow> int \<Rightarrow> 'z foundation_scheme \<Rightarrow> pg_error + (nat \<times> nat) \<times> 'z foundation_scheme" where
  "prune_events clk locked max_events max_age limit fd =
     (if \<not> (1 \<le> max_events \<and> max_events \<le> 10000000)
      then Inl (PgValueError ''event retention count must be between 1 and 10000000'')
      else if \<not> (60 \<le> max_age \<and> max_age \<le> 31536000)
      then Inl (PgValueError ''event retention age must be between 60 and 31536000 seconds'')
      else if \<not> (1 \<le> limit \<and> limit \<le> 10000)
      then Inl (PgValueError ''event prune limit must be between 1 and 10000'')
      else (let pruned = prunable clk locked max_events max_age limit fd;
            fd' = (if pruned = [] then fd else
              fd\<lparr>fd_events := filter (\<lambda>e. re_sequence e \<notin> set pruned) (fd_events fd),
                 fd_pruned_through := max (fd_pruned_through fd) (last pruned)\<rparr>) in
        Inr ((length pruned, fd_pruned_through fd'), fd')))"

subsection \<open>The log invariant\<close>

text \<open>
  \<open>log\<close> is the list of all sequence numbers ever committed. What has been pruned lies at or below the
  watermark, so every committed event above it is still in the table.
\<close>

definition event_log_inv :: "nat list \<Rightarrow> 'z foundation_scheme \<Rightarrow> bool" where
  "event_log_inv log fd \<longleftrightarrow> sorted_wrt (<) log \<and> sorted_wrt (<) (sequences fd) \<and> set (sequences fd) \<subseteq> set log \<and>
     (\<forall>s\<in>set log. s < fd_next_sequence fd \<and> (fd_pruned_through fd < s \<longrightarrow> s \<in> set (sequences fd))) \<and>
     fd_pruned_through fd < fd_next_sequence fd \<and> distinct (map cu_instance_id (fd_cursors fd)) \<and>
     (\<forall>c\<in>set (fd_cursors fd). cu_last_sequence c < fd_next_sequence fd)"

lemma empty_log [simp]: "event_log_inv [] empty_foundation"
  by (simp add: event_log_inv_def empty_foundation_def sequences_def)

lemma foldr_max_le: "foldr max xs (b::nat) \<le> n \<longleftrightarrow> b \<le> n \<and> (\<forall>x\<in>set xs. x \<le> n)"
  by (induction xs) auto

lemma foldr_max_ge: "x \<in> set xs \<Longrightarrow> x \<le> foldr max xs (b::nat)"
  by (induction xs) (auto simp: le_max_iff_disj)

lemma foldr_min_le: "foldr min xs (b::nat) \<le> b" "x \<in> set xs \<Longrightarrow> foldr min xs b \<le> x"
  by (induction xs) (auto simp: min_le_iff_disj)

lemma head_below_next: "event_log_inv log fd \<Longrightarrow> current_head fd < fd_next_sequence fd"
proof -
  assume inv: "event_log_inv log fd"
  then have "0 < fd_next_sequence fd" by (simp add: event_log_inv_def)
  moreover have "foldr max (sequences fd) 0 \<le> fd_next_sequence fd - 1"
    unfolding foldr_max_le using inv by (fastforce simp: event_log_inv_def)
  ultimately have "foldr max (sequences fd) 0 < fd_next_sequence fd" by linarith
  with inv show ?thesis by (simp add: current_head_def event_log_inv_def)
qed

lemma head_covers_log: "event_log_inv log fd \<Longrightarrow> s \<in> set log \<Longrightarrow> s \<le> current_head fd"
  unfolding current_head_def event_log_inv_def by (metis foldr_max_ge le_max_iff_disj linorder_not_less)

lemma sequences_sorted: "event_log_inv log fd \<Longrightarrow> sorted_wrt (<) (sequences fd)"
  by (simp add: event_log_inv_def)

lemma ordered_events: "event_log_inv log fd \<Longrightarrow> order_by re_sequence (filter P (fd_events fd)) = filter P (fd_events fd)"
proof -
  assume "event_log_inv log fd"
  then have "sorted_wrt (\<lambda>e e'. re_sequence e < re_sequence e') (filter P (fd_events fd))"
    by (auto simp: event_log_inv_def sequences_def sorted_wrt_map intro: sorted_wrt_filter)
  then have "sorted (map re_sequence (filter P (fd_events fd)))"
    unfolding sorted_map by (rule sorted_wrt_mono_rel [rotated]) auto
  then show ?thesis unfolding order_by_def by (rule sort_key_id_if_sorted)
qed

lemma unread_filter: "event_log_inv log fd \<Longrightarrow> unread n fd = filter (\<lambda>e. n < re_sequence e) (fd_events fd)"
  unfolding unread_def by (rule ordered_events)

lemma sorted_set_eq: "sorted_wrt (<) xs \<Longrightarrow> sorted_wrt (<) ys \<Longrightarrow> set xs = set ys \<Longrightarrow> xs = (ys::nat list)"
  by (metis sorted_list_of_set.idem_if_sorted_distinct strict_sorted_iff)

text \<open>Above the watermark the table and the log agree, in order.\<close>

lemma unread_sequences:
  assumes inv: "event_log_inv log fd" and "fd_pruned_through fd \<le> n"
  shows "map re_sequence (unread n fd) = filter (\<lambda>s. n < s) log"
proof (rule sorted_set_eq)
  have eq: "map re_sequence (unread n fd) = filter (\<lambda>s. n < s) (sequences fd)"
    by (simp add: unread_filter [OF inv] sequences_def filter_map comp_def)
  show "sorted_wrt (<) (map re_sequence (unread n fd))" unfolding eq
    using inv by (intro sorted_wrt_filter) (simp add: event_log_inv_def)
  show "sorted_wrt (<) (filter (\<lambda>s. n < s) log)" using inv by (intro sorted_wrt_filter) (simp add: event_log_inv_def)
  show "set (map re_sequence (unread n fd)) = set (filter (\<lambda>s. n < s) log)"
    unfolding eq using assms by (auto simp: event_log_inv_def)
qed

subsection \<open>What the operations keep\<close>

lemma find_keyed_update:
  "(\<And>c. key (f c) = key c) \<Longrightarrow> find (\<lambda>c. key c = i) (update_where (\<lambda>c. key c = j) f xs) =
     (if i = j then map_option f (find (\<lambda>c. key c = i) xs) else find (\<lambda>c. key c = i) xs)"
  by (induction xs) (auto simp: update_where_def)

lemma find_snoc: "find P (xs @ [x]) = (case find P xs of None \<Rightarrow> if P x then Some x else None | Some y \<Rightarrow> Some y)"
  by (induction xs) auto

lemma cursor_of_update:
  "(\<And>c. cu_instance_id (f c) = cu_instance_id c) \<Longrightarrow>
   cursor_of i (update_cursor instance_id f fd) =
     (if i = instance_id then map_option f (cursor_of i fd) else cursor_of i fd)"
  unfolding cursor_of_def update_cursor_def by (simp add: find_keyed_update [of cu_instance_id])

lemma cursor_of_new:
  "cursor_of instance_id fd = None \<Longrightarrow> cursor_of i (new_cursor instance_id fresh expires fd) =
     (if i = instance_id then Some \<lparr>cu_instance_id = instance_id, cu_generation = fresh,
        cu_last_sequence = current_head fd, cu_lease_expires_at = expires\<rparr> else cursor_of i fd)"
  by (auto simp: cursor_of_def new_cursor_def find_snoc split: option.splits)

lemma cursor_of_id: "cursor_of i fd = Some c \<Longrightarrow> c \<in> set (fd_cursors fd) \<and> cu_instance_id c = i"
  unfolding cursor_of_def by (auto simp: find_Some_iff)

lemma event_log_inv_update:
  assumes "event_log_inv log fd" "\<And>c. cu_instance_id (f c) = cu_instance_id c"
    and "\<And>c. cu_last_sequence c < fd_next_sequence fd \<Longrightarrow> cu_last_sequence (f c) < fd_next_sequence fd"
  shows "event_log_inv log (update_cursor instance_id f fd)"
proof -
  have "map cu_instance_id (update_where (\<lambda>c. cu_instance_id c = instance_id) f (fd_cursors fd)) =
      map cu_instance_id (fd_cursors fd)"
    by (simp add: update_where_def assms(2))
  moreover have "\<forall>c\<in>set (update_where (\<lambda>c. cu_instance_id c = instance_id) f (fd_cursors fd)).
      cu_last_sequence c < fd_next_sequence fd"
    using assms(1,3) by (auto simp: update_where_def event_log_inv_def)
  ultimately show ?thesis using assms(1) by (simp add: event_log_inv_def update_cursor_def sequences_def)
qed

lemma event_log_inv_new:
  assumes "event_log_inv log fd" "cursor_of instance_id fd = None"
  shows "event_log_inv log (new_cursor instance_id fresh expires fd)"
  using assms head_below_next [OF assms(1)]
  by (auto simp: event_log_inv_def new_cursor_def sequences_def cursor_of_def find_None_iff)

lemma event_in_log:
  "event_log_inv log fd \<Longrightarrow> e \<in> set (fd_events fd) \<Longrightarrow> re_sequence e \<in> set log \<and> re_sequence e < fd_next_sequence fd"
  by (auto simp: event_log_inv_def sequences_def)

lemma event_log_inv_append:
  assumes "event_log_inv log fd" "append_event jsonb now room_id event_type payload fd = Inr (s, fd')"
  shows "s = fd_next_sequence fd" "event_log_inv (log @ [s]) fd'" "fd_cursors fd' = fd_cursors fd"
    "fd_pruned_through fd' = fd_pruned_through fd"
  using assms event_in_log [OF assms(1)]
  by (auto simp: append_event_def event_log_inv_def sequences_def sorted_wrt_append less_Suc_eq split: if_splits)

lemma event_log_inv_burn: "event_log_inv log fd \<Longrightarrow> event_log_inv log (burn_sequence fd)"
  by (auto simp: burn_sequence_def event_log_inv_def sequences_def less_Suc_eq)

lemma safe_through_active:
  "cursor_of i fd = Some c \<Longrightarrow> live_cursor now c \<Longrightarrow> safe_through now fd \<le> cu_last_sequence c"
proof -
  assume "cursor_of i fd = Some c" "live_cursor now c"
  then have "cu_last_sequence c \<in> set (map cu_last_sequence (filter (live_cursor now) (fd_cursors fd)))"
    using cursor_of_id [of i fd c] by simp
  then show ?thesis unfolding safe_through_def
    by (cases "map cu_last_sequence (filter (live_cursor now) (fd_cursors fd))") (auto simp: foldr_min_le)
qed

lemma prunable_member:
  "s \<in> set (prunable clk locked max_events max_age limit fd) \<Longrightarrow>
   s \<in> set (sequences fd) \<and> s \<le> safe_through (clk 0) fd"
  by (auto simp: prunable_def Let_def sequences_def order_by_def dest!: in_set_takeD)

lemma le_last_sorted: "sorted xs \<Longrightarrow> x \<in> set xs \<Longrightarrow> (x::nat) \<le> last xs"
  by (induction xs rule: rev_induct) (auto simp: sorted_append)

lemma event_log_inv_prune:
  assumes inv: "event_log_inv log fd" and prune: "prune_events clk locked max_events max_age limit fd = Inr (r, fd')"
  shows "event_log_inv log fd'" "fd_cursors fd' = fd_cursors fd" "fd_pruned_through fd \<le> fd_pruned_through fd'"
    "fd_pruned_through fd' \<le> max (fd_pruned_through fd) (safe_through (clk 0) fd)"
    "\<And>e. e \<in> set (fd_events fd) \<Longrightarrow> fd_pruned_through fd' < re_sequence e \<Longrightarrow> e \<in> set (fd_events fd')"
    "set (fd_events fd') \<subseteq> set (fd_events fd)"
proof -
  let ?ps = "prunable clk locked max_events max_age limit fd"
  have fd': "fd' = (if ?ps = [] then fd else fd\<lparr>fd_events := filter (\<lambda>e. re_sequence e \<notin> set ?ps) (fd_events fd),
      fd_pruned_through := max (fd_pruned_through fd) (last ?ps)\<rparr>)"
    using prune by (auto simp: prune_events_def Let_def split: if_splits)
  have "sorted ?ps" unfolding prunable_def Let_def order_by_def
    by (intro sorted_wrt_take sorted_wrt_filter sorted_sort_key)
  then have le: "s \<le> last ?ps" if "s \<in> set ?ps" for s
    using that by (rule le_last_sorted)
  have above: "s \<in> re_sequence ` {e \<in> set (fd_events fd). re_sequence e \<notin> set ?ps}"
    if "s \<in> re_sequence ` set (fd_events fd)" "last ?ps < s" for s
    using that le by fastforce
  have mem: "last ?ps \<in> set (sequences fd) \<and> last ?ps \<le> safe_through (clk 0) fd" if "?ps \<noteq> []"
    using that prunable_member by (metis last_in_set)
  have nxt: "last ?ps < fd_next_sequence fd" if "?ps \<noteq> []"
    using mem [OF that] inv by (auto simp: event_log_inv_def)
  show "event_log_inv log fd'"
    using inv nxt above unfolding fd' event_log_inv_def sequences_def
    by (auto simp: sorted_wrt_map intro: sorted_wrt_filter)
  show "fd_cursors fd' = fd_cursors fd" by (simp add: fd')
  show "fd_pruned_through fd \<le> fd_pruned_through fd'" by (simp add: fd')
  show "fd_pruned_through fd' \<le> max (fd_pruned_through fd) (safe_through (clk 0) fd)" using mem by (auto simp: fd')
  show "e \<in> set (fd_events fd')" if "e \<in> set (fd_events fd)" "fd_pruned_through fd' < re_sequence e" for e
    using that le by (fastforce simp: fd' split: if_splits)
  show "set (fd_events fd') \<subseteq> set (fd_events fd)" by (auto simp: fd')
qed

text \<open>The operations on cursors keep the invariant; so does a change of stored payloads.\<close>

lemma event_log_inv_claim:
  "event_log_inv log fd \<Longrightarrow> claim_instance clk fresh instance_id lease_seconds generation fd = Inr (r, fd') \<Longrightarrow> event_log_inv log fd'"
  by (auto simp: claim_instance_def Let_def renewed_def intro!: event_log_inv_update event_log_inv_new
      split: option.splits if_splits)

lemma event_log_inv_release:
  "event_log_inv log fd \<Longrightarrow> release_instance clk instance_id generation fd = Inr (r, fd') \<Longrightarrow> event_log_inv log fd'"
  by (auto simp: release_instance_def renewed_def intro!: event_log_inv_update split: option.splits if_splits)

lemma event_log_inv_heartbeat:
  "event_log_inv log fd \<Longrightarrow> heartbeat_claimed_instance clk instance_id generation lease_seconds fd = Inr fd' \<Longrightarrow> event_log_inv log fd'"
  by (auto simp: heartbeat_claimed_instance_def renewed_def intro!: event_log_inv_update split: option.splits if_splits)

lemma event_log_inv_resynchronize:
  "event_log_inv log fd \<Longrightarrow> resynchronize_claimed_instance clk instance_id g g' lease_seconds fd = Inr (r, fd') \<Longrightarrow> event_log_inv log fd'"
  using head_below_next [of log fd]
  by (auto simp: resynchronize_claimed_instance_def Let_def renewed_def moved_to_head_def intro!: event_log_inv_update
      split: option.splits if_splits)

lemma event_log_inv_acknowledge:
  "event_log_inv log fd \<Longrightarrow> acknowledge_events clk instance_id n generation fd = Inr (r, fd') \<Longrightarrow> event_log_inv log fd'"
  using head_below_next [of log fd]
  by (auto simp: acknowledge_events_def intro!: event_log_inv_update split: option.splits if_splits)

lemmas event_log_inv_operation = event_log_inv_claim event_log_inv_release event_log_inv_heartbeat event_log_inv_resynchronize event_log_inv_acknowledge

definition rewrite_payloads :: "(realtime_event \<Rightarrow> json) \<Rightarrow> 'z foundation_scheme \<Rightarrow> 'z foundation_scheme" where
  "rewrite_payloads f fd = fd\<lparr>fd_events := map (\<lambda>e. e\<lparr>re_payload := f e\<rparr>) (fd_events fd)\<rparr>"

lemma event_log_inv_rewrite: "event_log_inv log fd \<Longrightarrow> event_log_inv log (rewrite_payloads f fd)"
  by (simp add: event_log_inv_def rewrite_payloads_def sequences_def comp_def)

subsection \<open>Pruning does not touch active readers\<close>

lemma unread_prune:
  assumes inv: "event_log_inv log fd" and prune: "prune_events clk locked max_events max_age limit fd = Inr (r, fd')"
    and "safe_through (clk 0) fd \<le> n"
  shows "unread n fd' = unread n fd"
proof -
  let ?ps = "prunable clk locked max_events max_age limit fd"
  have "s \<le> n" if "s \<in> set ?ps" for s
    using prunable_member [OF that] assms(3) by simp
  then have "filter (\<lambda>e. re_sequence e \<notin> set ?ps \<and> n < re_sequence e) (fd_events fd) =
      filter (\<lambda>e. n < re_sequence e) (fd_events fd)"
    by (fastforce intro: filter_cong)
  then have "filter (\<lambda>e. n < re_sequence e) (fd_events fd') = filter (\<lambda>e. n < re_sequence e) (fd_events fd)"
    using prune by (auto simp: prune_events_def Let_def split: if_splits)
  then show ?thesis by (simp add: unread_filter [OF inv] unread_filter [OF event_log_inv_prune(1) [OF inv prune]])
qed


definition pruned_sample :: foundation where
  "pruned_sample = \<lparr>fd_events = map (\<lambda>s. \<lparr>re_sequence = s, re_room_id = [97], re_event_type = [97],
     re_payload = JObj [], re_created_at = 0\<rparr>) [1, 2, 3], fd_next_sequence = 4, fd_pruned_through = 0,
     fd_cursors = [\<lparr>cu_instance_id = [97], cu_generation = 1, cu_last_sequence = 2, cu_lease_expires_at = 9\<rparr>,
       \<lparr>cu_instance_id = [98], cu_generation = 2, cu_last_sequence = 0, cu_lease_expires_at = 3\<rparr>]\<rparr>"


end
