(* ===== verification/Pg_Relay.thy ===== *)
theory Pg_Relay
  imports Pg_Events
begin

section \<open>The realtime relay (postgres_realtime.py)\<close>

text \<open>
  One process's relay of \<open>samsarix_chat_engine/postgres_realtime.py\<close>. The loop of \<open>run\<close> is cut at its
  awaits: a phase says where it stands, and \<open>relay_turn\<close> runs it from there to the next await, so what
  other processes commit, and a call of \<open>stop\<close>, can come between any two turns. A turn that calls the
  database is given the readings of the database clock, and what became of the call: it was answered, it
  never reached the server, or it was committed and the reply was lost. \<open>loop.time()\<close> is in microseconds.
  Parsing a moderation record (pydantic), \<open>isoformat\<close> and \<open>str\<close> of a JSON value are arguments. The
  messages of the logger are left out.
\<close>

subsection \<open>Dispatch\<close>

record parsed_moderation =
  pm_subject :: pystr
  pm_banned_until :: "(timestamp \<times> bool) option"

record dispatch_env =
  de_moderation :: "json option \<Rightarrow> parsed_moderation option"
  de_isoformat :: "timestamp \<Rightarrow> pystr"
  de_str :: "json \<Rightarrow> pystr"

datatype target_call =
    Broadcast pystr json "pystr option" "string option"
  | CloseRoom pystr json
  | CloseMember pystr pystr json

definition BROADCAST_EVENT_TYPES :: "pystr list" where
  "BROADCAST_EVENT_TYPES = map str [''message.created'', ''message.updated'', ''message.deleted'',
     ''message.pin.updated'', ''message.reaction.updated'', ''read.updated'', ''room.frozen'', ''room.unfrozen'',
     ''presence.joined'', ''presence.left'', ''typing.started'', ''typing.stopped'']"

definition payload_fields :: "json \<Rightarrow> (pystr \<times> json) list" where
  "payload_fields payload = (case payload of JObj fs \<Rightarrow> fs | _ \<Rightarrow> [])"

definition broadcast_payload :: "pystr \<Rightarrow> (pystr \<times> json) list \<Rightarrow> (pystr \<times> json) list" where
  "broadcast_payload event_type fs =
     (let payload = filter (\<lambda>(k, v). k \<noteq> str ''origin_connection_id'') fs in
      if event_type = str ''message.created'' \<and> map_of payload (str ''idempotent_replay'') = None
      then payload @ [(str ''idempotent_replay'', JBool False)] else payload)"

definition origin_connection_id :: "dispatch_env \<Rightarrow> (pystr \<times> json) list \<Rightarrow> pystr option" where
  "origin_connection_id de fs = (case map_of fs (str ''origin_connection_id'') of
     None \<Rightarrow> None | Some JNull \<Rightarrow> None | Some (JStr s) \<Rightarrow> Some s | Some v \<Rightarrow> Some (de_str de v))"

definition ban_event :: "dispatch_env \<Rightarrow> pystr \<Rightarrow> timestamp \<Rightarrow> json" where
  "ban_event de subject until = JObj [(str ''type'', JStr (str ''member.banned'')), (str ''subject'', JStr subject),
     (str ''banned_until'', JStr (de_isoformat de until))]"

text \<open>The call of the target an event leads to; \<open>None\<close> for an event that is passed over.\<close>

definition dispatch :: "dispatch_env \<Rightarrow> realtime_event \<Rightarrow> target_call option" where
  "dispatch de e = (let fs = payload_fields (re_payload e); t = re_event_type e in
     if t \<in> set BROADCAST_EVENT_TYPES
     then Some (Broadcast (re_room_id e) (JObj (broadcast_payload t fs)) (origin_connection_id de fs)
       (if t = str ''read.updated'' then Some ''room:read-receipts'' else None))
     else if t = str ''room.archived'' then Some (CloseRoom (re_room_id e) (re_payload e))
     else if t \<noteq> str ''member.moderation.updated'' then None
     else (case de_moderation de (map_of fs (str ''moderation'')) of
       None \<Rightarrow> None
     | Some m \<Rightarrow> (case pm_banned_until m of
         None \<Rightarrow> None
       | Some (until, aware) \<Rightarrow>
           (if \<not> aware \<or> until \<le> re_created_at e then None
            else Some (CloseMember (re_room_id e) (pm_subject m) (ban_event de (pm_subject m) until))))))"

subsection \<open>State\<close>

record relay_config =
  rc_instance_id :: pystr
  rc_lease_seconds :: int
  rc_batch_size :: int
  rc_max_pending_events :: int
  rc_max_event_age_seconds :: int

text \<open>The polling interval only paces the loop; its bounds, 0.01 to 5 seconds, are given in microseconds.\<close>

definition PostgresRealtimeRelay :: "int \<Rightarrow> relay_config \<Rightarrow> pg_error + relay_config" where
  "PostgresRealtimeRelay poll rc =
     (if \<not> (3 \<le> rc_lease_seconds rc \<and> rc_lease_seconds rc \<le> 300)
      then Inl (PgValueError ''realtime relay lease must be between 3 and 300 seconds'')
      else if \<not> (10000 \<le> poll \<and> poll \<le> 5000000)
      then Inl (PgValueError ''realtime relay poll interval must be between 0.01 and 5 seconds'')
      else if \<not> (1 \<le> rc_batch_size rc \<and> rc_batch_size rc \<le> 1000)
      then Inl (PgValueError ''realtime relay batch size must be between 1 and 1000'')
      else res_bind (validate_lag_limits (Some (rc_max_pending_events rc)) (Some (rc_max_event_age_seconds rc))) (\<lambda>_.
        if \<not> (1 \<le> length (rc_instance_id rc) \<and> length (rc_instance_id rc) \<le> 128)
        then Inl (PgValueError ''realtime relay instance ID must be between 1 and 128 characters'')
        else Inr rc))"

record relay =
  rl_cursor :: "nat option"
  rl_generation :: "uuid option"
  rl_next_heartbeat :: int
  rl_lease_deadline :: int
  rl_admission_epoch :: nat
  rl_stop :: bool
  rl_fenced :: bool
  rl_fence_required :: bool
  rl_gap_recovery_required :: bool
  rl_lag_recovery_required :: bool
  rl_recovery_generation :: "uuid option"

definition new_relay :: relay where
  "new_relay = \<lparr>rl_cursor = None, rl_generation = None, rl_next_heartbeat = 0, rl_lease_deadline = 0,
     rl_admission_epoch = 0, rl_stop = False, rl_fenced = False, rl_fence_required = False,
     rl_gap_recovery_required = False, rl_lag_recovery_required = False, rl_recovery_generation = None\<rparr>"

definition ready :: "int \<Rightarrow> relay \<Rightarrow> bool" where
  "ready now rl \<longleftrightarrow> rl_cursor rl \<noteq> None \<and> rl_generation rl \<noteq> None \<and> \<not> rl_fenced rl \<and> \<not> rl_fence_required rl \<and>
     \<not> rl_gap_recovery_required rl \<and> \<not> rl_lag_recovery_required rl \<and> rl_recovery_generation rl = None \<and>
     \<not> rl_stop rl \<and> now < rl_lease_deadline rl"

definition admission_token :: "int \<Rightarrow> relay \<Rightarrow> (uuid \<times> nat) option" where
  "admission_token now rl = (if \<not> ready now rl then None
     else map_option (\<lambda>g. (g, rl_admission_epoch rl)) (rl_generation rl))"

subsection \<open>Calls of the database\<close>

datatype fate = Answered | NotSent | ReplyLost

definition database_call :: "fate \<Rightarrow> pg_error + 'r \<times> 's \<Rightarrow> 's \<Rightarrow> (pg_error + 'r) \<times> 's" where
  "database_call fate outcome fd = (case fate of
     NotSent \<Rightarrow> (Inl PostgresUnavailableError, fd)
   | Answered \<Rightarrow> (case outcome of Inl e \<Rightarrow> (Inl e, fd) | Inr (r, fd') \<Rightarrow> (Inr r, fd'))
   | ReplyLost \<Rightarrow> (Inl PostgresUnavailableError, case outcome of Inl e \<Rightarrow> fd | Inr (r, fd') \<Rightarrow> fd'))"

record relay_input =
  ri_started :: int
  ri_ended :: int
  ri_clk :: readings
  ri_fresh :: uuid
  ri_fate :: fate
  ri_target_ok :: bool

datatype relay_exn = DatabaseError pg_error | LocalError

datatype relay_effect = Handled nat "target_call option" | ClosedAll | Claimed nat

subsection \<open>The methods\<close>

definition lease_begins :: "relay_config \<Rightarrow> relay_input \<Rightarrow> relay \<Rightarrow> relay" where
  "lease_begins rc i rl = rl\<lparr>rl_lease_deadline := ri_started i + seconds_delta (rc_lease_seconds rc),
     rl_next_heartbeat := ri_ended i + seconds_delta (rc_lease_seconds rc) div 3\<rparr>"

definition initialize_relay ::
  "relay_config \<Rightarrow> relay_input \<Rightarrow> relay \<Rightarrow> foundation \<Rightarrow> (pg_error + registration) \<times> relay \<times> foundation" where
  "initialize_relay rc i rl0 fd =
     (let rl = rl0\<lparr>rl_stop := False\<rparr> in
      case database_call (ri_fate i) (claim_instance (ri_clk i) (ri_fresh i) (rc_instance_id rc)
          (rc_lease_seconds rc) (rl_generation rl) fd) fd of
        (Inl e, fd') \<Rightarrow> (Inl e, rl, fd')
      | (Inr reg, fd') \<Rightarrow> (Inr reg, lease_begins rc i (rl\<lparr>rl_generation := Some (rg_generation reg),
          rl_admission_epoch := rl_admission_epoch rl + 1, rl_cursor := Some (rg_last_sequence reg),
          rl_fenced := False, rl_fence_required := False\<rparr>), fd'))"

definition heartbeat ::
  "relay_config \<Rightarrow> relay_input \<Rightarrow> uuid \<Rightarrow> relay \<Rightarrow> foundation \<Rightarrow> (pg_error + unit) \<times> relay \<times> foundation" where
  "heartbeat rc i g rl fd =
     (case database_call (ri_fate i) (res_map (\<lambda>fd'. ((), fd')) (heartbeat_claimed_instance (ri_clk i)
         (rc_instance_id rc) g (rc_lease_seconds rc) fd)) fd of
        (Inl e, fd') \<Rightarrow> (Inl e, rl, fd')
      | (Inr u, fd') \<Rightarrow> (Inr (), lease_begins rc i rl, fd'))"

text \<open>The recovery of a gap or a lag, on the recovery UUID kept across failures.\<close>

definition recover ::
  "relay_config \<Rightarrow> relay_input \<Rightarrow> uuid \<Rightarrow> relay \<Rightarrow> foundation \<Rightarrow> (pg_error + registration) \<times> relay \<times> foundation" where
  "recover rc i g rl0 fd =
     (let recovery = (case rl_recovery_generation rl0 of None \<Rightarrow> ri_fresh i | Some r \<Rightarrow> r);
          rl = rl0\<lparr>rl_recovery_generation := Some recovery\<rparr> in
      case database_call (ri_fate i) (resynchronize_claimed_instance (ri_clk i) (rc_instance_id rc) g recovery
          (rc_lease_seconds rc) fd) fd of
        (Inl e, fd') \<Rightarrow> (Inl e, rl, fd')
      | (Inr reg, fd') \<Rightarrow> (Inr reg, lease_begins rc i (rl\<lparr>rl_generation := Some (rg_generation reg),
          rl_admission_epoch := rl_admission_epoch rl + 1, rl_cursor := Some (rg_last_sequence reg),
          rl_gap_recovery_required := False, rl_lag_recovery_required := False, rl_recovery_generation := None,
          rl_fenced := False\<rparr>), fd'))"

text \<open>\<open>_fence\<close> up to the await of \<open>close_all\<close>, and after it.\<close>

definition fence_begin :: "relay \<Rightarrow> relay" where
  "fence_begin rl = (if rl_fenced rl then rl\<lparr>rl_fence_required := False\<rparr>
     else rl\<lparr>rl_fence_required := True, rl_admission_epoch := rl_admission_epoch rl + 1\<rparr>)"

definition fence_end :: "bool \<Rightarrow> relay \<Rightarrow> relay" where
  "fence_end closed rl = (if closed then rl\<lparr>rl_fenced := True, rl_fence_required := False\<rparr> else rl)"

text \<open>What the handlers of \<open>run\<close> set before they fence; the last one does not fence.\<close>

fun handle_failure :: "relay_exn \<Rightarrow> relay \<Rightarrow> relay option" where
  "handle_failure (DatabaseError (EventLogLagError reason)) rl =
     Some (rl\<lparr>rl_cursor := None, rl_lag_recovery_required := True, rl_fence_required := True\<rparr>)"
| "handle_failure (DatabaseError EventLogGapError) rl =
     Some (rl\<lparr>rl_cursor := None, rl_gap_recovery_required := True, rl_fence_required := True\<rparr>)"
| "handle_failure (DatabaseError (InstanceLeaseError text)) rl =
     Some (rl\<lparr>rl_cursor := None, rl_gap_recovery_required := False, rl_lag_recovery_required := False,
       rl_recovery_generation := None, rl_fence_required := True\<rparr>)"
| "handle_failure (DatabaseError PostgresUnavailableError) rl =
     Some (rl\<lparr>rl_cursor := None, rl_fence_required := True\<rparr>)"
| "handle_failure (DatabaseError (PostgresFoundationError text)) rl =
     Some (rl\<lparr>rl_cursor := None, rl_fence_required := True\<rparr>)"
| "handle_failure (DatabaseError (InvalidRealtimeEventError text)) rl =
     Some (rl\<lparr>rl_cursor := None, rl_fence_required := True\<rparr>)"
| "handle_failure _ rl = None"

subsection \<open>The loop\<close>

text \<open>
  Where \<open>run\<close> stands: before the test of the loop, in \<open>close_all\<close> of the fence at the head of the loop or
  of a handler, behind the recovery, the claim or the heartbeat, in the dispatch of a batch (the events
  left, the size of the batch, the last one dispatched), before its checkpoint (the sequence, the size
  of the batch, whether the dispatch raised), in \<open>_wait_for_work\<close>, or returned.
\<close>

datatype phase = LoopHead | FencingHead | Recovered | Started | Beaten
  | Dispatching "realtime_event list" nat "nat option" | Settling nat nat bool
  | FencingHandler | Waiting | Stopped

type_synonym relay_point = "phase \<times> relay \<times> foundation \<times> relay_effect list"

definition failing :: "relay_exn \<Rightarrow> relay \<Rightarrow> foundation \<Rightarrow> relay_point" where
  "failing exn rl fd = (case handle_failure exn rl of
     None \<Rightarrow> (Waiting, rl, fd, [])
   | Some rl' \<Rightarrow> (if rl_fenced rl' then Waiting else FencingHandler, fence_begin rl', fd, []))"

definition turn_read :: "relay_config \<Rightarrow> relay_input \<Rightarrow> relay \<Rightarrow> foundation \<Rightarrow> relay_point" where
  "turn_read rc i rl fd = (if rl_cursor rl = None \<or> rl_generation rl = None then failing LocalError rl fd
     else (case fst (database_call (ri_fate i) (res_map (\<lambda>es. (es, fd)) (read_events (ri_clk i) (rc_instance_id rc)
         (rc_batch_size rc) (rl_generation rl) (Some (rc_max_pending_events rc))
         (Some (rc_max_event_age_seconds rc)) fd)) fd) of
       Inl e \<Rightarrow> failing (DatabaseError e) rl fd
     | Inr es \<Rightarrow> (Dispatching es (length es) None, rl, fd, [])))"

definition turn_beat :: "relay_config \<Rightarrow> relay_input \<Rightarrow> relay \<Rightarrow> foundation \<Rightarrow> relay_point" where
  "turn_beat rc i rl fd = (if ri_started i < rl_next_heartbeat rl then turn_read rc i rl fd
     else if rl_cursor rl = None then failing LocalError rl fd
     else (case rl_generation rl of None \<Rightarrow> failing LocalError rl fd
     | Some g \<Rightarrow> (case heartbeat rc i g rl fd of
         (Inl e, rl', fd') \<Rightarrow> failing (DatabaseError e) rl' fd'
       | (Inr u, rl', fd') \<Rightarrow> (Beaten, rl', fd', []))))"

definition turn_start :: "relay_config \<Rightarrow> relay_input \<Rightarrow> relay \<Rightarrow> foundation \<Rightarrow> relay_point" where
  "turn_start rc i rl fd = (if rl_cursor rl \<noteq> None then turn_beat rc i rl fd
     else (case initialize_relay rc i rl fd of
       (Inl e, rl', fd') \<Rightarrow> failing (DatabaseError e) rl' fd'
     | (Inr reg, rl', fd') \<Rightarrow> (Started, rl', fd', [Claimed (rg_last_sequence reg)])))"

definition turn_try :: "relay_config \<Rightarrow> relay_input \<Rightarrow> relay \<Rightarrow> foundation \<Rightarrow> relay_point" where
  "turn_try rc i rl fd = (if \<not> (rl_gap_recovery_required rl \<or> rl_lag_recovery_required rl) then turn_start rc i rl fd
     else (case rl_generation rl of None \<Rightarrow> failing LocalError rl fd
     | Some g \<Rightarrow> (case recover rc i g rl fd of
         (Inl e, rl', fd') \<Rightarrow> failing (DatabaseError e) rl' fd'
       | (Inr reg, rl', fd') \<Rightarrow> (Recovered, rl', fd', [Claimed (rg_last_sequence reg)]))))"

definition turn_head :: "relay_config \<Rightarrow> relay_input \<Rightarrow> relay \<Rightarrow> foundation \<Rightarrow> relay_point" where
  "turn_head rc i rl fd =
     (if rl_stop rl then (Stopped, rl, fd, [])
      else if rl_fence_required rl \<or> rl_gap_recovery_required rl \<or> rl_lag_recovery_required rl
      then (if rl_fenced rl then turn_try rc i (fence_begin rl) fd else (FencingHead, fence_begin rl, fd, []))
      else turn_try rc i rl fd)"

text \<open>\<open>for event in events: await self._dispatch(event)\<close> and the \<open>finally\<close> of it.\<close>

definition turn_dispatch ::
  "dispatch_env \<Rightarrow> bool \<Rightarrow> realtime_event list \<Rightarrow> nat \<Rightarrow> nat option \<Rightarrow> relay \<Rightarrow> foundation \<Rightarrow> relay_config \<Rightarrow> relay_point" where
  "turn_dispatch de target_ok events n dispatched rl fd rc = (case events of
     [] \<Rightarrow> (case dispatched of Some s \<Rightarrow> (Settling s n False, rl, fd, [])
       | None \<Rightarrow> (if int n = rc_batch_size rc then LoopHead else Waiting, rl, fd, []))
   | e # es \<Rightarrow> (let call = dispatch de e in
       if call = None \<or> target_ok
       then (Dispatching es n (Some (re_sequence e)), rl, fd, [Handled (re_sequence e) call])
       else (case dispatched of None \<Rightarrow> failing LocalError rl fd | Some s \<Rightarrow> (Settling s n True, rl, fd, []))))"

definition turn_settle ::
  "relay_config \<Rightarrow> relay_input \<Rightarrow> nat \<Rightarrow> nat \<Rightarrow> bool \<Rightarrow> relay \<Rightarrow> foundation \<Rightarrow> relay_point" where
  "turn_settle rc i s n raised rl fd =
     (case database_call (ri_fate i) (acknowledge_events (ri_clk i) (rc_instance_id rc) s (rl_generation rl) fd) fd of
        (Inl e, fd') \<Rightarrow> failing (DatabaseError e) rl fd'
      | (Inr cursor, fd') \<Rightarrow> (let rl' = rl\<lparr>rl_cursor := Some cursor\<rparr> in
          if raised then failing LocalError rl' fd'
          else (if int n = rc_batch_size rc then LoopHead else Waiting, rl', fd', [])))"

fun relay_turn :: "relay_config \<Rightarrow> dispatch_env \<Rightarrow> relay_input \<Rightarrow> phase \<Rightarrow> relay \<Rightarrow> foundation \<Rightarrow> relay_point" where
  "relay_turn rc de i LoopHead rl fd = turn_head rc i rl fd"
| "relay_turn rc de i FencingHead rl fd =
     (if ri_target_ok i then (case turn_try rc i (fence_end True rl) fd of (ph, rl', fd', fx) \<Rightarrow> (ph, rl', fd', ClosedAll # fx))
      else (Waiting, rl, fd, []))"
| "relay_turn rc de i Recovered rl fd = turn_start rc i rl fd"
| "relay_turn rc de i Started rl fd = turn_beat rc i rl fd"
| "relay_turn rc de i Beaten rl fd = turn_read rc i rl fd"
| "relay_turn rc de i (Dispatching events n dispatched) rl fd = turn_dispatch de (ri_target_ok i) events n dispatched rl fd rc"
| "relay_turn rc de i (Settling s n raised) rl fd = turn_settle rc i s n raised rl fd"
| "relay_turn rc de i FencingHandler rl fd =
     (Waiting, fence_end (ri_target_ok i) rl, fd, if ri_target_ok i then [ClosedAll] else [])"
| "relay_turn rc de i Waiting rl fd = (LoopHead, rl, fd, [])"
| "relay_turn rc de i Stopped rl fd = (Stopped, rl, fd, [])"

definition stop_relay :: "relay \<Rightarrow> relay" where
  "stop_relay rl = rl\<lparr>rl_stop := True\<rparr>"

definition release_relay ::
  "relay_config \<Rightarrow> relay_input \<Rightarrow> relay \<Rightarrow> foundation \<Rightarrow> (pg_error + bool) \<times> foundation" where
  "release_relay rc i rl fd = (case rl_generation rl of None \<Rightarrow> (Inr False, fd)
     | Some g \<Rightarrow> database_call (ri_fate i) (release_instance (ri_clk i) (rc_instance_id rc) g fd) fd)"

end
