(* ===== verification/Pg_Relay_Properties.thy ===== *)
theory Pg_Relay_Properties
  imports Pg_Relay
begin

section \<open>What the relay hands to its sockets\<close>

text \<open>
  The relay among other processes: a system is the database, the ghost list \<open>sy_log\<close> of all committed
  sequence numbers, the relay with its phase, the cursor of its last claim (\<open>sy_base\<close>), what it has handed
  to its target since it last closed all sockets (\<open>sy_segment\<close>) and the time. Peers append, prune, redact and
  work on their own cursors; what they do to this instance's row carries no UUID this relay holds, which is
  what \<open>gen_random_uuid\<close> and \<open>uuid4\<close> give. Clock and event loop measure the same time.
\<close>

subsection \<open>The system\<close>

record relay_system =
  sy_fd :: foundation
  sy_log :: "nat list"
  sy_relay :: relay
  sy_phase :: phase
  sy_base :: nat
  sy_segment :: "nat list"
  sy_now :: int

definition own_generations :: "relay \<Rightarrow> uuid set" where
  "own_generations rl = {g. rl_generation rl = Some g \<or> rl_recovery_generation rl = Some g}"

definition foreign :: "relay_config \<Rightarrow> uuid set \<Rightarrow> pystr \<Rightarrow> uuid option \<Rightarrow> bool" where
  "foreign rc mine instance_id g \<longleftrightarrow> instance_id \<noteq> rc_instance_id rc \<or>
     (case g of None \<Rightarrow> True | Some u \<Rightarrow> u \<notin> mine)"

inductive peer_step ::
  "relay_config \<Rightarrow> uuid set \<Rightarrow> readings \<Rightarrow> nat list \<times> foundation \<Rightarrow> nat list \<times> foundation \<Rightarrow> bool"
  for rc :: relay_config and mine :: "uuid set" and clk :: readings where
  peer_append: "append_event jsonb now room_id event_type payload fd = Inr (s, fd') \<Longrightarrow>
     peer_step rc mine clk (log, fd) (log @ [s], fd')"
| peer_burn: "peer_step rc mine clk (log, fd) (log, burn_sequence fd)"
| peer_rewrite: "peer_step rc mine clk (log, fd) (log, rewrite_payloads f fd)"
| peer_prune: "prune_events clk locked max_events max_age limit fd = Inr (r, fd') \<Longrightarrow>
     peer_step rc mine clk (log, fd) (log, fd')"
| peer_claim: "claim_instance clk fresh instance_id lease_seconds g fd = Inr (r, fd') \<Longrightarrow>
     foreign rc mine instance_id g \<Longrightarrow> fresh \<notin> mine \<Longrightarrow> peer_step rc mine clk (log, fd) (log, fd')"
| peer_release: "release_instance clk instance_id g fd = Inr (r, fd') \<Longrightarrow>
     foreign rc mine instance_id (Some g) \<Longrightarrow> peer_step rc mine clk (log, fd) (log, fd')"
| peer_heartbeat: "heartbeat_claimed_instance clk instance_id g lease_seconds fd = Inr fd' \<Longrightarrow>
     foreign rc mine instance_id (Some g) \<Longrightarrow> peer_step rc mine clk (log, fd) (log, fd')"
| peer_resynchronize: "resynchronize_claimed_instance clk instance_id g g' lease_seconds fd = Inr (r, fd') \<Longrightarrow>
     foreign rc mine instance_id (Some g) \<Longrightarrow> foreign rc mine instance_id (Some g') \<Longrightarrow>
     peer_step rc mine clk (log, fd) (log, fd')"
| peer_acknowledge: "acknowledge_events clk instance_id n (Some g) fd = Inr (r, fd') \<Longrightarrow>
     foreign rc mine instance_id (Some g) \<Longrightarrow> peer_step rc mine clk (log, fd) (log, fd')"

fun apply_effect :: "relay_effect \<Rightarrow> nat \<times> nat list \<Rightarrow> nat \<times> nat list" where
  "apply_effect (Handled s call) (base, segment) = (base, segment @ [s])"
| "apply_effect ClosedAll (base, segment) = (base, [])"
| "apply_effect (Claimed n) (base, segment) = (n, segment)"

inductive relay_step :: "relay_config \<Rightarrow> dispatch_env \<Rightarrow> relay_system \<Rightarrow> relay_system \<Rightarrow> bool"
  for rc :: relay_config and de :: dispatch_env where
  relay_runs: "relay_turn rc de i (sy_phase sy) (sy_relay sy) (sy_fd sy) = (ph, rl, fd, fx) \<Longrightarrow>
     fold apply_effect fx (sy_base sy, sy_segment sy) = (base, segment) \<Longrightarrow>
     sy_now sy \<le> ri_started i \<Longrightarrow> (\<And>k. ri_started i \<le> ri_clk i k \<and> ri_clk i k \<le> ri_ended i) \<Longrightarrow>
     relay_step rc de sy (sy\<lparr>sy_fd := fd, sy_relay := rl, sy_phase := ph, sy_base := base,
       sy_segment := segment, sy_now := ri_ended i\<rparr>)"
| peer_runs: "peer_step rc (own_generations (sy_relay sy)) clk (sy_log sy, sy_fd sy) (log, fd) \<Longrightarrow>
     (\<And>k. sy_now sy \<le> clk k \<and> clk k \<le> now) \<Longrightarrow>
     relay_step rc de sy (sy\<lparr>sy_fd := fd, sy_log := log, sy_now := now\<rparr>)"
| stop_called: "relay_step rc de sy (sy\<lparr>sy_relay := stop_relay (sy_relay sy)\<rparr>)"
| relay_released: "sy_phase sy = Stopped \<Longrightarrow> release_relay rc i (sy_relay sy) (sy_fd sy) = (r, fd) \<Longrightarrow>
     sy_now sy \<le> ri_started i \<Longrightarrow> (\<And>k. ri_started i \<le> ri_clk i k \<and> ri_clk i k \<le> ri_ended i) \<Longrightarrow>
     relay_step rc de sy (sy\<lparr>sy_fd := fd, sy_now := ri_ended i\<rparr>)"

inductive relay_reachable :: "relay_config \<Rightarrow> dispatch_env \<Rightarrow> relay_system \<Rightarrow> bool"
  for rc :: relay_config and de :: dispatch_env where
  relay_initial: "event_log_inv log fd \<Longrightarrow> relay_reachable rc de \<lparr>sy_fd = fd, sy_log = log, sy_relay = new_relay,
     sy_phase = LoopHead, sy_base = 0, sy_segment = [], sy_now = now\<rparr>"
| relay_next: "relay_reachable rc de sy \<Longrightarrow> relay_step rc de sy sy' \<Longrightarrow> relay_reachable rc de sy'"

subsection \<open>The invariant\<close>

definition covered :: "nat list \<Rightarrow> nat \<Rightarrow> nat list \<Rightarrow> bool" where
  "covered log base segment \<longleftrightarrow> set segment \<subseteq> set log \<and> (\<forall>t\<in>set segment. base < t) \<and>
     (\<forall>s\<in>set log. \<forall>t\<in>set segment. base < s \<and> s \<le> t \<longrightarrow> s \<in> set segment)"

definition within_reach :: "nat \<Rightarrow> nat list \<Rightarrow> nat \<Rightarrow> bool" where
  "within_reach base segment n \<longleftrightarrow> base \<le> n \<and> (n = base \<or> (\<exists>t\<in>set segment. n \<le> t))"

definition relay_core :: "relay_config \<Rightarrow> nat list \<Rightarrow> foundation \<Rightarrow> relay \<Rightarrow> nat \<Rightarrow> nat list \<Rightarrow> bool" where
  "relay_core rc log fd rl base segment \<longleftrightarrow> event_log_inv log fd \<and> covered log base segment \<and>
     (rl_fenced rl \<longrightarrow> segment = []) \<and>
     (rl_cursor rl = None \<longrightarrow> segment = [] \<or> rl_fence_required rl) \<and>
     (rl_cursor rl \<noteq> None \<longrightarrow> \<not> rl_fence_required rl \<and> \<not> rl_gap_recovery_required rl \<and>
        \<not> rl_lag_recovery_required rl \<and> \<not> rl_fenced rl \<and> rl_generation rl \<noteq> None) \<and>
     (\<forall>c. rl_cursor rl \<noteq> None \<and> cursor_of (rc_instance_id rc) fd = Some c \<and> rl_generation rl = Some (cu_generation c)
        \<longrightarrow> within_reach base segment (cu_last_sequence c))"

definition phase_inv :: "nat list \<Rightarrow> relay \<Rightarrow> nat \<Rightarrow> nat list \<Rightarrow> phase \<Rightarrow> bool" where
  "phase_inv log rl base segment ph = (case ph of
     Dispatching events n dispatched \<Rightarrow> rl_cursor rl \<noteq> None \<and>
       (\<exists>p rest. within_reach base segment p \<and> filter (\<lambda>s. p < s) log = map re_sequence events @ rest) \<and>
       (\<forall>s. dispatched = Some s \<longrightarrow> s \<in> set segment)
   | Settling s n raised \<Rightarrow> rl_cursor rl \<noteq> None \<and> s \<in> set segment
   | Recovered \<Rightarrow> rl_cursor rl \<noteq> None | Started \<Rightarrow> rl_cursor rl \<noteq> None | Beaten \<Rightarrow> rl_cursor rl \<noteq> None
   | FencingHead \<Rightarrow> rl_cursor rl = None | FencingHandler \<Rightarrow> rl_cursor rl = None
   | Stopped \<Rightarrow> rl_stop rl
   | _ \<Rightarrow> True)"

lemma covered_Nil [simp]: "covered log base []"
  by (simp add: covered_def)

lemma within_reach_base [simp]: "within_reach base segment base"
  by (simp add: within_reach_def)

lemma within_reach_member: "covered log base segment \<Longrightarrow> s \<in> set segment \<Longrightarrow> within_reach base segment s"
  by (auto simp: covered_def within_reach_def intro: less_imp_le)

lemma within_reach_snoc: "within_reach base segment n \<Longrightarrow> within_reach base (segment @ [s]) n"
  by (auto simp: within_reach_def)

lemma filter_above_Cons:
  assumes "sorted_wrt (<) log" "filter (\<lambda>s. p < s) log = e # rest"
  shows "filter (\<lambda>s. e < s) log = rest" "e \<in> set log" "p < e" "\<And>s. s \<in> set log \<Longrightarrow> p < s \<Longrightarrow> e \<le> (s::nat)"
proof -
  have "e \<in> set (filter (\<lambda>s. p < s) log)" using assms(2) by simp
  then show "e \<in> set log" "p < e" by simp_all
  have sorted: "sorted_wrt (<) (e # rest)" using assms by (metis sorted_wrt_filter)
  show "e \<le> s" if "s \<in> set log" "p < s" for s
  proof -
    have "s \<in> set (filter (\<lambda>s. p < s) log)" using that by simp
    then show ?thesis using sorted by (auto simp: assms(2))
  qed
  have "filter (\<lambda>s. e < s) log = filter (\<lambda>s. e < s) (filter (\<lambda>s. p < s) log)"
    using \<open>p < e\<close> by (auto intro: filter_cong)
  also have "\<dots> = rest" using sorted by (simp add: assms(2) filter_id_conv)
  finally show "filter (\<lambda>s. e < s) log = rest" .
qed

lemma covered_snoc:
  assumes "covered log base segment" "sorted_wrt (<) log" "within_reach base segment p"
    and "filter (\<lambda>s. p < s) log = e # rest"
  shows "covered log base (segment @ [e])"
proof -
  note above = filter_above_Cons [OF assms(2,4)]
  have "base < e" using above(3) assms(3) by (auto simp: within_reach_def)
  moreover have "s \<in> set segment \<or> s = e" if s: "s \<in> set log" "base < s" "s \<le> e" for s
  proof (cases "p < s")
    case True with s above(4) show ?thesis by fastforce
  next
    case False
    then obtain t where "t \<in> set segment" "s \<le> t" using assms(3) s(2) by (fastforce simp: within_reach_def)
    then show ?thesis using assms(1) s by (auto simp: covered_def)
  qed
  ultimately show ?thesis using assms(1) above(2) by (auto simp: covered_def)
qed

definition keeps :: "relay_config \<Rightarrow> nat list \<Rightarrow> nat \<Rightarrow> nat list \<Rightarrow> relay_point \<Rightarrow> bool" where
  "keeps rc log base segment point = (case point of (ph, rl, fd, fx) \<Rightarrow>
     (case fold apply_effect fx (base, segment) of (base', segment') \<Rightarrow>
       relay_core rc log fd rl base' segment' \<and> phase_inv log rl base' segment' ph))"

lemma keeps_quiet [simp]: "keeps rc log base segment (ph, rl, fd, []) \<longleftrightarrow>
    relay_core rc log fd rl base segment \<and> phase_inv log rl base segment ph"
  by (simp add: keeps_def)

lemma keeps_claimed [simp]: "keeps rc log base segment (ph, rl, fd, [Claimed n]) \<longleftrightarrow>
    relay_core rc log fd rl n segment \<and> phase_inv log rl n segment ph"
  by (simp add: keeps_def)

lemma keeps_handled [simp]: "keeps rc log base segment (ph, rl, fd, [Handled s call]) \<longleftrightarrow>
    relay_core rc log fd rl base (segment @ [s]) \<and> phase_inv log rl base (segment @ [s]) ph"
  by (simp add: keeps_def)

subsection \<open>The turns keep it\<close>

lemma failing_keeps:
  assumes "relay_core rc log fd rl base segment"
  shows "keeps rc log base segment (failing exn rl fd)"
  using assms
  by (cases "(exn, rl)" rule: handle_failure.cases)
     (auto simp: failing_def fence_begin_def relay_core_def phase_inv_def)

lemma failing_database:
  assumes "relay_core rc log fd rl base segment" "database_call fate outcome fd = (Inl e, fd')"
    and "\<And>r fd''. outcome = Inr (r, fd'') \<Longrightarrow> event_log_inv log fd''"
  shows "keeps rc log base segment (failing (DatabaseError e) rl fd')"
proof (cases "fd' = fd")
  case True with assms(1) show ?thesis by (simp add: failing_keeps)
next
  case False
  then have "e = PostgresUnavailableError \<and> event_log_inv log fd'"
    using assms(2,3) by (auto simp: database_call_def split: fate.splits sum.splits prod.splits)
  then show ?thesis using assms(1) by (auto simp: failing_def fence_begin_def relay_core_def phase_inv_def)
qed

lemma database_call_Inr:
  "database_call fate outcome fd = (Inr r, fd') \<longleftrightarrow> fate = Answered \<and> outcome = Inr (r, fd')"
  by (auto simp: database_call_def split: fate.splits sum.splits prod.splits)

lemma read_events_ok:
  assumes "read_events clk instance_id limit g max_pending max_age fd = Inr es" "event_log_inv log fd"
  obtains c rest where "cursor_of instance_id fd = Some c" "owned g c"
    "filter (\<lambda>s. cu_last_sequence c < s) log = map re_sequence es @ rest"
proof -
  from assms(1) obtain c where c: "cursor_of instance_id fd = Some c" "owned g c"
      "fd_pruned_through fd \<le> cu_last_sequence c" "es = take (nat limit) (unread (cu_last_sequence c) fd)"
    by (auto simp: read_events_def Let_def split: option.splits if_splits)
  then have "filter (\<lambda>s. cu_last_sequence c < s) log =
      map re_sequence es @ drop (nat limit) (map re_sequence (unread (cu_last_sequence c) fd))"
    using unread_sequences [OF assms(2) c(3)] by (simp flip: take_map)
  with c show ?thesis by (intro that)
qed

lemma turn_read_keeps:
  assumes "relay_core rc log fd rl base segment"
  shows "keeps rc log base segment (turn_read rc i rl fd)"
proof (cases "rl_cursor rl = None \<or> rl_generation rl = None")
  case True with assms show ?thesis by (simp add: turn_read_def failing_keeps)
next
  case False
  then obtain n g where own: "rl_cursor rl = Some n" "rl_generation rl = Some g" by auto
  let ?outcome = "res_map (\<lambda>es. (es, fd)) (read_events (ri_clk i) (rc_instance_id rc) (rc_batch_size rc) (rl_generation rl)
     (Some (rc_max_pending_events rc)) (Some (rc_max_event_age_seconds rc)) fd)"
  obtain r fd' where call: "database_call (ri_fate i) ?outcome fd = (r, fd')" by (cases "database_call (ri_fate i) ?outcome fd") blast
  have fd': "fd' = fd" using call by (auto simp: database_call_def res_map_def split: fate.splits sum.splits prod.splits)
  show ?thesis
  proof (cases r)
    case (Inl e)
    then show ?thesis using own call by (simp add: turn_read_def failing_keeps [OF assms])
  next
    case (Inr es)
    then have "read_events (ri_clk i) (rc_instance_id rc) (rc_batch_size rc) (rl_generation rl)
        (Some (rc_max_pending_events rc)) (Some (rc_max_event_age_seconds rc)) fd = Inr es"
      using call by (auto simp: database_call_Inr)
    moreover have "event_log_inv log fd" using assms by (simp add: relay_core_def)
    ultimately obtain c rest where "cursor_of (rc_instance_id rc) fd = Some c" "owned (rl_generation rl) c"
        "filter (\<lambda>s. cu_last_sequence c < s) log = map re_sequence es @ rest"
      by (rule read_events_ok)
    moreover from this own assms have "within_reach base segment (cu_last_sequence c)"
      by (auto simp: owned_def relay_core_def)
    ultimately have "phase_inv log rl base segment (Dispatching es (length es) None)"
      using own by (auto simp: phase_inv_def)
    then show ?thesis using own call Inr assms by (simp add: turn_read_def)
  qed
qed

lemma heartbeat_cursor:
  assumes "heartbeat_claimed_instance clk instance_id g lease_seconds fd = Inr fd'"
  obtains c where "cursor_of instance_id fd = Some c" "cu_generation c = g" "live_cursor (clk 0) c"
    "fd' = update_cursor instance_id (renewed (clk 1 + seconds_delta lease_seconds)) fd"
  using assms by (auto simp: heartbeat_claimed_instance_def split: option.splits if_splits)

lemma cursor_of_renewed [simp]:
  "cursor_of i (update_cursor instance_id (renewed expires) fd) =
     (if i = instance_id then map_option (renewed expires) (cursor_of i fd) else cursor_of i fd)"
  by (rule cursor_of_update) (simp add: renewed_def)

lemma renewed_fields [simp]:
  "cu_generation (renewed expires c) = cu_generation c" "cu_last_sequence (renewed expires c) = cu_last_sequence c"
  "cu_lease_expires_at (renewed expires c) = expires" "cu_instance_id (renewed expires c) = cu_instance_id c"
  by (simp_all add: renewed_def)

lemma turn_beat_keeps:
  assumes core: "relay_core rc log fd rl base segment"
  shows "keeps rc log base segment (turn_beat rc i rl fd)"
proof (cases "ri_started i < rl_next_heartbeat rl \<or> rl_cursor rl = None \<or> rl_generation rl = None")
  case True
  then show ?thesis using turn_read_keeps [OF core] failing_keeps [OF core]
    by (auto simp: turn_beat_def split: option.split)
next
  case False
  then obtain g n where own: "rl_generation rl = Some g" "rl_cursor rl = Some n" by auto
  let ?outcome = "res_map (\<lambda>fd'. ((), fd')) (heartbeat_claimed_instance (ri_clk i) (rc_instance_id rc) g (rc_lease_seconds rc) fd)"
  obtain r fd' where call: "database_call (ri_fate i) ?outcome fd = (r, fd')" by (cases "database_call (ri_fate i) ?outcome fd") blast
  have inv: "event_log_inv log fd" using core by (simp add: relay_core_def)
  show ?thesis
  proof (cases r)
    case (Inl e)
    have "keeps rc log base segment (failing (DatabaseError e) rl fd')"
      by (rule failing_database [OF core call [unfolded Inl]]) (auto intro: event_log_inv_operation inv)
    then show ?thesis using False own call Inl by (simp add: turn_beat_def heartbeat_def)
  next
    case (Inr u)
    then have beat: "heartbeat_claimed_instance (ri_clk i) (rc_instance_id rc) g (rc_lease_seconds rc) fd = Inr fd'"
      using call by (auto simp: database_call_Inr)
    then obtain c where fd': "fd' = update_cursor (rc_instance_id rc) (renewed (ri_clk i 1 + seconds_delta (rc_lease_seconds rc))) fd"
      by (rule heartbeat_cursor)
    have "event_log_inv log fd'" by (rule event_log_inv_heartbeat [OF inv beat])
    then have "relay_core rc log fd' (lease_begins rc i rl) base segment"
      using core own by (auto simp: relay_core_def lease_begins_def fd')
    then show ?thesis using False own call Inr by (simp add: turn_beat_def heartbeat_def phase_inv_def lease_begins_def)
  qed
qed

lemma claim_cursor:
  assumes "claim_instance clk fresh instance_id lease_seconds generation fd = Inr (reg, fd')"
  obtains c where "cursor_of instance_id fd' = Some c" "cu_generation c = rg_generation reg"
    "cu_last_sequence c = rg_last_sequence reg" "cu_lease_expires_at c = clk 1 + seconds_delta lease_seconds"
  using assms
  by (auto simp: claim_instance_def Let_def registration_of_def cursor_of_new cursor_of_update
      split: option.splits if_splits)

lemma resynchronize_cursor:
  assumes "resynchronize_claimed_instance clk instance_id g g' lease_seconds fd = Inr (reg, fd')"
  obtains c where "cursor_of instance_id fd' = Some c" "cu_generation c = rg_generation reg" "rg_generation reg = g'"
    "cu_last_sequence c = rg_last_sequence reg" "cu_lease_expires_at c = clk 0 + seconds_delta lease_seconds"
  using assms
  by (auto simp: resynchronize_claimed_instance_def Let_def registration_of_def moved_to_head_def cursor_of_update
      split: option.splits if_splits)

lemma turn_start_keeps:
  assumes core: "relay_core rc log fd rl base segment"
    and new: "rl_cursor rl = None \<Longrightarrow> segment = [] \<and> \<not> rl_gap_recovery_required rl \<and> \<not> rl_lag_recovery_required rl"
  shows "keeps rc log base segment (turn_start rc i rl fd)"
proof (cases "rl_cursor rl = None")
  case False then show ?thesis by (simp add: turn_start_def turn_beat_keeps [OF core])
next
  case True
  let ?rl = "rl\<lparr>rl_stop := False\<rparr>"
  let ?outcome = "claim_instance (ri_clk i) (ri_fresh i) (rc_instance_id rc) (rc_lease_seconds rc) (rl_generation ?rl) fd"
  obtain r fd' where call: "database_call (ri_fate i) ?outcome fd = (r, fd')" by (cases "database_call (ri_fate i) ?outcome fd") blast
  have inv: "event_log_inv log fd" using core by (simp add: relay_core_def)
  have core': "relay_core rc log fd ?rl base segment" using core by (simp add: relay_core_def)
  show ?thesis
  proof (cases r)
    case (Inl e)
    have "keeps rc log base segment (failing (DatabaseError e) ?rl fd')"
      by (rule failing_database [OF core' call [unfolded Inl]]) (rule event_log_inv_claim [OF inv])
    then show ?thesis using True call Inl by (simp add: turn_start_def initialize_relay_def)
  next
    case (Inr reg)
    then have claim: "claim_instance (ri_clk i) (ri_fresh i) (rc_instance_id rc) (rc_lease_seconds rc) (rl_generation ?rl) fd = Inr (reg, fd')"
      using call by (simp add: database_call_Inr)
    then obtain c where "cursor_of (rc_instance_id rc) fd' = Some c" "cu_last_sequence c = rg_last_sequence reg"
      by (rule claim_cursor)
    then show ?thesis using True call Inr new event_log_inv_claim [OF inv claim]
      by (auto simp: turn_start_def initialize_relay_def phase_inv_def relay_core_def lease_begins_def)
  qed
qed

lemma turn_try_keeps:
  assumes core: "relay_core rc log fd rl base segment" and fenced: "\<not> rl_fence_required rl"
  shows "keeps rc log base segment (turn_try rc i rl fd)"
proof (cases "rl_gap_recovery_required rl \<or> rl_lag_recovery_required rl")
  case False then show ?thesis using turn_start_keeps [OF core] core fenced by (auto simp: turn_try_def relay_core_def)
next
  case True
  show ?thesis
  proof (cases "rl_generation rl")
    case None with True show ?thesis by (simp add: turn_try_def failing_keeps [OF core])
  next
    case (Some g)
    let ?recovery = "case rl_recovery_generation rl of None \<Rightarrow> ri_fresh i | Some r \<Rightarrow> r"
    let ?rl = "rl\<lparr>rl_recovery_generation := Some ?recovery\<rparr>"
    let ?outcome = "resynchronize_claimed_instance (ri_clk i) (rc_instance_id rc) g ?recovery (rc_lease_seconds rc) fd"
    obtain r fd' where call: "database_call (ri_fate i) ?outcome fd = (r, fd')" by (cases "database_call (ri_fate i) ?outcome fd") blast
    have inv: "event_log_inv log fd" using core by (simp add: relay_core_def)
    have nil: "segment = []" using core True fenced by (auto simp: relay_core_def)
    have core': "relay_core rc log fd ?rl base segment" using core by (simp add: relay_core_def)
    show ?thesis
    proof (cases r)
      case (Inl e)
      have "keeps rc log base segment (failing (DatabaseError e) ?rl fd')"
        by (rule failing_database [OF core' call [unfolded Inl]]) (rule event_log_inv_resynchronize [OF inv])
      then show ?thesis using True Some call Inl by (simp add: turn_try_def recover_def Let_def)
    next
      case (Inr reg)
      then have sync: "resynchronize_claimed_instance (ri_clk i) (rc_instance_id rc) g ?recovery (rc_lease_seconds rc) fd = Inr (reg, fd')"
        using call by (simp add: database_call_Inr)
      then obtain c where "cursor_of (rc_instance_id rc) fd' = Some c" "cu_last_sequence c = rg_last_sequence reg"
        by (rule resynchronize_cursor)
      then show ?thesis using True Some call Inr nil fenced event_log_inv_resynchronize [OF inv sync]
        by (auto simp: turn_try_def recover_def Let_def phase_inv_def relay_core_def lease_begins_def)
    qed
  qed
qed

lemma turn_head_keeps:
  assumes "relay_core rc log fd rl base segment"
  shows "keeps rc log base segment (turn_head rc i rl fd)"
proof -
  have "relay_core rc log fd (fence_begin rl) base segment" if "rl_fenced rl \<or> rl_cursor rl = None"
    using assms that by (auto simp: relay_core_def fence_begin_def)
  moreover have "\<not> rl_fence_required (fence_begin rl)" if "rl_fenced rl" using that by (simp add: fence_begin_def)
  moreover have "rl_cursor rl = None \<and> rl_cursor (fence_begin rl) = None"
    if "rl_fence_required rl \<or> rl_gap_recovery_required rl \<or> rl_lag_recovery_required rl"
    using that assms by (auto simp: relay_core_def fence_begin_def)
  ultimately show ?thesis using assms turn_try_keeps
    by (auto simp: turn_head_def phase_inv_def)
qed

lemma turn_dispatch_keeps:
  assumes core: "relay_core rc log fd rl base segment" and ph: "phase_inv log rl base segment (Dispatching es n d)"
  shows "keeps rc log base segment (turn_dispatch de ok es n d rl fd rc)"
proof (cases es)
  case Nil
  then show ?thesis using core ph by (auto simp: turn_dispatch_def phase_inv_def split: option.split)
next
  case (Cons e es')
  have cursor: "rl_cursor rl \<noteq> None" and settled: "\<And>s. d = Some s \<Longrightarrow> s \<in> set segment"
    using ph by (auto simp: phase_inv_def)
  obtain p rest where p: "within_reach base segment p" "filter (\<lambda>s. p < s) log = re_sequence e # map re_sequence es' @ rest"
    using ph Cons by (auto simp: phase_inv_def)
  have cov: "covered log base segment" and sorted: "sorted_wrt (<) log"
    using core by (auto simp: relay_core_def event_log_inv_def)
  let ?seg = "segment @ [re_sequence e]"
  have cov': "covered log base ?seg" by (rule covered_snoc [OF cov sorted p])
  then have "relay_core rc log fd rl base ?seg"
    using core cursor by (auto simp: relay_core_def intro: within_reach_snoc)
  moreover have "phase_inv log rl base ?seg (Dispatching es' n (Some (re_sequence e)))"
    using cursor filter_above_Cons(1) [OF sorted p(2)] within_reach_member [OF cov', of "re_sequence e"]
    by (auto simp: phase_inv_def)
  ultimately show ?thesis using core failing_keeps [OF core] Cons settled cursor
    by (auto simp: turn_dispatch_def Let_def phase_inv_def split: option.split)
qed

lemma acknowledge_cursor:
  assumes "acknowledge_events clk instance_id n g fd = Inr (r, fd')" "cursor_of instance_id fd' = Some c'"
  obtains c where "cursor_of instance_id fd = Some c" "cu_generation c' = cu_generation c"
    "cu_last_sequence c' = max n (cu_last_sequence c)" "cu_lease_expires_at c' = cu_lease_expires_at c"
  using assms by (auto simp: acknowledge_events_def cursor_of_update split: option.splits if_splits)

lemma turn_settle_keeps:
  assumes core: "relay_core rc log fd rl base segment" and ph: "phase_inv log rl base segment (Settling s n raised)"
  shows "keeps rc log base segment (turn_settle rc i s n raised rl fd)"
proof -
  let ?outcome = "acknowledge_events (ri_clk i) (rc_instance_id rc) s (rl_generation rl) fd"
  obtain r fd' where call: "database_call (ri_fate i) ?outcome fd = (r, fd')" by (cases "database_call (ri_fate i) ?outcome fd") blast
  have inv: "event_log_inv log fd" using core by (simp add: relay_core_def)
  have s: "s \<in> set segment" and cursor: "rl_cursor rl \<noteq> None" using ph by (auto simp: phase_inv_def)
  show ?thesis
  proof (cases r)
    case (Inl e)
    have "keeps rc log base segment (failing (DatabaseError e) rl fd')"
      by (rule failing_database [OF core call [unfolded Inl]]) (rule event_log_inv_acknowledge [OF inv])
    then show ?thesis using call Inl by (simp add: turn_settle_def)
  next
    case (Inr m)
    then have ack: "?outcome = Inr (m, fd')" using call by (simp add: database_call_Inr)
    have reach: "within_reach base segment s"
      using core s by (auto simp: relay_core_def intro: within_reach_member)
    have "within_reach base segment (cu_last_sequence c')"
      if c': "cursor_of (rc_instance_id rc) fd' = Some c'" and g: "rl_generation rl = Some (cu_generation c')" for c'
    proof -
      obtain c where c: "cursor_of (rc_instance_id rc) fd = Some c" "cu_generation c' = cu_generation c"
          "cu_last_sequence c' = max s (cu_last_sequence c)"
        by (rule acknowledge_cursor [OF ack c'])
      then have "within_reach base segment (cu_last_sequence c)" using core cursor g by (auto simp: relay_core_def)
      then show ?thesis using c(3) reach by (simp add: max_def)
    qed
    then have "relay_core rc log fd' (rl\<lparr>rl_cursor := Some m\<rparr>) base segment"
      using core cursor event_log_inv_acknowledge [OF inv ack] by (auto simp: relay_core_def)
    then show ?thesis using call Inr failing_keeps by (auto simp: turn_settle_def Let_def phase_inv_def)
  qed
qed

lemma relay_turn_keeps:
  assumes core: "relay_core rc log fd rl base segment" and ph: "phase_inv log rl base segment ph"
  shows "keeps rc log base segment (relay_turn rc de i ph rl fd)"
proof (cases ph)
  case FencingHead
  show ?thesis
  proof (cases "ri_target_ok i")
    case True
    have "relay_core rc log fd (fence_end True rl) base []"
      using core ph FencingHead by (auto simp: relay_core_def fence_end_def phase_inv_def)
    then have "keeps rc log base [] (turn_try rc i (fence_end True rl) fd)"
      by (rule turn_try_keeps) (simp add: fence_end_def)
    then show ?thesis using FencingHead True by (auto simp: keeps_def)
  next
    case False then show ?thesis using FencingHead core by (simp add: phase_inv_def)
  qed
next
  case FencingHandler
  then show ?thesis using core ph
    by (auto simp: keeps_def relay_core_def phase_inv_def fence_end_def)
qed (use core ph turn_head_keeps [OF core] turn_start_keeps [OF core] turn_beat_keeps [OF core] turn_read_keeps [OF core]
      turn_dispatch_keeps [OF core] turn_settle_keeps [OF core] in \<open>auto simp: phase_inv_def\<close>)

subsection \<open>What peers can do to it\<close>

text \<open>
  A peer commits at most one event, behind all others; the row of this instance with a UUID of this
  relay is one that was there, or its lease had run out when somebody else claimed the row.
\<close>

lemma foreign_own: "foreign rc mine i (Some g) \<Longrightarrow> g \<in> mine \<Longrightarrow> i \<noteq> rc_instance_id rc"
  by (auto simp: foreign_def)

lemma peer_step_log:
  assumes "peer_step rc mine clk (log, fd) (log', fd')" "event_log_inv log fd"
  shows "event_log_inv log' fd' \<and> (\<exists>news. log' = log @ news)"
  using assms
  by (cases rule: peer_step.cases)
     (auto intro: event_log_inv_append event_log_inv_burn event_log_inv_rewrite event_log_inv_prune(1) event_log_inv_operation
       dest: event_log_inv_append(1,2))

lemma cursor_of_cong: "fd_cursors fd' = fd_cursors fd \<Longrightarrow> cursor_of i fd' = cursor_of i fd"
  by (simp add: cursor_of_def)

lemma peer_step_row:
  assumes "peer_step rc mine clk (log, fd) (log', fd')" "event_log_inv log fd"
    and "cursor_of (rc_instance_id rc) fd' = Some c" "cu_generation c \<in> mine"
  shows "cursor_of (rc_instance_id rc) fd = Some c"
  using assms
proof (cases rule: peer_step.cases)
  case (peer_append jsonb now room_id event_type payload s)
  then show ?thesis using event_log_inv_append(3) [OF assms(2)] assms(3) by (metis cursor_of_cong)
next
  case (peer_prune max_events locked max_age limit r)
  then show ?thesis using event_log_inv_prune(2) [OF assms(2)] assms(3) by (metis cursor_of_cong)
next
  case (peer_claim fresh instance_id lease_seconds g r)
  then show ?thesis using assms(3,4)
    by (auto simp: claim_instance_def Let_def cursor_of_new cursor_of_update foreign_def split: option.splits if_splits)
next
  case (peer_resynchronize instance_id g g' lease_seconds r)
  then show ?thesis using assms(3,4)
    by (auto simp: resynchronize_claimed_instance_def Let_def cursor_of_update moved_to_head_def foreign_def
        split: option.splits if_splits)
next
  case (peer_acknowledge instance_id n g r)
  then show ?thesis using assms(3,4)
    by (auto simp: acknowledge_events_def cursor_of_update foreign_def owned_def split: option.splits if_splits)
qed (use assms(3,4) in \<open>auto simp: burn_sequence_def rewrite_payloads_def cursor_of_def
      release_instance_def heartbeat_claimed_instance_def foreign_def update_cursor_def find_keyed_update [of cu_instance_id]
      split: option.splits if_splits\<close>)

lemma peer_step_lease:
  assumes "peer_step rc mine clk (log, fd) (log', fd')" "event_log_inv log fd"
    and "cursor_of (rc_instance_id rc) fd = Some c" "cu_generation c \<in> mine"
  shows "cursor_of (rc_instance_id rc) fd' = Some c \<or> cu_lease_expires_at c \<le> clk 0"
  using assms
proof (cases rule: peer_step.cases)
  case (peer_append jsonb now room_id event_type payload s)
  then show ?thesis using event_log_inv_append(3) [OF assms(2)] assms(3) by (metis cursor_of_cong)
next
  case (peer_prune max_events locked max_age limit r)
  then show ?thesis using event_log_inv_prune(2) [OF assms(2)] assms(3) by (metis cursor_of_cong)
next
  case (peer_claim fresh instance_id lease_seconds g r)
  then show ?thesis using assms(3,4)
    by (auto simp: claim_instance_def Let_def cursor_of_new cursor_of_update foreign_def live_cursor_def
        split: option.splits if_splits)
next
  case (peer_resynchronize instance_id g g' lease_seconds r)
  then show ?thesis using assms(3,4)
    by (auto simp: resynchronize_claimed_instance_def Let_def cursor_of_update moved_to_head_def foreign_def
        split: option.splits if_splits)
next
  case (peer_acknowledge instance_id n g r)
  then show ?thesis using assms(3,4)
    by (auto simp: acknowledge_events_def cursor_of_update foreign_def owned_def split: option.splits if_splits)
qed (use assms(3,4) in \<open>auto simp: burn_sequence_def rewrite_payloads_def cursor_of_def
      release_instance_def heartbeat_claimed_instance_def foreign_def update_cursor_def find_keyed_update [of cu_instance_id]
      split: option.splits if_splits\<close>)

subsection \<open>Reachable systems\<close>

definition relay_inv :: "relay_config \<Rightarrow> relay_system \<Rightarrow> bool" where
  "relay_inv rc sy \<longleftrightarrow> relay_core rc (sy_log sy) (sy_fd sy) (sy_relay sy) (sy_base sy) (sy_segment sy) \<and>
     phase_inv (sy_log sy) (sy_relay sy) (sy_base sy) (sy_segment sy) (sy_phase sy)"

lemma covered_grow:
  assumes "covered log base segment" "sorted_wrt (<) (log @ news)"
  shows "covered (log @ news) base segment"
proof -
  have "s < n" if "s \<in> set segment" "n \<in> set news" for s n
    using that assms by (auto simp: covered_def sorted_wrt_append)
  then show ?thesis using assms(1) by (fastforce simp: covered_def)
qed

lemma phase_inv_grow:
  assumes "phase_inv log rl base segment ph" shows "phase_inv (log @ news) rl base segment ph"
  using assms by (cases ph) (fastforce simp: phase_inv_def)+

lemma relay_inv_peer:
  assumes inv: "relay_inv rc sy" and peer: "peer_step rc (own_generations (sy_relay sy)) clk (sy_log sy, sy_fd sy) (log, fd)"
  shows "relay_inv rc (sy\<lparr>sy_fd := fd, sy_log := log, sy_now := now\<rparr>)"
proof -
  have old: "event_log_inv (sy_log sy) (sy_fd sy)" using inv by (simp add: relay_inv_def relay_core_def)
  obtain news where log: "log = sy_log sy @ news" and new: "event_log_inv log fd" using peer_step_log [OF peer old] by blast
  then have "covered log (sy_base sy) (sy_segment sy)"
    using inv by (auto simp: relay_inv_def relay_core_def event_log_inv_def intro: covered_grow)
  moreover have "within_reach (sy_base sy) (sy_segment sy) (cu_last_sequence c)"
    if "rl_cursor (sy_relay sy) \<noteq> None" "cursor_of (rc_instance_id rc) fd = Some c"
      "rl_generation (sy_relay sy) = Some (cu_generation c)" for c
    using that inv peer_step_row [OF peer old that(2)] by (auto simp: relay_inv_def relay_core_def own_generations_def)
  ultimately show ?thesis using inv new phase_inv_grow
    by (auto simp: relay_inv_def relay_core_def log)
qed

lemma release_cursor:
  assumes "release_relay rc i rl fd = (r, fd')"
  shows "fd' = fd \<or> (\<exists>expires. fd' = update_cursor (rc_instance_id rc) (renewed expires) fd)"
  using assms
  by (auto simp: release_relay_def database_call_def release_instance_def
      split: option.splits fate.splits sum.splits prod.splits if_splits)

lemma relay_inv_step:
  assumes "relay_inv rc sy" "relay_step rc de sy sy'"
  shows "relay_inv rc sy'"
  using assms(2)
proof cases
  case (relay_runs i ph rl fd fx base segment)
  then show ?thesis
    using relay_turn_keeps [of rc "sy_log sy" "sy_fd sy" "sy_relay sy" "sy_base sy" "sy_segment sy" "sy_phase sy" de i] assms(1)
    by (simp add: relay_inv_def keeps_def)
next
  case (peer_runs clk log fd now)
  then show ?thesis using relay_inv_peer [OF assms(1)] by simp
next
  case stop_called
  then show ?thesis using assms(1)
    by (auto simp: relay_inv_def relay_core_def stop_relay_def phase_inv_def split: phase.splits)
next
  case (relay_released i r fd)
  have "event_log_inv (sy_log sy) (sy_fd sy)" using assms(1) by (simp add: relay_inv_def relay_core_def)
  then have "relay_core rc (sy_log sy) fd (sy_relay sy) (sy_base sy) (sy_segment sy)"
    using release_cursor [OF relay_released(3)] assms(1)
    by (auto simp: relay_inv_def relay_core_def renewed_def intro!: event_log_inv_update)
  then show ?thesis using assms(1) relay_released(1) by (simp add: relay_inv_def)
qed

lemma relay_inv_reachable: "relay_reachable rc de sy \<Longrightarrow> relay_inv rc sy"
proof (induction rule: relay_reachable.induct)
  case relay_initial then show ?case by (simp add: relay_inv_def relay_core_def new_relay_def phase_inv_def)
next
  case relay_next then show ?case by (blast intro: relay_inv_step)
qed

text \<open>
  C2. Between two closings of its sockets a relay hands over every committed event of the stretch of the log
  it works on, at the first time in order, whatever peers commit and prune, whatever calls of the
  database fail or lose their reply and whatever deliveries raise: when an event has been handed over,
  so have all events committed since the cursor of the claim the stretch began with. Its durable cursor
  does not run ahead of them.
\<close>

theorem relay_skips_nothing:
  assumes "relay_reachable rc de sy"
  shows "(\<forall>s\<in>set (sy_log sy). \<forall>t\<in>set (sy_segment sy). sy_base sy < s \<and> s \<le> t \<longrightarrow> s \<in> set (sy_segment sy)) \<and>
    (\<forall>c. rl_cursor (sy_relay sy) \<noteq> None \<and> cursor_of (rc_instance_id rc) (sy_fd sy) = Some c \<and>
       rl_generation (sy_relay sy) = Some (cu_generation c) \<longrightarrow>
       cu_last_sequence c = sy_base sy \<or> (\<exists>t\<in>set (sy_segment sy). cu_last_sequence c \<le> t))"
proof
  note inv = relay_inv_reachable [OF assms, unfolded relay_inv_def relay_core_def]
  show "\<forall>s\<in>set (sy_log sy). \<forall>t\<in>set (sy_segment sy). sy_base sy < s \<and> s \<le> t \<longrightarrow> s \<in> set (sy_segment sy)"
    using inv by (simp add: covered_def)
  show "\<forall>c. rl_cursor (sy_relay sy) \<noteq> None \<and> cursor_of (rc_instance_id rc) (sy_fd sy) = Some c \<and>
       rl_generation (sy_relay sy) = Some (cu_generation c) \<longrightarrow>
       cu_last_sequence c = sy_base sy \<or> (\<exists>t\<in>set (sy_segment sy). cu_last_sequence c \<le> t)"
    using inv by (simp add: within_reach_def)
qed

subsection \<open>The lease behind readiness\<close>

definition lease_ok :: "relay_config \<Rightarrow> foundation \<Rightarrow> relay \<Rightarrow> int \<Rightarrow> bool" where
  "lease_ok rc fd rl now \<longleftrightarrow> (\<forall>g. rl_cursor rl \<noteq> None \<and> rl_generation rl = Some g \<and> now < rl_lease_deadline rl \<longrightarrow>
     (\<exists>c. cursor_of (rc_instance_id rc) fd = Some c \<and> cu_generation c = g \<and> rl_lease_deadline rl \<le> cu_lease_expires_at c))"

definition leases :: "relay_config \<Rightarrow> int \<Rightarrow> relay_point \<Rightarrow> bool" where
  "leases rc now point = (case point of (ph, rl, fd, fx) \<Rightarrow> lease_ok rc fd rl now)"

lemma leases_point [simp]: "leases rc now (ph, rl, fd, fx) = lease_ok rc fd rl now"
  by (simp add: leases_def)

lemma lease_ok_later: "lease_ok rc fd rl now \<Longrightarrow> now \<le> later \<Longrightarrow> lease_ok rc fd rl later"
  by (simp add: lease_ok_def)

lemma failing_leases: "lease_ok rc fd rl now \<Longrightarrow> leases rc now (failing exn rl fd)"
  by (cases "(exn, rl)" rule: handle_failure.cases) (auto simp: failing_def fence_begin_def lease_ok_def)

lemma failing_database_leases:
  assumes "lease_ok rc fd rl now" "database_call fate outcome fd = (Inl e, fd')"
  shows "leases rc now (failing (DatabaseError e) rl fd')"
proof (cases "fd' = fd")
  case True with assms(1) show ?thesis by (simp add: failing_leases)
next
  case False
  then have "e = PostgresUnavailableError"
    using assms(2) by (auto simp: database_call_def split: fate.splits sum.splits prod.splits)
  then show ?thesis by (simp add: failing_def fence_begin_def lease_ok_def)
qed

definition timed :: "relay_input \<Rightarrow> bool" where
  "timed i \<longleftrightarrow> (\<forall>k. ri_started i \<le> ri_clk i k \<and> ri_clk i k \<le> ri_ended i)"

lemma clock: "timed i \<Longrightarrow> ri_started i \<le> ri_clk i k \<and> ri_clk i k \<le> ri_ended i"
  by (simp add: timed_def)

lemma read_leases: "lease_ok rc fd rl (ri_ended i) \<Longrightarrow> leases rc (ri_ended i) (turn_read rc i rl fd)"
  by (auto simp: turn_read_def failing_leases split: sum.split)

lemma beat_leases:
  assumes timed: "timed i" and ok0: "lease_ok rc fd rl (ri_ended i)"
  shows "leases rc (ri_ended i) (turn_beat rc i rl fd)"
proof (cases "ri_started i < rl_next_heartbeat rl \<or> rl_cursor rl = None \<or> rl_generation rl = None")
  case True
  then show ?thesis using read_leases [OF ok0] failing_leases [OF ok0] by (auto simp: turn_beat_def split: option.split)
next
  case False
  then obtain g n where own: "rl_generation rl = Some g" "rl_cursor rl = Some n" by auto
  let ?outcome = "res_map (\<lambda>fd'. ((), fd')) (heartbeat_claimed_instance (ri_clk i) (rc_instance_id rc) g (rc_lease_seconds rc) fd)"
  obtain r fd' where call: "database_call (ri_fate i) ?outcome fd = (r, fd')" by (cases "database_call (ri_fate i) ?outcome fd") blast
  show ?thesis
  proof (cases r)
    case (Inl e)
    then show ?thesis using False own call failing_database_leases [OF ok0, of _ _ e fd']
      by (simp add: turn_beat_def heartbeat_def)
  next
    case (Inr u)
    then have beat: "heartbeat_claimed_instance (ri_clk i) (rc_instance_id rc) g (rc_lease_seconds rc) fd = Inr fd'"
      using call by (auto simp: database_call_Inr)
    obtain c where "cursor_of (rc_instance_id rc) fd = Some c" "cu_generation c = g"
      "fd' = update_cursor (rc_instance_id rc) (renewed (ri_clk i 1 + seconds_delta (rc_lease_seconds rc))) fd"
      using beat by (rule heartbeat_cursor)
    then have "lease_ok rc fd' (lease_begins rc i rl) (ri_ended i)"
      using own clock [OF timed, of 1] by (auto simp: lease_ok_def lease_begins_def)
    then show ?thesis using False own call Inr by (simp add: turn_beat_def heartbeat_def)
  qed
qed

lemma start_leases:
  assumes timed: "timed i" and ok0: "lease_ok rc fd rl (ri_ended i)"
  shows "leases rc (ri_ended i) (turn_start rc i rl fd)"
proof (cases "rl_cursor rl = None")
  case False then show ?thesis by (simp add: turn_start_def beat_leases [OF timed ok0])
next
  case True
  let ?rl = "rl\<lparr>rl_stop := False\<rparr>"
  let ?outcome = "claim_instance (ri_clk i) (ri_fresh i) (rc_instance_id rc) (rc_lease_seconds rc) (rl_generation ?rl) fd"
  obtain r fd' where call: "database_call (ri_fate i) ?outcome fd = (r, fd')" by (cases "database_call (ri_fate i) ?outcome fd") blast
  have ok: "lease_ok rc fd ?rl (ri_ended i)" using True by (simp add: lease_ok_def)
  show ?thesis
  proof (cases r)
    case (Inl e)
    then show ?thesis using True call failing_database_leases [OF ok, of _ _ e fd']
      by (simp add: turn_start_def initialize_relay_def)
  next
    case (Inr reg)
    then have claim: "claim_instance (ri_clk i) (ri_fresh i) (rc_instance_id rc) (rc_lease_seconds rc) (rl_generation ?rl) fd = Inr (reg, fd')"
      using call by (simp add: database_call_Inr)
    then obtain c where "cursor_of (rc_instance_id rc) fd' = Some c" "cu_generation c = rg_generation reg"
        "cu_lease_expires_at c = ri_clk i 1 + seconds_delta (rc_lease_seconds rc)"
      by (rule claim_cursor)
    then show ?thesis using True call Inr clock [OF timed, of 1]
      by (simp add: turn_start_def initialize_relay_def lease_begins_def lease_ok_def)
  qed
qed

lemma try_leases:
  assumes timed: "timed i" and ok0: "lease_ok rc fd rl (ri_ended i)"
  shows "leases rc (ri_ended i) (turn_try rc i rl fd)"
proof (cases "(rl_gap_recovery_required rl \<or> rl_lag_recovery_required rl) \<and> rl_generation rl \<noteq> None")
  case False then show ?thesis using start_leases [OF timed ok0] failing_leases [OF ok0] by (auto simp: turn_try_def)
next
  case True
  then obtain g where g: "rl_generation rl = Some g" by blast
  let ?recovery = "case rl_recovery_generation rl of None \<Rightarrow> ri_fresh i | Some r \<Rightarrow> r"
  let ?rl = "rl\<lparr>rl_recovery_generation := Some ?recovery\<rparr>"
  let ?outcome = "resynchronize_claimed_instance (ri_clk i) (rc_instance_id rc) g ?recovery (rc_lease_seconds rc) fd"
  obtain r fd' where call: "database_call (ri_fate i) ?outcome fd = (r, fd')" by (cases "database_call (ri_fate i) ?outcome fd") blast
  have ok: "lease_ok rc fd ?rl (ri_ended i)" using ok0 by (simp add: lease_ok_def)
  show ?thesis
  proof (cases r)
    case (Inl e)
    then show ?thesis using True g call failing_database_leases [OF ok, of _ _ e fd']
      by (simp add: turn_try_def recover_def Let_def)
  next
    case (Inr reg)
    then have sync: "resynchronize_claimed_instance (ri_clk i) (rc_instance_id rc) g ?recovery (rc_lease_seconds rc) fd = Inr (reg, fd')"
      using call by (simp add: database_call_Inr)
    then obtain c where "cursor_of (rc_instance_id rc) fd' = Some c" "cu_generation c = rg_generation reg"
        "cu_lease_expires_at c = ri_clk i 0 + seconds_delta (rc_lease_seconds rc)"
      by (rule resynchronize_cursor)
    then show ?thesis using True g call Inr clock [OF timed, of 0]
      by (simp add: turn_try_def recover_def Let_def lease_begins_def lease_ok_def)
  qed
qed

lemma settle_leases:
  assumes ok: "lease_ok rc fd rl (ri_ended i)" and cursor: "rl_cursor rl \<noteq> None"
  shows "leases rc (ri_ended i) (turn_settle rc i s n raised rl fd)"
proof -
  let ?outcome = "acknowledge_events (ri_clk i) (rc_instance_id rc) s (rl_generation rl) fd"
  obtain r fd' where call: "database_call (ri_fate i) ?outcome fd = (r, fd')" by (cases "database_call (ri_fate i) ?outcome fd") blast
  show ?thesis
  proof (cases r)
    case (Inl e)
    then show ?thesis using call failing_database_leases [OF ok call [unfolded Inl]] by (simp add: turn_settle_def)
  next
    case (Inr m)
    then have "?outcome = Inr (m, fd')" using call by (simp add: database_call_Inr)
    then have "lease_ok rc fd' (rl\<lparr>rl_cursor := Some m\<rparr>) (ri_ended i)"
      using ok cursor by (auto simp: acknowledge_events_def lease_ok_def cursor_of_update split: option.splits if_splits)
    then show ?thesis using call Inr failing_leases by (auto simp: turn_settle_def Let_def)
  qed
qed

lemma turn_leases:
  assumes timed: "timed i" and ok: "lease_ok rc fd rl (ri_ended i)" and ph: "phase_inv log rl base segment ph"
  shows "leases rc (ri_ended i) (relay_turn rc de i ph rl fd)"
proof -
  have fence: "lease_ok rc fd (fence_begin rl) (ri_ended i)" "lease_ok rc fd (fence_end closed rl) (ri_ended i)" for closed
    using ok by (auto simp: lease_ok_def fence_begin_def fence_end_def)
  have head: "leases rc (ri_ended i) (turn_head rc i rl fd)"
    using ok fence(1) try_leases [OF timed] by (simp add: turn_head_def)
  show ?thesis
  proof (cases ph)
    case FencingHead
    then show ?thesis using ok try_leases [OF timed fence(2) [of True]] by (auto simp: leases_def split: prod.splits)
  next
    case (Dispatching es n d)
    then show ?thesis using ok failing_leases [OF ok]
      by (auto simp: turn_dispatch_def Let_def split: list.split option.split)
  next
    case (Settling s n raised)
    then show ?thesis using settle_leases [OF ok] ph by (simp add: phase_inv_def)
  qed (use ok fence head start_leases [OF timed ok] beat_leases [OF timed ok] read_leases [OF ok] in auto)
qed

definition claim_inv :: "relay_config \<Rightarrow> relay_system \<Rightarrow> bool" where
  "claim_inv rc sy \<longleftrightarrow> sy_phase sy \<noteq> Stopped \<longrightarrow> lease_ok rc (sy_fd sy) (sy_relay sy) (sy_now sy)"

lemma claim_inv_step:
  assumes lease: "claim_inv rc sy" and inv: "relay_inv rc sy" and step: "relay_step rc de sy sy'"
  shows "claim_inv rc sy'"
  using step
proof cases
  case (relay_runs i ph rl fd fx base segment)
  have timed: "timed i" using relay_runs(5) by (simp add: timed_def)
  then have later: "sy_now sy \<le> ri_ended i" using relay_runs(4) clock [OF timed, of 0] by simp
  show ?thesis
  proof (cases "sy_phase sy = Stopped")
    case True then show ?thesis using relay_runs(1,2) by (simp add: claim_inv_def)
  next
    case False
    then have "lease_ok rc (sy_fd sy) (sy_relay sy) (sy_now sy)" using lease by (simp add: claim_inv_def)
    then have "lease_ok rc (sy_fd sy) (sy_relay sy) (ri_ended i)" by (rule lease_ok_later) (rule later)
    moreover have "phase_inv (sy_log sy) (sy_relay sy) (sy_base sy) (sy_segment sy) (sy_phase sy)"
      using inv by (simp add: relay_inv_def)
    ultimately have "leases rc (ri_ended i) (relay_turn rc de i (sy_phase sy) (sy_relay sy) (sy_fd sy))"
      by (rule turn_leases [OF timed])
    then show ?thesis using relay_runs(1,2) by (simp add: claim_inv_def)
  qed
next
  case (peer_runs clk log fd now)
  have old: "event_log_inv (sy_log sy) (sy_fd sy)" using inv by (simp add: relay_inv_def relay_core_def)
  have times: "sy_now sy \<le> clk 0" "clk 0 \<le> now" using peer_runs(3) by auto
  have "lease_ok rc fd (sy_relay sy) now" if ok: "lease_ok rc (sy_fd sy) (sy_relay sy) (sy_now sy)"
    unfolding lease_ok_def
  proof (intro allI impI)
    fix g assume g: "rl_cursor (sy_relay sy) \<noteq> None \<and> rl_generation (sy_relay sy) = Some g \<and> now < rl_lease_deadline (sy_relay sy)"
    then obtain c where c: "cursor_of (rc_instance_id rc) (sy_fd sy) = Some c" "cu_generation c = g"
        "rl_lease_deadline (sy_relay sy) \<le> cu_lease_expires_at c"
      using ok times by (auto simp: lease_ok_def)
    then have "cu_generation c \<in> own_generations (sy_relay sy)" using g by (simp add: own_generations_def)
    then have "cursor_of (rc_instance_id rc) fd = Some c"
      using peer_step_lease [OF peer_runs(2) old c(1)] g c(3) times by auto
    then show "\<exists>c. cursor_of (rc_instance_id rc) fd = Some c \<and> cu_generation c = g \<and>
        rl_lease_deadline (sy_relay sy) \<le> cu_lease_expires_at c" using c by blast
  qed
  then show ?thesis using lease peer_runs(1) by (simp add: claim_inv_def)
next
  case stop_called
  then show ?thesis using lease by (simp add: claim_inv_def lease_ok_def stop_relay_def)
next
  case (relay_released i r fd)
  then show ?thesis by (simp add: claim_inv_def)
qed

lemma claim_inv_reachable: "relay_reachable rc de sy \<Longrightarrow> claim_inv rc sy"
proof (induction rule: relay_reachable.induct)
  case relay_initial then show ?case by (simp add: claim_inv_def lease_ok_def new_relay_def)
next
  case relay_next then show ?case by (blast intro: claim_inv_step relay_inv_reachable)
qed

text \<open>
  C17. While a relay reports itself ready its claim stands in the database: the row of its instance has its
  generation and is not expired, so nobody else can claim the instance before the relay's own deadline.
\<close>

theorem ready_owns_lease:
  assumes "relay_reachable rc de sy" "ready (sy_now sy) (sy_relay sy)"
  shows "\<exists>c. cursor_of (rc_instance_id rc) (sy_fd sy) = Some c \<and> rl_generation (sy_relay sy) = Some (cu_generation c) \<and>
    sy_now sy < cu_lease_expires_at c \<and>
    (\<forall>clk fresh secs g r. clk 0 < rl_lease_deadline (sy_relay sy) \<longrightarrow>
       claim_instance clk fresh (rc_instance_id rc) secs g (sy_fd sy) = Inr r \<longrightarrow> g = rl_generation (sy_relay sy))"
proof -
  have "sy_phase sy \<noteq> Stopped"
    using relay_inv_reachable [OF assms(1)] assms(2) by (auto simp: relay_inv_def phase_inv_def ready_def)
  then have "lease_ok rc (sy_fd sy) (sy_relay sy) (sy_now sy)"
    using claim_inv_reachable [OF assms(1)] by (simp add: claim_inv_def)
  then obtain c where "cursor_of (rc_instance_id rc) (sy_fd sy) = Some c" "rl_generation (sy_relay sy) = Some (cu_generation c)"
      "rl_lease_deadline (sy_relay sy) \<le> cu_lease_expires_at c"
    using assms(2) by (auto simp: lease_ok_def ready_def)
  then show ?thesis using assms(2)
    by (auto simp: ready_def claim_instance_def live_cursor_def split: if_splits)
qed

subsection \<open>Admission tokens\<close>

definition is_fencing :: "phase \<Rightarrow> bool" where
  "is_fencing ph \<longleftrightarrow> ph = FencingHead \<or> ph = FencingHandler"

definition calm :: "nat \<Rightarrow> relay_point \<Rightarrow> bool" where
  "calm epoch point = (case point of (ph, rl, fd, fx) \<Rightarrow> epoch \<le> rl_admission_epoch rl \<and>
     (rl_admission_epoch rl = epoch \<longrightarrow> \<not> is_fencing ph \<and> (\<forall>x\<in>set fx. \<exists>s call. x = Handled s call)))"

lemma calm_point [simp]: "calm epoch (ph, rl, fd, fx) \<longleftrightarrow> epoch \<le> rl_admission_epoch rl \<and>
    (rl_admission_epoch rl = epoch \<longrightarrow> \<not> is_fencing ph \<and> (\<forall>x\<in>set fx. \<exists>s call. x = Handled s call))"
  by (simp add: calm_def)

lemma not_fencing [simp]: "\<not> is_fencing LoopHead" "\<not> is_fencing Waiting" "\<not> is_fencing Recovered" "\<not> is_fencing Started"
  "\<not> is_fencing Beaten" "\<not> is_fencing Stopped" "\<not> is_fencing (Dispatching es n d)" "\<not> is_fencing (Settling s n b)"
  by (simp_all add: is_fencing_def)

lemma failing_calm: "epoch \<le> rl_admission_epoch rl \<Longrightarrow> calm epoch (failing exn rl fd)"
  by (cases "(exn, rl)" rule: handle_failure.cases) (auto simp: failing_def fence_begin_def)

lemma read_calm: "epoch \<le> rl_admission_epoch rl \<Longrightarrow> calm epoch (turn_read rc i rl fd)"
  by (auto simp: turn_read_def failing_calm split: sum.split)

lemma beat_calm: "epoch \<le> rl_admission_epoch rl \<Longrightarrow> calm epoch (turn_beat rc i rl fd)"
  by (auto simp: turn_beat_def heartbeat_def failing_calm read_calm lease_begins_def split: option.split sum.split prod.split)

lemma start_calm: "epoch \<le> rl_admission_epoch rl \<Longrightarrow> calm epoch (turn_start rc i rl fd)"
  by (auto simp: turn_start_def initialize_relay_def Let_def failing_calm beat_calm lease_begins_def split: sum.split prod.split)

lemma try_calm: "epoch \<le> rl_admission_epoch rl \<Longrightarrow> calm epoch (turn_try rc i rl fd)"
  by (auto simp: turn_try_def recover_def Let_def failing_calm start_calm lease_begins_def
      split: option.split sum.split prod.split)

lemma fence_begin_epoch [simp]: "rl_fenced rl \<Longrightarrow> rl_admission_epoch (fence_begin rl) = rl_admission_epoch rl"
  "\<not> rl_fenced rl \<Longrightarrow> rl_admission_epoch (fence_begin rl) = rl_admission_epoch rl + 1"
  by (simp_all add: fence_begin_def)

lemma turn_calm:
  assumes "\<not> is_fencing ph"
  shows "calm (rl_admission_epoch rl) (relay_turn rc de i ph rl fd)"
proof (cases ph)
  case LoopHead
  then show ?thesis using try_calm [of "rl_admission_epoch rl" "fence_begin rl"] try_calm [of "rl_admission_epoch rl" rl]
    by (auto simp: turn_head_def)
next
  case (Dispatching es n d)
  then show ?thesis using failing_calm [of "rl_admission_epoch rl" rl]
    by (auto simp: turn_dispatch_def Let_def split: list.split option.split)
next
  case (Settling s n raised)
  then show ?thesis
    by (auto simp: turn_settle_def Let_def intro: failing_calm split: sum.split prod.split)
qed (use assms start_calm beat_calm read_calm in \<open>auto simp: is_fencing_def\<close>)

lemma turn_epoch: "rl_admission_epoch rl \<le> rl_admission_epoch (fst (snd (relay_turn rc de i ph rl fd)))"
proof (cases "is_fencing ph")
  case False then show ?thesis using turn_calm [of ph rl rc de i fd] by (auto simp: calm_def split: prod.splits)
next
  case True
  have "calm (rl_admission_epoch rl) (turn_try rc i (fence_end True rl) fd)"
    by (rule try_calm) (simp add: fence_end_def)
  then show ?thesis using True by (auto simp: is_fencing_def fence_end_def calm_def split: prod.splits)
qed

definition later_in_segment :: "relay_system \<Rightarrow> relay_system \<Rightarrow> bool" where
  "later_in_segment sy sy' \<longleftrightarrow> rl_admission_epoch (sy_relay sy) \<le> rl_admission_epoch (sy_relay sy') \<and>
     (rl_admission_epoch (sy_relay sy) = rl_admission_epoch (sy_relay sy') \<and> \<not> is_fencing (sy_phase sy) \<longrightarrow>
        \<not> is_fencing (sy_phase sy') \<and> sy_base sy' = sy_base sy \<and> (\<exists>more. sy_segment sy' = sy_segment sy @ more))"

lemma later_refl [simp]: "later_in_segment sy sy"
  by (simp add: later_in_segment_def)

lemma later_trans: "later_in_segment a b \<Longrightarrow> later_in_segment b c \<Longrightarrow> later_in_segment a c"
  unfolding later_in_segment_def by (metis append.assoc le_antisym le_trans)

lemma handled_effects:
  "(\<forall>x\<in>set fx. \<exists>s call. x = Handled s call) \<Longrightarrow>
   \<exists>more. fold apply_effect fx (base, segment) = (base, segment @ more)"
proof (induction fx arbitrary: segment)
  case (Cons x fx)
  then obtain s call where x: "x = Handled s call" by auto
  obtain more where "fold apply_effect fx (base, segment @ [s]) = (base, (segment @ [s]) @ more)"
    using Cons.IH [of "segment @ [s]"] Cons.prems by auto
  then show ?case by (simp add: x)
qed simp

lemma step_later: "relay_step rc de sy sy' \<Longrightarrow> later_in_segment sy sy'"
proof (induction rule: relay_step.cases)
  case (relay_runs i s ph rl fd fx base segment)
  have "rl_admission_epoch (sy_relay sy) \<le> rl_admission_epoch rl"
    using turn_epoch [of "sy_relay sy" rc de i "sy_phase sy" "sy_fd sy"] relay_runs(1,3) by simp
  moreover have "\<not> is_fencing ph \<and> base = sy_base sy \<and> (\<exists>more. segment = sy_segment sy @ more)"
    if "\<not> is_fencing (sy_phase sy)" "rl_admission_epoch rl = rl_admission_epoch (sy_relay sy)"
  proof -
    have "\<not> is_fencing ph \<and> (\<forall>x\<in>set fx. \<exists>s call. x = Handled s call)"
      using turn_calm [OF that(1), of "sy_relay sy" rc de i "sy_fd sy"] relay_runs(1,3) that(2) by simp
    then show ?thesis using handled_effects [of fx "sy_base sy" "sy_segment sy"] relay_runs(1,4) by auto
  qed
  ultimately show ?case using relay_runs(1,2) by (simp add: later_in_segment_def)
next
  case peer_runs then show ?case by (simp add: later_in_segment_def)
next
  case stop_called then show ?case by (simp add: later_in_segment_def stop_relay_def)
next
  case relay_released then show ?case by (simp add: later_in_segment_def)
qed

text \<open>
  C16. An admission token names one stretch: as long as a relay gives out the same token, it has neither
  claimed anew nor closed its sockets in between, and what it handed over is only what it had handed
  over before and more. A socket admitted under the check for the token is closed by every later fence.
\<close>

theorem same_token_same_stretch:
  assumes "(relay_step rc de)\<^sup>*\<^sup>* sy sy'" "relay_reachable rc de sy"
    and "admission_token (sy_now sy) (sy_relay sy) = Some token" "admission_token (sy_now sy') (sy_relay sy') = Some token"
  shows "sy_base sy' = sy_base sy \<and> (\<exists>more. sy_segment sy' = sy_segment sy @ more)"
proof -
  have "later_in_segment sy sy'"
    using assms(1) by (induction) (auto intro: later_trans step_later)
  moreover have "\<not> is_fencing (sy_phase sy)"
    using relay_inv_reachable [OF assms(2)] assms(3)
    by (auto simp: is_fencing_def relay_inv_def phase_inv_def admission_token_def ready_def split: if_splits)
  ultimately show ?thesis using assms(3,4)
    by (auto simp: later_in_segment_def admission_token_def split: if_splits)
qed

subsection \<open>Runs\<close>

text \<open>A process restarts with an expired cursor row and one event behind its durable cursor.\<close>

definition one_second :: int where
  "one_second = 1000000"

definition sample_relay :: relay_config where
  "sample_relay = \<lparr>rc_instance_id = str ''a'', rc_lease_seconds = 30, rc_batch_size = 100,
     rc_max_pending_events = 10, rc_max_event_age_seconds = 30\<rparr>"

definition sample_dispatch :: dispatch_env where
  "sample_dispatch = \<lparr>de_moderation = \<lambda>v. None, de_isoformat = \<lambda>t. [], de_str = \<lambda>v. []\<rparr>"

definition sample_event :: realtime_event where
  "sample_event = \<lparr>re_sequence = 1, re_room_id = str ''lobby'', re_event_type = str ''room.frozen'',
     re_payload = JObj [], re_created_at = 0\<rparr>"

definition sample_row :: "uuid \<Rightarrow> timestamp \<Rightarrow> cursor_row" where
  "sample_row g expires = \<lparr>cu_instance_id = str ''a'', cu_generation = g, cu_last_sequence = 0, cu_lease_expires_at = expires\<rparr>"

definition sample_tables :: "uuid \<Rightarrow> timestamp \<Rightarrow> foundation" where
  "sample_tables g expires = \<lparr>fd_events = [sample_event], fd_next_sequence = 2, fd_pruned_through = 0,
     fd_cursors = [sample_row g expires]\<rparr>"

definition turn_at :: "int \<Rightarrow> fate \<Rightarrow> bool \<Rightarrow> relay_input" where
  "turn_at t fate ok = \<lparr>ri_started = t, ri_ended = t, ri_clk = (\<lambda>k. t), ri_fresh = 8, ri_fate = fate, ri_target_ok = ok\<rparr>"

definition claimed_relay :: relay where
  "claimed_relay = new_relay\<lparr>rl_cursor := Some 0, rl_generation := Some 8, rl_next_heartbeat := 11000000,
     rl_lease_deadline := 31000000, rl_admission_epoch := 1\<rparr>"

definition sample_system :: "foundation \<Rightarrow> relay \<Rightarrow> phase \<Rightarrow> nat list \<Rightarrow> relay_system" where
  "sample_system fd rl ph segment = \<lparr>sy_fd = fd, sy_log = [1], sy_relay = rl, sy_phase = ph, sy_base = 0,
     sy_segment = segment, sy_now = 1000000\<rparr>"

lemmas sample_relay_defs = sample_relay_def sample_dispatch_def sample_event_def sample_row_def sample_tables_def
  turn_at_def claimed_relay_def new_relay_def sample_system_def

lemmas relay_eval = turn_head_def turn_try_def turn_start_def turn_beat_def turn_read_def initialize_relay_def Let_def
  database_call_def claim_instance_def validate_instance_def validate_instance_id_def INSTANCE_ID_PATTERN_def head_tail_def
  char_class_defs str_def cursor_of_def live_cursor_def renewed_def update_cursor_def update_where_def lease_begins_def
  seconds_delta_def microseconds_def read_events_def validate_lag_limits_def owned_def unread_def order_by_def lag_error_def
  fence_begin_def fence_end_def failing_def

lemma sample_claim:
  "relay_turn sample_relay sample_dispatch (turn_at 1000000 Answered True) LoopHead new_relay (sample_tables 7 0) =
     (Started, claimed_relay, sample_tables 8 31000000, [Claimed 0])"
  by (simp add: sample_relay_defs relay_eval)

lemma sample_read:
  "relay_turn sample_relay sample_dispatch (turn_at 1000000 Answered True) Started claimed_relay (sample_tables 8 31000000) =
     (Dispatching [sample_event] 1 None, claimed_relay, sample_tables 8 31000000, [])"
  by (simp add: sample_relay_defs relay_eval)

lemma sample_hand_over:
  "\<exists>call. relay_turn sample_relay sample_dispatch (turn_at 1000000 Answered True) (Dispatching [sample_event] 1 None)
     claimed_relay (sample_tables 8 31000000) =
     (Dispatching [] 1 (Some 1), claimed_relay, sample_tables 8 31000000, [Handled 1 call])"
  by (simp add: turn_dispatch_def Let_def sample_event_def turn_at_def)

lemma sample_step:
  assumes "relay_reachable sample_relay sample_dispatch (sample_system fd rl ph segment)"
    and "relay_turn sample_relay sample_dispatch (turn_at 1000000 fate ok) ph rl fd = (ph', rl', fd', fx)"
    and "fold apply_effect fx (0, segment) = (0, segment')"
  shows "relay_reachable sample_relay sample_dispatch (sample_system fd' rl' ph' segment')"
proof -
  have "relay_step sample_relay sample_dispatch (sample_system fd rl ph segment)
      ((sample_system fd rl ph segment)\<lparr>sy_fd := fd', sy_relay := rl', sy_phase := ph', sy_base := 0,
         sy_segment := segment', sy_now := ri_ended (turn_at 1000000 fate ok)\<rparr>)"
    by (rule relay_runs [of _ _ "turn_at 1000000 fate ok"])
       (use assms(2,3) in \<open>simp_all add: sample_system_def turn_at_def\<close>)
  then have "relay_step sample_relay sample_dispatch (sample_system fd rl ph segment) (sample_system fd' rl' ph' segment')"
    by (simp add: sample_system_def turn_at_def)
  with assms(1) show ?thesis by (rule relay_next)
qed

lemma sample_quiet:
  assumes "relay_reachable sample_relay sample_dispatch (sample_system fd rl ph segment)"
    and "relay_turn sample_relay sample_dispatch (turn_at 1000000 fate ok) ph rl fd = (ph', rl', fd', [])"
  shows "relay_reachable sample_relay sample_dispatch (sample_system fd' rl' ph' segment)"
  by (rule sample_step [OF assms]) simp

lemma sample_start: "relay_reachable sample_relay sample_dispatch (sample_system (sample_tables 7 0) new_relay LoopHead [])"
  unfolding sample_system_def
  by (rule relay_initial) (simp add: event_log_inv_def sequences_def sample_tables_def sample_event_def sample_row_def)

lemma sample_claimed:
  "relay_reachable sample_relay sample_dispatch (sample_system (sample_tables 8 31000000) claimed_relay Started [])"
  by (rule sample_step [OF sample_start sample_claim]) simp

lemma sample_handed_over:
  "relay_reachable sample_relay sample_dispatch
     (sample_system (sample_tables 8 31000000) claimed_relay (Dispatching [] 1 (Some 1)) [1])"
proof -
  have "relay_reachable sample_relay sample_dispatch
     (sample_system (sample_tables 8 31000000) claimed_relay (Dispatching [sample_event] 1 None) [])"
    by (rule sample_step [OF sample_claimed sample_read]) simp
  moreover obtain call where "relay_turn sample_relay sample_dispatch (turn_at 1000000 Answered True)
      (Dispatching [sample_event] 1 None) claimed_relay (sample_tables 8 31000000) =
      (Dispatching [] 1 (Some 1), claimed_relay, sample_tables 8 31000000, [Handled 1 call])"
    using sample_hand_over by blast
  ultimately show ?thesis by (rule sample_step) simp
qed

theorem relay_skips_nothing_witness:
  "\<exists>sy. relay_reachable sample_relay sample_dispatch sy \<and> sy_segment sy = [1] \<and>
     (\<forall>s\<in>set (sy_log sy). 0 < s \<and> s \<le> 1 \<longrightarrow> s \<in> set (sy_segment sy))"
  using relay_skips_nothing [OF sample_handed_over] sample_handed_over
  by (intro exI [of _ "sample_system (sample_tables 8 31000000) claimed_relay (Dispatching [] 1 (Some 1)) [1]"])
     (simp add: sample_system_def)

theorem ready_owns_lease_witness:
  "\<exists>sy. relay_reachable sample_relay sample_dispatch sy \<and> ready (sy_now sy) (sy_relay sy) \<and>
     (\<exists>c. cursor_of (str ''a'') (sy_fd sy) = Some c \<and> sy_now sy < cu_lease_expires_at c)"
proof -
  let ?sy = "sample_system (sample_tables 8 31000000) claimed_relay Started []"
  have ready: "ready (sy_now ?sy) (sy_relay ?sy)"
    by (simp add: sample_system_def ready_def claimed_relay_def new_relay_def)
  obtain c where "cursor_of (rc_instance_id sample_relay) (sy_fd ?sy) = Some c" "sy_now ?sy < cu_lease_expires_at c"
    using ready_owns_lease [OF sample_claimed ready] by blast
  then show ?thesis using sample_claimed ready by (auto simp: sample_relay_def intro!: exI [of _ ?sy])
qed

theorem same_token_same_stretch_witness:
  "\<exists>sy sy'. (relay_step sample_relay sample_dispatch)\<^sup>*\<^sup>* sy sy' \<and>
     admission_token (sy_now sy) (sy_relay sy) = Some (8, 1) \<and> sy_base sy' = sy_base sy \<and>
     (\<exists>more. sy_segment sy' = sy_segment sy @ more)"
proof -
  let ?sy = "sample_system (sample_tables 8 31000000) claimed_relay Started []"
  have token: "admission_token (sy_now ?sy) (sy_relay ?sy) = Some (8, 1)"
    by (simp add: sample_system_def admission_token_def ready_def claimed_relay_def new_relay_def)
  show ?thesis
    using same_token_same_stretch [OF rtranclp.rtrancl_refl sample_claimed token token] token by blast
qed

text \<open>
  A call of \<open>stop\<close> can get lost. When closing the sockets has failed in a handler, the fence is repeated
  at the head of the loop, behind the test of the stop event; a call of \<open>stop\<close> during that fence sets the
  event, and the claim that follows clears it, so the loop goes on and whoever waits for it waits forever.
\<close>

lemma stop_is_cleared:
  assumes "rl_cursor rl = None" "\<not> rl_gap_recovery_required rl" "\<not> rl_lag_recovery_required rl" "\<not> rl_fenced rl"
    and "ri_target_ok i" "relay_turn rc de i FencingHead (stop_relay rl) fd = (Started, rl', fd', fx)"
  shows "\<not> rl_stop rl'"
  using assms
  by (auto simp: stop_relay_def fence_end_def turn_try_def turn_start_def initialize_relay_def Let_def lease_begins_def
      failing_def split: sum.splits prod.splits option.splits if_splits)

definition unfenced_relay :: relay where
  "unfenced_relay = claimed_relay\<lparr>rl_cursor := None, rl_fence_required := True, rl_admission_epoch := 2\<rparr>"

theorem stop_gets_lost:
  "\<exists>sy. relay_reachable sample_relay sample_dispatch sy \<and> rl_stop (sy_relay sy) \<and>
     (\<exists>sy'. relay_step sample_relay sample_dispatch sy sy' \<and> sy_phase sy' = Started \<and> \<not> rl_stop (sy_relay sy'))"
proof -
  let ?fd = "sample_tables 8 31000000"
  let ?at = "turn_at 1000000" and ?turn = "relay_turn sample_relay sample_dispatch"
  have "relay_reachable sample_relay sample_dispatch (sample_system ?fd unfenced_relay FencingHandler [])"
    by (rule sample_quiet [OF sample_claimed, of NotSent True])
       (simp_all add: sample_relay_defs relay_eval unfenced_relay_def)
  then have "relay_reachable sample_relay sample_dispatch (sample_system ?fd unfenced_relay Waiting [])"
    by (rule sample_quiet [of _ _ _ _ NotSent False]) (simp_all add: turn_at_def fence_end_def)
  then have "relay_reachable sample_relay sample_dispatch (sample_system ?fd unfenced_relay LoopHead [])"
    by (rule sample_quiet [of _ _ _ _ NotSent False]) simp_all
  then have "relay_reachable sample_relay sample_dispatch
      (sample_system ?fd (unfenced_relay\<lparr>rl_admission_epoch := 3\<rparr>) FencingHead [])"
    by (rule sample_quiet [of _ _ _ _ NotSent False])
       (simp_all add: turn_head_def unfenced_relay_def claimed_relay_def new_relay_def fence_begin_def)
  moreover have "relay_step sample_relay sample_dispatch (sample_system ?fd rl FencingHead [])
      (sample_system ?fd (stop_relay rl) FencingHead [])" for rl
    using stop_called [of sample_relay sample_dispatch "sample_system ?fd rl FencingHead []"] by (simp add: sample_system_def)
  ultimately have reach: "relay_reachable sample_relay sample_dispatch
      (sample_system ?fd (stop_relay (unfenced_relay\<lparr>rl_admission_epoch := 3\<rparr>)) FencingHead [])"
    by (rule relay_next)
  let ?rl = "stop_relay (unfenced_relay\<lparr>rl_admission_epoch := 3\<rparr>)"
  obtain rl fd fx where turn: "?turn (?at Answered True) FencingHead ?rl ?fd = (Started, rl, fd, fx)"
      and fx: "fx = [ClosedAll, Claimed 0]"
    by (simp add: sample_relay_defs relay_eval unfenced_relay_def stop_relay_def registration_of_def)
  have "\<not> rl_stop rl"
    by (rule stop_is_cleared [OF _ _ _ _ _ turn])
       (simp_all add: unfenced_relay_def claimed_relay_def new_relay_def turn_at_def)
  moreover have "relay_step sample_relay sample_dispatch (sample_system ?fd ?rl FencingHead [])
      ((sample_system ?fd ?rl FencingHead [])\<lparr>sy_fd := fd, sy_relay := rl, sy_phase := Started, sy_base := 0,
         sy_segment := [], sy_now := ri_ended (?at Answered True)\<rparr>)"
    by (rule relay_runs [of _ _ "?at Answered True" _ Started rl fd fx])
       (use turn fx in \<open>simp_all add: sample_system_def turn_at_def\<close>)
  ultimately show ?thesis using reach
    by (intro exI [of _ "sample_system ?fd ?rl FencingHead []"]) (auto simp: sample_system_def stop_relay_def intro!: exI)
qed

end
