(* ===== verification/Pg_Leases.thy ===== *)
theory Pg_Leases
  imports Pg_Events Store_Schema
begin

section \<open>Connection leases and typing states (postgres_connections.py, postgres_typing.py)\<close>

text \<open>
  The registries of \<open>samsarix_chat_engine/postgres_connections.py\<close> and \<open>postgres_typing.py\<close>: the tables of
  the event log extended by the rooms, the connection leases and the typing states. A method is a
  function of the tables, of the clock readings of its statements and of \<open>locked\<close>, the rows another
  transaction holds, which \<open>SKIP LOCKED\<close> passes over. Where a method raises after its transaction has
  been committed the result has the changed tables beside the error. A lease is deleted together with
  its typing state (\<open>ON DELETE CASCADE\<close>).
\<close>

subsection \<open>Tables\<close>

record lease_row =
  cl_connection_id :: pystr
  cl_instance_id :: pystr
  cl_generation :: uuid
  cl_room_id :: pystr
  cl_username :: pystr
  cl_subject :: "pystr option"
  cl_lease_expires_at :: timestamp
  cl_created_at :: timestamp

record typing_row =
  ty_connection_id :: pystr
  ty_room_id :: pystr
  ty_username :: pystr
  ty_expires_at :: timestamp

record pg = foundation +
  pg_rooms :: "room list"
  pg_leases :: "lease_row list"
  pg_typing :: "typing_row list"

record connection_lease = lease_row +
  cl_admission_sequence :: nat

record presence_transition =
  pt_connection_id :: pystr
  pt_room_id :: pystr
  pt_username :: pystr
  pt_active_connections :: nat
  pt_sequence :: nat

record typing_transition =
  tt_active :: bool
  tt_connection_id :: pystr
  tt_room_id :: pystr
  tt_username :: pystr
  tt_sequence :: nat

record registry_config =
  gc_max_connections :: int
  gc_max_connections_per_room :: int
  gc_lease_seconds :: int

definition PostgresConnectionRegistry :: "registry_config \<Rightarrow> pg_error + registry_config" where
  "PostgresConnectionRegistry gc =
     (if gc_max_connections gc < 1 then Inl (PgValueError ''PostgreSQL connection capacity must be positive'')
      else if gc_max_connections_per_room gc < 1
      then Inl (PgValueError ''PostgreSQL per-room connection capacity must be positive'')
      else if gc_max_connections gc < gc_max_connections_per_room gc
      then Inl (PgValueError ''per-room connection capacity cannot exceed global capacity'')
      else if \<not> (3 \<le> gc_lease_seconds gc \<and> gc_lease_seconds gc \<le> 300)
      then Inl (PgValueError ''PostgreSQL connection lease must be between 3 and 300 seconds'')
      else Inr gc)"

subsection \<open>Validation\<close>

definition validate_connection_id :: "pystr \<Rightarrow> pg_error + unit" where
  "validate_connection_id connection_id =
     check (head_tail (\<lambda>c. lower c \<or> upper c \<or> digit c)
       (\<lambda>c. lower c \<or> upper c \<or> digit c \<or> c \<in> set (str ''._:-'')) 127 connection_id)
       (PgValueError ''invalid connection ID'')"

definition validate_connection :: "pystr \<Rightarrow> pystr \<Rightarrow> pystr \<Rightarrow> pystr \<Rightarrow> pystr option \<Rightarrow> pg_error + unit" where
  "validate_connection connection_id instance_id room_id username subject =
     res_bind (validate_connection_id connection_id) (\<lambda>_.
     res_bind (validate_instance_id instance_id) (\<lambda>_.
     res_bind (check (ROOM_ID_PATTERN room_id) (PgValueError ''invalid room ID'')) (\<lambda>_.
     res_bind (check (1 \<le> length username \<and> length username \<le> 64)
       (PgValueError ''username must be between 1 and 64 characters'')) (\<lambda>_.
     check (case subject of None \<Rightarrow> True | Some s \<Rightarrow> 1 \<le> length s \<and> length s \<le> 64)
       (PgValueError ''subject must be between 1 and 64 characters'')))))"

subsection \<open>Occupancy\<close>

definition lease_owner :: "'z foundation_scheme \<Rightarrow> lease_row \<Rightarrow> cursor_row option" where
  "lease_owner fd l = (case cursor_of (cl_instance_id l) fd of None \<Rightarrow> None
     | Some c \<Rightarrow> if cu_generation c = cl_generation l then Some c else None)"

definition pg_room :: "pystr \<Rightarrow> pg \<Rightarrow> room option" where
  "pg_room room_id pg = find (\<lambda>r. ro_id r = room_id) (pg_rooms pg)"

definition room_open :: "pystr \<Rightarrow> pg \<Rightarrow> bool" where
  "room_open room_id pg = (case pg_room room_id pg of None \<Rightarrow> False | Some r \<Rightarrow> ro_archived_at r = None)"

text \<open>A lease that counts: unexpired, of a live generation, in a room that is not archived.\<close>

definition usable :: "timestamp \<Rightarrow> pg \<Rightarrow> lease_row \<Rightarrow> bool" where
  "usable now pg l \<longleftrightarrow> now < cl_lease_expires_at l \<and>
     (case lease_owner pg l of None \<Rightarrow> False | Some c \<Rightarrow> live_cursor now c) \<and> room_open (cl_room_id l) pg"

definition total_count :: "timestamp \<Rightarrow> pg \<Rightarrow> nat" where
  "total_count now pg = length (filter (usable now pg) (pg_leases pg))"

definition room_active_count :: "timestamp \<Rightarrow> pystr \<Rightarrow> pg \<Rightarrow> nat" where
  "room_active_count now room_id pg = length (filter (\<lambda>l. usable now pg l \<and> cl_room_id l = room_id) (pg_leases pg))"

definition connection_counts :: "timestamp \<Rightarrow> pystr \<Rightarrow> pg \<Rightarrow> pg_error + nat \<times> nat" where
  "connection_counts now room_id pg = res_bind (check (ROOM_ID_PATTERN room_id) (PgValueError ''invalid room ID''))
     (\<lambda>_. Inr (total_count now pg, room_active_count now room_id pg))"

subsection \<open>Events\<close>

definition presence_payload :: "bool \<Rightarrow> pystr \<Rightarrow> nat \<Rightarrow> pystr \<Rightarrow> json" where
  "presence_payload active username n connection_id = JObj
     [(str ''type'', JStr (if active then str ''presence.joined'' else str ''presence.left'')),
      (str ''username'', JStr username), (str ''active_connections'', JInt (int n)),
      (str ''origin_connection_id'', JStr connection_id)]"

definition append_presence ::
  "(json \<Rightarrow> bool) \<Rightarrow> timestamp \<Rightarrow> bool \<Rightarrow> pystr \<Rightarrow> pystr \<Rightarrow> pystr \<Rightarrow> nat \<Rightarrow> pg \<Rightarrow> pg_error + nat \<times> pg" where
  "append_presence jsonb now active connection_id room_id username n pg = append_event jsonb now room_id
     (if active then str ''presence.joined'' else str ''presence.left'') (presence_payload active username n connection_id) pg"

definition typing_stopped_payload :: "pystr \<Rightarrow> pystr \<Rightarrow> json" where
  "typing_stopped_payload username connection_id = JObj [(str ''type'', JStr (str ''typing.stopped'')),
     (str ''username'', JStr username), (str ''origin_connection_id'', JStr connection_id)]"

definition append_typing_stopped ::
  "(json \<Rightarrow> bool) \<Rightarrow> timestamp \<Rightarrow> pystr \<Rightarrow> pystr \<Rightarrow> pystr \<Rightarrow> pg \<Rightarrow> pg_error + nat \<times> pg" where
  "append_typing_stopped jsonb now connection_id room_id username pg = append_event jsonb now room_id
     (str ''typing.stopped'') (typing_stopped_payload username connection_id) pg"

subsection \<open>Deleting leases\<close>

definition is_typing :: "pg \<Rightarrow> pystr \<Rightarrow> bool" where
  "is_typing pg connection_id = list_ex (\<lambda>t. ty_connection_id t = connection_id) (pg_typing pg)"

definition delete_leases :: "pystr set \<Rightarrow> pg \<Rightarrow> pg" where
  "delete_leases ids pg = pg\<lparr>pg_leases := filter (\<lambda>l. cl_connection_id l \<notin> ids) (pg_leases pg),
     pg_typing := filter (\<lambda>t. ty_connection_id t \<notin> ids) (pg_typing pg)\<rparr>"

definition stale :: "timestamp \<Rightarrow> pg \<Rightarrow> lease_row \<Rightarrow> bool" where
  "stale now pg l \<longleftrightarrow> cl_lease_expires_at l \<le> now \<or>
     (case cursor_of (cl_instance_id l) pg of None \<Rightarrow> False
       | Some c \<Rightarrow> cu_lease_expires_at c \<le> now \<or> cu_generation c \<noteq> cl_generation l) \<or>
     (case pg_room (cl_room_id l) pg of None \<Rightarrow> False | Some r \<Rightarrow> ro_archived_at r \<noteq> None)"

definition sweep_key :: "pystr option \<Rightarrow> lease_row \<Rightarrow> nat \<times> timestamp \<times> pystr" where
  "sweep_key prioritized l = (if prioritized = Some (cl_connection_id l) then 0 else 1,
     cl_lease_expires_at l, cl_connection_id l)"

text \<open>The rows removed, each with its typing flag.\<close>

definition expired_leases :: "timestamp \<Rightarrow> (pystr \<Rightarrow> bool) \<Rightarrow> nat \<Rightarrow> pystr option \<Rightarrow> pg \<Rightarrow> (lease_row \<times> bool) list" where
  "expired_leases now locked limit prioritized pg = map (\<lambda>l. (l, is_typing pg (cl_connection_id l)))
     (take limit (filter (\<lambda>l. \<not> locked (cl_connection_id l))
       (order_by (sweep_key prioritized) (filter (stale now pg) (pg_leases pg)))))"

definition delete_expired ::
  "timestamp \<Rightarrow> (pystr \<Rightarrow> bool) \<Rightarrow> nat \<Rightarrow> pystr option \<Rightarrow> pg \<Rightarrow> (lease_row \<times> bool) list \<times> pg" where
  "delete_expired now locked limit prioritized pg = (let rows = expired_leases now locked limit prioritized pg in
     (rows, delete_leases (set (map (cl_connection_id \<circ> fst) rows)) pg))"

definition later_readings :: "nat \<Rightarrow> readings \<Rightarrow> readings" where
  "later_readings n clk = (\<lambda>k. clk (n + k))"

definition append_departure ::
  "(json \<Rightarrow> bool) \<Rightarrow> readings \<Rightarrow> lease_row \<times> bool \<Rightarrow> pg \<Rightarrow> pg_error + presence_transition \<times> pg" where
  "append_departure jsonb clk row pg0 = (case row of (l, was_typing) \<Rightarrow>
     res_bind (if was_typing
       then res_map snd (append_typing_stopped jsonb (clk 0) (cl_connection_id l) (cl_room_id l) (cl_username l) pg0)
       else Inr pg0) (\<lambda>pg.
     let n = room_active_count (clk 1) (cl_room_id l) pg in
     res_bind (append_presence jsonb (clk 2) False (cl_connection_id l) (cl_room_id l) (cl_username l) n pg) (\<lambda>(sequence, pg').
     Inr (\<lparr>pt_connection_id = cl_connection_id l, pt_room_id = cl_room_id l, pt_username = cl_username l,
       pt_active_connections = n, pt_sequence = sequence\<rparr>, pg'))))"

fun append_in_order ::
  "(json \<Rightarrow> bool) \<Rightarrow> readings \<Rightarrow> (lease_row \<times> bool) list \<Rightarrow> pg \<Rightarrow> pg_error + presence_transition list \<times> pg" where
  "append_in_order jsonb clk [] pg = Inr ([], pg)"
| "append_in_order jsonb clk (row # rows) pg =
     res_bind (append_departure jsonb clk row pg) (\<lambda>(t, pg').
     res_bind (append_in_order jsonb (later_readings 3 clk) rows pg') (\<lambda>(ts, pg''). Inr (t # ts, pg'')))"

definition append_departures ::
  "(json \<Rightarrow> bool) \<Rightarrow> readings \<Rightarrow> (lease_row \<times> bool) list \<Rightarrow> pg \<Rightarrow> pg_error + presence_transition list \<times> pg" where
  "append_departures jsonb clk rows pg = append_in_order jsonb clk (order_by (cl_connection_id \<circ> fst) rows) pg"

subsection \<open>The connection registry\<close>

definition live_generation :: "timestamp \<Rightarrow> pystr \<Rightarrow> pg \<Rightarrow> uuid option" where
  "live_generation now instance_id pg = (case cursor_of instance_id pg of None \<Rightarrow> None
     | Some c \<Rightarrow> if live_cursor now c then Some (cu_generation c) else None)"

definition lease_from_row :: "lease_row \<Rightarrow> nat \<Rightarrow> connection_lease" where
  "lease_from_row l n = \<lparr>cl_connection_id = cl_connection_id l, cl_instance_id = cl_instance_id l,
     cl_generation = cl_generation l, cl_room_id = cl_room_id l, cl_username = cl_username l, cl_subject = cl_subject l,
     cl_lease_expires_at = cl_lease_expires_at l, cl_created_at = cl_created_at l, cl_admission_sequence = n\<rparr>"

text \<open>
  The insert of \<open>try_acquire\<close> and the join event. A duplicate id rolls the transaction back; an owner
  that has expired meanwhile inserts nothing, and the error is raised behind the commit.
\<close>

definition reserve ::
  "(json \<Rightarrow> bool) \<Rightarrow> registry_config \<Rightarrow> readings \<Rightarrow> lease_row \<Rightarrow> pg \<Rightarrow> pg_error + (pg_error + connection_lease) \<times> pg" where
  "reserve jsonb gc clk l0 pg =
     (let l = l0\<lparr>cl_lease_expires_at := clk 1 + seconds_delta (gc_lease_seconds gc), cl_created_at := clk 2\<rparr> in
      if live_generation (clk 0) (cl_instance_id l) pg \<noteq> Some (cl_generation l)
      then Inr (Inl (InstanceLeaseError ''instance lease expired before connection reservation''), pg)
      else if list_ex (\<lambda>k. cl_connection_id k = cl_connection_id l) (pg_leases pg)
      then Inl (ConnectionLeaseError ''connection ID is already leased'')
      else if cl_lease_expires_at l \<le> cl_created_at l then Inl (PostgresFoundationError ''operation'')
      else (let pg' = pg\<lparr>pg_leases := pg_leases pg @ [l]\<rparr>;
                n = room_active_count (clk 3) (cl_room_id l) pg' in
        res_bind (append_presence jsonb (clk 4) True (cl_connection_id l) (cl_room_id l) (cl_username l) n pg')
          (\<lambda>(sequence, pg''). Inr (Inr (lease_from_row l sequence), pg''))))"

definition ADMISSION_SWEEP_LIMIT :: nat where
  "ADMISSION_SWEEP_LIMIT = 16"

text \<open>
  Behind the sweep: \<open>None\<close> when a cap is full, and what the sweep removed stays removed then; \<open>pg0\<close> is
  what a rollback goes back to.
\<close>

definition admit_swept ::
  "(json \<Rightarrow> bool) \<Rightarrow> registry_config \<Rightarrow> readings \<Rightarrow> lease_row \<Rightarrow> pg \<Rightarrow> pg \<Rightarrow> (pg_error + connection_lease option) \<times> pg" where
  "admit_swept jsonb gc clk l pg0 pg =
     (if gc_max_connections gc \<le> int (total_count (clk 0) pg) \<or>
        gc_max_connections_per_room gc \<le> int (room_active_count (clk 0) (cl_room_id l) pg)
      then (Inr None, pg)
      else (case reserve jsonb gc (later_readings 1 clk) l pg of
        Inl e \<Rightarrow> (Inl e, pg0)
      | Inr (Inl e, pg') \<Rightarrow> (Inl e, pg')
      | Inr (Inr lease, pg') \<Rightarrow> (Inr (Some lease), pg')))"

definition try_acquire ::
  "(json \<Rightarrow> bool) \<Rightarrow> registry_config \<Rightarrow> readings \<Rightarrow> (pystr \<Rightarrow> bool) \<Rightarrow> pystr \<Rightarrow> pystr \<Rightarrow> pystr \<Rightarrow> pystr \<Rightarrow> pystr option \<Rightarrow>
   pg \<Rightarrow> (pg_error + connection_lease option) \<times> pg" where
  "try_acquire jsonb gc clk locked connection_id instance_id room_id username subject pg =
     (case validate_connection connection_id instance_id room_id username subject of Inl e \<Rightarrow> (Inl e, pg) | Inr u \<Rightarrow>
     (case live_generation (clk 0) instance_id pg of
       None \<Rightarrow> (Inl (InstanceLeaseError ''instance lease is missing or expired''), pg)
     | Some generation \<Rightarrow>
         (if \<not> room_open room_id pg then (Inl ConnectionRoomUnavailableError, pg)
          else (let (rows, pg1) = delete_expired (clk 1) locked ADMISSION_SWEEP_LIMIT (Some connection_id) pg in
            case append_departures jsonb (later_readings 2 clk) rows pg1 of
              Inl e \<Rightarrow> (Inl e, pg)
            | Inr (transitions, pg2) \<Rightarrow>
                admit_swept jsonb gc (later_readings (2 + 3 * length rows) clk) \<lparr>cl_connection_id = connection_id,
                  cl_instance_id = instance_id, cl_generation = generation, cl_room_id = room_id,
                  cl_username = username, cl_subject = subject, cl_lease_expires_at = 0, cl_created_at = 0\<rparr> pg pg2))))"

definition renew ::
  "registry_config \<Rightarrow> readings \<Rightarrow> pystr \<Rightarrow> pystr \<Rightarrow> pystr \<Rightarrow> pg \<Rightarrow> pg_error + timestamp \<times> pg" where
  "renew gc clk connection_id instance_id room_id pg =
     res_bind (validate_connection_id connection_id) (\<lambda>_.
     res_bind (validate_instance_id instance_id) (\<lambda>_.
     res_bind (check (ROOM_ID_PATTERN room_id) (PgValueError ''invalid room ID'')) (\<lambda>_.
     let hit = (\<lambda>l. cl_connection_id l = connection_id \<and> cl_instance_id l = instance_id \<and> cl_room_id l = room_id \<and>
           usable (clk 0) pg l);
         expires = clk 1 + seconds_delta (gc_lease_seconds gc) in
     if list_ex hit (pg_leases pg)
     then Inr (expires, pg\<lparr>pg_leases := update_where hit (\<lambda>l. l\<lparr>cl_lease_expires_at := expires\<rparr>) (pg_leases pg)\<rparr>)
     else if \<not> room_open room_id pg then Inl ConnectionRoomUnavailableError
     else Inl (ConnectionLeaseError ''connection lease is missing, expired, or unavailable''))))"

definition release ::
  "(json \<Rightarrow> bool) \<Rightarrow> readings \<Rightarrow> pystr \<Rightarrow> pystr \<Rightarrow> pg \<Rightarrow> pg_error + bool \<times> pg" where
  "release jsonb clk connection_id instance_id pg =
     res_bind (validate_connection_id connection_id) (\<lambda>_.
     res_bind (validate_instance_id instance_id) (\<lambda>_.
     case find (\<lambda>l. cl_connection_id l = connection_id \<and> cl_instance_id l = instance_id) (pg_leases pg) of
       None \<Rightarrow> Inr (False, pg)
     | Some l \<Rightarrow> res_bind (append_departure jsonb clk (l, is_typing pg connection_id)
         (delete_leases {connection_id} pg)) (\<lambda>(t, pg'). Inr (True, pg'))))"

definition reap_expired_leases ::
  "(json \<Rightarrow> bool) \<Rightarrow> readings \<Rightarrow> (pystr \<Rightarrow> bool) \<Rightarrow> int \<Rightarrow> pg \<Rightarrow> pg_error + presence_transition list \<times> pg" where
  "reap_expired_leases jsonb clk locked limit pg =
     (if \<not> (1 \<le> limit \<and> limit \<le> 1000)
      then Inl (PgValueError ''connection expiry batch must be between 1 and 1000'')
      else (let (rows, pg1) = delete_expired (clk 0) locked (nat limit) None pg in
        append_departures jsonb (later_readings 1 clk) rows pg1))"

subsection \<open>The typing registry\<close>

text \<open>\<open>timeout_seconds\<close> as the JSON number of the event and in microseconds.\<close>

record typing_config =
  tc_timeout :: pyfloat
  tc_timeout_micros :: int

definition PostgresTypingRegistry :: "typing_config \<Rightarrow> pg_error + typing_config" where
  "PostgresTypingRegistry tc = (if \<not> (1000000 \<le> tc_timeout_micros tc \<and> tc_timeout_micros tc \<le> 30000000)
     then Inl (PgValueError ''PostgreSQL typing timeout must be between 1 and 30 seconds'') else Inr tc)"

definition typing_started_payload :: "typing_config \<Rightarrow> pystr \<Rightarrow> pystr \<Rightarrow> json" where
  "typing_started_payload tc username connection_id = JObj [(str ''type'', JStr (str ''typing.started'')),
     (str ''username'', JStr username), (str ''expires_in'', JFloat (tc_timeout tc)),
     (str ''origin_connection_id'', JStr connection_id)]"

definition put_typing :: "typing_row \<Rightarrow> pg \<Rightarrow> pg" where
  "put_typing t pg = (if is_typing pg (ty_connection_id t)
     then pg\<lparr>pg_typing := update_where (\<lambda>u. ty_connection_id u = ty_connection_id t) (\<lambda>u. t) (pg_typing pg)\<rparr>
     else pg\<lparr>pg_typing := pg_typing pg @ [t]\<rparr>)"

definition start_typing ::
  "(json \<Rightarrow> bool) \<Rightarrow> typing_config \<Rightarrow> readings \<Rightarrow> pystr \<Rightarrow> pystr \<Rightarrow> pg \<Rightarrow> pg_error + typing_transition option \<times> pg" where
  "start_typing jsonb tc clk connection_id instance_id pg =
     res_bind (validate_connection_id connection_id) (\<lambda>_.
     res_bind (validate_instance_id instance_id) (\<lambda>_.
     case find (\<lambda>l. cl_connection_id l = connection_id \<and> cl_instance_id l = instance_id \<and> usable (clk 0) pg l) (pg_leases pg) of
       None \<Rightarrow> Inl TypingStateError
     | Some l \<Rightarrow>
         (let already_active = (case find (\<lambda>t. ty_connection_id t = connection_id) (pg_typing pg) of
                None \<Rightarrow> False | Some t \<Rightarrow> clk 1 < ty_expires_at t);
              pg' = put_typing \<lparr>ty_connection_id = connection_id, ty_room_id = cl_room_id l, ty_username = cl_username l,
                ty_expires_at = clk 2 + tc_timeout_micros tc\<rparr> pg in
          if already_active then Inr (None, pg')
          else res_bind (append_event jsonb (clk 3) (cl_room_id l) (str ''typing.started'')
              (typing_started_payload tc (cl_username l) connection_id) pg') (\<lambda>(sequence, pg'').
            Inr (Some \<lparr>tt_active = True, tt_connection_id = connection_id, tt_room_id = cl_room_id l,
              tt_username = cl_username l, tt_sequence = sequence\<rparr>, pg'')))))"

definition drop_typing :: "pystr set \<Rightarrow> pg \<Rightarrow> pg" where
  "drop_typing ids pg = pg\<lparr>pg_typing := filter (\<lambda>t. ty_connection_id t \<notin> ids) (pg_typing pg)\<rparr>"

definition append_stopped ::
  "(json \<Rightarrow> bool) \<Rightarrow> timestamp \<Rightarrow> typing_row \<Rightarrow> pg \<Rightarrow> pg_error + typing_transition \<times> pg" where
  "append_stopped jsonb now t pg =
     res_bind (append_typing_stopped jsonb now (ty_connection_id t) (ty_room_id t) (ty_username t) pg) (\<lambda>(sequence, pg').
     Inr (\<lparr>tt_active = False, tt_connection_id = ty_connection_id t, tt_room_id = ty_room_id t,
       tt_username = ty_username t, tt_sequence = sequence\<rparr>, pg'))"

definition stop_typing ::
  "(json \<Rightarrow> bool) \<Rightarrow> readings \<Rightarrow> pystr \<Rightarrow> pystr \<Rightarrow> pg \<Rightarrow> pg_error + typing_transition option \<times> pg" where
  "stop_typing jsonb clk connection_id instance_id pg =
     res_bind (validate_connection_id connection_id) (\<lambda>_.
     res_bind (validate_instance_id instance_id) (\<lambda>_.
     if \<not> list_ex (\<lambda>l. cl_connection_id l = connection_id \<and> cl_instance_id l = instance_id) (pg_leases pg)
     then Inr (None, pg)
     else (case find (\<lambda>t. ty_connection_id t = connection_id) (pg_typing pg) of
       None \<Rightarrow> Inr (None, pg)
     | Some t \<Rightarrow> res_bind (append_stopped jsonb (clk 0) t (drop_typing {connection_id} pg))
         (\<lambda>(transition, pg'). Inr (Some transition, pg')))))"

fun append_all_stopped ::
  "(json \<Rightarrow> bool) \<Rightarrow> readings \<Rightarrow> typing_row list \<Rightarrow> pg \<Rightarrow> pg_error + typing_transition list \<times> pg" where
  "append_all_stopped jsonb clk [] pg = Inr ([], pg)"
| "append_all_stopped jsonb clk (t # ts) pg =
     res_bind (append_stopped jsonb (clk 0) t pg) (\<lambda>(x, pg').
     res_bind (append_all_stopped jsonb (later_readings 1 clk) ts pg') (\<lambda>(xs, pg''). Inr (x # xs, pg'')))"

text \<open>\<open>RETURNING\<close> has no order of its own; the rows come as the sweep found them.\<close>

definition reap_expired_typing ::
  "(json \<Rightarrow> bool) \<Rightarrow> readings \<Rightarrow> (pystr \<Rightarrow> bool) \<Rightarrow> int \<Rightarrow> pg \<Rightarrow> pg_error + typing_transition list \<times> pg" where
  "reap_expired_typing jsonb clk locked limit pg =
     (if \<not> (1 \<le> limit \<and> limit \<le> 1000) then Inl (PgValueError ''typing expiry batch must be between 1 and 1000'')
      else (let rows = take (nat limit) (filter (\<lambda>t. \<not> locked (ty_connection_id t))
              (order_by (\<lambda>t. (ty_expires_at t, ty_connection_id t)) (filter (\<lambda>t. ty_expires_at t \<le> clk 0) (pg_typing pg)))) in
        append_all_stopped jsonb (later_readings 1 clk) rows (drop_typing (set (map ty_connection_id rows)) pg)))"

end
