(* ===== verification/Pg_Runtime.thy ===== *)
theory Pg_Runtime
  imports Pg_Leases Pg_Relay Pg_Rate_Limits Connections
begin

section \<open>The application runtime on PostgreSQL (postgres_runtime.py)\<close>

text \<open>
  \<open>PostgresApplicationRuntime\<close> of \<open>samsarix_chat_engine/postgres_runtime.py\<close> puts the relay, the
  registries and the limiters of one process together. Modelled are the admission and release of a
  socket, readiness, typing and the maintenance pass; opening and closing the pool and the tasks are the
  event loop's. \<open>meanwhile\<close> is what other processes commit between two calls of this one.
\<close>

subsection \<open>Releasing and typing\<close>

definition is_foundation_error :: "pg_error \<Rightarrow> bool" where
  "is_foundation_error e = (case e of
     PgValueError t \<Rightarrow> False | ConnectionLeaseError t \<Rightarrow> False | ConnectionRoomUnavailableError \<Rightarrow> False
   | TypingStateError \<Rightarrow> False | _ \<Rightarrow> True)"

text \<open>Errors of the database are logged and leave the lease to its expiry.\<close>

definition release_connection ::
  "(json \<Rightarrow> bool) \<Rightarrow> readings \<Rightarrow> fate \<Rightarrow> pystr \<Rightarrow> pystr \<Rightarrow> pg \<Rightarrow> (pg_error + bool) \<times> pg" where
  "release_connection jsonb clk fate connection_id instance_id pg =
     (case database_call fate (release jsonb clk connection_id instance_id pg) pg of
        (Inl e, pg') \<Rightarrow> (if is_foundation_error e then Inr False else Inl e, pg')
      | (Inr b, pg') \<Rightarrow> (Inr b, pg'))"

definition runtime_set_typing ::
  "(json \<Rightarrow> bool) \<Rightarrow> typing_config \<Rightarrow> readings \<Rightarrow> pystr \<Rightarrow> bool \<Rightarrow> pystr \<Rightarrow> pg \<Rightarrow> pg_error + typing_transition option \<times> pg" where
  "runtime_set_typing jsonb tc clk connection_id active instance_id pg =
     (if active then start_typing jsonb tc clk connection_id instance_id pg
      else stop_typing jsonb clk connection_id instance_id pg)"

subsection \<open>Readiness\<close>

text \<open>The relay is asked before and after the storage; \<open>done\<close> of the two background tasks are arguments.\<close>

definition check_ready :: "bool \<Rightarrow> bool \<Rightarrow> int \<Rightarrow> relay \<Rightarrow> bool \<Rightarrow> int \<Rightarrow> relay \<Rightarrow> bool" where
  "check_ready relay_running maintenance_running now rl storage_ready now' rl' \<longleftrightarrow>
     relay_running \<and> maintenance_running \<and> ready now rl \<and> storage_ready \<and> ready now' rl'"

subsection \<open>Admission\<close>

datatype admission_error = DatabaseRaised pg_error | TaskCancelled

record admission_input =
  ai_relay :: relay
  ai_now :: int
  ai_clk :: readings
  ai_locked :: "pystr \<Rightarrow> bool"
  ai_fate :: fate
  ai_cancelled :: bool
  ai_meanwhile :: "pg \<Rightarrow> pg"
  ai_relay_after :: relay
  ai_now_after :: int
  ai_release_clk :: readings
  ai_release_fate :: fate

text \<open>The reservation: an answer, or an interruption before or after its commit.\<close>

definition acquire_call ::
  "admission_input \<Rightarrow> (pg_error + connection_lease option) \<times> pg \<Rightarrow> pg \<Rightarrow> (admission_error + connection_lease option) \<times> pg" where
  "acquire_call ai answer pg =
     (let interrupted = Inl (if ai_cancelled ai then TaskCancelled else DatabaseRaised PostgresUnavailableError) in
      case ai_fate ai of
        Answered \<Rightarrow> (case fst answer of Inl e \<Rightarrow> Inl (DatabaseRaised e) | Inr r \<Rightarrow> Inr r, snd answer)
      | NotSent \<Rightarrow> (interrupted, pg)
      | ReplyLost \<Rightarrow> (interrupted, snd answer))"

record admission_outcome =
  ao_result :: "admission_error + bool"
  ao_tables :: pg
  ao_manager :: manager
  ao_released :: "(pg_error + bool) option"

text \<open>The \<open>finally\<close> of an admission that did not register: the reservation, if there can be one, is released.\<close>

definition admission_failed ::
  "(json \<Rightarrow> bool) \<Rightarrow> admission_input \<Rightarrow> pystr \<Rightarrow> pystr \<Rightarrow> bool \<Rightarrow> admission_error + bool \<Rightarrow> manager \<Rightarrow> pg \<Rightarrow> admission_outcome" where
  "admission_failed jsonb ai connection_id instance_id possible r m pg =
     (if \<not> possible then \<lparr>ao_result = r, ao_tables = pg, ao_manager = m, ao_released = None\<rparr>
      else (let outcome = database_call (ai_release_fate ai) (release jsonb (ai_release_clk ai) connection_id instance_id pg) pg;
                (answer, pg') = release_connection jsonb (ai_release_clk ai) (ai_release_fate ai) connection_id instance_id pg in
        \<lparr>ao_result = (case answer of Inl e \<Rightarrow> Inl (DatabaseRaised e) | Inr b \<Rightarrow> r), ao_tables = pg', ao_manager = m,
         ao_released = Some (fst outcome)\<rparr>))"

definition reservation_possible :: "admission_error \<Rightarrow> bool" where
  "reservation_possible e \<longleftrightarrow> e = TaskCancelled \<or> e = DatabaseRaised PostgresUnavailableError"

definition admission_check :: "admission_input \<Rightarrow> uuid \<times> nat \<Rightarrow> connection_lease \<Rightarrow> bool" where
  "admission_check ai token lease \<longleftrightarrow>
     admission_token (ai_now_after ai) (ai_relay_after ai) = Some token \<and> cl_generation lease = fst token"

definition admit_connection ::
  "(json \<Rightarrow> bool) \<Rightarrow> registry_config \<Rightarrow> limits \<Rightarrow> admission_input \<Rightarrow> socket \<Rightarrow> pystr \<Rightarrow> pystr \<Rightarrow> pystr \<Rightarrow> pystr \<Rightarrow> pystr option \<Rightarrow>
   pystr set \<Rightarrow> manager \<Rightarrow> pg \<Rightarrow> admission_outcome" where
  "admit_connection jsonb gc lim ai ws connection_id instance_id room_id username subject permissions m pg =
     (case admission_token (ai_now ai) (ai_relay ai) of
       None \<Rightarrow> \<lparr>ao_result = Inl (DatabaseRaised PostgresUnavailableError), ao_tables = pg, ao_manager = m, ao_released = None\<rparr>
     | Some token \<Rightarrow>
         (case acquire_call ai (try_acquire jsonb gc (ai_clk ai) (ai_locked ai) connection_id instance_id room_id username subject pg) pg of
           (Inl e, pg1) \<Rightarrow> admission_failed jsonb ai connection_id instance_id (reservation_possible e) (Inl e) m (ai_meanwhile ai pg1)
         | (Inr None, pg1) \<Rightarrow> \<lparr>ao_result = Inr False, ao_tables = pg1, ao_manager = m, ao_released = None\<rparr>
         | (Inr (Some lease), pg1) \<Rightarrow>
             (let ok = admission_check ai token lease; pg2 = ai_meanwhile ai pg1 in
              case register lim ws (new_connection room_id username subject permissions (Some connection_id) False
                  (Some (int (cl_admission_sequence lease)))) (Some ok) m of
                Inl e \<Rightarrow> admission_failed jsonb ai connection_id instance_id True (Inl (DatabaseRaised (PgValueError ''sequence''))) m pg2
              | Inr (True, m') \<Rightarrow> \<lparr>ao_result = Inr True, ao_tables = pg2, ao_manager = m', ao_released = None\<rparr>
              | Inr (False, m') \<Rightarrow> admission_failed jsonb ai connection_id instance_id True
                  (if \<not> ok then Inl (DatabaseRaised PostgresUnavailableError) else Inr False) m' pg2)))"

subsection \<open>Maintenance\<close>

text \<open>
  One pass: each step is its own transaction and a failed one changes nothing; the limiters share the
  bucket table, and the event log is pruned at most once a minute.
\<close>

record maintenance_input =
  mi_typing_clk :: readings
  mi_typing_fate :: fate
  mi_leases_clk :: readings
  mi_leases_fate :: fate
  mi_locked :: "pystr \<Rightarrow> bool"
  mi_rate_clocks :: "(int \<times> fate) list"
  mi_now :: int
  mi_events_clk :: readings
  mi_events_locked :: "nat \<Rightarrow> bool"
  mi_events_fate :: fate

record maintained =
  mt_tables :: pg
  mt_buckets :: "bucket list"
  mt_next_event_prune_at :: int

definition EVENT_PRUNE_INTERVAL :: int where
  "EVENT_PRUNE_INTERVAL = 60000000"

definition swallow :: "fate \<Rightarrow> pg_error + 'r \<times> pg \<Rightarrow> pg \<Rightarrow> pg" where
  "swallow fate outcome pg = snd (database_call fate outcome pg)"

definition run_maintenance_once ::
  "(json \<Rightarrow> bool) \<Rightarrow> int \<Rightarrow> int \<Rightarrow> maintenance_input \<Rightarrow> maintained \<Rightarrow> maintained" where
  "run_maintenance_once jsonb max_events max_age mi mt =
     (let pg1 = swallow (mi_typing_fate mi) (reap_expired_typing jsonb (mi_typing_clk mi) (mi_locked mi) 100 (mt_tables mt)) (mt_tables mt);
          pg2 = swallow (mi_leases_fate mi) (reap_expired_leases jsonb (mi_leases_clk mi) (mi_locked mi) 100 pg1) pg1;
          bs = fold (\<lambda>(clock, fate) bs. if fate = NotSent then bs else snd (prune_expired clock bs)) (mi_rate_clocks mi) (mt_buckets mt) in
      if mt_next_event_prune_at mt \<le> mi_now mi
      then \<lparr>mt_tables = swallow (mi_events_fate mi) (prune_events (mi_events_clk mi) (mi_events_locked mi) max_events max_age 1000 pg2) pg2,
            mt_buckets = bs, mt_next_event_prune_at = mi_now mi + EVENT_PRUNE_INTERVAL\<rparr>
      else \<lparr>mt_tables = pg2, mt_buckets = bs, mt_next_event_prune_at = mt_next_event_prune_at mt\<rparr>)"

end
