(* ===== verification/Pg_Lease_Properties.thy ===== *)
theory Pg_Lease_Properties
  imports Pg_Leases
begin

section \<open>Occupancy and presence across processes\<close>

text \<open>
  What the connection and typing registries promise to all processes together: the leases that count
  never exceed the caps, and the presence and typing events tell exactly who holds a lease and who types.
\<close>

subsection \<open>What counts depends on the cursors and rooms\<close>

lemma cursor_of_cursors: "fd_cursors (pg' :: 'z foundation_scheme) = fd_cursors (pg :: 'y foundation_scheme) \<Longrightarrow>
    cursor_of i pg' = cursor_of i pg"
  by (simp add: cursor_of_def)

lemma usable_cong:
  "fd_cursors pg' = fd_cursors pg \<Longrightarrow> pg_rooms pg' = pg_rooms pg \<Longrightarrow> usable t pg' l = usable t pg l"
  by (simp add: usable_def lease_owner_def room_open_def pg_room_def cursor_of_cursors [of pg' pg])

lemma usable_earlier: "usable t' pg l \<Longrightarrow> t \<le> t' \<Longrightarrow> usable t pg l"
  by (auto simp: usable_def live_cursor_def split: option.splits)

lemma length_filter_mono: "(\<And>x. x \<in> set xs \<Longrightarrow> P x \<Longrightarrow> Q x) \<Longrightarrow> length (filter P xs) \<le> length (filter Q xs)"
  by (induction xs) auto

definition occupancy_inv :: "registry_config \<Rightarrow> timestamp \<Rightarrow> pg \<Rightarrow> bool" where
  "occupancy_inv gc now pg \<longleftrightarrow> int (total_count now pg) \<le> gc_max_connections gc \<and>
     (\<forall>r. int (room_active_count now r pg) \<le> gc_max_connections_per_room gc)"

text \<open>The step everything but an admission makes: each lease that counts afterwards counted before.\<close>

lemma occupancy_shrinks:
  assumes "occupancy_inv gc now pg" "pg_leases pg' = map f (filter P (pg_leases pg))"
    and "\<And>l. l \<in> set (pg_leases pg) \<Longrightarrow> P l \<Longrightarrow> usable now' pg' (f l) \<Longrightarrow> usable now pg l"
    and "\<And>l. cl_room_id (f l) = cl_room_id l"
  shows "occupancy_inv gc now' pg'"
proof -
  have "total_count now' pg' \<le> total_count now pg"
    unfolding total_count_def assms(2) filter_map comp_def length_map filter_filter
    by (rule length_filter_mono) (use assms(3) in blast)
  moreover have "room_active_count now' r pg' \<le> room_active_count now r pg" for r
    unfolding room_active_count_def assms(2) filter_map comp_def length_map filter_filter
    by (rule length_filter_mono) (use assms(3,4) in auto)
  ultimately show ?thesis using assms(1) unfolding occupancy_inv_def
    by (meson of_nat_mono order_trans)
qed

lemma occupancy_same_leases:
  assumes "occupancy_inv gc now pg" "pg_leases pg' = pg_leases pg"
    and "\<And>l. l \<in> set (pg_leases pg) \<Longrightarrow> usable now' pg' l \<Longrightarrow> usable now pg l"
  shows "occupancy_inv gc now' pg'"
  by (rule occupancy_shrinks [OF assms(1), of _ "\<lambda>l. l" "\<lambda>l. True"]) (use assms(2,3) in simp_all)

lemma occupancy_frame:
  assumes "occupancy_inv gc now pg" "pg_leases pg' = pg_leases pg" "fd_cursors pg' = fd_cursors pg"
    "pg_rooms pg' = pg_rooms pg" "now \<le> now'"
  shows "occupancy_inv gc now' pg'"
  by (rule occupancy_same_leases [OF assms(1,2)]) (use assms(3-5) usable_earlier usable_cong in blast)

subsection \<open>The roster of the event log\<close>

definition event_origin :: "realtime_event \<Rightarrow> pystr option" where
  "event_origin e = (case re_payload e of JObj fs \<Rightarrow>
       (case map_of fs (str ''origin_connection_id'') of Some (JStr s) \<Rightarrow> Some s | _ \<Rightarrow> None)
     | _ \<Rightarrow> None)"

definition toggle_member :: "string \<Rightarrow> string \<Rightarrow> realtime_event \<Rightarrow> pystr set \<Rightarrow> pystr set" where
  "toggle_member enter leave e S = (case event_origin e of None \<Rightarrow> S
     | Some c \<Rightarrow> if re_event_type e = str enter then insert c S
         else if re_event_type e = str leave then S - {c} else S)"

text \<open>Who is present, and who types, to a reader of the log.\<close>

definition roster :: "realtime_event list \<Rightarrow> pystr set \<Rightarrow> pystr set" where
  "roster = fold (toggle_member ''presence.joined'' ''presence.left'')"

definition typists :: "realtime_event list \<Rightarrow> pystr set \<Rightarrow> pystr set" where
  "typists = fold (toggle_member ''typing.started'' ''typing.stopped'')"

definition lease_ids :: "pg \<Rightarrow> pystr set" where
  "lease_ids pg = cl_connection_id ` set (pg_leases pg)"

definition typing_ids :: "pg \<Rightarrow> pystr set" where
  "typing_ids pg = ty_connection_id ` set (pg_typing pg)"

definition same_tables :: "pg \<Rightarrow> pg \<Rightarrow> bool" where
  "same_tables pg pg' \<longleftrightarrow> pg_leases pg' = pg_leases pg \<and> pg_typing pg' = pg_typing pg \<and> pg_rooms pg' = pg_rooms pg \<and>
     fd_cursors pg' = fd_cursors pg"

text \<open>From one state of the tables to another only events were appended, with this effect on the rosters.\<close>

definition announced :: "pg \<Rightarrow> pg \<Rightarrow> (pystr set \<Rightarrow> pystr set) \<Rightarrow> (pystr set \<Rightarrow> pystr set) \<Rightarrow> bool" where
  "announced pg pg' f g \<longleftrightarrow> same_tables pg pg' \<and>
     (\<exists>es. fd_events pg' = fd_events pg @ es \<and> (\<forall>S. roster es S = f S) \<and> (\<forall>S. typists es S = g S))"

lemma announced_refl: "announced pg pg (\<lambda>S. S) (\<lambda>S. S)"
  by (simp add: announced_def same_tables_def roster_def typists_def)

lemma announced_trans:
  "announced pg pg1 f g \<Longrightarrow> announced pg1 pg2 f' g' \<Longrightarrow> announced pg pg2 (\<lambda>S. f' (f S)) (\<lambda>S. g' (g S))"
  unfolding announced_def same_tables_def roster_def typists_def
  by (elim conjE exE) (rule conjI, simp, rule_tac x = "es @ esa" in exI, simp)

lemma append_event_frame:
  fixes pg :: pg
  assumes "append_event jsonb now room_id event_type payload pg = Inr (s, pg')"
  shows "same_tables pg pg' \<and> (\<exists>e. fd_events pg' = fd_events pg @ [e] \<and> re_event_type e = event_type \<and> re_payload e = payload)"
  using assms by (auto simp: append_event_def same_tables_def validate_event_def split: if_splits json.splits option.splits)

lemma announced_presence:
  assumes "append_presence jsonb now active c room_id username n pg = Inr (s, pg')"
  shows "announced pg pg' (if active then insert c else (\<lambda>S. S - {c})) (\<lambda>S. S)"
  using append_event_frame [OF assms [unfolded append_presence_def]]
  by (auto simp: announced_def roster_def typists_def toggle_member_def event_origin_def presence_payload_def str_def)

lemma announced_stopped:
  assumes "append_typing_stopped jsonb now c room_id username pg = Inr (s, pg')"
  shows "announced pg pg' (\<lambda>S. S) (\<lambda>S. S - {c})"
  using append_event_frame [OF assms [unfolded append_typing_stopped_def]]
  by (auto simp: announced_def roster_def typists_def toggle_member_def event_origin_def typing_stopped_payload_def str_def)

lemma announced_started:
  fixes pg :: pg
  assumes "append_event jsonb now room_id (str ''typing.started'') (typing_started_payload tc username c) pg = Inr (s, pg')"
  shows "announced pg pg' (\<lambda>S. S) (insert c)"
  using append_event_frame [OF assms]
  by (auto simp: announced_def roster_def typists_def toggle_member_def event_origin_def typing_started_payload_def str_def)

lemma announced_departure:
  assumes "append_departure jsonb clk (l, was_typing) pg = Inr (t, pg')"
  shows "announced pg pg' (\<lambda>S. S - {cl_connection_id l}) (\<lambda>S. if was_typing then S - {cl_connection_id l} else S)"
proof -
  obtain pg1 s where stopped: "if was_typing
       then \<exists>s. append_typing_stopped jsonb (clk 0) (cl_connection_id l) (cl_room_id l) (cl_username l) pg = Inr (s, pg1)
       else pg1 = pg"
    and left: "append_presence jsonb (clk 2) False (cl_connection_id l) (cl_room_id l) (cl_username l)
       (room_active_count (clk 1) (cl_room_id l) pg1) pg1 = Inr (s, pg')"
    using assms by (auto simp: append_departure_def Let_def split: if_splits prod.splits)
  have "announced pg pg1 (\<lambda>S. S) (\<lambda>S. if was_typing then S - {cl_connection_id l} else S)"
    using stopped announced_stopped announced_refl by (auto split: if_splits)
  from announced_trans [OF this announced_presence [OF left]] show ?thesis by simp
qed

lemma announced_in_order:
  assumes "append_in_order jsonb clk rows pg = Inr (ts, pg')"
  shows "announced pg pg' (\<lambda>S. S - set (map (cl_connection_id \<circ> fst) rows))
     (\<lambda>S. S - set (map (cl_connection_id \<circ> fst) (filter snd rows)))"
  using assms
proof (induction rows arbitrary: clk pg ts)
  case Nil then show ?case by (simp add: announced_refl)
next
  case (Cons row rows)
  obtain l w where row: "row = (l, w)" by force
  obtain t pg1 ts' where first: "append_departure jsonb clk (l, w) pg = Inr (t, pg1)"
    and rest: "append_in_order jsonb (later_readings 3 clk) rows pg1 = Inr (ts', pg')"
    using Cons.prems row by (auto split: prod.splits)
  have eq: "S - {c} - A = S - insert c A" for S A and c :: pystr by blast
  from announced_trans [OF announced_departure [OF first] Cons.IH [OF rest]]
  show ?case by (cases w) (simp_all add: row eq)
qed

lemma announced_departures:
  assumes "append_departures jsonb clk rows pg = Inr (ts, pg')"
  shows "announced pg pg' (\<lambda>S. S - set (map (cl_connection_id \<circ> fst) rows))
     (\<lambda>S. S - set (map (cl_connection_id \<circ> fst) (filter snd rows)))"
proof -
  have "set (order_by (cl_connection_id \<circ> fst) rows) = set rows" by (simp add: order_by_def)
  then show ?thesis using announced_in_order [OF assms [unfolded append_departures_def]] by simp
qed

subsection \<open>The invariant\<close>

definition lease_inv :: "registry_config \<Rightarrow> timestamp \<Rightarrow> realtime_event list \<Rightarrow> pg \<Rightarrow> bool" where
  "lease_inv gc now log pg \<longleftrightarrow> occupancy_inv gc now pg \<and>
     distinct (map cl_connection_id (pg_leases pg)) \<and> typing_ids pg \<subseteq> lease_ids pg \<and>
     (\<forall>l\<in>set (pg_leases pg). pg_room (cl_room_id l) pg \<noteq> None) \<and>
     roster log {} = lease_ids pg \<and> typists log {} = typing_ids pg"

lemma announced_log:
  assumes "announced pg1 pg' f g" "fd_events pg1 = fd_events pg" "fd_events pg' = fd_events pg @ es"
  shows "roster (log @ es) S = f (roster log S)" "typists (log @ es) S = g (typists log S)"
  using assms by (auto simp: announced_def roster_def typists_def)

lemma announced_tables: "announced pg pg' f g \<Longrightarrow> same_tables pg pg'"
  by (simp add: announced_def)

text \<open>Tables changed first, then the events appended that tell it.\<close>

lemma lease_inv_announced:
  assumes inv: "lease_inv gc now log pg" and occ: "occupancy_inv gc now' pg'"
    and ann: "announced pg1 pg' f g" "fd_events pg1 = fd_events pg" "fd_events pg' = fd_events pg @ es"
    and tables: "distinct (map cl_connection_id (pg_leases pg1))" "typing_ids pg1 \<subseteq> lease_ids pg1"
      "\<forall>l\<in>set (pg_leases pg1). pg_room (cl_room_id l) pg1 \<noteq> None"
    and rosters: "f (lease_ids pg) = lease_ids pg1" "g (typing_ids pg) = typing_ids pg1"
  shows "lease_inv gc now' (log @ es) pg'"
  using assms announced_tables [OF ann(1)] announced_log [OF ann]
  by (simp add: lease_inv_def same_tables_def lease_ids_def typing_ids_def pg_room_def)

lemma lease_ids_delete: "lease_ids (delete_leases ids pg) = lease_ids pg - ids"
  "typing_ids (delete_leases ids pg) = typing_ids pg - ids" "fd_events (delete_leases ids pg) = fd_events pg"
  by (auto simp: delete_leases_def lease_ids_def typing_ids_def)

lemma delete_tables:
  assumes "lease_inv gc now log pg"
  shows "distinct (map cl_connection_id (pg_leases (delete_leases ids pg)))"
    "typing_ids (delete_leases ids pg) \<subseteq> lease_ids (delete_leases ids pg)"
    "\<forall>l\<in>set (pg_leases (delete_leases ids pg)). pg_room (cl_room_id l) (delete_leases ids pg) \<noteq> None"
  using assms unfolding lease_ids_delete
  by (auto simp: lease_inv_def delete_leases_def pg_room_def intro: distinct_filter dest: distinct_map_filter)

lemma occupancy_delete:
  assumes "occupancy_inv gc now pg" "same_tables (delete_leases ids pg) pg'" "now \<le> now'"
  shows "occupancy_inv gc now' pg'"
proof (rule occupancy_shrinks [OF assms(1), of _ "\<lambda>l. l" "\<lambda>l. cl_connection_id l \<notin> ids"])
  show "pg_leases pg' = map (\<lambda>l. l) (filter (\<lambda>l. cl_connection_id l \<notin> ids) (pg_leases pg))"
    using assms(2) by (simp add: same_tables_def delete_leases_def)
  show "usable now pg l" if "usable now' pg' l" for l
    using that assms(2,3) usable_cong [of pg' pg now' l] usable_earlier
    by (auto simp: same_tables_def delete_leases_def)
qed simp

lemma is_typing_ids: "is_typing pg c \<longleftrightarrow> c \<in> typing_ids pg"
  by (auto simp: is_typing_def list_ex_iff typing_ids_def)

text \<open>The rows of a sweep: their typing flags are those of the table.\<close>

lemma lease_inv_sweep:
  assumes inv: "lease_inv gc now log pg" and rows: "\<forall>(l, w)\<in>set rows. w = is_typing pg (cl_connection_id l)"
    and app: "append_departures jsonb clk rows (delete_leases (set (map (cl_connection_id \<circ> fst) rows)) pg) = Inr (ts, pg')"
    and es: "fd_events pg' = fd_events pg @ es" and now: "now \<le> now'"
  shows "lease_inv gc now' (log @ es) pg'"
proof -
  let ?ids = "set (map (cl_connection_id \<circ> fst) rows)" and ?typed = "set (map (cl_connection_id \<circ> fst) (filter snd rows))"
  note ann = announced_departures [OF app]
  have typed: "typing_ids pg - ?typed = typing_ids pg - ?ids"
    using rows by (force simp: is_typing_ids)
  show ?thesis
  proof (rule lease_inv_announced [OF inv _ ann lease_ids_delete(3) es delete_tables [OF inv]])
    show "occupancy_inv gc now' pg'"
      using inv occupancy_delete [OF _ announced_tables [OF ann] now] by (simp add: lease_inv_def)
    show "lease_ids pg - ?ids = lease_ids (delete_leases ?ids pg)" by (simp add: lease_ids_delete)
    show "typing_ids pg - ?typed = typing_ids (delete_leases ?ids pg)" by (simp only: typed lease_ids_delete)
  qed
qed

lemma expired_flags: "\<forall>(l, w)\<in>set (expired_leases now locked limit prioritized pg). w = is_typing pg (cl_connection_id l)"
  by (auto simp: expired_leases_def)

subsection \<open>The registries keep it\<close>

lemma lease_inv_later: "lease_inv gc now log pg \<Longrightarrow> now \<le> now' \<Longrightarrow> lease_inv gc now' log pg"
  unfolding lease_inv_def by (blast intro: occupancy_frame)

lemma lease_inv_reap:
  assumes "lease_inv gc now log pg" "reap_expired_leases jsonb clk locked limit pg = Inr (ts, pg')"
    "fd_events pg' = fd_events pg @ es" "now \<le> now'"
  shows "lease_inv gc now' (log @ es) pg'"
proof (rule lease_inv_sweep [OF assms(1) expired_flags _ assms(3,4)])
  show "append_departures jsonb (later_readings 1 clk) (expired_leases (clk 0) locked (nat limit) None pg)
      (delete_leases (set (map (cl_connection_id \<circ> fst) (expired_leases (clk 0) locked (nat limit) None pg))) pg) = Inr (ts, pg')"
    using assms(2) by (simp add: reap_expired_leases_def delete_expired_def Let_def split: if_splits)
qed

lemma lease_inv_release:
  assumes inv: "lease_inv gc now log pg" and op: "release jsonb clk connection_id instance_id pg = Inr (r, pg')"
    and es: "fd_events pg' = fd_events pg @ es" and now: "now \<le> now'"
  shows "lease_inv gc now' (log @ es) pg'"
proof (cases "find (\<lambda>l. cl_connection_id l = connection_id \<and> cl_instance_id l = instance_id) (pg_leases pg)")
  case None
  then have "pg' = pg" using op by (simp add: release_def)
  then show ?thesis using es lease_inv_later [OF inv now] by simp
next
  case (Some l)
  then have id: "cl_connection_id l = connection_id" by (auto simp: find_Some_iff)
  obtain t where app: "append_departure jsonb clk (l, is_typing pg connection_id) (delete_leases {connection_id} pg) = Inr (t, pg')"
    using op Some by (auto simp: release_def split: prod.splits)
  note ann = announced_departure [OF app, unfolded id]
  show ?thesis
  proof (rule lease_inv_announced [OF inv _ ann lease_ids_delete(3) es delete_tables [OF inv]])
    show "occupancy_inv gc now' pg'"
      using inv occupancy_delete [OF _ announced_tables [OF ann] now] by (simp add: lease_inv_def)
    show "lease_ids pg - {connection_id} = lease_ids (delete_leases {connection_id} pg)" by (simp add: lease_ids_delete)
    show "(if is_typing pg connection_id then typing_ids pg - {connection_id} else typing_ids pg) =
        typing_ids (delete_leases {connection_id} pg)"
      by (auto simp: lease_ids_delete is_typing_ids)
  qed
qed

lemma lease_inv_renew:
  assumes inv: "lease_inv gc now log pg" and op: "renew gc clk connection_id instance_id room_id pg = Inr (r, pg')"
    and now: "now \<le> clk 0" "now \<le> now'"
  shows "lease_inv gc now' log pg'" "fd_events pg' = fd_events pg"
proof -
  let ?hit = "\<lambda>l. cl_connection_id l = connection_id \<and> cl_instance_id l = instance_id \<and> cl_room_id l = room_id \<and> usable (clk 0) pg l"
  define f where "f = (\<lambda>l. if ?hit l then l\<lparr>cl_lease_expires_at := clk 1 + seconds_delta (gc_lease_seconds gc)\<rparr> else l)"
  have pg': "pg' = pg\<lparr>pg_leases := map f (pg_leases pg)\<rparr>"
    using op by (auto simp: renew_def Let_def update_where_def f_def split: if_splits)
  then show "fd_events pg' = fd_events pg" by simp
  have keep: "cl_connection_id (f l) = cl_connection_id l" "cl_room_id (f l) = cl_room_id l" for l by (simp_all add: f_def)
  have "occupancy_inv gc now' pg'"
  proof (rule occupancy_shrinks [of gc now pg _ f "\<lambda>l. True"])
    show "occupancy_inv gc now pg" using inv by (simp add: lease_inv_def)
    show "usable now pg l" if "usable now' pg' (f l)" for l
    proof (cases "?hit l")
      case True then show ?thesis using now(1) by (blast intro: usable_earlier)
    next
      case False
      then have "f l = l" by (auto simp: f_def)
      then have "usable now' pg l" using that usable_cong [of pg' pg] by (simp add: pg')
      then show ?thesis using now(2) by (rule usable_earlier)
    qed
  qed (simp_all add: pg' keep)
  moreover have "lease_ids pg' = lease_ids pg" "typing_ids pg' = typing_ids pg"
    by (simp_all add: pg' lease_ids_def typing_ids_def image_image keep)
  ultimately show "lease_inv gc now' log pg'"
    using inv by (auto simp: lease_inv_def pg' pg_room_def keep comp_def)
qed

lemma put_typing_ids:
  "typing_ids (put_typing t pg) = insert (ty_connection_id t) (typing_ids pg)" "lease_ids (put_typing t pg) = lease_ids pg"
  "fd_events (put_typing t pg) = fd_events pg" "pg_leases (put_typing t pg) = pg_leases pg"
  "fd_cursors (put_typing t pg) = fd_cursors pg" "pg_rooms (put_typing t pg) = pg_rooms pg"
  "pg_room r (put_typing t pg) = pg_room r pg"
  by (auto simp: put_typing_def is_typing_ids typing_ids_def lease_ids_def update_where_def pg_room_def)

lemma lease_inv_typing:
  assumes inv: "lease_inv gc now log pg" and ann: "announced pg1 pg' (\<lambda>S. S) g"
    and same: "fd_events pg1 = fd_events pg" "pg_leases pg1 = pg_leases pg" "fd_cursors pg1 = fd_cursors pg" "pg_rooms pg1 = pg_rooms pg"
    and es: "fd_events pg' = fd_events pg @ es" and now: "now \<le> now'"
    and typing: "typing_ids pg1 \<subseteq> lease_ids pg" "g (typing_ids pg) = typing_ids pg1"
  shows "lease_inv gc now' (log @ es) pg'"
proof (rule lease_inv_announced [OF inv _ ann same(1) es])
  show "occupancy_inv gc now' pg'"
    using inv announced_tables [OF ann] same now
    by (intro occupancy_frame [of gc now pg pg']) (simp_all add: lease_inv_def same_tables_def)
qed (use inv same typing in \<open>simp_all add: lease_inv_def lease_ids_def pg_room_def\<close>)

lemma lease_inv_start_typing:
  assumes inv: "lease_inv gc now log pg" and op: "start_typing jsonb tc clk connection_id instance_id pg = Inr (r, pg')"
    and es: "fd_events pg' = fd_events pg @ es" and now: "now \<le> now'"
  shows "lease_inv gc now' (log @ es) pg'"
proof -
  obtain l where l: "find (\<lambda>l. cl_connection_id l = connection_id \<and> cl_instance_id l = instance_id \<and> usable (clk 0) pg l)
      (pg_leases pg) = Some l"
    using op by (auto simp: start_typing_def split: option.splits)
  then have "l \<in> set (pg_leases pg)" "cl_connection_id l = connection_id" by (auto simp: find_Some_iff)
  then have leased: "connection_id \<in> lease_ids pg" by (auto simp: lease_ids_def)
  let ?t = "\<lparr>ty_connection_id = connection_id, ty_room_id = cl_room_id l, ty_username = cl_username l,
      ty_expires_at = clk 2 + tc_timeout_micros tc\<rparr>"
  let ?active = "case find (\<lambda>t. ty_connection_id t = connection_id) (pg_typing pg) of None \<Rightarrow> False | Some t \<Rightarrow> clk 1 < ty_expires_at t"
  have ids: "typing_ids (put_typing ?t pg) = insert connection_id (typing_ids pg)" by (simp add: put_typing_ids)
  have sub: "typing_ids (put_typing ?t pg) \<subseteq> lease_ids pg" using inv leased by (simp add: ids lease_inv_def)
  show ?thesis
  proof (cases ?active)
    case True
    then have "connection_id \<in> typing_ids pg" by (auto simp: typing_ids_def find_Some_iff split: option.splits)
    then have "typing_ids pg = typing_ids (put_typing ?t pg)" by (auto simp: ids)
    moreover have "pg' = put_typing ?t pg" using op l True by (auto simp: start_typing_def Let_def)
    then have "announced (put_typing ?t pg) pg' (\<lambda>S. S) (\<lambda>S. S)" by (simp add: announced_refl)
    ultimately show ?thesis
      by (intro lease_inv_typing [OF inv _ _ _ _ _ es now sub]) (simp_all add: put_typing_ids)
  next
    case False
    obtain s where "append_event jsonb (clk 3) (cl_room_id l) (str ''typing.started'')
        (typing_started_payload tc (cl_username l) connection_id) (put_typing ?t pg) = Inr (s, pg')"
      using op l False by (auto simp: start_typing_def Let_def split: prod.splits)
    then show ?thesis
      by (rule lease_inv_typing [OF inv announced_started _ _ _ _ es now sub]) (simp_all add: put_typing_ids)
  qed
qed

lemma announced_all_stopped:
  assumes "append_all_stopped jsonb clk ts pg = Inr (xs, pg')"
  shows "announced pg pg' (\<lambda>S. S) (\<lambda>S. S - set (map ty_connection_id ts))"
  using assms
proof (induction ts arbitrary: clk pg xs)
  case Nil then show ?case by (simp add: announced_refl)
next
  case (Cons t ts)
  obtain s pg1 xs' where first: "append_typing_stopped jsonb (clk 0) (ty_connection_id t) (ty_room_id t) (ty_username t) pg = Inr (s, pg1)"
    and rest: "append_all_stopped jsonb (later_readings 1 clk) ts pg1 = Inr (xs', pg')"
    using Cons.prems by (auto simp: append_stopped_def split: prod.splits)
  have eq: "S - {c} - A = S - insert c A" for S A and c :: pystr by blast
  from announced_trans [OF announced_stopped [OF first] Cons.IH [OF rest]] show ?case by (simp add: eq)
qed

lemma drop_typing_ids:
  "typing_ids (drop_typing ids pg) = typing_ids pg - ids" "fd_events (drop_typing ids pg) = fd_events pg"
  "pg_leases (drop_typing ids pg) = pg_leases pg" "fd_cursors (drop_typing ids pg) = fd_cursors pg"
  "pg_rooms (drop_typing ids pg) = pg_rooms pg"
  by (auto simp: drop_typing_def typing_ids_def)

lemma lease_inv_drop_typing:
  assumes inv: "lease_inv gc now log pg" and ann: "announced (drop_typing ids pg) pg' (\<lambda>S. S) (\<lambda>S. S - ids)"
    and es: "fd_events pg' = fd_events pg @ es" and now: "now \<le> now'"
  shows "lease_inv gc now' (log @ es) pg'"
proof (rule lease_inv_typing [OF inv ann _ _ _ _ es now])
  show "typing_ids (drop_typing ids pg) \<subseteq> lease_ids pg"
    using inv unfolding drop_typing_ids lease_inv_def by blast
qed (simp_all add: drop_typing_ids)

lemma lease_inv_stop_typing:
  assumes inv: "lease_inv gc now log pg" and op: "stop_typing jsonb clk connection_id instance_id pg = Inr (r, pg')"
    and es: "fd_events pg' = fd_events pg @ es" and now: "now \<le> now'"
  shows "lease_inv gc now' (log @ es) pg'"
proof (cases "pg' = pg")
  case True then show ?thesis using es lease_inv_later [OF inv now] by simp
next
  case False
  then obtain t x where t: "find (\<lambda>t. ty_connection_id t = connection_id) (pg_typing pg) = Some t"
    and x: "append_stopped jsonb (clk 0) t (drop_typing {connection_id} pg) = Inr (x, pg')"
    using op by (auto simp: stop_typing_def split: option.splits if_splits prod.splits)
  have "ty_connection_id t = connection_id" using t by (auto simp: find_Some_iff)
  then obtain s where "append_typing_stopped jsonb (clk 0) connection_id (ty_room_id t) (ty_username t)
      (drop_typing {connection_id} pg) = Inr (s, pg')"
    using x by (auto simp: append_stopped_def split: prod.splits)
  then show ?thesis by (intro lease_inv_drop_typing [OF inv announced_stopped es now])
qed

lemma lease_inv_reap_typing:
  assumes inv: "lease_inv gc now log pg" and op: "reap_expired_typing jsonb clk locked limit pg = Inr (r, pg')"
    and es: "fd_events pg' = fd_events pg @ es" and now: "now \<le> now'"
  shows "lease_inv gc now' (log @ es) pg'"
proof -
  obtain rows where "append_all_stopped jsonb (later_readings 1 clk) rows (drop_typing (set (map ty_connection_id rows)) pg) = Inr (r, pg')"
    using op by (auto simp: reap_expired_typing_def Let_def split: if_splits)
  then show ?thesis by (intro lease_inv_drop_typing [OF inv announced_all_stopped es now])
qed

lemma announced_events: "announced pg pg' f g \<Longrightarrow> \<exists>es. fd_events pg' = fd_events pg @ es"
  by (auto simp: announced_def)

lemma occupancy_admit:
  assumes free: "int (total_count t0 pg) < gc_max_connections gc"
      "int (room_active_count t0 (cl_room_id l) pg) < gc_max_connections_per_room gc"
    and occ: "occupancy_inv gc t0 pg" and tables: "same_tables (pg\<lparr>pg_leases := pg_leases pg @ [l]\<rparr>) pg'" and now: "t0 \<le> now'"
  shows "occupancy_inv gc now' pg'"
proof -
  have le: "usable t0 pg k" if "usable now' pg' k" for k
    using that tables now usable_cong [of pg' pg now' k] usable_earlier by (auto simp: same_tables_def)
  have leases: "pg_leases pg' = pg_leases pg @ [l]" using tables by (simp add: same_tables_def)
  have "total_count now' pg' \<le> Suc (total_count t0 pg)"
    using length_filter_mono [of "pg_leases pg" "usable now' pg'" "usable t0 pg"] le by (simp add: total_count_def leases)
  moreover have "room_active_count now' r pg' \<le> room_active_count t0 r pg + (if r = cl_room_id l then 1 else 0)" for r
    using length_filter_mono [of "pg_leases pg" "\<lambda>k. usable now' pg' k \<and> cl_room_id k = r" "\<lambda>k. usable t0 pg k \<and> cl_room_id k = r"] le
    by (cases "r = cl_room_id l") (simp_all add: room_active_count_def leases)
  ultimately show ?thesis using free occ unfolding occupancy_inv_def
    by (smt (verit, best) Suc_eq_plus1 add.right_neutral of_nat_1 of_nat_add of_nat_mono)
qed

lemma reserve_cases:
  assumes "reserve jsonb gc clk l0 pg = Inr (r, pg')"
  obtains "pg' = pg"
  | l n s where "cl_connection_id l = cl_connection_id l0" "cl_room_id l = cl_room_id l0" "cl_connection_id l \<notin> lease_ids pg"
    "append_presence jsonb (clk 4) True (cl_connection_id l) (cl_room_id l) (cl_username l) n
       (pg\<lparr>pg_leases := pg_leases pg @ [l]\<rparr>) = Inr (s, pg')"
proof -
  define l where "l = l0\<lparr>cl_lease_expires_at := clk 1 + seconds_delta (gc_lease_seconds gc), cl_created_at := clk 2\<rparr>"
  have fields: "cl_connection_id l = cl_connection_id l0" "cl_room_id l = cl_room_id l0" by (simp_all add: l_def)
  have "pg' = pg \<or> (\<not> list_ex (\<lambda>k. cl_connection_id k = cl_connection_id l) (pg_leases pg) \<and>
      (\<exists>n s. append_presence jsonb (clk 4) True (cl_connection_id l) (cl_room_id l) (cl_username l) n
          (pg\<lparr>pg_leases := pg_leases pg @ [l]\<rparr>) = Inr (s, pg')))"
    using assms unfolding reserve_def Let_def l_def [symmetric] by (auto split: if_splits prod.splits)
  moreover have "\<not> list_ex (\<lambda>k. cl_connection_id k = cl_connection_id l) (pg_leases pg) \<longleftrightarrow> cl_connection_id l \<notin> lease_ids pg"
    by (auto simp: list_ex_iff lease_ids_def image_iff)
  ultimately show ?thesis using that fields by blast
qed

lemma lease_inv_reserve:
  assumes inv: "lease_inv gc t0 log pg" and op: "reserve jsonb gc clk l0 pg = Inr (r, pg')"
    and free: "int (total_count t0 pg) < gc_max_connections gc"
      "int (room_active_count t0 (cl_room_id l0) pg) < gc_max_connections_per_room gc"
    and room: "pg_room (cl_room_id l0) pg \<noteq> None"
    and es: "fd_events pg' = fd_events pg @ es" and now: "t0 \<le> now'"
  shows "lease_inv gc now' (log @ es) pg'"
  using op
proof (cases rule: reserve_cases)
  case 1 then show ?thesis using es lease_inv_later [OF inv now] by simp
next
  case (2 l n s)
  note fields = 2(1,2) and new = 2(3) and app = 2(4)
  let ?pg = "pg\<lparr>pg_leases := pg_leases pg @ [l]\<rparr>"
  note ann = announced_presence [OF app, simplified]
  show ?thesis
  proof (rule lease_inv_announced [OF inv _ ann _ es])
    show "occupancy_inv gc now' pg'"
      by (rule occupancy_admit [of t0 pg gc l, OF _ _ _ announced_tables [OF ann] now])
         (use free inv in \<open>simp_all add: fields lease_inv_def\<close>)
    show "distinct (map cl_connection_id (pg_leases ?pg))"
      using inv new by (auto simp: lease_inv_def lease_ids_def)
  qed (use inv room in \<open>auto simp: lease_inv_def lease_ids_def typing_ids_def pg_room_def fields\<close>)
qed

lemma reserve_events:
  assumes "reserve jsonb gc clk l pg = Inr (r, pg')" shows "\<exists>es. fd_events pg' = fd_events pg @ es"
  using assms
proof (cases rule: reserve_cases)
  case (2 l' n s)
  from announced_events [OF announced_presence [OF 2(4)]] show ?thesis by simp
qed simp

lemma admit_swept_cases:
  assumes "admit_swept jsonb gc clk l pg0 pg = (r, pg')"
  obtains "pg' = pg" | "pg' = pg0"
  | r' where "reserve jsonb gc (later_readings 1 clk) l pg = Inr (r', pg')"
    "int (total_count (clk 0) pg) < gc_max_connections gc"
    "int (room_active_count (clk 0) (cl_room_id l) pg) < gc_max_connections_per_room gc"
  using assms by (auto simp: admit_swept_def split: if_splits sum.splits prod.splits)

lemma lease_inv_acquire:
  assumes inv: "lease_inv gc now log pg"
    and op: "try_acquire jsonb gc clk locked connection_id instance_id room_id username subject pg = (r, pg')"
    and es: "fd_events pg' = fd_events pg @ es" and now: "\<And>k. now \<le> clk k \<and> clk k \<le> now'"
  shows "lease_inv gc now' (log @ es) pg'"
proof (cases "pg' = pg")
  case True then show ?thesis using es lease_inv_later [OF inv, of now'] now order_trans [of now "clk 0" now'] by simp
next
  case False
  let ?rows = "expired_leases (clk 1) locked ADMISSION_SWEEP_LIMIT (Some connection_id) pg"
  let ?pg1 = "delete_leases (set (map (cl_connection_id \<circ> fst) ?rows)) pg"
  let ?clk = "later_readings (2 + 3 * length ?rows) clk"
  obtain ts pg2 l where room: "room_open room_id pg" and app: "append_departures jsonb (later_readings 2 clk) ?rows ?pg1 = Inr (ts, pg2)"
    and admit: "admit_swept jsonb gc ?clk l pg pg2 = (r, pg')" and l: "cl_room_id l = room_id"
    using op False
    by (auto simp: try_acquire_def delete_expired_def Let_def split: sum.splits option.splits if_splits)
  obtain es1 where es1: "fd_events pg2 = fd_events pg @ es1"
    using announced_events [OF announced_departures [OF app]] by (auto simp: lease_ids_delete)
  have swept: "lease_inv gc t (log @ es1) pg2" if "now \<le> t" for t
    by (rule lease_inv_sweep [OF inv expired_flags app es1 that])
  from admit show ?thesis
  proof (cases rule: admit_swept_cases)
    case 1
    then show ?thesis using es es1 swept now order_trans [of now "clk 0" now'] by simp
  next
    case 2 with False show ?thesis by simp
  next
    case (3 r')
    have "pg_room room_id pg2 \<noteq> None"
      using room announced_tables [OF announced_departures [OF app]]
      by (auto simp: same_tables_def delete_leases_def room_open_def pg_room_def split: option.splits)
    moreover obtain es2 where es2: "es = es1 @ es2" "fd_events pg' = fd_events pg2 @ es2"
      using reserve_events [OF 3(1)] es es1 by auto
    ultimately have "lease_inv gc now' ((log @ es1) @ es2) pg'"
      by (intro lease_inv_reserve [OF swept 3(1)]) (use now 3(2,3) l in \<open>auto simp: later_readings_def\<close>)
    then show ?thesis by (simp add: es2)
  qed
qed

subsection \<open>Cursors and rooms\<close>

lemma cursor_tables [simp]:
  fixes pg :: pg
  shows "pg_leases (update_cursor i f pg) = pg_leases pg" "pg_typing (update_cursor i f pg) = pg_typing pg"
    "pg_rooms (update_cursor i f pg) = pg_rooms pg" "fd_events (update_cursor i f pg) = fd_events pg"
    "pg_leases (new_cursor i g t pg) = pg_leases pg" "pg_typing (new_cursor i g t pg) = pg_typing pg"
    "pg_rooms (new_cursor i g t pg) = pg_rooms pg" "fd_events (new_cursor i g t pg) = fd_events pg"
  by (simp_all add: update_cursor_def new_cursor_def)

text \<open>Whether a lease counts is a matter of its owner's row when the rooms are the same.\<close>

lemma usable_by_owner:
  assumes "usable now' pg' l" "pg_rooms pg' = pg_rooms pg" "now \<le> now'"
    and "\<And>c'. cursor_of (cl_instance_id l) pg' = Some c' \<Longrightarrow> cu_generation c' = cl_generation l \<Longrightarrow> live_cursor now' c' \<Longrightarrow>
      \<exists>c. cursor_of (cl_instance_id l) pg = Some c \<and> cu_generation c = cl_generation l \<and> live_cursor now c"
  shows "usable now pg l"
proof -
  obtain c' where c': "cursor_of (cl_instance_id l) pg' = Some c'" "cu_generation c' = cl_generation l" "live_cursor now' c'"
    using assms(1) by (auto simp: usable_def lease_owner_def split: option.splits if_splits)
  then obtain c where "cursor_of (cl_instance_id l) pg = Some c" "cu_generation c = cl_generation l" "live_cursor now c"
    using assms(4) by blast
  then show ?thesis using assms(1-3) by (simp add: usable_def lease_owner_def room_open_def pg_room_def)
qed

lemma claim_frame:
  fixes pg :: pg
  assumes "claim_instance clk fresh i secs g pg = Inr (r, pg')"
  shows "pg_leases pg' = pg_leases pg \<and> pg_typing pg' = pg_typing pg \<and> pg_rooms pg' = pg_rooms pg \<and> fd_events pg' = fd_events pg"
  using assms by (auto simp: claim_instance_def Let_def split: option.splits if_splits)

lemma claim_usable:
  assumes "claim_instance clk fresh i secs g pg = Inr (r, pg')" "now \<le> clk 0" "now \<le> now'" "cl_generation l \<noteq> fresh"
    "usable now' pg' l"
  shows "usable now pg l"
proof (rule usable_by_owner [OF assms(5) _ assms(3)])
  show "pg_rooms pg' = pg_rooms pg" using claim_frame [OF assms(1)] by simp
qed (use assms in \<open>auto simp: claim_instance_def Let_def live_cursor_def renewed_def cursor_of_new cursor_of_update
      split: option.splits if_splits\<close>)

lemma heartbeat_frame:
  fixes pg :: pg
  assumes "heartbeat_claimed_instance clk i g secs pg = Inr pg'"
  shows "pg_leases pg' = pg_leases pg \<and> pg_typing pg' = pg_typing pg \<and> pg_rooms pg' = pg_rooms pg \<and> fd_events pg' = fd_events pg"
  using assms by (auto simp: heartbeat_claimed_instance_def split: option.splits if_splits)

lemma heartbeat_usable:
  assumes "heartbeat_claimed_instance clk i g secs pg = Inr pg'" "now \<le> clk 0" "now \<le> now'" "usable now' pg' l"
  shows "usable now pg l"
proof (rule usable_by_owner [OF assms(4) _ assms(3)])
  show "pg_rooms pg' = pg_rooms pg" using heartbeat_frame [OF assms(1)] by simp
qed (use assms in \<open>auto simp: heartbeat_claimed_instance_def live_cursor_def renewed_def cursor_of_new cursor_of_update
      split: option.splits if_splits\<close>)

lemma release_instance_frame:
  fixes pg :: pg
  assumes "release_instance clk i g pg = Inr (r, pg')"
  shows "pg_leases pg' = pg_leases pg \<and> pg_typing pg' = pg_typing pg \<and> pg_rooms pg' = pg_rooms pg \<and> fd_events pg' = fd_events pg"
  using assms by (auto simp: release_instance_def split: option.splits if_splits)

lemma release_instance_usable:
  assumes "release_instance clk i g pg = Inr (r, pg')" "now \<le> clk 0" "now \<le> now'" "usable now' pg' l"
  shows "usable now pg l"
proof (rule usable_by_owner [OF assms(4) _ assms(3)])
  show "pg_rooms pg' = pg_rooms pg" using release_instance_frame [OF assms(1)] by simp
qed (use assms in \<open>auto simp: release_instance_def live_cursor_def renewed_def cursor_of_new cursor_of_update
      split: option.splits if_splits\<close>)

lemma resynchronize_frame:
  fixes pg :: pg
  assumes "resynchronize_claimed_instance clk i g g' secs pg = Inr (r, pg')"
  shows "pg_leases pg' = pg_leases pg \<and> pg_typing pg' = pg_typing pg \<and> pg_rooms pg' = pg_rooms pg \<and> fd_events pg' = fd_events pg"
  using assms by (auto simp: resynchronize_claimed_instance_def Let_def split: option.splits if_splits)

lemma resynchronize_usable:
  assumes "resynchronize_claimed_instance clk i g g' secs pg = Inr (r, pg')" "now \<le> now'" "cl_generation l \<noteq> g'"
    "usable now' pg' l"
  shows "usable now pg l"
proof (rule usable_by_owner [OF assms(4) _ assms(2)])
  show "pg_rooms pg' = pg_rooms pg" using resynchronize_frame [OF assms(1)] by simp
qed (use assms in \<open>auto simp: resynchronize_claimed_instance_def Let_def moved_to_head_def live_cursor_def renewed_def cursor_of_new cursor_of_update
      split: option.splits if_splits\<close>)

lemma acknowledge_frame:
  fixes pg :: pg
  assumes "acknowledge_events clk i n g pg = Inr (r, pg')"
  shows "pg_leases pg' = pg_leases pg \<and> pg_typing pg' = pg_typing pg \<and> pg_rooms pg' = pg_rooms pg \<and> fd_events pg' = fd_events pg"
  using assms by (auto simp: acknowledge_events_def split: option.splits if_splits)

lemma acknowledge_usable:
  assumes "acknowledge_events clk i n g pg = Inr (r, pg')" "now \<le> now'" "usable now' pg' l"
  shows "usable now pg l"
proof (rule usable_by_owner [OF assms(3) _ assms(2)])
  show "pg_rooms pg' = pg_rooms pg" using acknowledge_frame [OF assms(1)] by simp
qed (use assms in \<open>auto simp: acknowledge_events_def live_cursor_def renewed_def cursor_of_new cursor_of_update
      split: option.splits if_splits\<close>)

lemma lease_inv_frame:
  assumes inv: "lease_inv gc now log pg"
    and frame: "pg_leases pg' = pg_leases pg \<and> pg_typing pg' = pg_typing pg \<and> pg_rooms pg' = pg_rooms pg"
    and usable: "\<And>l. l \<in> set (pg_leases pg) \<Longrightarrow> usable now' pg' l \<Longrightarrow> usable now pg l"
  shows "lease_inv gc now' log pg'"
proof -
  have "occupancy_inv gc now' pg'"
  proof (rule occupancy_same_leases)
    show "occupancy_inv gc now pg" using inv by (simp add: lease_inv_def)
    show "pg_leases pg' = pg_leases pg" using frame by simp
  qed (rule usable)
  then show ?thesis using inv frame by (simp add: lease_inv_def lease_ids_def typing_ids_def pg_room_def)
qed

subsection \<open>Steps\<close>

definition archive_room :: "timestamp \<Rightarrow> pystr \<Rightarrow> pg \<Rightarrow> pg" where
  "archive_room now room_id pg = pg\<lparr>pg_rooms := update_where (\<lambda>r. ro_id r = room_id)
     (\<lambda>r. r\<lparr>ro_archived_at := Some now\<rparr>) (pg_rooms pg)\<rparr>"

definition membership_types :: "pystr set" where
  "membership_types = str ` {''presence.joined'', ''presence.left'', ''typing.started'', ''typing.stopped''}"

text \<open>
  One transaction of any process: the time of the last one, all events ever appended, and the tables. New
  generations are not those of a lease in the table. Rooms are created and archived. Two steps are left
  out: deleting a room, which drops its leases without events, and reopening one, which can make leases
  count again that no sweep has removed.
\<close>

inductive lease_step ::
  "registry_config \<Rightarrow> typing_config \<Rightarrow> timestamp \<times> realtime_event list \<times> pg \<Rightarrow> timestamp \<times> realtime_event list \<times> pg \<Rightarrow> bool"
  for gc :: registry_config and tc :: typing_config where
  registry_call: "(\<And>k. now \<le> clk k \<and> clk k \<le> now') \<Longrightarrow>
     (\<exists>locked c i r u s x. try_acquire jsonb gc clk locked c i r u s pg = (x, pg')) \<or>
     (\<exists>c i r x. renew gc clk c i r pg = Inr (x, pg')) \<or>
     (\<exists>c i x. release jsonb clk c i pg = Inr (x, pg')) \<or>
     (\<exists>locked n x. reap_expired_leases jsonb clk locked n pg = Inr (x, pg')) \<or>
     (\<exists>c i x. start_typing jsonb tc clk c i pg = Inr (x, pg')) \<or>
     (\<exists>c i x. stop_typing jsonb clk c i pg = Inr (x, pg')) \<or>
     (\<exists>locked n x. reap_expired_typing jsonb clk locked n pg = Inr (x, pg')) \<Longrightarrow>
     fd_events pg' = fd_events pg @ es \<Longrightarrow> lease_step gc tc (now, log, pg) (now', log @ es, pg')"
| cursor_call: "(\<And>k. now \<le> clk k \<and> clk k \<le> now') \<Longrightarrow> fresh \<notin> cl_generation ` set (pg_leases pg) \<Longrightarrow>
     (\<exists>i secs g x. claim_instance clk fresh i secs g pg = Inr (x, pg')) \<or>
     (\<exists>i g secs. heartbeat_claimed_instance clk i g secs pg = Inr pg') \<or>
     (\<exists>i g x. release_instance clk i g pg = Inr (x, pg')) \<or>
     (\<exists>i g secs x. resynchronize_claimed_instance clk i g fresh secs pg = Inr (x, pg')) \<or>
     (\<exists>i n g x. acknowledge_events clk i n g pg = Inr (x, pg')) \<Longrightarrow>
     lease_step gc tc (now, log, pg) (now', log, pg')"
| other_event: "append_event jsonb t room_id event_type payload pg = Inr (s, pg') \<Longrightarrow> event_type \<notin> membership_types \<Longrightarrow>
     fd_events pg' = fd_events pg @ es \<Longrightarrow> lease_step gc tc (now, log, pg) (now, log @ es, pg')"
| log_upkeep: "prune_events clk locked max_events max_age limit pg = Inr (x, pg') \<or> pg' = burn_sequence pg \<or>
     pg' = rewrite_payloads f pg \<Longrightarrow> lease_step gc tc (now, log, pg) (now, log, pg')"
| room_created: "pg_room (ro_id room) pg = None \<Longrightarrow>
     lease_step gc tc (now, log, pg) (now, log, pg\<lparr>pg_rooms := pg_rooms pg @ [room]\<rparr>)"
| room_archived: "lease_step gc tc (now, log, pg) (now, log, archive_room t room_id pg)"

lemma archive_room_open:
  "pg_room r (archive_room t room_id pg) =
     (if r = room_id then map_option (\<lambda>x. x\<lparr>ro_archived_at := Some t\<rparr>) (pg_room r pg) else pg_room r pg)"
  unfolding pg_room_def archive_room_def by (simp add: find_keyed_update [of ro_id])

lemma archive_room_usable:
  assumes "usable now (archive_room t room_id pg) l" shows "usable now pg l"
proof -
  have "cursor_of i (archive_room t room_id pg) = cursor_of i pg" for i
    by (rule cursor_of_cursors) (simp add: archive_room_def)
  then show ?thesis using assms
    by (auto simp: usable_def lease_owner_def room_open_def archive_room_open split: option.splits if_splits)
qed

lemma lease_inv_cursor_call:
  assumes inv: "lease_inv gc now log pg" and now: "\<And>k. now \<le> clk k \<and> clk k \<le> now'"
    and fresh: "fresh \<notin> cl_generation ` set (pg_leases pg)"
    and op: "(\<exists>i secs g x. claim_instance clk fresh i secs g pg = Inr (x, pg')) \<or>
     (\<exists>i g secs. heartbeat_claimed_instance clk i g secs pg = Inr pg') \<or>
     (\<exists>i g x. release_instance clk i g pg = Inr (x, pg')) \<or>
     (\<exists>i g secs x. resynchronize_claimed_instance clk i g fresh secs pg = Inr (x, pg')) \<or>
     (\<exists>i n g x. acknowledge_events clk i n g pg = Inr (x, pg'))"
  shows "lease_inv gc now' log pg'"
proof -
  have le: "now \<le> clk 0" "now \<le> now'" using now [of 0] by auto
  have gen: "cl_generation l \<noteq> fresh" if "l \<in> set (pg_leases pg)" for l using fresh that by auto
  have usable: "usable now pg l" if "l \<in> set (pg_leases pg)" "usable now' pg' l" for l
    using op
  proof (elim disjE exE)
    fix i secs g y assume "claim_instance clk fresh i secs g pg = Inr (y, pg')"
    then show ?thesis using le gen [OF that(1)] that(2) by (rule claim_usable)
  next
    fix i g secs assume "heartbeat_claimed_instance clk i g secs pg = Inr pg'"
    then show ?thesis using le that(2) by (rule heartbeat_usable)
  next
    fix i g y assume "release_instance clk i g pg = Inr (y, pg')"
    then show ?thesis using le that(2) by (rule release_instance_usable)
  next
    fix i g secs y assume "resynchronize_claimed_instance clk i g fresh secs pg = Inr (y, pg')"
    then show ?thesis using le(2) gen [OF that(1)] that(2) by (rule resynchronize_usable)
  next
    fix i n g y assume "acknowledge_events clk i n g pg = Inr (y, pg')"
    then show ?thesis using le(2) that(2) by (rule acknowledge_usable)
  qed
  have "pg_leases pg' = pg_leases pg \<and> pg_typing pg' = pg_typing pg \<and> pg_rooms pg' = pg_rooms pg"
    using op
    by (elim disjE exE) (drule claim_frame heartbeat_frame release_instance_frame resynchronize_frame acknowledge_frame, simp)+
  then show ?thesis by (rule lease_inv_frame [OF inv]) (rule usable)
qed

lemma lease_inv_registry_call:
  assumes inv: "lease_inv gc now log pg" and now: "\<And>k. now \<le> clk k \<and> clk k \<le> now'"
    and op: "(\<exists>locked c i r u s x. try_acquire jsonb gc clk locked c i r u s pg = (x, pg')) \<or>
     (\<exists>c i r x. renew gc clk c i r pg = Inr (x, pg')) \<or>
     (\<exists>c i x. release jsonb clk c i pg = Inr (x, pg')) \<or>
     (\<exists>locked n x. reap_expired_leases jsonb clk locked n pg = Inr (x, pg')) \<or>
     (\<exists>c i x. start_typing jsonb tc clk c i pg = Inr (x, pg')) \<or>
     (\<exists>c i x. stop_typing jsonb clk c i pg = Inr (x, pg')) \<or>
     (\<exists>locked n x. reap_expired_typing jsonb clk locked n pg = Inr (x, pg'))"
    and es: "fd_events pg' = fd_events pg @ es"
  shows "lease_inv gc now' (log @ es) pg'"
proof -
  have le: "now \<le> clk 0" "now \<le> now'" using now [of 0] by auto
  show ?thesis
    using op
  proof (elim disjE exE)
    fix locked c i r u s y assume "try_acquire jsonb gc clk locked c i r u s pg = (y, pg')"
    then show ?thesis using es now by (rule lease_inv_acquire [OF inv])
  next
    fix c i r y assume "renew gc clk c i r pg = Inr (y, pg')"
    then show ?thesis using lease_inv_renew [where clk = clk, OF inv _ le] es by simp
  next
    fix c i y assume "release jsonb clk c i pg = Inr (y, pg')"
    then show ?thesis using es le(2) by (rule lease_inv_release [OF inv])
  next
    fix locked n y assume "reap_expired_leases jsonb clk locked n pg = Inr (y, pg')"
    then show ?thesis using es le(2) by (rule lease_inv_reap [OF inv])
  next
    fix c i y assume "start_typing jsonb tc clk c i pg = Inr (y, pg')"
    then show ?thesis using es le(2) by (rule lease_inv_start_typing [OF inv])
  next
    fix c i y assume "stop_typing jsonb clk c i pg = Inr (y, pg')"
    then show ?thesis using es le(2) by (rule lease_inv_stop_typing [OF inv])
  next
    fix locked n y assume "reap_expired_typing jsonb clk locked n pg = Inr (y, pg')"
    then show ?thesis using es le(2) by (rule lease_inv_reap_typing [OF inv])
  qed
qed

lemma other_event_roster:
  assumes "re_event_type e \<notin> membership_types"
  shows "roster [e] S = S" "typists [e] S = S"
  using assms by (auto simp: roster_def typists_def toggle_member_def membership_types_def split: option.splits)

lemma lease_inv_other_event:
  assumes inv: "lease_inv gc now log pg" and op: "append_event jsonb t room_id event_type payload pg = Inr (s, pg')"
    and other: "event_type \<notin> membership_types" and es: "fd_events pg' = fd_events pg @ es"
  shows "lease_inv gc now (log @ es) pg'"
proof -
  obtain e where e: "fd_events pg' = fd_events pg @ [e]" "re_event_type e = event_type" and same: "same_tables pg pg'"
    using append_event_frame [OF op] by blast
  have ann: "announced pg pg' (\<lambda>S. S) (\<lambda>S. S)"
    using same e other other_event_roster [of e] by (auto simp: announced_def)
  show ?thesis
    by (rule lease_inv_announced [OF inv _ ann refl es])
       (use inv same in \<open>auto simp: lease_inv_def same_tables_def intro: occupancy_frame\<close>)
qed

lemma prune_frame:
  fixes pg :: pg
  assumes "prune_events clk locked max_events max_age limit pg = Inr (x, pg')"
  shows "same_tables pg pg'"
  using assms by (auto simp: prune_events_def Let_def same_tables_def split: if_splits)

lemma lease_inv_log_upkeep:
  assumes inv: "lease_inv gc now log pg" and "same_tables pg pg'"
  shows "lease_inv gc now log pg'"
  by (rule lease_inv_frame [OF inv]) (use assms(2) in \<open>auto simp: same_tables_def usable_cong [of pg' pg]\<close>)

lemma lease_inv_room_created:
  assumes inv: "lease_inv gc now log pg" and new: "pg_room (ro_id room) pg = None"
  shows "lease_inv gc now log (pg\<lparr>pg_rooms := pg_rooms pg @ [room]\<rparr>)"
proof -
  let ?pg = "pg\<lparr>pg_rooms := pg_rooms pg @ [room]\<rparr>"
  have room: "pg_room (cl_room_id l) ?pg = pg_room (cl_room_id l) pg" if "l \<in> set (pg_leases pg)" for l
    using that inv new by (auto simp: lease_inv_def pg_room_def find_snoc split: option.splits)
  have "usable now pg l" if "l \<in> set (pg_leases pg)" "usable now ?pg l" for l
    using that room [OF that(1)] cursor_of_cursors [of ?pg pg] by (simp add: usable_def lease_owner_def room_open_def)
  then have "occupancy_inv gc now ?pg"
    using inv by (intro occupancy_same_leases [of gc now pg ?pg now]) (simp_all add: lease_inv_def)
  then show ?thesis using inv room by (simp add: lease_inv_def lease_ids_def typing_ids_def)
qed

lemma lease_inv_room_archived:
  assumes inv: "lease_inv gc now log pg"
  shows "lease_inv gc now log (archive_room t room_id pg)"
proof -
  let ?pg = "archive_room t room_id pg"
  have same: "pg_leases ?pg = pg_leases pg" "pg_typing ?pg = pg_typing pg" by (simp_all add: archive_room_def)
  have "occupancy_inv gc now ?pg"
    by (rule occupancy_same_leases [of gc now pg]) (use inv same archive_room_usable in \<open>auto simp: lease_inv_def\<close>)
  then show ?thesis using inv same by (auto simp: lease_inv_def lease_ids_def typing_ids_def archive_room_open)
qed

lemma lease_inv_step:
  assumes "lease_step gc tc (now, log, pg) (now', log', pg')" "lease_inv gc now log pg"
  shows "lease_inv gc now' log' pg'"
  using assms(1)
proof cases
  case (registry_call clk jsonb es)
  then show ?thesis using lease_inv_registry_call [OF assms(2) registry_call(2,3)] by simp
next
  case (cursor_call clk fresh)
  then show ?thesis using lease_inv_cursor_call [OF assms(2) cursor_call(2,3)] by simp
next
  case (other_event jsonb t room_id event_type payload s es)
  then show ?thesis using lease_inv_other_event [OF assms(2)] by simp
next
  case (log_upkeep clk locked max_events max_age limit x f)
  have "same_tables pg pg'"
    using log_upkeep(3)
    by (elim disjE) (rule prune_frame, assumption, simp_all add: same_tables_def burn_sequence_def rewrite_payloads_def)
  then show ?thesis using lease_inv_log_upkeep [OF assms(2)] log_upkeep by simp
next
  case (room_created room)
  then show ?thesis using lease_inv_room_created [OF assms(2)] by simp
next
  case (room_archived t room_id)
  then show ?thesis using lease_inv_room_archived [OF assms(2)] by simp
qed

inductive lease_reachable :: "registry_config \<Rightarrow> typing_config \<Rightarrow> timestamp \<times> realtime_event list \<times> pg \<Rightarrow> bool"
  for gc :: registry_config and tc :: typing_config where
  no_leases: "PostgresConnectionRegistry gc = Inr gc \<Longrightarrow> pg_leases pg = [] \<Longrightarrow> pg_typing pg = [] \<Longrightarrow>
     lease_reachable gc tc (now, [], pg)"
| lease_next: "lease_reachable gc tc (now, log, pg) \<Longrightarrow> lease_step gc tc (now, log, pg) (now', log', pg') \<Longrightarrow>
     lease_reachable gc tc (now', log', pg')"

lemma lease_inv_reachable: "lease_reachable gc tc (now, log, pg) \<Longrightarrow> lease_inv gc now log pg"
proof (induction "(now, log, pg)" arbitrary: now log pg rule: lease_reachable.induct)
  case no_leases
  then show ?case
    by (auto simp: lease_inv_def occupancy_inv_def total_count_def room_active_count_def lease_ids_def typing_ids_def
        roster_def typists_def PostgresConnectionRegistry_def split: if_splits)
next
  case lease_next then show ?case by (blast intro: lease_inv_step)
qed



subsection \<open>A run\<close>

definition one_connection :: registry_config where
  "one_connection = \<lparr>gc_max_connections = 1, gc_max_connections_per_room = 1, gc_lease_seconds = 30\<rparr>"

definition eight_seconds :: typing_config where
  "eight_seconds = \<lparr>tc_timeout = PyFinite 8 1 (str ''8.0''), tc_timeout_micros = 8000000\<rparr>"

definition one_room :: pg where
  "one_room = \<lparr>fd_events = [], fd_next_sequence = 1, fd_pruned_through = 0,
     fd_cursors = [\<lparr>cu_instance_id = [97], cu_generation = 7, cu_last_sequence = 0, cu_lease_expires_at = 60000000\<rparr>],
     pg_rooms = [\<lparr>ro_id = [108], ro_name = [108], ro_description = [], ro_created_at = 0, ro_archived_at = None, ro_frozen_at = None\<rparr>],
     pg_leases = [], pg_typing = []\<rparr>"

definition one_lease :: lease_row where
  "one_lease = \<lparr>cl_connection_id = [99], cl_instance_id = [97], cl_generation = 7, cl_room_id = [108], cl_username = [117],
     cl_subject = None, cl_lease_expires_at = 31000000, cl_created_at = 1000000\<rparr>"

definition joined_event :: realtime_event where
  "joined_event = \<lparr>re_sequence = 1, re_room_id = [108], re_event_type = str ''presence.joined'',
     re_payload = presence_payload True [117] 1 [99], re_created_at = 1000000\<rparr>"

definition one_joined :: pg where
  "one_joined = one_room\<lparr>fd_events := [joined_event], fd_next_sequence := 2, pg_leases := [one_lease]\<rparr>"

lemmas sample_lease_defs = one_connection_def one_room_def one_lease_def joined_event_def one_joined_def

lemma joined_event_valid: "validate_event [108] (str ''presence.joined'') (presence_payload True [117] (Suc 0) [99]) =
    Inr (presence_payload True [117] (Suc 0) [99])"
  by (simp add: validate_event_def ROOM_ID_PATTERN_def EVENT_TYPE_PATTERN_def head_tail_def char_class_defs str_def
      presence_payload_def utf8_encode_def utf8_bytes_def surrogate_def json_string_def json_escape_def hex_digit_def
      decimal_def digits_rev.simps [of "Suc 0"] MAX_EVENT_PAYLOAD_BYTES_def)

lemma sample_acquire:
  "try_acquire (\<lambda>v. True) one_connection (\<lambda>k. 1000000) (\<lambda>c. False) [99] [97] [108] [117] None one_room =
     (Inr (Some (lease_from_row one_lease 1)), one_joined)"
  by (simp add: try_acquire_def validate_connection_def validate_connection_id_def validate_instance_id_def
      INSTANCE_ID_PATTERN_def ROOM_ID_PATTERN_def head_tail_def char_class_defs live_generation_def cursor_of_def
      live_cursor_def room_open_def pg_room_def delete_expired_def expired_leases_def order_by_def delete_leases_def
      append_departures_def admit_swept_def total_count_def room_active_count_def reserve_def later_readings_def Let_def
      seconds_delta_def microseconds_def append_presence_def append_event_def joined_event_valid
      usable_def lease_owner_def sample_lease_defs lease_from_row_def)

lemma sample_joined: "lease_reachable one_connection eight_seconds (1000000, [joined_event], one_joined)"
proof (rule lease_next [of _ _ 1000000 "[]" one_room])
  show "lease_reachable one_connection eight_seconds (1000000, [], one_room)"
    by (rule no_leases) (simp_all add: sample_lease_defs PostgresConnectionRegistry_def)
  have "lease_step one_connection eight_seconds (1000000, [], one_room) (1000000, [] @ [joined_event], one_joined)"
  proof (rule registry_call [where clk = "\<lambda>k. 1000000" and jsonb = "\<lambda>v. True"])
    show "fd_events one_joined = fd_events one_room @ [joined_event]" by (simp add: one_joined_def one_room_def)
  qed (use sample_acquire in auto)
  then show "lease_step one_connection eight_seconds (1000000, [], one_room) (1000000, [joined_event], one_joined)" by simp
qed



end
