(* ===== verification/Pg_Runtime_Properties.thy ===== *)
theory Pg_Runtime_Properties
  imports Pg_Runtime Pg_Lease_Properties
begin

section \<open>Admission of a socket\<close>

text \<open>
  An admission on PostgreSQL is all or nothing: a registered socket has its reservation and its token, and
  an admission that fails leaves neither, unless the database cannot be reached to release it.
\<close>

subsection \<open>Reservations\<close>

lemma reserve_result:
  assumes "reserve jsonb gc clk l0 pg = Inr (r, pg')"
  shows "(\<exists>e. r = Inl e \<and> pg' = pg) \<or>
    (\<exists>lease l. r = Inr lease \<and> pg_leases pg' = pg_leases pg @ [l] \<and> cl_connection_id l = cl_connection_id l0 \<and>
       cl_instance_id l = cl_instance_id l0 \<and> cl_generation lease = cl_generation l0)"
  using assms unfolding reserve_def Let_def
  by (auto simp: lease_from_row_def same_tables_def dest!: announced_tables [OF announced_presence] split: if_splits prod.splits)

lemma departures_leases:
  "append_departures jsonb clk rows pg = Inr (ts, pg') \<Longrightarrow> pg_leases pg' = pg_leases pg"
  using announced_tables [OF announced_departures] by (auto simp: same_tables_def)

definition leased_by :: "pystr \<Rightarrow> pystr \<Rightarrow> pg \<Rightarrow> bool" where
  "leased_by c i pg \<longleftrightarrow> (\<exists>l\<in>set (pg_leases pg). cl_connection_id l = c \<and> cl_instance_id l = i)"

lemma acquire_steps:
  assumes op: "try_acquire jsonb gc clk locked c i room_id username subject pg = (r, pg')"
  obtains e where "r = Inl e" "pg' = pg"
    | clk' l pg2 where "pg_leases pg2 = filter (\<lambda>l. cl_connection_id l \<notin>
        set (map (cl_connection_id \<circ> fst) (expired_leases (clk 1) locked ADMISSION_SWEEP_LIMIT (Some c) pg))) (pg_leases pg)"
      "cl_connection_id l = c" "cl_instance_id l = i" "admit_swept jsonb gc clk' l pg pg2 = (r, pg')"
proof (cases "validate_connection c i room_id username subject")
  case (Inl e)
  then show ?thesis using op that(1) by (auto simp: try_acquire_def)
next
  case valid: (Inr u)
  show ?thesis
  proof (cases "live_generation (clk 0) i pg")
    case None
    then show ?thesis using op valid that(1) by (auto simp: try_acquire_def)
  next
    case (Some generation)
    let ?rows = "expired_leases (clk 1) locked ADMISSION_SWEEP_LIMIT (Some c) pg"
    let ?pg1 = "delete_leases (set (map (cl_connection_id \<circ> fst) ?rows)) pg"
    show ?thesis
    proof (cases "append_departures jsonb (later_readings 2 clk) ?rows ?pg1")
      case (Inl e)
      then show ?thesis using op valid Some that(1)
        by (auto simp: try_acquire_def delete_expired_def Let_def split: if_splits)
    next
      case (Inr x)
      obtain ts pg2 where x: "x = (ts, pg2)" by (cases x)
      with Inr have leases: "pg_leases pg2 = pg_leases ?pg1" using departures_leases by simp
      show ?thesis
      proof (cases "room_open room_id pg")
        case False
        then show ?thesis using op valid Some that(1) by (auto simp: try_acquire_def)
      next
        case True
        let ?l = "\<lparr>cl_connection_id = c, cl_instance_id = i, cl_generation = generation, cl_room_id = room_id,
            cl_username = username, cl_subject = subject, cl_lease_expires_at = 0, cl_created_at = 0\<rparr>"
        have "admit_swept jsonb gc (later_readings (2 + 3 * length ?rows) clk) ?l pg pg2 = (r, pg')"
          using op valid Some Inr True by (simp add: x try_acquire_def delete_expired_def Let_def)
        then show ?thesis using leases by (intro that(2) [of pg2 ?l]) (simp_all add: delete_leases_def)
      qed
    qed
  qed
qed

lemma admit_result:
  assumes op: "admit_swept jsonb gc clk l pg pg2 = (r, pg')" and new: "cl_connection_id l \<notin> lease_ids pg"
    "cl_connection_id l \<notin> lease_ids pg2"
  shows "(cl_connection_id l \<in> lease_ids pg' \<longleftrightarrow> (\<exists>lease. r = Inr (Some lease))) \<and>
    (cl_connection_id l \<in> lease_ids pg' \<longrightarrow> leased_by (cl_connection_id l) (cl_instance_id l) pg')"
proof (cases "reserve jsonb gc (later_readings 1 clk) l pg2")
  case (Inl e)
  then show ?thesis using assms by (auto simp: admit_swept_def split: if_splits)
next
  case (Inr x)
  obtain q pg3 where x: "x = (q, pg3)" by (cases x)
  from reserve_result [OF Inr [unfolded x]] show ?thesis
  proof
    assume "\<exists>e. q = Inl e \<and> pg3 = pg2"
    then show ?thesis using assms Inr x by (auto simp: admit_swept_def split: if_splits)
  next
    assume "\<exists>lease l'. q = Inr lease \<and> pg_leases pg3 = pg_leases pg2 @ [l'] \<and> cl_connection_id l' = cl_connection_id l \<and>
       cl_instance_id l' = cl_instance_id l \<and> cl_generation lease = cl_generation l"
    then show ?thesis using assms Inr x by (auto simp: admit_swept_def lease_ids_def leased_by_def split: if_splits)
  qed
qed

lemma leased_has_id: "leased_by c i pg \<Longrightarrow> c \<in> lease_ids pg"
  by (auto simp: leased_by_def lease_ids_def)

text \<open>A reservation is made exactly when it is returned, and in the name of the caller.\<close>

lemma acquire_result:
  assumes op: "try_acquire jsonb gc clk locked c i room_id username subject pg = (r, pg')" and new: "c \<notin> lease_ids pg"
  shows "(c \<in> lease_ids pg' \<longleftrightarrow> (\<exists>lease. r = Inr (Some lease))) \<and> (c \<in> lease_ids pg' \<longrightarrow> leased_by c i pg')"
  using op
proof (cases rule: acquire_steps)
  case (1 e)
  with new show ?thesis by simp
next
  case (2 clk' l pg2)
  then have "c \<notin> lease_ids pg2" using new by (auto simp: lease_ids_def)
  with admit_result [OF 2(4)] 2 new show ?thesis by simp
qed

lemma release_result:
  assumes "release jsonb clk c i pg = Inr (b, pg')" "c \<in> lease_ids pg \<Longrightarrow> leased_by c i pg"
  shows "c \<notin> lease_ids pg'"
proof (cases "find (\<lambda>l. cl_connection_id l = c \<and> cl_instance_id l = i) (pg_leases pg)")
  case None
  then have "\<not> leased_by c i pg" by (auto simp: leased_by_def find_None_iff)
  moreover have "pg' = pg" using assms(1) None by (simp add: release_def)
  ultimately show ?thesis using assms(2) by blast
next
  case (Some l)
  obtain t where "append_departure jsonb clk (l, is_typing pg c) (delete_leases {c} pg) = Inr (t, pg')"
    using assms(1) Some by (auto simp: release_def split: prod.splits)
  from announced_tables [OF announced_departure [OF this]] have "lease_ids pg' = lease_ids (delete_leases {c} pg)"
    by (simp add: same_tables_def lease_ids_def)
  then show ?thesis by (simp add: lease_ids_delete)
qed

subsection \<open>Admissions\<close>

lemma acquire_call_result:
  assumes call: "acquire_call ai (try_acquire jsonb gc clk locked c i room_id username subject pg) pg = (r, pg1)"
    and new: "c \<notin> lease_ids pg"
  shows "(c \<in> lease_ids pg1 \<longrightarrow> leased_by c i pg1) \<and>
    (\<forall>lease. r = Inr (Some lease) \<longrightarrow>
       try_acquire jsonb gc clk locked c i room_id username subject pg = (Inr (Some lease), pg1) \<and> c \<in> lease_ids pg1) \<and>
    (r = Inr None \<longrightarrow> c \<notin> lease_ids pg1) \<and>
    (\<forall>e. r = Inl e \<longrightarrow> \<not> reservation_possible e \<longrightarrow> c \<notin> lease_ids pg1)"
proof -
  obtain q pg2 where op: "try_acquire jsonb gc clk locked c i room_id username subject pg = (q, pg2)"
    by (cases "try_acquire jsonb gc clk locked c i room_id username subject pg")
  note result = acquire_result [OF op new]
  show ?thesis
  proof (cases "ai_fate ai")
    case Answered
    then show ?thesis using call op result by (auto simp: acquire_call_def split: sum.splits)
  next
    case NotSent
    then show ?thesis using call new by (auto simp: acquire_call_def reservation_possible_def)
  next
    case ReplyLost
    then show ?thesis using call op result by (auto simp: acquire_call_def reservation_possible_def split: if_splits)
  qed
qed

text \<open>What peers commit meanwhile neither reserves this id nor hands its reservation to another process.\<close>

definition leaves_alone :: "(pg \<Rightarrow> pg) \<Rightarrow> pystr \<Rightarrow> pystr \<Rightarrow> bool" where
  "leaves_alone f c i \<longleftrightarrow>
     (\<forall>pg. (c \<in> lease_ids pg \<longrightarrow> leased_by c i pg) \<longrightarrow> c \<in> lease_ids (f pg) \<longrightarrow> leased_by c i pg \<and> leased_by c i (f pg))"

lemma leaves_aloneD:
  assumes "leaves_alone f c i" "c \<in> lease_ids pg \<longrightarrow> leased_by c i pg"
  shows "c \<in> lease_ids (f pg) \<longrightarrow> leased_by c i (f pg)" "c \<notin> lease_ids pg \<Longrightarrow> c \<notin> lease_ids (f pg)"
  using assms leased_has_id [of c i] unfolding leaves_alone_def by blast+

lemma admission_failed_result:
  assumes out: "admission_failed jsonb ai c i possible r m pg = out" and owner: "c \<in> lease_ids pg \<longrightarrow> leased_by c i pg"
    and sure: "\<not> possible \<Longrightarrow> c \<notin> lease_ids pg" and failed: "r \<noteq> Inr True"
  shows "ao_result out \<noteq> Inr True \<and> ao_manager out = m \<and>
    ((\<forall>e. ao_released out \<noteq> Some (Inl e)) \<longrightarrow> c \<notin> lease_ids (ao_tables out))"
proof (cases possible)
  case False
  then show ?thesis using assms by (auto simp: admission_failed_def)
next
  case True
  obtain q pg1 where rc: "release_connection jsonb (ai_release_clk ai) (ai_release_fate ai) c i pg = (q, pg1)"
    by (cases "release_connection jsonb (ai_release_clk ai) (ai_release_fate ai) c i pg")
  obtain q0 pg0 where call: "database_call (ai_release_fate ai) (release jsonb (ai_release_clk ai) c i pg) pg = (q0, pg0)"
    by (cases "database_call (ai_release_fate ai) (release jsonb (ai_release_clk ai) c i pg) pg")
  have same: "pg1 = pg0" using rc call by (auto simp: release_connection_def split: sum.splits)
  have "c \<notin> lease_ids pg0" if b: "q0 = Inr b" for b
    using call b owner by (auto simp: database_call_def split: fate.splits sum.splits dest!: release_result)
  then show ?thesis using out True rc call same failed
    by (cases q0) (auto simp: admission_failed_def Let_def split: sum.splits)
qed

text \<open>
  C12. An admission is all or nothing over the tables, the relay and the manager. If it answers \<open>True\<close>, the
  reservation was committed in the name of this process, the same admission token stood before it and at
  the registration, in the generation of the reservation, and the socket is registered to be sent the
  events behind its own join. In every other case - full, refused, a lost connection before or behind the
  commit, a cancelled task, a fence in between - the manager does not know the socket, and no reservation
  is left unless the releasing call itself could not be completed.
\<close>

theorem admission_all_or_nothing:
  assumes new: "connection_id \<notin> lease_ids pg"
    and peers: "leaves_alone (ai_meanwhile ai) connection_id instance_id"
    and out: "admit_connection jsonb gc lim ai ws connection_id instance_id room_id username subject permissions m pg = out"
  shows "(ao_result out = Inr True \<longrightarrow>
      (\<exists>lease pg1 a. try_acquire jsonb gc (ai_clk ai) (ai_locked ai) connection_id instance_id room_id username subject pg =
           (Inr (Some lease), pg1) \<and> leased_by connection_id instance_id pg1 \<and> ao_tables out = ai_meanwhile ai pg1 \<and>
         admission_token (ai_now ai) (ai_relay ai) = admission_token (ai_now_after ai) (ai_relay_after ai) \<and>
         map_option fst (admission_token (ai_now ai) (ai_relay ai)) = Some (cl_generation lease) \<and>
         map_of (mg_metadata (ao_manager out)) ws = Some a \<and> a < length (mg_heap (ao_manager out)) \<and>
         cn_after_sequence (mg_heap (ao_manager out) ! a) = Some (int (cl_admission_sequence lease)))) \<and>
    (ao_result out \<noteq> Inr True \<longrightarrow> mg_metadata (ao_manager out) = mg_metadata m \<and>
      ((\<forall>e. ao_released out \<noteq> Some (Inl e)) \<longrightarrow> connection_id \<notin> lease_ids (ao_tables out)))"
proof (cases "admission_token (ai_now ai) (ai_relay ai)")
  case None
  then show ?thesis using out new by (auto simp: admit_connection_def)
next
  case token: (Some token)
  let ?op = "try_acquire jsonb gc (ai_clk ai) (ai_locked ai) connection_id instance_id room_id username subject pg"
  obtain r pg1 where call: "acquire_call ai ?op pg = (r, pg1)" by (cases "acquire_call ai ?op pg")
  note result = acquire_call_result [OF call new]
  have owner: "connection_id \<in> lease_ids pg1 \<longrightarrow> leased_by connection_id instance_id pg1" using result by blast
  note later = leaves_aloneD [OF peers owner]
  consider (failed) e where "r = Inl e" | (full) "r = Inr None" | (leased) lease where "r = Inr (Some lease)"
    by (cases r) (metis option.exhaust)+
  then show ?thesis
  proof cases
    case failed
    have "admission_failed jsonb ai connection_id instance_id (reservation_possible e) (Inl e) m (ai_meanwhile ai pg1) = out"
      using out token call failed by (simp add: admit_connection_def)
    then show ?thesis using admission_failed_result [OF _ later(1), of _ _ _ _ _ out] later(2) result failed by auto
  next
    case full
    then show ?thesis using out token call result by (auto simp: admit_connection_def)
  next
    case leased
    let ?ok = "admission_check ai token lease"
    let ?obj = "new_connection room_id username subject permissions (Some connection_id) False (Some (int (cl_admission_sequence lease)))"
    have "\<exists>x. register lim ws ?obj (Some ?ok) m = Inr x"
      by (simp add: register_def validate_sequence_def new_connection_def)
    then obtain b m' where reg: "register lim ws ?obj (Some ?ok) m = Inr (b, m')" by auto
    show ?thesis
    proof (cases b)
      case True
      then have "?ok" and reg': "mg_metadata m' = mg_metadata m @ [(ws, length (mg_heap m))]"
          "mg_heap m' = mg_heap m @ [?obj]" "map_of (mg_metadata m) ws = None"
        using reg by (auto simp: register_def Let_def validate_sequence_def new_connection_def split: if_splits)
      moreover have "out = \<lparr>ao_result = Inr True, ao_tables = ai_meanwhile ai pg1, ao_manager = m', ao_released = None\<rparr>"
        using out token call leased reg True by (simp add: admit_connection_def Let_def)
      ultimately show ?thesis using result leased token
        by (auto simp: admission_check_def new_connection_def map_add_def split: option.splits)
    next
      case False
      have same: "mg_metadata m' = mg_metadata m"
        using reg False by (auto simp: register_def Let_def validate_sequence_def split: if_splits)
      have "admission_failed jsonb ai connection_id instance_id True
          (if \<not> ?ok then Inl (DatabaseRaised PostgresUnavailableError) else Inr False) m' (ai_meanwhile ai pg1) = out"
        using out token call leased reg False by (simp add: admit_connection_def Let_def)
      from admission_failed_result [OF this later(1)] show ?thesis using same by auto
    qed
  qed
qed

subsection \<open>A run\<close>

definition serving_relay :: relay where
  "serving_relay = new_relay\<lparr>rl_cursor := Some 0, rl_generation := Some 7, rl_next_heartbeat := 11000000,
     rl_lease_deadline := 31000000, rl_admission_epoch := 1\<rparr>"

definition quiet_admission :: admission_input where
  "quiet_admission = \<lparr>ai_relay = serving_relay, ai_now = 1000000, ai_clk = (\<lambda>k. 1000000), ai_locked = (\<lambda>c. False),
     ai_fate = Answered, ai_cancelled = False, ai_meanwhile = (\<lambda>pg. pg), ai_relay_after = serving_relay,
     ai_now_after = 1000000, ai_release_clk = (\<lambda>k. 1000000), ai_release_fate = NotSent\<rparr>"

definition nobody :: manager where
  "nobody = \<lparr>mg_pending_bytes = 0, mg_rooms = Map.empty, mg_metadata = [], mg_heap = []\<rparr>"

definition one_socket :: limits where
  "one_socket = \<lparr>max_connections = 1, max_per_room = 1, max_pending_events = 2, max_pending_bytes = 10,
     max_total_pending_bytes = 10\<rparr>"

text \<open>The socket is admitted, and admitting the same again behind a fence leaves no reservation.\<close>

definition fenced_admission :: admission_input where
  "fenced_admission = quiet_admission\<lparr>ai_fate := NotSent, ai_release_fate := Answered\<rparr>"

lemmas admission_defs = quiet_admission_def fenced_admission_def serving_relay_def new_relay_def nobody_def one_socket_def

lemma serving_token: "admission_token 1000000 serving_relay = Some (7, 1)"
  by (simp add: admission_token_def ready_def serving_relay_def new_relay_def)

lemma sample_admission:
  "admit_connection (\<lambda>v. True) one_connection one_socket quiet_admission 5 [99] [97] [108] [117] None {} nobody one_room =
     \<lparr>ao_result = Inr True, ao_tables = one_joined,
      ao_manager = \<lparr>mg_pending_bytes = 0, mg_rooms = [[108] \<mapsto> {5}], mg_metadata = [(5, 0)],
        mg_heap = [new_connection [108] [117] None {} (Some [99]) False (Some 1)]\<rparr>, ao_released = None\<rparr>"
  by (simp add: admit_connection_def quiet_admission_def serving_token acquire_call_def sample_acquire admission_check_def
      register_def validate_sequence_def new_connection_def lease_from_row_def one_lease_def nobody_def one_socket_def room_set_def Let_def)

lemma sample_refusal:
  "admit_connection (\<lambda>v. True) one_connection one_socket fenced_admission 5 [99] [97] [108] [117] None {} nobody one_room =
     \<lparr>ao_result = Inl (DatabaseRaised PostgresUnavailableError), ao_tables = one_room, ao_manager = nobody,
      ao_released = Some (Inr False)\<rparr>"
  by (simp add: admit_connection_def fenced_admission_def quiet_admission_def serving_token acquire_call_def sample_acquire
      admission_failed_def reservation_possible_def release_connection_def database_call_def release_def one_room_def Let_def
      validate_connection_id_def validate_instance_id_def INSTANCE_ID_PATTERN_def head_tail_def char_class_defs)

theorem admission_all_or_nothing_witness:
  "(\<exists>lease pg1. try_acquire (\<lambda>v. True) one_connection (\<lambda>k. 1000000) (\<lambda>c. False) [99] [97] [108] [117] None one_room =
      (Inr (Some lease), pg1) \<and> leased_by [99] [97] pg1 \<and> cl_generation lease = 7) \<and> [99] \<notin> lease_ids one_room"
proof -
  have new: "[99] \<notin> lease_ids one_room" by (simp add: lease_ids_def one_room_def)
  moreover have "leaves_alone (ai_meanwhile quiet_admission) [99] [97]" "leaves_alone (ai_meanwhile fenced_admission) [99] [97]"
    by (auto simp: leaves_alone_def quiet_admission_def fenced_admission_def)
  ultimately show ?thesis
    using admission_all_or_nothing [OF new _ sample_admission] admission_all_or_nothing [OF new _ sample_refusal]
    by (auto simp: quiet_admission_def serving_token)
qed

end
