(* ===== verification/Pg_Store.thy ===== *)
theory Pg_Store
  imports Pg_Events Store_System
begin

section \<open>The PostgreSQL store: state and shared statements (postgres_store.py)\<close>

text \<open>
  The store of \<open>samsarix_chat_engine/postgres_store.py\<close>. Its tables have the columns of the SQLite
  store's, so they are the record \<open>db\<close> of it, beside the event log; the two lease columns of a webhook
  delivery, set and cleared together by a table check, are a list of their own. A statement that both
  stores have is the same definition; what is different in PostgreSQL is written out: two clock readings
  in the member check, the log events each change appends, the scrubbing of retained events, claims of
  deliveries. The leases and typing states that a deleted room takes along are in \<open>Pg_Leases\<close>.

  A method is one transaction, so an exception leaves the state as it was. Text is compared by code
  points. The driver refuses a parameter with a NUL character; here an insert of it is refused, and a
  lookup by it finds nothing. PostgreSQL's own functions, what a JSONB column takes and the length of its text, are
  arguments, and so is \<open>_normalize_search_text\<close>, of which a row's search column is a function. \<open>isoformat\<close>
  gives the datetimes in JSON.
\<close>

subsection \<open>State and errors\<close>

record pg_store = foundation +
  ps_tables :: db
  ps_leases :: "(pystr \<times> pystr \<times> timestamp) list"

record pg_env = env +
  now_muted :: timestamp
  now_event :: timestamp
  now_event2 :: timestamp

record pg_functions =
  px_jsonb :: "json \<Rightarrow> bool"
  px_octets :: "json \<Rightarrow> nat"
  px_search :: "pystr \<Rightarrow> pystr"
  px_isoformat :: "timestamp \<Rightarrow> pystr"

datatype pg_store_error = StoreRaised store_error | FoundationRaised pg_error

text \<open>An integrity error of the database reaches the caller as \<open>PostgresFoundationError\<close>.\<close>

definition raised :: "store_error + 'a \<Rightarrow> pg_store_error + 'a" where
  "raised r = (case r of Inr v \<Rightarrow> Inr v
     | Inl e \<Rightarrow> Inl (if e = IntegrityError then FoundationRaised (PostgresFoundationError ''operation'') else StoreRaised e))"

definition raised_foundation :: "pg_error + 'a \<Rightarrow> pg_store_error + 'a" where
  "raised_foundation r = (case r of Inr v \<Rightarrow> Inr v | Inl e \<Rightarrow> Inl (FoundationRaised e))"

record pg_store_options =
  po_config :: store_config
  po_worker_id :: pystr
  po_webhook_lease_seconds :: int

definition PostgresChatStore :: "pg_store_options \<Rightarrow> pg_store_error + pg_store_options" where
  "PostgresChatStore po = (let cfg = po_config po; bad = (\<lambda>text. Inl (StoreRaised (ArgumentError text))) in
     if max_rooms cfg < 1 then bad ''PostgreSQL room capacity must be positive''
     else if max_stored_messages cfg < 1 \<or> max_stored_messages_per_room cfg < 1
     then bad ''PostgreSQL message capacities must be positive''
     else if max_stored_messages cfg < max_stored_messages_per_room cfg
     then bad ''per-room message capacity cannot exceed global capacity''
     else if message_retention_days cfg = Some 0 then bad ''message retention days must be positive''
     else if max_read_states_per_room cfg < 1 then bad ''PostgreSQL read-state capacity must be positive''
     else if max_audit_events cfg < 1 then bad ''PostgreSQL audit capacity must be positive''
     else if max_webhook_deliveries cfg < 1 then bad ''PostgreSQL webhook capacity must be positive''
     else if \<not> (31 \<le> po_webhook_lease_seconds po \<and> po_webhook_lease_seconds po \<le> 300)
     then bad ''PostgreSQL webhook lease must be between 31 and 300 seconds''
     else if \<not> (1 \<le> length (po_worker_id po) \<and> length (po_worker_id po) \<le> 128)
     then bad ''PostgreSQL webhook worker ID must be between 1 and 128 characters''
     else Inr po)"

subsection \<open>Columns\<close>

text \<open>A text column takes no NUL character.\<close>

definition pg_text :: "nat \<Rightarrow> nat \<Rightarrow> pystr \<Rightarrow> bool" where
  "pg_text lo hi s \<longleftrightarrow> 0 \<notin> set s \<and> lo \<le> length s \<and> length s \<le> hi"

definition pg_text_option :: "nat \<Rightarrow> nat \<Rightarrow> pystr option \<Rightarrow> bool" where
  "pg_text_option lo hi v = (case v of None \<Rightarrow> True | Some s \<Rightarrow> pg_text lo hi s)"

definition pg_room_checks :: "room \<Rightarrow> bool" where
  "pg_room_checks r \<longleftrightarrow> ROOM_ID_PATTERN (ro_id r) \<and> pg_text 1 80 (ro_name r) \<and> pg_text 0 500 (ro_description r)"

definition pg_message_checks :: "pg_functions \<Rightarrow> message_row \<Rightarrow> bool" where
  "pg_message_checks px m \<longleftrightarrow> pg_text 1 128 (msg_id m) \<and> pg_text 1 64 (msg_sender m) \<and>
     pg_text_option 1 64 (msg_author_subject m) \<and> pg_text 0 100000 (msg_content m) \<and>
     pg_text 0 100000 (px_search px (msg_content m)) \<and> pg_text_option 1 128 (msg_client_message_id m) \<and>
     pg_text_option 1 64 (msg_pinned_by m) \<and>
     list_all (px_jsonb px) [metadata_json (msg_metadata m), attachments_json (msg_attachments m),
       mentions_json (msg_mentioned_subjects m)] \<and>
     length (msg_attachments m) \<le> 5 \<and> length (msg_mentioned_subjects m) \<le> 10 \<and>
     px_octets px (metadata_json (msg_metadata m)) \<le> 8192 \<and>
     px_octets px (attachments_json (msg_attachments m)) \<le> 16384 \<and>
     px_octets px (mentions_json (msg_mentioned_subjects m)) \<le> 4096"

definition pg_control_checks :: "member_moderation \<Rightarrow> bool" where
  "pg_control_checks c \<longleftrightarrow> pg_text 1 64 (mod_subject c)"

definition pg_insert_message_row :: "pg_functions \<Rightarrow> message_row \<Rightarrow> db \<Rightarrow> store_error + db" where
  "pg_insert_message_row px m t =
     (if msg_id m \<in> msg_id ` set (db_messages t) then Inl IntegrityError
      else if msg_client_message_id m \<noteq> None \<and>
        (msg_room_id m, msg_client_message_id m) \<in> (\<lambda>x. (msg_room_id x, msg_client_message_id x)) ` set (db_messages t)
      then Inl IntegrityError
      else if get_room_row t (msg_room_id m) = None then Inl IntegrityError
      else if (case msg_parent_message_id m of None \<Rightarrow> False | Some p \<Rightarrow> p \<noteq> msg_id m \<and> get_message_by_id t p = None)
      then Inl IntegrityError
      else if \<not> pg_message_checks px m then Inl IntegrityError
      else Inr (t\<lparr>db_messages := db_messages t @ [m]\<rparr>))"

text \<open>\<open>UPDATE .. WHERE id = %s RETURNING ..\<close>: the new table and the updated row as the public model.\<close>

definition pg_update_message ::
  "pg_functions \<Rightarrow> pystr \<Rightarrow> (message_row \<Rightarrow> message_row) \<Rightarrow> db \<Rightarrow> store_error + message \<times> db" where
  "pg_update_message px message_id f t =
     (if list_ex (\<lambda>m. msg_id m = message_id \<and> \<not> pg_message_checks px (f m)) (db_messages t) then Inl IntegrityError
      else (let t' = t\<lparr>db_messages := update_where (\<lambda>m. msg_id m = message_id) f (db_messages t)\<rparr> in
        res_map (\<lambda>m. (m, t')) (reread_message message_id t')))"

subsection \<open>JSON forms\<close>

definition opt_json :: "('a \<Rightarrow> json) \<Rightarrow> 'a option \<Rightarrow> json" where
  "opt_json f v = (case v of None \<Rightarrow> JNull | Some x \<Rightarrow> f x)"

definition time_json :: "pg_functions \<Rightarrow> timestamp \<Rightarrow> json" where
  "time_json px t = JStr (px_isoformat px t)"

definition room_json :: "pg_functions \<Rightarrow> room \<Rightarrow> json" where
  "room_json px r = JObj [(str ''id'', JStr (ro_id r)), (str ''name'', JStr (ro_name r)),
     (str ''description'', JStr (ro_description r)), (str ''created_at'', time_json px (ro_created_at r)),
     (str ''archived_at'', opt_json (time_json px) (ro_archived_at r)),
     (str ''frozen_at'', opt_json (time_json px) (ro_frozen_at r))]"

definition reaction_summary_json :: "reaction_summary \<Rightarrow> json" where
  "reaction_summary_json s = JObj [(str ''key'', JStr (rs_key s)), (str ''count'', JInt (int (rs_count s)))]"

definition message_json :: "pg_functions \<Rightarrow> message \<Rightarrow> json" where
  "message_json px m = JObj [(str ''id'', JStr (msg_id m)), (str ''room_id'', JStr (msg_room_id m)),
     (str ''sender'', JStr (msg_sender m)), (str ''content'', JStr (msg_content m)),
     (str ''created_at'', time_json px (msg_created_at m)),
     (str ''client_message_id'', opt_json JStr (msg_client_message_id m)),
     (str ''parent_message_id'', opt_json JStr (msg_parent_message_id m)),
     (str ''reactions'', JArr (map reaction_summary_json (msg_reactions m))),
     (str ''pinned_at'', opt_json (time_json px) (msg_pinned_at m)), (str ''pinned_by'', opt_json JStr (msg_pinned_by m)),
     (str ''metadata'', metadata_json (msg_metadata m)), (str ''attachments'', attachments_json (msg_attachments m)),
     (str ''mentioned_subjects'', mentions_json (msg_mentioned_subjects m)),
     (str ''edited_at'', opt_json (time_json px) (msg_edited_at m)),
     (str ''deleted_at'', opt_json (time_json px) (msg_deleted_at m))]"

definition moderation_json :: "pg_functions \<Rightarrow> member_moderation \<Rightarrow> json" where
  "moderation_json px c = JObj [(str ''room_id'', JStr (mod_room_id c)), (str ''subject'', JStr (mod_subject c)),
     (str ''muted_until'', opt_json (time_json px) (mod_muted_until c)),
     (str ''banned_until'', opt_json (time_json px) (mod_banned_until c)),
     (str ''updated_at'', time_json px (mod_updated_at c))]"

definition receipt_json :: "pg_functions \<Rightarrow> read_receipt \<Rightarrow> json" where
  "receipt_json px r = JObj [(str ''subject'', JStr (rr_subject r)),
     (str ''last_read_message_id'', opt_json JStr (rr_last_read_message_id r)),
     (str ''last_read_message_at'', opt_json (time_json px) (rr_last_read_message_at r)),
     (str ''last_read_at'', opt_json (time_json px) (rr_last_read_at r))]"

definition typed :: "string \<Rightarrow> (pystr \<times> json) list \<Rightarrow> json" where
  "typed event_type fs = JObj ((str ''type'', JStr (str event_type)) # fs)"

definition message_event :: "pg_functions \<Rightarrow> string \<Rightarrow> message \<Rightarrow> json" where
  "message_event px event_type m = typed event_type [(str ''message'', message_json px m)]"

definition room_event :: "pg_functions \<Rightarrow> string \<Rightarrow> room \<Rightarrow> json" where
  "room_event px event_type r = typed event_type [(str ''room'', room_json px r)]"

definition reaction_event :: "pg_functions \<Rightarrow> reaction_mutation \<Rightarrow> json" where
  "reaction_event px rm = typed ''message.reaction.updated'' [(str ''message'', message_json px (rm_message rm)),
     (str ''key'', JStr (rm_key rm)), (str ''reactor'', JStr (rm_reactor rm)), (str ''present'', JBool (rm_present rm)),
     (str ''changed'', JBool (rm_changed rm)), (str ''updated_at'', time_json px (rm_updated_at rm))]"

definition pin_event :: "pg_functions \<Rightarrow> pin_mutation \<Rightarrow> json" where
  "pin_event px p = typed ''message.pin.updated'' [(str ''message'', message_json px (pm_message p)),
     (str ''pinner'', JStr (pm_pinner p)), (str ''pinned'', JBool (pm_pinned p)),
     (str ''changed'', JBool (pm_changed p)), (str ''updated_at'', time_json px (pm_updated_at p))]"

definition moderation_event :: "pg_functions \<Rightarrow> pystr \<Rightarrow> member_moderation \<Rightarrow> json" where
  "moderation_event px actor c = typed ''member.moderation.updated'' [(str ''actor'', JStr actor),
     (str ''moderation'', moderation_json px c)]"

definition read_event :: "pg_functions \<Rightarrow> read_receipt \<Rightarrow> json" where
  "read_event px r = typed ''read.updated'' [(str ''receipt'', receipt_json px r)]"

definition announce ::
  "pg_functions \<Rightarrow> timestamp \<Rightarrow> pystr \<Rightarrow> string \<Rightarrow> json \<Rightarrow> pg_store \<Rightarrow> pg_store_error + pg_store" where
  "announce px now room_id event_type payload d =
     raised_foundation (res_map snd (append_event (px_jsonb px) now room_id (str event_type) payload d))"

subsection \<open>Scrubbing the event log\<close>

text \<open>\<open>jsonb_set(.., create_if_missing => false)\<close>: a path that does not exist changes nothing.\<close>

fun jsonb_set :: "pystr list \<Rightarrow> json \<Rightarrow> json \<Rightarrow> json" where
  "jsonb_set [k] v (JObj fs) = JObj (map (\<lambda>(k', x). (k', if k' = k then v else x)) fs)"
| "jsonb_set (k # k2 # ks) v (JObj fs) =
     JObj (map (\<lambda>(k', x). (k', if k' = k then jsonb_set (k2 # ks) v x else x)) fs)"
| "jsonb_set ks v j = j"

definition in_message :: "string \<Rightarrow> pystr list" where
  "in_message field = [str ''message'', str field]"

definition scrub_payload :: "pystr \<Rightarrow> json \<Rightarrow> json" where
  "scrub_payload event_type payload =
     (let blank = jsonb_set (in_message ''pinned_by'') JNull (jsonb_set (in_message ''pinned_at'') JNull
            (jsonb_set (in_message ''reactions'') (JArr []) (jsonb_set (in_message ''content'') (JStr []) payload)));
          named = (if event_type = str ''message.reaction.updated'' then jsonb_set [str ''reactor''] (JStr (str ''[deleted]'')) blank
            else if event_type = str ''message.pin.updated'' then jsonb_set [str ''pinner''] (JStr (str ''[deleted]'')) blank
            else blank)
      in jsonb_set (in_message ''mentioned_subjects'') (JArr []) (jsonb_set (in_message ''attachments'') (JArr [])
           (jsonb_set (in_message ''metadata'') (JObj []) named)))"

definition json_field :: "string \<Rightarrow> json \<Rightarrow> json option" where
  "json_field k v = (case v of JObj fs \<Rightarrow> map_of fs (str k) | _ \<Rightarrow> None)"

text \<open>\<open>payload #>> '{message,id}'\<close>; a message id is always a string here.\<close>

definition event_message_id :: "json \<Rightarrow> pystr option" where
  "event_message_id payload = (case json_field ''message'' payload of None \<Rightarrow> None
     | Some m \<Rightarrow> (case json_field ''id'' m of Some (JStr i) \<Rightarrow> Some i | _ \<Rightarrow> None))"

definition is_message_event :: "realtime_event \<Rightarrow> bool" where
  "is_message_event e \<longleftrightarrow> take 8 (re_event_type e) = str ''message.''"

text \<open>The batch lists message ids with their rooms; one statement runs for each room.\<close>

definition scrub_event :: "(pystr \<times> pystr) list \<Rightarrow> realtime_event \<Rightarrow> realtime_event" where
  "scrub_event batch e =
     (if is_message_event e \<and> (case event_message_id (re_payload e) of None \<Rightarrow> False | Some i \<Rightarrow> (i, re_room_id e) \<in> set batch)
      then e\<lparr>re_payload := scrub_payload (re_event_type e) (re_payload e)\<rparr> else e)"

definition scrub_message_event_payloads :: "(pystr \<times> pystr) list \<Rightarrow> pg_store \<Rightarrow> pg_store" where
  "scrub_message_event_payloads batch d = d\<lparr>fd_events := map (scrub_event batch) (fd_events d)\<rparr>"

subsection \<open>The outbox, the audit trail and the gate\<close>

text \<open>The lease columns of a delivery go with its row.\<close>

definition with_tables :: "db \<Rightarrow> pg_store \<Rightarrow> pg_store" where
  "with_tables t d = d\<lparr>ps_tables := t,
     ps_leases := filter (\<lambda>(i, lease). i \<in> wd_id ` set (db_webhooks t)) (ps_leases d)\<rparr>"

definition lease_of :: "pg_store \<Rightarrow> pystr \<Rightarrow> (pystr \<times> timestamp) option" where
  "lease_of d delivery_id = map_of (ps_leases d) delivery_id"

definition clear_leases :: "(webhook_row \<Rightarrow> bool) \<Rightarrow> pg_store \<Rightarrow> pg_store" where
  "clear_leases P d = d\<lparr>ps_leases :=
     filter (\<lambda>(i, lease). \<not> list_ex (\<lambda>w. wd_id w = i \<and> P w) (db_webhooks (ps_tables d))) (ps_leases d)\<rparr>"

definition pg_scrub_message_webhooks :: "(pystr \<times> pystr) list \<Rightarrow> pg_store \<Rightarrow> pg_store" where
  "pg_scrub_message_webhooks batch d = (if batch = [] then d
     else with_tables (scrub_batch_webhooks batch (ps_tables d))
       (clear_leases (\<lambda>w. like_message (wd_event_type w) \<and> (wr_resource_id w, wd_room_id w) \<in> set batch) d))"

definition pg_scrub_room_webhooks :: "pystr \<Rightarrow> pg_store \<Rightarrow> pg_store" where
  "pg_scrub_room_webhooks room_id d = with_tables (scrub_room_webhooks room_id (ps_tables d))
     (clear_leases (\<lambda>w. wd_room_id w = room_id) d)"

definition pg_insert_webhook ::
  "store_config \<Rightarrow> pystr \<Rightarrow> string \<Rightarrow> pystr \<Rightarrow> pystr \<Rightarrow> timestamp \<Rightarrow> webhook_data \<Rightarrow> pg_store \<Rightarrow> pg_store_error + pg_store" where
  "pg_insert_webhook cfg uid event_type room_id resource_id occurred_at data d =
     res_map (\<lambda>t. with_tables t d) (raised (insert_webhook cfg uid event_type room_id resource_id occurred_at data (ps_tables d)))"

definition pg_insert_audit ::
  "store_config \<Rightarrow> pystr \<Rightarrow> timestamp \<Rightarrow> string \<Rightarrow> pystr \<Rightarrow> pystr option \<Rightarrow> (pystr \<times> audit_value) list \<Rightarrow> pg_store \<Rightarrow>
   pg_store_error + pg_store" where
  "pg_insert_audit cfg uid now action actor room details d =
     (if \<not> pg_text 1 128 actor then raised (Inl IntegrityError)
      else res_map (\<lambda>t. with_tables t d) (raised (insert_audit cfg uid now action actor room details (ps_tables d))))"

definition pg_enforce_member_write :: "pg_env \<Rightarrow> pystr \<Rightarrow> pystr option \<Rightarrow> db \<Rightarrow> store_error + unit" where
  "pg_enforce_member_write e room_id subject t = (case subject of None \<Rightarrow> Inr ()
     | Some s \<Rightarrow> (case get_control_row t room_id s of None \<Rightarrow> Inr ()
       | Some row \<Rightarrow>
           (if (case mod_banned_until row of None \<Rightarrow> False | Some u \<Rightarrow> now_enforce e < u) then Inl (MemberBannedError s)
            else if (case mod_muted_until row of None \<Rightarrow> False | Some u \<Rightarrow> now_muted e < u) then Inl (MemberMutedError s)
            else Inr ())))"

definition lock_writable_room ::
  "pg_env \<Rightarrow> pystr \<Rightarrow> bool \<Rightarrow> bool \<Rightarrow> pystr option \<Rightarrow> pg_store \<Rightarrow> pg_store_error + unit" where
  "lock_writable_room e room_id allow_archived allow_frozen member_subject d =
     raised (case get_room_row (ps_tables d) room_id of
        None \<Rightarrow> Inl (RoomNotFoundError room_id)
      | Some room \<Rightarrow>
          (if ro_archived_at room \<noteq> None \<and> \<not> allow_archived then Inl (RoomArchivedError room_id)
           else if ro_frozen_at room \<noteq> None \<and> \<not> allow_frozen then Inl (RoomFrozenError room_id)
           else pg_enforce_member_write e room_id member_subject (ps_tables d)))"

definition lock_message :: "pystr \<Rightarrow> pystr \<Rightarrow> pg_store \<Rightarrow> pg_store_error + message_row" where
  "lock_message room_id message_id d = raised (case get_message_row (ps_tables d) room_id message_id of
     None \<Rightarrow> Inl (MessageNotFoundError message_id) | Some row \<Rightarrow> Inr row)"

end
