(* ===== verification/Pg_Store_Calls.thy ===== *)
theory Pg_Store_Calls
  imports Pg_Store
begin

section \<open>The PostgreSQL store: its methods (postgres_store.py)\<close>

text \<open>
  The methods of \<open>PostgresChatStore\<close>. The state each takes and returns is the whole database of the
  store; what the caller gets back comes first.
\<close>

subsection \<open>Rooms\<close>

definition pg_create_room ::
  "store_config \<Rightarrow> pg_functions \<Rightarrow> pg_env \<Rightarrow> room_create \<Rightarrow> pystr \<Rightarrow> pg_store \<Rightarrow> pg_store_error + room \<times> pg_store" where
  "pg_create_room cfg px e payload actor d =
     (let room_id = (case rc_id payload of Some i \<Rightarrow> if i \<noteq> [] then i else uuid_op e | None \<Rightarrow> uuid_op e);
          row = \<lparr>ro_id = room_id, ro_name = rc_name payload, ro_description = rc_description payload,
            ro_created_at = now_op e, ro_archived_at = None, ro_frozen_at = None\<rparr>;
          t = ps_tables d in
      if max_rooms cfg \<le> length (db_rooms t) then raised (Inl RoomCapacityError)
      else if room_id \<in> ro_id ` set (db_rooms t) then raised (Inl (RoomAlreadyExistsError room_id))
      else if \<not> pg_room_checks row then raised (Inl IntegrityError)
      else res_bind (pg_insert_audit cfg (uuid_audit e) (now_audit e) ''room.created'' actor (Some room_id) []
          (with_tables (t\<lparr>db_rooms := db_rooms t @ [row]\<rparr>) d)) (\<lambda>d1.
        res_bind (announce px (now_event e) room_id ''room.created''
          (room_event px ''room.created'' (room_from_row row)) d1) (\<lambda>d2.
        Inr (room_from_row row, d2))))"

definition pg_get_room :: "pystr \<Rightarrow> pg_store \<Rightarrow> room option" where
  "pg_get_room room_id d = get_room (ps_tables d) room_id"

definition pg_list_rooms :: "int \<Rightarrow> pg_store \<Rightarrow> pg_store_error + room list" where
  "pg_list_rooms limit d = (if \<not> (1 \<le> limit \<and> limit \<le> 100)
     then raised (Inl (ArgumentError ''room list limit must be between 1 and 100''))
     else Inr (list_rooms (nat limit) (ps_tables d)))"

text \<open>One flag: the update and its audit row, when the flag is given and differs from the row read first.\<close>

definition pg_set_flag ::
  "store_config \<Rightarrow> pystr \<Rightarrow> timestamp \<Rightarrow> string \<Rightarrow> pystr \<Rightarrow> pystr \<Rightarrow> bool option \<Rightarrow> bool \<Rightarrow> (room \<Rightarrow> room) \<Rightarrow> string \<Rightarrow> pg_store \<Rightarrow>
   pg_store_error + string list \<times> pg_store" where
  "pg_set_flag cfg uid now action actor room_id wanted is_set f change d =
     (if wanted = None \<or> wanted = Some is_set then Inr ([], d)
      else res_map (\<lambda>d'. ([change], d')) (pg_insert_audit cfg uid now action actor (Some room_id) []
        (with_tables (update_room room_id f (ps_tables d)) d)))"

definition state_event_type :: "bool option \<Rightarrow> bool option \<Rightarrow> string \<Rightarrow> string" where
  "state_event_type archived frozen change =
     (if (if change = ''archived'' then archived else frozen) = Some True then ''room.'' @ change else ''room.un'' @ change)"

fun announce_states ::
  "pg_functions \<Rightarrow> pystr \<Rightarrow> bool option \<Rightarrow> bool option \<Rightarrow> room \<Rightarrow> timestamp list \<Rightarrow> string list \<Rightarrow> pg_store \<Rightarrow> pg_store_error + pg_store" where
  "announce_states px room_id archived frozen room (now # clks) (change # changes) d =
     (let event_type = state_event_type archived frozen change in
      res_bind (announce px now room_id event_type (room_event px event_type room) d)
        (announce_states px room_id archived frozen room clks changes))"
| "announce_states px room_id archived frozen room clks changes d = Inr d"

definition pg_set_room_state ::
  "store_config \<Rightarrow> pg_functions \<Rightarrow> pg_env \<Rightarrow> pystr \<Rightarrow> bool option \<Rightarrow> bool option \<Rightarrow> pystr \<Rightarrow> pg_store \<Rightarrow>
   pg_store_error + (room \<times> string list) \<times> pg_store" where
  "pg_set_room_state cfg px e room_id archived frozen actor d =
     (case get_room_row (ps_tables d) room_id of
        None \<Rightarrow> raised (Inl (RoomNotFoundError room_id))
      | Some original \<Rightarrow>
          res_bind (pg_set_flag cfg (uuid_audit e) (now_audit e)
            (if archived = Some True then ''room.archived'' else ''room.unarchived'') actor room_id archived
            (ro_archived_at original \<noteq> None)
            (\<lambda>r. r\<lparr>ro_archived_at := if archived = Some True then Some (now_op e) else None\<rparr>) ''archived'' d) (\<lambda>(c1, d1).
          res_bind (pg_set_flag cfg (uuid_audit2 e) (now_audit2 e)
            (if frozen = Some True then ''room.frozen'' else ''room.unfrozen'') actor room_id frozen
            (ro_frozen_at original \<noteq> None)
            (\<lambda>r. r\<lparr>ro_frozen_at := if frozen = Some True then Some (now_op2 e) else None\<rparr>) ''frozen'' d1) (\<lambda>(c2, d2).
          case get_room_row (ps_tables d2) room_id of
            None \<Rightarrow> raised (Inl NotRetainedError)
          | Some row \<Rightarrow> res_bind (announce_states px room_id archived frozen (room_from_row row) [now_event e, now_event2 e] (c1 @ c2) d2)
              (\<lambda>d3. Inr ((room_from_row row, c1 @ c2), d3)))))"

definition message_batch :: "message_row list \<Rightarrow> (pystr \<times> pystr) list" where
  "message_batch ms = map (\<lambda>m. (msg_id m, msg_room_id m)) ms"

definition pg_delete_room ::
  "store_config \<Rightarrow> pg_functions \<Rightarrow> pg_env \<Rightarrow> pystr \<Rightarrow> pystr \<Rightarrow> pg_store \<Rightarrow> pg_store_error + nat \<times> pg_store" where
  "pg_delete_room cfg px e room_id actor d =
     (case get_room_row (ps_tables d) room_id of
        None \<Rightarrow> raised (Inl (RoomNotFoundError room_id))
      | Some row \<Rightarrow>
          (if ro_archived_at row = None then raised (Inl (RoomNotArchivedError room_id))
           else (let batch = message_batch (room_messages (ps_tables d) room_id); n = length batch in
             res_bind (pg_insert_audit cfg (uuid_audit e) (now_audit e) ''room.deleted'' actor (Some room_id)
               [(str ''deleted_messages'', ACount n)] (scrub_message_event_payloads batch d)) (\<lambda>d1.
             let d2 = pg_scrub_room_webhooks room_id d1; d3 = with_tables (delete_room_row room_id (ps_tables d2)) d2 in
             res_map (\<lambda>d4. (n, d4)) (announce px (now_event e) room_id ''room.deleted''
               (typed ''room.deleted'' [(str ''room_id'', JStr room_id), (str ''deleted_messages'', JInt (int n))]) d3)))))"

text \<open>The spool of an export is the list of its messages.\<close>

definition prepare_export ::
  "store_config \<Rightarrow> pg_env \<Rightarrow> pystr \<Rightarrow> pystr \<Rightarrow> pg_store \<Rightarrow> pg_store_error + message list \<times> pg_store" where
  "prepare_export cfg e room_id actor d =
     (if get_room_row (ps_tables d) room_id = None then raised (Inl (RoomNotFoundError room_id))
      else res_bind (pg_insert_audit cfg (uuid_audit e) (now_audit e) ''room.export_requested'' actor (Some room_id) [] d) (\<lambda>d1.
        res_bind (raised (res_all message_from_row (order_by message_key (room_messages (ps_tables d1) room_id))))
          (\<lambda>ms. Inr (ms, d1))))"

subsection \<open>Trimming and retention\<close>

definition delete_ids :: "message_row list \<Rightarrow> pg_store \<Rightarrow> pg_store" where
  "delete_ids ms d = with_tables (delete_message_rows (\<lambda>m. msg_id m \<in> msg_id ` set ms) (ps_tables d)) d"

text \<open>What \<open>ORDER BY created_at DESC, id DESC OFFSET n\<close> selects.\<close>

definition beyond :: "nat \<Rightarrow> message_row list \<Rightarrow> message_row list" where
  "beyond n ms = drop n (order_by_desc message_key ms)"

definition prune_rows :: "message_row list \<Rightarrow> pg_store \<Rightarrow> pg_store" where
  "prune_rows ms d = scrub_message_event_payloads (message_batch ms) (delete_ids ms d)"

definition pg_trim_messages ::
  "store_config \<Rightarrow> pg_env \<Rightarrow> pystr \<Rightarrow> timestamp \<Rightarrow> pg_store \<Rightarrow> pg_store_error + pg_store" where
  "pg_trim_messages cfg e room_id now d =
     (let age_rows = (case message_retention_days cfg of None \<Rightarrow> [] | Some days \<Rightarrow> expired (now - days_delta days) (ps_tables d));
          d1 = prune_rows age_rows d;
          room_count = length (room_messages (ps_tables d1) room_id); global_count = length (db_messages (ps_tables d1));
          room_cap_rows = (if max_stored_messages_per_room cfg < room_count
            then beyond (max_stored_messages_per_room cfg) (room_messages (ps_tables d1) room_id) else []);
          d2 = prune_rows room_cap_rows d1;
          global_cap_rows = (if max_stored_messages cfg < global_count - length room_cap_rows
            then beyond (max_stored_messages cfg) (db_messages (ps_tables d2)) else []);
          d3 = prune_rows global_cap_rows d2 in
      if age_rows \<noteq> [] \<or> room_cap_rows \<noteq> [] \<or> global_cap_rows \<noteq> []
      then res_map (pg_scrub_message_webhooks (message_batch (age_rows @ room_cap_rows @ global_cap_rows)))
        (pg_insert_audit cfg (uuid_audit e) (now_audit e) ''retention.automatic'' (str ''system:retention'') None
          ([(str ''age_deleted'', ACount (length age_rows)), (str ''global_cap_deleted'', ACount (length global_cap_rows)),
            (str ''room_cap_deleted'', ACount (length room_cap_rows)), (str ''trigger_room_id'', AText room_id)] @
           (case message_retention_days cfg of None \<Rightarrow> []
            | Some days \<Rightarrow> [(str ''cutoff'', ATime (Some (now - days_delta days)))])) d3)
      else Inr d3)"

definition pg_run_retention ::
  "store_config \<Rightarrow> pg_env \<Rightarrow> pystr \<Rightarrow> pg_store \<Rightarrow> pg_store_error + (nat \<times> timestamp) \<times> pg_store" where
  "pg_run_retention cfg e actor d = (case message_retention_days cfg of
     None \<Rightarrow> raised (Inl RetentionNotConfiguredError)
   | Some days \<Rightarrow> (let cutoff = now_op e - days_delta days; rows = expired cutoff (ps_tables d) in
       res_map (\<lambda>d'. ((length rows, cutoff), pg_scrub_message_webhooks (message_batch rows) d'))
         (pg_insert_audit cfg (uuid_audit e) (now_audit e) ''retention.executed'' actor None
           [(str ''deleted_messages'', ACount (length rows)), (str ''cutoff'', ATime (Some cutoff))] (prune_rows rows d))))"

subsection \<open>Messages\<close>

text \<open>A JSONB object keeps no order of its keys; it is kept sorted.\<close>

definition new_message_row :: "pg_env \<Rightarrow> create_args \<Rightarrow> message_row" where
  "new_message_row e a = message_row_of ((new_message (env.truncate e) a)\<lparr>msg_metadata := sort_key fst (ca_metadata a)\<rparr>)
     (ca_author_subject a)"

definition pg_create_message ::
  "store_config \<Rightarrow> pg_functions \<Rightarrow> pg_env \<Rightarrow> create_args \<Rightarrow> pg_store \<Rightarrow> pg_store_error + (message \<times> bool) \<times> pg_store" where
  "pg_create_message cfg px e a d =
     res_bind (lock_writable_room e (ca_room_id a) False (ca_allow_frozen a) (ca_member_subject a) d) (\<lambda>_.
     case (if ca_client_message_id a = None then None else find (\<lambda>m. msg_room_id m = ca_room_id a \<and>
         msg_client_message_id m = ca_client_message_id a) (db_messages (ps_tables d))) of
       Some existing \<Rightarrow> res_map (\<lambda>m. ((m, False), d)) (raised (message_from_row existing))
     | None \<Rightarrow>
         res_bind (raised (check_parent (ps_tables d) (ca_room_id a) (ca_parent_message_id a))) (\<lambda>_.
         let row = new_message_row e a in
         res_bind (raised (pg_insert_message_row px row (ps_tables d))) (\<lambda>t1.
         res_bind (raised (message_from_row row)) (\<lambda>created.
         res_bind (pg_trim_messages cfg e (ca_room_id a) (msg_created_at created) (with_tables t1 d)) (\<lambda>d2.
         case get_message_by_id (ps_tables d2) (msg_id created) of
           None \<Rightarrow> raised (Inl NotRetainedError)
         | Some persisted \<Rightarrow>
             res_bind (raised (message_from_row persisted)) (\<lambda>m.
             res_bind (pg_insert_webhook cfg (uuid_webhook e) ''message.created'' (ca_room_id a) (msg_id m)
               (msg_created_at m) (MessageData None m) d2) (\<lambda>d3.
             res_bind (announce px (now_event e) (ca_room_id a) ''message.created''
               (message_event px ''message.created'' m) d3) (\<lambda>d4.
             Inr ((m, True), d4)))))))))"

text \<open>\<open>Jsonb(metadata)\<close> refuses what is no JSON; that is the check of the column.\<close>

definition pg_update_message_call ::
  "store_config \<Rightarrow> pg_functions \<Rightarrow> pg_env \<Rightarrow> pystr \<Rightarrow> pystr \<Rightarrow> pystr \<Rightarrow> pystr \<Rightarrow> metadata option \<Rightarrow> pystr list option \<Rightarrow>
   bool \<Rightarrow> pystr option \<Rightarrow> pg_store \<Rightarrow> pg_store_error + message \<times> pg_store" where
  "pg_update_message_call cfg px e room_id message_id actor content metadata mentions is_admin member_subject d =
     res_bind (lock_writable_room e room_id False is_admin member_subject d) (\<lambda>_.
     res_bind (lock_message room_id message_id d) (\<lambda>row.
     if msg_deleted_at row \<noteq> None then raised (Inl (MessageDeletedError message_id))
     else if \<not> is_admin \<and> msg_sender row \<noteq> actor then raised (Inl (MessageOwnershipError message_id))
     else
       res_bind (raised (pg_update_message px message_id (edit_row content metadata mentions (now_op e)) (ps_tables d))) (\<lambda>(m, t1).
       res_bind (pg_insert_audit cfg (uuid_audit e) (now_audit e) ''message.updated'' actor (Some room_id)
         [(str ''message_id'', AText message_id)] (with_tables t1 d)) (\<lambda>d2.
       res_bind (pg_insert_webhook cfg (uuid_webhook e) ''message.updated'' room_id (msg_id m)
         (case msg_edited_at m of Some t \<Rightarrow> t | None \<Rightarrow> msg_created_at m) (MessageData (Some actor) m) d2) (\<lambda>d3.
       res_bind (announce px (now_event e) room_id ''message.updated'' (message_event px ''message.updated'' m) d3) (\<lambda>d4.
       Inr (m, d4)))))))"

definition pg_delete_message ::
  "store_config \<Rightarrow> pg_functions \<Rightarrow> pg_env \<Rightarrow> pystr \<Rightarrow> pystr \<Rightarrow> pystr \<Rightarrow> bool \<Rightarrow> pystr option \<Rightarrow> pg_store \<Rightarrow>
   pg_store_error + (message \<times> bool) \<times> pg_store" where
  "pg_delete_message cfg px e room_id message_id actor is_admin member_subject d =
     res_bind (lock_writable_room e room_id is_admin is_admin member_subject d) (\<lambda>_.
     res_bind (lock_message room_id message_id d) (\<lambda>row.
     if \<not> is_admin \<and> msg_sender row \<noteq> actor then raised (Inl (MessageOwnershipError message_id))
     else if msg_deleted_at row \<noteq> None then res_map (\<lambda>m. ((m, False), d)) (raised (message_from_row row))
     else
       res_bind (raised (pg_update_message px message_id (tombstone_row (now_op e))
         (delete_message_reactions message_id (ps_tables d)))) (\<lambda>(m, t1).
       res_bind (pg_insert_audit cfg (uuid_audit e) (now_audit e) ''message.deleted'' actor (Some room_id)
         [(str ''message_id'', AText message_id)]
         (scrub_message_event_payloads [(msg_id m, msg_room_id m)] (with_tables t1 d))) (\<lambda>d2.
       res_bind (pg_insert_webhook cfg (uuid_webhook e) ''message.deleted'' room_id (msg_id m)
         (case msg_deleted_at m of Some t \<Rightarrow> t | None \<Rightarrow> msg_created_at m) (MessageData (Some actor) m)
         (pg_scrub_message_webhooks [(msg_id m, msg_room_id m)] d2)) (\<lambda>d3.
       res_bind (announce px (now_event e) room_id ''message.deleted'' (message_event px ''message.deleted'' m) d3) (\<lambda>d4.
       Inr ((m, True), d4)))))))"

subsection \<open>Reactions and pins\<close>

definition pg_set_message_reaction ::
  "store_config \<Rightarrow> pg_functions \<Rightarrow> pg_env \<Rightarrow> pystr \<Rightarrow> pystr \<Rightarrow> pystr \<Rightarrow> pystr \<Rightarrow> bool \<Rightarrow> bool \<Rightarrow> pystr option \<Rightarrow> pg_store \<Rightarrow>
   pg_store_error + reaction_mutation \<times> pg_store" where
  "pg_set_message_reaction cfg px e room_id message_id reactor key present allow_frozen member_subject d =
     res_bind (lock_writable_room e room_id False allow_frozen member_subject d) (\<lambda>_.
     res_bind (lock_message room_id message_id d) (\<lambda>row.
     if msg_deleted_at row \<noteq> None then raised (Inl (MessageDeletedError message_id))
     else
       res_bind (raised (toggle_reaction (now_op e) room_id message_id reactor key present (ps_tables d))) (\<lambda>(changed, t1).
       if changed then
         res_bind (raised (model_error (res_all ReactionSummary (reaction_summaries (db_reactions t1) message_id)))) (\<lambda>summaries.
         res_bind (raised (pg_update_message px message_id (set_summaries summaries) t1)) (\<lambda>(m, t2).
         res_bind (raised (model_error (ReactionMutation m key reactor present True (now_op e)))) (\<lambda>mutation.
         res_bind (pg_insert_webhook cfg (uuid_webhook e) ''message.reaction.updated'' room_id message_id (now_op e)
           (ReactionData mutation) (with_tables t2 d)) (\<lambda>d3.
         res_bind (announce px (now_event e) room_id ''message.reaction.updated'' (reaction_event px mutation) d3) (\<lambda>d4.
         Inr (mutation, d4))))))
       else
         res_bind (raised (message_from_row row)) (\<lambda>m.
         res_bind (raised (model_error (ReactionMutation m key reactor present False (now_op e)))) (\<lambda>mutation.
         Inr (mutation, d))))))"

definition pg_set_message_pin ::
  "store_config \<Rightarrow> pg_functions \<Rightarrow> pg_env \<Rightarrow> pystr \<Rightarrow> pystr \<Rightarrow> pystr \<Rightarrow> pystr \<Rightarrow> bool \<Rightarrow> bool \<Rightarrow> pystr option \<Rightarrow> pg_store \<Rightarrow>
   pg_store_error + pin_mutation \<times> pg_store" where
  "pg_set_message_pin cfg px e room_id message_id pinner actor pinned allow_frozen member_subject d =
     res_bind (lock_writable_room e room_id False allow_frozen member_subject d) (\<lambda>_.
     res_bind (lock_message room_id message_id d) (\<lambda>row.
     if msg_deleted_at row \<noteq> None then raised (Inl (MessageDeletedError message_id))
     else if (msg_pinned_at row \<noteq> None) \<noteq> pinned then
       res_bind (raised (pg_update_message px message_id (pin_row (now_op e) pinner pinned) (ps_tables d))) (\<lambda>(m, t1).
       res_bind (pg_insert_audit cfg (uuid_audit e) (now_audit e) ''message.pin.updated'' actor (Some room_id)
         [(str ''message_id'', AText message_id), (str ''pinned'', AFlag pinned)] (with_tables t1 d)) (\<lambda>d2.
       res_bind (raised (model_error (PinMutation m pinner pinned True (now_op e)))) (\<lambda>mutation.
       res_bind (pg_insert_webhook cfg (uuid_webhook e) ''message.pin.updated'' room_id message_id (now_op e)
         (PinData mutation) d2) (\<lambda>d3.
       res_bind (announce px (now_event e) room_id ''message.pin.updated'' (pin_event px mutation) d3) (\<lambda>d4.
       Inr (mutation, d4))))))
     else
       res_bind (raised (message_from_row row)) (\<lambda>m.
       res_bind (raised (model_error (PinMutation m pinner pinned False (now_op e)))) (\<lambda>mutation.
       Inr (mutation, d)))))"

subsection \<open>Member moderation\<close>

definition pg_get_member_moderation :: "pystr \<Rightarrow> pystr \<Rightarrow> pg_store \<Rightarrow> member_moderation option" where
  "pg_get_member_moderation room_id subject d = get_member_moderation (ps_tables d) room_id subject"

definition pg_set_member_moderation ::
  "store_config \<Rightarrow> pg_functions \<Rightarrow> pg_env \<Rightarrow> pystr \<Rightarrow> pystr \<Rightarrow> moderation_update \<Rightarrow> pystr \<Rightarrow> pg_store \<Rightarrow>
   pg_store_error + member_moderation \<times> pg_store" where
  "pg_set_member_moderation cfg px e room_id subject payload actor d =
     (let t = ps_tables d; now = now_op e; existing = get_control_row t room_id subject;
          muted_until = new_until now (muted_for_seconds payload) (case existing of None \<Rightarrow> None | Some c \<Rightarrow> mod_muted_until c);
          banned_until = new_until now (banned_for_seconds payload) (case existing of None \<Rightarrow> None | Some c \<Rightarrow> mod_banned_until c);
          control = \<lparr>mod_room_id = room_id, mod_subject = subject, mod_muted_until = muted_until,
            mod_banned_until = banned_until, mod_updated_at = now\<rparr>;
          cleared = (muted_until = None \<and> banned_until = None);
          moderation = moderation_from_row control in
      if get_room_row t room_id = None then raised (Inl (RoomNotFoundError room_id))
      else if \<not> cleared \<and> \<not> pg_control_checks control then raised (Inl IntegrityError)
      else res_bind (pg_insert_audit cfg (uuid_audit e) (now_audit e) ''member.moderation_updated'' actor (Some room_id)
          [(str ''subject'', AText subject), (str ''muted_until'', ATime muted_until), (str ''banned_until'', ATime banned_until)]
          (with_tables (if cleared
            then t\<lparr>db_controls := filter (\<lambda>c. \<not> (mod_room_id c = room_id \<and> mod_subject c = subject)) (db_controls t)\<rparr>
            else t\<lparr>db_controls := upsert (\<lambda>c. (mod_room_id c, mod_subject c)) control (db_controls t)\<rparr>) d)) (\<lambda>d2.
        res_bind (pg_insert_webhook cfg (uuid_webhook e) ''member.moderation.updated'' room_id subject now
          (ModerationData actor moderation) d2) (\<lambda>d3.
        res_bind (announce px (now_event e) room_id ''member.moderation.updated'' (moderation_event px actor moderation) d3) (\<lambda>d4.
        Inr (moderation, d4)))))"

subsection \<open>Read states\<close>

definition pg_get_read_state :: "pystr \<Rightarrow> pystr \<Rightarrow> pg_store \<Rightarrow> pg_store_error + read_state" where
  "pg_get_read_state room_id subject d = raised (get_read_state_sync room_id subject (ps_tables d))"

text \<open>One statement reads all rows; each row's ban is compared with a clock reading of its own.\<close>

definition pg_read_state_summary :: "timestamp \<Rightarrow> pystr \<Rightarrow> db \<Rightarrow> pystr \<Rightarrow> store_error + read_state_summary" where
  "pg_read_state_summary now subject t room_id = read_state_summary_of (\<lambda>u. u) now subject t room_id"

fun pg_read_state_summaries ::
  "readings \<Rightarrow> pystr \<Rightarrow> db \<Rightarrow> pystr list \<Rightarrow> store_error + read_state_summary list" where
  "pg_read_state_summaries clk subject t [] = Inr []"
| "pg_read_state_summaries clk subject t (r # rs) =
     res_bind (pg_read_state_summary (clk 0) subject t r) (\<lambda>s.
     res_map ((#) s) (pg_read_state_summaries (\<lambda>k. clk (k + 1)) subject t rs))"

definition pg_query_read_states ::
  "readings \<Rightarrow> pystr list \<Rightarrow> pystr \<Rightarrow> pg_store \<Rightarrow> pg_store_error + read_state_summary list" where
  "pg_query_read_states clk room_ids subject d =
     raised (res_bind (case validate_read_state_query_room_ids room_ids of Inl e \<Rightarrow> Inl (ArgumentError e) | Inr v \<Rightarrow> Inr v)
       (pg_read_state_summaries clk subject (ps_tables d)))"

definition pg_query_read_receipts :: "pystr \<Rightarrow> pystr list \<Rightarrow> pg_store \<Rightarrow> pg_store_error + read_receipt list" where
  "pg_query_read_receipts room_id subjects d =
     raised (res_bind (case validate_read_receipt_query_subjects (mentions_json subjects) of
         Inl e \<Rightarrow> Inl (ArgumentError e) | Inr v \<Rightarrow> Inr v)
       (\<lambda>validated. query_read_receipts_sync room_id validated (ps_tables d)))"

definition pg_mark_read ::
  "store_config \<Rightarrow> pg_functions \<Rightarrow> pg_env \<Rightarrow> pystr \<Rightarrow> pystr \<Rightarrow> pystr option \<Rightarrow> pg_store \<Rightarrow>
   pg_store_error + read_state_mutation \<times> pg_store" where
  "pg_mark_read cfg px e room_id subject message_id d =
     (let t = ps_tables d in
      if get_room_row t room_id = None then raised (Inl (RoomNotFoundError room_id))
      else res_bind (raised (mark_target room_id message_id t)) (\<lambda>message_row.
       (let candidate = read_candidate (now_op e) room_id subject message_row; existing = get_read_row t room_id subject in
        if existing = None \<and> max_read_states_per_room cfg \<le> length (filter (\<lambda>s. rd_room_id s = room_id) (db_reads t))
        then raised (Inl (ReadStateCapacityError room_id))
        else if advances existing candidate \<and> \<not> pg_text 1 64 subject then raised (Inl IntegrityError)
        else (let changed = advances existing candidate;
                  d1 = (if changed then with_tables (store_cursor candidate t) d else d);
                  state = read_state_from_connection (ps_tables d1) room_id subject;
                  position = (if changed then rd_message_created_at candidate
                    else (case existing of Some s \<Rightarrow> rd_message_created_at s | None \<Rightarrow> rd_message_created_at candidate)) in
          res_bind (raised (model_error (ReadReceipt \<lparr>rr_subject = subject,
              rr_last_read_message_id = rst_last_read_message_id state,
              rr_last_read_message_at = (if rst_last_read_message_id state \<noteq> None then Some position else None),
              rr_last_read_at = rst_last_read_at state\<rparr>))) (\<lambda>receipt.
          res_bind (if changed then announce px (now_event e) room_id ''read.updated'' (read_event px receipt) d1 else Inr d1) (\<lambda>d2.
          Inr (\<lparr>rsm_state = state, rsm_receipt = receipt, rsm_changed = changed\<rparr>, d2)))))))"

definition pg_clear_read_state ::
  "pg_functions \<Rightarrow> pg_env \<Rightarrow> pystr \<Rightarrow> pystr \<Rightarrow> pg_store \<Rightarrow> pg_store_error + bool \<times> pg_store" where
  "pg_clear_read_state px e room_id subject d =
     res_bind (raised (clear_read_state_sync room_id subject (ps_tables d))) (\<lambda>(changed, t1).
     if \<not> changed then Inr (False, with_tables t1 d)
     else res_bind (raised (model_error (ReadReceipt \<lparr>rr_subject = subject, rr_last_read_message_id = None,
         rr_last_read_message_at = None, rr_last_read_at = None\<rparr>))) (\<lambda>receipt.
       res_map (\<lambda>d2. (True, d2)) (announce px (now_event e) room_id ''read.updated'' (read_event px receipt) (with_tables t1 d))))"

subsection \<open>Listings\<close>

definition validate_page_limit :: "int \<Rightarrow> pg_store_error + nat" where
  "validate_page_limit limit = (if 1 \<le> limit \<and> limit \<le> 100 then Inr (nat limit)
     else raised (Inl (ArgumentError ''page limit must be between 1 and 100'')))"

text \<open>Any \<open>before\<close> that is given is looked up, also an empty one.\<close>

definition pg_cursor ::
  "(pystr \<Rightarrow> 'r option) \<Rightarrow> ('r \<Rightarrow> 'k) \<Rightarrow> (pystr \<Rightarrow> store_error) \<Rightarrow> pystr option \<Rightarrow> store_error + 'k option" where
  "pg_cursor lookup key err before = (case before of None \<Rightarrow> Inr None
     | Some b \<Rightarrow> (case lookup b of None \<Rightarrow> Inl (err b) | Some r \<Rightarrow> Inr (Some (key r))))"

definition require_room :: "db \<Rightarrow> pystr \<Rightarrow> store_error + unit" where
  "require_room t room_id = check (get_room_row t room_id \<noteq> None) (RoomNotFoundError room_id)"

definition pg_list_messages ::
  "pystr \<Rightarrow> int \<Rightarrow> pystr option \<Rightarrow> pg_store \<Rightarrow> pg_store_error + message list \<times> pystr option" where
  "pg_list_messages room_id limit before d = res_bind (validate_page_limit limit) (\<lambda>n. let t = ps_tables d in
     raised (res_bind (require_room t room_id) (\<lambda>_.
       res_bind (pg_cursor (get_message_row t room_id) message_key InvalidCursorError before)
         (message_page message_key (room_messages t room_id) n True))))"

definition pg_list_pinned_messages ::
  "pystr \<Rightarrow> int \<Rightarrow> pystr option \<Rightarrow> pg_store \<Rightarrow> pg_store_error + message list \<times> pystr option" where
  "pg_list_pinned_messages room_id limit before d = res_bind (validate_page_limit limit) (\<lambda>n. let t = ps_tables d in
     raised (res_bind (require_room t room_id) (\<lambda>_.
       res_bind (pg_cursor (\<lambda>b. find (\<lambda>m. msg_id m = b) (pinned_messages t room_id)) pin_key InvalidCursorError before)
         (message_page pin_key (pinned_messages t room_id) n False))))"

definition pg_list_replies ::
  "pystr \<Rightarrow> pystr \<Rightarrow> int \<Rightarrow> pystr option \<Rightarrow> pg_store \<Rightarrow> pg_store_error + message list \<times> pystr option" where
  "pg_list_replies room_id parent limit before d = res_bind (validate_page_limit limit) (\<lambda>n. let t = ps_tables d in
     raised (res_bind (require_room t room_id) (\<lambda>_.
       case get_message_row t room_id parent of
         None \<Rightarrow> Inl (MessageNotFoundError parent)
       | Some p \<Rightarrow> (if msg_parent_message_id p \<noteq> None then Inl (ThreadDepthError parent)
           else res_bind (pg_cursor (\<lambda>b. find (\<lambda>m. msg_id m = b) (replies t room_id parent)) message_key InvalidCursorError before)
             (message_page message_key (replies t room_id parent) n True)))))"

definition pg_search_messages ::
  "pg_functions \<Rightarrow> pystr \<Rightarrow> pystr \<Rightarrow> int \<Rightarrow> pystr option \<Rightarrow> pg_store \<Rightarrow> pg_store_error + message list \<times> pystr option" where
  "pg_search_messages px room_id query limit before d = res_bind (validate_page_limit limit) (\<lambda>n. let t = ps_tables d in
     raised (res_bind (normalize_search_query (px_search px) query) (\<lambda>pattern.
       res_bind (require_room t room_id) (\<lambda>_.
       res_bind (pg_cursor (get_message_row t room_id) message_key InvalidCursorError before)
         (message_page message_key (matching_messages (px_search px) pattern t room_id) n True)))))"

definition pg_list_audit_events ::
  "int \<Rightarrow> pystr option \<Rightarrow> pg_store \<Rightarrow> pg_store_error + audit_row list \<times> pystr option" where
  "pg_list_audit_events limit before d = res_bind (validate_page_limit limit) (\<lambda>n. let t = ps_tables d in
     raised (res_bind (pg_cursor (\<lambda>b. find (\<lambda>a. au_id a = b) (db_audits t)) audit_key InvalidAuditCursorError before) (\<lambda>cursor.
       case paginate_rows au_id (select_before audit_key cursor n (db_audits t)) n True of
         (rows, next_before) \<Rightarrow> Inr (map audit_from_row rows, next_before))))"

definition pg_list_webhook_deliveries ::
  "int \<Rightarrow> pystr option \<Rightarrow> string option \<Rightarrow> pg_store \<Rightarrow> pg_store_error + (webhook_delivery \<times> bool) list \<times> pystr option" where
  "pg_list_webhook_deliveries limit before status d = res_bind (validate_page_limit limit) (\<lambda>n.
     if status \<notin> {None, Some ''pending'', Some ''delivered'', Some ''failed''}
     then raised (Inl (ArgumentError ''invalid webhook delivery status''))
     else raised (list_webhook_deliveries_sync n before status (ps_tables d)))"

subsection \<open>Deliveries\<close>

text \<open>
  A worker claims the first due delivery that nobody holds a lease on; \<open>locked\<close> rows are passed over. The
  scan compares with one reading of the clock of the database, the lease runs from a later one, and the
  host's clock is not asked.
\<close>

definition claimable :: "timestamp \<Rightarrow> (pystr \<Rightarrow> bool) \<Rightarrow> pg_store \<Rightarrow> webhook_row \<Rightarrow> bool" where
  "claimable now locked d w \<longleftrightarrow> is_due now w \<and> \<not> locked (wd_id w) \<and>
     (case lease_of d (wd_id w) of None \<Rightarrow> True | Some (owner, expires) \<Rightarrow> expires \<le> now)"

definition set_lease :: "pystr \<Rightarrow> pystr \<Rightarrow> timestamp \<Rightarrow> pg_store \<Rightarrow> pg_store" where
  "set_lease delivery_id owner expires d =
     d\<lparr>ps_leases := (delivery_id, owner, expires) # filter (\<lambda>(i, lease). i \<noteq> delivery_id) (ps_leases d)\<rparr>"

definition drop_lease :: "pystr \<Rightarrow> pg_store \<Rightarrow> pg_store" where
  "drop_lease delivery_id d = d\<lparr>ps_leases := filter (\<lambda>(i, lease). i \<noteq> delivery_id) (ps_leases d)\<rparr>"

definition pg_next_webhook_delivery ::
  "pg_store_options \<Rightarrow> readings \<Rightarrow> (pystr \<Rightarrow> bool) \<Rightarrow> pg_store \<Rightarrow> (webhook_delivery \<times> envelope) option \<times> pg_store" where
  "pg_next_webhook_delivery po clk locked d =
     (case order_by due_key (filter (claimable (clk 0) locked d) (db_webhooks (ps_tables d))) of
        [] \<Rightarrow> (None, d)
      | row # _ \<Rightarrow> (map_option (\<lambda>payload. (fst (webhook_from_row row), payload)) (wr_payload row),
          set_lease (wd_id row) (po_worker_id po) (clk 1 + seconds_delta (po_webhook_lease_seconds po)) d))"

text \<open>
  The outcome of an attempt is taken only from the holder of the lease, at the time of the database; of
  the caller's times only the delay between them is used.
\<close>

definition pg_record_webhook_attempt ::
  "pg_store_options \<Rightarrow> timestamp \<Rightarrow> pystr \<Rightarrow> timestamp \<Rightarrow> int option \<Rightarrow> string option \<Rightarrow> timestamp option \<Rightarrow> bool \<Rightarrow> bool \<Rightarrow>
   pg_store \<Rightarrow> pg_store_error + unit \<times> pg_store" where
  "pg_record_webhook_attempt po now delivery_id attempted_at status_code error next_attempt_at delivered failed d =
     (if delivered \<and> failed then raised (Inl (ArgumentError ''a webhook attempt cannot be delivered and failed''))
      else if \<not> (case lease_of d delivery_id of None \<Rightarrow> False
        | Some (owner, expires) \<Rightarrow> owner = po_worker_id po \<and> now < expires)
      then raised (Inl (WebhookDeliveryNotFoundError delivery_id))
      else res_map (\<lambda>(u, t). (u, drop_lease delivery_id (with_tables t d)))
        (raised (record_webhook_attempt_sync delivery_id now status_code (map_option (take 1000) error)
          (map_option (\<lambda>next. now + max 0 (next - attempted_at)) next_attempt_at) delivered failed (ps_tables d))))"

definition pg_retry_webhook_delivery ::
  "pg_env \<Rightarrow> pystr \<Rightarrow> pg_store \<Rightarrow> pg_store_error + (webhook_delivery \<times> bool) \<times> pg_store" where
  "pg_retry_webhook_delivery e delivery_id d =
     res_map (\<lambda>(r, t). (r, drop_lease delivery_id (with_tables t d)))
       (raised (retry_webhook_delivery_sync (env.truncate e) delivery_id (ps_tables d)))"

subsection \<open>Sessions\<close>

text \<open>The commands of the SQLite store's sessions, run by the PostgreSQL store of one process.\<close>

fun pg_run_command ::
  "pg_store_options \<Rightarrow> pg_functions \<Rightarrow> pg_env \<Rightarrow> command \<Rightarrow> pg_store \<Rightarrow> pg_store_error + pg_store" where
  "pg_run_command po px e (CreateRoom raw actor) d = res_bind (raised (model_error (RoomCreate raw)))
     (\<lambda>payload. res_map snd (pg_create_room (po_config po) px e payload actor d))"
| "pg_run_command po px e (SetRoomState rid archived frozen actor) d =
     res_map snd (pg_set_room_state (po_config po) px e rid archived frozen actor d)"
| "pg_run_command po px e (DeleteRoom rid actor) d = res_map snd (pg_delete_room (po_config po) px e rid actor d)"
| "pg_run_command po px e (RecordExport rid actor) d = res_map snd (prepare_export (po_config po) e rid actor d)"
| "pg_run_command po px e (SetMemberModeration rid subject p actor) d =
     res_map snd (pg_set_member_moderation (po_config po) px e rid subject p actor d)"
| "pg_run_command po px e (CreateMessage a) d = res_map snd (pg_create_message (po_config po) px e a d)"
| "pg_run_command po px e (UpdateMessage rid mid actor content md mn adm subject) d =
     res_map snd (pg_update_message_call (po_config po) px e rid mid actor content md mn adm subject d)"
| "pg_run_command po px e (DeleteMessage rid mid actor adm subject) d =
     res_map snd (pg_delete_message (po_config po) px e rid mid actor adm subject d)"
| "pg_run_command po px e (SetReaction rid mid reactor key present af subject) d =
     res_map snd (pg_set_message_reaction (po_config po) px e rid mid reactor key present af subject d)"
| "pg_run_command po px e (SetPin rid mid pinner actor pinned af subject) d =
     res_map snd (pg_set_message_pin (po_config po) px e rid mid pinner actor pinned af subject d)"
| "pg_run_command po px e (MarkRead rid subject mid) d = res_map snd (pg_mark_read (po_config po) px e rid subject mid d)"
| "pg_run_command po px e (ClearReadState rid subject) d = res_map snd (pg_clear_read_state px e rid subject d)"
| "pg_run_command po px e (RunRetention actor) d = res_map snd (pg_run_retention (po_config po) e actor d)"
| "pg_run_command po px e (RecordWebhookAttempt did t st err nxt dl fl) d =
     res_map snd (pg_record_webhook_attempt po (now_op e) did t st err nxt dl fl d)"
| "pg_run_command po px e (RetryWebhookDelivery did) d = res_map snd (pg_retry_webhook_delivery e did d)"

end
