(* ===== verification/Pg_Store_Laws.thy ===== *)
theory Pg_Store_Laws
  imports Pg_Store_Calls
begin

section \<open>What the PostgreSQL store does to its tables\<close>

text \<open>
  Every method that succeeds does to the tables what the SQLite method of the same name does, and returns
  the same. The clock readings of the two differ in the member check only: PostgreSQL compares a mute and
  a ban with two readings, SQLite with one, for which the later of the two can be taken.
\<close>

definition sqlite_env :: "pg_env \<Rightarrow> env" where
  "sqlite_env e = (env.truncate e)\<lparr>now_enforce := max (now_enforce e) (now_muted e)\<rparr>"

lemma sqlite_env_simps [simp]:
  "now_op (sqlite_env e) = now_op e" "now_audit (sqlite_env e) = now_audit e" "now_op2 (sqlite_env e) = now_op2 e"
  "now_audit2 (sqlite_env e) = now_audit2 e" "uuid_op (sqlite_env e) = uuid_op e" "uuid_audit (sqlite_env e) = uuid_audit e"
  "uuid_audit2 (sqlite_env e) = uuid_audit2 e" "uuid_webhook (sqlite_env e) = uuid_webhook e"
  "now_op (env.truncate e) = now_op e" "uuid_op (env.truncate e) = uuid_op e"
  "now_enforce (sqlite_env e) = max (now_enforce e) (now_muted e)"
  by (simp_all add: sqlite_env_def env.truncate_def)

subsection \<open>The pieces\<close>

lemma raised_Inr [simp]: "raised r = Inr v \<longleftrightarrow> r = Inr v"
  by (simp add: raised_def split: sum.splits)

lemma raised_foundation_Inr [simp]: "raised_foundation r = Inr v \<longleftrightarrow> r = Inr v"
  by (simp add: raised_foundation_def split: sum.splits)

lemma raised_Inl [simp]: "raised (Inl e) \<noteq> Inr v"
  by (simp add: raised_def)

lemma with_tables_simps [simp]:
  "ps_tables (with_tables t d) = t" "fd_events (with_tables t d) = fd_events d"
  "ps_tables (clear_leases P d) = ps_tables d" "fd_events (clear_leases P d) = fd_events d"
  "ps_tables (scrub_message_event_payloads batch d) = ps_tables d"
  "fd_events (scrub_message_event_payloads batch d) = map (scrub_event batch) (fd_events d)"
  "ps_tables (set_lease i w u d) = ps_tables d" "ps_tables (drop_lease i d) = ps_tables d"
  "fd_events (set_lease i w u d) = fd_events d" "fd_events (drop_lease i d) = fd_events d"
  by (simp_all add: with_tables_def clear_leases_def scrub_message_event_payloads_def set_lease_def drop_lease_def)

lemma scrub_batch_Nil: "scrub_batch_webhooks [] t = t"
  by (simp add: scrub_batch_webhooks_def scrub_def update_where_def)

lemma pg_scrub_simps [simp]:
  "ps_tables (pg_scrub_message_webhooks batch d) = scrub_batch_webhooks batch (ps_tables d)"
  "fd_events (pg_scrub_message_webhooks batch d) = fd_events d"
  "ps_tables (pg_scrub_room_webhooks rid d) = scrub_room_webhooks rid (ps_tables d)"
  "fd_events (pg_scrub_room_webhooks rid d) = fd_events d"
  by (auto simp: pg_scrub_message_webhooks_def pg_scrub_room_webhooks_def scrub_batch_Nil)

lemma announce_Inr:
  "announce px now rid ty payload d = Inr d' \<longleftrightarrow>
     validate_event rid (str ty) payload = Inr payload \<and> px_jsonb px payload \<and>
     d' = d\<lparr>fd_events := fd_events d @ [\<lparr>re_sequence = fd_next_sequence d, re_room_id = rid, re_event_type = str ty,
       re_payload = payload, re_created_at = now\<rparr>], fd_next_sequence := fd_next_sequence d + 1\<rparr>"
proof -
  have "normalized = payload" if "validate_event rid (str ty) payload = Inr normalized" for normalized
    using that by (auto simp: validate_event_def split: if_splits json.splits option.splits)
  then show ?thesis by (auto simp: announce_def append_event_def)
qed

lemma announce_tables: "announce px now rid ty payload d = Inr d' \<Longrightarrow> ps_tables d' = ps_tables d"
  by (auto simp: announce_Inr)

lemma pg_insert_audit_Inr:
  "pg_insert_audit cfg uid now action actor room details d = Inr d' \<longleftrightarrow> pg_text 1 128 actor \<and>
     (\<exists>t. insert_audit cfg uid now action actor room details (ps_tables d) = Inr t \<and> d' = with_tables t d)"
  by (auto simp: pg_insert_audit_def)

lemma pg_insert_webhook_Inr:
  "pg_insert_webhook cfg uid ev rid res t x d = Inr d' \<longleftrightarrow>
     (\<exists>t'. insert_webhook cfg uid ev rid res t x (ps_tables d) = Inr t' \<and> d' = with_tables t' d)"
  by (auto simp: pg_insert_webhook_def)

lemmas pg_piece_Inr = pg_insert_audit_Inr pg_insert_webhook_Inr

lemma gate_as_sqlite:
  "lock_writable_room e rid aa af subject d = Inr u \<Longrightarrow> room_write_gate (sqlite_env e) rid aa af subject (ps_tables d) = Inr u"
proof -
  assume ok: "lock_writable_room e rid aa af subject d = Inr u"
  have "pg_enforce_member_write e rid subject t = Inr u \<Longrightarrow>
      enforce_member_write_sync (max (now_enforce e) (now_muted e)) rid subject t = Inr u" for t
    by (cases subject; cases "get_control_row t rid (the subject)")
       (simp_all add: pg_enforce_member_write_def enforce_member_write_sync_def split: option.splits if_splits)
  with ok show ?thesis
    by (cases "get_room_row (ps_tables d) rid") (auto simp: lock_writable_room_def room_write_gate_def split: if_splits)
qed

lemma lock_message_Inr: "lock_message rid mid d = Inr row \<longleftrightarrow> get_message_row (ps_tables d) rid mid = Some row"
  by (auto simp: lock_message_def split: option.splits)

subsection \<open>Rooms, moderation and read states\<close>

lemma pg_create_room_tables:
  "pg_create_room cfg px e p actor d = Inr (r, d') \<Longrightarrow> create_room cfg (sqlite_env e) p actor (ps_tables d) = Inr (r, ps_tables d')"
  by (cases "rc_id p") (auto simp: pg_create_room_def create_room_def create_room_sync_def Let_def pg_piece_Inr list_ex_key
      dest!: announce_tables split: if_splits)

lemma announce_states_tables:
  "announce_states px rid a f r clks cs d = Inr d' \<Longrightarrow> ps_tables d' = ps_tables d"
  by (induction px rid a f r clks cs d rule: announce_states.induct) (auto simp: Let_def dest: announce_tables)

lemma pg_delete_room_tables:
  "pg_delete_room cfg px e rid actor d = Inr (n, d') \<Longrightarrow> delete_room_sync cfg (sqlite_env e) rid actor (ps_tables d) = Inr (n, ps_tables d')"
  by (auto simp: pg_delete_room_def delete_room_sync_def Let_def pg_piece_Inr message_batch_def
      dest!: announce_tables split: option.splits if_splits)

lemma prepare_export_tables:
  "prepare_export cfg e rid actor d = Inr (ms, d') \<Longrightarrow>
     record_export_requested_sync cfg (sqlite_env e) rid actor (ps_tables d) = Inr ((), ps_tables d')"
  by (auto simp: prepare_export_def record_export_requested_sync_def pg_piece_Inr split: option.splits if_splits)

lemma pg_mark_read_tables:
  "pg_mark_read cfg px e rid subject mid d = Inr (m, d') \<Longrightarrow>
     mark_read_sync cfg (sqlite_env e) rid subject mid (ps_tables d) = Inr (m, ps_tables d')"
  by (auto simp: pg_mark_read_def mark_read_sync_def Let_def dest!: announce_tables split: if_splits)

lemma pg_clear_read_state_tables:
  "pg_clear_read_state px e rid subject d = Inr (b, d') \<Longrightarrow> clear_read_state_sync rid subject (ps_tables d) = Inr (b, ps_tables d')"
  by (auto simp: pg_clear_read_state_def dest!: announce_tables split: if_splits)

lemma pg_set_member_moderation_tables:
  assumes "pg_set_member_moderation cfg px e rid subject p actor d = Inr (c, d')" "py_strip rid = rid" "py_strip subject = subject"
  shows "set_member_moderation_sync cfg (sqlite_env e) rid subject p actor (ps_tables d) = Inr (c, ps_tables d')"
  using assms
  by (auto simp: pg_set_member_moderation_def set_member_moderation_sync_def Let_def pg_piece_Inr moderation_from_row_def
      dest!: announce_tables split: if_splits)

subsection \<open>Trimming\<close>

abbreviation with_ids :: "message_row list \<Rightarrow> message_row \<Rightarrow> bool" where
  "with_ids ms \<equiv> \<lambda>m. msg_id m \<in> msg_id ` set ms"

lemma delete_no_rows: "delete_message_rows (\<lambda>m. False) t = t"
proof -
  have "orphan [] = (\<lambda>m. m)" by (auto simp: orphan_def split: option.splits)
  then show ?thesis by (simp add: delete_message_rows_def)
qed

lemma scrub_delete_commute:
  "delete_message_rows P (scrub_batch_webhooks batch t) = scrub_batch_webhooks batch (delete_message_rows P t)"
  by (simp add: delete_message_rows_def scrub_batch_webhooks_def Let_def)

lemma batch_as_scrub:
  "snd (delete_messages_with_webhook_scrub sel t) =
     scrub_batch_webhooks (message_batch sel) (delete_message_rows (with_ids sel) t)"
  by (cases "sel = []") (auto simp: delete_messages_with_webhook_scrub_def message_batch_def Let_def image_image
      scrub_delete_commute delete_no_rows scrub_batch_Nil)

lemma scrub_batch_append: "scrub_batch_webhooks b2 (scrub_batch_webhooks b1 t) = scrub_batch_webhooks (b1 @ b2) t"
proof -
  have "scrub P2 (scrub P1 ws) = scrub (\<lambda>w. P1 w \<or> P2 w) ws"
    if "\<And>w p. P2 (w\<lparr>wr_payload := p\<rparr>) = P2 w" for P1 P2 and ws :: "webhook_row list"
  proof -
    have same: "pending (w\<lparr>wr_payload := p\<rparr>) = pending w" for w :: webhook_row and p
      by (simp add: pending_def)
    have eq: "scrub P ws = concat (map (\<lambda>w. if pending w \<and> P w then [] else if P w then [w\<lparr>wr_payload := None\<rparr>] else [w]) ws)"
      for P and ws :: "webhook_row list"
      by (induction ws) (simp_all add: scrub_def update_where_def)
    show ?thesis unfolding eq by (induction ws) (simp_all add: that same)
  qed
  from this [of "\<lambda>w. like_message (wd_event_type w) \<and> (wr_resource_id w, wd_room_id w) \<in> set b2"
      "\<lambda>w. like_message (wd_event_type w) \<and> (wr_resource_id w, wd_room_id w) \<in> set b1" "db_webhooks t"]
  show ?thesis by (simp add: scrub_batch_webhooks_def conj_disj_distribL)
qed

lemma scrub_batch_simps [simp]:
  "db_messages (scrub_batch_webhooks b t) = db_messages t" "db_audits (scrub_batch_webhooks b t) = db_audits t"
  "room_messages (scrub_batch_webhooks b t) r = room_messages t r"
  by (simp_all add: scrub_batch_webhooks_def room_messages_def)

lemma audit_scrub_commute:
  "insert_audit cfg uid now action actor room details t = Inr t' \<Longrightarrow>
     insert_audit cfg uid now action actor room details (scrub_batch_webhooks b t) = Inr (scrub_batch_webhooks b t')"
  by (auto simp: insert_audit_Inr scrub_batch_webhooks_def)

lemma beyond_excess:
  "beyond n ms = rev (take (length ms - n) (order_by message_key ms))"
  by (simp add: beyond_def order_by_desc_def order_by_def drop_rev)

lemma beyond_small: "length ms \<le> n \<Longrightarrow> beyond n ms = []"
  by (simp add: beyond_def)

lemma length_delete_ids:
  assumes "distinct (map msg_id (db_messages t))" "set ms \<subseteq> set (db_messages t)" "distinct ms"
  shows "length (db_messages (delete_message_rows (with_ids ms) t)) = length (db_messages t) - length ms"
proof -
  have "length (filter (with_ids ms) (db_messages t)) = length ms"
  proof -
    have "set (filter (with_ids ms) (db_messages t)) = set ms"
      using assms(1,2) by (auto dest: distinct_key_inj)
    moreover have "distinct (filter (with_ids ms) (db_messages t))"
      using assms(1) by (simp add: distinct_map)
    ultimately show ?thesis using assms(3) by (metis distinct_card)
  qed
  then show ?thesis using sum_length_filter_compl [of "with_ids ms" "db_messages t"]
    by (simp add: delete_message_rows_def Let_def)
qed

lemma prune_rows_tables [simp]:
  "ps_tables (prune_rows ms d) = delete_message_rows (with_ids ms) (ps_tables d)"
  by (simp add: prune_rows_def delete_ids_def)

lemma distinct_ids_delete:
  "distinct (map msg_id (db_messages t)) \<Longrightarrow> distinct (map msg_id (db_messages (delete_message_rows P t)))"
  by (simp add: delete_message_rows_def Let_def comp_def distinct_map_filter_key)

lemma pg_trim_messages_tables:
  assumes run: "pg_trim_messages cfg e rid now d = Inr d'" and ids: "distinct (map msg_id (db_messages (ps_tables d)))"
  shows "trim_messages cfg (sqlite_env e) rid now (ps_tables d) = Inr (ps_tables d')"
proof -
  define A where "A = (case message_retention_days cfg of None \<Rightarrow> [] | Some days \<Rightarrow> expired (now - days_delta days) (ps_tables d))"
  define t1 where "t1 = delete_message_rows (with_ids A) (ps_tables d)"
  define B where "B = beyond (max_stored_messages_per_room cfg) (room_messages t1 rid)"
  define t2 where "t2 = delete_message_rows (with_ids B) t1"
  define C where "C = beyond (max_stored_messages cfg) (db_messages t2)"
  define t3 where "t3 = delete_message_rows (with_ids C) t2"
  let ?s = "\<lambda>X. scrub_batch_webhooks (message_batch X)"
  have ids1: "distinct (map msg_id (db_messages t1))" unfolding t1_def by (rule distinct_ids_delete [OF ids])
  have B: "set B \<subseteq> set (db_messages t1)" "distinct B"
    using ids1 by (auto simp: B_def beyond_def room_messages_def distinct_map order_by_desc_def dest!: in_set_dropD
        intro!: distinct_drop)
  have r1: "(case message_retention_days cfg of None \<Rightarrow> (0, ps_tables d)
      | Some days \<Rightarrow> delete_messages_with_webhook_scrub (expired (now - days_delta days) (ps_tables d)) (ps_tables d)) =
      (length A, ?s A t1)"
  proof (cases "message_retention_days cfg")
    case None
    then show ?thesis by (simp add: A_def t1_def message_batch_def scrub_batch_Nil delete_no_rows)
  next
    case (Some days)
    then show ?thesis unfolding A_def t1_def by (simp add: prod_eq_iff batch_as_scrub)
  qed
  have eB: "room_excess cfg rid (?s A t1) = rev B"
    by (simp add: B_def beyond_excess room_excess_def)
  have r2: "delete_messages_with_webhook_scrub (rev B) (?s A t1) = (length B, ?s (A @ B) t2)"
    by (simp add: prod_eq_iff batch_as_scrub scrub_delete_commute scrub_batch_append t2_def message_batch_def)
       (rule scrub_batch_cong, auto)
  have eC: "global_excess cfg (?s (A @ B) t2) = rev C"
    by (simp add: C_def beyond_excess global_excess_def)
  have r3: "delete_messages_with_webhook_scrub (rev C) (?s (A @ B) t2) = (length C, ?s (A @ B @ C) t3)"
    by (simp add: prod_eq_iff batch_as_scrub scrub_delete_commute scrub_batch_append t3_def message_batch_def)
       (rule scrub_batch_cong, auto)
  have batches: "trim_batches cfg rid now (ps_tables d) = ((length A, length B, length C), ?s (A @ B @ C) t3)"
    unfolding trim_batches_def Let_def r1 by (simp add: eB r2 eC r3)
  have roomB: "(if max_stored_messages_per_room cfg < length (room_messages t1 rid)
      then beyond (max_stored_messages_per_room cfg) (room_messages t1 rid) else []) = B"
    by (simp add: B_def beyond_small)
  have count: "length (db_messages t2) = length (db_messages t1) - length B"
    unfolding t2_def by (rule length_delete_ids [OF ids1 B])
  have globalC: "(if max_stored_messages cfg < length (db_messages t1) - length B
      then beyond (max_stored_messages cfg) (db_messages t2) else []) = C"
    by (simp add: C_def beyond_small count)
  let ?d3 = "prune_rows C (prune_rows B (prune_rows A d))"
  have trim: "pg_trim_messages cfg e rid now d = (if A \<noteq> [] \<or> B \<noteq> [] \<or> C \<noteq> []
      then res_map (pg_scrub_message_webhooks (message_batch (A @ B @ C)))
        (pg_insert_audit cfg (uuid_audit e) (now_audit e) ''retention.automatic'' (str ''system:retention'') None
          ([(str ''age_deleted'', ACount (length A)), (str ''global_cap_deleted'', ACount (length C)),
            (str ''room_cap_deleted'', ACount (length B)), (str ''trigger_room_id'', AText rid)] @
           (case message_retention_days cfg of None \<Rightarrow> []
            | Some days \<Rightarrow> [(str ''cutoff'', ATime (Some (now - days_delta days)))])) ?d3)
      else Inr ?d3)"
    unfolding pg_trim_messages_def Let_def A_def [symmetric] prune_rows_tables t1_def [symmetric] roomB t2_def [symmetric] globalC ..
  have final: "ps_tables ?d3 = t3" by (simp add: t1_def t2_def t3_def)
  show ?thesis
  proof (cases "A \<noteq> [] \<or> B \<noteq> [] \<or> C \<noteq> []")
    case True
    with run show ?thesis
      by (auto simp: trim_messages_def batches trim pg_insert_audit_Inr final simp del: prune_rows_tables intro!: audit_scrub_commute)
  next
    case False
    with run have "ps_tables d' = t3" using final by (auto simp: trim simp del: prune_rows_tables)
    with False show ?thesis by (simp add: trim_messages_def batches message_batch_def scrub_batch_Nil)
  qed
qed

end
