(* ===== verification/Pg_Store_Refinement.thy ===== *)
theory Pg_Store_Refinement
  imports Pg_Store_Laws
begin

section \<open>The PostgreSQL store as the SQLite store\<close>

text \<open>
  The message methods, and with them all commands: what the PostgreSQL store makes of its tables is what
  the SQLite store makes of them. The request models have validated what a command carries; the column
  checks of SQLite hold in all rows.
\<close>

definition checked :: "db \<Rightarrow> bool" where
  "checked t \<longleftrightarrow> (\<forall>m\<in>set (db_messages t). message_checks m)"

text \<open>What the request models promise of the arguments of a command.\<close>

fun as_validated :: "pg_env \<Rightarrow> command \<Rightarrow> bool" where
  "as_validated e (SetMemberModeration rid subject p actor) \<longleftrightarrow> py_strip rid = rid \<and> py_strip subject = subject"
| "as_validated e (CreateMessage a) \<longleftrightarrow> Message (new_message (sqlite_env e) a) = Inr (new_message (sqlite_env e) a) \<and>
     res_all AttachmentReference (ca_attachments a) = Inr (ca_attachments a) \<and> ca_client_message_id a \<noteq> Some []"
| "as_validated e (UpdateMessage rid mid actor content md mn adm subject) \<longleftrightarrow>
     (case md of None \<Rightarrow> True | Some v \<Rightarrow> validate_message_metadata v = Inr v)"
| "as_validated e c \<longleftrightarrow> True"

subsection \<open>Column checks\<close>

lemma Message_checks:
  assumes "Message m = Inr n"
  shows "message_checks (message_row_of n author)"
proof -
  from assms have "opt_field (str_field 1 64) (msg_pinned_by m) = Inr (msg_pinned_by n)"
    and md: "metadata_field (msg_metadata m) = Inr (msg_metadata n)"
    and att: "validate_attachment_references (msg_attachments m) = Inr (msg_attachments n)"
    and mn: "validate_mentioned_subjects (mentions_json (msg_mentioned_subjects m)) = Inr (msg_mentioned_subjects n)"
    by (auto simp: Message_def require_complete_pin_metadata_Inr)
  then have "case msg_pinned_by n of None \<Rightarrow> True | Some s \<Rightarrow> 1 \<le> length s \<and> length s \<le> 64"
    by (auto simp: opt_field_eq_Inr str_field_eq_Inr split: option.splits)
  moreover have "utf8_len (json_dumps (mentions_json (msg_mentioned_subjects n))) \<le> 3871"
    using mn by (intro utf8_len_mentions) (auto simp: validate_mentioned_subjects_Inr MESSAGE_MENTIONS_MAX_COUNT_def)
  ultimately show ?thesis
    using md att by (auto simp: message_checks_def message_row_of_def message.defs metadata_field_def
        validate_message_metadata_Inr validate_attachment_references_Inr MESSAGE_METADATA_MAX_BYTES_def MESSAGE_ATTACHMENTS_MAX_BYTES_def)
qed

lemma validated_mentions:
  assumes "message_from_row m = Inr v"
  shows "utf8_len (json_dumps (mentions_json (msg_mentioned_subjects m))) \<le> 4096"
proof -
  from assms obtain rs as where "Message ((message.truncate m)\<lparr>msg_reactions := rs, msg_attachments := as\<rparr>) = Inr v"
    by (auto simp: message_from_row_Inr)
  then obtain ss where "validate_mentioned_subjects (mentions_json (msg_mentioned_subjects m)) = Inr ss"
    by (auto simp: Message_def message.truncate_def)
  then have "utf8_len (json_dumps (mentions_json (msg_mentioned_subjects m))) \<le> 3871"
    by (intro utf8_len_mentions)
       (auto simp: validate_mentioned_subjects_Inr MESSAGE_MENTIONS_MAX_COUNT_def mentions_json_def inj_map_eq_map inj_def)
  then show ?thesis by simp
qed

lemma edit_row_checks:
  assumes "message_checks m" "case md of None \<Rightarrow> True | Some v \<Rightarrow> validate_message_metadata v = Inr v"
    and "message_from_row (edit_row content md mn t m) = Inr v"
  shows "message_checks (edit_row content md mn t m)"
  using assms(1,2) validated_mentions [OF assms(3)]
  by (auto simp: message_checks_def edit_row_def validate_message_metadata_Inr MESSAGE_METADATA_MAX_BYTES_def split: option.splits)

lemma pg_update_message_Inr:
  "pg_update_message px mid f t = Inr (m, t') \<longleftrightarrow>
     (\<forall>r\<in>set (db_messages t). msg_id r = mid \<longrightarrow> pg_message_checks px (f r)) \<and>
     t' = t\<lparr>db_messages := update_where (\<lambda>r. msg_id r = mid) f (db_messages t)\<rparr> \<and> reread_message mid t' = Inr m"
  by (auto simp: pg_update_message_def Let_def list_ex_iff)

text \<open>The row a statement returned is the row read again.\<close>

lemma updated_row:
  assumes "pg_update_message px mid f t = Inr (m, t')" "distinct (map msg_id (db_messages t))" "r \<in> set (db_messages t)" "msg_id r = mid"
    and "\<And>r. msg_id (f r) = msg_id r"
  shows "message_from_row (f r) = Inr m"
proof -
  have "get_message_by_id t mid = Some r"
    unfolding get_message_by_id_def using assms(2-4) by (metis find_by_key)
  then have "get_message_by_id t' mid = Some (f r)"
    using assms(1,4,5) find_update_where [where P="\<lambda>r. msg_id r = mid" and Q="\<lambda>r. msg_id r = mid" and f=f and xs="db_messages t"]
    by (simp add: pg_update_message_Inr get_message_by_id_def)
  then show ?thesis using assms(1) by (simp add: pg_update_message_Inr reread_message_def)
qed

subsection \<open>Rooms and retention\<close>

lemma pg_set_flag_Inr:
  "pg_set_flag cfg uid now action actor rid wanted is_set f change d = Inr (cs, d') \<longleftrightarrow>
     (if wanted = None \<or> wanted = Some is_set then cs = [] \<and> d' = d
      else cs = [change] \<and> pg_insert_audit cfg uid now action actor (Some rid) []
        (with_tables (update_room rid f (ps_tables d)) d) = Inr d')"
  by (auto simp: pg_set_flag_def)

lemma set_archived_as_flag:
  "pg_set_flag cfg (uuid_audit e) (now_audit e) (if archived = Some True then ''room.archived'' else ''room.unarchived'') actor
       (ro_id row) archived (ro_archived_at row \<noteq> None)
       (\<lambda>r. r\<lparr>ro_archived_at := if archived = Some True then Some (now_op e) else None\<rparr>) ''archived'' d = Inr (cs, d') \<Longrightarrow>
     set_archived cfg (sqlite_env e) row archived actor (ps_tables d) = Inr (cs, ps_tables d')"
  by (cases archived) (auto simp: pg_set_flag_Inr set_archived_def pg_insert_audit_Inr split: if_splits)

lemma set_frozen_as_flag:
  "pg_set_flag cfg (uuid_audit2 e) (now_audit2 e) (if frozen = Some True then ''room.frozen'' else ''room.unfrozen'') actor
       (ro_id row) frozen (ro_frozen_at row \<noteq> None)
       (\<lambda>r. r\<lparr>ro_frozen_at := if frozen = Some True then Some (now_op2 e) else None\<rparr>) ''frozen'' d = Inr (cs, d') \<Longrightarrow>
     set_frozen cfg (sqlite_env e) row frozen actor (ps_tables d) = Inr (cs, ps_tables d')"
  by (cases frozen) (auto simp: pg_set_flag_Inr set_frozen_def pg_insert_audit_Inr split: if_splits)

lemma pg_set_room_state_tables:
  assumes "pg_set_room_state cfg px e rid a f actor d = Inr (r, d')"
  shows "set_room_state_sync cfg (sqlite_env e) rid a f actor (ps_tables d) = Inr (r, ps_tables d')"
proof -
  from assms obtain row c1 d1 c2 d2 fin where row: "get_room_row (ps_tables d) rid = Some row"
    and A: "pg_set_flag cfg (uuid_audit e) (now_audit e) (if a = Some True then ''room.archived'' else ''room.unarchived'') actor
       rid a (ro_archived_at row \<noteq> None) (\<lambda>r. r\<lparr>ro_archived_at := if a = Some True then Some (now_op e) else None\<rparr>) ''archived'' d = Inr (c1, d1)"
    and F: "pg_set_flag cfg (uuid_audit2 e) (now_audit2 e) (if f = Some True then ''room.frozen'' else ''room.unfrozen'') actor
       rid f (ro_frozen_at row \<noteq> None) (\<lambda>r. r\<lparr>ro_frozen_at := if f = Some True then Some (now_op2 e) else None\<rparr>) ''frozen'' d1 = Inr (c2, d2)"
    and fin: "get_room_row (ps_tables d2) rid = Some fin" "r = (room_from_row fin, c1 @ c2)"
    and ann: "announce_states px rid a f (room_from_row fin) [now_event e, now_event2 e] (c1 @ c2) d2 = Inr d'"
    unfolding pg_set_room_state_def by (auto split: option.splits)
  have id: "ro_id row = rid" using row by (auto simp: get_room_row_def dest: find_SomeD)
  have "fin = row" if "c1 @ c2 = []"
    using that A F row fin(1) by (simp add: pg_set_flag_Inr split: if_splits)
  then show ?thesis
    using set_archived_as_flag [of cfg e a actor row d] set_frozen_as_flag [of cfg e f actor row d1] A F row fin announce_states_tables [OF ann]
    by (simp add: set_room_state_sync_def Let_def id)
qed

lemma deleted_batch:
  "delete_messages_with_webhook_scrub sel t = (length sel, scrub_batch_webhooks (message_batch sel) (delete_message_rows (with_ids sel) t))"
  by (simp add: prod_eq_iff batch_as_scrub)

lemma pg_run_retention_tables:
  assumes "pg_run_retention cfg e actor d = Inr (r, d')"
  shows "run_retention cfg (sqlite_env e) actor (ps_tables d) = Inr (r, ps_tables d')"
proof -
  from assms obtain days d1 where days: "message_retention_days cfg = Some days"
    and r: "r = (length (expired (now_op e - days_delta days) (ps_tables d)), now_op e - days_delta days)"
    and d1: "pg_insert_audit cfg (uuid_audit e) (now_audit e) ''retention.executed'' actor None
      [(str ''deleted_messages'', ACount (fst r)), (str ''cutoff'', ATime (Some (snd r)))]
      (prune_rows (expired (snd r) (ps_tables d)) d) = Inr d1"
      "d' = pg_scrub_message_webhooks (message_batch (expired (snd r) (ps_tables d))) d1"
    by (auto simp: pg_run_retention_def Let_def split: option.splits)
  from d1(1) have "insert_audit cfg (uuid_audit e) (now_audit e) ''retention.executed'' actor None
      [(str ''deleted_messages'', ACount (fst r)), (str ''cutoff'', ATime (Some (snd r)))]
      (ps_tables (prune_rows (expired (snd r) (ps_tables d)) d)) = Inr (ps_tables d1)"
    by (auto simp: pg_insert_audit_Inr)
  from audit_scrub_commute [OF this, of "message_batch (expired (snd r) (ps_tables d))"] show ?thesis
    by (simp add: run_retention_def days run_retention_sync_def Let_def deleted_batch d1(2) r)
qed

subsection \<open>Messages\<close>

lemma pg_insert_message_row_Inr:
  assumes "pg_insert_message_row px m t = Inr t'" "message_checks m"
  shows "insert_message_row m t = Inr t'"
proof -
  have keys: "list_ex (\<lambda>x. msg_room_id x = msg_room_id m \<and> msg_client_message_id x = msg_client_message_id m) (db_messages t) \<longleftrightarrow>
      (msg_room_id m, msg_client_message_id m) \<in> (\<lambda>x. (msg_room_id x, msg_client_message_id x)) ` set (db_messages t)"
    unfolding list_ex_iff image_iff prod.inject by metis
  show ?thesis
    using assms unfolding pg_insert_message_row_def insert_message_row_def list_ex_key keys by (simp split: if_splits)
qed

lemma sorted_metadata:
  assumes "Message m = Inr m"
  shows "m\<lparr>msg_metadata := sort_key fst (msg_metadata m)\<rparr> = m"
proof -
  have "metadata_field (msg_metadata m) = Inr (msg_metadata m)"
    by (rule Message_fields(14) [OF assms])
  then have "msg_metadata m = sort_key fst (strip_metadata (msg_metadata m))"
    by (simp add: metadata_field_def validate_message_metadata_Inr)
  then have "sort_key fst (msg_metadata m) = msg_metadata m"
    by (metis sorted_sort_key sort_key_id_if_sorted)
  then show ?thesis by simp
qed

lemma fresh_row_decoded:
  assumes "Message m = Inr m" "res_all AttachmentReference (msg_attachments m) = Inr (msg_attachments m)" "msg_reactions m = []"
  shows "message_from_row (message_row_of m author) = Inr m"
  using assms by (cases m) (auto simp: message_from_row_Inr message_row_of_def message.defs)

lemma new_message_env: "new_message (env.truncate e) a = new_message (sqlite_env e) a"
  by (simp add: new_message_def)

lemma new_row:
  assumes "as_validated e (CreateMessage a)"
  shows "new_message_row e a = message_row_of (new_message (sqlite_env e) a) (ca_author_subject a)"
    "message_from_row (new_message_row e a) = Inr (new_message (sqlite_env e) a)"
    "message_checks (new_message_row e a)"
proof -
  let ?m = "new_message (sqlite_env e) a"
  have M: "Message ?m = Inr ?m" "res_all AttachmentReference (msg_attachments ?m) = Inr (msg_attachments ?m)" "msg_reactions ?m = []"
    using assms by (simp_all add: new_message_def)
  show row: "new_message_row e a = message_row_of ?m (ca_author_subject a)"
    using sorted_metadata [OF M(1)] by (simp add: new_message_row_def new_message_env) (simp add: new_message_def)
  show "message_from_row (new_message_row e a) = Inr ?m" unfolding row by (rule fresh_row_decoded [OF M])
  show "message_checks (new_message_row e a)" unfolding row by (rule Message_checks [OF M(1)])
qed

lemma pg_create_message_cases:
  assumes "pg_create_message cfg px e a d = Inr (r, d')" and "as_validated e (CreateMessage a)"
  obtains (existing) row m where "lock_writable_room e (ca_room_id a) False (ca_allow_frozen a) (ca_member_subject a) d = Inr ()"
      "find_client_message (ps_tables d) (ca_room_id a) (ca_client_message_id a) = Some row" "message_from_row row = Inr m" "r = (m, False)" "d' = d"
    | (new) t1 d2 p m d3 where "lock_writable_room e (ca_room_id a) False (ca_allow_frozen a) (ca_member_subject a) d = Inr ()"
      "find_client_message (ps_tables d) (ca_room_id a) (ca_client_message_id a) = None"
      "check_parent (ps_tables d) (ca_room_id a) (ca_parent_message_id a) = Inr ()"
      "pg_insert_message_row px (new_message_row e a) (ps_tables d) = Inr t1"
      "pg_trim_messages cfg e (ca_room_id a) (now_op e) (with_tables t1 d) = Inr d2"
      "get_message_by_id (ps_tables d2) (uuid_op e) = Some p" "message_from_row p = Inr m"
      "pg_insert_webhook cfg (uuid_webhook e) ''message.created'' (ca_room_id a) (msg_id m) (msg_created_at m) (MessageData None m) d2 = Inr d3"
      "announce px (now_event e) (ca_room_id a) ''message.created'' (message_event px ''message.created'' m) d3 = Inr d'" "r = (m, True)"
proof -
  have F: "(if ca_client_message_id a = None then None else find (\<lambda>m. msg_room_id m = ca_room_id a \<and>
         msg_client_message_id m = ca_client_message_id a) (db_messages (ps_tables d))) =
       find_client_message (ps_tables d) (ca_room_id a) (ca_client_message_id a)"
    using assms(2) by (cases "ca_client_message_id a") (auto simp: find_client_message_def truthy_def)
  have N: "msg_created_at (new_message (sqlite_env e) a) = now_op e" "msg_id (new_message (sqlite_env e) a) = uuid_op e"
    by (simp_all add: new_message_def)
  from assms(1) show thesis
    unfolding pg_create_message_def F
    by (cases "find_client_message (ps_tables d) (ca_room_id a) (ca_client_message_id a)")
       (auto simp: Let_def new_row(2) [OF assms(2)] N split: option.splits intro: existing new)
qed

lemma pg_create_message_tables:
  assumes run: "pg_create_message cfg px e a d = Inr (r, d')" and valid: "as_validated e (CreateMessage a)"
    and inv: "store_inv cfg (ps_tables d)"
  shows "create_message_sync cfg (sqlite_env e) a (ps_tables d) = Inr (r, ps_tables d')"
  using run valid
proof (cases rule: pg_create_message_cases)
  case existing
  then show ?thesis using gate_as_sqlite [OF existing(1)] by (simp add: create_message_sync_def)
next
  case (new t1 d2 p m d3)
  have ins: "insert_message_row (new_message_row e a) (ps_tables d) = Inr t1"
    by (rule pg_insert_message_row_Inr [OF new(4) new_row(3) [OF valid]])
  then have "distinct (map msg_id (db_messages t1))"
    using inv by (auto simp: insert_message_row_Inr store_inv_def tables_inv_def keys_inv_def)
  then have trim: "trim_messages cfg (sqlite_env e) (ca_room_id a) (now_op e) t1 = Inr (ps_tables d2)"
    using pg_trim_messages_tables [OF new(5)] by simp
  have "Message (new_message (sqlite_env e) a) = Inr (new_message (sqlite_env e) a)" using valid by simp
  then show ?thesis
    using new gate_as_sqlite [OF new(1)] ins trim announce_tables [OF new(9)]
    by (auto simp: create_message_sync_def model_error_def new_row(1) [OF valid] pg_insert_webhook_Inr new_message_def)
qed

lemma dumpable_validated: "case md of None \<Rightarrow> True | Some v \<Rightarrow> validate_message_metadata v = Inr v \<Longrightarrow>
    case md of None \<Rightarrow> True | Some v \<Rightarrow> dumpable v"
  by (fastforce simp: dumpable_def list_all_iff validate_message_metadata_Inr split: option.splits meta_value.splits if_splits)

lemma pg_update_message_cases:
  assumes "pg_update_message_call cfg px e rid mid actor content md mn adm subject d = Inr (m, d')"
  obtains row t1 d2 d3 where "lock_writable_room e rid False adm subject d = Inr ()"
    "get_message_row (ps_tables d) rid mid = Some row" "msg_deleted_at row = None" "adm \<or> msg_sender row = actor"
    "pg_update_message px mid (edit_row content md mn (now_op e)) (ps_tables d) = Inr (m, t1)"
    "pg_insert_audit cfg (uuid_audit e) (now_audit e) ''message.updated'' actor (Some rid)
      [(str ''message_id'', AText mid)] (with_tables t1 d) = Inr d2"
    "pg_insert_webhook cfg (uuid_webhook e) ''message.updated'' rid (msg_id m)
      (case msg_edited_at m of Some t \<Rightarrow> t | None \<Rightarrow> msg_created_at m) (MessageData (Some actor) m) d2 = Inr d3"
    "announce px (now_event e) rid ''message.updated'' (message_event px ''message.updated'' m) d3 = Inr d'"
  using assms unfolding pg_update_message_call_def
  by (auto simp: lock_message_Inr split: if_splits intro: that)

lemma changed_row:
  assumes "pg_update_message px mid f t = Inr (m, t1)" "distinct (map msg_id (db_messages t))"
    and "get_message_row t rid mid = Some row" "\<And>r. msg_id (f r) = msg_id r"
  shows "message_from_row (f row) = Inr m"
  using updated_row [OF assms(1,2) _ _ assms(4)] get_message_row_SomeD [OF assms(3)] by simp

text \<open>The statement and the row it returned, as SQLite's update and the row read back.\<close>

lemma change_as_sqlite:
  assumes "pg_update_message px mid f t = Inr (m, t1)" "distinct (map msg_id (db_messages t))"
    and "get_message_row t rid mid = Some row" "message_checks (f row)"
  shows "update_message_row mid f t = Inr t1" "reread_message mid t1 = Inr m"
proof -
  have "r = row" if "r \<in> set (db_messages t)" "msg_id r = mid" for r
    using that assms(2) get_message_row_SomeD [OF assms(3)] by (auto intro: distinct_key_inj)
  then show "update_message_row mid f t = Inr t1" "reread_message mid t1 = Inr m"
    using assms(1,4) by (auto simp: pg_update_message_Inr update_message_row_def list_ex_iff)
qed

lemma distinct_ids: "store_inv cfg t \<Longrightarrow> distinct (map msg_id (db_messages t))"
  by (simp add: store_inv_def tables_inv_def keys_inv_def)

lemma pg_update_message_tables:
  assumes run: "pg_update_message_call cfg px e rid mid actor content md mn adm subject d = Inr (m, d')"
    and valid: "as_validated e (UpdateMessage rid mid actor content md mn adm subject)"
    and inv: "store_inv cfg (ps_tables d)" and chk: "checked (ps_tables d)"
  shows "update_message_sync cfg (sqlite_env e) rid mid actor content md mn adm subject (ps_tables d) = Inr (m, ps_tables d')"
  using run
proof (cases rule: pg_update_message_cases)
  case (1 row t1 d2 d3)
  let ?f = "edit_row content md mn (now_op e)"
  have dec: "message_from_row (?f row) = Inr m"
    by (rule changed_row [OF 1(5) distinct_ids [OF inv] 1(2)]) (simp add: edit_row_def)
  have ok: "message_checks (?f row)"
    by (rule edit_row_checks [OF _ _ dec]) (use chk valid get_message_row_SomeD [OF 1(2)] in \<open>auto simp: checked_def\<close>)
  have up: "update_message_row mid ?f (ps_tables d) = Inr t1" "reread_message mid t1 = Inr m"
    by (rule change_as_sqlite [OF 1(5) distinct_ids [OF inv] 1(2) ok])+
  from 1(6) have aud: "insert_audit cfg (uuid_audit e) (now_audit e) ''message.updated'' actor (Some rid)
      [(str ''message_id'', AText mid)] t1 = Inr (ps_tables d2)" by (auto simp: pg_insert_audit_Inr)
  have "msg_edited_at m = Some (now_op e)" using message_from_row_fields(6) [OF dec] by (simp add: edit_row_def)
  then show ?thesis
    using 1 up aud gate_as_sqlite [OF 1(1)] reread_after_audit [OF aud, of mid] announce_tables [OF 1(8)]
      dumpable_validated [of md] valid
    by (auto simp: update_message_sync_def pg_insert_webhook_Inr)
qed

lemma pg_delete_message_cases:
  assumes "pg_delete_message cfg px e rid mid actor adm subject d = Inr (r, d')"
  obtains (again) row m where "lock_writable_room e rid adm adm subject d = Inr ()"
      "get_message_row (ps_tables d) rid mid = Some row" "adm \<or> msg_sender row = actor" "msg_deleted_at row \<noteq> None"
      "message_from_row row = Inr m" "r = (m, False)" "d' = d"
    | (deleted) row m t1 d2 d3 where "lock_writable_room e rid adm adm subject d = Inr ()"
      "get_message_row (ps_tables d) rid mid = Some row" "adm \<or> msg_sender row = actor" "msg_deleted_at row = None"
      "pg_update_message px mid (tombstone_row (now_op e)) (delete_message_reactions mid (ps_tables d)) = Inr (m, t1)"
      "pg_insert_audit cfg (uuid_audit e) (now_audit e) ''message.deleted'' actor (Some rid)
        [(str ''message_id'', AText mid)] (scrub_message_event_payloads [(msg_id m, msg_room_id m)] (with_tables t1 d)) = Inr d2"
      "pg_insert_webhook cfg (uuid_webhook e) ''message.deleted'' rid (msg_id m)
        (case msg_deleted_at m of Some t \<Rightarrow> t | None \<Rightarrow> msg_created_at m) (MessageData (Some actor) m)
        (pg_scrub_message_webhooks [(msg_id m, msg_room_id m)] d2) = Inr d3"
      "announce px (now_event e) rid ''message.deleted'' (message_event px ''message.deleted'' m) d3 = Inr d'" "r = (m, True)"
  using assms unfolding pg_delete_message_def
  by (auto simp: lock_message_Inr split: if_splits intro: again deleted)

lemma scrub_one: "scrub_batch_webhooks [(mid, rid)] t = scrub_message_webhooks rid mid t"
  by (simp add: scrub_batch_webhooks_def scrub_message_webhooks_def conj_ac)

lemma tombstone_checks: "message_checks m \<Longrightarrow> message_checks (tombstone_row now m)"
  by (simp add: message_checks_def tombstone_row_def metadata_json_def attachments_json_def mentions_json_def sort_key_def)

lemma reactions_gone [simp]:
  "db_messages (delete_message_reactions mid t) = db_messages t"
  "get_message_row (delete_message_reactions mid t) rid i = get_message_row t rid i"
  by (simp_all add: delete_message_reactions_def get_message_row_def)

lemma row_names_clean:
  assumes "store_inv cfg t" "m \<in> set (db_messages t)"
  shows "py_strip (msg_id m) = msg_id m" "py_strip (msg_room_id m) = msg_room_id m"
  using assms id_clean room_clean [of t "msg_room_id m"] by (auto simp: store_inv_def tables_inv_def refs_inv_def)

lemma pg_delete_message_tables:
  assumes run: "pg_delete_message cfg px e rid mid actor adm subject d = Inr (r, d')"
    and inv: "store_inv cfg (ps_tables d)" and chk: "checked (ps_tables d)"
  shows "delete_message_sync cfg (sqlite_env e) rid mid actor adm subject (ps_tables d) = Inr (r, ps_tables d')"
  using run
proof (cases rule: pg_delete_message_cases)
  case again
  then show ?thesis using gate_as_sqlite [OF again(1)] by (auto simp: delete_message_sync_def)
next
  case (deleted row m t1 d2 d3)
  let ?f = "tombstone_row (now_op e)" and ?t = "delete_message_reactions mid (ps_tables d)"
  note r = get_message_row_SomeD [OF deleted(2)]
  have ids: "distinct (map msg_id (db_messages ?t))" and row: "get_message_row ?t rid mid = Some row"
    using distinct_ids [OF inv] deleted(2) by simp_all
  have ok: "message_checks (?f row)" using chk r by (simp add: checked_def tombstone_checks)
  have dec: "message_from_row (?f row) = Inr m" by (rule changed_row [OF deleted(5) ids row]) (simp add: tombstone_row_def)
  have up: "update_message_row mid ?f ?t = Inr t1" "reread_message mid t1 = Inr m"
    by (rule change_as_sqlite [OF deleted(5) ids row ok])+
  from deleted(6) have aud: "insert_audit cfg (uuid_audit e) (now_audit e) ''message.deleted'' actor (Some rid)
      [(str ''message_id'', AText mid)] t1 = Inr (ps_tables d2)" by (auto simp: pg_insert_audit_Inr)
  have "msg_deleted_at m = Some (now_op e)" "msg_id m = mid" "msg_room_id m = rid"
    using message_from_row_fields(1,2,7) [OF dec] r row_names_clean [OF inv, of row] by (simp_all add: tombstone_row_def)
  then show ?thesis
    using deleted up aud gate_as_sqlite [OF deleted(1)] reread_after_audit [OF aud, of mid] announce_tables [OF deleted(8)]
    by (auto simp: delete_message_sync_def pg_insert_webhook_Inr scrub_one)
qed

subsection \<open>Reactions, pins and deliveries\<close>

lemma pg_reaction_cases:
  assumes "pg_set_message_reaction cfg px e rid mid reactor key present af subject d = Inr (mu, d')"
  obtains (same) row m t1 where "lock_writable_room e rid False af subject d = Inr ()"
      "get_message_row (ps_tables d) rid mid = Some row" "msg_deleted_at row = None"
      "toggle_reaction (now_op e) rid mid reactor key present (ps_tables d) = Inr (False, t1)"
      "message_from_row row = Inr m" "ReactionMutation m key reactor present False (now_op e) = Inr mu" "d' = d"
    | (changed) row t1 summaries m t2 d3 where "lock_writable_room e rid False af subject d = Inr ()"
      "get_message_row (ps_tables d) rid mid = Some row" "msg_deleted_at row = None"
      "toggle_reaction (now_op e) rid mid reactor key present (ps_tables d) = Inr (True, t1)"
      "res_all ReactionSummary (reaction_summaries (db_reactions t1) mid) = Inr summaries"
      "pg_update_message px mid (set_summaries summaries) t1 = Inr (m, t2)"
      "ReactionMutation m key reactor present True (now_op e) = Inr mu"
      "pg_insert_webhook cfg (uuid_webhook e) ''message.reaction.updated'' rid mid (now_op e) (ReactionData mu)
        (with_tables t2 d) = Inr d3"
      "announce px (now_event e) rid ''message.reaction.updated'' (reaction_event px mu) d3 = Inr d'"
  using assms unfolding pg_set_message_reaction_def
  by (auto simp: lock_message_Inr model_error_Inr split: if_splits intro: same changed)

lemma pg_pin_cases:
  assumes "pg_set_message_pin cfg px e rid mid pinner actor pinned af subject d = Inr (mu, d')"
  obtains (same) row m where "lock_writable_room e rid False af subject d = Inr ()"
      "get_message_row (ps_tables d) rid mid = Some row" "msg_deleted_at row = None" "(msg_pinned_at row \<noteq> None) = pinned"
      "message_from_row row = Inr m" "PinMutation m pinner pinned False (now_op e) = Inr mu" "d' = d"
    | (changed) row m t1 d2 d3 where "lock_writable_room e rid False af subject d = Inr ()"
      "get_message_row (ps_tables d) rid mid = Some row" "msg_deleted_at row = None" "(msg_pinned_at row \<noteq> None) \<noteq> pinned"
      "pg_update_message px mid (pin_row (now_op e) pinner pinned) (ps_tables d) = Inr (m, t1)"
      "pg_insert_audit cfg (uuid_audit e) (now_audit e) ''message.pin.updated'' actor (Some rid)
        [(str ''message_id'', AText mid), (str ''pinned'', AFlag pinned)] (with_tables t1 d) = Inr d2"
      "PinMutation m pinner pinned True (now_op e) = Inr mu"
      "pg_insert_webhook cfg (uuid_webhook e) ''message.pin.updated'' rid mid (now_op e) (PinData mu) d2 = Inr d3"
      "announce px (now_event e) rid ''message.pin.updated'' (pin_event px mu) d3 = Inr d'"
  using assms unfolding pg_set_message_pin_def
  by (auto simp: lock_message_Inr model_error_Inr split: if_splits intro: same changed)

lemma pg_set_message_reaction_tables:
  assumes run: "pg_set_message_reaction cfg px e rid mid reactor key present af subject d = Inr (mu, d')"
    and inv: "store_inv cfg (ps_tables d)" and chk: "checked (ps_tables d)"
  shows "set_message_reaction_sync cfg (sqlite_env e) rid mid reactor key present af subject (ps_tables d) = Inr (mu, ps_tables d')"
  using run
proof (cases rule: pg_reaction_cases)
  case same
  then show ?thesis using gate_as_sqlite [OF same(1)] by (auto simp: set_message_reaction_sync_def model_error_def)
next
  case (changed row t1 summaries m t2 d3)
  have msgs: "db_messages t1 = db_messages (ps_tables d)" using changed(4) by (auto elim: toggle_reaction_cases)
  then have ids: "distinct (map msg_id (db_messages t1))" and row: "get_message_row t1 rid mid = Some row"
    using distinct_ids [OF inv] changed(2) by (simp_all add: get_message_row_def)
  have "message_checks (set_summaries summaries row)"
    using chk get_message_row_SomeD [OF changed(2)] by (simp add: checked_def message_checks_def set_summaries_def)
  note up = change_as_sqlite [OF changed(6) ids row this]
  show ?thesis
    using changed up gate_as_sqlite [OF changed(1)] announce_tables [OF changed(9)]
    by (auto simp: set_message_reaction_sync_def model_error_def refresh_summaries_def pg_insert_webhook_Inr)
qed

lemma pg_set_message_pin_tables:
  assumes run: "pg_set_message_pin cfg px e rid mid pinner actor pinned af subject d = Inr (mu, d')"
    and inv: "store_inv cfg (ps_tables d)" and chk: "checked (ps_tables d)"
  shows "set_message_pin_sync cfg (sqlite_env e) rid mid pinner actor pinned af subject (ps_tables d) = Inr (mu, ps_tables d')"
  using run
proof (cases rule: pg_pin_cases)
  case same
  then show ?thesis using gate_as_sqlite [OF same(1)] by (auto simp: set_message_pin_sync_def model_error_def)
next
  case (changed row m t1 d2 d3)
  let ?f = "pin_row (now_op e) pinner pinned"
  note r = get_message_row_SomeD [OF changed(2)]
  have "pg_message_checks px (?f row)" using changed(5) r by (simp add: pg_update_message_Inr)
  then have "message_checks (?f row)"
    using chk r by (auto simp: checked_def message_checks_def pg_message_checks_def pin_row_def pg_text_def pg_text_option_def)
  note up = change_as_sqlite [OF changed(5) distinct_ids [OF inv] changed(2) this]
  from changed(6) have aud: "insert_audit cfg (uuid_audit e) (now_audit e) ''message.pin.updated'' actor (Some rid)
      [(str ''message_id'', AText mid), (str ''pinned'', AFlag pinned)] t1 = Inr (ps_tables d2)" by (auto simp: pg_insert_audit_Inr)
  then show ?thesis
    using changed up gate_as_sqlite [OF changed(1)] announce_tables [OF changed(9)] reread_after_audit [OF aud, of mid]
    by (auto simp: set_message_pin_sync_def model_error_def pg_insert_webhook_Inr)
qed

lemma pg_record_webhook_attempt_tables:
  "pg_record_webhook_attempt po now did t st err nxt dl fl d = Inr (u, d') \<Longrightarrow>
     record_webhook_attempt_sync did now st (map_option (take 1000) err)
       (map_option (\<lambda>next. now + max 0 (next - t)) nxt) dl fl (ps_tables d) = Inr ((), ps_tables d')"
  by (auto simp: pg_record_webhook_attempt_def split: if_splits)

lemma pg_retry_webhook_delivery_tables:
  "pg_retry_webhook_delivery e did d = Inr (r, d') \<Longrightarrow> retry_webhook_delivery_sync (sqlite_env e) did (ps_tables d) = Inr (r, ps_tables d')"
  by (auto simp: pg_retry_webhook_delivery_def retry_webhook_delivery_sync_def Let_def split: option.splits if_splits)

subsection \<open>All commands\<close>

text \<open>The outcome of an attempt is recorded with the delay of the caller on the clock of the database.\<close>

fun as_sqlite :: "pg_env \<Rightarrow> command \<Rightarrow> command" where
  "as_sqlite e (RecordWebhookAttempt did t st err nxt dl fl) = RecordWebhookAttempt did (now_op e) st
     (map_option (take 1000) err) (map_option (\<lambda>next. now_op e + max 0 (next - t)) nxt) dl fl"
| "as_sqlite e c = c"

lemma pg_run_command_tables:
  assumes "pg_run_command po px e c d = Inr d'" and "as_validated e c" and "store_inv (po_config po) (ps_tables d)" "checked (ps_tables d)"
  shows "run_command (po_config po) (sqlite_env e) (as_sqlite e c) (ps_tables d) = Inr (ps_tables d')"
proof (cases c)
  case (CreateMessage a)
  then show ?thesis using assms by (auto dest: pg_create_message_tables)
next
  case (UpdateMessage rid mid actor content md mn adm subject)
  then show ?thesis using assms by (auto dest!: pg_update_message_tables)
qed (use assms in \<open>auto dest: pg_create_room_tables pg_set_room_state_tables pg_delete_room_tables prepare_export_tables
    pg_set_member_moderation_tables pg_delete_message_tables pg_set_message_reaction_tables pg_set_message_pin_tables
    pg_mark_read_tables pg_clear_read_state_tables pg_run_retention_tables pg_record_webhook_attempt_tables
    pg_retry_webhook_delivery_tables\<close>)

subsection \<open>The column checks of SQLite\<close>

lemma checked_frame: "set (db_messages t') \<subseteq> set (db_messages t) \<Longrightarrow> checked t \<Longrightarrow> checked t'"
  by (auto simp: checked_def)

lemma checks_orphan [simp]: "message_checks (orphan gone m) = message_checks m"
proof (cases "orphan gone m = m")
  case False
  then have "orphan gone m = m\<lparr>msg_parent_message_id := None\<rparr>"
    by (auto simp: orphan_def split: option.splits if_splits)
  then show ?thesis by (simp add: message_checks_def)
qed simp

lemma checked_delete: "checked t \<Longrightarrow> checked (delete_message_rows P t)"
  by (auto simp: checked_def in_delete_message_rows)

lemma checked_scrub [simp]: "checked (scrub_batch_webhooks b t) = checked t" "checked (scrub_message_webhooks r i t) = checked t"
  by (simp_all add: checked_def scrub_message_webhooks_def)

lemma checked_batch: "checked t \<Longrightarrow> checked (snd (delete_messages_with_webhook_scrub sel t))"
  by (simp add: deleted_batch checked_delete)

lemma checked_update: "update_message_row mid f t = Inr t' \<Longrightarrow> checked t \<Longrightarrow> checked t'"
  by (auto simp: update_message_row_def checked_def list_ex_iff elim!: in_update_whereE split: if_splits)

lemma checked_insert: "insert_message_row m t = Inr t' \<Longrightarrow> checked t \<Longrightarrow> checked t'"
  by (auto simp: insert_message_row_def checked_def split: if_splits)

lemma checked_audit: "insert_audit cfg uid now action actor room details t = Inr t' \<Longrightarrow> checked t' = checked t"
  by (auto simp: checked_def insert_audit_Inr)

lemma checked_webhook: "insert_webhook cfg uid ev rid res ts x t = Inr t' \<Longrightarrow> checked t' = checked t"
  using insert_webhook_tables by (auto simp: checked_def)

lemma checked_trim:
  assumes "trim_messages cfg e rid now t = Inr t'" "checked t"
  shows "checked t'"
proof -
  have b: "checked (snd (trim_batches cfg rid now t))"
    unfolding trim_batches_def Let_def snd_conv by (intro checked_batch) (use assms(2) in \<open>auto intro: checked_batch split: option.splits\<close>)
  show ?thesis using assms(1) by (cases rule: trim_messages_cases) (use b in \<open>auto dest: checked_audit\<close>)
qed

end
