(* ===== verification/Pg_Store_System.thy ===== *)
theory Pg_Store_System
  imports Pg_Store_Refinement
begin

section \<open>The PostgreSQL store as a state machine\<close>

text \<open>
  Any number of processes run their stores over one database. A step is one transaction: a call of a
  store, the claim of a delivery, or what other parts append to and prune from the event log. The
  processes have the same limits, and a worker of their own each.
\<close>

subsection \<open>Column checks of every command\<close>

lemma checked_set_flag:
  "set_archived cfg e row a actor t = Inr (c, t') \<Longrightarrow> checked t \<Longrightarrow> checked t'"
  "set_frozen cfg e row a actor t = Inr (c, t') \<Longrightarrow> checked t \<Longrightarrow> checked t'"
  by (auto simp: set_archived_def set_frozen_def checked_audit checked_def update_room_def
      dest!: checked_audit split: option.splits if_splits)

lemma checked_room_state:
  "set_room_state_sync cfg e rid a f actor t = Inr (r, t') \<Longrightarrow> checked t \<Longrightarrow> checked t'"
  unfolding set_room_state_sync_def Let_def by (auto split: option.splits dest: checked_set_flag)

lemma checked_create_room:
  "create_room cfg e p actor t = Inr (r, t') \<Longrightarrow> checked t \<Longrightarrow> checked t'"
  by (auto simp: create_room_def create_room_sync_def Let_def checked_def dest!: checked_audit split: if_splits)

lemma checked_delete_room:
  assumes "delete_room_sync cfg e rid actor t = Inr (n, t')" "checked t"
  shows "checked t'"
  using assms(1)
proof (cases rule: delete_room_sync_Inr)
  case (1 row d1)
  have "checked (delete_message_rows (\<lambda>m. msg_room_id m = rid) (scrub_room_webhooks rid d1))"
    by (rule checked_delete) (use checked_audit [OF 1(4)] assms(2) in \<open>simp add: checked_def scrub_room_webhooks_def\<close>)
  then show ?thesis by (simp add: 1(5) delete_room_row_def Let_def checked_def)
qed

lemma checked_moderation:
  "set_member_moderation_sync cfg e rid subj p actor t = Inr (r, t') \<Longrightarrow> checked t \<Longrightarrow> checked t'"
  by (auto simp: set_member_moderation_sync_def Let_def checked_def dest!: checked_webhook checked_audit split: if_splits)

lemma checked_create_message:
  assumes "create_message_sync cfg e a t = Inr ((m, c), t')" "checked t"
  shows "checked t'"
  using assms(1)
proof (cases rule: create_message_cases)
  case (new message d1 d2 p)
  show ?thesis using checked_trim [OF new(6) checked_insert [OF new(5) assms(2)]] checked_webhook [OF new(9)] by simp
qed (use assms(2) in simp)

lemma checked_update_message:
  assumes "update_message_sync cfg e rid mid actor content md mn adm subj t = Inr (m, t')" "checked t"
  shows "checked t'"
  using assms(1)
proof (cases rule: update_message_cases)
  case (1 row d1 d2)
  show ?thesis using checked_update [OF 1(5) assms(2)] checked_audit [OF 1(6)] checked_webhook [OF 1(8)] by simp
qed

lemma checked_delete_message:
  assumes "delete_message_sync cfg e rid mid actor adm subj t = Inr ((m, c), t')" "checked t"
  shows "checked t'"
  using assms(1)
proof (cases rule: delete_message_cases)
  case (deleted row d1 d2)
  have "checked (delete_message_reactions mid t)" using assms(2) by (simp add: checked_def)
  then show ?thesis using checked_update [OF deleted(5)] checked_audit [OF deleted(6)] checked_webhook [OF deleted(8)] by simp
qed (use assms(2) in simp)

lemma checked_reaction:
  assumes "set_message_reaction_sync cfg e rid mid reactor key present af subj t = Inr (mu, t')" "checked t"
  shows "checked t'"
  using assms(1)
proof (cases rule: set_message_reaction_cases)
  case (changed row d1 d2 m)
  have "checked d1" using changed(3) assms(2) by (auto simp: checked_def elim!: toggle_reaction_cases)
  then show ?thesis using changed(4) checked_webhook [OF changed(7)] by (auto simp: refresh_summaries_def dest: checked_update)
qed (use assms(2) in simp)

lemma checked_pin:
  assumes "set_message_pin_sync cfg e rid mid pinner actor pinned af subj t = Inr (mu, t')" "checked t"
  shows "checked t'"
  using assms(1)
proof (cases rule: set_message_pin_cases)
  case (changed row d1 d2 m)
  show ?thesis using checked_update [OF changed(4) assms(2)] checked_audit [OF changed(5)] checked_webhook [OF changed(8)] by simp
qed (use assms(2) in simp)

lemma checked_retention:
  assumes "run_retention cfg e actor t = Inr (r, t')" "checked t"
  shows "checked t'"
proof -
  from assms(1) obtain cutoff details where
    "insert_audit cfg (uuid_audit e) (now_audit e) ''retention.executed'' actor None details
       (snd (delete_messages_with_webhook_scrub (expired cutoff t) t)) = Inr t'"
    by (auto simp: run_retention_def run_retention_sync_def Let_def deleted_batch split: option.splits)
  from checked_audit [OF this] checked_batch [OF assms(2)] show ?thesis by simp
qed

lemma run_command_checked:
  assumes "run_command cfg e c t = Inr t'" "checked t"
  shows "checked t'"
proof (cases c)
  case (CreateMessage a)
  then show ?thesis using assms checked_create_message by auto
next
  case (DeleteMessage rid mid actor adm subj)
  then show ?thesis using assms checked_delete_message by auto
next
  case (RecordExport rid actor)
  then show ?thesis using assms by (auto simp: record_export_requested_sync_def checked_audit split: option.splits)
next
  case (MarkRead rid subj mid)
  then obtain mu where "mark_read_sync cfg e rid subj mid t = Inr (mu, t')" using assms by auto
  then show ?thesis using assms(2) by (cases rule: mark_read_cases) (auto simp: store_cursor_def checked_def)
next
  case (RetryWebhookDelivery did)
  then show ?thesis using assms by (auto simp: checked_def elim!: retry_webhook_delivery_Inr)
next
  case (ClearReadState rid subj)
  then show ?thesis using assms by (auto simp: clear_read_state_sync_def checked_def split: if_splits)
next
  case (RecordWebhookAttempt did t st err nxt dl fl)
  then show ?thesis using assms by (auto simp: record_webhook_attempt_Inr checked_def)
qed (use assms in \<open>auto dest: checked_create_room checked_room_state checked_delete_room checked_moderation
    checked_update_message checked_reaction checked_pin checked_retention\<close>)

subsection \<open>The three deletions of a trim\<close>

lemma pg_trim_messages_cases:
  assumes "pg_trim_messages cfg e rid now d = Inr d'"
  obtains A B C where "set A \<subseteq> set (db_messages (ps_tables d))" "set B \<subseteq> set (db_messages (ps_tables (prune_rows A d)))"
    "set C \<subseteq> set (db_messages (ps_tables (prune_rows B (prune_rows A d))))"
    "d' = prune_rows C (prune_rows B (prune_rows A d)) \<or>
     (\<exists>details d4. pg_insert_audit cfg (uuid_audit e) (now_audit e) ''retention.automatic'' (str ''system:retention'') None details
        (prune_rows C (prune_rows B (prune_rows A d))) = Inr d4 \<and> d' = pg_scrub_message_webhooks (message_batch (A @ B @ C)) d4)"
proof -
  have sub: "set (beyond n (room_messages t rid)) \<subseteq> set (db_messages t)" "set (beyond n (db_messages t)) \<subseteq> set (db_messages t)" for n t
    by (auto simp: beyond_def room_messages_def order_by_desc_def dest!: in_set_dropD)
  define A where "A = (case message_retention_days cfg of None \<Rightarrow> [] | Some days \<Rightarrow> expired (now - days_delta days) (ps_tables d))"
  define d1 where "d1 = prune_rows A d"
  define B where "B = (if max_stored_messages_per_room cfg < length (room_messages (ps_tables d1) rid)
      then beyond (max_stored_messages_per_room cfg) (room_messages (ps_tables d1) rid) else [])"
  define d2 where "d2 = prune_rows B d1"
  define C where "C = (if max_stored_messages cfg < length (db_messages (ps_tables d1)) - length B
      then beyond (max_stored_messages cfg) (db_messages (ps_tables d2)) else [])"
  define d3 where "d3 = prune_rows C d2"
  have "set A \<subseteq> set (db_messages (ps_tables d))" by (auto simp: A_def expired_def split: option.splits)
  moreover have "set B \<subseteq> set (db_messages (ps_tables d1))"
    unfolding B_def using sub(1) by (cases "max_stored_messages_per_room cfg < length (room_messages (ps_tables d1) rid)") auto
  moreover have "set C \<subseteq> set (db_messages (ps_tables d2))"
    unfolding C_def using sub(2) by (cases "max_stored_messages cfg < length (db_messages (ps_tables d1)) - length B") auto
  moreover from assms have "d' = d3 \<or> (\<exists>details d4. pg_insert_audit cfg (uuid_audit e) (now_audit e) ''retention.automatic''
      (str ''system:retention'') None details d3 = Inr d4 \<and> d' = pg_scrub_message_webhooks (message_batch (A @ B @ C)) d4)"
    unfolding pg_trim_messages_def Let_def A_def [symmetric] d1_def [symmetric] B_def [symmetric] d2_def [symmetric]
      C_def [symmetric] d3_def [symmetric] by (auto split: if_splits)
  ultimately show thesis using that by (simp only: d1_def d2_def d3_def)
qed

subsection \<open>Steps\<close>

definition pg_env_ok :: "pg_env \<Rightarrow> bool" where
  "pg_env_ok e \<longleftrightarrow> env_ok (sqlite_env e)"

definition empty_pg_store :: pg_store where
  "empty_pg_store = foundation.extend empty_foundation \<lparr>ps_tables = empty_db, ps_leases = []\<rparr>"

definition message_type :: "pystr \<Rightarrow> bool" where
  "message_type ty \<longleftrightarrow> take 8 ty = str ''message.''"

inductive pg_store_step :: "store_config \<Rightarrow> pg_functions \<Rightarrow> pg_store \<Rightarrow> pg_store \<Rightarrow> bool" for cfg px where
  store_call: "pg_env_ok e \<Longrightarrow> as_validated e c \<Longrightarrow> PostgresChatStore po = Inr po \<Longrightarrow> po_config po = cfg \<Longrightarrow>
    pg_run_command po px e c d = Inr d' \<Longrightarrow> pg_store_step cfg px d d'"
| claim: "PostgresChatStore po = Inr po \<Longrightarrow> po_config po = cfg \<Longrightarrow> pg_store_step cfg px d (snd (pg_next_webhook_delivery po clk locked d))"
| other_event: "\<not> message_type ty \<Longrightarrow> append_event (px_jsonb px) now rid ty payload d = Inr (n, d') \<Longrightarrow> pg_store_step cfg px d d'"
| prune: "prune_events clk kept max_events max_age limit d = Inr (r, d') \<Longrightarrow> pg_store_step cfg px d d'"

inductive_cases pg_store_stepE: "pg_store_step cfg px d d'"

inductive pg_store_reachable :: "store_config \<Rightarrow> pg_functions \<Rightarrow> pg_store \<Rightarrow> bool" for cfg px where
  pg_start: "pg_store_reachable cfg px empty_pg_store"
| pg_move: "pg_store_reachable cfg px d \<Longrightarrow> pg_store_step cfg px d d' \<Longrightarrow> pg_store_reachable cfg px d'"

lemma append_event_tables: "append_event jsonb now rid ty payload d = Inr (n, d') \<Longrightarrow> ps_tables d' = ps_tables d \<and> ps_leases d' = ps_leases d"
  by (auto simp: append_event_def split: if_splits)

lemma prune_events_tables: "prune_events clk kept me ma l d = Inr (r, d') \<Longrightarrow> ps_tables d' = ps_tables d \<and> ps_leases d' = ps_leases d"
  by (auto simp: prune_events_def Let_def split: if_splits)

lemma claim_tables: "ps_tables (snd (pg_next_webhook_delivery po clk locked d)) = ps_tables d"
  by (simp add: pg_next_webhook_delivery_def split: list.splits)

lemma empty_pg_store_simps [simp]:
  "ps_tables empty_pg_store = empty_db" "ps_leases empty_pg_store = []" "fd_events empty_pg_store = []"
  by (simp_all add: empty_pg_store_def empty_foundation_def foundation.defs)

text \<open>A step of the PostgreSQL store is a step of the SQLite store, or leaves the tables alone.\<close>

lemma pg_step_refines:
  assumes "pg_store_step cfg px d d'" "reachable cfg (ps_tables d)" "checked (ps_tables d)"
  shows "reachable cfg (ps_tables d') \<and> checked (ps_tables d')"
  using assms(1)
proof cases
  case (store_call e c po)
  have run: "run_command cfg (sqlite_env e) (as_sqlite e c) (ps_tables d) = Inr (ps_tables d')"
    using pg_run_command_tables [OF store_call(5,2)] reachable_store_inv [OF assms(2)] assms(3) store_call(4) by simp
  then show ?thesis
    using assms store_call(1) by (auto simp: pg_env_ok_def intro: reachable.move commit_step run_command_checked)
qed (use assms in \<open>auto simp: claim_tables dest: append_event_tables prune_events_tables\<close>)

lemma pg_reachable_refines:
  "pg_store_reachable cfg px d \<Longrightarrow> reachable cfg (ps_tables d) \<and> checked (ps_tables d)"
proof (induction rule: pg_store_reachable.induct)
  case pg_start
  have "checked empty_db" by (simp add: checked_def empty_db_def)
  then show ?case by (simp add: reachable.start)
qed (blast dest: pg_step_refines)

end
