(* ===== verification/Pg_Store_Log.thy ===== *)
theory Pg_Store_Log
  imports Pg_Store_System
begin

section \<open>What the event log keeps of deleted messages\<close>

text \<open>
  A message event carries the message it is about, and for a reaction or a pin who made it. Once the
  message is deleted, trimmed or gone with its room, the events in the log keep neither its content nor
  anything of what was attached to it.
\<close>

subsection \<open>What an event carries\<close>

definition carries :: "pg_functions \<Rightarrow> realtime_event \<Rightarrow> message \<Rightarrow> pystr option \<Rightarrow> bool" where
  "carries px ev m who \<longleftrightarrow>
     (\<exists>ty\<in>{''message.created'', ''message.updated'', ''message.deleted''}. re_event_type ev = str ty \<and>
        re_payload ev = message_event px ty m \<and> who = None) \<or>
     (re_event_type ev = str ''message.reaction.updated'' \<and>
        (\<exists>rm. re_payload ev = reaction_event px rm \<and> rm_message rm = m \<and> who = Some (rm_reactor rm))) \<or>
     (re_event_type ev = str ''message.pin.updated'' \<and>
        (\<exists>p. re_payload ev = pin_event px p \<and> pm_message p = m \<and> who = Some (pm_pinner p)))"

definition blank :: "message \<Rightarrow> message" where
  "blank m = m\<lparr>msg_content := [], msg_reactions := [], msg_pinned_at := None, msg_pinned_by := None,
     msg_metadata := [], msg_attachments := [], msg_mentioned_subjects := []\<rparr>"

definition erased :: "message \<Rightarrow> pystr option \<Rightarrow> bool" where
  "erased m who \<longleftrightarrow> blank m = m \<and> who \<in> {None, Some (str ''[deleted]'')}"

definition live :: "db \<Rightarrow> pystr \<Rightarrow> pystr \<Rightarrow> bool" where
  "live t room_id message_id \<longleftrightarrow>
     (\<exists>m\<in>set (db_messages t). msg_id m = message_id \<and> msg_room_id m = room_id \<and> msg_deleted_at m = None)"

definition event_discreet :: "pg_functions \<Rightarrow> db \<Rightarrow> realtime_event \<Rightarrow> bool" where
  "event_discreet px t ev \<longleftrightarrow> (is_message_event ev \<longrightarrow>
     (\<exists>m who. carries px ev m who \<and> (live t (re_room_id ev) (msg_id m) \<or> erased m who)))"

definition log_discreet :: "pg_functions \<Rightarrow> pg_store \<Rightarrow> bool" where
  "log_discreet px d \<longleftrightarrow> (\<forall>ev\<in>set (fd_events d). event_discreet px (ps_tables d) ev)"

subsection \<open>Scrubbing\<close>

declare str_eq_iff [simp]

lemma scrub_message_event:
  "ty \<in> {''message.created'', ''message.updated'', ''message.deleted''} \<Longrightarrow>
     scrub_payload (str ty) (message_event px ty m) = message_event px ty (blank m)"
  by (auto simp: scrub_payload_def Let_def message_event_def typed_def in_message_def message_json_def blank_def
      metadata_json_def attachments_json_def mentions_json_def opt_json_def sort_key_def)

lemma scrub_reaction_event:
  "scrub_payload (str ''message.reaction.updated'') (reaction_event px rm) =
     reaction_event px (rm\<lparr>rm_message := blank (rm_message rm), rm_reactor := str ''[deleted]''\<rparr>)"
  by (auto simp: scrub_payload_def Let_def reaction_event_def typed_def in_message_def message_json_def blank_def
      metadata_json_def attachments_json_def mentions_json_def opt_json_def sort_key_def)

lemma scrub_pin_event:
  "scrub_payload (str ''message.pin.updated'') (pin_event px p) =
     pin_event px (p\<lparr>pm_message := blank (pm_message p), pm_pinner := str ''[deleted]''\<rparr>)"
  by (auto simp: scrub_payload_def Let_def pin_event_def typed_def in_message_def message_json_def blank_def
      metadata_json_def attachments_json_def mentions_json_def opt_json_def sort_key_def)

lemma carries_id: "carries px ev m who \<Longrightarrow> event_message_id (re_payload ev) = Some (msg_id m)"
  by (auto simp: carries_def event_message_id_def message_event_def reaction_event_def pin_event_def typed_def
      json_field_def message_json_def)

lemma blank_simps [simp]: "msg_id (blank m) = msg_id m" "blank (blank m) = blank m"
  by (simp_all add: blank_def)

lemma scrubbed_carries:
  assumes "carries px ev m who"
  obtains who' where "carries px (ev\<lparr>re_payload := scrub_payload (re_event_type ev) (re_payload ev)\<rparr>) (blank m) who'" "erased (blank m) who'"
proof -
  from assms consider (plain) ty where "ty \<in> {''message.created'', ''message.updated'', ''message.deleted''}"
      "re_event_type ev = str ty" "re_payload ev = message_event px ty m"
    | (reaction) rm where "re_event_type ev = str ''message.reaction.updated''" "re_payload ev = reaction_event px rm" "rm_message rm = m"
    | (pin) p where "re_event_type ev = str ''message.pin.updated''" "re_payload ev = pin_event px p" "pm_message p = m"
    by (auto simp: carries_def)
  then show thesis
  proof cases
    case plain
    then show thesis using scrub_message_event [OF plain(1), of px m]
      by (intro that [of None]) (auto simp: carries_def erased_def)
  next
    case reaction
    then show thesis by (intro that [of "Some (str ''[deleted]'')"])
        (auto simp: carries_def erased_def scrub_reaction_event intro!: exI [of _ "rm\<lparr>rm_message := blank m, rm_reactor := str ''[deleted]''\<rparr>"])
  next
    case pin
    then show thesis by (intro that [of "Some (str ''[deleted]'')"])
        (auto simp: carries_def erased_def scrub_pin_event intro!: exI [of _ "p\<lparr>pm_message := blank m, pm_pinner := str ''[deleted]''\<rparr>"])
  qed
qed

lemma scrub_event_room [simp]: "re_room_id (scrub_event batch ev) = re_room_id ev" "re_event_type (scrub_event batch ev) = re_event_type ev"
  "is_message_event (scrub_event batch ev) = is_message_event ev"
  by (simp_all add: scrub_event_def is_message_event_def)

lemma erased_blank: "erased m who \<Longrightarrow> blank m = m"
  by (simp add: erased_def)

text \<open>After a batch is scrubbed its messages need not be live any more.\<close>

lemma scrub_event_discreet:
  assumes "event_discreet px t ev" "\<And>i. live t (re_room_id ev) i \<Longrightarrow> (i, re_room_id ev) \<in> set batch \<or> live t' (re_room_id ev) i"
  shows "event_discreet px t' (scrub_event batch ev)"
proof (cases "is_message_event ev")
  case True
  with assms(1) obtain m who where c: "carries px ev m who" and l: "live t (re_room_id ev) (msg_id m) \<or> erased m who"
    by (auto simp: event_discreet_def)
  show ?thesis
  proof (cases "(msg_id m, re_room_id ev) \<in> set batch")
    case True
    then have "scrub_event batch ev = ev\<lparr>re_payload := scrub_payload (re_event_type ev) (re_payload ev)\<rparr>"
      using \<open>is_message_event ev\<close> by (simp add: scrub_event_def carries_id [OF c])
    then show ?thesis using scrubbed_carries [OF c] unfolding event_discreet_def by metis
  next
    case False
    then have "scrub_event batch ev = ev" by (simp add: scrub_event_def carries_id [OF c])
    then show ?thesis using c l assms(2) False unfolding event_discreet_def by metis
  qed
qed (simp add: event_discreet_def)

lemma scrub_discreet:
  assumes "log_discreet px d" "fd_events d' = map (scrub_event batch) (fd_events d)"
    and "\<And>r i. live (ps_tables d) r i \<Longrightarrow> (i, r) \<in> set batch \<or> live (ps_tables d') r i"
  shows "log_discreet px d'"
  using assms by (auto simp: log_discreet_def intro: scrub_event_discreet)

lemma scrub_none: "map (scrub_event []) evs = evs"
  by (rule map_idI) (simp add: scrub_event_def split: option.splits)

lemma same_log_discreet:
  assumes "log_discreet px d" "fd_events d' = fd_events d" "\<And>r i. live (ps_tables d) r i \<Longrightarrow> live (ps_tables d') r i"
  shows "log_discreet px d'"
  by (rule scrub_discreet [OF assms(1), where batch="[]"]) (use assms(2,3) in \<open>simp_all add: scrub_none\<close>)

lemma fewer_events_discreet:
  "log_discreet px d \<Longrightarrow> set (fd_events d') \<subseteq> set (fd_events d) \<Longrightarrow> ps_tables d' = ps_tables d \<Longrightarrow> log_discreet px d'"
  by (auto simp: log_discreet_def)

lemma announce_discreet:
  assumes "announce px now rid ty payload d = Inr d'" "log_discreet px d"
    and "event_discreet px (ps_tables d) \<lparr>re_sequence = fd_next_sequence d, re_room_id = rid, re_event_type = str ty,
       re_payload = payload, re_created_at = now\<rparr>"
  shows "log_discreet px d'"
  using assms by (auto simp: announce_Inr log_discreet_def)

lemma announce_other_discreet:
  assumes "announce px now rid ty payload d = Inr d'" "log_discreet px d" "take 8 ty \<noteq> ''message.''"
  shows "log_discreet px d'"
proof (rule announce_discreet [OF assms(1,2)])
  have "take 8 (str ty) \<noteq> str ''message.''"
    using assms(3) str_eq_iff [of "take 8 ty" "''message.''"] by (simp add: str_def take_map)
  then show "event_discreet px (ps_tables d) \<lparr>re_sequence = fd_next_sequence d, re_room_id = rid, re_event_type = str ty,
      re_payload = payload, re_created_at = now\<rparr>"
    by (simp add: event_discreet_def is_message_event_def)
qed

lemma announce_message_discreet:
  assumes "announce px now rid ty (message_event px ty m) d = Inr d'" "log_discreet px d"
    and "ty \<in> {''message.created'', ''message.updated'', ''message.deleted''}" "live (ps_tables d) rid (msg_id m) \<or> erased m None"
  shows "log_discreet px d'"
  by (rule announce_discreet [OF assms(1,2)]) (use assms(3,4) in \<open>auto simp: event_discreet_def carries_def\<close>)

subsection \<open>Live messages\<close>

text \<open>Tables keep their live messages when every row stays, up to what is not about its being live.\<close>

lemma live_frame: "db_messages t' = db_messages t \<Longrightarrow> live t' r i = live t r i"
  by (simp add: live_def)

lemma live_after_audit: "insert_audit cfg uid now action actor room details t = Inr t' \<Longrightarrow> live t' r i = live t r i"
  by (auto simp: insert_audit_Inr live_def)

lemma live_after_webhook: "insert_webhook cfg uid ev rid res ts x t = Inr t' \<Longrightarrow> live t' r i = live t r i"
  using insert_webhook_tables by (intro live_frame) auto

abbreviation live_key :: "message_row \<Rightarrow> pystr \<times> pystr \<times> bool" where
  "live_key m \<equiv> (msg_id m, msg_room_id m, msg_deleted_at m = None)"

lemma live_iff: "live t r i \<longleftrightarrow> (i, r, True) \<in> set (map live_key (db_messages t))"
  by (auto simp: live_def image_iff)

lemma live_after_update:
  assumes "update_message_row mid f t = Inr t'" "\<And>m. live_key (f m) = live_key m"
  shows "live t' r i = live t r i"
proof -
  have "t' = t\<lparr>db_messages := update_where (\<lambda>m. msg_id m = mid) f (db_messages t)\<rparr>"
    using assms(1) by (simp add: update_message_row_def split: if_splits)
  then show ?thesis using map_update_where [where k=live_key and f=f and P="\<lambda>m. msg_id m = mid", OF assms(2)] unfolding live_iff by simp
qed

lemma live_keys_delete: "map live_key (db_messages (delete_message_rows P t)) = map live_key (filter (\<lambda>m. \<not> P m) (db_messages t))"
  by (simp add: delete_message_rows_def Let_def)

lemma live_delete_rows: "live (delete_message_rows P t) r i \<longleftrightarrow>
    (\<exists>m\<in>set (db_messages t). msg_id m = i \<and> msg_room_id m = r \<and> msg_deleted_at m = None \<and> \<not> P m)"
  unfolding live_iff live_keys_delete by auto

lemma live_scrub [simp]: "live (scrub_batch_webhooks b t) r i = live t r i" "live (scrub_room_webhooks rid t) r i = live t r i"
  "live (delete_message_reactions mid t) r i = live t r i"
  by (simp_all add: live_def scrub_room_webhooks_def)

lemma pg_insert_audit_discreet:
  "pg_insert_audit cfg uid now action actor room details d = Inr d' \<Longrightarrow> log_discreet px d \<Longrightarrow> log_discreet px d'"
  by (auto simp: pg_insert_audit_Inr live_after_audit elim!: same_log_discreet)

lemma pg_insert_webhook_discreet:
  "pg_insert_webhook cfg uid ev rid res t x d = Inr d' \<Longrightarrow> log_discreet px d \<Longrightarrow> log_discreet px d'"
  by (auto simp: pg_insert_webhook_Inr live_after_webhook elim!: same_log_discreet)

lemma prune_rows_discreet:
  assumes "log_discreet px d" "distinct (map msg_id (db_messages (ps_tables d)))" "set ms \<subseteq> set (db_messages (ps_tables d))"
  shows "log_discreet px (prune_rows ms d)"
proof (rule scrub_discreet [OF assms(1), where batch="message_batch ms"])
  show "fd_events (prune_rows ms d) = map (scrub_event (message_batch ms)) (fd_events d)"
    by (simp add: prune_rows_def delete_ids_def)
  fix r i assume "live (ps_tables d) r i"
  then obtain m where m: "m \<in> set (db_messages (ps_tables d))" "msg_id m = i" "msg_room_id m = r" "msg_deleted_at m = None"
    by (auto simp: live_def)
  have "m \<in> set ms" if "with_ids ms m" using that assms(2,3) m(1) by (auto dest: distinct_key_inj)
  then show "(i, r) \<in> set (message_batch ms) \<or> live (ps_tables (prune_rows ms d)) r i"
    using m by (auto simp: message_batch_def live_delete_rows)
qed

lemma pg_scrub_discreet: "log_discreet px d \<Longrightarrow> log_discreet px (pg_scrub_message_webhooks b d)"
  by (rule same_log_discreet) simp_all

lemma pg_trim_messages_discreet:
  assumes run: "pg_trim_messages cfg e rid now d = Inr d'" and log: "log_discreet px d"
    and ids: "distinct (map msg_id (db_messages (ps_tables d)))"
  shows "log_discreet px d'"
  using run
proof (cases rule: pg_trim_messages_cases)
  case (1 A B C)
  have step: "log_discreet px (prune_rows ms x) \<and> distinct (map msg_id (db_messages (ps_tables (prune_rows ms x))))"
    if "log_discreet px x \<and> distinct (map msg_id (db_messages (ps_tables x)))" "set ms \<subseteq> set (db_messages (ps_tables x))" for ms x
    using that prune_rows_discreet distinct_ids_delete by simp
  have "log_discreet px (prune_rows C (prune_rows B (prune_rows A d)))"
    using step [OF step [OF step [OF conjI [OF log ids] 1(1)] 1(2)] 1(3)] ..
  then show ?thesis using 1(4) by (auto intro!: pg_scrub_discreet elim!: pg_insert_audit_discreet)
qed

subsection \<open>Each method\<close>

lemma announce_states_discreet:
  "announce_states px rid a f r clks cs d = Inr d' \<Longrightarrow> \<forall>c\<in>set cs. c = ''archived'' \<or> c = ''frozen'' \<Longrightarrow> log_discreet px d \<Longrightarrow> log_discreet px d'"
proof (induction px rid a f r clks cs d rule: announce_states.induct)
  case (1 px rid a f r now clks c cs d)
  have "take 8 (state_event_type a f c) \<noteq> ''message.''"
    by (simp add: state_event_type_def)
  then show ?case using 1 by (auto simp: Let_def dest: announce_other_discreet)
qed auto

lemma pg_set_flag_discreet:
  "pg_set_flag cfg uid now action actor rid w s f c d = Inr (cs, d') \<Longrightarrow> log_discreet px d \<Longrightarrow> log_discreet px d' \<and> (\<forall>x\<in>set cs. x = c)"
proof -
  assume run: "pg_set_flag cfg uid now action actor rid w s f c d = Inr (cs, d')" and log: "log_discreet px d"
  have "log_discreet px (with_tables (update_room rid f (ps_tables d)) d)"
    by (rule same_log_discreet [OF log]) (simp_all add: update_room_def live_def)
  then show ?thesis using run log by (auto simp: pg_set_flag_Inr dest: pg_insert_audit_discreet split: if_splits)
qed

lemma pg_create_room_discreet:
  assumes "pg_create_room cfg px e p actor d = Inr (r, d')" "log_discreet px d"
  shows "log_discreet px d'"
proof -
  have "log_discreet px (with_tables (ps_tables d\<lparr>db_rooms := rs\<rparr>) d)" for rs
    by (rule same_log_discreet [OF assms(2)]) (simp_all add: live_def)
  then show ?thesis using assms(1)
    by (auto simp: pg_create_room_def Let_def dest!: pg_insert_audit_discreet announce_other_discreet split: if_splits)
qed

lemma pg_set_room_state_discreet:
  assumes "pg_set_room_state cfg px e rid a f actor d = Inr (r, d')" "log_discreet px d"
  shows "log_discreet px d'"
  using assms unfolding pg_set_room_state_def
  by (auto split: option.splits dest!: pg_set_flag_discreet elim!: announce_states_discreet)

lemma pg_delete_room_discreet:
  assumes "pg_delete_room cfg px e rid actor d = Inr (n, d')" "log_discreet px d"
  shows "log_discreet px d'"
proof -
  let ?b = "message_batch (room_messages (ps_tables d) rid)"
  from assms(1) obtain d1 payload where aud: "pg_insert_audit cfg (uuid_audit e) (now_audit e) ''room.deleted'' actor (Some rid)
      [(str ''deleted_messages'', ACount (length ?b))] (scrub_message_event_payloads ?b d) = Inr d1"
    and ann: "announce px (now_event e) rid ''room.deleted'' payload
      (with_tables (delete_room_row rid (ps_tables (pg_scrub_room_webhooks rid d1))) (pg_scrub_room_webhooks rid d1)) = Inr d'"
    by (auto simp: pg_delete_room_def Let_def split: option.splits if_splits)
  let ?d3 = "with_tables (delete_room_row rid (ps_tables (pg_scrub_room_webhooks rid d1))) (pg_scrub_room_webhooks rid d1)"
  from aud have t: "fd_events d1 = map (scrub_event ?b) (fd_events d)" "db_messages (ps_tables d1) = db_messages (ps_tables d)"
    by (auto simp: pg_insert_audit_Inr insert_audit_Inr)
  have "log_discreet px ?d3"
  proof (rule scrub_discreet [OF assms(2), where batch="?b"])
    fix r i assume "live (ps_tables d) r i"
    moreover have "live (delete_room_row rid (scrub_room_webhooks rid (ps_tables d1))) r i =
        live (delete_message_rows (\<lambda>m. msg_room_id m = rid) (scrub_room_webhooks rid (ps_tables d1))) r i"
      by (rule live_frame) (simp add: delete_room_row_def Let_def)
    ultimately show "(i, r) \<in> set ?b \<or> live (ps_tables ?d3) r i"
      unfolding live_delete_rows by (auto simp: live_def message_batch_def room_messages_def t scrub_room_webhooks_def image_iff)
  qed (simp add: t)
  from announce_other_discreet [OF ann this] show ?thesis by simp
qed

lemma prepare_export_discreet:
  "prepare_export cfg e rid actor d = Inr (ms, d') \<Longrightarrow> log_discreet px d \<Longrightarrow> log_discreet px d'"
  by (auto simp: prepare_export_def split: if_splits elim: pg_insert_audit_discreet)

lemma pg_run_retention_discreet:
  assumes "pg_run_retention cfg e actor d = Inr (r, d')" "log_discreet px d" "distinct (map msg_id (db_messages (ps_tables d)))"
  shows "log_discreet px d'"
proof -
  have "log_discreet px (prune_rows (expired c (ps_tables d)) d)" for c
    by (rule prune_rows_discreet [OF assms(2,3)]) (auto simp: expired_def)
  then show ?thesis using assms(1)
    by (auto simp: pg_run_retention_def Let_def split: option.splits intro!: pg_scrub_discreet elim!: pg_insert_audit_discreet)
qed

lemma pg_moderation_discreet:
  assumes "pg_set_member_moderation cfg px e rid subject p actor d = Inr (c, d')" "log_discreet px d"
  shows "log_discreet px d'"
proof -
  have "log_discreet px (with_tables (ps_tables d\<lparr>db_controls := cs\<rparr>) d)" for cs
    by (rule same_log_discreet [OF assms(2)]) (simp_all add: live_def)
  then show ?thesis using assms(1)
    by (auto simp: pg_set_member_moderation_def Let_def split: if_splits
        dest!: pg_insert_audit_discreet pg_insert_webhook_discreet announce_other_discreet)
qed

lemma pg_mark_read_discreet:
  assumes "pg_mark_read cfg px e rid subject mid d = Inr (m, d')" "log_discreet px d"
  shows "log_discreet px d'"
proof -
  have "log_discreet px (with_tables (store_cursor c (ps_tables d)) d)" for c
    by (rule same_log_discreet [OF assms(2)]) (simp_all add: store_cursor_def live_def)
  then show ?thesis using assms
    by (auto simp: pg_mark_read_def Let_def split: if_splits dest!: announce_other_discreet)
qed

lemma pg_clear_read_state_discreet:
  assumes "pg_clear_read_state px e rid subject d = Inr (b, d')" "log_discreet px d"
  shows "log_discreet px d'"
proof -
  from assms(1) obtain c t1 where t1: "clear_read_state_sync rid subject (ps_tables d) = Inr (c, t1)"
    and d': "d' = with_tables t1 d \<or> (\<exists>pl. announce px (now_event e) rid ''read.updated'' pl (with_tables t1 d) = Inr d')"
    by (auto simp: pg_clear_read_state_def split: if_splits)
  have "log_discreet px (with_tables t1 d)"
    by (rule same_log_discreet [OF assms(2)]) (use t1 in \<open>auto simp: clear_read_state_sync_def live_def split: if_splits\<close>)
  then show ?thesis using d' by (auto dest: announce_other_discreet)
qed

subsection \<open>Each method of messages\<close>

lemma row_live: "get_message_row t rid mid = Some row \<Longrightarrow> msg_deleted_at row = None \<Longrightarrow> live t rid mid"
  using get_message_row_SomeD by (fastforce simp: live_def)

lemma pg_update_live:
  "pg_update_message px mid f t = Inr (m, t1) \<Longrightarrow> (\<And>r. live_key (f r) = live_key r) \<Longrightarrow> live t1 r i = live t r i"
  unfolding live_iff pg_update_message_Inr by (auto simp: map_update_where [where k=live_key and f=f])

lemma decoded_id:
  assumes "pg_update_message px mid f t = Inr (m, t1)" "store_inv cfg t" "get_message_row t rid mid = Some row"
    and "\<And>r. live_key (f r) = live_key r"
  shows "msg_id m = mid"
proof -
  have "\<And>r. msg_id (f r) = msg_id r" using assms(4) by simp
  then have "message_from_row (f row) = Inr m" by (rule changed_row [OF assms(1) distinct_ids [OF assms(2)] assms(3)])
  then have "msg_id m = py_strip (msg_id row)" using message_from_row_fields(1) assms(4) by fastforce
  then show ?thesis
    using row_names_clean(1) [OF assms(2), of row] get_message_row_SomeD [OF assms(3)] by simp
qed

lemma pg_update_call_discreet:
  assumes "pg_update_message_call cfg px e rid mid actor content md mn adm subject d = Inr (m, d')" "log_discreet px d"
    and "store_inv cfg (ps_tables d)"
  shows "log_discreet px d'"
  using assms(1)
proof (cases rule: pg_update_message_cases)
  case (1 row t1 d2 d3)
  have k: "live_key (edit_row content md mn (now_op e) r) = live_key r" for r by (simp add: edit_row_def)
  have "log_discreet px (with_tables t1 d)"
    by (rule same_log_discreet [OF assms(2)]) (simp_all add: pg_update_live [OF 1(5) k])
  then have "log_discreet px d3" using 1(6,7) by (blast intro: pg_insert_audit_discreet pg_insert_webhook_discreet)
  moreover have "live (ps_tables d3) rid (msg_id m)"
    using row_live [OF 1(2,3)] 1(6,7) decoded_id [OF 1(5) assms(3) 1(2) k]
    by (auto simp: pg_piece_Inr live_after_audit live_after_webhook pg_update_live [OF 1(5) k])
  ultimately show ?thesis using 1(8) by (auto intro: announce_message_discreet)
qed

text \<open>A row that survives the trimming is the row that was there.\<close>

lemma trimmed_rows:
  assumes "pg_trim_messages cfg e rid now d = Inr d'"
  shows "live_key ` set (db_messages (ps_tables d')) \<subseteq> live_key ` set (db_messages (ps_tables d))"
  using assms(1)
proof (cases rule: pg_trim_messages_cases)
  case (1 A B C)
  have del: "live_key ` set (db_messages (delete_message_rows P t)) \<subseteq> live_key ` set (db_messages t)" for P t
    unfolding set_map [symmetric] live_keys_delete by auto
  have "db_messages (ps_tables d') = db_messages (delete_message_rows (with_ids C) (delete_message_rows (with_ids B)
      (delete_message_rows (with_ids A) (ps_tables d))))"
    using 1(4) by (auto simp: pg_insert_audit_Inr insert_audit_Inr)
  then show ?thesis using del [THEN subset_trans, OF del [THEN subset_trans, OF del]] by (simp only:)
qed

lemma created_live:
  assumes trim: "pg_trim_messages cfg e rid now (with_tables t d) = Inr d2"
    and p: "get_message_by_id (ps_tables d2) mid = Some p" "message_from_row p = Inr m"
    and row: "\<exists>row\<in>set (db_messages t). msg_id row = mid \<and> msg_room_id row = rid \<and> msg_deleted_at row = None \<and> py_strip mid = mid"
    and ids: "distinct (map msg_id (db_messages t))"
  shows "live (ps_tables d2) rid (msg_id m)"
proof -
  from p(1) have in2: "p \<in> set (db_messages (ps_tables d2))" "msg_id p = mid"
    by (auto simp: get_message_by_id_def dest: find_SomeD)
  with trimmed_rows [OF trim] have "live_key p \<in> live_key ` set (db_messages t)" by auto
  then obtain q where q: "live_key p = live_key q" "q \<in> set (db_messages t)" by (rule imageE)
  from row obtain row where r: "row \<in> set (db_messages t)" "msg_id row = mid" "msg_room_id row = rid" "msg_deleted_at row = None"
    "py_strip mid = mid" by blast
  have "q = row" using distinct_key_inj [OF ids q(2) r(1)] q(1) in2(2) r(2) by simp
  then show ?thesis
    using in2 q(1) r message_from_row_fields(1) [OF p(2)] by (auto simp: live_def)
qed

lemma pg_create_message_discreet:
  assumes run: "pg_create_message cfg px e a d = Inr (r, d')" and log: "log_discreet px d"
    and inv: "store_inv cfg (ps_tables d)" and valid: "as_validated e (CreateMessage a)"
  shows "log_discreet px d'"
  using run valid
proof (cases rule: pg_create_message_cases)
  case (new t1 d2 p m d3)
  have t1: "db_messages t1 = db_messages (ps_tables d) @ [new_message_row e a]" "distinct (map msg_id (db_messages t1))"
    using new(4) distinct_ids [OF inv] by (auto simp: pg_insert_message_row_def split: if_splits)
  have "log_discreet px (with_tables t1 d)"
    by (rule same_log_discreet [OF log]) (auto simp: live_def t1)
  then have d2: "log_discreet px d2" using pg_trim_messages_discreet [OF new(5)] t1(2) by simp
  have "live (ps_tables d2) (ca_room_id a) (msg_id m)"
    by (rule created_live [OF new(5,6,7) _ t1(2)])
       (use t1 new_row(1) [OF valid] Message_fields(1) [of "new_message (sqlite_env e) a" "new_message (sqlite_env e) a"] valid
         in \<open>auto simp: new_message_def\<close>)
  then have "live (ps_tables d3) (ca_room_id a) (msg_id m)"
    using new(8) by (auto simp: pg_insert_webhook_Inr live_after_webhook)
  then show ?thesis using new(8,9) d2 by (auto intro: announce_message_discreet pg_insert_webhook_discreet)
qed (use log in simp)

lemma erased_tombstone:
  assumes "message_from_row (tombstone_row t row) = Inr m"
  shows "erased m None"
proof -
  have "Message ((message.truncate (tombstone_row t row))\<lparr>msg_reactions := [], msg_attachments := []\<rparr>) = Inr m"
    using assms by (auto simp: message_from_row_Inr tombstone_row_def)
  then have "msg_pinned_by m = None"
    by (auto simp: Message_def require_complete_pin_metadata_Inr opt_field_eq_Inr tombstone_row_def message.truncate_def)
  then show ?thesis using tombstone_decoded [OF assms] by (cases m) (simp add: erased_def blank_def)
qed

lemma pg_delete_call_discreet:
  assumes run: "pg_delete_message cfg px e rid mid actor adm subject d = Inr (r, d')" and log: "log_discreet px d"
    and inv: "store_inv cfg (ps_tables d)"
  shows "log_discreet px d'"
  using run
proof (cases rule: pg_delete_message_cases)
  case (deleted row m t1 d2 d3)
  let ?t = "delete_message_reactions mid (ps_tables d)"
  note r = get_message_row_SomeD [OF deleted(2)]
  have dec: "message_from_row (tombstone_row (now_op e) row) = Inr m"
    by (rule changed_row [OF deleted(5)]) (use distinct_ids [OF inv] deleted(2) in \<open>simp_all add: tombstone_row_def\<close>)
  have m: "msg_id m = mid" "msg_room_id m = rid"
    using message_from_row_fields(1,2) [OF dec] r row_names_clean [OF inv, of row] by (simp_all add: tombstone_row_def)
  have "log_discreet px (scrub_message_event_payloads [(msg_id m, msg_room_id m)] (with_tables t1 d))"
  proof (rule scrub_discreet [OF log, where batch="[(mid, rid)]"])
    fix r i assume "live (ps_tables d) r i"
    then obtain x where x: "x \<in> set (db_messages (ps_tables d))" "msg_id x = i" "msg_room_id x = r" "msg_deleted_at x = None"
      by (auto simp: live_def)
    show "(i, r) \<in> set [(mid, rid)] \<or> live (ps_tables (scrub_message_event_payloads [(msg_id m, msg_room_id m)] (with_tables t1 d))) r i"
    proof (cases "i = mid")
      case True
      then have "x = row" using distinct_key_inj [OF distinct_ids [OF inv]] x r by metis
      then show ?thesis using True x r by simp
    next
      case False
      then have "x \<in> set (db_messages t1)" using deleted(5) x(1,2) by (auto simp: pg_update_message_Inr update_where_def image_iff)
      then show ?thesis using x by (auto simp: live_def)
    qed
  qed (simp add: m)
  then have "log_discreet px d3"
    using deleted(6,7) by (blast intro: pg_insert_audit_discreet pg_insert_webhook_discreet pg_scrub_discreet)
  then show ?thesis using deleted(8) erased_tombstone [OF dec] by (auto intro: announce_message_discreet)
qed (use log in simp)

lemma pg_reaction_discreet:
  assumes run: "pg_set_message_reaction cfg px e rid mid reactor key present af subject d = Inr (mu, d')" and log: "log_discreet px d"
    and inv: "store_inv cfg (ps_tables d)"
  shows "log_discreet px d'"
  using run
proof (cases rule: pg_reaction_cases)
  case (changed row t1 summaries m t2 d3)
  have k: "live_key (set_summaries summaries r) = live_key r" for r by (simp add: set_summaries_def)
  have msgs: "db_messages t1 = db_messages (ps_tables d)" using changed(4) by (auto elim: toggle_reaction_cases)
  then have row: "get_message_row t1 rid mid = Some row" using changed(2) by (simp add: get_message_row_def)
  have l: "live t2 r i = live (ps_tables d) r i" for r i
    using pg_update_live [OF changed(6) k] live_frame [OF msgs] by simp
  have "log_discreet px (with_tables t2 d)" by (rule same_log_discreet [OF log]) (simp_all add: l)
  then have "log_discreet px d3" using changed(8) by (blast intro: pg_insert_webhook_discreet)
  moreover have "live (ps_tables d3) rid mid"
    using row_live [OF changed(2,3)] changed(8) by (auto simp: pg_insert_webhook_Inr live_after_webhook l)
  moreover have "msg_id (rm_message mu) = mid"
  proof -
    have "message_from_row (set_summaries summaries row) = Inr m"
      by (rule changed_row [OF changed(6) _ row]) (use distinct_ids [OF inv] msgs in \<open>simp_all add: set_summaries_def\<close>)
    from message_from_row_fields(1) [OF this] show ?thesis
      using changed(7) get_message_row_SomeD [OF changed(2)] row_names_clean(1) [OF inv, of row]
      by (auto simp: ReactionMutation_def set_summaries_def)
  qed
  ultimately show ?thesis
    by (intro announce_discreet [OF changed(9)]) (auto simp: event_discreet_def carries_def)
qed (use log in simp)

lemma pg_pin_discreet:
  assumes run: "pg_set_message_pin cfg px e rid mid pinner actor pinned af subject d = Inr (mu, d')" and log: "log_discreet px d"
    and inv: "store_inv cfg (ps_tables d)"
  shows "log_discreet px d'"
  using run
proof (cases rule: pg_pin_cases)
  case (changed row m t1 d2 d3)
  have k: "live_key (pin_row (now_op e) pinner pinned r) = live_key r" for r by (simp add: pin_row_def)
  have "log_discreet px (with_tables t1 d)"
    by (rule same_log_discreet [OF log]) (simp_all add: pg_update_live [OF changed(5) k])
  then have "log_discreet px d3" using changed(6,8) by (blast intro: pg_insert_audit_discreet pg_insert_webhook_discreet)
  moreover have "live (ps_tables d3) rid mid"
    using row_live [OF changed(2,3)] changed(6,8)
    by (auto simp: pg_piece_Inr live_after_audit live_after_webhook pg_update_live [OF changed(5) k])
  moreover have "msg_id (pm_message mu) = mid"
    using decoded_id [OF changed(5) inv changed(2) k] changed(7) by (auto simp: PinMutation_def)
  ultimately show ?thesis
    by (intro announce_discreet [OF changed(9)]) (auto simp: event_discreet_def carries_def)
qed (use log in simp)

subsection \<open>The log of a reachable store\<close>

lemma deliveries_discreet:
  "record_webhook_attempt_sync did now st err nxt dl fl (ps_tables d) = Inr (u, t) \<Longrightarrow> log_discreet px d \<Longrightarrow> log_discreet px (with_tables t d)"
  "retry_webhook_delivery_sync e did (ps_tables d) = Inr (r, t) \<Longrightarrow> log_discreet px d \<Longrightarrow> log_discreet px (with_tables t d)"
  by (auto elim!: same_log_discreet retry_webhook_delivery_Inr simp: record_webhook_attempt_Inr live_def)

lemma lease_discreet [simp]: "log_discreet px (drop_lease i d) = log_discreet px d" "log_discreet px (set_lease i w u d) = log_discreet px d"
  by (simp_all add: log_discreet_def)

lemma pg_run_command_discreet:
  assumes "pg_run_command po px e c d = Inr d'" "log_discreet px d" "store_inv (po_config po) (ps_tables d)" "as_validated e c"
  shows "log_discreet px d'"
proof (cases c)
  case (CreateMessage a)
  then show ?thesis using assms by (auto dest: pg_create_message_discreet)
next
  case (RecordWebhookAttempt did t st err nxt dl fl)
  then show ?thesis using assms by (auto simp: pg_record_webhook_attempt_def deliveries_discreet split: if_splits)
next
  case (RetryWebhookDelivery did)
  then show ?thesis using assms by (auto simp: pg_retry_webhook_delivery_def deliveries_discreet)
qed (use assms in \<open>auto dest: pg_create_room_discreet pg_set_room_state_discreet pg_delete_room_discreet prepare_export_discreet
    pg_moderation_discreet pg_update_call_discreet pg_delete_call_discreet pg_reaction_discreet pg_pin_discreet
    pg_mark_read_discreet pg_clear_read_state_discreet pg_run_retention_discreet distinct_ids\<close>)

lemma append_event_discreet:
  "append_event jsonb now rid ty payload d = Inr (n, d') \<Longrightarrow> \<not> message_type ty \<Longrightarrow> log_discreet px d \<Longrightarrow> log_discreet px d'"
  by (auto simp: append_event_def log_discreet_def event_discreet_def is_message_event_def message_type_def split: if_splits)

lemma prune_events_discreet:
  "prune_events clk kept me ma l d = Inr (r, d') \<Longrightarrow> log_discreet px d \<Longrightarrow> log_discreet px d'"
  by (auto simp: prune_events_def Let_def split: if_splits intro: fewer_events_discreet)

lemma claim_discreet: "log_discreet px d \<Longrightarrow> log_discreet px (snd (pg_next_webhook_delivery po clk locked d))"
  by (simp add: pg_next_webhook_delivery_def split: list.splits)

lemma pg_reachable_discreet: "pg_store_reachable cfg px d \<Longrightarrow> log_discreet px d"
proof (induction rule: pg_store_reachable.induct)
  case pg_start
  then show ?case by (simp add: log_discreet_def)
next
  case (pg_move d d')
  have inv: "store_inv cfg (ps_tables d)"
    using pg_reachable_refines [OF pg_move(1)] reachable_store_inv by blast
  from pg_move(2) show ?case
    using pg_move(3) inv
    by cases (auto intro: pg_run_command_discreet append_event_discreet prune_events_discreet claim_discreet)
qed

end
