(* ===== verification/Pg_Store_Claims.thy ===== *)
theory Pg_Store_Claims
  imports Pg_Store_System
begin

section \<open>Claims of webhook deliveries\<close>

text \<open>
  A worker that takes a delivery from the outbox holds a lease on it. Until the lease ends the row stays
  with that worker through whatever the other processes do, or loses its body for good.
\<close>

subsection \<open>A lease that is held\<close>

definition held :: "pystr \<Rightarrow> pystr \<times> timestamp \<Rightarrow> pg_store \<Rightarrow> bool" where
  "held did l d \<longleftrightarrow> distinct (map wd_id (db_webhooks (ps_tables d))) \<and>
     (\<forall>w\<in>set (db_webhooks (ps_tables d)). wd_id w = did \<and> wr_payload w \<noteq> None \<longrightarrow> lease_of d did = Some l)"

lemma map_of_filter_key: "P k \<Longrightarrow> map_of (filter (\<lambda>(i, l). P i) xs) k = map_of xs k"
  by (induction xs) auto

lemma lease_of_with_tables: "did \<in> wd_id ` set (db_webhooks t) \<Longrightarrow> lease_of (with_tables t d) did = lease_of d did"
  unfolding lease_of_def with_tables_def by (simp add: map_of_filter_key)

text \<open>New tables keep the lease when they add no body to the delivery.\<close>

lemma held_with_tables:
  assumes "held did l d" "distinct (map wd_id (db_webhooks t))"
    and "\<And>w. w \<in> set (db_webhooks t) \<Longrightarrow> wd_id w = did \<Longrightarrow> wr_payload w \<noteq> None \<Longrightarrow>
      \<exists>v\<in>set (db_webhooks (ps_tables d)). wd_id v = did \<and> wr_payload v \<noteq> None"
  shows "held did l (with_tables t d)"
  unfolding held_def
proof (intro conjI ballI impI)
  fix w assume w: "w \<in> set (db_webhooks (ps_tables (with_tables t d)))" "wd_id w = did \<and> wr_payload w \<noteq> None"
  then have "did \<in> wd_id ` set (db_webhooks t)" by auto
  moreover have "lease_of d did = Some l" using w assms(1) assms(3) [of w] by (auto simp: held_def)
  ultimately show "lease_of (with_tables t d) did = Some l" by (simp add: lease_of_with_tables)
qed (simp add: assms(2))

lemma held_same_outbox:
  "held did l d \<Longrightarrow> db_webhooks t = db_webhooks (ps_tables d) \<Longrightarrow> held did l (with_tables t d)"
  by (rule held_with_tables) (auto simp: held_def)

lemma held_frame:
  "held did l d \<Longrightarrow> ps_tables d' = ps_tables d \<Longrightarrow> ps_leases d' = ps_leases d \<Longrightarrow> held did l d'"
  by (simp add: held_def lease_of_def)

lemma held_announce: "announce px now rid ty payload d = Inr d' \<Longrightarrow> held did l d \<Longrightarrow> held did l d'"
  using held_frame [of did l d d'] by (auto simp: announce_Inr)

lemma held_scrub_events [simp]: "held did l (scrub_message_event_payloads b d) = held did l d"
  by (simp add: held_def lease_of_def scrub_message_event_payloads_def)

lemma held_audit:
  "pg_insert_audit cfg uid now action actor room details d = Inr d' \<Longrightarrow> held did l d \<Longrightarrow> held did l d'"
  by (auto simp: pg_insert_audit_Inr insert_audit_Inr intro!: held_same_outbox)

lemma held_webhook:
  assumes "pg_insert_webhook cfg uid ev rid res t x d = Inr d'" "held did l d" "delivery_id_of uid \<noteq> did"
  shows "held did l d'"
proof -
  from assms(1) obtain t' where ins: "insert_webhook cfg uid ev rid res t x (ps_tables d) = Inr t'" and d': "d' = with_tables t' d"
    by (auto simp: pg_insert_webhook_Inr)
  have dist: "distinct (map wd_id (db_webhooks (ps_tables d)))" using assms(2) by (simp add: held_def)
  show ?thesis unfolding d'
  proof (rule held_with_tables [OF assms(2)])
    have "distinct (map wd_id (evict_terminal cfg (db_webhooks (ps_tables d))))"
      using dist unfolding evict_terminal_def Let_def by (blast intro: distinct_map_filter_key)
    with ins dist show "distinct (map wd_id (db_webhooks t'))" by (auto elim!: insert_webhook_cases)
    fix w assume "w \<in> set (db_webhooks t')" "wd_id w = did" "wr_payload w \<noteq> None"
    then show "\<exists>v\<in>set (db_webhooks (ps_tables d)). wd_id v = did \<and> wr_payload v \<noteq> None"
      using insert_webhook_rows [OF ins, of w] assms(3) by auto
  qed
qed

text \<open>A scrub takes the lease of a row only with its body.\<close>

lemma lease_of_clear:
  assumes "\<not> (\<exists>w\<in>set (db_webhooks (ps_tables d)). wd_id w = did \<and> P w)"
  shows "lease_of (clear_leases P d) did = lease_of d did"
  using assms map_of_filter_key [of "\<lambda>i. \<not> list_ex (\<lambda>w. wd_id w = i \<and> P w) (db_webhooks (ps_tables d))" did "ps_leases d"]
  by (simp add: lease_of_def clear_leases_def list_ex_iff)

lemma held_scrub:
  assumes "held did l d" "db_webhooks t = scrub P (db_webhooks (ps_tables d))"
  shows "held did l (with_tables t (clear_leases P d))"
  unfolding held_def
proof (intro conjI ballI impI)
  have dist: "distinct (map wd_id (db_webhooks (ps_tables d)))" using assms(1) by (simp add: held_def)
  then show "distinct (map wd_id (db_webhooks (ps_tables (with_tables t (clear_leases P d)))))"
    by (simp add: assms(2) map_wd_id_scrub distinct_map_filter_key)
  fix w assume "w \<in> set (db_webhooks (ps_tables (with_tables t (clear_leases P d))))" and w: "wd_id w = did \<and> wr_payload w \<noteq> None"
  then have in_t: "w \<in> set (db_webhooks t)" and "w \<in> set (scrub P (db_webhooks (ps_tables d)))" by (simp_all add: assms(2))
  then have v: "w \<in> set (db_webhooks (ps_tables d))" "\<not> P w" using scrub_body_kept w by blast+
  then have "\<not> (\<exists>x\<in>set (db_webhooks (ps_tables d)). wd_id x = did \<and> P x)"
    using distinct_key_inj [OF dist _ v(1)] w by metis
  then have "lease_of (clear_leases P d) did = Some l"
    using assms(1) v(1) w by (simp add: lease_of_clear) (auto simp: held_def)
  then show "lease_of (with_tables t (clear_leases P d)) did = Some l"
    using in_t w by (subst lease_of_with_tables) auto
qed

lemma held_scrub_webhooks: "held did l d \<Longrightarrow> held did l (pg_scrub_message_webhooks b d)"
  by (auto simp: pg_scrub_message_webhooks_def intro!: held_scrub) (simp add: scrub_batch_webhooks_def)

lemma held_scrub_room: "held did l d \<Longrightarrow> held did l (pg_scrub_room_webhooks rid d)"
  unfolding pg_scrub_room_webhooks_def by (rule held_scrub) (simp_all add: scrub_room_webhooks_def)

lemma webhooks_kept [simp]:
  "db_webhooks (delete_message_rows P t) = db_webhooks t" "db_webhooks (delete_room_row rid t) = db_webhooks t"
  "db_webhooks (update_room rid f t) = db_webhooks t" "db_webhooks (store_cursor c t) = db_webhooks t"
  "db_webhooks (delete_message_reactions mid t) = db_webhooks t"
  by (simp_all add: delete_message_rows_def delete_room_row_def Let_def update_room_def store_cursor_def delete_message_reactions_def)

lemma held_prune: "held did l d \<Longrightarrow> held did l (prune_rows ms d)"
  by (simp add: prune_rows_def delete_ids_def held_same_outbox)

lemma held_trim:
  assumes "pg_trim_messages cfg e rid now d = Inr d'" "held did l d"
  shows "held did l d'"
  using assms(1)
proof (cases rule: pg_trim_messages_cases)
  case (1 A B C)
  show ?thesis using 1(4) assms(2) by (auto intro!: held_scrub_webhooks held_prune elim!: held_audit)
qed

lemma held_drop: "i \<noteq> did \<Longrightarrow> held did l d \<Longrightarrow> held did l (drop_lease i d)"
  using map_of_filter_key [of "\<lambda>j. j \<noteq> i" did "ps_leases d"] by (auto simp: held_def lease_of_def drop_lease_def)

lemma held_set: "i \<noteq> did \<Longrightarrow> held did l d \<Longrightarrow> held did l (set_lease i w u d)"
  using map_of_filter_key [of "\<lambda>j. j \<noteq> i" did "ps_leases d"] by (auto simp: held_def lease_of_def set_lease_def)

subsection \<open>What others do\<close>

text \<open>
  Calls of other processes, and of the holder's own, that neither record an attempt of the holder for
  this delivery nor reset it by hand; the id of a new delivery is a new one.
\<close>

fun touches :: "pystr \<Rightarrow> command \<Rightarrow> bool" where
  "touches did (RecordWebhookAttempt i t st err nxt dl fl) = (i = did)"
| "touches did c = False"

inductive others_step :: "store_config \<Rightarrow> pg_functions \<Rightarrow> pystr \<Rightarrow> pystr \<Rightarrow> timestamp \<Rightarrow> pg_store \<Rightarrow> pg_store \<Rightarrow> bool"
  for cfg px me did expiry where
  other_call: "pg_env_ok e \<Longrightarrow> as_validated e c \<Longrightarrow> PostgresChatStore po = Inr po \<Longrightarrow> po_config po = cfg \<Longrightarrow>
    delivery_id_of (uuid_webhook e) \<noteq> did \<Longrightarrow> c \<noteq> RetryWebhookDelivery did \<Longrightarrow> (touches did c \<longrightarrow> po_worker_id po \<noteq> me) \<Longrightarrow>
    pg_run_command po px e c d = Inr d' \<Longrightarrow> others_step cfg px me did expiry d d'"
| other_claim: "PostgresChatStore po = Inr po \<Longrightarrow> po_config po = cfg \<Longrightarrow> clk 0 < expiry \<Longrightarrow>
    others_step cfg px me did expiry d (snd (pg_next_webhook_delivery po clk locked d))"
| other_append: "\<not> message_type ty \<Longrightarrow> append_event (px_jsonb px) now rid ty payload d = Inr (n, d') \<Longrightarrow>
    others_step cfg px me did expiry d d'"
| other_prune: "prune_events clk kept max_events max_age limit d = Inr (r, d') \<Longrightarrow> others_step cfg px me did expiry d d'"

inductive others_run :: "store_config \<Rightarrow> pg_functions \<Rightarrow> pystr \<Rightarrow> pystr \<Rightarrow> timestamp \<Rightarrow> pg_store \<Rightarrow> pg_store \<Rightarrow> bool"
  for cfg px me did expiry d where
  run_none: "others_run cfg px me did expiry d d"
| run_more: "others_run cfg px me did expiry d d1 \<Longrightarrow> others_step cfg px me did expiry d1 d2 \<Longrightarrow> others_run cfg px me did expiry d d2"

lemma others_step_is_step: "others_step cfg px me did expiry d d' \<Longrightarrow> pg_store_step cfg px d d'"
  by (cases rule: others_step.cases) (auto intro: pg_store_step.intros)

lemma others_run_reachable:
  "others_run cfg px me did expiry d d' \<Longrightarrow> pg_store_reachable cfg px d \<Longrightarrow> pg_store_reachable cfg px d'"
  by (induction rule: others_run.induct) (auto intro: pg_move others_step_is_step)

lemma held_set_flag:
  assumes "pg_set_flag cfg uid now action actor rid w s f c d = Inr (cs, d')" "held did l d"
  shows "held did l d'"
proof (cases "w = None \<or> w = Some s")
  case True
  then show ?thesis using assms by (simp add: pg_set_flag_def)
next
  case False
  then have "pg_insert_audit cfg uid now action actor (Some rid) [] (with_tables (update_room rid f (ps_tables d)) d) = Inr d'"
    using assms(1) by (auto simp: pg_set_flag_def)
  then show ?thesis by (rule held_audit) (simp add: held_same_outbox assms(2))
qed

lemma held_states: "announce_states px rid a f r clks cs d = Inr d' \<Longrightarrow> held did l d \<Longrightarrow> held did l d'"
  by (induction px rid a f r clks cs d rule: announce_states.induct) (auto simp: Let_def dest: held_announce)

lemma held_rooms:
  "pg_create_room cfg px e p actor d = Inr (r, d') \<Longrightarrow> held did l d \<Longrightarrow> held did l d'"
  "pg_set_room_state cfg px e rid a f actor d = Inr (rs, d') \<Longrightarrow> held did l d \<Longrightarrow> held did l d'"
  "prepare_export cfg e rid actor d = Inr (ms, d') \<Longrightarrow> held did l d \<Longrightarrow> held did l d'"
    apply (auto simp: pg_create_room_def Let_def intro: held_same_outbox dest!: held_announce held_audit split: if_splits)[1]
   apply (auto simp: pg_set_room_state_def split: option.splits dest!: held_set_flag elim!: held_states)[1]
  apply (auto simp: prepare_export_def dest: held_audit split: if_splits)[1]
  done

lemma held_delete_room:
  assumes "pg_delete_room cfg px e rid actor d = Inr (n, d')" "held did l d"
  shows "held did l d'"
  using assms
  by (auto simp: pg_delete_room_def Let_def split: option.splits if_splits
      elim!: held_announce intro!: held_same_outbox held_scrub_room elim: held_audit)

lemma held_create_message:
  assumes "pg_create_message cfg px e a d = Inr (r, d')" "as_validated e (CreateMessage a)" "held did l d"
    and "delivery_id_of (uuid_webhook e) \<noteq> did"
  shows "held did l d'"
  using assms(1,2)
proof (cases rule: pg_create_message_cases)
  case (new t1 d2 p m d3)
  have "held did l (with_tables t1 d)"
    by (rule held_same_outbox [OF assms(3)]) (use new(4) in \<open>auto simp: pg_insert_message_row_def split: if_splits\<close>)
  then show ?thesis using new(5,8,9) assms(4) by (blast intro: held_trim held_webhook held_announce)
qed (use assms(3) in simp)

lemma updated_outbox: "pg_update_message px mid f t = Inr (m, t1) \<Longrightarrow> db_webhooks t1 = db_webhooks t"
  by (auto simp: pg_update_message_Inr)

lemma held_update_message:
  assumes "pg_update_message_call cfg px e rid mid actor content md mn adm subject d = Inr (m, d')" "held did l d"
    and "delivery_id_of (uuid_webhook e) \<noteq> did"
  shows "held did l d'"
  using assms(1)
proof (cases rule: pg_update_message_cases)
  case (1 row t1 d2 d3)
  show ?thesis
    using held_same_outbox [OF assms(2) updated_outbox [OF 1(5)]] 1(6,7,8) assms(3)
    by (blast intro: held_audit held_webhook held_announce)
qed

lemma held_delete_message:
  assumes "pg_delete_message cfg px e rid mid actor adm subject d = Inr (r, d')" "held did l d"
    and "delivery_id_of (uuid_webhook e) \<noteq> did"
  shows "held did l d'"
  using assms(1)
proof (cases rule: pg_delete_message_cases)
  case (deleted row m t1 d2 d3)
  have "held did l (scrub_message_event_payloads b (with_tables t1 d))" for b
    using held_same_outbox [OF assms(2), of t1] updated_outbox [OF deleted(5)] by simp
  then show ?thesis
    using deleted(6,7,8) assms(3) by (blast intro: held_audit held_webhook held_announce held_scrub_webhooks)
qed (use assms(2) in simp)

lemma held_reaction:
  assumes "pg_set_message_reaction cfg px e rid mid reactor key present af subject d = Inr (mu, d')" "held did l d"
    and "delivery_id_of (uuid_webhook e) \<noteq> did"
  shows "held did l d'"
  using assms(1)
proof (cases rule: pg_reaction_cases)
  case (changed row t1 summaries m t2 d3)
  have "db_webhooks t2 = db_webhooks (ps_tables d)"
    using updated_outbox [OF changed(6)] changed(4) by (auto elim: toggle_reaction_cases)
  then show ?thesis using held_same_outbox [OF assms(2)] changed(8,9) assms(3) by (blast intro: held_webhook held_announce)
qed (use assms(2) in simp)

lemma held_pin:
  assumes "pg_set_message_pin cfg px e rid mid pinner actor pinned af subject d = Inr (mu, d')" "held did l d"
    and "delivery_id_of (uuid_webhook e) \<noteq> did"
  shows "held did l d'"
  using assms(1)
proof (cases rule: pg_pin_cases)
  case (changed row m t1 d2 d3)
  show ?thesis
    using held_same_outbox [OF assms(2) updated_outbox [OF changed(5)]] changed(6,8,9) assms(3)
    by (blast intro: held_audit held_webhook held_announce)
qed (use assms(2) in simp)

lemma held_moderation:
  assumes "pg_set_member_moderation cfg px e rid subject p actor d = Inr (c, d')" "held did l d"
    and "delivery_id_of (uuid_webhook e) \<noteq> did"
  shows "held did l d'"
proof -
  have "held did l (with_tables (ps_tables d\<lparr>db_controls := cs\<rparr>) d)" for cs
    by (rule held_same_outbox [OF assms(2)]) simp
  then show ?thesis using assms(1,3)
    by (auto simp: pg_set_member_moderation_def Let_def split: if_splits
        elim!: held_announce held_webhook held_audit)
qed

lemma held_reads:
  "pg_mark_read cfg px e rid subject mid d = Inr (m, d') \<Longrightarrow> held did l d \<Longrightarrow> held did l d'"
  "pg_clear_read_state px e rid subject d = Inr (b, d') \<Longrightarrow> held did l d \<Longrightarrow> held did l d'"
   apply (auto simp: pg_mark_read_def Let_def split: if_splits intro: held_same_outbox elim!: held_announce)[1]
  apply (auto simp: pg_clear_read_state_def clear_read_state_sync_def split: if_splits intro: held_same_outbox elim!: held_announce)[1]
  done

lemma held_retention:
  "pg_run_retention cfg e actor d = Inr (r, d') \<Longrightarrow> held did l d \<Longrightarrow> held did l d'"
  by (auto simp: pg_run_retention_def Let_def split: option.splits intro!: held_scrub_webhooks held_prune elim!: held_audit)

text \<open>A statement that changes rows but neither their ids nor their bodies.\<close>

lemma held_updated:
  assumes "held did l d" "\<And>w. wd_id (g w) = wd_id w" "\<And>w. wr_payload (g w) = wr_payload w"
  shows "held did l (with_tables (ps_tables d\<lparr>db_webhooks := update_where P g (db_webhooks (ps_tables d))\<rparr>) d)"
proof (rule held_with_tables [OF assms(1)])
  show "distinct (map wd_id (db_webhooks (ps_tables d\<lparr>db_webhooks := update_where P g (db_webhooks (ps_tables d))\<rparr>)))"
    using assms(1,2) by (simp add: held_def map_update_where)
  fix w assume "w \<in> set (db_webhooks (ps_tables d\<lparr>db_webhooks := update_where P g (db_webhooks (ps_tables d))\<rparr>))"
    and w: "wd_id w = did" "wr_payload w \<noteq> None"
  then have "w \<in> set (update_where P g (db_webhooks (ps_tables d)))" by simp
  then obtain v where "v \<in> set (db_webhooks (ps_tables d))" "wd_id v = wd_id w" "wr_payload v = wr_payload w"
    by (elim in_update_whereE) (use assms(2,3) in auto)
  then show "\<exists>v\<in>set (db_webhooks (ps_tables d)). wd_id v = did \<and> wr_payload v \<noteq> None" using w by auto
qed

lemma held_record:
  assumes "pg_record_webhook_attempt po now i t st err nxt dl fl d = Inr (u, d')" "held did l d" "i = did \<longrightarrow> po_worker_id po \<noteq> fst l"
  shows "held did l d'"
proof -
  from assms(1) obtain t' where rec: "record_webhook_attempt_sync i now st (map_option (take 1000) err)
      (map_option (\<lambda>next. now + max 0 (next - t)) nxt) dl fl (ps_tables d) = Inr ((), t')" and d': "d' = drop_lease i (with_tables t' d)"
    and lease: "\<exists>expires. lease_of d i = Some (po_worker_id po, expires)"
    by (auto simp: pg_record_webhook_attempt_def split: if_splits option.splits)
  have held: "held did l (with_tables t' d)"
    using rec held_updated [OF assms(2)] by (auto simp: record_webhook_attempt_Inr)
  show ?thesis
  proof (cases "i = did")
    case False
    then show ?thesis unfolding d' using held by (rule held_drop)
  next
    case True
    then have "lease_of d did \<noteq> Some l" using lease assms(3) by (cases l) auto
    then have no: "wr_payload w = None" if "w \<in> set (db_webhooks (ps_tables d))" "wd_id w = did" for w
      using assms(2) that by (auto simp: held_def)
    have "wr_payload w = None" if "w \<in> set (db_webhooks t')" "wd_id w = did" for w
      using that no rec by (auto simp: record_webhook_attempt_Inr elim!: in_update_whereE)
    then show ?thesis using held by (auto simp: d' held_def)
  qed
qed

lemma held_retry:
  assumes "pg_retry_webhook_delivery e i d = Inr (r, d')" "held did l d" "i \<noteq> did"
  shows "held did l d'"
proof -
  from assms(1) obtain t' where ret: "retry_webhook_delivery_sync (env.truncate e) i (ps_tables d) = Inr (r, t')"
    and d': "d' = drop_lease i (with_tables t' d)" by (auto simp: pg_retry_webhook_delivery_def)
  have "held did l (with_tables t' d)"
    using ret held_updated [OF assms(2)] by (auto elim!: retry_webhook_delivery_Inr)
  then show ?thesis unfolding d' by (rule held_drop [OF assms(3)])
qed

lemma held_command:
  assumes "pg_run_command po px e c d = Inr d'" "held did l d" "as_validated e c" "delivery_id_of (uuid_webhook e) \<noteq> did"
    and "c \<noteq> RetryWebhookDelivery did" "touches did c \<longrightarrow> po_worker_id po \<noteq> fst l"
  shows "held did l d'"
proof (cases c)
  case (CreateMessage a)
  then show ?thesis using assms by (auto dest: held_create_message)
next
  case (RecordWebhookAttempt did t st err nxt dl fl)
  then show ?thesis using assms by (auto dest: held_record)
next
  case (RetryWebhookDelivery i)
  then show ?thesis using assms by (auto dest: held_retry)
qed (use assms in \<open>auto dest: held_rooms held_delete_room held_update_message held_delete_message held_reaction held_pin
    held_moderation held_reads held_retention\<close>)

subsection \<open>The claim and what comes after\<close>

lemma held_not_claimable:
  assumes "held did (me, expiry) d" "w \<in> set (db_webhooks (ps_tables d))" "wd_id w = did" "now < expiry"
  shows "\<not> claimable now locked d w"
  using assms by (auto simp: held_def claimable_def is_due_def)

lemma claimed_row:
  assumes "pg_next_webhook_delivery po clk locked d = (x, d')"
  obtains "x = None" "d' = d"
  | row where "row \<in> set (db_webhooks (ps_tables d))" "claimable (clk 0) locked d row"
      "x = map_option (\<lambda>payload. (fst (webhook_from_row row), payload)) (wr_payload row)"
      "d' = set_lease (wd_id row) (po_worker_id po) (clk 1 + seconds_delta (po_webhook_lease_seconds po)) d"
proof (cases "order_by due_key (filter (claimable (clk 0) locked d) (db_webhooks (ps_tables d)))")
  case Nil
  then show thesis using assms that(1) by (simp add: pg_next_webhook_delivery_def)
next
  case (Cons row rows)
  then have "row \<in> set (filter (claimable (clk 0) locked d) (db_webhooks (ps_tables d)))"
    by (metis list.set_intros(1) set_order_by)
  then show thesis using assms Cons that(2) [of row] by (auto simp: pg_next_webhook_delivery_def)
qed

lemma held_claim:
  assumes "held did (me, expiry) d" "clk 0 < expiry"
  shows "held did (me, expiry) (snd (pg_next_webhook_delivery po clk locked d))"
proof -
  obtain x d' where eq: "pg_next_webhook_delivery po clk locked d = (x, d')" by (cases "pg_next_webhook_delivery po clk locked d")
  then show ?thesis
  proof (cases rule: claimed_row)
    case (2 row)
    have "wd_id row \<noteq> did" using held_not_claimable [OF assms(1) 2(1) _ assms(2)] 2(2) by blast
    then show ?thesis using eq 2(4) assms(1) by (simp add: held_set)
  qed (use eq assms(1) in simp)
qed

lemma held_others:
  assumes "others_step cfg px me did expiry d d'" "held did (me, expiry) d"
  shows "held did (me, expiry) d'"
  using assms(1)
proof cases
  case (other_call e c po)
  then show ?thesis using assms(2) held_command by auto
next
  case other_claim
  then show ?thesis using assms(2) by (simp add: held_claim)
next
  case other_append
  then show ?thesis using assms(2) append_event_tables held_frame by blast
next
  case other_prune
  then show ?thesis using assms(2) prune_events_tables held_frame by blast
qed

lemma held_run: "others_run cfg px me did expiry d d' \<Longrightarrow> held did (me, expiry) d \<Longrightarrow> held did (me, expiry) d'"
  by (induction rule: others_run.induct) (auto intro: held_others)

lemma body_names_row:
  "webhooks_ok cfg t \<Longrightarrow> row \<in> set (db_webhooks t) \<Longrightarrow> wr_payload row = Some body \<Longrightarrow> env_id body = wd_id row"
  by (simp add: webhooks_ok_def delivery_ok_def)

lemma claim_holds:
  assumes "pg_next_webhook_delivery po clk locked d = (Some (w, body), d1)" "webhooks_ok cfg (ps_tables d)"
  shows "held (env_id body) (po_worker_id po, clk 1 + seconds_delta (po_webhook_lease_seconds po)) d1"
  using assms(1)
proof (cases rule: claimed_row)
  case (2 row)
  then have "env_id body = wd_id row" using body_names_row [OF assms(2) 2(1)] by (cases "wr_payload row") auto
  then show ?thesis using assms(2) by (simp add: 2(4) held_def webhooks_ok_def lease_of_def) (simp add: set_lease_def)
qed simp

lemma not_claimed_again:
  assumes "held did (me, expiry) d" "webhooks_ok cfg (ps_tables d)" "clk 0 < expiry"
  shows "case fst (pg_next_webhook_delivery po clk locked d) of None \<Rightarrow> True | Some (w, body) \<Rightarrow> env_id body \<noteq> did"
proof -
  obtain x d' where eq: "pg_next_webhook_delivery po clk locked d = (x, d')" by (cases "pg_next_webhook_delivery po clk locked d")
  then show ?thesis
  proof (cases rule: claimed_row)
    case (2 row)
    have "wd_id row \<noteq> did" using held_not_claimable [OF assms(1) 2(1) _ assms(3)] 2(2) by blast
    then show ?thesis using eq 2(3) body_names_row [OF assms(2) 2(1)] by (auto split: option.splits)
  qed (use eq in simp)
qed

lemma pending_is_held:
  assumes "held did l d" "webhooks_ok cfg (ps_tables d)" "\<exists>v\<in>set (db_webhooks (ps_tables d)). wd_id v = did \<and> pending v"
  shows "lease_of d did = Some l"
  using assms by (auto simp: held_def webhooks_ok_def delivery_ok_def)

lemma stranger_refused:
  assumes "held did (me, expiry) d" "webhooks_ok cfg (ps_tables d)" "po_worker_id po \<noteq> me" "\<not> (dl \<and> fl)"
  shows "pg_record_webhook_attempt po now did t st err nxt dl fl d = Inl (StoreRaised (WebhookDeliveryNotFoundError did))"
proof (cases "\<exists>v\<in>set (db_webhooks (ps_tables d)). wd_id v = did \<and> pending v")
  case True
  then show ?thesis using pending_is_held [OF assms(1,2)] assms(3,4) by (auto simp: pg_record_webhook_attempt_def raised_def)
next
  case False
  then have "record_webhook_attempt_sync did now st (map_option (take 1000) err) (map_option (\<lambda>next. now + max 0 (next - t)) nxt)
      dl fl (ps_tables d) = Inl (WebhookDeliveryNotFoundError did)"
    using assms(4) by (auto simp: record_webhook_attempt_sync_def list_ex_iff)
  then show ?thesis using assms(4) by (simp add: pg_record_webhook_attempt_def raised_def res_map_Inl)
qed

lemma holder_accepted:
  assumes "held did (po_worker_id po, expiry) d" "webhooks_ok cfg (ps_tables d)"
    and "\<exists>v\<in>set (db_webhooks (ps_tables d)). wd_id v = did \<and> pending v" "now < expiry" "\<not> (dl \<and> fl)"
  shows "is_ok (pg_record_webhook_attempt po now did t st err nxt dl fl d)"
proof -
  have "is_ok (record_webhook_attempt_sync did now st (map_option (take 1000) err)
      (map_option (\<lambda>next. now + max 0 (next - t)) nxt) dl fl (ps_tables d))"
    using assms(3,5) by (auto simp: record_webhook_attempt_sync_def list_ex_iff is_ok_def)
  then show ?thesis using pending_is_held [OF assms(1-3)] assms(4,5)
    by (auto simp: pg_record_webhook_attempt_def is_ok_iff)
qed

end
