(* ===== verification/Pg_Store_Samples.thy ===== *)
theory Pg_Store_Samples
  imports Pg_Store_Log Pg_Store_Claims Samples
begin

section \<open>A small PostgreSQL store\<close>

text \<open>The room and the message of the SQLite sample, in a store whose one worker is called \<open>w\<close>.\<close>

definition sample_px :: pg_functions where
  "sample_px = \<lparr>px_jsonb = (\<lambda>j. True), px_octets = (\<lambda>j. 0), px_search = (\<lambda>s. s), px_isoformat = (\<lambda>t. [84])\<rparr>"

definition sample_po :: pg_store_options where
  "sample_po = \<lparr>po_config = sample_cfg, po_worker_id = [119], po_webhook_lease_seconds = 60\<rparr>"

definition sample_pg_env :: "nat \<Rightarrow> pg_env" where
  "sample_pg_env n = env.extend (sample_env n) \<lparr>now_muted = int n, now_event = int n, now_event2 = int n\<rparr>"

lemma sample_po_ok: "PostgresChatStore sample_po = Inr sample_po" "po_config sample_po = sample_cfg"
  by (simp_all add: PostgresChatStore_def sample_po_def sample_cfg_def Let_def)

lemma sample_pg_env_simps [simp]:
  "now_op (sample_pg_env n) = int n" "now_enforce (sample_pg_env n) = int n" "now_audit (sample_pg_env n) = int n"
  "now_muted (sample_pg_env n) = int n" "now_event (sample_pg_env n) = int n"
  "uuid_op (sample_pg_env n) = [48 + n, 48]" "uuid_audit (sample_pg_env n) = [48 + n, 49]"
  "uuid_webhook (sample_pg_env n) = [48 + n, 51]"
  by (simp_all add: sample_pg_env_def sample_env_def env.defs)

lemma sample_pg_env_ok: "n < 10 \<Longrightarrow> pg_env_ok (sample_pg_env n)"
  by (simp add: pg_env_ok_def env_ok_def sample_pg_env_def sample_env_def uuid_hex_def digit_def env.defs sqlite_env_def)

definition event_at :: "nat \<Rightarrow> string \<Rightarrow> json \<Rightarrow> timestamp \<Rightarrow> realtime_event" where
  "event_at n ty payload now = \<lparr>re_sequence = n, re_room_id = lobby, re_event_type = str ty, re_payload = payload, re_created_at = now\<rparr>"

definition pg_room_store :: pg_store where
  "pg_room_store = empty_pg_store\<lparr>fd_events := [event_at 1 ''room.created'' (room_event sample_px ''room.created'' lobby_row) 2],
     fd_next_sequence := 2, ps_tables := room_db\<rparr>"

lemma sample_events_valid:
  "validate_event lobby (str ''room.created'') (room_event sample_px ''room.created'' lobby_row) =
     Inr (room_event sample_px ''room.created'' lobby_row)"
  "validate_event lobby (str ''message.created'') (message_event sample_px ''message.created'' first_message) =
     Inr (message_event sample_px ''message.created'' first_message)"
  "validate_event lobby (str ''message.deleted'') (message_event sample_px ''message.deleted'' gone_message) =
     Inr (message_event sample_px ''message.deleted'' gone_message)"
    by (simp_all add: validate_event_def ROOM_ID_PATTERN_def EVENT_TYPE_PATTERN_def head_tail_def char_class_defs str_def
      room_event_def message_event_def typed_def room_json_def message_json_def opt_json_def time_json_def sample_px_def sample_defs
      json_string_def json_escape_def utf8_encode_def surrogate_def utf8_bytes_def MAX_EVENT_PAYLOAD_BYTES_def
      metadata_json_def attachments_json_def mentions_json_def sort_key_def)

lemma sample_announced:
  "announce sample_px now lobby ''room.created'' (room_event sample_px ''room.created'' lobby_row) d =
     Inr (d\<lparr>fd_events := fd_events d @ [event_at (fd_next_sequence d) ''room.created'' (room_event sample_px ''room.created'' lobby_row) now],
       fd_next_sequence := fd_next_sequence d + 1\<rparr>)"
  "announce sample_px now lobby ''message.created'' (message_event sample_px ''message.created'' first_message) d =
     Inr (d\<lparr>fd_events := fd_events d @ [event_at (fd_next_sequence d) ''message.created''
       (message_event sample_px ''message.created'' first_message) now], fd_next_sequence := fd_next_sequence d + 1\<rparr>)"
  by (simp_all add: announce_Inr sample_events_valid event_at_def) (simp_all add: sample_px_def)

definition lobby_create :: room_create where
  "lobby_create = \<lparr>rc_name = [76], rc_description = [], rc_id = Some lobby\<rparr>"

lemma lobby_created: "RoomCreate sample_room = Inr lobby_create"
  by (simp add: RoomCreate_def sample_room_def lobby_create_def str_field_def ROOM_ID_PATTERN_def head_tail_def char_class_defs
      lobby_def strip_defs)

lemma sample_room_facts:
  "room_from_row lobby_row = lobby_row" "pg_room_checks lobby_row" "pg_text 1 128 ann" "lobby \<noteq> []" "max_rooms sample_cfg = 3"
  "\<lparr>ro_id = lobby, ro_name = [76], ro_description = [], ro_created_at = 2, ro_archived_at = None, ro_frozen_at = None\<rparr> = lobby_row"
  by (simp_all add: room_from_row_def pg_room_checks_def lobby_row_def lobby_def ann_def pg_text_def ROOM_ID_PATTERN_def head_tail_def
      char_class_defs strip_defs sample_cfg_def)

lemma sample_room_audit:
  "insert_audit sample_cfg [50, 49] 2 ''room.created'' ann (Some lobby) [] (empty_db\<lparr>db_rooms := [lobby_row]\<rparr>) = Inr room_db"
  by (simp add: insert_audit_def empty_db_def trim_audits_def sample_cfg_def room_db_def room_audit_def order_by_desc_def order_by_def sort_key_def)

lemma sample_pg_room:
  "pg_run_command sample_po sample_px (sample_pg_env 2) (CreateRoom sample_room ann) empty_pg_store = Inr pg_room_store"
proof -
  have "db_rooms empty_db = []" by (simp add: empty_db_def)
  then have "pg_create_room sample_cfg sample_px (sample_pg_env 2) lobby_create ann empty_pg_store = Inr (lobby_row, pg_room_store)"
    using sample_room_facts sample_room_audit
    by (simp add: pg_create_room_def lobby_create_def Let_def pg_insert_audit_def sample_announced)
       (simp add: pg_room_store_def with_tables_def empty_pg_store_def empty_foundation_def foundation.defs)
  then show ?thesis by (simp add: lobby_created sample_po_ok model_error_def raised_def)
qed

definition pg_message_store :: pg_store where
  "pg_message_store = pg_room_store\<lparr>fd_events := fd_events pg_room_store @
       [event_at 2 ''message.created'' (message_event sample_px ''message.created'' first_message) 3],
     fd_next_sequence := 3, ps_tables := message_db\<rparr>"

abbreviation "hello \<equiv> sample_message [104, 105] (Some [99])"

lemma hello_message: "new_message (env.truncate (sample_pg_env 3)) hello = first_message" "new_message (sqlite_env (sample_pg_env 3)) hello = first_message"
  by (simp_all add: new_message_def sample_message_def first_message_def)

lemma first_message_valid: "Message first_message = Inr first_message"
  by (simp add: Message_def require_complete_pin_metadata_def first_message_def str_field_def strip_defs lobby_def ann_def bob_def
      opt_field_def)

lemma hello_validated: "as_validated (sample_pg_env 3) (CreateMessage hello)"
  using first_message_valid by (simp add: hello_message) (simp add: sample_message_def)

lemma hello_row: "new_message_row (sample_pg_env 3) hello = message_row_of first_message (Some ann)"
  using new_row(1) [OF hello_validated] by (simp add: hello_message) (simp add: sample_message_def)

lemma pg_room_store_simps [simp]: "ps_tables pg_room_store = room_db" "ps_leases pg_room_store = []" "fd_next_sequence pg_room_store = 2"
  by (simp_all add: pg_room_store_def)

lemma sample_gate: "lock_writable_room (sample_pg_env 3) lobby False False (Some ann) pg_room_store = Inr ()"
  by (simp add: lock_writable_room_def get_room_row_def room_db_def lobby_row_def pg_enforce_member_write_def get_control_row_def empty_db_def)

lemma sample_insert:
  "pg_insert_message_row sample_px (message_row_of first_message (Some ann)) room_db =
     Inr (room_db\<lparr>db_messages := [message_row_of first_message (Some ann)]\<rparr>)"
  by (simp add: pg_insert_message_row_def room_db_def empty_db_def get_room_row_def lobby_row_def first_message_def
      pg_message_checks_def pg_text_def pg_text_option_def sample_px_def ann_def)

lemma prune_nothing: "ps_leases d = [] \<Longrightarrow> prune_rows [] d = d"
  by (simp add: prune_rows_def delete_ids_def with_tables_def message_batch_def delete_no_rows scrub_message_event_payloads_def scrub_none)

abbreviation "inserted \<equiv> with_tables (room_db\<lparr>db_messages := [message_row_of first_message (Some ann)]\<rparr>) pg_room_store"

lemma inserted_simps: "ps_leases inserted = []" "db_messages (ps_tables inserted) = [message_row_of first_message (Some ann)]"
  by (simp_all add: with_tables_def)

lemma sample_trim: "pg_trim_messages sample_cfg e lobby now inserted = Inr inserted"
  using prune_nothing [OF inserted_simps(1)]
  by (simp add: pg_trim_messages_def Let_def sample_cfg_def room_messages_def del: prune_rows_tables)

lemma sample_webhook:
  "pg_insert_webhook sample_cfg [51, 51] ''message.created'' lobby [51, 48] 3 (MessageData None first_message) inserted =
     Inr (pg_room_store\<lparr>ps_tables := message_db\<rparr>)"
proof -
  have "insert_webhook sample_cfg [51, 51] ''message.created'' lobby [51, 48] 3 (MessageData None first_message)
      (room_db\<lparr>db_messages := [message_row_of first_message (Some ann)]\<rparr>) = Inr message_db"
    by (simp add: insert_webhook_def sample_cfg_def evict_terminal_def order_by_def room_db_def empty_db_def message_db_def)
  then show ?thesis by (simp add: pg_insert_webhook_def with_tables_def)
qed

lemma sample_pg_message:
  "pg_run_command sample_po sample_px (sample_pg_env 3) (CreateMessage hello) pg_room_store = Inr pg_message_store"
proof -
  have "db_messages room_db = []" "get_message_by_id (ps_tables inserted) [51, 48] = Some (message_row_of first_message (Some ann))"
    by (simp_all add: room_db_def empty_db_def get_message_by_id_def first_message_def)
  moreover have "message_from_row (message_row_of first_message (Some ann)) = Inr first_message"
    by (rule fresh_row_decoded [OF first_message_valid]) (simp_all add: first_message_def)
  moreover have "msg_id first_message = [51, 48]" "msg_created_at first_message = 3" by (simp_all add: first_message_def)
  moreover have "ca_room_id hello = lobby" "ca_allow_frozen hello = False" "ca_member_subject hello = Some ann"
    "ca_client_message_id hello = Some [99]" "ca_parent_message_id hello = None" by (simp_all add: sample_message_def)
  ultimately have "pg_create_message sample_cfg sample_px (sample_pg_env 3) hello pg_room_store = Inr ((first_message, True), pg_message_store)"
    using sample_gate sample_insert sample_trim sample_webhook
    by (simp add: pg_create_message_def hello_row check_parent_def Let_def sample_announced) (simp add: pg_message_store_def)
  then show ?thesis by (simp add: sample_po_ok)
qed

lemma sample_pg_reachable: "pg_store_reachable sample_cfg sample_px pg_room_store" "pg_store_reachable sample_cfg sample_px pg_message_store"
proof -
  have "pg_store_step sample_cfg sample_px empty_pg_store pg_room_store"
    by (rule store_call [OF _ _ sample_po_ok sample_pg_room]) (simp_all add: sample_pg_env_ok)
  then show room: "pg_store_reachable sample_cfg sample_px pg_room_store" by (rule pg_move [OF pg_start])
  have "pg_store_step sample_cfg sample_px pg_room_store pg_message_store"
    by (rule store_call [OF _ hello_validated sample_po_ok sample_pg_message]) (simp add: sample_pg_env_ok)
  then show "pg_store_reachable sample_cfg sample_px pg_message_store" by (rule pg_move [OF room])
qed

subsection \<open>The message deleted again\<close>

abbreviation "blanked \<equiv> event_at 2 ''message.created'' (message_event sample_px ''message.created'' (blank first_message)) 3"

definition pg_deleted_store :: pg_store where
  "pg_deleted_store = pg_room_store\<lparr>fd_events := fd_events pg_room_store @ [blanked,
       event_at 3 ''message.deleted'' (message_event sample_px ''message.deleted'' gone_message) 4],
     fd_next_sequence := 4, ps_tables := deleted_db\<rparr>"

lemma pg_message_store_simps [simp]:
  "ps_tables pg_message_store = message_db" "ps_leases pg_message_store = []" "fd_next_sequence pg_message_store = 3"
  by (simp_all add: pg_message_store_def)

lemma sample_gate2: "lock_writable_room (sample_pg_env 4) lobby False False (Some ann) pg_message_store = Inr ()"
  by (simp add: lock_writable_room_def get_room_row_def message_db_def room_db_def lobby_row_def pg_enforce_member_write_def
      get_control_row_def empty_db_def)

lemma sample_lock: "lock_message lobby [51, 48] pg_message_store = Inr (message_row_of first_message (Some ann))"
  by (simp add: lock_message_def get_message_row_def message_db_def room_db_def empty_db_def first_message_def)

lemma gone_message_valid: "Message gone_message = Inr gone_message"
  by (simp add: Message_def require_complete_pin_metadata_def gone_message_def first_message_def str_field_def strip_defs lobby_def
      ann_def opt_field_def)

abbreviation "tombstones \<equiv> message_db\<lparr>db_messages := [message_row_of gone_message (Some ann)]\<rparr>"

lemma sample_tombstone:
  "pg_update_message sample_px [51, 48] (tombstone_row 4) (delete_message_reactions [51, 48] message_db) = Inr (gone_message, tombstones)"
proof -
  have f: "msg_id first_message = [51, 48]" "first_message\<lparr>msg_content := [], msg_reactions := [], msg_pinned_at := None, msg_metadata := [],
      msg_attachments := [], msg_mentioned_subjects := [], msg_pinned_by := None, msg_deleted_at := Some 4\<rparr> = gone_message"
    "msg_id gone_message = [51, 48]"
    by (simp_all add: gone_message_def first_message_def)
  have "pg_message_checks sample_px (message_row_of gone_message (Some ann))"
    by (simp add: pg_message_checks_def pg_text_def pg_text_option_def sample_px_def ann_def gone_message_def first_message_def)
  moreover have "message_from_row (message_row_of gone_message (Some ann)) = Inr gone_message"
    by (rule fresh_row_decoded [OF gone_message_valid]) (simp_all add: gone_message_def first_message_def)
  moreover have "delete_message_reactions [51, 48] message_db = message_db"
    "db_messages message_db = [message_row_of first_message (Some ann)]"
    by (simp_all add: delete_message_reactions_def message_db_def room_db_def empty_db_def)
  ultimately show ?thesis
    by (simp add: pg_update_message_def f update_where_def reread_message_def get_message_by_id_def)
qed

lemma sample_delete_audit:
  "pg_insert_audit sample_cfg [52, 49] 4 ''message.deleted'' ann (Some lobby) [(str ''message_id'', AText [51, 48])]
     (pg_message_store\<lparr>fd_events := evs, ps_tables := tombstones\<rparr>) =
   Inr (pg_message_store\<lparr>fd_events := evs, ps_tables := tombstones\<lparr>db_audits := [room_audit, delete_audit]\<rparr>\<rparr>)"
proof -
  have "insert_audit sample_cfg [52, 49] 4 ''message.deleted'' ann (Some lobby) [(str ''message_id'', AText [51, 48])] tombstones =
      Inr (tombstones\<lparr>db_audits := [room_audit, delete_audit]\<rparr>)"
    by (simp add: insert_audit_def message_db_def room_db_def room_audit_def delete_audit_def trim_audits_def order_by_desc_def
        order_by_def sample_cfg_def sort_key_def)
  then show ?thesis by (simp add: pg_insert_audit_def with_tables_def ann_def pg_text_def)
qed

lemma sample_delete_webhook:
  "pg_insert_webhook sample_cfg [52, 51] ''message.deleted'' lobby [51, 48] 4 (MessageData (Some ann) gone_message)
     (pg_scrub_message_webhooks [([51, 48], lobby)]
       (pg_message_store\<lparr>fd_events := evs, ps_tables := tombstones\<lparr>db_audits := [room_audit, delete_audit]\<rparr>\<rparr>)) =
   Inr (pg_message_store\<lparr>fd_events := evs, ps_tables := deleted_db\<rparr>)"
proof -
  have scrubbed: "scrub_batch_webhooks [([51, 48], lobby)] (tombstones\<lparr>db_audits := [room_audit, delete_audit]\<rparr>) =
      room_db\<lparr>db_messages := [message_row_of gone_message (Some ann)], db_audits := [room_audit, delete_audit]\<rparr>"
    by (simp add: scrub_batch_webhooks_def scrub_def update_where_def message_db_def room_db_def empty_db_def like_message_def)
  have "insert_webhook sample_cfg [52, 51] ''message.deleted'' lobby [51, 48] 4 (MessageData (Some ann) gone_message)
      (room_db\<lparr>db_messages := [message_row_of gone_message (Some ann)], db_audits := [room_audit, delete_audit]\<rparr>) = Inr deleted_db"
    by (simp add: insert_webhook_def sample_cfg_def evict_terminal_def order_by_def room_db_def empty_db_def deleted_db_def)
  then show ?thesis by (simp add: pg_insert_webhook_def pg_scrub_message_webhooks_def scrubbed with_tables_def clear_leases_def)
qed

lemma sample_scrubbed:
  "map (scrub_event [([51, 48], lobby)]) (fd_events pg_message_store) = fd_events pg_room_store @ [blanked]"
proof -
  have "scrub_event b (event_at 1 ''room.created'' x 2) = event_at 1 ''room.created'' x 2" for b x
    by (simp add: scrub_event_def event_at_def is_message_event_def str_def)
  moreover have "scrub_event [([51, 48], lobby)] (event_at 2 ''message.created'' (message_event sample_px ''message.created'' first_message) 3) = blanked"
  proof -
    have "carries sample_px (event_at 2 ''message.created'' (message_event sample_px ''message.created'' first_message) 3) first_message None"
      by (simp add: carries_def event_at_def)
    from carries_id [OF this] show ?thesis
      using scrub_message_event [of "''message.created''" sample_px first_message]
      by (simp add: scrub_event_def event_at_def is_message_event_def first_message_def) (simp add: str_def)
  qed
  ultimately show ?thesis by (simp add: pg_message_store_def pg_room_store_def)
qed

lemma sample_announced_delete:
  "announce sample_px now lobby ''message.deleted'' (message_event sample_px ''message.deleted'' gone_message) d =
     Inr (d\<lparr>fd_events := fd_events d @ [event_at (fd_next_sequence d) ''message.deleted''
       (message_event sample_px ''message.deleted'' gone_message) now], fd_next_sequence := fd_next_sequence d + 1\<rparr>)"
  by (simp add: announce_Inr sample_events_valid event_at_def) (simp add: sample_px_def)

lemma sample_pg_delete:
  "pg_run_command sample_po sample_px (sample_pg_env 4) (DeleteMessage lobby [51, 48] ann False (Some ann)) pg_message_store = Inr pg_deleted_store"
proof -
  have m: "msg_id gone_message = [51, 48]" "msg_room_id gone_message = lobby" "msg_deleted_at gone_message = Some 4"
    "msg_sender first_message = ann" "msg_deleted_at first_message = None"
    by (simp_all add: gone_message_def first_message_def)
  have s: "scrub_message_event_payloads [([51, 48], lobby)] (with_tables tombstones pg_message_store) =
      pg_message_store\<lparr>fd_events := fd_events pg_room_store @ [blanked], ps_tables := tombstones\<rparr>"
    using sample_scrubbed by (simp add: scrub_message_event_payloads_def with_tables_def)
  show ?thesis
    using sample_delete_webhook
    by (simp add: pg_delete_message_def sample_po_ok sample_gate2 sample_lock sample_tombstone m s sample_delete_audit sample_announced_delete)
       (simp add: pg_deleted_store_def pg_message_store_def)
qed

lemma sample_deleted_reachable: "pg_store_reachable sample_cfg sample_px pg_deleted_store"
proof -
  have "pg_store_step sample_cfg sample_px pg_message_store pg_deleted_store"
    by (rule store_call [OF _ _ sample_po_ok sample_pg_delete]) (simp_all add: sample_pg_env_ok)
  then show ?thesis by (rule pg_move [OF sample_pg_reachable(2)])
qed

subsection \<open>The claim of its delivery\<close>

lemma sample_delivery_claim:
  "\<exists>w body. pg_next_webhook_delivery sample_po (\<lambda>k. 10) (\<lambda>i. False) pg_message_store =
     (Some (w, body), set_lease (delivery_id_of [51, 51]) [119] (10 + seconds_delta 60) pg_message_store) \<and>
     env_id body = delivery_id_of [51, 51]"
proof -
  have "db_webhooks message_db = [new_webhook_row [51, 51] ''message.created'' lobby [51, 48] 3 (MessageData None first_message)]"
    by (simp add: message_db_def room_db_def empty_db_def)
  moreover have "claimable 10 (\<lambda>i. False) pg_message_store (new_webhook_row [51, 51] ''message.created'' lobby [51, 48] 3 (MessageData None first_message))"
    by (simp add: claimable_def is_due_def lease_of_def)
  ultimately show ?thesis by (simp add: pg_next_webhook_delivery_def order_by_def sample_po_def)
qed

lemma sample_still_waits:
  "\<exists>v\<in>set (db_webhooks (ps_tables (set_lease i ow u pg_message_store))). wd_id v = delivery_id_of [51, 51] \<and> pending v"
  by (simp add: message_db_def)

end
