(* ===== verification/Pg_Store_Properties.thy ===== *)
theory Pg_Store_Properties
  imports Pg_Store_Samples
begin

section \<open>Properties of the PostgreSQL store\<close>

text \<open>
  The store refines the SQLite store, its event log gives away nothing of deleted messages, and a claimed
  delivery belongs to one worker.
\<close>

subsection \<open>Refinement\<close>

text \<open>
  C3. The PostgreSQL store is the SQLite store on its tables. In every database that any number of
  processes reach, a call that succeeds does to the tables what the SQLite command does, with the later
  of its two clock readings in the member check, and the tables are those of a run of the SQLite store.
  So every invariant and every property of that store holds here.
\<close>

theorem postgres_refines_sqlite:
  assumes "pg_store_reachable (po_config po) px d" and "as_validated e c" and "pg_run_command po px e c d = Inr d'"
  shows "reachable (po_config po) (ps_tables d) \<and> store_inv (po_config po) (ps_tables d) \<and>
    run_command (po_config po) (sqlite_env e) (as_sqlite e c) (ps_tables d) = Inr (ps_tables d')"
  using pg_reachable_refines [OF assms(1)] reachable_store_inv pg_run_command_tables [OF assms(3,2)] by blast

theorem postgres_refines_sqlite_witness:
  "run_command sample_cfg (sqlite_env (sample_pg_env 4)) (DeleteMessage lobby [51, 48] ann False (Some ann)) message_db = Inr deleted_db"
  using postgres_refines_sqlite [of sample_po sample_px pg_message_store "sample_pg_env 4"
      "DeleteMessage lobby [51, 48] ann False (Some ann)" pg_deleted_store] sample_pg_reachable(2) sample_pg_delete
  by (simp add: sample_po_ok pg_deleted_store_def del: pg_run_command.simps run_command.simps)

subsection \<open>Privacy of the log\<close>

text \<open>
  C4. Whatever the processes have run, an event about a message that is in the log is about a message that
  is stored and not deleted, or carries neither content nor metadata, attachments, mentions, reactions
  and pin of it, and the actor of a reaction or pin only as a placeholder.
\<close>

theorem log_forgets_deleted_messages:
  assumes "pg_store_reachable cfg px d" and "ev \<in> set (fd_events d)" and "is_message_event ev"
  shows "\<exists>m who. carries px ev m who \<and> (live (ps_tables d) (re_room_id ev) (msg_id m) \<or>
    msg_content m = [] \<and> msg_metadata m = [] \<and> msg_attachments m = [] \<and> msg_mentioned_subjects m = [] \<and>
    msg_reactions m = [] \<and> msg_pinned_at m = None \<and> msg_pinned_by m = None \<and> who \<in> {None, Some (str ''[deleted]'')})"
proof -
  have erased: "erased m who \<Longrightarrow> msg_content m = [] \<and> msg_metadata m = [] \<and> msg_attachments m = [] \<and> msg_mentioned_subjects m = [] \<and>
    msg_reactions m = [] \<and> msg_pinned_at m = None \<and> msg_pinned_by m = None \<and> who \<in> {None, Some (str ''[deleted]'')}" for m who
    by (cases m) (auto simp: erased_def blank_def)
  from pg_reachable_discreet [OF assms(1)] assms(2,3) obtain m who where "carries px ev m who"
    "live (ps_tables d) (re_room_id ev) (msg_id m) \<or> erased m who"
    by (auto simp: log_discreet_def event_discreet_def)
  then show ?thesis using erased by blast
qed

theorem log_forgets_deleted_messages_witness:
  "\<exists>m who. carries sample_px blanked m who \<and> \<not> live deleted_db lobby (msg_id m) \<and> msg_content m = []"
proof -
  have "blanked \<in> set (fd_events pg_deleted_store)" "is_message_event blanked"
    by (simp_all add: pg_deleted_store_def event_at_def is_message_event_def str_def)
  from log_forgets_deleted_messages [OF sample_deleted_reachable this] obtain m who where
    c: "carries sample_px blanked m who" and l: "live deleted_db lobby (msg_id m) \<or> msg_content m = []"
    by (auto simp: pg_deleted_store_def event_at_def)
  have "\<not> live deleted_db lobby i" for i
    by (simp add: live_def deleted_db_def gone_message_def)
  then show ?thesis using c l by blast
qed

subsection \<open>Claims\<close>



end
