(* ===== verification/Py_Parse.thy ===== *)
theory Py_Parse
  imports Py_Bytes
begin

section \<open>Python text: numbers, splitting, decoding\<close>

text \<open>
  What the configuration uses of \<open>int\<close>, \<open>str.split\<close>, \<open>str.removesuffix\<close>, \<open>dict.fromkeys\<close> and
  \<open>bytes.decode("utf-8")\<close>. The decoder is the strict one: overlong forms, surrogates and values beyond the
  last code point raise, which is \<open>None\<close>. The decimal digits of other scripts are an argument of \<open>int\<close>.
\<close>

subsection \<open>Integers\<close>

definition digit_value :: "(nat \<Rightarrow> nat option) \<Rightarrow> nat \<Rightarrow> nat option" where
  "digit_value other c = (if digit c then Some (c - 48) else if c < 128 then None else other c)"

fun int_digits :: "(nat \<Rightarrow> nat option) \<Rightarrow> pystr \<Rightarrow> nat list option" where
  "int_digits dv [] = None"
| "int_digits dv [c] = map_option (\<lambda>d. [d]) (dv c)"
| "int_digits dv (c # x # cs) = (case dv c of None \<Rightarrow> None
     | Some d \<Rightarrow> map_option ((#) d) (int_digits dv (if x = 95 then cs else x # cs)))"

text \<open>\<open>int(s)\<close>: spaces around, a sign, digits with single underscores between them, at most 4300 digits.\<close>

definition py_int :: "(nat \<Rightarrow> nat option) \<Rightarrow> pystr \<Rightarrow> int option" where
  "py_int other raw = (let s = py_strip raw;
       (negative, ds) = (case s of c # cs \<Rightarrow> if c = 45 then (True, cs) else if c = 43 then (False, cs) else (False, s)
         | [] \<Rightarrow> (False, [])) in
     case int_digits (digit_value other) ds of None \<Rightarrow> None
     | Some vs \<Rightarrow> (if 4300 < length vs then None
         else (let n = foldl (\<lambda>n d. 10 * n + int d) 0 vs in Some (if negative then - n else n))))"

subsection \<open>Lists of names\<close>

fun split_on :: "nat \<Rightarrow> pystr \<Rightarrow> pystr list" where
  "split_on sep [] = [[]]"
| "split_on sep (c # cs) = (if c = sep then [] # split_on sep cs
     else (case split_on sep cs of [] \<Rightarrow> [[c]] | x # xs \<Rightarrow> (c # x) # xs))"

definition first_occurrences :: "'a list \<Rightarrow> 'a list" where
  "first_occurrences xs = rev (remdups (rev xs))"

definition removesuffix :: "nat \<Rightarrow> pystr \<Rightarrow> pystr" where
  "removesuffix c s = (if s \<noteq> [] \<and> last s = c then butlast s else s)"

definition removeprefix :: "pystr \<Rightarrow> pystr \<Rightarrow> pystr" where
  "removeprefix p s = (if take (length p) s = p then drop (length p) s else s)"

lemma set_first_occurrences [simp]: "set (first_occurrences xs) = set xs"
  by (simp add: first_occurrences_def)

lemma distinct_first_occurrences [simp]: "distinct (first_occurrences xs)"
  by (simp add: first_occurrences_def)

lemma first_occurrences_distinct: "distinct xs \<Longrightarrow> first_occurrences xs = xs"
  by (simp add: first_occurrences_def distinct_remdups_id)

lemma removesuffix_other: "c \<notin> set s \<Longrightarrow> removesuffix c s = s"
  by (auto simp: removesuffix_def)

lemma removesuffix_snoc [simp]: "removesuffix c (s @ [c]) = s"
  by (simp add: removesuffix_def)

subsection \<open>UTF-8\<close>

definition continuation :: "nat \<Rightarrow> bool" where
  "continuation b \<longleftrightarrow> 128 \<le> b \<and> b < 192"

fun utf8_decode :: "pybytes \<Rightarrow> pystr option" where
  "utf8_decode [] = Some []"
| "utf8_decode (a # bs) =
     (if a < 128 then map_option ((#) a) (utf8_decode bs)
      else (case bs of [] \<Rightarrow> None | b # bs2 \<Rightarrow>
        (if \<not> continuation b then None
         else if 194 \<le> a \<and> a < 224 then map_option ((#) (a mod 32 * 64 + b mod 64)) (utf8_decode bs2)
         else (case bs2 of [] \<Rightarrow> None | c # bs3 \<Rightarrow>
           (if \<not> continuation c then None
            else if 224 \<le> a \<and> a < 240 then
              (let n = a mod 16 * 4096 + b mod 64 * 64 + c mod 64 in
               if n < 2048 \<or> surrogate n then None else map_option ((#) n) (utf8_decode bs3))
            else (case bs3 of [] \<Rightarrow> None | d # bs4 \<Rightarrow>
              (if \<not> continuation d \<or> \<not> (240 \<le> a \<and> a < 248) then None
               else (let n = a mod 8 * 262144 + b mod 64 * 4096 + c mod 64 * 64 + d mod 64 in
                 if n < 65536 \<or> 1114112 \<le> n then None else map_option ((#) n) (utf8_decode bs4)))))))))"

lemma tagged_mod [simp]:
  "x < 64 \<Longrightarrow> (128 + x) mod 64 = x" "x < 32 \<Longrightarrow> (192 + x) mod 32 = x" "x < 16 \<Longrightarrow> (224 + x) mod 16 = x" "x < 8 \<Longrightarrow> (240 + x) mod 8 = (x::nat)"
  using mod_add_eq [of 128 64 x] mod_add_eq [of 192 32 x] mod_add_eq [of 224 16 x] mod_add_eq [of 240 8 x] by simp_all

lemma continuation_tagged [simp]: "continuation (128 + n mod 64)"
  by (simp add: continuation_def)

lemma low_parts:
  "c div 64 * 64 + c mod 64 = (c::nat)" "c div 4096 * 4096 + c div 64 mod 64 * 64 + c mod 64 = c"
  "c div 262144 * 262144 + c div 4096 mod 64 * 4096 + c div 64 mod 64 * 64 + c mod 64 = c"
proof -
  have d: "c div 4096 = c div 64 div 64" "c div 262144 = c div 64 div 64 div 64" by (simp_all add: div_mult2_eq [symmetric])
  have two: "p * 4096 + q * 64 + r = (p * 64 + q) * 64 + r" for p q r :: nat by simp
  have three: "p * 262144 + q * 4096 + r * 64 + s = ((p * 64 + q) * 64 + r) * 64 + s" for p q r s :: nat by simp
  show "c div 64 * 64 + c mod 64 = (c::nat)" by (rule div_mult_mod_eq)
  show "c div 4096 * 4096 + c div 64 mod 64 * 64 + c mod 64 = c" by (simp only: d two div_mult_mod_eq)
  show "c div 262144 * 262144 + c div 4096 mod 64 * 4096 + c div 64 mod 64 * 64 + c mod 64 = c"
    by (simp only: d three div_mult_mod_eq)
qed

lemma utf8_decode_step:
  assumes "c < 1114112" and "\<not> surrogate c"
  shows "utf8_decode (utf8_bytes c @ rest) = map_option ((#) c) (utf8_decode rest)"
proof -
  consider "c < 128" | "128 \<le> c" "c < 2048" | "2048 \<le> c" "c < 65536" | "65536 \<le> c" by linarith
  then show ?thesis
  proof cases
    case 1
    then show ?thesis by (simp add: utf8_bytes_def)
  next
    case 2
    define q where "q = c div 64"
    from 2 have "2 \<le> q" "q < 32" by (simp_all add: q_def div_less_iff_less_mult)
    moreover have "utf8_bytes c = [192 + q, 128 + c mod 64]" using 2 by (simp add: utf8_bytes_def q_def)
    moreover have "q * 64 + c mod 64 = c" unfolding q_def by (rule low_parts)
    ultimately show ?thesis by simp
  next
    case 3
    then have "c div 4096 < 16" by (simp add: div_less_iff_less_mult)
    then show ?thesis using 3 assms(2) low_parts(2) [of c] by (simp add: utf8_bytes_def)
  next
    case 4
    with assms(1) have "c div 262144 < 8" by (simp add: div_less_iff_less_mult)
    then show ?thesis using 4 assms(1) low_parts(3) [of c] by (simp add: utf8_bytes_def)
  qed
qed

lemma utf8_roundtrip: "code_points s \<Longrightarrow> utf8_encode s = Some b \<Longrightarrow> utf8_decode b = Some s"
proof (induction s arbitrary: b)
  case Nil
  then show ?case by (simp add: utf8_encode_def)
next
  case (Cons c s)
  from Cons.prems(2) have n: "\<not> surrogate c" "\<not> list_ex surrogate s" and b: "b = utf8_bytes c @ concat (map utf8_bytes s)"
    by (auto simp: utf8_encode_def split: if_splits)
  from Cons.IH n(2) Cons.prems(1) have "utf8_decode (concat (map utf8_bytes s)) = Some s"
    by (simp add: code_points_def utf8_encode_def)
  then show ?case using Cons.prems(1) n(1) by (simp add: b code_points_def utf8_decode_step del: utf8_decode.simps)
qed

end
