(* ===== verification/Config.thy ===== *)
theory Config
  imports Auth Dispatcher Py_Parse
begin

section \<open>Configuration (config.py)\<close>

text \<open>
  The settings of \<open>samsarix_chat_engine/config.py\<close>: what is read from the environment, and the checks a
  \<open>Settings\<close> value passes when it is made. The environment is a map of names to strings. Files,
  \<open>float\<close>, \<open>urlparse\<close>, \<open>parse_qs\<close>, \<open>ipaddress\<close>, JSON, the key library and libpq's parser are the record
  \<open>platform\<close>; \<open>None\<close> is the exception that the code at that place expects, and of \<open>urlparse\<close> its
  \<open>ValueError\<close>. A path is the text it
  is made of. The warnings about old names go to the log and are left out. A float is an exact binary
  fraction, so the literals 0.1 and 0.01 are the fractions next to them.
\<close>

type_synonym environ = "pystr \<Rightarrow> pystr option"

datatype config_error = ConfigurationError pystr | UncaughtValueError | UncaughtTypeError

record config_url = parsed_url +
  pu_params :: pystr

record 'k platform =
  pf_read :: "pystr \<Rightarrow> pybytes option"
  pf_exists :: "pystr \<Rightarrow> bool"
  pf_digit :: "nat \<Rightarrow> nat option"
  pf_float :: "pystr \<Rightarrow> pyfloat option"
  pf_urlparse :: "pystr \<Rightarrow> config_url option"
  pf_parse_qs :: "pystr \<Rightarrow> (pystr \<times> pystr list) list"
  pf_loads :: "pybytes \<Rightarrow> json option"
  pf_from_dict :: "'k from_dict"
  pf_conninfo :: "pystr \<Rightarrow> bool"
  pf_is_loopback :: "pystr \<Rightarrow> bool option"

definition refuse_config :: "string \<Rightarrow> config_error + 'a" where
  "refuse_config text = Inl (ConfigurationError (str text))"

definition refuse_variable :: "pystr \<Rightarrow> string \<Rightarrow> config_error + 'a" where
  "refuse_variable variable text = Inl (ConfigurationError (variable @ str text))"

definition WEBHOOK_EVENT_TYPES :: "string list" where
  "WEBHOOK_EVENT_TYPES = [''member.moderation.updated'', ''message.created'', ''message.deleted'', ''message.pin.updated'',
     ''message.reaction.updated'', ''message.updated'']"

definition POSTGRES_INSTANCE_PATTERN :: "pystr \<Rightarrow> bool" where
  "POSTGRES_INSTANCE_PATTERN s \<longleftrightarrow> head_tail (\<lambda>c. lower c \<or> upper c \<or> digit c)
     (\<lambda>c. lower c \<or> upper c \<or> digit c \<or> c \<in> set (str ''._:-'')) 127 s"

subsection \<open>Reading the environment\<close>

definition canonical_name :: "string \<Rightarrow> pystr" where
  "canonical_name suffix = str (''SAMSARIX_CHAT_'' @ suffix)"

definition legacy_name :: "string \<Rightarrow> pystr" where
  "legacy_name suffix = str (''HELIX_CHAT_'' @ suffix)"

definition read_env :: "environ \<Rightarrow> string \<Rightarrow> pystr option" where
  "read_env environ suffix = (case environ (canonical_name suffix) of
     Some v \<Rightarrow> Some v | None \<Rightarrow> environ (legacy_name suffix))"

text \<open>Python's \<open>value or None\<close>.\<close>

definition or_none :: "pystr option \<Rightarrow> pystr option" where
  "or_none v = (if v = Some [] then None else v)"

definition read_secret_file :: "'k platform \<Rightarrow> pystr \<Rightarrow> pystr \<Rightarrow> config_error + pystr" where
  "read_secret_file pf variable path =
     (if py_strip path = [] then refuse_variable variable '' must name a readable secret file''
      else (case pf_read pf path of
        None \<Rightarrow> refuse_variable variable '' must name a readable secret file''
      | Some contents \<Rightarrow> (let encoded = take 4098 contents in
          if 4097 < length encoded then refuse_variable variable '' secret file must not exceed 4097 bytes''
          else (case utf8_decode encoded of
            None \<Rightarrow> refuse_variable variable '' secret file must contain UTF-8 text''
          | Some text \<Rightarrow> (let v = removesuffix 13 (removesuffix 10 text) in
              if v = [] \<or> 10 \<in> set v \<or> 13 \<in> set v \<or> 0 \<in> set v
              then refuse_variable variable '' secret file must contain exactly one non-empty text line''
              else Inr v)))))"

definition read_secret_env :: "'k platform \<Rightarrow> environ \<Rightarrow> string \<Rightarrow> config_error + pystr option" where
  "read_secret_env pf environ suffix =
     (let canonical = canonical_name suffix; canonical_file = canonical_name (suffix @ ''_FILE'');
          legacy = legacy_name suffix; legacy_file = legacy_name (suffix @ ''_FILE'') in
      if environ canonical \<noteq> None \<and> environ canonical_file \<noteq> None
      then Inl (ConfigurationError (str ''set only one of '' @ canonical @ str '' or '' @ canonical_file))
      else (case environ canonical_file of
        Some path \<Rightarrow> res_map Some (read_secret_file pf canonical_file path)
      | None \<Rightarrow> (case environ canonical of
          Some v \<Rightarrow> Inr (Some v)
        | None \<Rightarrow>
            (if environ legacy \<noteq> None \<and> environ legacy_file \<noteq> None
             then Inl (ConfigurationError (str ''set only one of '' @ legacy @ str '' or '' @ legacy_file))
             else (case environ legacy_file of
               Some path \<Rightarrow> res_map Some (read_secret_file pf legacy_file path)
             | None \<Rightarrow> Inr (environ legacy))))))"

definition between_text :: "pystr \<Rightarrow> pystr \<Rightarrow> pystr \<Rightarrow> pystr" where
  "between_text variable minimum maximum = variable @ str '' must be between '' @ minimum @ str '' and '' @ maximum"

definition parse_int :: "'k platform \<Rightarrow> pystr \<Rightarrow> pystr \<Rightarrow> int \<Rightarrow> int \<Rightarrow> config_error + int" where
  "parse_int pf variable raw minimum maximum = (case py_int (pf_digit pf) raw of
     None \<Rightarrow> refuse_variable variable '' must be an integer''
   | Some v \<Rightarrow> (if \<not> (minimum \<le> v \<and> v \<le> maximum)
       then Inl (ConfigurationError (between_text variable (decimal minimum) (decimal maximum))) else Inr v))"

definition read_int :: "'k platform \<Rightarrow> environ \<Rightarrow> string \<Rightarrow> int \<Rightarrow> int \<Rightarrow> int \<Rightarrow> config_error + int" where
  "read_int pf environ suffix otherwise minimum maximum = (case read_env environ suffix of
     None \<Rightarrow> Inr otherwise | Some raw \<Rightarrow> parse_int pf (canonical_name suffix) raw minimum maximum)"

definition read_optional_int :: "'k platform \<Rightarrow> environ \<Rightarrow> string \<Rightarrow> int \<Rightarrow> int \<Rightarrow> config_error + int option" where
  "read_optional_int pf environ suffix minimum maximum = (case read_env environ suffix of
     None \<Rightarrow> Inr None
   | Some raw \<Rightarrow> (if py_strip raw = [] then Inr None
       else res_map Some (parse_int pf (canonical_name suffix) raw minimum maximum)))"

text \<open>A bound of a float is its value and the text of the literal. A comparison with NaN is false.\<close>

type_synonym float_bound = "rat \<times> string"

definition tenth :: float_bound where "tenth = (3602879701896397 / 36028797018963968, ''0.1'')"
definition hundredth :: float_bound where "hundredth = (5764607523034235 / 576460752303423488, ''0.01'')"

definition float_within :: "rat \<Rightarrow> rat \<Rightarrow> pyfloat \<Rightarrow> bool" where
  "float_within lo hi x = (case x of PyFinite m e _ \<Rightarrow> lo \<le> float_rat m e \<and> float_rat m e \<le> hi | _ \<Rightarrow> False)"

definition read_float ::
  "'k platform \<Rightarrow> environ \<Rightarrow> string \<Rightarrow> pyfloat \<Rightarrow> float_bound \<Rightarrow> float_bound \<Rightarrow> config_error + pyfloat" where
  "read_float pf environ suffix otherwise minimum maximum = (case read_env environ suffix of
     None \<Rightarrow> Inr otherwise
   | Some raw \<Rightarrow> (case pf_float pf raw of
       None \<Rightarrow> refuse_variable (canonical_name suffix) '' must be a number''
     | Some v \<Rightarrow> (if \<not> float_within (fst minimum) (fst maximum) v
         then Inl (ConfigurationError (between_text (canonical_name suffix) (str (snd minimum)) (str (snd maximum))))
         else Inr v)))"

text \<open>No character outside ASCII lowers to a letter of the words that are recognised.\<close>

definition read_bool :: "environ \<Rightarrow> string \<Rightarrow> bool \<Rightarrow> config_error + bool" where
  "read_bool environ suffix otherwise = (case read_env environ suffix of
     None \<Rightarrow> Inr otherwise
   | Some raw \<Rightarrow> (let normalized = ascii_lower (py_strip raw) in
       if normalized \<in> set (map str [''1'', ''true'', ''yes'', ''on'']) then Inr True
       else if normalized \<in> set (map str [''0'', ''false'', ''no'', ''off'']) then Inr False
       else refuse_variable (canonical_name suffix) '' must be true or false''))"

text \<open>The stripped, non-blank parts of a comma-separated list.\<close>

definition listed :: "pystr \<Rightarrow> pystr list" where
  "listed raw = filter (\<lambda>v. v \<noteq> []) (map py_strip (split_on 44 raw))"

definition strip_slashes :: "pystr \<Rightarrow> pystr" where
  "strip_slashes s = rev (dropWhile (\<lambda>c. c = 47) (rev s))"

definition read_origins :: "environ \<Rightarrow> pystr list" where
  "read_origins environ = first_occurrences (map strip_slashes
     (listed (case read_env environ ''ALLOWED_ORIGINS'' of None \<Rightarrow> [] | Some raw \<Rightarrow> raw)))"

definition unknown_events :: "pystr list \<Rightarrow> pystr list" where
  "unknown_events events = sort (remdups (filter (\<lambda>v. v \<notin> set (map str WEBHOOK_EVENT_TYPES)) events))"

fun join_names :: "pystr list \<Rightarrow> pystr" where
  "join_names [] = []"
| "join_names [x] = x"
| "join_names (x # y # ys) = x @ str '', '' @ join_names (y # ys)"

definition read_webhook_events :: "environ \<Rightarrow> pystr option \<Rightarrow> config_error + pystr list" where
  "read_webhook_events environ webhook_url = (case read_env environ ''WEBHOOK_EVENTS'' of
     None \<Rightarrow> Inr (if webhook_url \<noteq> None then sort (map str WEBHOOK_EVENT_TYPES) else [])
   | Some raw \<Rightarrow> (let events = first_occurrences (listed raw) in
       if unknown_events events \<noteq> []
       then Inl (ConfigurationError (str ''SAMSARIX_CHAT_WEBHOOK_EVENTS contains unsupported values: '' @
         join_names (unknown_events events)))
       else Inr events))"

definition decode_webhook_secret :: "pystr \<Rightarrow> config_error + pybytes" where
  "decode_webhook_secret v =
     (if take 6 v \<noteq> str ''whsec_'' then refuse_config ''webhook signing secrets must use the whsec_ base64 format''
      else (case b64decode (removeprefix (str ''whsec_'') v) of
        None \<Rightarrow> refuse_config ''webhook signing secrets must contain valid base64''
      | Some decoded \<Rightarrow> (if \<not> (24 \<le> length decoded \<and> length decoded \<le> 64)
          then refuse_config ''webhook signing secrets must decode to between 24 and 64 bytes'' else Inr decoded)))"

definition default_database_path :: "'k platform \<Rightarrow> pystr" where
  "default_database_path pf = (let canonical = str ''data/samsarix-chat.db''; legacy = str ''data/helix-chat.db'' in
     if \<not> pf_exists pf canonical \<and> pf_exists pf legacy then legacy else canonical)"

subsection \<open>Settings\<close>

record postgres_settings =
  cs_database_path :: pystr
  cs_storage_backend :: pystr
  cs_postgres_url :: "pystr option"
  cs_postgres_instance_id :: "pystr option"
  cs_postgres_min_pool_size :: int
  cs_postgres_max_pool_size :: int
  cs_postgres_pool_timeout_seconds :: pyfloat
  cs_postgres_operation_timeout_seconds :: pyfloat
  cs_postgres_lease_seconds :: int
  cs_postgres_relay_poll_seconds :: pyfloat
  cs_postgres_relay_max_pending_events :: int
  cs_postgres_relay_max_event_age_seconds :: int
  cs_postgres_maintenance_interval_seconds :: pyfloat
  cs_postgres_max_rate_buckets :: int
  cs_postgres_max_realtime_events :: int
  cs_postgres_realtime_event_max_age_seconds :: int

record access_settings = postgres_settings +
  cs_api_key :: "pystr option"
  cs_token_signing_secret :: "pystr option"
  cs_token_verification_jwks_path :: "pystr option"
  cs_token_issuer :: pystr
  cs_token_audience :: pystr
  cs_token_max_lifetime_seconds :: int
  cs_token_clock_skew_seconds :: int
  cs_allowed_origins :: "pystr list"

record limit_settings = access_settings +
  cs_max_message_chars :: int
  cs_max_connections :: int
  cs_max_connections_per_room :: int
  cs_messages_per_minute :: int
  cs_searches_per_minute :: int
  cs_read_state_queries_per_minute :: int
  cs_max_rooms :: int
  cs_max_stored_messages :: int
  cs_max_stored_messages_per_room :: int
  cs_max_read_states_per_room :: int
  cs_message_retention_days :: "int option"
  cs_max_audit_events :: int
  cs_typing_events_per_minute :: int
  cs_typing_timeout_seconds :: pyfloat
  cs_websocket_auth_timeout_seconds :: pyfloat
  cs_websocket_send_timeout_seconds :: pyfloat
  cs_websocket_max_bytes :: int

record settings = limit_settings +
  cs_webhook_url :: "pystr option"
  cs_webhook_signing_secret :: "pystr option"
  cs_webhook_previous_signing_secret :: "pystr option"
  cs_webhook_events :: "pystr list"
  cs_webhook_timeout_seconds :: pyfloat
  cs_webhook_max_attempts :: int
  cs_max_webhook_deliveries :: int
  cs_webhook_allow_private_targets :: bool

end
