(* ===== verification/Config_Checks.thy ===== *)
theory Config_Checks
  imports Config
begin

section \<open>Configuration: the checks of a Settings value (config.py)\<close>

text \<open>
  \<open>Settings.__post_init__\<close>, in the order of its statements, and \<open>with_database_path\<close>. An integer setting is
  an \<open>int\<close> here, so the type checks of two of them always pass.
\<close>

subsection \<open>The checks\<close>

definition float_is :: "rat \<Rightarrow> pyfloat \<Rightarrow> bool" where
  "float_is r x = (case x of PyFinite m e _ \<Rightarrow> float_rat m e = r | _ \<Rightarrow> False)"

definition postgres_tuning_is_nondefault :: "'a postgres_settings_scheme \<Rightarrow> bool" where
  "postgres_tuning_is_nondefault s \<longleftrightarrow>
     cs_postgres_min_pool_size s \<noteq> 1 \<or> cs_postgres_max_pool_size s \<noteq> 10 \<or>
     \<not> float_is 10 (cs_postgres_pool_timeout_seconds s) \<or> \<not> float_is 10 (cs_postgres_operation_timeout_seconds s) \<or>
     cs_postgres_lease_seconds s \<noteq> 30 \<or> \<not> float_is (1 / 4) (cs_postgres_relay_poll_seconds s) \<or>
     cs_postgres_relay_max_pending_events s \<noteq> 10000 \<or> cs_postgres_relay_max_event_age_seconds s \<noteq> 30 \<or>
     \<not> float_is 1 (cs_postgres_maintenance_interval_seconds s) \<or> cs_postgres_max_rate_buckets s \<noteq> 100000 \<or>
     cs_postgres_max_realtime_events s \<noteq> 100000 \<or> cs_postgres_realtime_event_max_age_seconds s \<noteq> 604800"

definition check_postgres_url :: "'k platform \<Rightarrow> pystr \<Rightarrow> config_error + unit" where
  "check_postgres_url pf url = (case pf_urlparse pf url of
     None \<Rightarrow> Inl UncaughtValueError
   | Some pu \<Rightarrow>
       (if pu_scheme pu \<notin> {str ''postgres'', str ''postgresql''}
        then refuse_config ''PostgreSQL connection information must be a PostgreSQL URL''
        else (case pu_hostname pu of
          Inl _ \<Rightarrow> Inl UncaughtValueError
        | Inr None \<Rightarrow> refuse_config ''PostgreSQL connection information must be a PostgreSQL URL''
        | Inr (Some host) \<Rightarrow>
            (if \<not> is_loopback (Some host) \<and> map_of (pf_parse_qs pf (pu_query pu)) (str ''sslmode'') \<noteq> Some [str ''verify-full'']
             then refuse_config ''remote PostgreSQL URLs must set sslmode=verify-full'' else Inr ()))))"

definition check_storage :: "'k platform \<Rightarrow> 'a postgres_settings_scheme \<Rightarrow> config_error + unit" where
  "check_storage pf s =
     (if cs_storage_backend s \<notin> {str ''sqlite'', str ''postgres''}
      then refuse_config ''SAMSARIX_CHAT_STORAGE must be sqlite or postgres''
      else if cs_storage_backend s = str ''sqlite''
      then (if cs_postgres_url s \<noteq> None \<or> cs_postgres_instance_id s \<noteq> None \<or> postgres_tuning_is_nondefault s
        then refuse_config ''PostgreSQL settings require SAMSARIX_CHAT_STORAGE=postgres'' else Inr ())
      else (case cs_postgres_url s of
        None \<Rightarrow> refuse_config ''SAMSARIX_CHAT_POSTGRES_URL or SAMSARIX_CHAT_POSTGRES_URL_FILE is required''
      | Some url \<Rightarrow>
          (if \<not> (1 \<le> length url \<and> length url \<le> 4096)
           then refuse_config ''PostgreSQL connection information must be between 1 and 4096 characters''
           else if (case cs_postgres_instance_id s of None \<Rightarrow> True | Some i \<Rightarrow> \<not> POSTGRES_INSTANCE_PATTERN i)
           then refuse_config ''SAMSARIX_CHAT_POSTGRES_INSTANCE_ID must be 1 to 128 safe identifier characters''
           else check_postgres_url pf url)))"

definition check_pool :: "'a postgres_settings_scheme \<Rightarrow> config_error + unit" where
  "check_pool s = (if \<not> (0 \<le> cs_postgres_min_pool_size s \<and> cs_postgres_min_pool_size s \<le> cs_postgres_max_pool_size s)
     then refuse_config ''PostgreSQL minimum pool size cannot exceed its maximum'' else Inr ())"

definition check_credentials :: "'a access_settings_scheme \<Rightarrow> config_error + unit" where
  "check_credentials s =
     (if (case cs_api_key s of None \<Rightarrow> False | Some k \<Rightarrow> \<not> (16 \<le> length k \<and> length k \<le> 4096))
      then refuse_config ''SAMSARIX_CHAT_API_KEY must be between 16 and 4096 characters''
      else res_bind (case cs_token_signing_secret s of
          None \<Rightarrow> Inr ()
        | Some secret \<Rightarrow> (case utf8_encode secret of
            None \<Rightarrow> Inl UncaughtValueError
          | Some b \<Rightarrow> (if \<not> (32 \<le> length b \<and> length b \<le> 4096)
              then refuse_config ''SAMSARIX_CHAT_TOKEN_SIGNING_SECRET must be between 32 and 4096 bytes'' else Inr ())))
        (\<lambda>_. if cs_token_signing_secret s \<noteq> None \<and> cs_token_verification_jwks_path s \<noteq> None
          then refuse_config ''set only one of SAMSARIX_CHAT_TOKEN_SIGNING_SECRET or SAMSARIX_CHAT_TOKEN_VERIFICATION_JWKS_FILE''
          else Inr ()))"

definition check_claim_names :: "'a access_settings_scheme \<Rightarrow> config_error + unit" where
  "check_claim_names s =
     (if \<not> padded_name_ok (cs_token_issuer s)
      then refuse_config ''token issuer must be 1 to 256 non-whitespace-padded characters''
      else if \<not> padded_name_ok (cs_token_audience s)
      then refuse_config ''token audience must be 1 to 256 non-whitespace-padded characters''
      else Inr ())"

definition ranges :: "settings \<Rightarrow> (string \<times> int \<times> int \<times> int) list" where
  "ranges s = [
     (''max_message_chars'', cs_max_message_chars s, 1, 100000),
     (''max_connections'', cs_max_connections s, 1, 100000),
     (''max_connections_per_room'', cs_max_connections_per_room s, 1, 100000),
     (''messages_per_minute'', cs_messages_per_minute s, 1, 100000),
     (''searches_per_minute'', cs_searches_per_minute s, 1, 100000),
     (''read_state_queries_per_minute'', cs_read_state_queries_per_minute s, 1, 100000),
     (''max_rooms'', cs_max_rooms s, 1, 1000000),
     (''max_stored_messages'', cs_max_stored_messages s, 1, 10000000),
     (''max_stored_messages_per_room'', cs_max_stored_messages_per_room s, 1, 1000000),
     (''max_read_states_per_room'', cs_max_read_states_per_room s, 1, 1000000),
     (''max_audit_events'', cs_max_audit_events s, 100, 10000000),
     (''typing_events_per_minute'', cs_typing_events_per_minute s, 1, 100000),
     (''websocket_max_bytes'', cs_websocket_max_bytes s, 256, 16777216),
     (''token_max_lifetime_seconds'', cs_token_max_lifetime_seconds s, 60, 604800),
     (''token_clock_skew_seconds'', cs_token_clock_skew_seconds s, 0, 300),
     (''webhook_max_attempts'', cs_webhook_max_attempts s, 1, 20),
     (''max_webhook_deliveries'', cs_max_webhook_deliveries s, 100, 10000000),
     (''postgres_max_pool_size'', cs_postgres_max_pool_size s, 1, 100),
     (''postgres_lease_seconds'', cs_postgres_lease_seconds s, 3, 300),
     (''postgres_max_rate_buckets'', cs_postgres_max_rate_buckets s, 1, 10000000),
     (''postgres_max_realtime_events'', cs_postgres_max_realtime_events s, 1, 10000000),
     (''postgres_relay_max_pending_events'', cs_postgres_relay_max_pending_events s, 1, 100000),
     (''postgres_relay_max_event_age_seconds'', cs_postgres_relay_max_event_age_seconds s, 1, 3600),
     (''postgres_realtime_event_max_age_seconds'', cs_postgres_realtime_event_max_age_seconds s, 60, 31536000)]"

fun check_ranges :: "(string \<times> int \<times> int \<times> int) list \<Rightarrow> config_error + unit" where
  "check_ranges [] = Inr ()"
| "check_ranges ((name, v, minimum, maximum) # rest) =
     (if \<not> (minimum \<le> v \<and> v \<le> maximum)
      then Inl (ConfigurationError (between_text (str name) (decimal minimum) (decimal maximum)))
      else check_ranges rest)"

definition token_profile_of :: "'a access_settings_scheme \<Rightarrow> token_profile" where
  "token_profile_of s = \<lparr>issuer = cs_token_issuer s, audience = cs_token_audience s,
     max_lifetime_seconds = cs_token_max_lifetime_seconds s, clock_skew_seconds = cs_token_clock_skew_seconds s\<rparr>"

definition check_jwks :: "'k platform \<Rightarrow> 'a access_settings_scheme \<Rightarrow> config_error + unit" where
  "check_jwks pf s = (case cs_token_verification_jwks_path s of
     None \<Rightarrow> Inr ()
   | Some path \<Rightarrow> (case from_file (pf_from_dict pf) (pf_loads pf) (pf_read pf path) (token_profile_of s) of
       Inr _ \<Rightarrow> Inr ()
     | Inl (TokenKeySetError text) \<Rightarrow> refuse_config text
     | Inl PyTypeError \<Rightarrow> Inl UncaughtTypeError
     | Inl _ \<Rightarrow> Inl UncaughtValueError))"

definition check_relations :: "settings \<Rightarrow> config_error + unit" where
  "check_relations s =
     (if cs_max_connections s < cs_max_connections_per_room s
      then refuse_config ''max_connections_per_room cannot exceed max_connections''
      else if cs_max_stored_messages s < cs_max_stored_messages_per_room s
      then refuse_config ''max_stored_messages_per_room cannot exceed max_stored_messages''
      else if (case cs_message_retention_days s of None \<Rightarrow> False | Some d \<Rightarrow> \<not> (1 \<le> d \<and> d \<le> 3650))
      then refuse_config ''message_retention_days must be between 1 and 3650''
      else Inr ())"

definition durations :: "settings \<Rightarrow> (string \<times> pyfloat \<times> float_bound \<times> float_bound) list" where
  "durations s = [
     (''websocket_auth_timeout_seconds'', cs_websocket_auth_timeout_seconds s, tenth, (60, ''60'')),
     (''websocket_send_timeout_seconds'', cs_websocket_send_timeout_seconds s, tenth, (60, ''60'')),
     (''typing_timeout_seconds'', cs_typing_timeout_seconds s, (1, ''1''), (30, ''30'')),
     (''webhook_timeout_seconds'', cs_webhook_timeout_seconds s, tenth, (30, ''30'')),
     (''postgres_pool_timeout_seconds'', cs_postgres_pool_timeout_seconds s, tenth, (60, ''60'')),
     (''postgres_operation_timeout_seconds'', cs_postgres_operation_timeout_seconds s, tenth, (300, ''300'')),
     (''postgres_relay_poll_seconds'', cs_postgres_relay_poll_seconds s, hundredth, (5, ''5'')),
     (''postgres_maintenance_interval_seconds'', cs_postgres_maintenance_interval_seconds s, tenth, (60, ''60''))]"

fun check_durations :: "(string \<times> pyfloat \<times> float_bound \<times> float_bound) list \<Rightarrow> config_error + unit" where
  "check_durations [] = Inr ()"
| "check_durations ((name, v, minimum, maximum) # rest) =
     (if \<not> float_within (fst minimum) (fst maximum) v
      then Inl (ConfigurationError (between_text (str name) (str (snd minimum)) (str (snd maximum))))
      else check_durations rest)"

definition origin_acceptable :: "config_url \<Rightarrow> pystr \<Rightarrow> bool" where
  "origin_acceptable pu origin \<longleftrightarrow> pu_scheme pu \<in> {str ''http'', str ''https''} \<and> pu_netloc pu \<noteq> [] \<and>
     pu_username pu = None \<and> pu_password pu = None \<and> pu_path pu \<in> {[], str ''/''} \<and> pu_params pu = [] \<and>
     pu_query pu = [] \<and> pu_fragment pu = [] \<and> \<not> (origin \<noteq> [] \<and> last origin = 47)"

fun check_origins :: "'k platform \<Rightarrow> pystr list \<Rightarrow> config_error + unit" where
  "check_origins pf [] = Inr ()"
| "check_origins pf (origin # rest) = (case pf_urlparse pf origin of
     None \<Rightarrow> Inl UncaughtValueError
   | Some pu \<Rightarrow> (if \<not> origin_acceptable pu origin
       then refuse_config ''allowed origins must be exact http(s) origins without credentials, paths, query strings, or trailing slashes''
       else check_origins pf rest))"

definition check_webhook_target :: "'k platform \<Rightarrow> pystr \<Rightarrow> config_error + unit" where
  "check_webhook_target pf url = (case pf_urlparse pf url of
     None \<Rightarrow> Inl UncaughtValueError
   | Some pu \<Rightarrow> (case (pu_hostname pu, pu_port pu) of
       (Inr hostname, Inr _) \<Rightarrow>
         (if \<not> url_acceptable (parsed_url.truncate pu) hostname
          then refuse_config ''webhook URL must be HTTPS without credentials, query, or fragments; HTTP is allowed only on loopback''
          else Inr ())
     | _ \<Rightarrow> refuse_config ''webhook URL contains an invalid host or port''))"

definition check_webhook :: "'k platform \<Rightarrow> settings \<Rightarrow> config_error + unit" where
  "check_webhook pf s = (case cs_webhook_url s of
     None \<Rightarrow> (if truthy (cs_webhook_signing_secret s) \<or> truthy (cs_webhook_previous_signing_secret s) \<or> cs_webhook_events s \<noteq> []
       then refuse_config ''webhook secrets and events require SAMSARIX_CHAT_WEBHOOK_URL'' else Inr ())
   | Some url \<Rightarrow> (case cs_webhook_signing_secret s of
       None \<Rightarrow> refuse_config ''SAMSARIX_CHAT_WEBHOOK_SIGNING_SECRET is required with a webhook URL''
     | Some secret \<Rightarrow>
         res_bind (check_webhook_target pf url) (\<lambda>_.
         if cs_webhook_events s = [] \<or> unknown_events (cs_webhook_events s) \<noteq> []
         then refuse_config ''webhook_events must contain at least one supported event type''
         else res_bind (decode_webhook_secret secret) (\<lambda>primary.
           case cs_webhook_previous_signing_secret s of
             None \<Rightarrow> Inr ()
           | Some old \<Rightarrow> res_bind (decode_webhook_secret old) (\<lambda>previous.
               if primary = previous then refuse_config ''current and previous webhook signing secrets must differ''
               else Inr ())))))"

definition post_init :: "'k platform \<Rightarrow> settings \<Rightarrow> config_error + unit" where
  "post_init pf s =
     res_bind (check_storage pf s) (\<lambda>_.
     res_bind (check_pool s) (\<lambda>_.
     res_bind (check_credentials s) (\<lambda>_.
     res_bind (check_claim_names s) (\<lambda>_.
     res_bind (check_ranges (ranges s)) (\<lambda>_.
     res_bind (check_jwks pf s) (\<lambda>_.
     res_bind (check_relations s) (\<lambda>_.
     res_bind (check_durations (durations s)) (\<lambda>_.
     res_bind (check_origins pf (cs_allowed_origins s)) (\<lambda>_.
     check_webhook pf s)))))))))"

definition Settings :: "'k platform \<Rightarrow> settings \<Rightarrow> config_error + settings" where
  "Settings pf s = res_map (\<lambda>_. s) (post_init pf s)"

definition with_database_path :: "'k platform \<Rightarrow> pystr \<Rightarrow> settings \<Rightarrow> config_error + settings" where
  "with_database_path pf path s =
     (if cs_storage_backend s \<noteq> str ''sqlite'' then refuse_config ''--database cannot be combined with PostgreSQL storage''
      else Settings pf (s\<lparr>cs_database_path := path\<rparr>))"

end
