(* ===== verification/Config_Env.thy ===== *)
theory Config_Env
  imports Config_Checks
begin

section \<open>Configuration: from the environment (config.py)\<close>

text \<open>
  The defaults of the dataclass and \<open>Settings.from_env\<close>, whose keyword arguments are read one after the
  other in four groups.
\<close>

definition default_settings :: settings where
  "default_settings = \<lparr>cs_database_path = str ''data/samsarix-chat.db'', cs_storage_backend = str ''sqlite'',
     cs_postgres_url = None, cs_postgres_instance_id = None, cs_postgres_min_pool_size = 1, cs_postgres_max_pool_size = 10,
     cs_postgres_pool_timeout_seconds = PyFinite 10 0 (str ''10.0''),
     cs_postgres_operation_timeout_seconds = PyFinite 10 0 (str ''10.0''), cs_postgres_lease_seconds = 30,
     cs_postgres_relay_poll_seconds = PyFinite 1 (-2) (str ''0.25''), cs_postgres_relay_max_pending_events = 10000,
     cs_postgres_relay_max_event_age_seconds = 30,
     cs_postgres_maintenance_interval_seconds = PyFinite 1 0 (str ''1.0''), cs_postgres_max_rate_buckets = 100000,
     cs_postgres_max_realtime_events = 100000, cs_postgres_realtime_event_max_age_seconds = 604800,
     cs_api_key = None, cs_token_signing_secret = None, cs_token_verification_jwks_path = None,
     cs_token_issuer = str ''samsarix-chat-engine'', cs_token_audience = str ''samsarix-chat'',
     cs_token_max_lifetime_seconds = 86400, cs_token_clock_skew_seconds = 30, cs_allowed_origins = [],
     cs_max_message_chars = 4000, cs_max_connections = 200, cs_max_connections_per_room = 100,
     cs_messages_per_minute = 60, cs_searches_per_minute = 30, cs_read_state_queries_per_minute = 60,
     cs_max_rooms = 1000, cs_max_stored_messages = 100000, cs_max_stored_messages_per_room = 10000,
     cs_max_read_states_per_room = 10000, cs_message_retention_days = None, cs_max_audit_events = 100000,
     cs_typing_events_per_minute = 60, cs_typing_timeout_seconds = PyFinite 8 0 (str ''8.0''),
     cs_websocket_auth_timeout_seconds = PyFinite 5 0 (str ''5.0''),
     cs_websocket_send_timeout_seconds = PyFinite 2 0 (str ''2.0''), cs_websocket_max_bytes = 16384,
     cs_webhook_url = None, cs_webhook_signing_secret = None, cs_webhook_previous_signing_secret = None,
     cs_webhook_events = [], cs_webhook_timeout_seconds = PyFinite 10 0 (str ''10.0''), cs_webhook_max_attempts = 9,
     cs_max_webhook_deliveries = 100000, cs_webhook_allow_private_targets = False\<rparr>"

definition postgres_operational_settings :: "string list" where
  "postgres_operational_settings = [''POSTGRES_INSTANCE_ID'', ''POSTGRES_MIN_POOL_SIZE'', ''POSTGRES_MAX_POOL_SIZE'',
     ''POSTGRES_POOL_TIMEOUT'', ''POSTGRES_LEASE_SECONDS'', ''POSTGRES_RELAY_POLL'', ''POSTGRES_RELAY_MAX_PENDING_EVENTS'',
     ''POSTGRES_RELAY_MAX_EVENT_AGE'', ''POSTGRES_MAINTENANCE_INTERVAL'', ''POSTGRES_MAX_RATE_BUCKETS'',
     ''POSTGRES_MAX_REALTIME_EVENTS'', ''POSTGRES_REALTIME_EVENT_MAX_AGE'']"

definition named_or :: "pystr \<Rightarrow> pystr option \<Rightarrow> pystr" where
  "named_or otherwise v = (case or_none v of None \<Rightarrow> otherwise | Some x \<Rightarrow> x)"

definition read_postgres :: "'k platform \<Rightarrow> environ \<Rightarrow> settings \<Rightarrow> config_error + settings" where
  "read_postgres pf environ s =
     res_bind (read_int pf environ ''POSTGRES_MIN_POOL_SIZE'' 1 0 100) (\<lambda>min_pool.
     res_bind (read_int pf environ ''POSTGRES_MAX_POOL_SIZE'' 10 1 100) (\<lambda>max_pool.
     res_bind (read_float pf environ ''POSTGRES_POOL_TIMEOUT'' (cs_postgres_pool_timeout_seconds s) tenth (60, ''60'')) (\<lambda>pool_timeout.
     res_bind (read_float pf environ ''POSTGRES_OPERATION_TIMEOUT'' (cs_postgres_operation_timeout_seconds s) tenth (300, ''300'')) (\<lambda>operation_timeout.
     res_bind (read_int pf environ ''POSTGRES_LEASE_SECONDS'' 30 3 300) (\<lambda>lease.
     res_bind (read_float pf environ ''POSTGRES_RELAY_POLL'' (cs_postgres_relay_poll_seconds s) hundredth (5, ''5'')) (\<lambda>poll.
     res_bind (read_int pf environ ''POSTGRES_RELAY_MAX_PENDING_EVENTS'' 10000 1 100000) (\<lambda>max_pending.
     res_bind (read_int pf environ ''POSTGRES_RELAY_MAX_EVENT_AGE'' 30 1 3600) (\<lambda>max_age.
     res_bind (read_float pf environ ''POSTGRES_MAINTENANCE_INTERVAL'' (cs_postgres_maintenance_interval_seconds s) tenth (60, ''60'')) (\<lambda>maintenance.
     res_bind (read_int pf environ ''POSTGRES_MAX_RATE_BUCKETS'' 100000 1 10000000) (\<lambda>buckets.
     res_bind (read_int pf environ ''POSTGRES_MAX_REALTIME_EVENTS'' 100000 1 10000000) (\<lambda>events.
     res_bind (read_int pf environ ''POSTGRES_REALTIME_EVENT_MAX_AGE'' 604800 60 31536000) (\<lambda>event_age.
     Inr (s\<lparr>cs_postgres_instance_id := or_none (read_env environ ''POSTGRES_INSTANCE_ID''),
       cs_postgres_min_pool_size := min_pool, cs_postgres_max_pool_size := max_pool,
       cs_postgres_pool_timeout_seconds := pool_timeout, cs_postgres_operation_timeout_seconds := operation_timeout,
       cs_postgres_lease_seconds := lease, cs_postgres_relay_poll_seconds := poll,
       cs_postgres_relay_max_pending_events := max_pending, cs_postgres_relay_max_event_age_seconds := max_age,
       cs_postgres_maintenance_interval_seconds := maintenance, cs_postgres_max_rate_buckets := buckets,
       cs_postgres_max_realtime_events := events, cs_postgres_realtime_event_max_age_seconds := event_age\<rparr>)))))))))))))"

definition read_access :: "'k platform \<Rightarrow> environ \<Rightarrow> settings \<Rightarrow> config_error + settings" where
  "read_access pf environ s =
     res_bind (read_int pf environ ''TOKEN_MAX_LIFETIME'' 86400 60 604800) (\<lambda>lifetime.
     res_bind (read_int pf environ ''TOKEN_CLOCK_SKEW'' 30 0 300) (\<lambda>skew.
     Inr (s\<lparr>cs_token_verification_jwks_path := or_none (read_env environ ''TOKEN_VERIFICATION_JWKS_FILE''),
       cs_token_issuer := named_or (str ''samsarix-chat-engine'') (read_env environ ''TOKEN_ISSUER''),
       cs_token_audience := named_or (str ''samsarix-chat'') (read_env environ ''TOKEN_AUDIENCE''),
       cs_token_max_lifetime_seconds := lifetime, cs_token_clock_skew_seconds := skew,
       cs_allowed_origins := read_origins environ\<rparr>)))"

definition read_limits :: "'k platform \<Rightarrow> environ \<Rightarrow> settings \<Rightarrow> config_error + settings" where
  "read_limits pf environ s =
     res_bind (read_int pf environ ''MAX_MESSAGE_CHARS'' 4000 1 100000) (\<lambda>chars.
     res_bind (read_int pf environ ''MAX_CONNECTIONS'' 200 1 100000) (\<lambda>connections.
     res_bind (read_int pf environ ''MAX_CONNECTIONS_PER_ROOM'' 100 1 100000) (\<lambda>per_room.
     res_bind (read_int pf environ ''MESSAGES_PER_MINUTE'' 60 1 100000) (\<lambda>messages.
     res_bind (read_int pf environ ''SEARCHES_PER_MINUTE'' 30 1 100000) (\<lambda>searches.
     res_bind (read_int pf environ ''READ_STATE_QUERIES_PER_MINUTE'' 60 1 100000) (\<lambda>queries.
     res_bind (read_int pf environ ''MAX_ROOMS'' 1000 1 1000000) (\<lambda>max_rooms.
     res_bind (read_int pf environ ''MAX_STORED_MESSAGES'' 100000 1 10000000) (\<lambda>stored.
     res_bind (read_int pf environ ''MAX_STORED_MESSAGES_PER_ROOM'' 10000 1 1000000) (\<lambda>stored_per_room.
     res_bind (read_int pf environ ''MAX_READ_STATES_PER_ROOM'' 10000 1 1000000) (\<lambda>read_states.
     res_bind (read_optional_int pf environ ''MESSAGE_RETENTION_DAYS'' 1 3650) (\<lambda>retention.
     res_bind (read_int pf environ ''MAX_AUDIT_EVENTS'' 100000 100 10000000) (\<lambda>audits.
     res_bind (read_int pf environ ''TYPING_EVENTS_PER_MINUTE'' 60 1 100000) (\<lambda>typings.
     res_bind (read_float pf environ ''TYPING_TIMEOUT'' (cs_typing_timeout_seconds s) (1, ''1'') (30, ''30'')) (\<lambda>typing_timeout.
     res_bind (read_float pf environ ''WS_AUTH_TIMEOUT'' (cs_websocket_auth_timeout_seconds s) tenth (60, ''60'')) (\<lambda>auth_timeout.
     res_bind (read_float pf environ ''WS_SEND_TIMEOUT'' (cs_websocket_send_timeout_seconds s) tenth (60, ''60'')) (\<lambda>send_timeout.
     res_bind (read_int pf environ ''WS_MAX_BYTES'' 16384 256 16777216) (\<lambda>ws_bytes.
     Inr (s\<lparr>cs_max_message_chars := chars, cs_max_connections := connections, cs_max_connections_per_room := per_room,
       cs_messages_per_minute := messages, cs_searches_per_minute := searches, cs_read_state_queries_per_minute := queries,
       cs_max_rooms := max_rooms, cs_max_stored_messages := stored, cs_max_stored_messages_per_room := stored_per_room,
       cs_max_read_states_per_room := read_states, cs_message_retention_days := retention, cs_max_audit_events := audits,
       cs_typing_events_per_minute := typings, cs_typing_timeout_seconds := typing_timeout,
       cs_websocket_auth_timeout_seconds := auth_timeout, cs_websocket_send_timeout_seconds := send_timeout,
       cs_websocket_max_bytes := ws_bytes\<rparr>))))))))))))))))))"

definition read_webhooks :: "'k platform \<Rightarrow> environ \<Rightarrow> pystr option \<Rightarrow> settings \<Rightarrow> config_error + settings" where
  "read_webhooks pf environ webhook_url s =
     res_bind (read_secret_env pf environ ''WEBHOOK_SIGNING_SECRET'') (\<lambda>secret.
     res_bind (read_secret_env pf environ ''WEBHOOK_PREVIOUS_SIGNING_SECRET'') (\<lambda>previous.
     res_bind (read_webhook_events environ webhook_url) (\<lambda>events.
     res_bind (read_float pf environ ''WEBHOOK_TIMEOUT'' (cs_webhook_timeout_seconds s) tenth (30, ''30'')) (\<lambda>timeout.
     res_bind (read_int pf environ ''WEBHOOK_MAX_ATTEMPTS'' 9 1 20) (\<lambda>attempts.
     res_bind (read_int pf environ ''MAX_WEBHOOK_DELIVERIES'' 100000 100 10000000) (\<lambda>deliveries.
     res_bind (read_bool environ ''WEBHOOK_ALLOW_PRIVATE_TARGETS'' False) (\<lambda>private.
     Inr (s\<lparr>cs_webhook_url := webhook_url, cs_webhook_signing_secret := or_none secret,
       cs_webhook_previous_signing_secret := or_none previous, cs_webhook_events := events,
       cs_webhook_timeout_seconds := timeout, cs_webhook_max_attempts := attempts,
       cs_max_webhook_deliveries := deliveries, cs_webhook_allow_private_targets := private\<rparr>))))))))"

definition from_env :: "'k platform \<Rightarrow> environ \<Rightarrow> config_error + settings" where
  "from_env pf environ =
     res_bind (read_secret_env pf environ ''API_KEY'') (\<lambda>api_key.
     res_bind (read_secret_env pf environ ''TOKEN_SIGNING_SECRET'') (\<lambda>signing_secret.
     let webhook_url = or_none (read_env environ ''WEBHOOK_URL''); configured_database = read_env environ ''DATABASE'';
         storage = named_or (str ''sqlite'') (read_env environ ''STORAGE'') in
     res_bind (read_secret_env pf environ ''POSTGRES_URL'') (\<lambda>url.
     if storage \<noteq> str ''postgres'' \<and>
        (or_none url \<noteq> None \<or> list_ex (\<lambda>name. read_env environ name \<noteq> None) postgres_operational_settings)
     then refuse_config ''PostgreSQL settings require SAMSARIX_CHAT_STORAGE=postgres''
     else if storage = str ''postgres'' \<and> configured_database \<noteq> None
     then refuse_config ''SAMSARIX_CHAT_DATABASE cannot be combined with PostgreSQL storage''
     else
       res_bind (read_postgres pf environ (default_settings\<lparr>
           cs_database_path := named_or (default_database_path pf) configured_database,
           cs_storage_backend := storage, cs_postgres_url := or_none url, cs_api_key := or_none api_key,
           cs_token_signing_secret := or_none signing_secret\<rparr>)) (\<lambda>s1.
       res_bind (read_access pf environ s1) (\<lambda>s2.
       res_bind (read_limits pf environ s2) (\<lambda>s3.
       res_bind (read_webhooks pf environ webhook_url s3) (Settings pf)))))))"

end
