(* ===== verification/Service.thy ===== *)
theory Service
  imports Config_Env Rate_Limits App_Core Pg_Rate_Limits Pg_Runtime Pg_Store
begin

section \<open>Putting the service together (app.py, postgres_runtime.py, cli.py)\<close>

text \<open>
  What \<open>create_app\<close> builds from the settings, with the constructors it calls, and the commands of
  \<open>cli.py\<close>. The arguments that \<open>argparse\<close> returns are the datatype \<open>cli_command\<close>; running the server and
  copying a database (with the replace flag and whether the lifecycle lock is held) are results. A pool option of the foundation is checked and not kept.
\<close>

datatype service_error =
    ConfigRaised config_error | PostgresRaised pg_error | PgStoreRaised pg_store_error | LimiterRaised rate_error
  | TokenRaised auth_error | ManagerRaised conn_error | BudgetRaised

abbreviation raising :: "('e \<Rightarrow> service_error) \<Rightarrow> 'e + 'a \<Rightarrow> service_error + 'a" where
  "raising f r \<equiv> map_sum f (\<lambda>v. v) r"

subsection \<open>The PostgreSQL runtime\<close>

definition float_positive :: "pyfloat \<Rightarrow> bool" where
  "float_positive x = (case x of PyFinite m e _ \<Rightarrow> 0 < float_rat m e | _ \<Rightarrow> False)"

definition PostgresFoundation :: "(pystr \<Rightarrow> bool) \<Rightarrow> pystr \<Rightarrow> int \<Rightarrow> int \<Rightarrow> pyfloat \<Rightarrow> pyfloat \<Rightarrow> pg_error + unit" where
  "PostgresFoundation conninfo_ok conninfo min_pool max_pool pool_timeout operation_timeout =
     (if py_strip conninfo = [] then Inl (PgValueError ''PostgreSQL connection information is required'')
      else if min_pool < 0 \<or> max_pool < 1 \<or> max_pool < min_pool then Inl (PgValueError ''invalid PostgreSQL pool bounds'')
      else if \<not> float_positive pool_timeout then Inl (PgValueError ''PostgreSQL pool timeout must be positive'')
      else if \<not> float_within (fst tenth) 300 operation_timeout
      then Inl (PgValueError ''PostgreSQL operation timeout must be between 0.1 and 300 seconds'')
      else if \<not> conninfo_ok conninfo then Inl (PgValueError ''invalid PostgreSQL connection information'')
      else Inr ())"

text \<open>A \<open>timedelta\<close> of a float, in microseconds.\<close>

definition micros :: "pyfloat \<Rightarrow> int" where
  "micros x = (case x of PyFinite m e _ \<Rightarrow> round (float_rat m e * 1000000) | _ \<Rightarrow> 0)"

definition store_config_of :: "settings \<Rightarrow> store_config" where
  "store_config_of s = \<lparr>store_config.max_rooms = nat (cs_max_rooms s), max_stored_messages = nat (cs_max_stored_messages s),
     max_stored_messages_per_room = nat (cs_max_stored_messages_per_room s),
     max_read_states_per_room = nat (cs_max_read_states_per_room s),
     message_retention_days = map_option nat (cs_message_retention_days s), max_audit_events = nat (cs_max_audit_events s),
     webhook_events = filter (\<lambda>t. str t \<in> set (cs_webhook_events s)) WEBHOOK_EVENT_TYPES,
     max_webhook_deliveries = nat (cs_max_webhook_deliveries s)\<rparr>"

record runtime_parts =
  rp_store :: pg_store_options
  rp_connections :: registry_config
  rp_message_limiter :: pg_limiter
  rp_search_limiter :: pg_limiter
  rp_read_state_limiter :: pg_limiter
  rp_typing_limiter :: pg_limiter
  rp_typing :: typing_config
  rp_relay :: relay_config

definition shared_limiter :: "settings \<Rightarrow> string \<Rightarrow> int \<Rightarrow> pg_limiter" where
  "shared_limiter s scope limit = \<lparr>pl_scope = scope, pl_limit = nat limit, pl_window_seconds = 60,
     pl_max_buckets = nat (cs_postgres_max_rate_buckets s)\<rparr>"

definition PostgresApplicationRuntime :: "'k platform \<Rightarrow> pystr \<Rightarrow> pystr \<Rightarrow> settings \<Rightarrow> service_error + runtime_parts" where
  "PostgresApplicationRuntime pf conninfo instance_id s =
     (if \<not> float_within (fst tenth) 60 (cs_postgres_maintenance_interval_seconds s)
      then Inl (PostgresRaised (PgValueError ''PostgreSQL maintenance interval must be between 0.1 and 60 seconds''))
      else
        res_bind (raising PgStoreRaised (PostgresChatStore \<lparr>po_config = store_config_of s, po_worker_id = instance_id,
          po_webhook_lease_seconds = 60\<rparr>)) (\<lambda>store.
        res_bind (raising PostgresRaised (PostgresFoundation (pf_conninfo pf) conninfo (cs_postgres_min_pool_size s)
          (cs_postgres_max_pool_size s) (cs_postgres_pool_timeout_seconds s) (cs_postgres_operation_timeout_seconds s))) (\<lambda>_.
        res_bind (raising PostgresRaised (PostgresConnectionRegistry \<lparr>gc_max_connections = cs_max_connections s,
          gc_max_connections_per_room = cs_max_connections_per_room s, gc_lease_seconds = cs_postgres_lease_seconds s\<rparr>)) (\<lambda>connections.
        res_bind (raising LimiterRaised (PostgresRateLimiter (shared_limiter s ''message'' (cs_messages_per_minute s)))) (\<lambda>messages.
        res_bind (raising LimiterRaised (PostgresRateLimiter (shared_limiter s ''search'' (cs_searches_per_minute s)))) (\<lambda>searches.
        res_bind (raising LimiterRaised (PostgresRateLimiter (shared_limiter s ''search'' (cs_read_state_queries_per_minute s)))) (\<lambda>reads.
        res_bind (raising LimiterRaised (PostgresRateLimiter (shared_limiter s ''typing'' (cs_typing_events_per_minute s)))) (\<lambda>typings.
        res_bind (raising PostgresRaised (PostgresTypingRegistry \<lparr>tc_timeout = cs_typing_timeout_seconds s,
          tc_timeout_micros = micros (cs_typing_timeout_seconds s)\<rparr>)) (\<lambda>typing.
        res_bind (raising PostgresRaised (PostgresRealtimeRelay (micros (cs_postgres_relay_poll_seconds s))
          \<lparr>rc_instance_id = instance_id, rc_lease_seconds = cs_postgres_lease_seconds s, rc_batch_size = 100,
           rc_max_pending_events = cs_postgres_relay_max_pending_events s,
           rc_max_event_age_seconds = cs_postgres_relay_max_event_age_seconds s\<rparr>)) (\<lambda>relay.
        Inr \<lparr>rp_store = store, rp_connections = connections, rp_message_limiter = messages, rp_search_limiter = searches,
          rp_read_state_limiter = reads, rp_typing_limiter = typings, rp_typing = typing, rp_relay = relay\<rparr>))))))))))"

subsection \<open>create_app\<close>

datatype 'k verifier = NoTokens | SharedSecret token_service | PublicKeys "'k jwks_verifier"

datatype storage =
    LocalStorage pystr store_config limiter limiter limiter limiter
  | SharedStorage runtime_parts

record dispatcher_options =
  do_url :: pystr
  do_secrets :: "pybytes list"
  do_timeout :: pyfloat
  do_max_attempts :: int
  do_allow_private_targets :: bool

record 'k service =
  sv_manager :: manager
  sv_storage :: storage
  sv_tokens :: "'k verifier"
  sv_dispatcher :: "dispatcher_options option"
  sv_max_body_bytes :: int
  sv_cors_origins :: "pystr list"

definition MessageRateLimiter :: "int \<Rightarrow> limiter" where
  "MessageRateLimiter limit = \<lparr>rl_limit = nat limit, rl_window = seconds_delta 60, rl_max_keys = 10000\<rparr>"

definition connection_limits :: "settings \<Rightarrow> limits" where
  "connection_limits s = \<lparr>limits.max_connections = nat (cs_max_connections s), max_per_room = nat (cs_max_connections_per_room s),
     max_pending_events = 64, max_pending_bytes = 262144, max_total_pending_bytes = 8388608\<rparr>"

definition build_storage :: "'k platform \<Rightarrow> settings \<Rightarrow> service_error + storage" where
  "build_storage pf s =
     (if cs_storage_backend s = str ''postgres''
      then (case (cs_postgres_url s, cs_postgres_instance_id s) of
        (Some url, Some instance_id) \<Rightarrow> res_map SharedStorage (PostgresApplicationRuntime pf url instance_id s)
      | _ \<Rightarrow> raising ConfigRaised (refuse_config ''PostgreSQL storage configuration is incomplete''))
      else Inr (LocalStorage (cs_database_path s) (store_config_of s) (MessageRateLimiter (cs_messages_per_minute s))
        (MessageRateLimiter (cs_searches_per_minute s)) (MessageRateLimiter (cs_read_state_queries_per_minute s))
        (MessageRateLimiter (cs_typing_events_per_minute s))))"

definition build_tokens :: "'k platform \<Rightarrow> settings \<Rightarrow> service_error + 'k verifier" where
  "build_tokens pf s =
     res_bind (case cs_token_signing_secret s of
         None \<Rightarrow> Inr NoTokens
       | Some secret \<Rightarrow> res_map SharedSecret (raising TokenRaised (AccessTokenService secret (token_profile_of s)))) (\<lambda>tokens.
     case cs_token_verification_jwks_path s of
       None \<Rightarrow> Inr tokens
     | Some path \<Rightarrow> res_map PublicKeys (raising TokenRaised
         (from_file (pf_from_dict pf) (pf_loads pf) (pf_read pf path) (token_profile_of s))))"

definition WebhookDispatcher :: "dispatcher_options \<Rightarrow> service_error + dispatcher_options" where
  "WebhookDispatcher o' = (if \<not> (float_positive (do_timeout o') \<and> float_within 0 30 (do_timeout o')) then Inl BudgetRaised else Inr o')"

definition build_dispatcher :: "settings \<Rightarrow> service_error + dispatcher_options option" where
  "build_dispatcher s = (case (cs_webhook_url s, cs_webhook_signing_secret s) of
     (Some url, Some secret) \<Rightarrow>
       res_bind (raising ConfigRaised (decode_webhook_secret secret)) (\<lambda>primary.
       res_bind (case cs_webhook_previous_signing_secret s of
           None \<Rightarrow> Inr [primary]
         | Some old \<Rightarrow> res_map (\<lambda>previous. [primary, previous]) (raising ConfigRaised (decode_webhook_secret old))) (\<lambda>secrets.
       res_map Some (WebhookDispatcher \<lparr>do_url = url, do_secrets = secrets, do_timeout = cs_webhook_timeout_seconds s,
         do_max_attempts = cs_webhook_max_attempts s, do_allow_private_targets = cs_webhook_allow_private_targets s\<rparr>)))
   | _ \<Rightarrow> Inr None)"

definition create_app :: "'k platform \<Rightarrow> settings \<Rightarrow> service_error + 'k service" where
  "create_app pf s =
     res_bind (raising ManagerRaised (ConnectionManager (connection_limits s))) (\<lambda>manager.
     res_bind (build_storage pf s) (\<lambda>storage.
     res_bind (build_tokens pf s) (\<lambda>tokens.
     res_bind (build_dispatcher s) (\<lambda>dispatcher.
     Inr \<lparr>sv_manager = manager, sv_storage = storage, sv_tokens = tokens, sv_dispatcher = dispatcher,
       sv_max_body_bytes = max 24576 (cs_max_message_chars s * 12 + 20480), sv_cors_origins = cs_allowed_origins s\<rparr>))))"

subsection \<open>The command line\<close>

record serve_args =
  sa_host :: pystr
  sa_port :: int
  sa_allow_insecure_public :: bool

record token_args =
  ta_subject :: pystr
  ta_rooms :: "pystr list"
  ta_permissions :: "pystr list"
  ta_expires_in :: int

datatype cli_command =
    Serve serve_args "pystr option"
  | IssueToken token_args
  | Backup "pystr option" pystr bool
  | Restore "pystr option" pystr bool

datatype 'k cli_result =
    UsageError pystr
  | Uncaught service_error
  | Printed pystr
  | CopiedDatabase pystr pystr bool bool
  | RunServer "'k service" pystr int int

definition is_loopback_host :: "'k platform \<Rightarrow> pystr \<Rightarrow> bool" where
  "is_loopback_host pf host = (if ascii_lower host = str ''localhost'' then True
     else (case pf_is_loopback pf host of None \<Rightarrow> False | Some b \<Rightarrow> b))"

fun chosen_database :: "cli_command \<Rightarrow> pystr option" where
  "chosen_database (Serve a database) = database"
| "chosen_database (IssueToken a) = None"
| "chosen_database (Backup database output replace) = database"
| "chosen_database (Restore database input replace) = database"

definition cli_settings :: "'k platform \<Rightarrow> environ \<Rightarrow> cli_command \<Rightarrow> config_error + settings" where
  "cli_settings pf environ command = res_bind (from_env pf environ) (\<lambda>s. case chosen_database command of
     None \<Rightarrow> Inr s | Some path \<Rightarrow> with_database_path pf path s)"

definition issue_command ::
  "pystr jwt \<Rightarrow> int \<Rightarrow> pystr \<Rightarrow> settings \<Rightarrow> token_args \<Rightarrow> 'k cli_result" where
  "issue_command J now uuid s a = (case cs_token_signing_secret s of
     None \<Rightarrow> UsageError (str ''SAMSARIX_CHAT_TOKEN_SIGNING_SECRET is required to issue tokens'')
   | Some secret \<Rightarrow> (case AccessTokenService secret (token_profile_of s) of
       Inl e \<Rightarrow> Uncaught (TokenRaised e)
     | Inr svc \<Rightarrow> (case issue J svc (ta_subject a) (ta_rooms a)
           (if ta_permissions a = [] then [str ''room:read'', str ''room:write''] else ta_permissions a) (ta_expires_in a) now uuid of
         Inr token \<Rightarrow> Printed token
       | Inl (TokenValueError text) \<Rightarrow> UsageError (str text)
       | Inl e \<Rightarrow> Uncaught (TokenRaised e))))"

definition authentication_configured :: "settings \<Rightarrow> bool" where
  "authentication_configured s \<longleftrightarrow> cs_api_key s \<noteq> None \<or> cs_token_signing_secret s \<noteq> None \<or> cs_token_verification_jwks_path s \<noteq> None"

definition serve_command :: "'k platform \<Rightarrow> settings \<Rightarrow> serve_args \<Rightarrow> 'k cli_result" where
  "serve_command pf s a =
     (if \<not> (1 \<le> sa_port a \<and> sa_port a \<le> 65535) then UsageError (str ''--port must be between 1 and 65535'')
      else if \<not> is_loopback_host pf (sa_host a) \<and> \<not> authentication_configured s \<and> \<not> sa_allow_insecure_public a
      then UsageError (str ''refusing an unauthenticated public bind; configure an API key or token verification, or explicitly pass --allow-insecure-public'')
      else (case create_app pf s of
        Inl e \<Rightarrow> Uncaught e | Inr service \<Rightarrow> RunServer service (sa_host a) (sa_port a) (cs_websocket_max_bytes s)))"

definition cli_main :: "'k platform \<Rightarrow> pystr jwt \<Rightarrow> int \<Rightarrow> pystr \<Rightarrow> environ \<Rightarrow> cli_command \<Rightarrow> 'k cli_result" where
  "cli_main pf J now uuid environ command = (case cli_settings pf environ command of
     Inl (ConfigurationError text) \<Rightarrow> UsageError text
   | Inl e \<Rightarrow> Uncaught (ConfigRaised e)
   | Inr s \<Rightarrow> (case command of
       IssueToken a \<Rightarrow> issue_command J now uuid s a
     | Serve a _ \<Rightarrow> serve_command pf s a
     | Backup _ output replace \<Rightarrow>
         (if cs_storage_backend s \<noteq> str ''sqlite''
          then UsageError (str ''SQLite backup and restore commands are unavailable with PostgreSQL storage'')
          else CopiedDatabase (cs_database_path s) output replace False)
     | Restore _ input replace \<Rightarrow>
         (if cs_storage_backend s \<noteq> str ''sqlite''
          then UsageError (str ''SQLite backup and restore commands are unavailable with PostgreSQL storage'')
          else CopiedDatabase input (cs_database_path s) replace True)))"

end
