(* ===== verification/Config_Laws.thy ===== *)
theory Config_Laws
  imports Service
begin

section \<open>What accepted settings guarantee\<close>

text \<open>
  The bounds of an accepted \<open>Settings\<close> value, that each constructor \<open>create_app\<close> calls accepts what it is
  given, and which names of the environment \<open>from_env\<close> depends on.
\<close>

subsection \<open>Accepted settings\<close>

lemma refuse_simps [simp]: "refuse_config text \<noteq> Inr v" "refuse_variable variable text \<noteq> Inr v"
  by (simp_all add: refuse_config_def refuse_variable_def)

lemma Settings_Inr:
  "Settings pf s = Inr s' \<longleftrightarrow> s' = s \<and> check_storage pf s = Inr () \<and> check_pool s = Inr () \<and> check_credentials s = Inr () \<and>
     check_claim_names s = Inr () \<and> check_ranges (ranges s) = Inr () \<and> check_jwks pf s = Inr () \<and> check_relations s = Inr () \<and>
     check_durations (durations s) = Inr () \<and> check_origins pf (cs_allowed_origins s) = Inr () \<and> check_webhook pf s = Inr ()"
  by (auto simp: Settings_def post_init_def res_bind_eq_Inr res_map_eq_Inr)

lemma check_ranges_Inr: "check_ranges rs = Inr () \<longleftrightarrow> (\<forall>(name, v, lo, hi)\<in>set rs. lo \<le> v \<and> v \<le> hi)"
  by (induction rs rule: check_ranges.induct) auto

lemma check_durations_Inr:
  "check_durations ds = Inr () \<longleftrightarrow> (\<forall>(name, v, lo, hi)\<in>set ds. float_within (fst lo) (fst hi) v)"
  by (induction ds rule: check_durations.induct) auto

lemma Settings_same: "Settings pf s = Inr s' \<Longrightarrow> s' = s \<and> Settings pf s' = Inr s'"
  by (auto simp: Settings_def res_map_eq_Inr)

lemma from_env_accepted: "from_env pf environ = Inr s \<Longrightarrow> Settings pf s = Inr s"
  by (auto simp: from_env_def Let_def res_bind_eq_Inr dest: Settings_same split: if_splits)

lemma cli_settings_accepted: "cli_settings pf environ command = Inr s \<Longrightarrow> Settings pf s = Inr s"
  by (auto simp: cli_settings_def res_bind_eq_Inr with_database_path_def dest: from_env_accepted Settings_same
      split: option.splits if_splits)

lemma accepted_checks:
  "Settings pf s = Inr s' \<Longrightarrow>
    (\<forall>(name, v, lo, hi)\<in>set (ranges s). lo \<le> v \<and> v \<le> hi) \<and> check_relations s = Inr () \<and> check_pool s = Inr ()"
  unfolding Settings_Inr check_ranges_Inr by blast

lemma accepted_numbers:
  assumes "Settings pf s = Inr s'"
  shows "1 \<le> cs_max_connections s" "1 \<le> cs_max_connections_per_room s" "cs_max_connections_per_room s \<le> cs_max_connections s"
    "1 \<le> cs_messages_per_minute s \<and> cs_messages_per_minute s \<le> 100000"
    "1 \<le> cs_searches_per_minute s \<and> cs_searches_per_minute s \<le> 100000"
    "1 \<le> cs_read_state_queries_per_minute s \<and> cs_read_state_queries_per_minute s \<le> 100000"
    "1 \<le> cs_typing_events_per_minute s \<and> cs_typing_events_per_minute s \<le> 100000"
    "1 \<le> cs_max_rooms s" "1 \<le> cs_max_stored_messages_per_room s"
    "cs_max_stored_messages_per_room s \<le> cs_max_stored_messages s" "1 \<le> cs_max_stored_messages s"
    "1 \<le> cs_max_read_states_per_room s" "100 \<le> cs_max_audit_events s" "100 \<le> cs_max_webhook_deliveries s"
    "60 \<le> cs_token_max_lifetime_seconds s \<and> cs_token_max_lifetime_seconds s \<le> 604800"
    "0 \<le> cs_token_clock_skew_seconds s \<and> cs_token_clock_skew_seconds s \<le> 300"
    "3 \<le> cs_postgres_lease_seconds s \<and> cs_postgres_lease_seconds s \<le> 300"
    "0 \<le> cs_postgres_min_pool_size s" "cs_postgres_min_pool_size s \<le> cs_postgres_max_pool_size s" "1 \<le> cs_postgres_max_pool_size s"
    "1 \<le> cs_postgres_max_rate_buckets s \<and> cs_postgres_max_rate_buckets s \<le> 10000000"
    "1 \<le> cs_postgres_relay_max_pending_events s \<and> cs_postgres_relay_max_pending_events s \<le> 100000"
    "1 \<le> cs_postgres_relay_max_event_age_seconds s \<and> cs_postgres_relay_max_event_age_seconds s \<le> 3600"
    "cs_message_retention_days s \<noteq> None \<longrightarrow> 1 \<le> the (cs_message_retention_days s)"
  using accepted_checks [OF assms]
  by (simp_all add: ranges_def check_relations_def check_pool_def split: if_splits option.splits)

lemma accepted_durations:
  assumes "Settings pf s = Inr s'"
  shows "float_within 1 30 (cs_typing_timeout_seconds s)" "float_within (fst tenth) 30 (cs_webhook_timeout_seconds s)"
    "float_within (fst tenth) 60 (cs_postgres_pool_timeout_seconds s)"
    "float_within (fst tenth) 300 (cs_postgres_operation_timeout_seconds s)"
    "float_within (fst hundredth) 5 (cs_postgres_relay_poll_seconds s)"
    "float_within (fst tenth) 60 (cs_postgres_maintenance_interval_seconds s)"
  using assms by (auto simp: Settings_Inr durations_def split: if_splits)

lemma accepted_profile: "Settings pf s = Inr s' \<Longrightarrow> validate_token_profile (token_profile_of s) = Inr ()"
  using accepted_numbers(15,16) [of pf s s']
  by (auto simp: validate_token_profile_def token_profile_of_def Settings_Inr check_claim_names_def split: if_splits)

subsection \<open>Floats\<close>

lemma float_positive_within: "float_within lo hi x \<Longrightarrow> 0 < lo \<Longrightarrow> float_positive x"
  by (auto simp: float_within_def float_positive_def split: pyfloat.splits)

lemma float_within_weaken: "float_within lo hi x \<Longrightarrow> lo' \<le> lo \<Longrightarrow> hi \<le> hi' \<Longrightarrow> float_within lo' hi' x"
  by (auto simp: float_within_def split: pyfloat.splits)

lemma micros_within:
  assumes "float_within lo hi x" and "of_int a \<le> lo * 1000000" and "hi * 1000000 \<le> of_int b"
  shows "a \<le> micros x \<and> micros x \<le> b"
proof -
  from assms(1) obtain m e t where x: "x = PyFinite m e t" and r: "lo \<le> float_rat m e" "float_rat m e \<le> hi"
    by (auto simp: float_within_def split: pyfloat.splits)
  from r assms(2,3) have "of_int a \<le> float_rat m e * 1000000" "float_rat m e * 1000000 \<le> of_int b" by linarith+
  from this [THEN round_mono] show ?thesis by (simp add: micros_def x)
qed

lemma tenth_bounds: "0 < fst tenth" "0 < fst hundredth"
  by (simp_all add: tenth_def hundredth_def)

subsection \<open>What create_app builds\<close>

text \<open>\<open>urlparse\<close> finds no scheme in a blank string.\<close>

definition urlparse_documented :: "'k platform \<Rightarrow> bool" where
  "urlparse_documented pf \<longleftrightarrow> (\<forall>url pu. pf_urlparse pf url = Some pu \<longrightarrow> py_strip url = [] \<longrightarrow> pu_scheme pu = [])"

lemma map_sum_Inr [simp]: "map_sum f (\<lambda>v. v) r = Inr v \<longleftrightarrow> r = Inr v"
  by (cases r) auto

lemma accepted_postgres:
  assumes "Settings pf s = Inr s'" and "cs_storage_backend s = str ''postgres''" and "urlparse_documented pf"
  obtains url instance_id where "cs_postgres_url s = Some url" "cs_postgres_instance_id s = Some instance_id"
    "1 \<le> length instance_id" "length instance_id \<le> 128" "py_strip url \<noteq> []"
proof -
  from assms(1,2) obtain url instance_id where u: "cs_postgres_url s = Some url" "check_postgres_url pf url = Inr ()"
    and i: "cs_postgres_instance_id s = Some instance_id" "POSTGRES_INSTANCE_PATTERN instance_id"
    by (auto simp: Settings_Inr check_storage_def str_eq_iff split: if_splits option.splits)
  from i(2) have "1 \<le> length instance_id" "length instance_id \<le> 128"
    by (auto simp: POSTGRES_INSTANCE_PATTERN_def head_tail_def split: list.splits)
  moreover from u(2) obtain pu where "pf_urlparse pf url = Some pu" "pu_scheme pu \<in> {str ''postgres'', str ''postgresql''}"
    by (auto simp: check_postgres_url_def split: option.splits if_splits)
  then have "py_strip url \<noteq> []" using assms(3) by (auto simp: urlparse_documented_def str_def)
  ultimately show ?thesis using that u(1) i(1) by blast
qed

lemma accepted_store:
  assumes "Settings pf s = Inr s'" and "1 \<le> length instance_id" and "length instance_id \<le> 128"
  shows "PostgresChatStore \<lparr>po_config = store_config_of s, po_worker_id = instance_id, po_webhook_lease_seconds = 60\<rparr> =
    Inr \<lparr>po_config = store_config_of s, po_worker_id = instance_id, po_webhook_lease_seconds = 60\<rparr>"
proof -
  have "message_retention_days (store_config_of s) \<noteq> Some 0"
    using accepted_numbers(24) [OF assms(1)] by (auto simp: store_config_of_def)
  then show ?thesis
    using accepted_numbers [OF assms(1)] assms(2,3) by (simp add: PostgresChatStore_def store_config_of_def Let_def)
qed

lemma accepted_runtime:
  assumes "Settings pf s = Inr s'" and "1 \<le> length instance_id" and "length instance_id \<le> 128" and "py_strip url \<noteq> []"
    and "pf_conninfo pf url"
  obtains parts where "PostgresApplicationRuntime pf url instance_id s = Inr parts"
    "po_config (rp_store parts) = store_config_of s" "po_worker_id (rp_store parts) = instance_id"
    "PostgresChatStore (rp_store parts) = Inr (rp_store parts)"
    "rc_instance_id (rp_relay parts) = instance_id" "gc_max_connections (rp_connections parts) = cs_max_connections s"
proof -
  note n = accepted_numbers [OF assms(1)] and t = accepted_durations [OF assms(1)]
  note store = accepted_store [OF assms(1-3)]
  have foundation: "PostgresFoundation (pf_conninfo pf) url (cs_postgres_min_pool_size s) (cs_postgres_max_pool_size s)
      (cs_postgres_pool_timeout_seconds s) (cs_postgres_operation_timeout_seconds s) = Inr ()"
    using n(18-20) t(4) float_positive_within [OF t(3) tenth_bounds(1)] assms(4,5) by (simp add: PostgresFoundation_def)
  have limiter: "PostgresRateLimiter (shared_limiter s scope limit) = Inr (shared_limiter s scope limit)"
    if "scope \<in> set RATE_LIMIT_SCOPES" "1 \<le> limit \<and> limit \<le> 100000" for scope limit
    using that n(21) by (simp add: PostgresRateLimiter_def shared_limiter_def nat_le_iff le_nat_iff)
  have "1000000 \<le> micros (cs_typing_timeout_seconds s) \<and> micros (cs_typing_timeout_seconds s) \<le> 30000000"
    by (rule micros_within [OF t(1)]) simp_all
  moreover have "10000 \<le> micros (cs_postgres_relay_poll_seconds s) \<and> micros (cs_postgres_relay_poll_seconds s) \<le> 5000000"
    by (rule micros_within [OF t(5)]) (simp_all add: hundredth_def)
  ultimately show ?thesis
    using that n(1-7,17,22,23) t(6) assms(2,3)
    by (simp add: PostgresApplicationRuntime_def store foundation limiter RATE_LIMIT_SCOPES_def PostgresConnectionRegistry_def
        PostgresTypingRegistry_def PostgresRealtimeRelay_def validate_lag_limits_def res_bind_Inr)
qed

definition sound_storage :: "settings \<Rightarrow> storage \<Rightarrow> bool" where
  "sound_storage s st \<longleftrightarrow> (case st of
     LocalStorage database cfg _ _ _ _ \<Rightarrow> database = cs_database_path s \<and> cfg = store_config_of s
   | SharedStorage parts \<Rightarrow> po_config (rp_store parts) = store_config_of s \<and>
       PostgresChatStore (rp_store parts) = Inr (rp_store parts) \<and>
       rc_instance_id (rp_relay parts) = po_worker_id (rp_store parts)) \<and>
     1 \<le> max_stored_messages_per_room (store_config_of s) \<and>
     max_stored_messages_per_room (store_config_of s) \<le> max_stored_messages (store_config_of s)"

lemma accepted_storage:
  assumes "Settings pf s = Inr s'" and "urlparse_documented pf" and "\<And>url. cs_postgres_url s = Some url \<Longrightarrow> pf_conninfo pf url"
  shows "\<exists>st. build_storage pf s = Inr st \<and> sound_storage s st"
proof -
  have caps: "1 \<le> max_stored_messages_per_room (store_config_of s)"
    "max_stored_messages_per_room (store_config_of s) \<le> max_stored_messages (store_config_of s)"
    using accepted_numbers(9,10) [OF assms(1)] by (simp_all add: store_config_of_def nat_mono le_nat_iff)
  show ?thesis
  proof (cases "cs_storage_backend s = str ''postgres''")
    case True
    from accepted_postgres [OF assms(1) True assms(2)] obtain url instance_id where u: "cs_postgres_url s = Some url"
      "cs_postgres_instance_id s = Some instance_id" "1 \<le> length instance_id" "length instance_id \<le> 128" "py_strip url \<noteq> []" .
    from accepted_runtime [OF assms(1) u(3-5) assms(3) [OF u(1)]] obtain parts where
      "PostgresApplicationRuntime pf url instance_id s = Inr parts" "po_config (rp_store parts) = store_config_of s"
      "po_worker_id (rp_store parts) = instance_id" "PostgresChatStore (rp_store parts) = Inr (rp_store parts)"
      "rc_instance_id (rp_relay parts) = instance_id" by metis
    then show ?thesis using caps by (simp add: build_storage_def True u sound_storage_def)
  qed (use caps in \<open>simp add: build_storage_def sound_storage_def\<close>)
qed

lemma accepted_tokens:
  assumes "Settings pf s = Inr s'"
  shows "\<exists>tokens. build_tokens pf s = Inr tokens"
proof -
  from assms have c: "check_credentials s = Inr ()" "check_jwks pf s = Inr ()" by (simp_all add: Settings_Inr)
  have "\<exists>svc. AccessTokenService secret (token_profile_of s) = Inr svc" if "cs_token_signing_secret s = Some secret" for secret
    using c(1) that accepted_profile [OF assms]
    by (auto simp: check_credentials_def AccessTokenService_def res_bind_eq_Inr split: if_splits option.splits)
  moreover have "\<exists>jv. from_file (pf_from_dict pf) (pf_loads pf) (pf_read pf path) (token_profile_of s) = Inr jv"
    if "cs_token_verification_jwks_path s = Some path" for path
    using c(2) that by (auto simp: check_jwks_def split: sum.splits auth_error.splits)
  ultimately show ?thesis
    by (cases "cs_token_signing_secret s"; cases "cs_token_verification_jwks_path s") (fastforce simp: build_tokens_def)+
qed

lemma decode_webhook_secret_length: "decode_webhook_secret v = Inr b \<Longrightarrow> 24 \<le> length b \<and> length b \<le> 64"
  by (auto simp: decode_webhook_secret_def split: if_splits option.splits)

lemma accepted_dispatcher:
  assumes "Settings pf s = Inr s'"
  shows "\<exists>d. build_dispatcher s = Inr d \<and> (d \<noteq> None \<longleftrightarrow> cs_webhook_url s \<noteq> None) \<and>
    (\<forall>o'. d = Some o' \<longrightarrow> distinct (do_secrets o') \<and> (\<forall>k\<in>set (do_secrets o'). 24 \<le> length k \<and> length k \<le> 64) \<and>
       (\<exists>pu. pf_urlparse pf (do_url o') = Some pu \<and> url_acceptable (parsed_url.truncate pu) (case pu_hostname pu of Inr h \<Rightarrow> h | Inl _ \<Rightarrow> None)))"
proof (cases "cs_webhook_url s")
  case None
  then show ?thesis by (simp add: build_dispatcher_def)
next
  case (Some url)
  from assms have w: "check_webhook pf s = Inr ()" by (simp add: Settings_Inr)
  note t = accepted_durations(2) [OF assms]
  have pos: "float_positive (cs_webhook_timeout_seconds s)" "float_within 0 30 (cs_webhook_timeout_seconds s)"
    using float_positive_within [OF t tenth_bounds(1)] float_within_weaken [OF t] tenth_bounds(1) by auto
  from w Some obtain secret primary where k: "cs_webhook_signing_secret s = Some secret" "decode_webhook_secret secret = Inr primary"
    and target: "check_webhook_target pf url = Inr ()"
    by (auto simp: check_webhook_def res_bind_eq_Inr split: option.splits if_splits)
  from target obtain pu where pu: "pf_urlparse pf url = Some pu"
    "url_acceptable (parsed_url.truncate pu) (case pu_hostname pu of Inr h \<Rightarrow> h | Inl _ \<Rightarrow> None)"
    by (auto simp: check_webhook_target_def split: option.splits sum.splits if_splits)
  show ?thesis
  proof (cases "cs_webhook_previous_signing_secret s")
    case None
    then show ?thesis using Some k pu decode_webhook_secret_length [OF k(2)] pos
      by (simp add: build_dispatcher_def WebhookDispatcher_def)
  next
    case old: (Some old)
    from w Some k old obtain previous where "decode_webhook_secret old = Inr previous" "primary \<noteq> previous"
      by (auto simp: check_webhook_def res_bind_eq_Inr split: if_splits)
    then show ?thesis using Some k pu old decode_webhook_secret_length pos
      by (auto simp: build_dispatcher_def WebhookDispatcher_def)
  qed
qed

lemma load_keys_length: "load_keys from_dict keys loaded = Inr ks \<Longrightarrow> length ks = length loaded + length keys"
  by (induction from_dict keys loaded arbitrary: ks rule: load_keys.induct) (auto simp: res_bind_eq_Inr)

lemma from_file_keys: "from_file from_dict loads contents tp = Inr jv \<Longrightarrow> jv_keys jv \<noteq> []"
  by (auto simp: from_file_def JWKSAccessTokenVerifier_def res_bind_eq_Inr Let_def dest!: load_keys_length
      split: option.splits json.splits if_splits)

lemma service_secret:
  "AccessTokenService secret tp = Inr svc \<Longrightarrow> \<exists>b. utf8_encode (svc_secret svc) = Some b \<and> 32 \<le> length b"
  by (auto simp: AccessTokenService_def res_bind_eq_Inr split: option.splits if_splits)

lemma strong_tokens:
  assumes "build_tokens pf s = Inr tokens" and "cs_token_signing_secret s \<noteq> None \<or> cs_token_verification_jwks_path s \<noteq> None"
  shows "case tokens of NoTokens \<Rightarrow> False
     | SharedSecret svc \<Rightarrow> \<exists>b. utf8_encode (svc_secret svc) = Some b \<and> 32 \<le> length b
     | PublicKeys jv \<Rightarrow> jv_keys jv \<noteq> []"
  using assms
  by (auto simp: build_tokens_def res_bind_eq_Inr res_map_eq_Inr dest: service_secret dest!: from_file_keys split: option.splits)

subsection \<open>Names in the environment\<close>

definition secret_suffixes :: "string list" where
  "secret_suffixes = [''API_KEY'', ''TOKEN_SIGNING_SECRET'', ''POSTGRES_URL'', ''WEBHOOK_SIGNING_SECRET'',
     ''WEBHOOK_PREVIOUS_SIGNING_SECRET'']"

definition secret_of :: "string \<Rightarrow> string option" where
  "secret_of suffix = map_of (concat (map (\<lambda>secret. [(secret, secret), (secret @ ''_FILE'', secret)]) secret_suffixes)) suffix"

text \<open>The settings whose canonical name is set; a secret is set by its name or by the name of its file.\<close>

definition shadowed :: "environ \<Rightarrow> string \<Rightarrow> bool" where
  "shadowed environ suffix \<longleftrightarrow> (case secret_of suffix of
     Some secret \<Rightarrow> environ (canonical_name secret) \<noteq> None \<or> environ (canonical_name (secret @ ''_FILE'')) \<noteq> None
   | None \<Rightarrow> environ (canonical_name suffix) \<noteq> None)"

definition same_settings :: "environ \<Rightarrow> environ \<Rightarrow> bool" where
  "same_settings e e' \<longleftrightarrow> (\<forall>suffix. e' (canonical_name suffix) = e (canonical_name suffix)) \<and>
     (\<forall>suffix. \<not> shadowed e suffix \<longrightarrow> e' (legacy_name suffix) = e (legacy_name suffix))"

definition plain_suffixes :: "string list" where
  "plain_suffixes = postgres_operational_settings @ [''POSTGRES_OPERATION_TIMEOUT'', ''WEBHOOK_URL'', ''DATABASE'', ''STORAGE'',
     ''TOKEN_VERIFICATION_JWKS_FILE'', ''TOKEN_ISSUER'', ''TOKEN_AUDIENCE'', ''ALLOWED_ORIGINS'', ''WEBHOOK_EVENTS'',
     ''TOKEN_MAX_LIFETIME'', ''TOKEN_CLOCK_SKEW'', ''MAX_MESSAGE_CHARS'', ''MAX_CONNECTIONS'', ''MAX_CONNECTIONS_PER_ROOM'',
     ''MESSAGES_PER_MINUTE'', ''SEARCHES_PER_MINUTE'', ''READ_STATE_QUERIES_PER_MINUTE'', ''MAX_ROOMS'', ''MAX_STORED_MESSAGES'',
     ''MAX_STORED_MESSAGES_PER_ROOM'', ''MAX_READ_STATES_PER_ROOM'', ''MESSAGE_RETENTION_DAYS'', ''MAX_AUDIT_EVENTS'',
     ''TYPING_EVENTS_PER_MINUTE'', ''TYPING_TIMEOUT'', ''WS_AUTH_TIMEOUT'', ''WS_SEND_TIMEOUT'', ''WS_MAX_BYTES'',
     ''WEBHOOK_TIMEOUT'', ''WEBHOOK_MAX_ATTEMPTS'', ''MAX_WEBHOOK_DELIVERIES'', ''WEBHOOK_ALLOW_PRIVATE_TARGETS'']"

lemma plain_suffix: "suffix \<in> set plain_suffixes \<Longrightarrow> secret_of suffix = None"
proof -
  have "list_all (\<lambda>suffix. secret_of suffix = None) plain_suffixes" by code_simp
  then show "suffix \<in> set plain_suffixes \<Longrightarrow> secret_of suffix = None" by (simp add: list_all_iff)
qed

lemma secret_suffix: "suffix \<in> set secret_suffixes \<Longrightarrow> secret_of suffix = Some suffix \<and> secret_of (suffix @ ''_FILE'') = Some suffix"
proof -
  have "list_all (\<lambda>s. secret_of s = Some s \<and> secret_of (s @ ''_FILE'') = Some s) secret_suffixes" by code_simp
  then show "suffix \<in> set secret_suffixes \<Longrightarrow> secret_of suffix = Some suffix \<and> secret_of (suffix @ ''_FILE'') = Some suffix"
    by (simp add: list_all_iff)
qed

lemma same_read_env: "same_settings e e' \<Longrightarrow> suffix \<in> set plain_suffixes \<Longrightarrow> read_env e' suffix = read_env e suffix"
  using plain_suffix [of suffix] by (auto simp: same_settings_def shadowed_def read_env_def split: option.splits)

lemma same_readers:
  assumes "same_settings e e'" and "suffix \<in> set plain_suffixes"
  shows "read_int pf e' suffix = read_int pf e suffix" "read_optional_int pf e' suffix = read_optional_int pf e suffix"
    "read_float pf e' suffix = read_float pf e suffix" "read_bool e' suffix = read_bool e suffix"
  using same_read_env [OF assms] by (simp_all add: fun_eq_iff read_int_def read_optional_int_def read_float_def read_bool_def)

lemma same_read_secret_env:
  assumes "same_settings e e'" and "suffix \<in> set secret_suffixes"
  shows "read_secret_env pf e' suffix = read_secret_env pf e suffix"
proof -
  have c: "e' (canonical_name x) = e (canonical_name x)" for x using assms(1) by (simp add: same_settings_def)
  have "e' (legacy_name suffix) = e (legacy_name suffix)" "e' (legacy_name (suffix @ ''_FILE'')) = e (legacy_name (suffix @ ''_FILE''))"
    if "e (canonical_name suffix) = None" "e (canonical_name (suffix @ ''_FILE'')) = None"
    using assms(1) that secret_suffix [OF assms(2)] by (simp_all add: same_settings_def shadowed_def)
  then show ?thesis
    by (cases "e (canonical_name suffix)"; cases "e (canonical_name (suffix @ ''_FILE''))") (simp_all add: read_secret_env_def c Let_def split: option.split)
qed

lemma same_from_env:
  assumes "same_settings e e'"
  shows "from_env pf e' = from_env pf e"
proof -
  note r = same_read_env [OF assms] same_readers [OF assms] same_read_secret_env [OF assms]
  have p: "read_env e' name = read_env e name" if "name \<in> set postgres_operational_settings" for name
    using r(1) that by (simp add: plain_suffixes_def)
  have g: "read_postgres pf e' = read_postgres pf e" "read_access pf e' = read_access pf e" "read_limits pf e' = read_limits pf e"
    "read_webhooks pf e' = read_webhooks pf e"
    by (simp_all add: fun_eq_iff read_postgres_def read_access_def read_limits_def read_webhooks_def read_origins_def
        read_webhook_events_def r plain_suffixes_def postgres_operational_settings_def secret_suffixes_def)
  show ?thesis unfolding from_env_def g by (simp add: Let_def list_ex_iff r p g plain_suffixes_def secret_suffixes_def)
qed

end
