(* ===== verification/Config_Properties.thy ===== *)
theory Config_Properties
  imports Config_Laws
begin

section \<open>Properties of the configuration, of create_app and of the command line\<close>

text \<open>
  The claims, with a sample platform that can parse one URL and has no files.
\<close>

subsection \<open>Samples\<close>

definition sample_platform :: "unit platform" where
  "sample_platform = \<lparr>pf_read = \<lambda>path. None, pf_exists = \<lambda>path. False, pf_digit = \<lambda>c. None, pf_float = \<lambda>text. None,
     pf_urlparse = \<lambda>url. if url = str ''postgresql://localhost/chat''
       then Some \<lparr>pu_scheme = str ''postgresql'', pu_netloc = str ''localhost'', pu_hostname = Inr (Some (str ''localhost'')),
         pu_port = Inr None, pu_username = None, pu_password = None, pu_path = str ''/chat'', pu_query = [], pu_fragment = [],
         pu_params = []\<rparr>
       else None,
     pf_parse_qs = \<lambda>query. [], pf_loads = \<lambda>bytes. None, pf_from_dict = \<lambda>value algorithm. Inl InvalidKey,
     pf_conninfo = \<lambda>conninfo. True, pf_is_loopback = \<lambda>host. Some False\<rparr>"

lemma names_differ [simp]:
  "canonical_name a = canonical_name b \<longleftrightarrow> a = b" "legacy_name a = legacy_name b \<longleftrightarrow> a = b"
  "canonical_name a \<noteq> legacy_name b" "legacy_name b \<noteq> canonical_name a"
  by (auto simp: canonical_name_def legacy_name_def str_eq_iff)

lemma default_names: "padded_name_ok (str ''samsarix-chat-engine'')" "padded_name_ok (str ''samsarix-chat'')"
  by (simp_all add: padded_name_ok_def str_def py_strip_def py_lstrip_def py_isspace_def)

definition variant :: "pystr \<Rightarrow> pystr option \<Rightarrow> pystr option \<Rightarrow> pystr option \<Rightarrow> settings" where
  "variant storage url instance_id api_key = default_settings\<lparr>cs_storage_backend := storage, cs_postgres_url := url,
     cs_postgres_instance_id := instance_id, cs_api_key := api_key\<rparr>"

lemma variant_accepted:
  assumes "check_storage pf (variant b u i k) = Inr ()" and "check_credentials (variant b u i k) = Inr ()"
  shows "Settings pf (variant b u i k) = Inr (variant b u i k)"
proof -
  let ?s = "variant b u i k"
  have "check_pool ?s = Inr ()" "check_claim_names ?s = Inr ()" "check_jwks pf ?s = Inr ()" "check_relations ?s = Inr ()"
    "check_origins pf (cs_allowed_origins ?s) = Inr ()" "check_webhook pf ?s = Inr ()"
    by (simp_all add: variant_def default_settings_def check_pool_def check_claim_names_def default_names check_jwks_def
        check_relations_def check_webhook_def truthy_def)
  moreover have "check_ranges (ranges ?s) = Inr ()" by (simp add: variant_def default_settings_def ranges_def)
  moreover have "check_durations (durations ?s) = Inr ()"
    by (simp add: variant_def default_settings_def durations_def float_within_def float_rat_def tenth_def hundredth_def)
  ultimately show ?thesis using assms by (simp add: Settings_Inr)
qed

definition sample_pg_settings :: settings where
  "sample_pg_settings = variant (str ''postgres'') (Some (str ''postgresql://localhost/chat'')) (Some (str ''node-1'')) None"

lemma sample_pg_accepted: "Settings sample_platform sample_pg_settings = Inr sample_pg_settings"
  unfolding sample_pg_settings_def
proof (rule variant_accepted)
  have "POSTGRES_INSTANCE_PATTERN (str ''node-1'')" "is_loopback (Some (str ''localhost''))"
    by (simp_all add: POSTGRES_INSTANCE_PATTERN_def head_tail_def str_def lower_def upper_def digit_def is_loopback_def
        LOOPBACK_NAMES_def ascii_lower_def)
  moreover have "length (str ''postgresql://localhost/chat'') = 27" by (simp add: str_def)
  ultimately show "check_storage sample_platform
      (variant (str ''postgres'') (Some (str ''postgresql://localhost/chat'')) (Some (str ''node-1'')) None) = Inr ()"
    by (simp add: check_storage_def check_postgres_url_def sample_platform_def variant_def str_eq_iff)
qed (simp add: check_credentials_def variant_def default_settings_def)

subsection \<open>The service the settings describe\<close>



subsection \<open>Old names\<close>

text \<open>
  C20. The old \<open>HELIX_CHAT_\<close> names never override the new ones: a setting whose \<open>SAMSARIX_CHAT_\<close> variable is
  set, for a secret also its file variable, is the same whatever its old variables hold, and so is the
  error when there is one.
\<close>

theorem canonical_names_win:
  assumes "\<And>suffix. e' (canonical_name suffix) = e (canonical_name suffix)"
    and "\<And>suffix. \<not> shadowed e suffix \<Longrightarrow> e' (legacy_name suffix) = e (legacy_name suffix)"
  shows "from_env pf e' = from_env pf e"
  by (rule same_from_env) (use assms in \<open>auto simp: same_settings_def\<close>)

theorem canonical_names_win_witness:
  "from_env sample_platform [canonical_name ''MAX_ROOMS'' \<mapsto> str ''5'', legacy_name ''MAX_ROOMS'' \<mapsto> str ''many''] =
   from_env sample_platform [canonical_name ''MAX_ROOMS'' \<mapsto> str ''5'']"
proof (rule canonical_names_win)
  fix suffix
  assume "\<not> shadowed [canonical_name ''MAX_ROOMS'' \<mapsto> str ''5''] suffix"
  moreover have "secret_of ''MAX_ROOMS'' = None" by (rule plain_suffix) (simp add: plain_suffixes_def)
  ultimately have "suffix \<noteq> ''MAX_ROOMS''" by (auto simp: shadowed_def)
  then show "[canonical_name ''MAX_ROOMS'' \<mapsto> str ''5'', legacy_name ''MAX_ROOMS'' \<mapsto> str ''many''] (legacy_name suffix) =
    [canonical_name ''MAX_ROOMS'' \<mapsto> str ''5''] (legacy_name suffix)" by simp
qed simp

subsection \<open>Public binds\<close>

text \<open>
  C19. The command line starts a server that other hosts can reach only with authentication: unless the
  operator passed the override, the settings have an API key of at least 16 characters, or the service
  verifies tokens with a secret of at least 32 bytes or with a key set that is not empty.
\<close>

theorem public_service_is_authenticated:
  assumes "cli_main pf J now uuid e (Serve a database) = RunServer sv host port ws_bytes"
    and "\<not> is_loopback_host pf host" and "\<not> sa_allow_insecure_public a"
  shows "\<exists>s. cli_settings pf e (Serve a database) = Inr s \<and> create_app pf s = Inr sv \<and> 1 \<le> port \<and> port \<le> 65535 \<and>
    ((\<exists>k. cs_api_key s = Some k \<and> 16 \<le> length k) \<or>
     (case sv_tokens sv of NoTokens \<Rightarrow> False
      | SharedSecret svc \<Rightarrow> \<exists>b. utf8_encode (svc_secret svc) = Some b \<and> 32 \<le> length b
      | PublicKeys jv \<Rightarrow> jv_keys jv \<noteq> []))"
proof -
  from assms(1) obtain s where s: "cli_settings pf e (Serve a database) = Inr s" "serve_command pf s a = RunServer sv host port ws_bytes"
    by (auto simp: cli_main_def split: sum.splits config_error.splits)
  from s(2) assms(2,3) have c: "create_app pf s = Inr sv" "1 \<le> port \<and> port \<le> 65535" "authentication_configured s"
    by (auto simp: serve_command_def split: if_splits sum.splits)
  from c(1) have t: "build_tokens pf s = Inr (sv_tokens sv)" by (auto simp: create_app_def res_bind_eq_Inr)
  have "16 \<le> length k" if "cs_api_key s = Some k" for k
    using cli_settings_accepted [OF s(1)] that by (auto simp: Settings_Inr check_credentials_def split: if_splits)
  then show ?thesis using s(1) c strong_tokens [OF t] by (cases "cs_api_key s") (auto simp: authentication_configured_def)
qed

definition sample_key :: pystr where
  "sample_key = str ''sixteen letters!''"

definition sample_environ :: environ where
  "sample_environ = [canonical_name ''API_KEY'' \<mapsto> sample_key]"

lemma sample_reads:
  "suffix \<noteq> ''API_KEY'' \<Longrightarrow> read_env sample_environ suffix = None"
  "suffix \<noteq> ''API_KEY'' \<Longrightarrow> suffix @ ''_FILE'' \<noteq> ''API_KEY'' \<Longrightarrow> read_secret_env pf sample_environ suffix = Inr None"
  "read_secret_env pf sample_environ ''API_KEY'' = Inr (Some sample_key)"
  by (simp_all add: sample_environ_def read_env_def read_secret_env_def)

lemma sample_from_env: "from_env sample_platform sample_environ = Inr (variant (str ''sqlite'') None None (Some sample_key))"
proof -
  let ?s = "variant (str ''sqlite'') None None (Some sample_key)"
  have groups: "read_postgres pf sample_environ ?s = Inr ?s" "read_access pf sample_environ ?s = Inr ?s"
    "read_limits pf sample_environ ?s = Inr ?s" "read_webhooks pf sample_environ None ?s = Inr ?s" for pf :: "unit platform"
    by (simp_all add: read_postgres_def read_access_def read_limits_def read_webhooks_def read_int_def read_float_def
        read_optional_int_def read_bool_def read_origins_def read_webhook_events_def sample_reads or_none_def named_or_def
        listed_def first_occurrences_def variant_def default_settings_def)
  have start: "default_settings\<lparr>cs_database_path := named_or (default_database_path sample_platform) None,
      cs_storage_backend := str ''sqlite'', cs_postgres_url := None, cs_api_key := Some sample_key, cs_token_signing_secret := None\<rparr> = ?s"
    by (simp add: variant_def default_settings_def named_or_def or_none_def default_database_path_def sample_platform_def)
  have len: "length sample_key = 16" by (simp add: sample_key_def str_def)
  then have key: "or_none (Some sample_key) = Some sample_key" by (auto simp: or_none_def)
  have "Settings sample_platform ?s = Inr ?s"
  proof (rule variant_accepted)
    show "check_storage sample_platform ?s = Inr ()"
      by (simp add: check_storage_def variant_def default_settings_def postgres_tuning_is_nondefault_def float_is_def float_rat_def)
  qed (simp add: check_credentials_def variant_def default_settings_def len)
  moreover have "named_or (str ''sqlite'') None = str ''sqlite''" "or_none None = None" by (simp_all add: named_or_def or_none_def)
  moreover have "\<not> list_ex (\<lambda>name. read_env sample_environ name \<noteq> None) postgres_operational_settings"
    by (simp add: postgres_operational_settings_def sample_reads)
  ultimately show ?thesis
    by (simp add: from_env_def Let_def sample_reads key start groups str_eq_iff)
qed

theorem public_service_is_authenticated_witness:
  "\<exists>s k. cli_settings sample_platform sample_environ (Serve \<lparr>sa_host = str ''0.0.0.0'', sa_port = 8000, sa_allow_insecure_public = False\<rparr> None) = Inr s \<and>
     cs_api_key s = Some k \<and> 16 \<le> length k"
proof -
  let ?a = "\<lparr>sa_host = str ''0.0.0.0'', sa_port = 8000, sa_allow_insecure_public = False\<rparr>"
  let ?s = "variant (str ''sqlite'') None None (Some sample_key)"
  have s: "cli_settings sample_platform sample_environ (Serve ?a None) = Inr ?s" by (simp add: cli_settings_def sample_from_env)
  have host: "\<not> is_loopback_host sample_platform (str ''0.0.0.0'')"
    by (simp add: is_loopback_host_def sample_platform_def ascii_lower_def str_def upper_def)
  obtain sv where sv: "create_app sample_platform ?s = Inr sv" "sv_tokens sv = NoTokens"
    by (force simp: create_app_def ConnectionManager_def connection_limits_def build_storage_def build_tokens_def build_dispatcher_def
        variant_def default_settings_def str_eq_iff)
  then have "cli_main sample_platform J 0 [] sample_environ (Serve ?a None) = RunServer sv (str ''0.0.0.0'') 8000 (cs_websocket_max_bytes ?s)" for J
    by (simp add: cli_main_def s serve_command_def authentication_configured_def host) (simp add: variant_def)
  from public_service_is_authenticated [OF this host] sv(2) show ?thesis by (auto simp: s)
qed

subsection \<open>Errors that escape\<close>

text \<open>
  Two malformed values raise something else than \<open>ConfigurationError\<close>, which the command line does not
  catch: an allowed origin that \<open>urlparse\<close> refuses, and a signing secret with a byte that is no UTF-8.
\<close>

lemma escaping_origin:
  assumes "pf_urlparse pf origin = None"
  shows "Settings pf (default_settings\<lparr>cs_allowed_origins := [origin]\<rparr>) = Inl UncaughtValueError"
proof -
  let ?s = "default_settings\<lparr>cs_allowed_origins := [origin]\<rparr>"
  have "check_storage pf ?s = Inr ()" "check_pool ?s = Inr ()" "check_credentials ?s = Inr ()" "check_claim_names ?s = Inr ()"
    "check_jwks pf ?s = Inr ()" "check_relations ?s = Inr ()"
    by (simp_all add: default_settings_def check_storage_def postgres_tuning_is_nondefault_def float_is_def float_rat_def
        check_pool_def check_credentials_def check_claim_names_def default_names check_jwks_def check_relations_def)
  moreover have "check_ranges (ranges ?s) = Inr ()" by (simp add: default_settings_def ranges_def)
  moreover have "check_durations (durations ?s) = Inr ()"
    by (simp add: default_settings_def durations_def float_within_def float_rat_def tenth_def hundredth_def)
  ultimately show ?thesis using assms by (simp add: Settings_def post_init_def)
qed

lemma escaping_secret:
  assumes "list_ex surrogate secret"
  shows "Settings pf (default_settings\<lparr>cs_token_signing_secret := Some secret\<rparr>) = Inl UncaughtValueError"
  using assms
  by (simp add: Settings_def post_init_def default_settings_def check_storage_def postgres_tuning_is_nondefault_def float_is_def
      float_rat_def check_pool_def check_credentials_def utf8_encode_def)

end
