(* ===== verification/Body_Limit.thy ===== *)
theory Body_Limit
  imports Py_Parse
begin

section \<open>The size of a request body (app.py)\<close>

text \<open>
  \<open>RequestBodyLimitMiddleware\<close> of \<open>samsarix_chat_engine/app.py\<close>. An ASGI application is a tree: it sends,
  it asks for the next message and goes on with the message or with the exception that \<open>receive\<close> raised,
  and it returns or raises. The wrapped application is an argument, and so are the messages the server has
  for the connection; the wrapper is a transformation of the tree. A JSON response is one effect.
\<close>

subsection \<open>Applications\<close>

datatype asgi_exception = RequestBodyTooLarge | OtherException pystr

datatype asgi_message = HttpRequest "pybytes option" bool | OtherMessage pystr

datatype asgi_event = Sent pystr | JSONResponse int string string

datatype asgi_app =
    AppReturns
  | AppRaises asgi_exception
  | AppSends asgi_event asgi_app
  | AppReceives "asgi_exception + asgi_message \<Rightarrow> asgi_app"

text \<open>What an application does with the messages from number \<open>n\<close> on.\<close>

primrec run_app :: "asgi_app \<Rightarrow> (nat \<Rightarrow> asgi_exception + asgi_message) \<Rightarrow> nat \<Rightarrow> asgi_event list \<times> (asgi_exception + unit)" where
  "run_app AppReturns input n = ([], Inr ())"
| "run_app (AppRaises e) input n = ([], Inl e)"
| "run_app (AppSends x app) input n = (case run_app app input n of (xs, r) \<Rightarrow> (x # xs, r))"
| "run_app (AppReceives k) input n = (\<lambda>m. run_app (k m) input (Suc n)) (input n)"

subsection \<open>The middleware\<close>

definition body_size :: "asgi_message \<Rightarrow> int" where
  "body_size m = (case m of HttpRequest (Some b) more \<Rightarrow> int (length b) | _ \<Rightarrow> 0)"

definition is_request :: "asgi_message \<Rightarrow> bool" where
  "is_request m = (case m of HttpRequest b more \<Rightarrow> True | OtherMessage t \<Rightarrow> False)"

text \<open>One call of \<open>limited_receive\<close>: the answer to the application and the new count of received bytes.\<close>

definition limited_receive :: "int \<Rightarrow> int \<Rightarrow> asgi_exception + asgi_message \<Rightarrow> (asgi_exception + asgi_message) \<times> int" where
  "limited_receive max_body_bytes received answer = (case answer of
     Inl e \<Rightarrow> (Inl e, received)
   | Inr m \<Rightarrow> (if is_request m
       then (let received' = received + body_size m in
         (if max_body_bytes < received' then Inl RequestBodyTooLarge else Inr m, received'))
       else (Inr m, received)))"

primrec with_limited_receive :: "int \<Rightarrow> asgi_app \<Rightarrow> int \<Rightarrow> asgi_app" where
  "with_limited_receive limit AppReturns received = AppReturns"
| "with_limited_receive limit (AppRaises e) received = AppRaises e"
| "with_limited_receive limit (AppSends x app) received = AppSends x (with_limited_receive limit app received)"
| "with_limited_receive limit (AppReceives k) received = AppReceives (\<lambda>answer.
     (\<lambda>m. with_limited_receive limit (k m)) (fst (limited_receive limit received answer))
       (snd (limited_receive limit received answer)))"

definition reject :: asgi_app where
  "reject = AppSends (JSONResponse 413 ''request_too_large'' ''Request body is too large'') AppReturns"

primrec catch_too_large :: "asgi_app \<Rightarrow> asgi_app" where
  "catch_too_large AppReturns = AppReturns"
| "catch_too_large (AppRaises e) = (if e = RequestBodyTooLarge then reject else AppRaises e)"
| "catch_too_large (AppSends x app) = AppSends x (catch_too_large app)"
| "catch_too_large (AppReceives k) = AppReceives (\<lambda>m. catch_too_large (k m))"

text \<open>\<open>int\<close> of a byte string: only ASCII white space and digits, where \<open>int\<close> of a string takes more.\<close>

definition int_of_bytes :: "pybytes \<Rightarrow> int option" where
  "int_of_bytes b = (if list_ex (\<lambda>c. 128 \<le> c \<or> 28 \<le> c \<and> c < 32) b then None else py_int (\<lambda>c. None) b)"

definition declared_too_large :: "int \<Rightarrow> (pybytes \<times> pybytes) list \<Rightarrow> bool" where
  "declared_too_large max_body_bytes headers = (case map_of (rev headers) (str ''content-length'') of
     None \<Rightarrow> False
   | Some value \<Rightarrow> (case int_of_bytes value of None \<Rightarrow> False | Some n \<Rightarrow> max_body_bytes < n))"

definition RequestBodyLimitMiddleware :: "int \<Rightarrow> pystr \<Rightarrow> (pybytes \<times> pybytes) list \<Rightarrow> asgi_app \<Rightarrow> asgi_app" where
  "RequestBodyLimitMiddleware max_body_bytes scope_type headers app =
     (if scope_type \<noteq> str ''http'' then app
      else if declared_too_large max_body_bytes headers then reject
      else catch_too_large (with_limited_receive max_body_bytes app 0))"

subsection \<open>The limit as a property of the messages\<close>

text \<open>
  The reference: \<open>received_by\<close> counts the bytes of the messages before number \<open>n\<close>, and a body message
  whose bytes bring the count above the limit is the exception.
\<close>

primrec received_by :: "(nat \<Rightarrow> asgi_exception + asgi_message) \<Rightarrow> nat \<Rightarrow> int" where
  "received_by input 0 = 0"
| "received_by input (Suc n) = received_by input n + (case input n of Inl e \<Rightarrow> 0 | Inr m \<Rightarrow> body_size m)"

definition bounded_input :: "int \<Rightarrow> (nat \<Rightarrow> asgi_exception + asgi_message) \<Rightarrow> nat \<Rightarrow> asgi_exception + asgi_message" where
  "bounded_input limit input n = (case input n of
     Inl e \<Rightarrow> Inl e
   | Inr m \<Rightarrow> (if is_request m \<and> limit < received_by input (Suc n) then Inl RequestBodyTooLarge else Inr m))"

definition answer_too_large :: "asgi_event list \<times> (asgi_exception + unit) \<Rightarrow> asgi_event list \<times> (asgi_exception + unit)" where
  "answer_too_large run = (if snd run = Inl RequestBodyTooLarge
     then (fst run @ [JSONResponse 413 ''request_too_large'' ''Request body is too large''], Inr ()) else run)"

lemma not_request_is_empty: "\<not> is_request m \<Longrightarrow> body_size m = 0"
  by (cases m) (simp_all add: is_request_def body_size_def)

lemma body_size_nonneg [simp]: "0 \<le> body_size m"
  by (simp add: body_size_def split: asgi_message.split option.split)

lemma limited_receive_bounded:
  "limited_receive limit (received_by input n) (input n) = (bounded_input limit input n, received_by input (Suc n))"
  by (auto simp: limited_receive_def bounded_input_def Let_def not_request_is_empty split: sum.split)

lemma run_limited:
  "run_app (with_limited_receive limit app (received_by input n)) input n = run_app app (bounded_input limit input) n"
proof (induction app arbitrary: n)
  case (AppReceives k)
  then show ?case by (simp only: run_app.simps with_limited_receive.simps limited_receive_bounded fst_conv snd_conv rangeI)
qed simp_all

lemma run_catch: "run_app (catch_too_large app) input n = answer_too_large (run_app app input n)"
  by (induction app arbitrary: n) (auto simp: answer_too_large_def reject_def split: prod.split)

text \<open>The bodies the bounded messages still hold are the messages themselves up to the limit.\<close>

lemma received_by_mono: "m \<le> n \<Longrightarrow> received_by input m \<le> received_by input n"
  by (induction n rule: nat_induct_at_least) (auto split: sum.split intro: add_increasing2)

lemma passed_within_limit:
  assumes "0 \<le> limit"
  shows "received_by (bounded_input limit input) n \<le> limit
    \<and> received_by (bounded_input limit input) n \<le> received_by input n"
proof (induction n)
  case (Suc n)
  consider e where "input n = Inl e" | m where "input n = Inr m" "\<not> is_request m"
    | m where "input n = Inr m" "is_request m" "limit < received_by input (Suc n)"
    | m where "input n = Inr m" "is_request m" "received_by input (Suc n) \<le> limit"
    by (cases "input n") force+
  then show ?case
  proof cases
    case 3
    then show ?thesis using Suc.IH by (simp add: bounded_input_def add_increasing2)
  next
    case 4
    then have "bounded_input limit input n = Inr m" by (simp add: bounded_input_def)
    then show ?thesis using Suc.IH 4 by simp
  qed (use Suc.IH in \<open>simp_all add: bounded_input_def not_request_is_empty\<close>)
qed (use assms in simp)

lemma small_input_unbounded:
  assumes "\<And>n. received_by input n \<le> limit"
  shows "bounded_input limit input = input"
proof
  fix n
  show "bounded_input limit input n = input n"
    using assms [of "Suc n"] by (auto simp: bounded_input_def split: sum.split)
qed

subsection \<open>What the middleware promises\<close>

text \<open>
  C23. An application behind the middleware runs as if the server had given it at most \<open>max_body_bytes\<close> bytes
  of body: it gets the messages of \<open>bounded_input\<close>, whose bodies never add up to more than the limit, the
  exception in place of every body message beyond it, and an exception it lets through is answered with 413.
  A request whose declared length is above the limit is answered with 413 and never reaches it; a request
  whose body stays within the limit is served as without the middleware, unless the application itself
  raises that exception.
\<close>

theorem body_limit_bounds_what_is_read:
  assumes "0 \<le> limit"
  shows "run_app (RequestBodyLimitMiddleware limit (str ''http'') headers app) input 0 =
       (if declared_too_large limit headers
        then ([JSONResponse 413 ''request_too_large'' ''Request body is too large''], Inr ())
        else answer_too_large (run_app app (bounded_input limit input) 0))
    \<and> received_by (bounded_input limit input) n \<le> limit
    \<and> ((\<forall>k. received_by input k \<le> limit) \<longrightarrow> bounded_input limit input = input)"
  using run_limited [of limit app input 0] passed_within_limit [OF assms, of input n] small_input_unbounded [of input limit]
  by (auto simp: RequestBodyLimitMiddleware_def run_catch reject_def)

text \<open>Two chunks of three bytes against a limit of five: the second one is refused and the request is answered with 413.\<close>

definition sample_chunks :: "nat \<Rightarrow> asgi_exception + asgi_message" where
  "sample_chunks n = (if n < 2 then Inr (HttpRequest (Some [49, 50, 51]) (n = 0)) else Inr (OtherMessage (str ''http.disconnect'')))"

definition sample_reader :: asgi_app where
  "sample_reader = AppReceives (\<lambda>m. AppReceives (\<lambda>m'. case m' of Inl e \<Rightarrow> AppRaises e
     | Inr t \<Rightarrow> AppSends (Sent (str ''ok'')) AppReturns))"

theorem body_limit_bounds_what_is_read_witness:
  "run_app (RequestBodyLimitMiddleware 5 (str ''http'') [] sample_reader) sample_chunks 0 =
       ([JSONResponse 413 ''request_too_large'' ''Request body is too large''], Inr ())
    \<and> run_app (RequestBodyLimitMiddleware 6 (str ''http'') [] sample_reader) sample_chunks 0 = ([Sent (str ''ok'')], Inr ())
    \<and> received_by (bounded_input 5 sample_chunks) 2 = 3"
  using body_limit_bounds_what_is_read [of 5 "[]" sample_reader sample_chunks 2]
    body_limit_bounds_what_is_read [of 6 "[]" sample_reader sample_chunks 2]
  by (simp add: declared_too_large_def sample_reader_def sample_chunks_def bounded_input_def is_request_def
      body_size_def answer_too_large_def eval_nat_numeral)

end
