(* ===== verification/Lifecycle.thy ===== *)
theory Lifecycle
  imports Py_Text
begin

section \<open>Start and stop of a process, and its lock on the database (app.py, postgres_runtime.py, store.py)\<close>

text \<open>
  The \<open>lifespan\<close> of \<open>create_app\<close>, \<open>open\<close> and \<open>close\<close> of \<open>PostgresApplicationRuntime\<close>, the restore command of
  \<open>cli.py\<close> and \<open>DatabaseLifecycleLock\<close> of \<open>store.py\<close>. What a call does is another theory's; here a program is
  the sequence of its calls and whether it ends with an exception. An outcome for each call, by its number,
  is an argument, and \<open>try ... finally\<close> is the combinator with its rule that an exception of the last block
  replaces the earlier one. Several processes then run these programs over the locks of the operating system.
\<close>

subsection \<open>Programs as traces\<close>

text \<open>\<open>Cancelled\<close> stands for the exceptions that \<open>except Exception\<close> does not catch.\<close>

datatype failure = FoundationFailure | OtherFailure | Cancelled

datatype life_call =
    AcquireLock | ReleaseLock | InitializeStore | InitializeRelay | StartRelay | StartMaintenance | StartDispatcher
  | Serving | StopDispatcher | AwaitDispatcher | CloseConnections | StopRelay | AwaitTasks | ReleaseInstance | CloseStore
  | CopyDatabase

type_synonym outcomes = "nat \<Rightarrow> failure option"
type_synonym life_program = "outcomes \<Rightarrow> nat \<Rightarrow> life_call list \<times> failure option"

definition no_call :: life_program where
  "no_call out n = ([], None)"

definition call :: "life_call \<Rightarrow> life_program" where
  "call c out n = ([c], out n)"

text \<open>\<open>gather\<close> with \<open>return_exceptions\<close> keeps the exceptions of its tasks to itself: only a cancellation gets through.\<close>

definition call_shielded :: "life_call \<Rightarrow> life_program" where
  "call_shielded c out n = ([c], if out n = Some Cancelled then Some Cancelled else None)"

text \<open>A call that cannot raise, as setting an event or creating a task.\<close>

definition sure_call :: "life_call \<Rightarrow> life_program" where
  "sure_call c out n = ([c], None)"

definition also_run :: "life_program \<Rightarrow> life_program \<Rightarrow> life_program" where
  "also_run p q out n = (case p out n of (cs, r) \<Rightarrow> (case r of
     Some e \<Rightarrow> (cs, Some e)
   | None \<Rightarrow> (case q out (n + length cs) of (ds, r') \<Rightarrow> (cs @ ds, r'))))"

text \<open>\<open>try: p finally: q\<close>; what \<open>q\<close> is may depend on what \<open>p\<close> did.\<close>

definition try_finally :: "life_program \<Rightarrow> (life_call list \<Rightarrow> life_program) \<Rightarrow> life_program" where
  "try_finally p q out n = (case p out n of (cs, r) \<Rightarrow> (case q cs out (n + length cs) of (ds, r') \<Rightarrow>
     (cs @ ds, case r' of None \<Rightarrow> r | Some e \<Rightarrow> Some e)))"

text \<open>\<open>try: p except ...: q\<close>, where \<open>q\<close> gets the exception and says how the statement ends.\<close>

definition try_except :: "life_program \<Rightarrow> (failure \<Rightarrow> life_program) \<Rightarrow> life_program" where
  "try_except p q out n = (case p out n of (cs, r) \<Rightarrow> (case r of
     None \<Rightarrow> (cs, None)
   | Some e \<Rightarrow> (case q e out (n + length cs) of (ds, r') \<Rightarrow> (cs @ ds, r'))))"

definition raise_again :: "failure \<Rightarrow> life_program" where
  "raise_again e out n = ([], Some e)"

subsection \<open>The PostgreSQL runtime\<close>

definition runtime_open :: life_program where
  "runtime_open = also_run (call InitializeStore) (also_run
     (try_except (call InitializeRelay) (\<lambda>e. if e = Cancelled then raise_again e
        else also_run (call CloseStore) (raise_again e)))
     (also_run (sure_call StartRelay) (sure_call StartMaintenance)))"

text \<open>\<open>started\<close>: the tasks exist, as they do when \<open>open\<close> came to its end.\<close>

definition runtime_close :: "bool \<Rightarrow> life_program" where
  "runtime_close started = also_run (sure_call StopRelay) (also_run
     (if started then call_shielded AwaitTasks else no_call)
     (try_finally
       (try_except (call ReleaseInstance) (\<lambda>e. if e = FoundationFailure then no_call else raise_again e))
       (\<lambda>_. call CloseStore)))"

subsection \<open>The lifespan of the application\<close>

text \<open>\<open>shared\<close>: the storage is PostgreSQL, and there is no lock; \<open>dispatcher\<close>: a webhook target is configured.\<close>

definition start_up :: "bool \<Rightarrow> bool \<Rightarrow> life_program" where
  "start_up shared dispatcher = also_run (if shared then runtime_open else call InitializeStore)
     (also_run (if dispatcher then sure_call StartDispatcher else no_call) (call Serving))"

definition shut_down :: "bool \<Rightarrow> bool \<Rightarrow> life_call list \<Rightarrow> life_program" where
  "shut_down shared dispatcher opened = try_finally
     (also_run (if dispatcher then sure_call StopDispatcher else no_call)
       (if StartDispatcher \<in> set opened then call AwaitDispatcher else no_call))
     (\<lambda>_. try_finally (call CloseConnections)
       (\<lambda>_. try_finally (if shared then runtime_close (StartMaintenance \<in> set opened) else call CloseStore)
         (\<lambda>_. if shared then no_call else call ReleaseLock)))"

definition lifespan :: "bool \<Rightarrow> bool \<Rightarrow> life_program" where
  "lifespan shared dispatcher = also_run (if shared then no_call else call AcquireLock)
     (try_finally (start_up shared dispatcher) (shut_down shared dispatcher))"

text \<open>\<open>database restore\<close>: the copy inside the \<open>with\<close> block of the lock.\<close>

definition restore_command :: life_program where
  "restore_command = also_run (call AcquireLock) (try_finally (call CopyDatabase) (\<lambda>_. call ReleaseLock))"

subsection \<open>The lock\<close>

text \<open>
  \<open>os_locks\<close> says which open handle holds the exclusive lock of a file; the operating system grants it to
  one handle and frees it with the handle. \<open>opens\<close> and \<open>writes\<close> are the outcomes of start_up the lock file and
  of the calls before the lock is asked for.
\<close>

record lifecycle_lock =
  lk_path :: pystr
  lk_handle :: "nat option"

type_synonym os_locks = "pystr \<Rightarrow> nat option"

datatype lock_error = LockOSError | DatabaseInUseError

definition DatabaseLifecycleLock :: "(pystr \<Rightarrow> pystr) \<Rightarrow> pystr \<Rightarrow> lifecycle_lock" where
  "DatabaseLifecycleLock resolve database_path = \<lparr>lk_path = resolve database_path @ str ''.lock'', lk_handle = None\<rparr>"

definition lock_acquire ::
  "bool \<Rightarrow> bool \<Rightarrow> nat \<Rightarrow> lifecycle_lock \<Rightarrow> os_locks \<Rightarrow> lock_error + lifecycle_lock \<times> os_locks" where
  "lock_acquire opens writes handle lk os =
     (if lk_handle lk \<noteq> None then Inr (lk, os)
      else if \<not> opens then Inl LockOSError
      else if \<not> writes \<or> os (lk_path lk) \<noteq> None then Inl DatabaseInUseError
      else Inr (lk\<lparr>lk_handle := Some handle\<rparr>, os(lk_path lk \<mapsto> handle)))"

definition lock_release :: "lifecycle_lock \<Rightarrow> os_locks \<Rightarrow> lifecycle_lock \<times> os_locks" where
  "lock_release lk os = (case lk_handle lk of
     None \<Rightarrow> (lk, os)
   | Some handle \<Rightarrow> (lk\<lparr>lk_handle := None\<rparr>, os(lk_path lk := None)))"


subsection \<open>Several processes\<close>

text \<open>
  A process waits to start a job, runs the calls that are left of it with the lock it holds, or has ended. The
  job fixes the outcomes of the calls after the lock is taken. A crash ends a process between two calls, and
  the operating system frees its handle.
\<close>

datatype life_job = ServeJob pystr bool outcomes | RestoreJob pystr outcomes

datatype process = Waiting life_job | Active pystr "life_call list" lifecycle_lock | Ended

record processes =
  ps_process :: "nat \<Rightarrow> process"
  ps_locks :: os_locks

datatype life_event = Starts nat bool bool | Continues nat | Crashes nat

fun job_database :: "life_job \<Rightarrow> pystr" where
  "job_database (ServeJob database dispatcher out) = database"
| "job_database (RestoreJob database out) = database"

text \<open>The calls after a lock that was granted.\<close>

fun job_calls :: "life_job \<Rightarrow> life_call list" where
  "job_calls (ServeJob database dispatcher out) = tl (fst (lifespan False dispatcher (out(0 := None)) 0))"
| "job_calls (RestoreJob database out) = tl (fst (restore_command (out(0 := None)) 0))"

definition freed :: "lifecycle_lock \<Rightarrow> os_locks \<Rightarrow> os_locks" where
  "freed lk os = snd (lock_release lk os)"

fun process_event :: "(pystr \<Rightarrow> pystr) \<Rightarrow> life_event \<Rightarrow> processes \<Rightarrow> processes" where
  "process_event resolve (Starts p opens writes) s = (case ps_process s p of
     Waiting job \<Rightarrow> (case lock_acquire opens writes p (DatabaseLifecycleLock resolve (job_database job)) (ps_locks s) of
       Inl e \<Rightarrow> s\<lparr>ps_process := (ps_process s)(p := Ended)\<rparr>
     | Inr (lk, os) \<Rightarrow> \<lparr>ps_process = (ps_process s)(p := Active (job_database job) (job_calls job) lk), ps_locks = os\<rparr>)
   | _ \<Rightarrow> s)"
| "process_event resolve (Continues p) s = (case ps_process s p of
     Active database (c # cs) lk \<Rightarrow> (if c = ReleaseLock
       then (case lock_release lk (ps_locks s) of (lk', os) \<Rightarrow>
         \<lparr>ps_process = (ps_process s)(p := Active database cs lk'), ps_locks = os\<rparr>)
       else s\<lparr>ps_process := (ps_process s)(p := Active database cs lk)\<rparr>)
   | _ \<Rightarrow> s)"
| "process_event resolve (Crashes p) s = (case ps_process s p of
     Active database cs lk \<Rightarrow> \<lparr>ps_process = (ps_process s)(p := Ended), ps_locks = freed lk (ps_locks s)\<rparr>
   | _ \<Rightarrow> s\<lparr>ps_process := (ps_process s)(p := Ended)\<rparr>)"

definition launched :: "(nat \<Rightarrow> life_job) \<Rightarrow> processes" where
  "launched jobs = \<lparr>ps_process = \<lambda>p. Waiting (jobs p), ps_locks = \<lambda>_. None\<rparr>"

definition process_run :: "(pystr \<Rightarrow> pystr) \<Rightarrow> (nat \<Rightarrow> life_job) \<Rightarrow> life_event list \<Rightarrow> processes" where
  "process_run resolve jobs evs = fold (process_event resolve) evs (launched jobs)"

text \<open>The process still has a call to make on the storage of the database.\<close>

definition uses_database :: "processes \<Rightarrow> nat \<Rightarrow> pystr \<Rightarrow> bool" where
  "uses_database s p database = (case ps_process s p of
     Active d cs lk \<Rightarrow> d = database \<and> list_ex (\<lambda>c. c \<in> {InitializeStore, Serving, CloseStore, CopyDatabase}) cs
   | _ \<Rightarrow> False)"

subsection \<open>What a lifespan does, whatever fails\<close>

lemma fst_try_finally [simp]:
  "fst (try_finally p q out n) = fst (p out n) @ fst (q (fst (p out n)) out (n + length (fst (p out n))))"
  by (simp add: try_finally_def split: prod.split)

lemma snd_try_finally: "snd (try_finally p q out n) = None \<longleftrightarrow>
    snd (p out n) = None \<and> snd (q (fst (p out n)) out (n + length (fst (p out n)))) = None"
  by (simp add: try_finally_def split: prod.split option.split)

lemma fst_also_run: "fst (also_run p q out n) =
    fst (p out n) @ (if snd (p out n) = None then fst (q out (n + length (fst (p out n)))) else [])"
  by (simp add: also_run_def split: prod.split option.split)

lemma snd_also_run: "snd (also_run p q out n) = None \<longleftrightarrow>
    snd (p out n) = None \<and> snd (q out (n + length (fst (p out n)))) = None"
  by (simp add: also_run_def split: prod.split option.split)

lemma snd_simple_calls [simp]:
  "snd (call c out n) = out n" "snd (sure_call c out n) = None" "snd (no_call out n) = None"
  by (simp_all add: call_def sure_call_def no_call_def)

lemma fst_simple_calls [simp]:
  "fst (call c out n) = [c]" "fst (sure_call c out n) = [c]" "fst (no_call out n) = []" "fst (call_shielded c out n) = [c]"
  by (simp_all add: call_def sure_call_def no_call_def call_shielded_def)

definition closing_calls :: "bool \<Rightarrow> bool \<Rightarrow> life_call list \<Rightarrow> life_call list" where
  "closing_calls shared dispatcher opened =
     (if dispatcher then [StopDispatcher] else []) @ (if StartDispatcher \<in> set opened then [AwaitDispatcher] else []) @
     [CloseConnections] @
     (if shared then [StopRelay] @ (if StartMaintenance \<in> set opened then [AwaitTasks] else []) @ [ReleaseInstance, CloseStore]
      else [CloseStore, ReleaseLock])"

lemma fst_runtime_close:
  assumes "\<And>n. out n \<noteq> Some Cancelled"
  shows "fst (runtime_close started out n) = [StopRelay] @ (if started then [AwaitTasks] else []) @ [ReleaseInstance, CloseStore]"
  using assms by (auto simp: runtime_close_def fst_also_run try_except_def call_shielded_def call_def sure_call_def no_call_def
      raise_again_def split: option.split)

lemma fst_shut_down:
  assumes "shared \<Longrightarrow> (\<And>n. out n \<noteq> Some Cancelled)"
  shows "fst (shut_down shared dispatcher opened out n) = closing_calls shared dispatcher opened"
  using assms by (auto simp: shut_down_def closing_calls_def fst_runtime_close fst_also_run)

lemmas program_defs = also_run_def try_except_def call_def sure_call_def no_call_def raise_again_def

lemma start_up_order:
  assumes "fst (start_up shared dispatcher out n) = cs"
  shows "set cs \<subseteq> {InitializeStore, InitializeRelay, CloseStore, StartRelay, StartMaintenance, StartDispatcher, Serving}"
    and "CloseStore \<in> set cs \<Longrightarrow> cs = [InitializeStore, InitializeRelay, CloseStore]"
    and "snd (start_up shared dispatcher out n) = None \<Longrightarrow> Serving \<in> set cs"
    and "Serving \<in> set cs \<Longrightarrow> cs = InitializeStore # (if shared then [InitializeRelay, StartRelay, StartMaintenance] else []) @
      (if dispatcher then [StartDispatcher] else []) @ [Serving]"
  using assms by (auto simp: start_up_def runtime_open_def program_defs split: option.splits if_splits)

lemma fst_lifespan:
  assumes "shared \<Longrightarrow> (\<And>n. out n \<noteq> Some Cancelled)"
  shows "fst (lifespan shared dispatcher out 0) =
    (if shared then fst (start_up shared dispatcher out 0) @ closing_calls shared dispatcher (fst (start_up shared dispatcher out 0))
     else AcquireLock # (if out 0 = None then fst (start_up shared dispatcher out 1) @
       closing_calls shared dispatcher (fst (start_up shared dispatcher out 1)) else []))"
  using assms by (auto simp: lifespan_def fst_also_run fst_shut_down)



subsection \<open>One process per database\<close>

definition brief :: "life_call list \<Rightarrow> bool" where
  "brief cs \<longleftrightarrow> cs \<noteq> [] \<and> last cs = ReleaseLock \<and> ReleaseLock \<notin> set (butlast cs)"

lemma brief_Cons: "brief (c # cs) \<longleftrightarrow> (if cs = [] then c = ReleaseLock else c \<noteq> ReleaseLock \<and> brief cs)"
  by (auto simp: brief_def)

lemma brief_closing: "ReleaseLock \<notin> set opened \<Longrightarrow> brief (opened @ closing_calls False dispatcher opened)"
  by (simp add: brief_def closing_calls_def butlast_append)

lemma brief_job: "brief (job_calls job)"
proof (cases job)
  case (ServeJob database dispatcher out)
  have "ReleaseLock \<notin> set (fst (start_up False dispatcher (out(0 := None)) (Suc 0)))"
    using start_up_order(1) [OF refl, of False dispatcher "out(0 := None)" "Suc 0"] by auto
  then show ?thesis using brief_closing by (simp add: ServeJob fst_lifespan)
next
  case (RestoreJob database out)
  then show ?thesis by (simp add: restore_command_def fst_also_run brief_Cons)
qed

definition process_ok :: "(pystr \<Rightarrow> pystr) \<Rightarrow> processes \<Rightarrow> nat \<Rightarrow> bool" where
  "process_ok resolve s p = (case ps_process s p of
     Active d cs lk \<Rightarrow> lk_path lk = resolve d @ str ''.lock'' \<and>
       (if lk_handle lk = None then cs = [] else lk_handle lk = Some p \<and> ps_locks s (lk_path lk) = Some p \<and> brief cs)
   | _ \<Rightarrow> True)"

lemma process_event_ok:
  assumes "\<And>p. process_ok resolve s p"
  shows "process_ok resolve (process_event resolve ev s) p"
proof -
  have other: "process_ok resolve s q" for q by (rule assms)
  show ?thesis
  proof (cases ev)
    case (Starts q opens writes)
    then show ?thesis using other [of p] other [of q]
      by (auto simp: process_ok_def lock_acquire_def DatabaseLifecycleLock_def brief_job split: process.splits if_splits)
  next
    case (Continues q)
    then show ?thesis using other [of p] other [of q]
      by (auto simp: process_ok_def lock_release_def brief_Cons split: process.splits list.splits if_splits option.splits)
  next
    case (Crashes q)
    then show ?thesis using other [of p] other [of q]
      by (auto simp: process_ok_def lock_release_def freed_def split: process.splits if_splits option.splits)
  qed
qed

lemma process_run_ok: "process_ok resolve (process_run resolve jobs evs) p"
proof -
  have "(\<And>p. process_ok resolve s p) \<Longrightarrow> process_ok resolve (fold (process_event resolve) evs s) p" for s
    by (induction evs arbitrary: s) (simp_all add: process_event_ok)
  then show ?thesis by (simp add: process_run_def process_ok_def launched_def)
qed

text \<open>
  C21. Whatever services and restores are started, refused, run and crash, two different processes are never
  both between taking and leaving the storage of one database: while a service has storage calls left, no other
  service and no restore has a call left on a path that resolves to the same file. In particular a restore
  copies only when no service runs on its database.
\<close>

theorem one_process_uses_a_database:
  assumes "uses_database (process_run resolve jobs evs) p database"
    and "uses_database (process_run resolve jobs evs) q other"
    and "resolve database = resolve other"
  shows "p = q"
  using assms process_run_ok [of resolve jobs evs p] process_run_ok [of resolve jobs evs q]
  by (auto simp: uses_database_def process_ok_def split: process.splits if_splits)

text \<open>A restore is refused while the service runs and copies after the service has ended, here by a crash.\<close>

definition sample_jobs :: "nat \<Rightarrow> life_job" where
  "sample_jobs p = (if p = 0 then ServeJob (str ''chat.db'') False (\<lambda>n. None) else RestoreJob (str ''./chat.db'') (\<lambda>n. None))"

definition sample_resolve :: "pystr \<Rightarrow> pystr" where
  "sample_resolve path = (if take 2 path = str ''./'' then drop 2 path else path)"

definition sample_run :: "life_event list \<Rightarrow> processes" where
  "sample_run evs = process_run sample_resolve sample_jobs evs"

lemmas sample_run_simps = sample_run_def process_run_def launched_def sample_jobs_def sample_resolve_def lock_acquire_def
  DatabaseLifecycleLock_def uses_database_def freed_def lock_release_def fst_lifespan closing_calls_def start_up_def
  fst_also_run restore_command_def str_def

theorem one_process_uses_a_database_witness:
  "uses_database (sample_run [Starts 0 True True, Continues 0, Starts 1 True True]) 0 (str ''chat.db'')
    \<and> ps_process (sample_run [Starts 0 True True, Continues 0, Starts 1 True True]) 1 = Ended
    \<and> uses_database (sample_run [Starts 0 True True, Crashes 0, Starts 2 True True]) 2 (str ''./chat.db'')
    \<and> \<not> uses_database (sample_run [Starts 0 True True, Crashes 0, Starts 2 True True]) 0 (str ''chat.db'')"
proof -
  have serving: "uses_database (sample_run [Starts 0 True True, Continues 0, Starts 1 True True]) 0 (str ''chat.db'')
      \<and> ps_process (sample_run [Starts 0 True True, Continues 0, Starts 1 True True]) 1 = Ended"
    by (simp add: sample_run_simps)
  have restoring: "uses_database (sample_run [Starts 0 True True, Crashes 0, Starts 2 True True]) 2 (str ''./chat.db'')"
    by (simp add: sample_run_simps)
  have same: "sample_resolve (str ''./chat.db'') = sample_resolve (str ''chat.db'')"
    by (simp add: sample_resolve_def str_def)
  have "2 = (0::nat)" if "uses_database (sample_run [Starts 0 True True, Crashes 0, Starts 2 True True]) 0 (str ''chat.db'')"
    using restoring that same unfolding sample_run_def by (rule one_process_uses_a_database)
  then show ?thesis using serving restoring by auto
qed

end
