(* ===== verification/Database_Copy.thy ===== *)
theory Database_Copy
  imports Py_Text
begin

section \<open>Copying a database (store.py)\<close>

text \<open>
  \<open>copy_sqlite_database\<close> of \<open>samsarix_chat_engine/store.py\<close>, which the backup and restore commands call. The
  file system is a map from resolved paths to contents. What SQLite's online backup wrote, its integrity check
  and the outcomes of the calls of the operating system are arguments; so is a file that another process puts
  at the target after it was looked at. The side files that SQLite itself creates and removes while it has the
  source or the temporary file open are not modelled.
\<close>

type_synonym 'b files = "pystr \<Rightarrow> 'b option"

datatype copy_error = CopyValueError | FileNotFoundError | FileExistsError | CopyOSError | SqliteError

text \<open>
  \<open>cp_temporary\<close> is the name of the temporary file, \<open>None\<close> where it cannot be created; \<open>cp_backup\<close> is what
  the backup wrote, or its error with what it left behind.
\<close>

record 'b copy_input =
  cp_mkdir_ok :: bool
  cp_temporary :: "(pystr \<times> 'b) option"
  cp_backup :: "(copy_error \<times> 'b) + 'b"
  cp_integrity :: string
  cp_raced :: "'b option"
  cp_place_ok :: bool
  cp_wal_ok :: bool
  cp_shm_ok :: bool
  cp_cleanup_ok :: bool

definition wal_of :: "pystr \<Rightarrow> pystr" where
  "wal_of target = target @ str ''-wal''"

definition shm_of :: "pystr \<Rightarrow> pystr" where
  "shm_of target = target @ str ''-shm''"

text \<open>\<open>os.replace\<close> takes the place of the target, \<open>os.link\<close> refuses a name that exists.\<close>

definition place_copy :: "bool \<Rightarrow> bool \<Rightarrow> pystr \<Rightarrow> pystr \<Rightarrow> 'b files \<Rightarrow> (copy_error + unit) \<times> 'b files" where
  "place_copy ok replace temporary target fs =
     (if \<not> ok then (Inl CopyOSError, fs)
      else if replace then (Inr (), fs(target := fs temporary, temporary := None))
      else if fs target \<noteq> None then (Inl FileExistsError, fs)
      else (Inr (), fs(target := fs temporary)))"

definition remove_side_files :: "'b copy_input \<Rightarrow> pystr \<Rightarrow> 'b files \<Rightarrow> (copy_error + unit) \<times> 'b files" where
  "remove_side_files cp target fs =
     (if \<not> cp_wal_ok cp then (Inl CopyOSError, fs)
      else if \<not> cp_shm_ok cp then (Inl CopyOSError, fs(wal_of target := None))
      else (Inr (), fs(wal_of target := None, shm_of target := None)))"

definition copy_body :: "'b copy_input \<Rightarrow> bool \<Rightarrow> pystr \<Rightarrow> pystr \<Rightarrow> 'b files \<Rightarrow> (copy_error + unit) \<times> 'b files" where
  "copy_body cp replace temporary target fs = (case cp_backup cp of
     Inl (e, left) \<Rightarrow> (Inl e, fs(temporary \<mapsto> left))
   | Inr pages \<Rightarrow>
       (if cp_integrity cp \<noteq> ''ok'' then (Inl SqliteError, fs(temporary \<mapsto> pages))
        else (let fs1 = fs(temporary \<mapsto> pages);
                  fs2 = (case cp_raced cp of None \<Rightarrow> fs1 | Some other \<Rightarrow> fs1(target \<mapsto> other)) in
          case place_copy (cp_place_ok cp) replace temporary target fs2 of
            (Inl e, fs3) \<Rightarrow> (Inl e, fs3)
          | (Inr u, fs3) \<Rightarrow> remove_side_files cp target fs3)))"

definition copy_sqlite_database ::
  "(pystr \<Rightarrow> pystr) \<Rightarrow> 'b copy_input \<Rightarrow> pystr \<Rightarrow> pystr \<Rightarrow> bool \<Rightarrow> 'b files \<Rightarrow> (copy_error + unit) \<times> 'b files" where
  "copy_sqlite_database resolve cp source_path target_path replace fs =
     (let source = resolve source_path; target = resolve target_path in
      if source = target then (Inl CopyValueError, fs)
      else if fs source = None then (Inl FileNotFoundError, fs)
      else if fs target \<noteq> None \<and> \<not> replace then (Inl FileExistsError, fs)
      else if \<not> cp_mkdir_ok cp then (Inl CopyOSError, fs)
      else (case cp_temporary cp of
        None \<Rightarrow> (Inl CopyOSError, fs)
      | Some (temporary, blank) \<Rightarrow> (case copy_body cp replace temporary target (fs(temporary \<mapsto> blank)) of
          (r, fs') \<Rightarrow> (if cp_cleanup_ok cp then (r, fs'(temporary := None)) else (Inl CopyOSError, fs')))))"

subsection \<open>What a copy does, whatever fails\<close>

text \<open>The contents the target may have after a copy.\<close>

definition complete_copies :: "'b copy_input \<Rightarrow> 'b list" where
  "complete_copies cp = (case cp_backup cp of Inl e \<Rightarrow> [] | Inr pages \<Rightarrow> if cp_integrity cp = ''ok'' then [pages] else [])"

lemma side_names [simp]: "wal_of target \<noteq> target" "shm_of target \<noteq> target" "target \<noteq> wal_of target" "target \<noteq> shm_of target"
    "wal_of target \<noteq> shm_of target"
  by (simp_all add: wal_of_def shm_of_def str_def)

lemmas copy_defs = copy_body_def place_copy_def remove_side_files_def complete_copies_def

lemma copy_body_target:
  assumes "copy_body cp replace temporary target fs = (r, fs')" and "temporary \<noteq> target"
  shows "fs' target = fs target \<or> fs' target = cp_raced cp \<and> cp_raced cp \<noteq> None \<or> (\<exists>b\<in>set (complete_copies cp). fs' target = Some b)"
  using assms by (auto simp: copy_defs Let_def split: sum.splits option.splits if_splits prod.splits)

lemma copy_body_done:
  assumes "copy_body cp replace temporary target fs = (Inr (), fs')" and "temporary \<noteq> target"
  shows "fs' (wal_of target) = None \<and> fs' (shm_of target) = None \<and> (\<exists>b. complete_copies cp = [b] \<and> fs' target = Some b)"
  using assms by (auto simp: copy_defs Let_def split: sum.splits option.splits if_splits prod.splits)

lemma copy_body_keeps:
  assumes "copy_body cp replace temporary target fs = (r, fs')"
    and "path \<notin> {temporary, target, wal_of target, shm_of target}"
  shows "fs' path = fs path"
  using assms by (auto simp: copy_defs Let_def split: sum.splits option.splits if_splits prod.splits)

lemma copy_body_no_clobber:
  assumes "copy_body cp False temporary target fs = (r, fs')" and "cp_raced cp = Some other" and "temporary \<noteq> target"
  shows "fs' target = fs target \<or> fs' target = Some other"
  using assms by (auto simp: copy_defs Let_def split: sum.splits option.splits if_splits prod.splits)

text \<open>A call that ends before it has a temporary file changes nothing and fails; the others run the body.\<close>

lemma copy_cases:
  assumes "copy_sqlite_database resolve cp source_path target_path replace fs = (r, fs')"
  obtains "fs' = fs" "r \<noteq> Inr ()"
  | temporary blank r1 fs1 where "cp_temporary cp = Some (temporary, blank)" "replace \<or> fs (resolve target_path) = None"
      "copy_body cp replace temporary (resolve target_path) (fs(temporary \<mapsto> blank)) = (r1, fs1)"
      "(r, fs') = (if cp_cleanup_ok cp then (r1, fs1(temporary := None)) else (Inl CopyOSError, fs1))"
  using assms unfolding copy_sqlite_database_def Let_def
  by (auto split: if_splits option.splits prod.splits)

text \<open>
  C22. A copy is all or nothing. Whatever fails, the target file is the one that was there, the one another
  process put there meanwhile, or the complete snapshot that passed its integrity check; without the replace
  flag a file that is or appears at the target is never overwritten. A copy that succeeds left the snapshot
  there and no write-ahead log or shared-memory file beside it. No other file changes, and the temporary file
  is gone unless removing it failed, which is reported.
\<close>

theorem copy_is_all_or_nothing:
  assumes "\<forall>t blank. cp_temporary cp = Some (t, blank) \<longrightarrow>
      fs t = None \<and> t \<notin> {resolve target_path, wal_of (resolve target_path), shm_of (resolve target_path)}"
    and "copy_sqlite_database resolve cp source_path target_path replace fs = (r, fs')"
  shows "(fs' (resolve target_path) = fs (resolve target_path)
        \<or> fs' (resolve target_path) = cp_raced cp \<and> cp_raced cp \<noteq> None
        \<or> (\<exists>b\<in>set (complete_copies cp). fs' (resolve target_path) = Some b))
    \<and> (\<not> replace \<and> fs (resolve target_path) \<noteq> None \<longrightarrow> fs' = fs \<and> r \<noteq> Inr ())
    \<and> (\<not> replace \<and> cp_raced cp \<noteq> None \<longrightarrow> fs' (resolve target_path) \<in> {fs (resolve target_path), cp_raced cp})
    \<and> (r = Inr () \<longrightarrow> fs' (wal_of (resolve target_path)) = None \<and> fs' (shm_of (resolve target_path)) = None
        \<and> (\<exists>b. complete_copies cp = [b] \<and> fs' (resolve target_path) = Some b))
    \<and> (\<forall>path. path \<notin> {resolve target_path, wal_of (resolve target_path), shm_of (resolve target_path)}
        \<longrightarrow> fs' path = fs path \<or> \<not> cp_cleanup_ok cp \<and> r = Inl CopyOSError)"
  using assms(2)
proof (cases rule: copy_cases)
  case (2 temporary blank r1 fs1)
  let ?target = "resolve target_path"
  have fresh: "fs temporary = None" "temporary \<noteq> ?target" "temporary \<noteq> wal_of ?target" "temporary \<noteq> shm_of ?target"
    using assms(1) 2(1) by auto
  have target: "fs' ?target = fs1 ?target" and wal: "fs' (wal_of ?target) = fs1 (wal_of ?target)"
    and shm: "fs' (shm_of ?target) = fs1 (shm_of ?target)"
    using 2(4) fresh by (auto split: if_splits)
  have same: "path \<notin> {?target, wal_of ?target, shm_of ?target} \<Longrightarrow> fs' path = fs path \<or> \<not> cp_cleanup_ok cp \<and> r = Inl CopyOSError"
    for path
    using 2(4) copy_body_keeps [OF 2(3), of path] fresh by (auto split: if_splits)
  have success: "r = Inr () \<Longrightarrow> r1 = Inr ()" using 2(4) by (auto split: if_splits)
  have kept: "\<not> replace \<and> cp_raced cp \<noteq> None \<Longrightarrow> fs' ?target \<in> {fs ?target, cp_raced cp}"
    using copy_body_no_clobber [of cp temporary ?target _ r1 fs1] 2(3) fresh target by fastforce
  have "replace \<or> fs ?target = None" by (rule 2(2))
  then show ?thesis
    using copy_body_target [OF 2(3)] copy_body_done [of cp replace temporary ?target _ fs1] 2(3) fresh target wal shm
      same success kept by (intro conjI) auto
qed auto

text \<open>A copy to a new name, and one that another process was faster than.\<close>

definition sample_copy :: "string option \<Rightarrow> string copy_input" where
  "sample_copy raced = \<lparr>cp_mkdir_ok = True, cp_temporary = Some (str ''.b.x.tmp'', []), cp_backup = Inr ''rows'', cp_integrity = ''ok'',
     cp_raced = raced, cp_place_ok = True, cp_wal_ok = True, cp_shm_ok = True, cp_cleanup_ok = True\<rparr>"

definition sample_files :: "string files" where
  "sample_files = [str ''a'' \<mapsto> ''rows'', str ''b-wal'' \<mapsto> ''old'']"

theorem copy_is_all_or_nothing_witness:
  "fst (copy_sqlite_database id (sample_copy None) (str ''a'') (str ''b'') False sample_files) = Inr ()
    \<and> snd (copy_sqlite_database id (sample_copy None) (str ''a'') (str ''b'') False sample_files) (str ''b-wal'') = None
    \<and> snd (copy_sqlite_database id (sample_copy None) (str ''a'') (str ''b'') False sample_files) (str ''b'') = Some ''rows''
    \<and> snd (copy_sqlite_database id (sample_copy (Some ''theirs'')) (str ''a'') (str ''b'') False sample_files) (str ''b'')
        \<in> {None, Some ''theirs''}"
proof -
  have fresh: "\<forall>t blank. cp_temporary (sample_copy raced) = Some (t, blank) \<longrightarrow> sample_files t = None \<and>
      t \<notin> {id (str ''b''), wal_of (id (str ''b'')), shm_of (id (str ''b''))}" for raced
    by (simp add: sample_copy_def sample_files_def wal_of_def shm_of_def str_def)
  note promise = copy_is_all_or_nothing [where resolve = id and target_path = "str ''b''" and fs = sample_files and
      source_path = "str ''a''" and replace = False, OF fresh surjective_pairing]
  have ends: "fst (copy_sqlite_database id (sample_copy None) (str ''a'') (str ''b'') False sample_files) = Inr ()"
    by (simp add: copy_sqlite_database_def copy_defs sample_copy_def sample_files_def str_def wal_of_def Let_def)
  have names: "wal_of (id (str ''b'')) = str ''b-wal''" "complete_copies (sample_copy None) = [''rows'']" "sample_files (str ''b'') = None"
    by (simp_all add: wal_of_def str_def complete_copies_def sample_copy_def sample_files_def)
  have raced: "cp_raced (sample_copy (Some ''theirs'')) = Some ''theirs''" by (simp add: sample_copy_def)
  note success = promise [of None, THEN conjunct2, THEN conjunct2, THEN conjunct2, THEN conjunct1, rule_format, OF ends]
  note kept = promise [of "Some ''theirs''", THEN conjunct2, THEN conjunct2, THEN conjunct1]
  show ?thesis
    using ends success [unfolded names] kept [unfolded names raced] by (simp add: names)
qed

text \<open>
  The snapshot is in place before the old log is removed: when that removal fails, or the process dies between
  the two, the restored file stands beside the log of the database it replaced.
\<close>

lemma failed_unlink_leaves_stale_log:
  "copy_sqlite_database id ((sample_copy None)\<lparr>cp_wal_ok := False\<rparr>) (str ''a'') (str ''b'') True (sample_files(str ''b'' \<mapsto> ''rows0'')) =
     (Inl CopyOSError, sample_files(str ''b'' \<mapsto> ''rows'', str ''.b.x.tmp'' := None))
    \<and> (sample_files(str ''b'' \<mapsto> ''rows'', str ''.b.x.tmp'' := None)) (wal_of (str ''b'')) = Some ''old''"
  by (auto simp: copy_sqlite_database_def copy_defs sample_copy_def sample_files_def str_def wal_of_def Let_def fun_eq_iff)

end
