(* ===== verification/Spec2Isabelle.thy ===== *)
theory Spec2Isabelle
  imports Store_Properties Auth_Properties Connection_Properties Rate_Properties Dispatcher_Properties App_Properties
    Socket_Properties Pg_Relay_Properties Pg_Runtime_Properties Pg_Store_Properties Config_Properties
    Body_Limit Lifecycle Database_Copy
begin

section \<open>The Samsarix chat engine\<close>

text \<open>
  The engine (\<open>samsarix_chat_engine/\<close>) is a chat service for one product: rooms, messages with replies,
  reactions and pins, read states, moderation, an audit trail and a webhook outbox behind an HTTP and a
  WebSocket interface. One process keeps its data in SQLite; several processes share a PostgreSQL
  database and tell each other through an event log. The development models the data, the operations
  and the loops of it, one theory for each part.

  \<^bold>\<open>Parts and theories.\<close>

  \<^item> Vocabulary. \<open>Prelude\<close> has strings as lists of code points, times as microseconds, the result monad
    (\<open>Inl\<close> is a raised exception), update and order of table rows, and the lemmas on lists all parts use.
    \<open>Py_Text\<close>, \<open>Py_Bytes\<close> and \<open>Py_Base64\<close> are what the sources use of \<open>str\<close>, \<open>re\<close>, \<open>json\<close>, UTF-8 and
    base64.
  \<^item> \<open>Models\<close>: the validators of \<open>models.py\<close>.
  \<^item> The SQLite store of \<open>store.py\<close>. \<open>Store_Schema\<close> has the tables, the rows' own reading back into
    models, and the exceptions; \<open>Store_Audit\<close>, \<open>Store_Outbox\<close>, \<open>Store_Rooms\<close>, \<open>Store_Messages\<close>,
    \<open>Store_Reactions\<close> and \<open>Store_Reads\<close> have the transactions, each a function of the tables and of the
    clock and UUID it is given; \<open>Store_Pages\<close> the listings; \<open>Store_System\<close> the commands of a session.
    \<open>Store_Inv\<close> and \<open>Store_Tables\<close> state and keep the invariant of the tables. \<open>Samples\<close> is a small store
    for the witnesses.
  \<^item> \<open>Auth\<close>: principals, token profile and the two verifiers of \<open>auth.py\<close>; the token library is a record
    of functions, its documented behaviour a hypothesis where it is used.
  \<^item> Limits of rate. \<open>Rate_Limits\<close> is the sliding window of \<open>app.py\<close>, \<open>Pg_Rate_Limits\<close> the shared buckets
    of \<open>postgres_rate_limits.py\<close>.
  \<^item> Connections. \<open>Connections\<close> and \<open>Connection_Steps\<close> are \<open>websocket_manager.py\<close>: sockets are numbers,
    connection objects have addresses, and an operation that awaits is cut there.
  \<^item> Webhooks. \<open>Transport\<close> is the single-slot worker of \<open>webhook_transport.py\<close> as interleaved steps,
    \<open>Dispatcher\<close> the policy, the signature and the dispatch turn of \<open>webhooks.py\<close>.
  \<^item> The application of \<open>app.py\<close> for one process. \<open>App_Core\<close> has the errors, settings and the action
    monad of the handlers, \<open>App_Http\<close> and \<open>App_Messages\<close> a function for each route, \<open>App_Laws\<close> what the
    handlers share, \<open>App_Socket\<close> the WebSocket session from the handshake to the cleanup.
  \<^item> Several processes. \<open>Pg_Events\<close> is the event log with its cursors and claims (\<open>postgres.py\<close>),
    \<open>Pg_Leases\<close> the connection and typing registries (\<open>postgres_connections.py\<close>, \<open>postgres_typing.py\<close>),
    \<open>Pg_Relay\<close> the relay of a process (\<open>postgres_realtime.py\<close>), cut at every await, and \<open>Pg_Runtime\<close> the
    admission of a socket and the maintenance pass (\<open>postgres_runtime.py\<close>).
  \<^item> The PostgreSQL store of \<open>postgres_store.py\<close>. \<open>Pg_Store\<close> has its database (the tables of the SQLite store,
    the event log and the leases of the deliveries), the checks of its columns, the events it appends and
    the scrubbing of those it keeps; \<open>Pg_Store_Calls\<close> has its methods, one transaction each. \<open>Pg_Store_Laws\<close>
    and \<open>Pg_Store_Refinement\<close> compare each method with the SQLite command on the tables, \<open>Pg_Store_System\<close>
    has the steps of all processes on one database, \<open>Pg_Store_Log\<close> and \<open>Pg_Store_Claims\<close> what they keep of
    the event log and of a lease. \<open>Pg_Store_Samples\<close> is a small database for the witnesses.
  \<^item> The process. \<open>Config\<close>, \<open>Config_Checks\<close> and \<open>Config_Env\<close> are \<open>config.py\<close>: the readers of variables and secret
    files, the checks of a \<open>Settings\<close> value and \<open>from_env\<close>, over \<open>Py_Parse\<close> (\<open>int\<close>, splitting, UTF-8 decoding).
    \<open>Service\<close> is what \<open>create_app\<close> and the constructor of the PostgreSQL runtime build from the settings, and
    the commands of \<open>cli.py\<close>. \<open>Config_Laws\<close> has what accepted settings guarantee.
    \<open>Lifecycle\<close> is the order of calls of \<open>create_app.lifespan\<close>, \<open>PostgresApplicationRuntime.open\<close> and \<open>close\<close> and the
    restore command, with \<open>DatabaseLifecycleLock\<close>; \<open>Database_Copy\<close> is \<open>copy_sqlite_database\<close>; \<open>Body_Limit\<close> is
    \<open>RequestBodyLimitMiddleware\<close> over any ASGI application.

  A method of the sources is a definition of the same name, or a group of them when it is long; a record
  has the fields of the class or of the table. Conditions are tested in the order of the source, and
  every exception the code raises itself is a value.

  \<^bold>\<open>What is proved.\<close> The \<open>_Properties\<close> theories state the properties, each with a witness that applies it.

  \<^item> \<open>Store_Properties\<close>: every session of commands keeps the table invariant (keys, references, one-level
    threads, summaries, caps, no body left in the outbox of a deleted message); the write gate;
    idempotent creation; monotone cursors; the outbox never evicts what is pending; walking a listing
    visits each row once.
  \<^item> \<open>Auth_Properties\<close>: what an accepted token was signed with, and what its permissions reach.
  \<^item> \<open>Connection_Properties\<close>: byte and event budgets in every reachable manager, what a broadcast does,
    and that an activation ends with an empty queue.
  \<^item> \<open>Rate_Properties\<close>: both limiters against a window specification, which is the locale
    \<open>windowed_limiter\<close>; the retry loop of the shared one ends.
  \<^item> \<open>Dispatcher_Properties\<close>: the outbox goes idle, retries keep their distance, requests follow the
    target policy, the worker has one slot and abandoned work is fenced.
  \<^item> \<open>App_Properties\<close>: an answered call was entitled, a failed one changed and announced nothing, and any
    sequence of calls keeps the store invariant. \<open>Socket_Properties\<close>: the socket writes like the HTTP
    route, what a session starts in its room it also ends, and content needs admission.
  \<^item> \<open>Pg_Events\<close>, \<open>Pg_Relay_Properties\<close>: pruning spares what an active process has not read; a relay skips
    no event between two closings of its sockets, and owns its claim while it says it is ready.
    \<open>Pg_Lease_Properties\<close>: the caps hold across processes, and the events tell exactly who is connected
    and who types. \<open>Pg_Runtime_Properties\<close>: an admission is all or nothing.
  \<^item> \<open>Pg_Store_Properties\<close>: the PostgreSQL store refines the SQLite store, so what is proved of the one holds
    of the other; its event log keeps nothing of a deleted or pruned message; a claimed delivery belongs to
    one worker until the lease ends.
  \<^item> \<open>Config_Properties\<close>: accepted settings build the whole service; old variable names never override the new
    ones; a public server has authentication.
  \<^item> \<open>Body_Limit\<close>: an application reads at most the configured number of body bytes. \<open>Lifecycle\<close>: a process
    closes what it opened, whatever fails, and services and restores take turns on a database.
    \<open>Database_Copy\<close>: a copy is all or nothing.

  The locales \<open>access_token_verifier\<close>, \<open>windowed_limiter\<close> and \<open>paged_listing\<close> are the contracts several
  definitions share; each is interpreted on the definitions of the code.

  \<^bold>\<open>Bounds.\<close> Loops over rows, frames and events are structural recursions. Loops that may run on are step
  relations (the transport, the relay, the shared tables) with invariants of the reachable states. The
  retries of the shared limiter are bounded by the source and proved to end, and so do the dispatcher's
  turns. Python integers are \<open>int\<close> or \<open>nat\<close>; the code has no machine words. Floats occur in JSON values,
  which keep their text, and in the schedules of the dispatcher, where they are rationals.

  \<^bold>\<open>Taken as given.\<close> A SQLite or PostgreSQL transaction is atomic, and the transactions of one database
  come one after the other in the order in which its locks put them. Statements of one transaction may
  read different clocks, and rows locked by others are skipped where the code says so. Calls of the
  database may fail before or after their commit. JSON parsing, pydantic's type coercion, PyJWT,
  HMAC-SHA256, DNS, TLS and HTTP are arguments of the definitions that use them.

  \<^bold>\<open>Not modelled.\<close> Argument parsing, the connection pools, the scheduling of background tasks, the FastAPI
  application, its header middleware and the health and metrics endpoints: input and output and library calls.
  The migrations of older schemas and the streaming of an export: file and cursor handling. Of \<open>postgres_store.py\<close>, the pool and the byte spool of an export; its advisory and row locks
  only order the transactions, and a lock timeout is a transaction that did not happen.
  Scripts, examples, the \<open>helix_chat_engine\<close> aliases and the
  TypeScript client are not part of the service.
\<close>

end
